(* ===== verification/Prelude.thy ===== *)
theory Prelude
  imports Complex_Main "HOL-Library.AList" "HOL-Library.List_Lexorder"
begin

text \<open>
  Shared vocabulary of the development: JavaScript strings, numbers and JSON values, the
  insertion-ordered \<^verbatim>\<open>Map\<close> of the language, generic list lemmas, and the locales that
  describe a component as a fold over an event stream.

  A JavaScript string is its list of UTF-16 code units; \<open>js\<close> embeds an ASCII literal.
  A JavaScript number is a finite value or one of the three non-finite ones; finite values are
  rationals, so the rounding of doubles outside the exact range is not part of the model.
  A \<^verbatim>\<open>Map\<close> or a plain object used as a dictionary is an association list in insertion
  order, with \<^term>\<open>AList.update\<close> (replace in place, else append) as \<^verbatim>\<open>set\<close> and
  \<^term>\<open>AList.delete\<close> as \<^verbatim>\<open>delete\<close>.
\<close>

named_theorems model_defs \<open>definitions a component's proofs unfold together\<close>

section \<open>Strings\<close>

type_synonym jstring = "nat list"

definition js :: "string \<Rightarrow> jstring" where
  "js s = map of_char s"

lemma js_eq_iff [simp]: "js s = js t \<longleftrightarrow> s = t"
  by (simp add: js_def inj_map_eq_map inj_of_char)

lemma js_Nil [simp]: "js s = [] \<longleftrightarrow> s = []" "js [] = []"
  by (simp_all add: js_def)

lemma length_js [simp]: "length (js s) = length s"
  by (simp add: js_def)

definition js_starts_with :: "jstring \<Rightarrow> jstring \<Rightarrow> bool" where
  "js_starts_with s p = (take (length p) s = p)"

lemma js_starts_with_js [simp]: "js_starts_with (js s) (js p) = (take (length p) s = p)"
proof -
  have "take (length p) (js s) = js (take (length p) s)"
    by (simp add: js_def take_map)
  then show ?thesis
    by (simp add: js_starts_with_def)
qed

lemma js_starts_with_append: "js_starts_with s p \<longleftrightarrow> (\<exists>r. s = p @ r)"
  unfolding js_starts_with_def
  by (metis append_eq_conv_conj append_take_drop_id)

text \<open>\<^verbatim>\<open>String.prototype.trim\<close>: the white space and line terminators of the language.\<close>

definition js_space :: "nat \<Rightarrow> bool" where
  "js_space c \<longleftrightarrow> (9 \<le> c \<and> c \<le> 13) \<or> c = 32 \<or> c = 160 \<or> c = 5760 \<or> (8192 \<le> c \<and> c \<le> 8202)
     \<or> c = 8232 \<or> c = 8233 \<or> c = 8239 \<or> c = 8287 \<or> c = 12288 \<or> c = 65279"

definition js_trim :: "jstring \<Rightarrow> jstring" where
  "js_trim s = rev (dropWhile js_space (rev (dropWhile js_space s)))"

text \<open>\<^verbatim>\<open>split\<close> at one code unit (always at least one segment) and \<^verbatim>\<open>join\<close>.\<close>

fun js_split :: "nat \<Rightarrow> jstring \<Rightarrow> jstring list" where
  "js_split c [] = [[]]"
| "js_split c (x # xs) =
    (if x = c then [] # js_split c xs
     else (case js_split c xs of [] \<Rightarrow> [[x]] | s # ss \<Rightarrow> (x # s) # ss))"

fun js_join :: "nat \<Rightarrow> jstring list \<Rightarrow> jstring" where
  "js_join c [] = []"
| "js_join c [s] = s"
| "js_join c (s # ss) = s @ c # js_join c ss"

lemma js_split_ne [simp]: "js_split c s \<noteq> []"
  by (induction s) (auto split: list.splits)

lemma js_split_no_sep: "seg \<in> set (js_split c s) \<Longrightarrow> c \<notin> set seg"
proof (induction s arbitrary: seg)
  case (Cons x s)
  then show ?case
    by (cases "js_split c s") (auto split: if_splits)
qed simp

lemma js_split_seg: "c \<notin> set s \<Longrightarrow> js_split c s = [s]"
  by (induction s) auto

lemma js_split_append: "c \<notin> set s \<Longrightarrow> js_split c (s @ c # r) = s # js_split c r"
  by (induction s) auto

lemma js_split_join:
  "ss \<noteq> [] \<Longrightarrow> (\<And>s. s \<in> set ss \<Longrightarrow> c \<notin> set s) \<Longrightarrow> js_split c (js_join c ss) = ss"
  by (induction c ss rule: js_join.induct) (auto simp: js_split_seg js_split_append)

lemma js_join_split: "js_join c (js_split c s) = s"
proof (induction s)
  case (Cons x s)
  then show ?case
    by (cases "js_split c s"; cases "tl (js_split c s)") auto
qed simp

section \<open>Numbers and JSON values\<close>

datatype jsnum = JNaN | JPosInf | JNegInf | JFin rat

fun is_finite_num :: "jsnum \<Rightarrow> bool" where
  "is_finite_num (JFin _) = True"
| "is_finite_num _ = False"

fun is_integer_num :: "jsnum \<Rightarrow> bool" where
  "is_integer_num (JFin q) = (of_int \<lfloor>q\<rfloor> = q)"
| "is_integer_num _ = False"

fun fin_val :: "jsnum \<Rightarrow> rat" where
  "fin_val (JFin q) = q"
| "fin_val _ = 0"

text \<open>IEEE addition on the non-finite values; exact on finite ones.\<close>

fun jsnum_add :: "jsnum \<Rightarrow> jsnum \<Rightarrow> jsnum" where
  "jsnum_add (JFin a) (JFin b) = JFin (a + b)"
| "jsnum_add JNaN _ = JNaN"
| "jsnum_add _ JNaN = JNaN"
| "jsnum_add JPosInf JNegInf = JNaN"
| "jsnum_add JNegInf JPosInf = JNaN"
| "jsnum_add JPosInf _ = JPosInf"
| "jsnum_add JNegInf _ = JNegInf"
| "jsnum_add _ JPosInf = JPosInf"
| "jsnum_add _ JNegInf = JNegInf"

text \<open>The relational operators: every comparison with NaN is false.\<close>

fun jsnum_less :: "jsnum \<Rightarrow> jsnum \<Rightarrow> bool" where
  "jsnum_less (JFin a) (JFin b) = (a < b)"
| "jsnum_less JNegInf (JFin _) = True"
| "jsnum_less JNegInf JPosInf = True"
| "jsnum_less (JFin _) JPosInf = True"
| "jsnum_less _ _ = False"

datatype jsval =
    JUndef
  | JNull
  | JBool bool
  | JNum jsnum
  | JStr jstring
  | JArr "jsval list"
  | JObj "(jstring \<times> jsval) list"

abbreviation jint :: "int \<Rightarrow> jsval" where
  "jint i \<equiv> JNum (JFin (of_int i))"

text \<open>
  Property access on a value of unknown type, guarded as the sources do it
  (\<^verbatim>\<open>typeof v === "object" && v !== null\<close>). An array has none of the named properties
  the sources read.
\<close>

fun js_get :: "jsval \<Rightarrow> jstring \<Rightarrow> jsval" where
  "js_get (JObj ps) k = (case map_of ps k of Some v \<Rightarrow> v | None \<Rightarrow> JUndef)"
| "js_get _ k = JUndef"

fun js_string :: "jsval \<Rightarrow> jstring option" where
  "js_string (JStr s) = Some s"
| "js_string _ = None"

lemma js_string_eq_Some [simp]: "js_string v = Some s \<longleftrightarrow> v = JStr s"
  by (cases v) auto

section \<open>Lists\<close>

lemma filter_idem_on: "(\<And>x. x \<in> set xs \<Longrightarrow> P x) \<Longrightarrow> filter P xs = xs"
  by (induction xs) auto

lemma find_SomeD: "find P xs = Some x \<Longrightarrow> x \<in> set xs \<and> P x"
  by (auto simp: find_Some_iff)

lemma update_new: "k \<notin> fst ` set al \<Longrightarrow> AList.update k v al = al @ [(k, v)]"
  by (induction al) auto

lemma set_update_cases: "x \<in> set (AList.update k v al) \<Longrightarrow> x = (k, v) \<or> x \<in> set al"
  by (induction al) (auto split: if_splits)

lemma set_delete: "set (AList.delete k al) = {x \<in> set al. fst x \<noteq> k}"
  by (auto simp: AList.delete_eq)

lemma map_of_None_keys: "map_of m k = None \<longleftrightarrow> k \<notin> set (map fst m)"
  by (simp add: map_of_eq_None_iff)

fun somes :: "'a option list \<Rightarrow> 'a list" where
  "somes [] = []"
| "somes (None # xs) = somes xs"
| "somes (Some x # xs) = x # somes xs"

section \<open>Components as folds over an event stream\<close>

text \<open>
  A component that consumes events one at a time. \<open>obs\<close> is the part of the state that an
  absorbing condition \<open>stuck\<close> protects from every later event.
\<close>

locale stream_fold =
  fixes step :: "'s \<Rightarrow> 'e \<Rightarrow> 's"
    and inv :: "'s \<Rightarrow> bool"
  assumes step_inv: "inv s \<Longrightarrow> inv (step s e)"
begin

lemma run_inv: "inv s \<Longrightarrow> inv (foldl step s es)"
  by (induction es arbitrary: s) (auto intro: step_inv)

end

locale absorbing_fold =
  fixes step :: "'s \<Rightarrow> 'e \<Rightarrow> 's"
    and stuck :: "'s \<Rightarrow> bool"
    and obs :: "'s \<Rightarrow> 'o"
  assumes stuck_step: "stuck s \<Longrightarrow> stuck (step s e)"
    and stuck_obs: "stuck s \<Longrightarrow> obs (step s e) = obs s"
begin

lemma run_stuck: "stuck s \<Longrightarrow> stuck (foldl step s es)"
  by (induction es arbitrary: s) (auto intro: stuck_step)

lemma run_obs: "stuck s \<Longrightarrow> obs (foldl step s es) = obs s"
  by (induction es arbitrary: s) (auto simp: stuck_obs stuck_step)

lemma run_obs_append: "stuck (foldl step s es) \<Longrightarrow> obs (foldl step s (es @ es')) = obs (foldl step s es)"
  by (simp add: run_obs)

end

end
