(* ===== verification/Session_States.thy ===== *)
theory Session_States
  imports Prelude
begin

text \<open>
  The normalised session states and their transition table
  (\<^verbatim>\<open>packages/event-model/src/state.ts\<close>): the enum, the state groups, the table, the
  terminal predicates on enum values and on untrusted strings, and the two axes a terminal
  state declares (continuation and evidence).
\<close>

section \<open>Data\<close>

datatype State =
    Created | Starting
  | Running_model_wait | Running_model_streaming | Running_planning
  | Running_tool_preparing | Running_command_executing | Running_file_editing
  | Running_mcp_tool_calling | Running_web_searching | Running_testing
  | Waiting_approval | Waiting_user_input | Waiting_auth
  | Compacting
  | Completed | Failed | Interrupted | Suspended
  | Stalled | Disconnected | Idle

definition ALL_STATES :: "State list" where
  "ALL_STATES =
    [Created, Starting,
     Running_model_wait, Running_model_streaming, Running_planning,
     Running_tool_preparing, Running_command_executing, Running_file_editing,
     Running_mcp_tool_calling, Running_web_searching, Running_testing,
     Waiting_approval, Waiting_user_input, Waiting_auth,
     Compacting,
     Completed, Failed, Interrupted, Suspended,
     Stalled, Disconnected, Idle]"

text \<open>The enum's string values, as stored in the database and sent on the wire.\<close>

fun state_str :: "State \<Rightarrow> string" where
  "state_str Created = ''created''"
| "state_str Starting = ''starting''"
| "state_str Running_model_wait = ''running.model_wait''"
| "state_str Running_model_streaming = ''running.model_streaming''"
| "state_str Running_planning = ''running.planning''"
| "state_str Running_tool_preparing = ''running.tool_preparing''"
| "state_str Running_command_executing = ''running.command_executing''"
| "state_str Running_file_editing = ''running.file_editing''"
| "state_str Running_mcp_tool_calling = ''running.mcp_tool_calling''"
| "state_str Running_web_searching = ''running.web_searching''"
| "state_str Running_testing = ''running.testing''"
| "state_str Waiting_approval = ''waiting.approval''"
| "state_str Waiting_user_input = ''waiting.user_input''"
| "state_str Waiting_auth = ''waiting.auth''"
| "state_str Compacting = ''compacting''"
| "state_str Completed = ''completed''"
| "state_str Failed = ''failed''"
| "state_str Interrupted = ''interrupted''"
| "state_str Suspended = ''suspended''"
| "state_str Stalled = ''stalled''"
| "state_str Disconnected = ''disconnected''"
| "state_str Idle = ''idle''"

definition INITIAL_STATES :: "State list" where
  "INITIAL_STATES = [Created, Starting]"

definition TERMINAL_STATES :: "State list" where
  "TERMINAL_STATES = [Completed, Failed, Interrupted, Suspended]"

definition FAILURE_TERMINAL_STATES :: "State list" where
  "FAILURE_TERMINAL_STATES = [Failed, Interrupted]"

definition RUNNING_STATES :: "State list" where
  "RUNNING_STATES =
    [Running_model_wait, Running_model_streaming, Running_planning,
     Running_tool_preparing, Running_command_executing, Running_file_editing,
     Running_mcp_tool_calling, Running_web_searching, Running_testing]"

definition WAITING_STATES :: "State list" where
  "WAITING_STATES = [Waiting_approval, Waiting_user_input, Waiting_auth]"

definition EXITS :: "State list" where
  "EXITS = TERMINAL_STATES @ [Stalled, Disconnected, Idle]"

section \<open>The transition table\<close>

fun STATE_TRANSITIONS :: "State \<Rightarrow> State list" where
  "STATE_TRANSITIONS Created = [Starting, Disconnected, Failed]"
| "STATE_TRANSITIONS Starting = RUNNING_STATES @ WAITING_STATES @ [Idle, Disconnected, Failed]"
| "STATE_TRANSITIONS Running_model_wait = RUNNING_STATES @ WAITING_STATES @ [Compacting] @ EXITS"
| "STATE_TRANSITIONS Running_model_streaming = RUNNING_STATES @ WAITING_STATES @ [Compacting] @ EXITS"
| "STATE_TRANSITIONS Running_planning = RUNNING_STATES @ WAITING_STATES @ [Compacting] @ EXITS"
| "STATE_TRANSITIONS Running_tool_preparing = RUNNING_STATES @ WAITING_STATES @ [Compacting] @ EXITS"
| "STATE_TRANSITIONS Running_command_executing = RUNNING_STATES @ WAITING_STATES @ [Compacting] @ EXITS"
| "STATE_TRANSITIONS Running_file_editing = RUNNING_STATES @ WAITING_STATES @ [Compacting] @ EXITS"
| "STATE_TRANSITIONS Running_mcp_tool_calling = RUNNING_STATES @ WAITING_STATES @ [Compacting] @ EXITS"
| "STATE_TRANSITIONS Running_web_searching = RUNNING_STATES @ WAITING_STATES @ [Compacting] @ EXITS"
| "STATE_TRANSITIONS Running_testing = RUNNING_STATES @ WAITING_STATES @ [Compacting] @ EXITS"
| "STATE_TRANSITIONS Waiting_approval = RUNNING_STATES @ WAITING_STATES @ EXITS"
| "STATE_TRANSITIONS Waiting_user_input = RUNNING_STATES @ WAITING_STATES @ EXITS"
| "STATE_TRANSITIONS Waiting_auth = RUNNING_STATES @ WAITING_STATES @ EXITS"
| "STATE_TRANSITIONS Compacting = RUNNING_STATES @ WAITING_STATES @ EXITS"
| "STATE_TRANSITIONS Completed = []"
| "STATE_TRANSITIONS Failed = []"
| "STATE_TRANSITIONS Interrupted = []"
| "STATE_TRANSITIONS Suspended = []"
| "STATE_TRANSITIONS Stalled = RUNNING_STATES @ WAITING_STATES @ [Disconnected] @ TERMINAL_STATES"
| "STATE_TRANSITIONS Disconnected = RUNNING_STATES @ WAITING_STATES @ [Stalled] @ TERMINAL_STATES"
| "STATE_TRANSITIONS Idle = RUNNING_STATES @ [Starting] @ TERMINAL_STATES @ [Disconnected]"

definition isTerminalState :: "State \<Rightarrow> bool" where
  "isTerminalState s = (s \<in> set TERMINAL_STATES)"

text \<open>The string variants take a value of a DTO or a database row; \<^term>\<open>None\<close> is undefined.\<close>

definition isTerminalStateValue :: "jstring option \<Rightarrow> bool" where
  "isTerminalStateValue v =
    (case v of None \<Rightarrow> False | Some s \<Rightarrow> s \<in> set (map (\<lambda>t. js (state_str t)) TERMINAL_STATES))"

definition isFailureTerminalStateValue :: "jstring option \<Rightarrow> bool" where
  "isFailureTerminalStateValue v =
    (case v of None \<Rightarrow> False
     | Some s \<Rightarrow> s \<in> set (map (\<lambda>t. js (state_str t)) FAILURE_TERMINAL_STATES))"

text \<open>\<^verbatim>\<open>State.safeParse\<close>: the enum value a string denotes, if any.\<close>

definition state_safeParse :: "jstring option \<Rightarrow> State option" where
  "state_safeParse v =
    (case v of None \<Rightarrow> None | Some s \<Rightarrow> find (\<lambda>t. js (state_str t) = s) ALL_STATES)"

definition isValidTransition :: "State \<Rightarrow> State \<Rightarrow> bool" where
  "isValidTransition frm dst = (frm = dst \<or> dst \<in> set (STATE_TRANSITIONS frm))"

datatype transition_error = InvalidStateTransitionError State State

definition assertValidTransition :: "State \<Rightarrow> State \<Rightarrow> transition_error + unit" where
  "assertValidTransition frm dst =
    (if \<not> isValidTransition frm dst then Inl (InvalidStateTransitionError frm dst) else Inr ())"

section \<open>Orthogonal axes\<close>

datatype LastTurnOutcome = Turn_completed | Turn_failed | Turn_interrupted

datatype Continuation = Resumable | Not_resumable | Continuation_unknown

datatype StartKind = Start_fresh | Start_resume | Start_recovery | Start_clear | Start_unknown

datatype EndKind =
    End_completed | End_failed | End_interrupted | End_unloaded
  | End_cleared | End_logout | End_other | End_unknown

datatype TerminalEvidence = Ev_provider | Ev_process_exit | Ev_timeout | Ev_inferred

fun TERMINAL_CONTINUATION :: "State \<Rightarrow> Continuation option" where
  "TERMINAL_CONTINUATION Completed = Some Not_resumable"
| "TERMINAL_CONTINUATION Failed = Some Continuation_unknown"
| "TERMINAL_CONTINUATION Interrupted = Some Continuation_unknown"
| "TERMINAL_CONTINUATION Suspended = Some Resumable"
| "TERMINAL_CONTINUATION _ = None"

fun TERMINAL_EVIDENCE_DEFAULT :: "State \<Rightarrow> TerminalEvidence option" where
  "TERMINAL_EVIDENCE_DEFAULT Completed = Some Ev_provider"
| "TERMINAL_EVIDENCE_DEFAULT Interrupted = Some Ev_provider"
| "TERMINAL_EVIDENCE_DEFAULT Suspended = Some Ev_provider"
| "TERMINAL_EVIDENCE_DEFAULT Failed = Some Ev_inferred"
| "TERMINAL_EVIDENCE_DEFAULT _ = None"

definition terminalContinuation :: "State option \<Rightarrow> Continuation option" where
  "terminalContinuation s = (case s of Some t \<Rightarrow> TERMINAL_CONTINUATION t | None \<Rightarrow> None)"

definition resolveContinuation :: "Continuation option \<Rightarrow> jstring option \<Rightarrow> Continuation option" where
  "resolveContinuation stored state =
    (case stored of Some c \<Rightarrow> Some c
     | None \<Rightarrow> (case state_safeParse state of
          Some t \<Rightarrow> terminalContinuation (Some t)
        | None \<Rightarrow> None))"

definition terminalEvidenceFor :: "State option \<Rightarrow> TerminalEvidence option" where
  "terminalEvidenceFor s = (case s of Some t \<Rightarrow> TERMINAL_EVIDENCE_DEFAULT t | None \<Rightarrow> None)"

section \<open>Facts about the groups\<close>

lemmas state_groups =
  TERMINAL_STATES_def RUNNING_STATES_def WAITING_STATES_def EXITS_def INITIAL_STATES_def
  FAILURE_TERMINAL_STATES_def

lemma ALL_STATES_complete: "s \<in> set ALL_STATES"
  by (cases s) (simp_all add: ALL_STATES_def)

lemma isTerminalState_simps [simp]:
  "isTerminalState Completed" "isTerminalState Failed"
  "isTerminalState Interrupted" "isTerminalState Suspended"
  by (simp_all add: isTerminalState_def TERMINAL_STATES_def)

lemma isTerminalState_iff:
  "isTerminalState s \<longleftrightarrow> s = Completed \<or> s = Failed \<or> s = Interrupted \<or> s = Suspended"
  by (auto simp: isTerminalState_def TERMINAL_STATES_def)

lemma state_str_inj [simp]: "state_str s = state_str t \<longleftrightarrow> s = t"
  by (cases s; cases t) simp_all

lemma transitions_Nil_iff: "STATE_TRANSITIONS s = [] \<longleftrightarrow> isTerminalState s"
  by (cases s) (simp_all add: isTerminalState_iff state_groups)

lemma terminal_no_exit: "isTerminalState s \<Longrightarrow> isValidTransition s t \<longleftrightarrow> t = s"
  using transitions_Nil_iff [of s] by (auto simp: isValidTransition_def)

lemma find_state: "find (\<lambda>t. t = s) ALL_STATES = Some s"
  by (cases s) (simp_all add: ALL_STATES_def)

lemma state_safeParse_str [simp]: "state_safeParse (Some (js (state_str s))) = Some s"
  by (simp add: state_safeParse_def find_state)

lemma state_safeParse_SomeD: "state_safeParse v = Some s \<Longrightarrow> v = Some (js (state_str s))"
  by (auto simp: state_safeParse_def find_Some_iff split: option.splits)

lemma isTerminalStateValue_str [simp]:
  "isTerminalStateValue (Some (js (state_str s))) = isTerminalState s"
  by (auto simp: isTerminalStateValue_def isTerminalState_def)

lemma isTerminalStateValue_None [simp]: "isTerminalStateValue None = False"
  by (simp add: isTerminalStateValue_def)

lemma valid_from_nonterminal_or_stuck:
  "isValidTransition\<^sup>*\<^sup>* s t \<Longrightarrow> isTerminalState s \<Longrightarrow> t = s"
  by (induction rule: rtranclp_induct) (auto simp: terminal_no_exit)

lemma nonterminal_reaches_running:
  assumes "\<not> isTerminalState s"
  shows "isValidTransition\<^sup>*\<^sup>* s Running_planning"
proof (cases "s = Created")
  case True
  have "isValidTransition Created Starting" "isValidTransition Starting Running_planning"
    by (simp_all add: isValidTransition_def state_groups)
  then show ?thesis
    using True by (meson r_into_rtranclp rtranclp_trans)
next
  case False
  with assms have "isValidTransition s Running_planning"
    by (cases s) (simp_all add: isValidTransition_def state_groups)
  then show ?thesis by simp
qed

section \<open>Properties\<close>

text \<open>
  Terminal states are absorbing and never a dead end for the others: along any number of
  permitted transitions, a terminal state is reached from exactly the non-terminal states and
  itself. So a completed run is never reopened, and no live session is unable to finish.
\<close>

theorem terminal_reachability:
  assumes "isTerminalState t"
  shows "isValidTransition\<^sup>*\<^sup>* s t \<longleftrightarrow> \<not> isTerminalState s \<or> s = t"
proof
  assume "isValidTransition\<^sup>*\<^sup>* s t"
  then show "\<not> isTerminalState s \<or> s = t"
    using valid_from_nonterminal_or_stuck by blast
next
  assume or: "\<not> isTerminalState s \<or> s = t"
  have last: "isValidTransition Running_planning t"
    using assms by (auto simp: isTerminalState_iff isValidTransition_def state_groups)
  show "isValidTransition\<^sup>*\<^sup>* s t"
  proof (cases "s = t")
    case False
    with or have "isValidTransition\<^sup>*\<^sup>* s Running_planning"
      by (blast intro: nonterminal_reaches_running)
    then show ?thesis
      using last by (rule rtranclp.rtrancl_into_rtrancl)
  qed simp
qed

theorem terminal_reachability_witness:
  "isTerminalState Suspended \<and> isValidTransition\<^sup>*\<^sup>* Created Suspended
   \<and> \<not> isValidTransition\<^sup>*\<^sup>* Completed Suspended"
  using terminal_reachability [of Suspended Created] terminal_reachability [of Suspended Completed]
  by (simp add: isTerminalState_iff)

text \<open>
  Context compaction can be entered from the running states only (and re-observed). The
  comment of the table also names the waiting states as a way in; the table does not have it.
\<close>

theorem compacting_entered_from_running:
  "isValidTransition s Compacting \<longleftrightarrow> s \<in> set RUNNING_STATES \<or> s = Compacting"
  by (cases s) (simp_all add: isValidTransition_def state_groups)

text \<open>
  Resolving the continuation of a session is stored-first, and without stored evidence it
  claims something exactly for the strings that denote a terminal state, where it is the
  canonical default of that state.
\<close>

theorem resolveContinuation_spec:
  "resolveContinuation stored v = Some c \<longleftrightarrow>
     stored = Some c \<or>
     stored = None \<and> (\<exists>t. v = Some (js (state_str t)) \<and> isTerminalState t
                           \<and> TERMINAL_CONTINUATION t = Some c)"
proof (cases stored)
  case None
  have *: "TERMINAL_CONTINUATION t = Some c \<Longrightarrow> isTerminalState t" for t
    by (cases t) (simp_all add: isTerminalState_iff)
  show ?thesis
    using None * by (auto simp: resolveContinuation_def terminalContinuation_def
        split: option.splits dest: state_safeParse_SomeD)
qed (simp add: resolveContinuation_def)

end
