(* ===== verification/Events.thy ===== *)
theory Events
  imports Session_States
begin

text \<open>
  The normalised event (\<^verbatim>\<open>packages/event-model/src/event.ts\<close>), its closed vocabulary of
  event types (\<^verbatim>\<open>event-type.ts\<close>), the classification of an event for display
  (\<^verbatim>\<open>action-kind.ts\<close>), and the vocabulary of redaction kinds with the gate every reader and
  writer of per-kind counts goes through (\<^verbatim>\<open>redaction-kinds.ts\<close>).
\<close>

section \<open>Event types\<close>

datatype EventType =
    ET_session_started | ET_session_ended
  | ET_turn_started | ET_turn_plan_updated | ET_turn_completed | ET_turn_failed
  | ET_agent_message_delta | ET_agent_reasoning_summary_delta
  | ET_tool_started | ET_tool_output_delta | ET_tool_completed | ET_tool_failed
  | ET_tool_permission_requested | ET_tool_permission_resolved
  | ET_command_started | ET_command_output_delta | ET_command_completed
  | ET_file_change_proposed | ET_file_change_approved | ET_file_change_applied | ET_diff_updated
  | ET_mcp_call_started | ET_mcp_call_completed | ET_web_search_started
  | ET_subagent_started | ET_subagent_completed
  | ET_context_compacted
  | ET_work_item_updated
  | ET_heartbeat | ET_stalled_detected | ET_error

definition ALL_EVENT_TYPES :: "EventType list" where
  "ALL_EVENT_TYPES =
    [ET_session_started, ET_session_ended,
     ET_turn_started, ET_turn_plan_updated, ET_turn_completed, ET_turn_failed,
     ET_agent_message_delta, ET_agent_reasoning_summary_delta,
     ET_tool_started, ET_tool_output_delta, ET_tool_completed, ET_tool_failed,
     ET_tool_permission_requested, ET_tool_permission_resolved,
     ET_command_started, ET_command_output_delta, ET_command_completed,
     ET_file_change_proposed, ET_file_change_approved, ET_file_change_applied, ET_diff_updated,
     ET_mcp_call_started, ET_mcp_call_completed, ET_web_search_started,
     ET_subagent_started, ET_subagent_completed,
     ET_context_compacted,
     ET_work_item_updated,
     ET_heartbeat, ET_stalled_detected, ET_error]"

fun event_type_str :: "EventType \<Rightarrow> string" where
  "event_type_str ET_session_started = ''session.started''"
| "event_type_str ET_session_ended = ''session.ended''"
| "event_type_str ET_turn_started = ''turn.started''"
| "event_type_str ET_turn_plan_updated = ''turn.plan.updated''"
| "event_type_str ET_turn_completed = ''turn.completed''"
| "event_type_str ET_turn_failed = ''turn.failed''"
| "event_type_str ET_agent_message_delta = ''agent.message.delta''"
| "event_type_str ET_agent_reasoning_summary_delta = ''agent.reasoning_summary.delta''"
| "event_type_str ET_tool_started = ''tool.started''"
| "event_type_str ET_tool_output_delta = ''tool.output.delta''"
| "event_type_str ET_tool_completed = ''tool.completed''"
| "event_type_str ET_tool_failed = ''tool.failed''"
| "event_type_str ET_tool_permission_requested = ''tool.permission.requested''"
| "event_type_str ET_tool_permission_resolved = ''tool.permission.resolved''"
| "event_type_str ET_command_started = ''command.started''"
| "event_type_str ET_command_output_delta = ''command.output.delta''"
| "event_type_str ET_command_completed = ''command.completed''"
| "event_type_str ET_file_change_proposed = ''file.change.proposed''"
| "event_type_str ET_file_change_approved = ''file.change.approved''"
| "event_type_str ET_file_change_applied = ''file.change.applied''"
| "event_type_str ET_diff_updated = ''diff.updated''"
| "event_type_str ET_mcp_call_started = ''mcp.call.started''"
| "event_type_str ET_mcp_call_completed = ''mcp.call.completed''"
| "event_type_str ET_web_search_started = ''web.search.started''"
| "event_type_str ET_subagent_started = ''subagent.started''"
| "event_type_str ET_subagent_completed = ''subagent.completed''"
| "event_type_str ET_context_compacted = ''context.compacted''"
| "event_type_str ET_work_item_updated = ''work.item.updated''"
| "event_type_str ET_heartbeat = ''heartbeat''"
| "event_type_str ET_stalled_detected = ''stalled.detected''"
| "event_type_str ET_error = ''error''"

section \<open>The event\<close>

datatype Source = Src_hooks | Src_app_server | Src_rollout | Src_sdk | Src_external

datatype CaptureMode = Cap_managed | Cap_attach | Cap_codex_rollout

datatype GovernanceMode = Gov_enforcement | Gov_observe_only | Gov_unavailable

text \<open>
  A parsed event. Optional fields are options; \<open>payload\<close> and \<open>metrics\<close> are loose objects and stay
  JSON values. The count fields keep the language's number type, because their consumers check
  it again.
\<close>

record NormalizedEvent =
  ev_event_id :: jstring
  ev_provider :: jstring
  ev_source :: Source
  ev_session_id :: jstring
  ev_provider_session_id :: "jstring option"
  ev_start_kind :: "StartKind option"
  ev_resumed_from_session_id :: "jstring option"
  ev_end_kind :: "EndKind option"
  ev_recoverability :: "Continuation option"
  ev_capture_mode :: "CaptureMode option"
  ev_governance_mode :: "GovernanceMode option"
  ev_permission_mode :: "jstring option"
  ev_redaction_count :: "jsnum option"
  ev_redaction_count_by_kind :: "(jstring \<times> jsnum) list option"
  ev_seq :: "nat option"
  ev_thread_id :: "jstring option"
  ev_turn_id :: "jstring option"
  ev_agent_id :: "jstring option"
  ev_event_type :: EventType
  ev_state :: "State option"
  ev_timestamp :: jstring
  ev_cwd :: "jstring option"
  ev_summary :: "jstring option"
  ev_payload :: jsval
  ev_metrics :: jsval

text \<open>The value \<^verbatim>\<open>ev.state\<close> seen by the string predicates.\<close>

definition ev_state_value :: "NormalizedEvent \<Rightarrow> jstring option" where
  "ev_state_value ev = map_option (\<lambda>s. js (state_str s)) (ev_state ev)"

text \<open>A bare event of a type, for concrete inputs: every optional field absent.\<close>

definition mk_event :: "string \<Rightarrow> EventType \<Rightarrow> State option \<Rightarrow> string \<Rightarrow> jsval \<Rightarrow> NormalizedEvent" where
  "mk_event eid et st ts payload =
    \<lparr>ev_event_id = js eid, ev_provider = js ''codex'', ev_source = Src_hooks, ev_session_id = js ''s'',
     ev_provider_session_id = None, ev_start_kind = None, ev_resumed_from_session_id = None,
     ev_end_kind = None, ev_recoverability = None, ev_capture_mode = None, ev_governance_mode = None,
     ev_permission_mode = None, ev_redaction_count = None, ev_redaction_count_by_kind = None,
     ev_seq = None, ev_thread_id = None, ev_turn_id = None, ev_agent_id = None,
     ev_event_type = et, ev_state = st, ev_timestamp = js ts, ev_cwd = None, ev_summary = None,
     ev_payload = payload, ev_metrics = JObj []\<rparr>"

section \<open>Reading a payload\<close>

definition payloadValue :: "jsval \<Rightarrow> string \<Rightarrow> jsval" where
  "payloadValue payload key = js_get payload (js key)"

definition payloadString :: "jsval \<Rightarrow> string \<Rightarrow> jstring option" where
  "payloadString payload key = js_string (payloadValue payload key)"

section \<open>Action kinds\<close>

datatype ActionKind =
    AK_approval | AK_command | AK_file | AK_tool | AK_mcp | AK_web
  | AK_turn | AK_session | AK_message | AK_liveness | AK_other

definition eventTypeToActionKind :: "jstring \<Rightarrow> ActionKind" where
  "eventTypeToActionKind et =
    (if js_starts_with et (js ''session.'') then AK_session
     else if js_starts_with et (js ''turn.'') then AK_turn
     else if js_starts_with et (js ''tool.permission.'') then AK_approval
     else if js_starts_with et (js ''command.'') then AK_command
     else if js_starts_with et (js ''file.'') \<or> et = js ''diff.updated'' then AK_file
     else if js_starts_with et (js ''mcp.'') then AK_mcp
     else if js_starts_with et (js ''web.'') then AK_web
     else if js_starts_with et (js ''agent.'') then AK_message
     else if et = js ''heartbeat'' \<or> et = js ''stalled.detected'' then AK_liveness
     else if et = js ''error'' then AK_tool
     else if js_starts_with et (js ''tool.'') then AK_tool
     else AK_other)"

section \<open>Redaction kinds\<close>

definition REDACTION_KINDS :: "string list" where
  "REDACTION_KINDS =
    [''private-key'', ''aws-access-key-id'', ''github-token'', ''anthropic-key'', ''openai-key'',
     ''google-api-key'', ''slack-token'', ''stripe-key'', ''gitlab-token'', ''sendgrid-key'',
     ''huggingface-token'', ''azure-ad-client-secret'', ''databricks-token'', ''doppler-token'',
     ''planetscale-token'', ''flyio-token'', ''slack-webhook'', ''discord-webhook'', ''jwt'',
     ''basic-auth'', ''bearer-token'', ''auth-header-scheme'', ''auth-scheme-value'', ''cookie'',
     ''npm-auth-token'', ''credential-assignment'', ''url-credential'', ''high-entropy-secret'',
     ''sentry-dsn'']"

definition isKnownRedactionKind :: "jstring \<Rightarrow> bool" where
  "isKnownRedactionKind k = (k \<in> set (map js REDACTION_KINDS))"

fun positive_integer :: "jsval \<Rightarrow> bool" where
  "positive_integer (JNum n) = (is_integer_num n \<and> 0 < fin_val n)"
| "positive_integer _ = False"

fun num_of :: "jsval \<Rightarrow> jsnum" where
  "num_of (JNum n) = n"
| "num_of _ = JNaN"

text \<open>
  The gate. Entries of anything but a plain object are none; an entry is kept when its key is in
  the closed vocabulary and its value is a positive integer.
\<close>

definition gate_step :: "(jstring \<times> jsnum) list \<Rightarrow> jstring \<times> jsval \<Rightarrow> (jstring \<times> jsnum) list" where
  "gate_step out kv =
    (if \<not> isKnownRedactionKind (fst kv) then out
     else if positive_integer (snd kv) then AList.update (fst kv) (num_of (snd kv)) out
     else out)"

fun gateRedactionCountByKind :: "jsval \<Rightarrow> (jstring \<times> jsnum) list" where
  "gateRedactionCountByKind (JObj entries) = foldl gate_step [] entries"
| "gateRedactionCountByKind _ = []"

definition record_obj :: "(jstring \<times> jsnum) list \<Rightarrow> jsval" where
  "record_obj r = JObj (map (\<lambda>(k, n). (k, JNum n)) r)"

definition gated :: "(jstring \<times> jsnum) list \<Rightarrow> bool" where
  "gated r = (distinct (map fst r)
     \<and> list_all (\<lambda>(k, n). isKnownRedactionKind k \<and> is_integer_num n \<and> 0 < fin_val n) r)"

section \<open>Lemmas\<close>

lemma ALL_EVENT_TYPES_complete: "t \<in> set ALL_EVENT_TYPES"
  by (cases t) (simp_all add: ALL_EVENT_TYPES_def)

lemma event_type_str_inj [simp]: "event_type_str s = event_type_str t \<longleftrightarrow> s = t"
proof
  have d: "distinct (map event_type_str ALL_EVENT_TYPES)"
    by (simp add: ALL_EVENT_TYPES_def)
  assume "event_type_str s = event_type_str t"
  then show "s = t"
    using d ALL_EVENT_TYPES_complete [of s] ALL_EVENT_TYPES_complete [of t]
    by (auto simp: distinct_map dest: inj_onD)
qed simp

lemma isTerminalStateValue_ev [simp]:
  "isTerminalStateValue (ev_state_value ev) = (case ev_state ev of None \<Rightarrow> False | Some s \<Rightarrow> isTerminalState s)"
  by (simp add: ev_state_value_def split: option.splits)

lemma gated_Nil [simp]: "gated []"
  by (simp add: gated_def)

lemma gated_update:
  assumes "gated r" "isKnownRedactionKind k" "is_integer_num n" "0 < fin_val n"
  shows "gated (AList.update k n r)"
proof -
  have "set (AList.update k n r) \<subseteq> insert (k, n) (set r)"
    by (induction r) auto
  then show ?thesis
    using assms by (auto simp: gated_def list_all_iff distinct_update)
qed

lemma positive_integer_num_of:
  "positive_integer v \<Longrightarrow> is_integer_num (num_of v) \<and> 0 < fin_val (num_of v)"
  by (cases v) auto

lemma gated_gate_step: "gated out \<Longrightarrow> gated (gate_step out kv)"
  by (simp add: gate_step_def gated_update positive_integer_num_of)

interpretation gate_loop: stream_fold gate_step gated
  by unfold_locales (rule gated_gate_step)

lemma gate_gated: "gated (gateRedactionCountByKind v)"
  by (cases v) (simp_all add: gate_loop.run_inv)

lemma gate_loop_gated:
  "gated (out @ r) \<Longrightarrow> foldl gate_step out (map (\<lambda>(k, n). (k, JNum n)) r) = out @ r"
proof (induction r arbitrary: out)
  case Nil
  then show ?case by simp
next
  case (Cons kn r)
  obtain k n where kn: "kn = (k, n)" by fastforce
  have new: "k \<notin> fst ` set out" and ok: "isKnownRedactionKind k" "is_integer_num n" "0 < fin_val n"
    using Cons.prems by (auto simp: gated_def kn)
  have "gate_step out (k, JNum n) = out @ [(k, n)]"
    using new ok by (simp add: gate_step_def update_new)
  with Cons.IH [of "out @ [kn]"] Cons.prems show ?case
    by (simp add: kn)
qed

lemma gate_record_obj [simp]: "gated r \<Longrightarrow> gateRedactionCountByKind (record_obj r) = r"
  using gate_loop_gated [of "[]" r] by (simp add: record_obj_def)

section \<open>Properties\<close>

text \<open>
  The approval class of the display vocabulary is exactly the two permission events, and the
  catch-all class is exactly the sub-agent, compaction and work-item events: no other event type
  of the closed vocabulary is classified by accident of prefix order.
\<close>

theorem eventTypeToActionKind_classes:
  "(eventTypeToActionKind (js (event_type_str t)) = AK_approval
     \<longleftrightarrow> t = ET_tool_permission_requested \<or> t = ET_tool_permission_resolved)
   \<and> (eventTypeToActionKind (js (event_type_str t)) = AK_other
     \<longleftrightarrow> t = ET_subagent_started \<or> t = ET_subagent_completed \<or> t = ET_context_compacted
       \<or> t = ET_work_item_updated)"
  by (cases t; simp add: eventTypeToActionKind_def)

text \<open>
  The redaction-count gate is a projection onto well-formed records: its output has distinct
  keys of the closed vocabulary with positive integer counts whatever the input, and gating a
  gated record again changes nothing. So unknown kinds, prototype names and non-counts never
  reach a reader, and the layers that gate repeatedly agree.
\<close>

theorem gateRedactionCountByKind_projection:
  "gated (gateRedactionCountByKind v)
   \<and> gateRedactionCountByKind (record_obj (gateRedactionCountByKind v)) = gateRedactionCountByKind v"
  by (simp add: gate_gated)

end
