(* ===== verification/Session_Projection.thy ===== *)
theory Session_Projection
  imports Events
begin

text \<open>
  The shared state engine (\<^verbatim>\<open>packages/projection/src/index.ts\<close> and \<^verbatim>\<open>bound.ts\<close>): the projection of a
  session that the backend persists and the replay view rebuilds, folded event by event. The
  projection is a record with the fields of \<^verbatim>\<open>SessionProjection\<close>; \<open>applyEvent\<close> is the
  whole reducer step and \<open>reduceEvents\<close> its fold.
\<close>

section \<open>Data\<close>

record PendingApproval =
  pa_request_id :: jstring
  pa_tool_name :: "jstring option"
  pa_command :: "jstring option"
  pa_path :: "jstring option"
  pa_risk_level :: "jstring option"
  pa_requested_at :: jstring
  pa_session_id :: jstring
  pa_trigger :: "jstring option"
  pa_secret_kinds :: "jstring list option"
  pa_persistable :: "bool option"

record SessionProjection =
  sp_session_id :: jstring
  sp_state :: "State option"
  sp_current_action :: "jstring option"
  sp_current_action_kind :: "ActionKind option"
  sp_current_action_subject :: "jstring option"
  sp_last_event_id :: "jstring option"
  sp_last_event_at :: "jstring option"
  sp_needs_attention :: bool
  sp_pending_approvals :: "PendingApproval list"
  sp_invalid_transition_count :: nat
  sp_secret_detected :: bool
  sp_secret_redaction_count :: rat
  sp_secret_redaction_count_by_kind :: "(jstring \<times> jsnum) list"
  sp_last_turn_outcome :: "LastTurnOutcome option"
  sp_continuation :: "Continuation option"
  sp_terminal_evidence :: "TerminalEvidence option"

definition initialProjection :: "jstring \<Rightarrow> SessionProjection" where
  "initialProjection sessionId =
    \<lparr>sp_session_id = sessionId, sp_state = None, sp_current_action = None,
     sp_current_action_kind = None, sp_current_action_subject = None,
     sp_last_event_id = None, sp_last_event_at = None,
     sp_needs_attention = False, sp_pending_approvals = [],
     sp_invalid_transition_count = 0,
     sp_secret_detected = False, sp_secret_redaction_count = 0,
     sp_secret_redaction_count_by_kind = [],
     sp_last_turn_outcome = None, sp_continuation = None, sp_terminal_evidence = None\<rparr>"

record ReduceResult =
  rr_projection :: SessionProjection
  rr_invalidTransition :: bool
  rr_ignoredAfterTerminal :: bool

definition MAX_PENDING_APPROVALS :: nat where
  "MAX_PENDING_APPROVALS = 64"

section \<open>Closed-vocabulary filters\<close>

definition APPROVAL_TRIGGERS :: "string list" where
  "APPROVAL_TRIGGERS = [''destructive'', ''secret'', ''both'']"

definition normalizeTrigger :: "jsval \<Rightarrow> jstring option" where
  "normalizeTrigger v =
    (case js_string v of
       Some s \<Rightarrow> if s \<in> set (map js APPROVAL_TRIGGERS) then Some s else None
     | None \<Rightarrow> None)"

definition secret_kinds_step :: "jstring list \<Rightarrow> jsval \<Rightarrow> jstring list" where
  "secret_kinds_step out k =
    (case js_string k of
       Some s \<Rightarrow> if isKnownRedactionKind s then out @ [s] else out
     | None \<Rightarrow> out)"

fun normalizeSecretKinds :: "jsval \<Rightarrow> jstring list option" where
  "normalizeSecretKinds (JArr vs) =
    (let out = foldl secret_kinds_step [] vs in if length out > 0 then Some out else None)"
| "normalizeSecretKinds _ = None"

fun normalizePersistable :: "jsval \<Rightarrow> bool option" where
  "normalizePersistable (JBool True) = Some True"
| "normalizePersistable _ = None"

section \<open>Reading pending approvals back\<close>

definition pending_of_item :: "jsval \<Rightarrow> jstring \<Rightarrow> PendingApproval" where
  "pending_of_item item rid =
    \<lparr>pa_request_id = rid,
     pa_tool_name = js_string (js_get item (js ''tool_name'')),
     pa_command = js_string (js_get item (js ''command'')),
     pa_path = js_string (js_get item (js ''path'')),
     pa_risk_level = js_string (js_get item (js ''risk_level'')),
     pa_requested_at = (case js_string (js_get item (js ''requested_at'')) of Some s \<Rightarrow> s | None \<Rightarrow> []),
     pa_session_id = (case js_string (js_get item (js ''session_id'')) of Some s \<Rightarrow> s | None \<Rightarrow> []),
     pa_trigger = normalizeTrigger (js_get item (js ''trigger'')),
     pa_secret_kinds = normalizeSecretKinds (js_get item (js ''secret_kinds'')),
     pa_persistable = normalizePersistable (js_get item (js ''persistable''))\<rparr>"

definition parse_pending_step :: "PendingApproval list \<Rightarrow> jsval \<Rightarrow> PendingApproval list" where
  "parse_pending_step out item =
    (case js_string (js_get item (js ''request_id'')) of
       None \<Rightarrow> out
     | Some rid \<Rightarrow> out @ [pending_of_item item rid])"

fun parsePendingApprovals :: "jsval \<Rightarrow> PendingApproval list" where
  "parsePendingApprovals (JArr items) = foldl parse_pending_step [] items"
| "parsePendingApprovals _ = []"

text \<open>
  What \<^verbatim>\<open>JSON.stringify\<close> keeps of a pending approval when the ingest store writes the row:
  a field that is undefined is left out of the object.
\<close>

definition opt_field :: "string \<Rightarrow> ('a \<Rightarrow> jsval) \<Rightarrow> 'a option \<Rightarrow> (jstring \<times> jsval) list" where
  "opt_field k f v = (case v of None \<Rightarrow> [] | Some x \<Rightarrow> [(js k, f x)])"

definition pending_json :: "PendingApproval \<Rightarrow> jsval" where
  "pending_json p = JObj
    ((js ''request_id'', JStr (pa_request_id p))
     # opt_field ''tool_name'' JStr (pa_tool_name p)
     @ opt_field ''command'' JStr (pa_command p)
     @ opt_field ''path'' JStr (pa_path p)
     @ opt_field ''risk_level'' JStr (pa_risk_level p)
     @ (js ''requested_at'', JStr (pa_requested_at p))
     # (js ''session_id'', JStr (pa_session_id p))
     # opt_field ''trigger'' JStr (pa_trigger p)
     @ opt_field ''secret_kinds'' (\<lambda>ks. JArr (map JStr ks)) (pa_secret_kinds p)
     @ opt_field ''persistable'' JBool (pa_persistable p))"

definition pendingApprovalsJson :: "PendingApproval list \<Rightarrow> jsval" where
  "pendingApprovalsJson ps = JArr (map pending_json ps)"

section \<open>The subject of the current action\<close>

definition SUMMARY_SUBJECT_CAP :: nat where
  "SUMMARY_SUBJECT_CAP = 200"

text \<open>The ellipsis is the single code unit U+2026.\<close>

definition boundTurnSummary :: "jstring option \<Rightarrow> jstring option" where
  "boundTurnSummary v =
    (case v of None \<Rightarrow> None
     | Some s \<Rightarrow> Some (if length s > SUMMARY_SUBJECT_CAP
                      then take SUMMARY_SUBJECT_CAP s @ [8230] else s))"

definition deriveActionSubject :: "jstring \<Rightarrow> jsval \<Rightarrow> jstring option" where
  "deriveActionSubject eventType p =
    (if eventType = js ''command.started'' \<or> eventType = js ''command.completed''
        \<or> eventType = js ''tool.failed''
     then payloadString p ''command''
     else if eventType = js ''file.change.proposed'' \<or> eventType = js ''file.change.approved''
        \<or> eventType = js ''file.change.applied''
     then payloadString p ''path''
     else if eventType = js ''tool.permission.requested''
     then (case payloadString p ''command'' of Some s \<Rightarrow> Some s | None \<Rightarrow> payloadString p ''path'')
     else if eventType = js ''mcp.call.started'' \<or> eventType = js ''mcp.call.completed''
     then (case (payloadString p ''server'', payloadString p ''tool'') of
             (Some server, Some tool) \<Rightarrow> Some (server @ js ''/'' @ tool)
           | (Some server, None) \<Rightarrow> Some server
           | (None, tool) \<Rightarrow> tool)
     else if eventType = js ''web.search.started'' then payloadString p ''query''
     else if eventType = js ''tool.started'' \<or> eventType = js ''tool.completed''
     then payloadString p ''tool_name''
     else if eventType = js ''turn.started'' then boundTurnSummary (payloadString p ''prompt_summary'')
     else if eventType = js ''turn.completed'' then boundTurnSummary (payloadString p ''response_summary'')
     else if eventType = js ''session.ended'' then payloadString p ''reason''
     else if eventType = js ''turn.failed''
     then (case payloadString p ''error'' of Some s \<Rightarrow> Some s | None \<Rightarrow> payloadString p ''reason'')
     else None)"

definition deriveCurrentActionSubject :: "NormalizedEvent \<Rightarrow> jstring option" where
  "deriveCurrentActionSubject ev =
    deriveActionSubject (js (event_type_str (ev_event_type ev))) (ev_payload ev)"

section \<open>Folding the pending approvals\<close>

definition pending_entry :: "NormalizedEvent \<Rightarrow> jstring \<Rightarrow> PendingApproval" where
  "pending_entry ev rid =
    \<lparr>pa_request_id = rid,
     pa_tool_name = payloadString (ev_payload ev) ''tool_name'',
     pa_command = payloadString (ev_payload ev) ''command'',
     pa_path = payloadString (ev_payload ev) ''path'',
     pa_risk_level = payloadString (ev_payload ev) ''risk_level'',
     pa_requested_at = ev_timestamp ev,
     pa_session_id = ev_session_id ev,
     pa_trigger = normalizeTrigger (payloadValue (ev_payload ev) ''trigger''),
     pa_secret_kinds = normalizeSecretKinds (payloadValue (ev_payload ev) ''secret_kinds''),
     pa_persistable = normalizePersistable (payloadValue (ev_payload ev) ''persistable'')\<rparr>"

definition foldPendingApprovals :: "PendingApproval list \<Rightarrow> NormalizedEvent \<Rightarrow> PendingApproval list" where
  "foldPendingApprovals prev ev =
    (if ev_event_type ev = ET_tool_permission_requested then
       (case payloadString (ev_payload ev) ''request_id'' of
          None \<Rightarrow> prev
        | Some requestId \<Rightarrow>
            let next = filter (\<lambda>p. pa_request_id p \<noteq> requestId) prev @ [pending_entry ev requestId]
            in if length next > MAX_PENDING_APPROVALS
               then drop (length next - MAX_PENDING_APPROVALS) next else next)
     else if ev_event_type ev = ET_tool_permission_resolved then
       (case payloadString (ev_payload ev) ''request_id'' of
          None \<Rightarrow> []
        | Some requestId \<Rightarrow> filter (\<lambda>p. pa_request_id p \<noteq> requestId) prev)
     else prev)"

section \<open>Folding the redaction counts\<close>

definition add_kind :: "(jstring \<times> jsnum) list \<Rightarrow> jstring \<times> jsnum \<Rightarrow> (jstring \<times> jsnum) list" where
  "add_kind out kn =
    AList.update (fst kn)
      (jsnum_add (case map_of out (fst kn) of Some n \<Rightarrow> n | None \<Rightarrow> JFin 0) (snd kn)) out"

definition mergeRedactionCountByKind ::
  "(jstring \<times> jsnum) list \<Rightarrow> (jstring \<times> jsnum) list option \<Rightarrow> (jstring \<times> jsnum) list" where
  "mergeRedactionCountByKind prev incoming =
    (case incoming of
       None \<Rightarrow> prev
     | Some r \<Rightarrow>
         (let inc = gateRedactionCountByKind (record_obj r)
          in if inc = [] then prev
             else foldl add_kind (gateRedactionCountByKind (record_obj prev)) inc))"

definition deriveNeedsAttention :: "State option \<Rightarrow> nat \<Rightarrow> bool" where
  "deriveNeedsAttention resultState pendingCount =
    (if pendingCount > 0 then True
     else case resultState of
            Some s \<Rightarrow> js_starts_with (js (state_str s)) (js ''waiting.'')
          | None \<Rightarrow> False)"

section \<open>The reducer\<close>

definition evRedactionCount :: "NormalizedEvent \<Rightarrow> rat" where
  "evRedactionCount ev =
    (case ev_redaction_count ev of
       Some n \<Rightarrow> if is_finite_num n then fin_val n else 0
     | None \<Rightarrow> 0)"

definition isReapply :: "SessionProjection \<Rightarrow> NormalizedEvent \<Rightarrow> bool" where
  "isReapply prev ev = (sp_last_event_id prev = Some (ev_event_id ev))"

definition terminal_opt :: "State option \<Rightarrow> bool" where
  "terminal_opt s = (case s of Some t \<Rightarrow> isTerminalState t | None \<Rightarrow> False)"

definition next_turn_outcome :: "SessionProjection \<Rightarrow> NormalizedEvent \<Rightarrow> LastTurnOutcome option" where
  "next_turn_outcome prev ev =
    (if terminal_opt (sp_state prev) then sp_last_turn_outcome prev
     else if ev_event_type ev = ET_turn_completed then Some Turn_completed
     else if ev_event_type ev = ET_turn_failed then Some Turn_failed
     else sp_last_turn_outcome prev)"

definition base_next :: "SessionProjection \<Rightarrow> NormalizedEvent \<Rightarrow> SessionProjection" where
  "base_next prev ev =
    prev\<lparr>sp_last_event_id := Some (ev_event_id ev),
         sp_last_event_at := Some (ev_timestamp ev),
         sp_current_action := (case ev_summary ev of Some s \<Rightarrow> Some s | None \<Rightarrow> sp_current_action prev),
         sp_current_action_kind := Some (eventTypeToActionKind (js (event_type_str (ev_event_type ev)))),
         sp_current_action_subject := deriveCurrentActionSubject ev,
         sp_pending_approvals := foldPendingApprovals (sp_pending_approvals prev) ev,
         sp_secret_detected :=
           (if isReapply prev ev then sp_secret_detected prev
            else sp_secret_detected prev \<or> evRedactionCount ev > 0),
         sp_secret_redaction_count :=
           (if isReapply prev ev then sp_secret_redaction_count prev
            else sp_secret_redaction_count prev + evRedactionCount ev),
         sp_secret_redaction_count_by_kind :=
           (if isReapply prev ev then sp_secret_redaction_count_by_kind prev
            else mergeRedactionCountByKind (sp_secret_redaction_count_by_kind prev)
                   (ev_redaction_count_by_kind ev)),
         sp_last_turn_outcome := next_turn_outcome prev ev\<rparr>"

text \<open>The closure \<^verbatim>\<open>finalize\<close> of the step, with what it captures as arguments.\<close>

definition finalize_projection ::
  "SessionProjection \<Rightarrow> NormalizedEvent \<Rightarrow> State option \<Rightarrow> SessionProjection" where
  "finalize_projection prev ev resultState =
    (let terminal = terminal_opt resultState;
         enteredTerminal = (terminal \<and> \<not> terminal_opt (sp_state prev));
         effectivePending = (if enteredTerminal then [] else foldPendingApprovals (sp_pending_approvals prev) ev);
         base = (base_next prev ev)\<lparr>sp_pending_approvals := effectivePending\<rparr>;
         withState = (case resultState of Some s \<Rightarrow> base\<lparr>sp_state := Some s\<rparr> | None \<Rightarrow> base)
     in withState\<lparr>sp_needs_attention := deriveNeedsAttention resultState (length effectivePending),
                  sp_continuation := (if terminal then terminalContinuation resultState else None),
                  sp_terminal_evidence := (if terminal then terminalEvidenceFor resultState else None)\<rparr>)"

definition applyEvent :: "SessionProjection \<Rightarrow> NormalizedEvent \<Rightarrow> ReduceResult" where
  "applyEvent prev ev =
    (case ev_state ev of
       None \<Rightarrow>
         \<lparr>rr_projection = finalize_projection prev ev (sp_state prev),
          rr_invalidTransition = False, rr_ignoredAfterTerminal = False\<rparr>
     | Some incoming \<Rightarrow>
         (case sp_state prev of
            None \<Rightarrow>
              \<lparr>rr_projection = finalize_projection prev ev (Some incoming),
               rr_invalidTransition = False, rr_ignoredAfterTerminal = False\<rparr>
          | Some current \<Rightarrow>
              if isTerminalState current then
                \<lparr>rr_projection = finalize_projection prev ev (Some current),
                 rr_invalidTransition = False, rr_ignoredAfterTerminal = True\<rparr>
              else if \<not> isValidTransition current incoming then
                \<lparr>rr_projection =
                   (finalize_projection prev ev (Some current))
                     \<lparr>sp_invalid_transition_count := sp_invalid_transition_count prev + 1\<rparr>,
                 rr_invalidTransition = True, rr_ignoredAfterTerminal = False\<rparr>
              else
                \<lparr>rr_projection = finalize_projection prev ev (Some incoming),
                 rr_invalidTransition = False, rr_ignoredAfterTerminal = False\<rparr>))"

definition reduceEvents :: "jstring \<Rightarrow> NormalizedEvent list \<Rightarrow> SessionProjection" where
  "reduceEvents sessionId events =
    foldl (\<lambda>proj ev. rr_projection (applyEvent proj ev)) (initialProjection sessionId) events"

section \<open>The step, field by field\<close>

abbreviation apply_proj :: "SessionProjection \<Rightarrow> NormalizedEvent \<Rightarrow> SessionProjection" where
  "apply_proj p ev \<equiv> rr_projection (applyEvent p ev)"

text \<open>
  The specification of the phase: a reported state is taken when there is none yet or the table
  permits it, and counted as invalid when a live session reports a state the table forbids.
\<close>

fun phase_step :: "State option \<times> nat \<Rightarrow> State option \<Rightarrow> State option \<times> nat" where
  "phase_step (s, n) None = (s, n)"
| "phase_step (None, n) (Some t) = (Some t, n)"
| "phase_step (Some c, n) (Some t) =
    (if isValidTransition c t then (Some t, n)
     else if isTerminalState c then (Some c, n) else (Some c, n + 1))"

definition phase :: "SessionProjection \<Rightarrow> State option \<times> nat" where
  "phase p = (sp_state p, sp_invalid_transition_count p)"

definition enters_terminal :: "SessionProjection \<Rightarrow> NormalizedEvent \<Rightarrow> bool" where
  "enters_terminal p ev =
    (terminal_opt (fst (phase_step (phase p) (ev_state ev))) \<and> \<not> terminal_opt (sp_state p))"

lemma apply_eq_finalize:
  "apply_proj p ev =
    (finalize_projection p ev (fst (phase_step (phase p) (ev_state ev))))
      \<lparr>sp_invalid_transition_count := snd (phase_step (phase p) (ev_state ev))\<rparr>"
  by (auto simp: applyEvent_def phase_def finalize_projection_def Let_def base_next_def
      terminal_no_exit split: option.splits)

lemma phase_step_Some: "s \<noteq> None \<Longrightarrow> fst (phase_step (s, n) i) \<noteq> None"
  by (cases s; cases i) auto

lemma phase_step_None: "fst (phase_step (s, n) i) = None \<Longrightarrow> s = None"
  using phase_step_Some by blast

lemma apply_phase: "phase (apply_proj p ev) = phase_step (phase p) (ev_state ev)"
proof -
  have "fst (phase_step (phase p) (ev_state ev)) = None \<Longrightarrow> sp_state p = None"
    using phase_step_None by (simp add: phase_def)
  then show ?thesis
    by (subst phase_def) (auto simp: apply_eq_finalize finalize_projection_def Let_def base_next_def
        prod_eq_iff split: option.splits)
qed

lemma apply_state: "sp_state (apply_proj p ev) = fst (phase_step (phase p) (ev_state ev))"
  using apply_phase [of p ev] by (metis fst_conv phase_def)

lemma apply_pending:
  "sp_pending_approvals (apply_proj p ev) =
    (if enters_terminal p ev then [] else foldPendingApprovals (sp_pending_approvals p) ev)"
  by (auto simp: apply_eq_finalize finalize_projection_def enters_terminal_def Let_def
      split: option.splits)

lemma apply_derived:
  "sp_needs_attention (apply_proj p ev) =
     deriveNeedsAttention (sp_state (apply_proj p ev)) (length (sp_pending_approvals (apply_proj p ev)))"
  "sp_continuation (apply_proj p ev) = terminalContinuation (sp_state (apply_proj p ev))"
  "sp_terminal_evidence (apply_proj p ev) = terminalEvidenceFor (sp_state (apply_proj p ev))"
  "sp_session_id (apply_proj p ev) = sp_session_id p"
  "sp_last_event_id (apply_proj p ev) = Some (ev_event_id ev)"
  "sp_last_event_at (apply_proj p ev) = Some (ev_timestamp ev)"
proof -
  have c: "\<not> isTerminalState t \<Longrightarrow> TERMINAL_CONTINUATION t = None \<and> TERMINAL_EVIDENCE_DEFAULT t = None" for t
    by (cases t) simp_all
  show "sp_continuation (apply_proj p ev) = terminalContinuation (sp_state (apply_proj p ev))"
    "sp_terminal_evidence (apply_proj p ev) = terminalEvidenceFor (sp_state (apply_proj p ev))"
    using c by (auto simp: apply_state) (auto simp: apply_eq_finalize finalize_projection_def Let_def
        terminal_opt_def terminalContinuation_def terminalEvidenceFor_def split: option.splits)
  show "sp_needs_attention (apply_proj p ev) =
     deriveNeedsAttention (sp_state (apply_proj p ev)) (length (sp_pending_approvals (apply_proj p ev)))"
    by (simp add: apply_state apply_pending)
      (auto simp: apply_eq_finalize finalize_projection_def Let_def enters_terminal_def split: option.splits)
qed (auto simp: apply_eq_finalize finalize_projection_def Let_def base_next_def split: option.splits)

lemma apply_secret:
  "sp_secret_detected (apply_proj p ev) =
     (if isReapply p ev then sp_secret_detected p else sp_secret_detected p \<or> evRedactionCount ev > 0)"
  "sp_secret_redaction_count (apply_proj p ev) =
     (if isReapply p ev then sp_secret_redaction_count p
      else sp_secret_redaction_count p + evRedactionCount ev)"
  "sp_secret_redaction_count_by_kind (apply_proj p ev) =
     (if isReapply p ev then sp_secret_redaction_count_by_kind p
      else mergeRedactionCountByKind (sp_secret_redaction_count_by_kind p) (ev_redaction_count_by_kind ev))"
  by (auto simp: apply_eq_finalize finalize_projection_def Let_def base_next_def split: option.splits)

lemma apply_action:
  "sp_current_action (apply_proj p ev) =
     (case ev_summary ev of Some s \<Rightarrow> Some s | None \<Rightarrow> sp_current_action p)"
  "sp_current_action_kind (apply_proj p ev) =
     Some (eventTypeToActionKind (js (event_type_str (ev_event_type ev))))"
  "sp_current_action_subject (apply_proj p ev) = deriveCurrentActionSubject ev"
  "sp_last_turn_outcome (apply_proj p ev) = next_turn_outcome p ev"
  by (auto simp: apply_eq_finalize finalize_projection_def Let_def base_next_def split: option.splits)

lemmas apply_fields = apply_phase apply_pending apply_derived apply_secret apply_action

lemma reduceEvents_Nil [simp]: "reduceEvents sid [] = initialProjection sid"
  by (simp add: reduceEvents_def)

lemma reduceEvents_snoc [simp]: "reduceEvents sid (es @ [ev]) = apply_proj (reduceEvents sid es) ev"
  by (simp add: reduceEvents_def)

lemma reduceEvents_append:
  "reduceEvents sid (es @ es') = foldl apply_proj (reduceEvents sid es) es'"
  by (simp add: reduceEvents_def)

end
