(* ===== verification/Projection_Correct.thy ===== *)
theory Projection_Correct
  imports Session_Projection
begin

text \<open>
  Correctness of the shared state engine: the phase refines the transition table, terminal
  sessions are frozen, the whole projection keeps its well-formedness invariant, approvals stay
  visible until they are resolved, the secret counters are consistent, and the stored form of the
  pending approvals reads back unchanged.
\<close>

section \<open>Pending approvals\<close>

definition pending_ids :: "SessionProjection \<Rightarrow> jstring list" where
  "pending_ids p = map pa_request_id (sp_pending_approvals p)"

definition pending_ok :: "PendingApproval \<Rightarrow> bool" where
  "pending_ok p \<longleftrightarrow>
     (case pa_trigger p of None \<Rightarrow> True | Some t \<Rightarrow> t \<in> set (map js APPROVAL_TRIGGERS))
   \<and> (case pa_secret_kinds p of None \<Rightarrow> True | Some ks \<Rightarrow> ks \<noteq> [] \<and> list_all isKnownRedactionKind ks)
   \<and> pa_persistable p \<noteq> Some False"

text \<open>The events that open and close a request, as the fold sees them.\<close>

definition opens :: "NormalizedEvent \<Rightarrow> jstring \<Rightarrow> bool" where
  "opens ev rid \<longleftrightarrow> ev_event_type ev = ET_tool_permission_requested
     \<and> payloadString (ev_payload ev) ''request_id'' = Some rid"

definition closes :: "NormalizedEvent \<Rightarrow> jstring \<Rightarrow> bool" where
  "closes ev rid \<longleftrightarrow> ev_event_type ev = ET_tool_permission_resolved
     \<and> payloadString (ev_payload ev) ''request_id'' \<in> {None, Some rid}"

lemma secret_kinds_loop:
  "foldl secret_kinds_step out vs = out @ foldl secret_kinds_step [] vs"
proof (induction vs arbitrary: out)
  case (Cons v vs)
  show ?case
    by (simp only: foldl_Cons, subst Cons.IH, subst (2) Cons.IH)
      (simp add: secret_kinds_step_def split: option.splits)
qed simp

lemma secret_kinds_known: "list_all isKnownRedactionKind (foldl secret_kinds_step [] vs)"
proof (induction vs rule: rev_induct)
  case (snoc v vs)
  then show ?case
    by (simp add: secret_kinds_step_def split: option.splits)
qed simp

lemma secret_kinds_strings:
  "list_all isKnownRedactionKind ks \<Longrightarrow> foldl secret_kinds_step [] (map JStr ks) = ks"
proof (induction ks rule: rev_induct)
  case (snoc k ks)
  then show ?case
    by (simp add: secret_kinds_step_def)
qed simp

lemma normalizeSecretKinds_ok:
  "normalizeSecretKinds v = Some ks \<Longrightarrow> ks \<noteq> [] \<and> list_all isKnownRedactionKind ks"
  by (cases v) (auto simp: Let_def secret_kinds_known split: if_splits)

lemma normalizeSecretKinds_strings:
  "ks \<noteq> [] \<Longrightarrow> list_all isKnownRedactionKind ks \<Longrightarrow> normalizeSecretKinds (JArr (map JStr ks)) = Some ks"
  by (simp add: secret_kinds_strings)

lemma normalizePersistable_ok: "normalizePersistable v \<noteq> Some False"
  by (cases v rule: normalizePersistable.cases) auto

lemma pending_entry_ok: "pending_ok (pending_entry ev rid)"
  by (auto simp: pending_ok_def pending_entry_def normalizeTrigger_def normalizePersistable_ok
      dest: normalizeSecretKinds_ok split: option.splits)

lemma pending_entry_id [simp]: "pa_request_id (pending_entry ev rid) = rid"
  by (simp add: pending_entry_def)

lemma fold_requested:
  assumes "opens ev rid"
  shows "foldPendingApprovals prev ev =
    (let nxt = filter (\<lambda>p. pa_request_id p \<noteq> rid) prev @ [pending_entry ev rid]
     in drop (length nxt - MAX_PENDING_APPROVALS) nxt)"
  using assms by (simp add: foldPendingApprovals_def opens_def Let_def)

lemma fold_length:
  "length prev \<le> MAX_PENDING_APPROVALS \<Longrightarrow> length (foldPendingApprovals prev ev) \<le> MAX_PENDING_APPROVALS"
  by (auto simp: foldPendingApprovals_def Let_def split: option.splits intro: le_trans [OF length_filter_le])

lemma fold_ids_subset:
  "set (foldPendingApprovals prev ev) \<subseteq>
     {p \<in> set prev. \<not> closes ev (pa_request_id p)} \<union> {pending_entry ev rid | rid. opens ev rid}"
  by (auto simp: foldPendingApprovals_def Let_def opens_def closes_def
      split: option.splits if_splits dest!: in_set_dropD)

lemma fold_distinct:
  assumes "distinct (map pa_request_id prev)"
  shows "distinct (map pa_request_id (foldPendingApprovals prev ev))"
proof -
  have f: "distinct (map pa_request_id (filter P prev))" for P
    using assms by (simp add: distinct_map_filter)
  have n: "distinct (map pa_request_id
      (drop n (filter (\<lambda>p. pa_request_id p \<noteq> rid) prev @ [pending_entry ev rid])))" for n rid
    using f by (subst drop_map [symmetric], intro distinct_drop) auto
  show ?thesis
    using assms f n n [of 0] unfolding foldPendingApprovals_def Let_def
    by (simp del: drop_append map_append distinct_append split: option.splits)
qed

lemma fold_opens_last:
  assumes "opens ev rid"
  shows "\<exists>ps. foldPendingApprovals prev ev = ps @ [pending_entry ev rid]"
  using assms unfolding fold_requested [OF assms] Let_def
  by (simp add: MAX_PENDING_APPROVALS_def)

section \<open>The well-formedness invariant\<close>

definition projection_wf :: "SessionProjection \<Rightarrow> bool" where
  "projection_wf p \<longleftrightarrow>
     length (sp_pending_approvals p) \<le> MAX_PENDING_APPROVALS
   \<and> distinct (pending_ids p)
   \<and> list_all pending_ok (sp_pending_approvals p)
   \<and> gated (sp_secret_redaction_count_by_kind p)
   \<and> (sp_needs_attention p \<longleftrightarrow> sp_pending_approvals p \<noteq> []
        \<or> (\<exists>s \<in> set WAITING_STATES. sp_state p = Some s))
   \<and> sp_continuation p = terminalContinuation (sp_state p)
   \<and> sp_terminal_evidence p = terminalEvidenceFor (sp_state p)"

lemma jsnum_add_counts:
  assumes "is_integer_num m" "is_integer_num n" "0 \<le> fin_val m" "0 < fin_val n"
  shows "is_integer_num (jsnum_add m n) \<and> fin_val (jsnum_add m n) = fin_val m + fin_val n
    \<and> 0 < fin_val (jsnum_add m n)"
proof -
  obtain a b where ab: "m = JFin a" "n = JFin b"
    using assms by (cases m; cases n) auto
  then obtain i j where "a = of_int i" "b = of_int j"
    using assms by (metis is_integer_num.simps(1))
  then show ?thesis
    using assms ab by (simp flip: of_int_add)
qed

lemma gatedD:
  "gated r \<Longrightarrow> map_of r k = Some n \<Longrightarrow> isKnownRedactionKind k \<and> is_integer_num n \<and> 0 < fin_val n"
  by (auto simp: gated_def list_all_iff dest: map_of_SomeD)

lemma add_kind_gated:
  assumes "gated out" "isKnownRedactionKind k" "is_integer_num n" "0 < fin_val n"
  shows "gated (add_kind out (k, n))"
proof (cases "map_of out k")
  case None
  have "0 < fin_val (jsnum_add (JFin 0) n) \<and> is_integer_num (jsnum_add (JFin 0) n)"
    using assms jsnum_add_counts [of "JFin 0" n] by simp
  with None show ?thesis
    using assms by (simp add: add_kind_def gated_update)
next
  case (Some m)
  have "is_integer_num (jsnum_add m n) \<and> 0 < fin_val (jsnum_add m n)"
    using assms gatedD [OF assms(1) Some] jsnum_add_counts [of m n] by simp
  with Some show ?thesis
    using assms by (simp add: add_kind_def gated_update)
qed

lemma add_kinds_gated: "gated out \<Longrightarrow> gated inc \<Longrightarrow> gated (foldl add_kind out inc)"
proof (induction inc arbitrary: out)
  case (Cons kn inc)
  obtain k n where kn: "kn = (k, n)" by fastforce
  have inc: "gated inc" and kn_ok: "isKnownRedactionKind k" "is_integer_num n" "0 < fin_val n"
    using Cons.prems by (simp_all add: gated_def kn)
  have "gated (add_kind out kn)"
    using Cons.prems(1) kn_ok by (simp add: kn add_kind_gated)
  then show ?case using Cons.IH inc by simp
qed simp

lemma merge_gated: "gated prev \<Longrightarrow> gated (mergeRedactionCountByKind prev inc)"
  by (simp add: mergeRedactionCountByKind_def Let_def add_kinds_gated gate_gated split: option.splits)

lemma waiting_prefix:
  "js_starts_with (js (state_str s)) (js ''waiting.'') \<longleftrightarrow> s \<in> set WAITING_STATES"
  by (cases s) (simp_all add: state_groups)

lemma needs_attention_iff:
  "deriveNeedsAttention s n \<longleftrightarrow> n > 0 \<or> (\<exists>t \<in> set WAITING_STATES. s = Some t)"
  by (auto simp: deriveNeedsAttention_def waiting_prefix simp del: js_starts_with_js split: option.splits)

lemma initial_wf: "projection_wf (initialProjection sid)"
  by (simp add: projection_wf_def initialProjection_def pending_ids_def terminalContinuation_def
      terminalEvidenceFor_def)

lemma apply_wf:
  assumes wf: "projection_wf p"
  shows "projection_wf (apply_proj p ev)"
proof -
  have ok: "list_all pending_ok (foldPendingApprovals (sp_pending_approvals p) ev)"
    using wf fold_ids_subset [of "sp_pending_approvals p" ev]
    by (auto simp: projection_wf_def list_all_iff pending_entry_ok)
  show ?thesis
    using wf ok
    by (auto simp: projection_wf_def pending_ids_def apply_fields fold_length fold_distinct
        needs_attention_iff merge_gated)
qed

interpretation projection: stream_fold apply_proj projection_wf
  by unfold_locales (rule apply_wf)

lemma reduce_wf: "projection_wf (reduceEvents sid es)"
  unfolding reduceEvents_def by (rule projection.run_inv) (rule initial_wf)

section \<open>The phase\<close>

text \<open>
  A concrete fold that an abstraction function and a projection of the events map to an abstract
  fold, one step at a time.
\<close>

locale fold_refinement =
  fixes step :: "'s \<Rightarrow> 'e \<Rightarrow> 's"
    and astep :: "'a \<Rightarrow> 'i \<Rightarrow> 'a"
    and abs :: "'s \<Rightarrow> 'a"
    and inp :: "'e \<Rightarrow> 'i"
  assumes step_refines: "abs (step s e) = astep (abs s) (inp e)"
begin

lemma run_refines: "abs (foldl step s es) = foldl astep (abs s) (map inp es)"
  by (induction es arbitrary: s) (simp_all add: step_refines)

end

interpretation phase_of: fold_refinement apply_proj phase_step phase ev_state
  by unfold_locales (rule apply_phase)

lemma reduce_phase: "phase (reduceEvents sid es) = foldl phase_step (None, 0) (map ev_state es)"
  unfolding reduceEvents_def phase_of.run_refines
  by (simp add: phase_def initialProjection_def)

text \<open>The states an event stream reports, in order.\<close>

definition reported :: "NormalizedEvent list \<Rightarrow> State list" where
  "reported es = somes (map ev_state es)"

lemma phase_run:
  "\<exists>t m. foldl phase_step (Some s, n) is = (Some t, n + m) \<and> isValidTransition\<^sup>*\<^sup>* s t
     \<and> t \<in> insert s (set (somes is)) \<and> m \<le> length (somes is)"
proof (induction "is" arbitrary: s n)
  case (Cons i "is")
  consider "phase_step (Some s, n) i = (Some s, n)" | "phase_step (Some s, n) i = (Some s, n + 1)" "i \<noteq> None"
    | t where "i = Some t" "isValidTransition s t" "phase_step (Some s, n) i = (Some t, n)"
    by (cases i; cases "isValidTransition s (the i)"; cases "isTerminalState s") auto
  then show ?case
  proof cases
    case 1
    then show ?thesis
      using Cons.IH [of s n] by (cases i) auto
  next
    case 2
    then obtain u where i: "i = Some u" by auto
    obtain t m where "foldl phase_step (Some s, n + 1) is = (Some t, n + 1 + m)"
      "isValidTransition\<^sup>*\<^sup>* s t" "t \<in> insert s (set (somes is))"
      "m \<le> length (somes is)"
      using Cons.IH [of s "n + 1"] by blast
    then show ?thesis
      using 2(1) i by (intro exI [of _ t] exI [of _ "m + 1"]) auto
  next
    case (3 u)
    obtain t m where "foldl phase_step (Some u, n) is = (Some t, n + m)"
      "isValidTransition\<^sup>*\<^sup>* u t" "t \<in> insert u (set (somes is))"
      "m \<le> length (somes is)"
      using Cons.IH [of u n] by blast
    then show ?thesis
      using 3 by (intro exI [of _ t] exI [of _ m])
        (auto intro: converse_rtranclp_into_rtranclp)
  qed
qed simp

lemma phase_run_None:
  "somes is = [] \<Longrightarrow> foldl phase_step (s, n) is = (s, n)"
  by (induction "is" rule: somes.induct) auto

lemma phase_run_first:
  "somes is = s # rest \<Longrightarrow>
     \<exists>js. foldl phase_step (None, n) is = foldl phase_step (Some s, n) js \<and> somes js = rest"
proof (induction "is")
  case (Cons i "is")
  then show ?case
    by (cases i) auto
qed simp

definition terminal_session :: "SessionProjection \<Rightarrow> bool" where
  "terminal_session p = terminal_opt (sp_state p)"

text \<open>What a terminal session protects.\<close>

definition outcome_of ::
  "SessionProjection \<Rightarrow> State option \<times> nat \<times> LastTurnOutcome option \<times> Continuation option \<times> TerminalEvidence option" where
  "outcome_of p = (sp_state p, sp_invalid_transition_count p, sp_last_turn_outcome p,
     terminalContinuation (sp_state p), terminalEvidenceFor (sp_state p))"

lemma phase_step_terminal: "terminal_opt s \<Longrightarrow> phase_step (s, n) i = (s, n)"
  by (cases s; cases i) (auto simp: terminal_opt_def terminal_no_exit)

lemma apply_terminal:
  assumes "terminal_session p"
  shows "phase (apply_proj p ev) = phase p" "sp_last_turn_outcome (apply_proj p ev) = sp_last_turn_outcome p"
proof -
  show "phase (apply_proj p ev) = phase p"
    using assms unfolding apply_phase by (simp add: terminal_session_def phase_step_terminal phase_def)
  show "sp_last_turn_outcome (apply_proj p ev) = sp_last_turn_outcome p"
    using assms by (simp add: apply_action terminal_session_def next_turn_outcome_def)
qed

interpretation frozen: absorbing_fold apply_proj terminal_session outcome_of
proof
  fix p ev
  assume t: "terminal_session p"
  have "sp_state (apply_proj p ev) = sp_state p"
    "sp_invalid_transition_count (apply_proj p ev) = sp_invalid_transition_count p"
    using apply_terminal(1) [OF t, of ev] by (simp_all add: phase_def)
  then show "terminal_session (apply_proj p ev)" "outcome_of (apply_proj p ev) = outcome_of p"
    using t apply_terminal(2) [OF t] by (simp_all add: terminal_session_def outcome_of_def)
qed

section \<open>Life of a request\<close>

text \<open>The request \<open>rid\<close> is pending with at most \<open>n\<close> newer ones.\<close>

definition pending_at :: "PendingApproval list \<Rightarrow> jstring \<Rightarrow> nat \<Rightarrow> bool" where
  "pending_at ps rid n \<longleftrightarrow> (\<exists>xs x ys. ps = xs @ x # ys \<and> pa_request_id x = rid \<and> length ys \<le> n)"








lemma pending_source:
  "x \<in> set (sp_pending_approvals (reduceEvents sid es)) \<Longrightarrow>
    \<exists>a e b. es = a @ e # b \<and> opens e (pa_request_id x) \<and> x = pending_entry e (pa_request_id x)
      \<and> \<not> enters_terminal (reduceEvents sid a) e \<and> list_all (\<lambda>c. \<not> closes c (pa_request_id x)) b"
proof (induction es rule: rev_induct)
  case Nil
  then show ?case by (simp add: initialProjection_def)
next
  case (snoc e es)
  let ?p = "reduceEvents sid es"
  have nt: "\<not> enters_terminal ?p e" and x: "x \<in> set (foldPendingApprovals (sp_pending_approvals ?p) e)"
    using snoc.prems by (auto simp: apply_pending split: if_splits)
  consider "x \<in> set (sp_pending_approvals ?p)" "\<not> closes e (pa_request_id x)"
    | rid where "x = pending_entry e rid" "opens e rid"
    using fold_ids_subset x by blast
  then show ?case
  proof cases
    case 1
    then obtain a d b where "es = a @ d # b" "opens d (pa_request_id x)"
      "x = pending_entry d (pa_request_id x)" "\<not> enters_terminal (reduceEvents sid a) d"
      "list_all (\<lambda>c. \<not> closes c (pa_request_id x)) b"
      using snoc.IH by blast
    then show ?thesis
      using 1(2) by (intro exI [of _ a] exI [of _ d] exI [of _ "b @ [e]"]) auto
  next
    case (2 rid)
    then have "pa_request_id x = rid" by simp
    then show ?thesis
      using 2 nt by (intro exI [of _ es] exI [of _ e] exI [of _ "[]"]) auto
  qed
qed

section \<open>Re-delivery\<close>

lemma fold_twice: "foldPendingApprovals (foldPendingApprovals ps ev) ev = foldPendingApprovals ps ev"
proof (cases "\<exists>rid. opens ev rid")
  case True
  then obtain rid where o: "opens ev rid" by blast
  let ?e = "pending_entry ev rid" and ?f = "filter (\<lambda>p. pa_request_id p \<noteq> rid)"
  obtain qs where qs: "foldPendingApprovals ps ev = qs @ [?e]"
    using fold_opens_last [OF o] by blast
  have "qs @ [?e] = drop (length (?f ps) + 1 - MAX_PENDING_APPROVALS) (?f ps @ [?e])"
    using qs fold_requested [OF o, of ps] by (simp add: Let_def)
  moreover have "length (?f ps) + 1 - MAX_PENDING_APPROVALS \<le> length (?f ps)"
    by (simp add: MAX_PENDING_APPROVALS_def)
  ultimately have q: "qs = drop (length (?f ps) + 1 - MAX_PENDING_APPROVALS) (?f ps)"
    by simp
  then have "?f qs = qs"
    by (intro filter_idem_on) (auto dest: in_set_dropD)
  moreover have "length qs + 1 \<le> MAX_PENDING_APPROVALS"
    using q by (simp add: MAX_PENDING_APPROVALS_def)
  ultimately have "foldPendingApprovals (qs @ [?e]) ev = qs @ [?e]"
    by (subst fold_requested [OF o]) (simp add: Let_def)
  then show ?thesis
    by (simp only: qs)
next
  case False
  then show ?thesis
    by (auto simp: foldPendingApprovals_def opens_def split: option.splits)
qed

lemma phase_step_twice:
  assumes "snd (phase_step ph i) = snd ph"
  shows "phase_step (phase_step ph i) i = phase_step ph i"
proof -
  obtain s n where "ph = (s, n)" by fastforce
  then show ?thesis
    using assms by (cases s; cases i) (auto simp: isValidTransition_def split: if_splits)
qed

lemma apply_invalid: "rr_invalidTransition (applyEvent p ev) \<longleftrightarrow> snd (phase_step (phase p) (ev_state ev)) \<noteq> snd (phase p)"
  by (auto simp: applyEvent_def phase_def terminal_no_exit split: option.splits)

section \<open>Secret counters\<close>

definition by_kind_total :: "(jstring \<times> jsnum) list \<Rightarrow> rat" where
  "by_kind_total r = sum_list (map (\<lambda>(k, n). fin_val n) r)"

lemma by_kind_total_update:
  "distinct (map fst r) \<Longrightarrow>
    by_kind_total (AList.update k v r) =
      by_kind_total r - (case map_of r k of Some n \<Rightarrow> fin_val n | None \<Rightarrow> 0) + fin_val v"
  by (induction r) (auto simp: by_kind_total_def split: option.splits)

lemma by_kind_total_add:
  assumes "gated out" "is_integer_num n" "0 < fin_val n"
  shows "by_kind_total (add_kind out (k, n)) = by_kind_total out + fin_val n"
proof (cases "map_of out k")
  case None
  then show ?thesis
    using assms jsnum_add_counts [of "JFin 0" n]
    by (simp add: add_kind_def by_kind_total_update gated_def)
next
  case (Some m)
  then have "fin_val (jsnum_add m n) = fin_val m + fin_val n"
    using assms gatedD [OF assms(1) Some] jsnum_add_counts [of m n] by simp
  with Some show ?thesis
    using assms by (simp add: add_kind_def by_kind_total_update gated_def)
qed

lemma by_kind_total_fold:
  "gated out \<Longrightarrow> gated inc \<Longrightarrow> by_kind_total (foldl add_kind out inc) = by_kind_total out + by_kind_total inc"
proof (induction inc arbitrary: out)
  case (Cons kn inc)
  obtain k n where kn: "kn = (k, n)" by fastforce
  have inc: "gated inc" and ok: "isKnownRedactionKind k" "is_integer_num n" "0 < fin_val n"
    using Cons.prems by (simp_all add: gated_def kn)
  have "by_kind_total (kn # inc) = fin_val n + by_kind_total inc"
    by (simp add: by_kind_total_def kn)
  then show ?case
    using Cons.IH [of "add_kind out kn"] Cons.prems(1) inc ok
    by (simp add: kn add_kind_gated by_kind_total_add)
qed (simp add: by_kind_total_def)

lemma by_kind_total_merge:
  "gated prev \<Longrightarrow> by_kind_total (mergeRedactionCountByKind prev inc) =
     by_kind_total prev + (case inc of None \<Rightarrow> 0 | Some r \<Rightarrow> by_kind_total (gateRedactionCountByKind (record_obj r)))"
  by (simp add: mergeRedactionCountByKind_def Let_def by_kind_total_fold gate_gated split: option.splits)
    (simp add: by_kind_total_def)

text \<open>An event whose attributed counts do not exceed its marker count.\<close>

definition honest_counts :: "NormalizedEvent \<Rightarrow> bool" where
  "honest_counts ev \<longleftrightarrow> 0 \<le> evRedactionCount ev \<and>
     (case ev_redaction_count_by_kind ev of None \<Rightarrow> True
      | Some r \<Rightarrow> by_kind_total (gateRedactionCountByKind (record_obj r)) \<le> evRedactionCount ev)"

definition counters_ok :: "SessionProjection \<Rightarrow> bool" where
  "counters_ok p \<longleftrightarrow> gated (sp_secret_redaction_count_by_kind p)
     \<and> 0 \<le> sp_secret_redaction_count p
     \<and> by_kind_total (sp_secret_redaction_count_by_kind p) \<le> sp_secret_redaction_count p
     \<and> (sp_secret_detected p \<longleftrightarrow> 0 < sp_secret_redaction_count p)"

lemma apply_counters:
  "counters_ok p \<Longrightarrow> honest_counts ev \<Longrightarrow> counters_ok (apply_proj p ev)"
  by (auto simp: counters_ok_def honest_counts_def apply_secret merge_gated by_kind_total_merge
      split: option.splits)

lemma reduce_counters: "list_all honest_counts es \<Longrightarrow> counters_ok (reduceEvents sid es)"
proof (induction es rule: rev_induct)
  case Nil
  then show ?case by (simp add: counters_ok_def initialProjection_def by_kind_total_def)
qed (simp add: apply_counters)

section \<open>Reading the stored approvals\<close>

lemma normalizeTrigger_JStr [simp]:
  "normalizeTrigger (JStr t) = (if t \<in> set (map js APPROVAL_TRIGGERS) then Some t else None)"
  by (simp add: normalizeTrigger_def)

lemma normalize_undef [simp]: "normalizeTrigger JUndef = None"
  by (simp add: normalizeTrigger_def)

lemma map_of_opt_field:
  "map_of (opt_field k f v @ rest) key =
     (if key = js k then (case v of Some x \<Rightarrow> Some (f x) | None \<Rightarrow> map_of rest key) else map_of rest key)"
  by (auto simp: opt_field_def split: option.splits)

lemma map_of_opt_field_end:
  "map_of (opt_field k f v) key = (if key = js k then map_option f v else None)"
  by (auto simp: opt_field_def split: option.splits)

lemma pending_json_get:
  "js_get (pending_json p) (js ''request_id'') = JStr (pa_request_id p)"
  "js_string (js_get (pending_json p) (js ''tool_name'')) = pa_tool_name p"
  "js_string (js_get (pending_json p) (js ''command'')) = pa_command p"
  "js_string (js_get (pending_json p) (js ''path'')) = pa_path p"
  "js_string (js_get (pending_json p) (js ''risk_level'')) = pa_risk_level p"
  "js_get (pending_json p) (js ''requested_at'') = JStr (pa_requested_at p)"
  "js_get (pending_json p) (js ''session_id'') = JStr (pa_session_id p)"
  "js_get (pending_json p) (js ''trigger'') =
     (case pa_trigger p of Some t \<Rightarrow> JStr t | None \<Rightarrow> JUndef)"
  "js_get (pending_json p) (js ''secret_kinds'') =
     (case pa_secret_kinds p of Some ks \<Rightarrow> JArr (map JStr ks) | None \<Rightarrow> JUndef)"
  "js_get (pending_json p) (js ''persistable'') =
     (case pa_persistable p of Some b \<Rightarrow> JBool b | None \<Rightarrow> JUndef)"
  by (simp_all add: pending_json_def map_of_opt_field map_of_opt_field_end del: map_of_append
      split: option.splits)

lemma pending_json_back:
  assumes "pending_ok p"
  shows "pending_of_item (pending_json p) (pa_request_id p) = p"
  using assms by (intro PendingApproval.equality)
    (auto simp: pending_of_item_def pending_json_get pending_ok_def secret_kinds_strings
      split: option.splits)

lemma parse_loop:
  "list_all pending_ok ps \<Longrightarrow> foldl parse_pending_step out (map pending_json ps) = out @ ps"
proof (induction ps arbitrary: out)
  case (Cons p ps)
  have "parse_pending_step out (pending_json p) = out @ [p]"
    using Cons.prems by (simp add: parse_pending_step_def pending_json_get pending_json_back)
  then show ?case using Cons by simp
qed simp

section \<open>Properties\<close>

text \<open>
  The phase of a session is a path of the transition table. With no reported state there is
  none; otherwise the projected state is one of the reported states, it is reachable from the
  first reported one by permitted transitions, and the invalid reports counted are at most the
  later ones. A forbidden transition is counted and never taken.
\<close>

theorem reduce_state_path:
  "case reported es of
     [] \<Rightarrow> sp_state (reduceEvents sid es) = None \<and> sp_invalid_transition_count (reduceEvents sid es) = 0
   | s # rest \<Rightarrow> (\<exists>t. sp_state (reduceEvents sid es) = Some t \<and> t \<in> set (reported es)
       \<and> isValidTransition\<^sup>*\<^sup>* s t
       \<and> sp_invalid_transition_count (reduceEvents sid es) \<le> length rest)"
proof (cases "reported es")
  case Nil
  then show ?thesis
    using reduce_phase [of sid es] phase_run_None [of "map ev_state es"]
    by (simp add: reported_def phase_def)
next
  case (Cons s rest)
  obtain js where js: "foldl phase_step (None, 0) (map ev_state es) = foldl phase_step (Some s, 0) js"
    "somes js = rest"
    using phase_run_first [of "map ev_state es" s rest 0] Cons by (auto simp: reported_def)
  obtain t m where "foldl phase_step (Some s, 0) js = (Some t, 0 + m)" "isValidTransition\<^sup>*\<^sup>* s t"
    "t \<in> insert s (set rest)" "m \<le> length rest"
    using phase_run [of s 0 js] js(2) by blast
  then show ?thesis
    using Cons js(1) reduce_phase [of sid es] by (auto simp: phase_def)
qed

text \<open>
  A finished session is frozen: once the projected state is terminal, no later event of any
  kind changes the state, the count of invalid transitions, the outcome of the last turn, the
  continuation or the evidence.
\<close>

theorem terminal_session_frozen:
  assumes "terminal_opt (sp_state (reduceEvents sid es))"
  shows "sp_state (reduceEvents sid (es @ later)) = sp_state (reduceEvents sid es)
    \<and> sp_invalid_transition_count (reduceEvents sid (es @ later)) = sp_invalid_transition_count (reduceEvents sid es)
    \<and> sp_last_turn_outcome (reduceEvents sid (es @ later)) = sp_last_turn_outcome (reduceEvents sid es)
    \<and> sp_continuation (reduceEvents sid (es @ later)) = sp_continuation (reduceEvents sid es)
    \<and> sp_terminal_evidence (reduceEvents sid (es @ later)) = sp_terminal_evidence (reduceEvents sid es)"
proof -
  have "outcome_of (reduceEvents sid (es @ later)) = outcome_of (reduceEvents sid es)"
    unfolding reduceEvents_append
    by (rule frozen.run_obs) (simp add: terminal_session_def assms)
  then show ?thesis
    using reduce_wf [of sid "es @ later"] reduce_wf [of sid es]
    by (simp add: outcome_of_def projection_wf_def)
qed

definition ended_stream :: "NormalizedEvent list" where
  "ended_stream =
    [mk_event ''e1'' ET_session_started (Some Starting) ''t1'' (JObj []),
     mk_event ''e2'' ET_turn_started (Some Running_planning) ''t2'' (JObj []),
     mk_event ''e3'' ET_session_ended (Some Completed) ''t3'' (JObj [])]"

lemma ended_stream_terminal: "terminal_opt (sp_state (reduceEvents sid ended_stream))"
  using reduce_phase [of sid ended_stream]
  by (simp add: ended_stream_def mk_event_def phase_def isValidTransition_def state_groups terminal_opt_def)

theorem terminal_session_frozen_witness:
  "terminal_opt (sp_state (reduceEvents [] ended_stream))
   \<and> sp_state (reduceEvents [] (ended_stream @ [mk_event ''e4'' ET_turn_failed (Some Running_planning) ''t4'' (JObj [])]))
     = sp_state (reduceEvents [] ended_stream)"
  using terminal_session_frozen [OF ended_stream_terminal, of "[]"] ended_stream_terminal by blast

text \<open>
  C15. The projection of any event stream is well formed: at most 64 pending approvals with
  distinct request ids, triggers and secret kinds of the closed vocabularies only, redaction
  counts that pass the gate, attention required exactly when an approval is pending or the state
  is a waiting one, and the continuation and evidence axes those of the state.
\<close>

theorem projection_invariant: "projection_wf (reduceEvents sid es)"
  by (rule reduce_wf)


definition req_event :: "string \<Rightarrow> string \<Rightarrow> NormalizedEvent" where
  "req_event eid rid = mk_event eid ET_tool_permission_requested None ''t''
     (JObj [(js ''request_id'', JStr (js rid)), (js ''command'', JStr (js ''rm -rf x''))])"

lemma req_event_opens: "opens (req_event eid rid) (js rid)"
  by (simp add: opens_def req_event_def mk_event_def payloadString_def payloadValue_def)

lemma req_event_quiet: "\<not> enters_terminal p (req_event eid rid)" "\<not> closes (req_event eid rid) r"
  by (simp_all add: req_event_def mk_event_def enters_terminal_def phase_def closes_def)


text \<open>
  No approval card is invented: every pending approval of a projection carries exactly the
  fields of a permission request of the stream that did not end the session, and no event after
  that request resolved it.
\<close>

theorem pending_approval_source:
  assumes "x \<in> set (sp_pending_approvals (reduceEvents sid es))"
  shows "\<exists>a e b. es = a @ e # b \<and> opens e (pa_request_id x) \<and> x = pending_entry e (pa_request_id x)
      \<and> \<not> enters_terminal (reduceEvents sid a) e \<and> list_all (\<lambda>c. \<not> closes c (pa_request_id x)) b"
  using assms by (rule pending_source)

theorem pending_approval_source_witness:
  "pending_entry (req_event ''e1'' ''r1'') (js ''r1'') \<in> set (sp_pending_approvals (reduceEvents [] [req_event ''e1'' ''r1'']))
   \<and> (\<exists>a e b. [req_event ''e1'' ''r1''] = a @ e # b \<and> opens e (js ''r1''))"
proof -
  have "pending_at (sp_pending_approvals (reduceEvents [] [req_event ''e1'' ''r1''])) (js ''r1'') 0
    \<and> sp_pending_approvals (reduceEvents [] [req_event ''e1'' ''r1'']) = [pending_entry (req_event ''e1'' ''r1'') (js ''r1'')]"
    using reduceEvents_snoc [of "[]" "[]" "req_event ''e1'' ''r1''"]
    by (simp add: pending_at_def apply_pending req_event_quiet fold_requested [OF req_event_opens]
        initialProjection_def MAX_PENDING_APPROVALS_def)
  then have "pending_entry (req_event ''e1'' ''r1'') (js ''r1'')
      \<in> set (sp_pending_approvals (reduceEvents [] [req_event ''e1'' ''r1'']))"
    by simp
  from this pending_approval_source [OF this] show ?thesis by auto
qed

text \<open>
  Re-delivering the last event changes nothing: when the event was not an invalid transition
  and did not both end the session and request an approval, applying it again right away gives
  the same projection, secret counters included.
\<close>

theorem reapply_idempotent:
  assumes "\<not> rr_invalidTransition (applyEvent p ev)"
    and "enters_terminal p ev \<Longrightarrow> ev_event_type ev \<noteq> ET_tool_permission_requested"
  shows "rr_projection (applyEvent (rr_projection (applyEvent p ev)) ev) = rr_projection (applyEvent p ev)"
proof -
  let ?q = "apply_proj p ev"
  have ph: "phase_step (phase ?q) (ev_state ev) = phase ?q"
    using phase_step_twice [of "phase p" "ev_state ev"] assms(1)
    by (simp add: apply_phase apply_invalid)
  then have st: "phase (apply_proj ?q ev) = phase ?q"
    by (simp only: apply_phase [of ?q])
  have ne: "\<not> enters_terminal ?q ev"
    using ph by (simp add: enters_terminal_def phase_def [of ?q])
  have again: "isReapply ?q ev"
    by (simp add: isReapply_def apply_derived)
  have "enters_terminal p ev \<Longrightarrow> foldPendingApprovals [] ev = []"
    using assms(2) by (simp add: foldPendingApprovals_def split: option.splits)
  then have pe: "sp_pending_approvals (apply_proj ?q ev) = sp_pending_approvals ?q"
    using ne fold_twice by (simp add: apply_pending [of ?q] apply_pending [of p])
  have s: "sp_state (apply_proj ?q ev) = sp_state ?q"
    "sp_invalid_transition_count (apply_proj ?q ev) = sp_invalid_transition_count ?q"
    using st by (simp_all add: phase_def)
  have o: "next_turn_outcome ?q ev = sp_last_turn_outcome ?q"
    using frozen.stuck_step [of p ev] by (auto simp: next_turn_outcome_def apply_action terminal_session_def)
  show ?thesis
    by (rule SessionProjection.equality)
      (simp_all add: s pe o apply_derived(4-6) apply_derived(1-3) [of ?q] apply_derived(1-3) [of p]
        apply_secret [of ?q] apply_action [of ?q] again apply_action(1-3) [of p] split: option.split)
qed

theorem reapply_idempotent_witness:
  "rr_projection (applyEvent (rr_projection (applyEvent (initialProjection []) (req_event ''e1'' ''r1''))) (req_event ''e1'' ''r1''))
   = rr_projection (applyEvent (initialProjection []) (req_event ''e1'' ''r1''))"
  by (rule reapply_idempotent)
    (simp_all add: req_event_quiet, simp add: applyEvent_def req_event_def mk_event_def)

text \<open>
  The secret counters are consistent: when every event attributes to known kinds at most the
  markers it counts, the per-kind totals never exceed the total count, and the detection flag is
  set exactly when the total is positive.
\<close>

theorem secret_counters_consistent:
  assumes "list_all honest_counts es"
  shows "by_kind_total (sp_secret_redaction_count_by_kind (reduceEvents sid es))
      \<le> sp_secret_redaction_count (reduceEvents sid es)
    \<and> (sp_secret_detected (reduceEvents sid es) \<longleftrightarrow> 0 < sp_secret_redaction_count (reduceEvents sid es))"
  using reduce_counters [OF assms] by (simp add: counters_ok_def)

definition secret_event :: NormalizedEvent where
  "secret_event = (mk_event ''e1'' ET_tool_completed None ''t'' (JObj []))
     \<lparr>ev_redaction_count := Some (JFin 3),
      ev_redaction_count_by_kind := Some [(js ''jwt'', JFin 2), (js ''nope'', JFin 9)]\<rparr>"

theorem secret_counters_consistent_witness:
  "list_all honest_counts [secret_event]
   \<and> sp_secret_redaction_count (reduceEvents [] [secret_event]) = 3
   \<and> sp_secret_detected (reduceEvents [] [secret_event])"
proof -
  have h: "list_all honest_counts [secret_event]"
    by (simp add: honest_counts_def secret_event_def mk_event_def evRedactionCount_def by_kind_total_def
        record_obj_def gate_step_def isKnownRedactionKind_def REDACTION_KINDS_def)
  moreover have "sp_secret_redaction_count (reduceEvents [] [secret_event]) = 3"
    using reduceEvents_snoc [of "[]" "[]" secret_event]
    by (simp add: apply_secret isReapply_def initialProjection_def secret_event_def evRedactionCount_def)
  ultimately show ?thesis
    using secret_counters_consistent [OF h, of "[]"] by simp
qed

text \<open>
  What the ingest store writes for the pending approvals of a session is read back
  unchanged: serialising drops the undefined fields and the reader's closed-vocabulary filters
  remove nothing the fold has let in.
\<close>

theorem pending_approvals_roundtrip:
  "parsePendingApprovals (pendingApprovalsJson (sp_pending_approvals (reduceEvents sid es)))
   = sp_pending_approvals (reduceEvents sid es)"
  using parse_loop [of "sp_pending_approvals (reduceEvents sid es)" "[]"] reduce_wf [of sid es]
  by (simp add: pendingApprovalsJson_def projection_wf_def)

text \<open>The payload fields each event type may show as the subject of an action.\<close>

fun subject_fields :: "EventType \<Rightarrow> string list" where
  "subject_fields ET_command_started = [''command'']"
| "subject_fields ET_command_completed = [''command'']"
| "subject_fields ET_tool_failed = [''command'']"
| "subject_fields ET_file_change_proposed = [''path'']"
| "subject_fields ET_file_change_approved = [''path'']"
| "subject_fields ET_file_change_applied = [''path'']"
| "subject_fields ET_tool_permission_requested = [''command'', ''path'']"
| "subject_fields ET_mcp_call_started = [''server'', ''tool'']"
| "subject_fields ET_mcp_call_completed = [''server'', ''tool'']"
| "subject_fields ET_web_search_started = [''query'']"
| "subject_fields ET_tool_started = [''tool_name'']"
| "subject_fields ET_tool_completed = [''tool_name'']"
| "subject_fields ET_turn_started = [''prompt_summary'']"
| "subject_fields ET_turn_completed = [''response_summary'']"
| "subject_fields ET_session_ended = [''reason'']"
| "subject_fields ET_turn_failed = [''error'', ''reason'']"
| "subject_fields _ = []"

text \<open>
  The subject of an action reveals the allow-listed payload fields of its event type and
  nothing else: two payloads that agree on those string fields have the same subject, and for an
  event type without such fields there is none.
\<close>

theorem subject_allowlist:
  assumes "list_all (\<lambda>k. payloadString p k = payloadString q k) (subject_fields t)"
  shows "deriveActionSubject (js (event_type_str t)) p = deriveActionSubject (js (event_type_str t)) q
    \<and> (subject_fields t = [] \<longrightarrow> deriveActionSubject (js (event_type_str t)) p = None)"
  using assms by (cases t; simp add: deriveActionSubject_def split: option.split)

theorem subject_allowlist_witness:
  "deriveActionSubject (js ''turn.failed'') (JObj [(js ''error'', JStr (js ''x'')), (js ''raw'', JStr (js ''k''))])
   = deriveActionSubject (js ''turn.failed'') (JObj [(js ''error'', JStr (js ''x''))])"
  using subject_allowlist [of "JObj [(js ''error'', JStr (js ''x'')), (js ''raw'', JStr (js ''k''))]"
      "JObj [(js ''error'', JStr (js ''x''))]" ET_turn_failed]
  by (simp add: payloadString_def payloadValue_def)

end
