(* ===== verification/Timestamps.thy ===== *)
theory Timestamps
  imports Prelude
begin

text \<open>
  Timestamps (\<^verbatim>\<open>packages/event-model/src/timestamp.ts\<close>) and the bounded LRU map they use
  (\<^verbatim>\<open>bounded-lru-map.ts\<close>): validation of ISO 8601 strings, the per-session monotonicity
  checker, and its bounded variant. The contract between the map and its client is the locale
  \<open>bounded_store\<close>.

  \<^verbatim>\<open>Date.parse\<close> is written out for the date-time strings the validator's pattern
  accepts, with the element ranges and the arithmetic (\<^verbatim>\<open>MakeDay\<close>, \<^verbatim>\<open>MakeTime\<close>) of the
  language standard; the result for every other string is NaN. Timestamps of events have passed
  the validator, so no other string reaches the comparisons.
\<close>

section \<open>Date strings\<close>

record iso_fields =
  iso_year :: int
  iso_month :: int
  iso_day :: int
  iso_hour :: int
  iso_minute :: int
  iso_second :: int
  iso_ms :: int
  iso_offset :: int \<comment> \<open>minutes east of UTC\<close>
  iso_offset_ok :: bool

definition is_digit :: "nat \<Rightarrow> bool" where
  "is_digit c = (48 \<le> c \<and> c \<le> 57)"

text \<open>Exactly \<open>n\<close> decimal digits, as a number, and the rest.\<close>

fun read_digits :: "nat \<Rightarrow> int \<Rightarrow> jstring \<Rightarrow> (int \<times> jstring) option" where
  "read_digits 0 acc s = Some (acc, s)"
| "read_digits (Suc n) acc [] = None"
| "read_digits (Suc n) acc (c # s) =
    (if is_digit c then read_digits n (acc * 10 + int (c - 48)) s else None)"

fun read_char :: "nat \<Rightarrow> jstring \<Rightarrow> jstring option" where
  "read_char c [] = None"
| "read_char c (d # s) = (if c = d then Some s else None)"

text \<open>An optional fraction of one to nine digits; the milliseconds are its first three digits.\<close>

definition read_fraction :: "jstring \<Rightarrow> (int \<times> jstring) option" where
  "read_fraction s =
    (case read_char 46 s of
       None \<Rightarrow> Some (0, s)
     | Some r \<Rightarrow>
         (let ds = takeWhile is_digit r in
          if ds = [] \<or> length ds > 9 then None
          else (case read_digits 3 0 (take 3 (ds @ [48, 48])) of
                  Some (ms, _) \<Rightarrow> Some (ms, dropWhile is_digit r)
                | None \<Rightarrow> None)))"

text \<open>The zone designator at the end of the string: an offset in minutes and its range check.\<close>

definition read_zone :: "jstring \<Rightarrow> (int \<times> bool) option" where
  "read_zone s =
    (if s = js ''Z'' then Some (0, True)
     else case s of
       [] \<Rightarrow> None
     | c # r \<Rightarrow>
         if c \<noteq> 43 \<and> c \<noteq> 45 then None
         else (case read_digits 2 0 r of None \<Rightarrow> None
               | Some (h, r1) \<Rightarrow> (case read_char 58 r1 of None \<Rightarrow> None
               | Some r2 \<Rightarrow> (case read_digits 2 0 r2 of None \<Rightarrow> None
               | Some (m, r3) \<Rightarrow>
                   if r3 \<noteq> [] then None
                   else Some ((if c = 43 then 1 else -1) * (h * 60 + m), h \<le> 23 \<and> m \<le> 59)))))"

text \<open>The pattern \<^verbatim>\<open>ISO8601_RE\<close>, with the captured numbers.\<close>

definition ISO8601_RE :: "jstring \<Rightarrow> iso_fields option" where
  "ISO8601_RE s =
    (case read_digits 4 0 s of None \<Rightarrow> None
     | Some (y, s) \<Rightarrow> (case read_char 45 s of None \<Rightarrow> None
     | Some s \<Rightarrow> (case read_digits 2 0 s of None \<Rightarrow> None
     | Some (mo, s) \<Rightarrow> (case read_char 45 s of None \<Rightarrow> None
     | Some s \<Rightarrow> (case read_digits 2 0 s of None \<Rightarrow> None
     | Some (d, s) \<Rightarrow> (case read_char 84 s of None \<Rightarrow> None
     | Some s \<Rightarrow> (case read_digits 2 0 s of None \<Rightarrow> None
     | Some (h, s) \<Rightarrow> (case read_char 58 s of None \<Rightarrow> None
     | Some s \<Rightarrow> (case read_digits 2 0 s of None \<Rightarrow> None
     | Some (mi, s) \<Rightarrow> (case read_char 58 s of None \<Rightarrow> None
     | Some s \<Rightarrow> (case read_digits 2 0 s of None \<Rightarrow> None
     | Some (sec, s) \<Rightarrow> (case read_fraction s of None \<Rightarrow> None
     | Some (ms, s) \<Rightarrow> (case read_zone s of None \<Rightarrow> None
     | Some (off, ok) \<Rightarrow>
         Some \<lparr>iso_year = y, iso_month = mo, iso_day = d, iso_hour = h, iso_minute = mi,
               iso_second = sec, iso_ms = ms, iso_offset = off, iso_offset_ok = ok\<rparr>)))))))))))))"

definition leap_year :: "int \<Rightarrow> bool" where
  "leap_year y = (y mod 4 = 0 \<and> (y mod 100 \<noteq> 0 \<or> y mod 400 = 0))"

definition day_from_year :: "int \<Rightarrow> int" where
  "day_from_year y = 365 * (y - 1970) + (y - 1969) div 4 - (y - 1901) div 100 + (y - 1601) div 400"

definition days_before_month :: "int \<Rightarrow> int \<Rightarrow> int" where
  "days_before_month y m =
    [0, 31, 59, 90, 120, 151, 181, 212, 243, 273, 304, 334] ! nat (m - 1)
    + (if leap_year y \<and> m > 2 then 1 else 0)"

definition make_ms :: "iso_fields \<Rightarrow> int" where
  "make_ms f =
    ((((day_from_year (iso_year f) + days_before_month (iso_year f) (iso_month f) + iso_day f - 1) * 24
        + iso_hour f) * 60 + iso_minute f - iso_offset f) * 60 + iso_second f) * 1000 + iso_ms f"

definition fields_in_range :: "iso_fields \<Rightarrow> bool" where
  "fields_in_range f \<longleftrightarrow>
     1 \<le> iso_month f \<and> iso_month f \<le> 12 \<and> 1 \<le> iso_day f \<and> iso_day f \<le> 31
   \<and> (iso_hour f \<le> 23 \<or> iso_hour f = 24 \<and> iso_minute f = 0 \<and> iso_second f = 0 \<and> iso_ms f = 0)
   \<and> iso_minute f \<le> 59 \<and> iso_second f \<le> 59 \<and> iso_offset_ok f"

definition date_parse :: "jstring \<Rightarrow> jsnum" where
  "date_parse s =
    (case ISO8601_RE s of
       None \<Rightarrow> JNaN
     | Some f \<Rightarrow> if fields_in_range f then JFin (of_int (make_ms f)) else JNaN)"

definition isIso8601 :: "jstring \<Rightarrow> bool" where
  "isIso8601 v = (if ISO8601_RE v = None then False else is_finite_num (date_parse v))"

definition toEpochMs :: "jstring \<Rightarrow> jsnum" where
  "toEpochMs ts = date_parse ts"

section \<open>The monotonicity checker\<close>

type_synonym mono_state = "(jstring \<times> rat) list"

definition mono_accept :: "mono_state \<Rightarrow> jstring \<Rightarrow> jstring \<Rightarrow> bool \<times> mono_state" where
  "mono_accept m sid ts =
    (let ms = toEpochMs ts in
     if \<not> is_finite_num ms then (False, m)
     else (case map_of m sid of
             None \<Rightarrow> (True, AList.update sid (fin_val ms) m)
           | Some lst \<Rightarrow>
               if fin_val ms < lst then (False, m)
               else if fin_val ms > lst then (True, AList.update sid (fin_val ms) m)
               else (True, m)))"

definition mono_lastSeen :: "mono_state \<Rightarrow> jstring \<Rightarrow> rat option" where
  "mono_lastSeen m sid = map_of m sid"

definition mono_reset :: "mono_state \<Rightarrow> jstring \<Rightarrow> mono_state" where
  "mono_reset m sid = AList.delete sid m"

section \<open>The bounded LRU map\<close>

record ('k, 'v) BoundedLruMap =
  lru_map :: "('k \<times> 'v) list"
  lru_maxEntries :: nat

datatype lru_error = MaxEntriesNotPositiveInteger | MaxSessionsNotPositiveInteger

definition lru_new :: "jsnum \<Rightarrow> lru_error + ('k, 'v) BoundedLruMap" where
  "lru_new maxEntries =
    (if \<not> is_integer_num maxEntries \<or> fin_val maxEntries < 1 then Inl MaxEntriesNotPositiveInteger
     else Inr \<lparr>lru_map = [], lru_maxEntries = nat \<lfloor>fin_val maxEntries\<rfloor>\<rparr>)"

definition lru_get :: "('k, 'v) BoundedLruMap \<Rightarrow> 'k \<Rightarrow> 'v option" where
  "lru_get m k = map_of (lru_map m) k"

definition lru_has :: "('k, 'v) BoundedLruMap \<Rightarrow> 'k \<Rightarrow> bool" where
  "lru_has m k = (map_of (lru_map m) k \<noteq> None)"

text \<open>The eviction loop: drop the oldest entry while the map is over its bound.\<close>

fun lru_evict :: "nat \<Rightarrow> ('k \<times> 'v) list \<Rightarrow> ('k \<times> 'v) list" where
  "lru_evict n [] = []"
| "lru_evict n (e # es) = (if length (e # es) > n then lru_evict n es else e # es)"

definition lru_set :: "('k, 'v) BoundedLruMap \<Rightarrow> 'k \<Rightarrow> 'v \<Rightarrow> ('k, 'v) BoundedLruMap" where
  "lru_set m k v =
    (let es = (if lru_has m k then AList.delete k (lru_map m) else lru_map m)
     in m\<lparr>lru_map := lru_evict (lru_maxEntries m) (AList.update k v es)\<rparr>)"

definition lru_delete :: "('k, 'v) BoundedLruMap \<Rightarrow> 'k \<Rightarrow> bool \<times> ('k, 'v) BoundedLruMap" where
  "lru_delete m k = (lru_has m k, m\<lparr>lru_map := AList.delete k (lru_map m)\<rparr>)"

definition lru_size :: "('k, 'v) BoundedLruMap \<Rightarrow> nat" where
  "lru_size m = length (lru_map m)"

section \<open>The bounded checker\<close>

record mono_entry =
  me_maxMs :: rat
  me_touchedAt :: rat

record BoundedMonotonic =
  bm_entries :: "(jstring, mono_entry) BoundedLruMap"
  bm_ttlMs :: "rat option"

definition bm_new :: "jsnum option \<Rightarrow> rat option \<Rightarrow> lru_error + BoundedMonotonic" where
  "bm_new maxSessions ttl =
    (let mx = (case maxSessions of Some n \<Rightarrow> n | None \<Rightarrow> JFin 10000) in
     if \<not> is_integer_num mx \<or> fin_val mx < 1 then Inl MaxSessionsNotPositiveInteger
     else (case lru_new mx of
             Inl e \<Rightarrow> Inl e
           | Inr m \<Rightarrow> Inr \<lparr>bm_entries = m, bm_ttlMs = ttl\<rparr>))"

definition bm_peekFresh :: "BoundedMonotonic \<Rightarrow> jstring \<Rightarrow> rat \<Rightarrow> mono_entry option \<times> BoundedMonotonic" where
  "bm_peekFresh b sid nowMs =
    (case lru_get (bm_entries b) sid of
       None \<Rightarrow> (None, b)
     | Some e \<Rightarrow>
         (case bm_ttlMs b of
            Some ttl \<Rightarrow>
              if nowMs - me_touchedAt e > ttl
              then (None, b\<lparr>bm_entries := snd (lru_delete (bm_entries b) sid)\<rparr>)
              else (Some e, b)
          | None \<Rightarrow> (Some e, b)))"

definition bm_touch :: "BoundedMonotonic \<Rightarrow> jstring \<Rightarrow> rat \<Rightarrow> rat \<Rightarrow> BoundedMonotonic" where
  "bm_touch b sid maxMs nowMs =
    b\<lparr>bm_entries := lru_set (bm_entries b) sid \<lparr>me_maxMs = maxMs, me_touchedAt = nowMs\<rparr>\<rparr>"

definition bm_accept :: "BoundedMonotonic \<Rightarrow> jstring \<Rightarrow> jstring \<Rightarrow> rat \<Rightarrow> bool \<times> BoundedMonotonic" where
  "bm_accept b sid ts nowMs =
    (let ms = toEpochMs ts in
     if \<not> is_finite_num ms then (False, b)
     else (case bm_peekFresh b sid nowMs of
             (Some e, b') \<Rightarrow>
               if fin_val ms < me_maxMs e
               then (False, bm_touch b' sid (me_maxMs e) nowMs)
               else (True, bm_touch b' sid (max (me_maxMs e) (fin_val ms)) nowMs)
           | (None, b') \<Rightarrow> (True, bm_touch b' sid (fin_val ms) nowMs)))"

definition bm_lastSeen :: "BoundedMonotonic \<Rightarrow> jstring \<Rightarrow> rat \<Rightarrow> rat option \<times> BoundedMonotonic" where
  "bm_lastSeen b sid nowMs =
    (let r = bm_peekFresh b sid nowMs in (map_option me_maxMs (fst r), snd r))"

definition bm_reset :: "BoundedMonotonic \<Rightarrow> jstring \<Rightarrow> BoundedMonotonic" where
  "bm_reset b sid = b\<lparr>bm_entries := snd (lru_delete (bm_entries b) sid)\<rparr>"

definition bm_size :: "BoundedMonotonic \<Rightarrow> nat" where
  "bm_size b = lru_size (bm_entries b)"

fun isMonotonicNonDecreasing :: "jstring list \<Rightarrow> bool" where
  "isMonotonicNonDecreasing (p # c # rest) =
    (let prev = toEpochMs p; cur = toEpochMs c in
     if \<not> is_finite_num prev \<or> \<not> is_finite_num cur then False
     else if jsnum_less cur prev then False
     else isMonotonicNonDecreasing (c # rest))"
| "isMonotonicNonDecreasing _ = True"

section \<open>The contract of the bounded map\<close>

text \<open>
  What the checker relies on: a write is read back, a write never alters another key's value
  except by evicting it, nothing is evicted while there is room, and the bound holds.
\<close>

locale bounded_store =
  fixes get :: "'m \<Rightarrow> 'k \<Rightarrow> 'v option"
    and put :: "'m \<Rightarrow> 'k \<Rightarrow> 'v \<Rightarrow> 'm"
    and del :: "'m \<Rightarrow> 'k \<Rightarrow> 'm"
    and size_of :: "'m \<Rightarrow> nat"
    and cap :: "'m \<Rightarrow> nat"
    and ok :: "'m \<Rightarrow> bool"
  assumes put_ok: "ok m \<Longrightarrow> ok (put m k v)"
    and del_ok: "ok m \<Longrightarrow> ok (del m k)"
    and put_cap: "cap (put m k v) = cap m"
    and del_cap: "cap (del m k) = cap m"
    and put_same: "ok m \<Longrightarrow> get (put m k v) k = Some v"
    and put_other: "ok m \<Longrightarrow> k' \<noteq> k \<Longrightarrow> get (put m k v) k' \<in> {None, get m k'}"
    and put_room: "ok m \<Longrightarrow> size_of m < cap m \<or> get m k \<noteq> None \<Longrightarrow> k' \<noteq> k \<Longrightarrow>
      get (put m k v) k' = get m k'"
    and del_get: "ok m \<Longrightarrow> get (del m k) = (get m)(k := None)"
    and size_le: "ok m \<Longrightarrow> size_of m \<le> cap m"
    and size_dom: "ok m \<Longrightarrow> finite (dom (get m)) \<and> size_of m = card (dom (get m))"
begin

lemma put_within:
  assumes "ok m" "dom (get m) \<subseteq> S" "k \<in> S" "finite S" "card S \<le> cap m"
  shows "get (put m k v) = (get m)(k \<mapsto> v)"
proof -
  have "size_of m < cap m \<or> get m k \<noteq> None"
  proof (cases "get m k")
    case None
    then have "dom (get m) \<subset> S" using assms by auto
    then have "card (dom (get m)) < card S" using assms psubset_card_mono by blast
    then show ?thesis using assms size_dom by auto
  qed simp
  then show ?thesis
    using assms put_room put_same by auto
qed

end

lemma evict_drop: "lru_evict n es = drop (length es - n) es"
proof (induction es)
  case (Cons e es)
  then show ?case
    by (cases "length es < n") (auto simp: Suc_diff_le not_less)
qed simp

definition lru_ok :: "('k, 'v) BoundedLruMap \<Rightarrow> bool" where
  "lru_ok m \<longleftrightarrow> 1 \<le> lru_maxEntries m \<and> distinct (map fst (lru_map m))
     \<and> length (lru_map m) \<le> lru_maxEntries m"

lemma lru_set_eq:
  "lru_map (lru_set m k v) = (let es = AList.delete k (lru_map m) @ [(k, v)]
     in drop (length es - lru_maxEntries m) es)"
proof -
  have "(if lru_has m k then AList.delete k (lru_map m) else lru_map m) = AList.delete k (lru_map m)"
    by (auto simp: lru_has_def map_of_eq_None_iff delete_id)
  moreover have "AList.update k v (AList.delete k (lru_map m)) = AList.delete k (lru_map m) @ [(k, v)]"
    by (intro update_new delete_notin_dom)
  ultimately show ?thesis
    by (simp add: lru_set_def evict_drop Let_def)
qed

lemma map_of_drop_le:
  assumes "distinct (map fst es)"
  shows "map_of (drop n es) k \<in> {None, map_of es k}"
proof (cases "map_of (drop n es) k")
  case (Some v)
  then have "(k, v) \<in> set es" by (meson in_set_dropD map_of_SomeD)
  then show ?thesis using Some assms by simp
qed simp

lemma delete_length_less:
  "k \<in> fst ` set es \<Longrightarrow> length (AList.delete k es) < length es"
  by (induction es) (auto simp: le_imp_less_Suc length_delete_le)

lemma lru_set_ok: "lru_ok m \<Longrightarrow> lru_ok (lru_set m k v)"
  unfolding lru_ok_def lru_set_eq Let_def
  by (auto simp: lru_set_def Let_def drop_map [symmetric] delete_keys distinct_removeAll
      simp del: drop_append intro!: distinct_drop)

interpretation lru: bounded_store lru_get lru_set "\<lambda>m k. snd (lru_delete m k)" lru_size lru_maxEntries lru_ok
proof
  fix m :: "('a, 'b) BoundedLruMap" and k k' v
  show cap: "lru_maxEntries (lru_set m k v) = lru_maxEntries m"
    by (simp add: lru_set_def Let_def)
  show "lru_maxEntries (snd (lru_delete m k)) = lru_maxEntries m"
    by (simp add: lru_delete_def)
  assume ok: "lru_ok m"
  then show "lru_ok (lru_set m k v)" by (rule lru_set_ok)
  let ?es = "AList.delete k (lru_map m) @ [(k, v)]"
  have dist: "distinct (map fst ?es)" and k: "map_of ?es k = Some v"
    using ok by (auto simp: lru_ok_def distinct_delete delete_notin_dom map_add_def delete_conv')
  have old: "k' \<noteq> k \<Longrightarrow> map_of ?es k' = map_of (lru_map m) k'"
    by (simp add: map_add_def delete_conv' split: option.splits)
  have last: "(k, v) \<in> set (drop (length ?es - lru_maxEntries m) ?es)"
    using ok by (simp add: lru_ok_def)
  show "lru_get (lru_set m k v) k = Some v"
    using last dist unfolding lru_get_def lru_set_eq Let_def
    by (metis distinct_drop drop_map map_of_eq_Some_iff)
  show "k' \<noteq> k \<Longrightarrow> lru_get (lru_set m k v) k' \<in> {None, lru_get m k'}"
    using map_of_drop_le [OF dist, of "length ?es - lru_maxEntries m" k'] old
    unfolding lru_get_def lru_set_eq Let_def by simp
  show "k' \<noteq> k \<Longrightarrow> lru_get (lru_set m k v) k' = lru_get m k'"
    if "lru_size m < lru_maxEntries m \<or> lru_get m k \<noteq> None"
  proof -
    assume ne: "k' \<noteq> k"
    have "length ?es \<le> lru_maxEntries m"
    proof (cases "lru_get m k")
      case None
      then show ?thesis
        using that length_delete_le [of k "lru_map m"] by (simp add: lru_size_def)
    next
      case (Some w)
      then have "length (AList.delete k (lru_map m)) < length (lru_map m)"
        by (intro delete_length_less) (force simp: lru_get_def dest: map_of_SomeD)
      then show ?thesis using ok by (simp add: lru_ok_def)
    qed
    then show ?thesis
      using old ne unfolding lru_get_def lru_set_eq Let_def by simp
  qed
  show "lru_ok (snd (lru_delete m k))"
    using ok length_delete_le [of k "lru_map m"] by (simp add: lru_ok_def lru_delete_def distinct_delete)
  show "lru_get (snd (lru_delete m k)) = (lru_get m)(k := None)"
    by (rule ext) (simp add: lru_get_def lru_delete_def delete_conv')
  show "lru_size m \<le> lru_maxEntries m"
    using ok by (simp add: lru_ok_def lru_size_def)
  show "finite (dom (lru_get m)) \<and> lru_size m = card (dom (lru_get m))"
    using ok distinct_card [of "map fst (lru_map m)"]
    by (auto simp: lru_ok_def lru_get_def [abs_def] lru_size_def finite_dom_map_of dom_map_of_conv_image_fst)
qed

section \<open>Runs of the checkers\<close>

text \<open>The verdicts of a checker on a sequence of (session, timestamp, clock) inputs.\<close>

fun mono_verdicts :: "mono_state \<Rightarrow> (jstring \<times> jstring \<times> rat) list \<Rightarrow> bool list" where
  "mono_verdicts m [] = []"
| "mono_verdicts m ((sid, ts, now) # xs) =
    (let r = mono_accept m sid ts in fst r # mono_verdicts (snd r) xs)"

fun bm_verdicts :: "BoundedMonotonic \<Rightarrow> (jstring \<times> jstring \<times> rat) list \<Rightarrow> bool list" where
  "bm_verdicts b [] = []"
| "bm_verdicts b ((sid, ts, now) # xs) =
    (let r = bm_accept b sid ts now in fst r # bm_verdicts (snd r) xs)"

definition agree :: "BoundedMonotonic \<Rightarrow> mono_state \<Rightarrow> bool" where
  "agree b m \<longleftrightarrow> (\<forall>sid. map_option me_maxMs (lru_get (bm_entries b) sid) = map_of m sid)"

lemma bm_accept_ok: "lru_ok (bm_entries b) \<Longrightarrow> lru_ok (bm_entries (snd (bm_accept b sid ts now)))"
  by (auto simp: bm_accept_def Let_def bm_touch_def bm_peekFresh_def lru.put_ok lru.del_ok
      split: option.splits)

lemma accept_agree:
  assumes "agree b m" "bm_ttlMs b = None" "lru_ok (bm_entries b)"
    and "dom (lru_get (bm_entries b)) \<subseteq> S" "sid \<in> S" "finite S" "card S \<le> lru_maxEntries (bm_entries b)"
  shows "fst (bm_accept b sid ts now) = fst (mono_accept m sid ts)"
    and "agree (snd (bm_accept b sid ts now)) (snd (mono_accept m sid ts))"
    and "bm_ttlMs (snd (bm_accept b sid ts now)) = None"
    and "dom (lru_get (bm_entries (snd (bm_accept b sid ts now)))) \<subseteq> S"
    and "lru_maxEntries (bm_entries (snd (bm_accept b sid ts now))) = lru_maxEntries (bm_entries b)"
proof -
  have put: "lru_get (lru_set (bm_entries b) sid v) = (lru_get (bm_entries b))(sid \<mapsto> v)" for v
    using lru.put_within [OF assms(3-7)] .
  have m: "map_of m sid = map_option me_maxMs (lru_get (bm_entries b) sid)"
    using assms(1) by (simp add: agree_def)
  show "fst (bm_accept b sid ts now) = fst (mono_accept m sid ts)"
    using m assms(2) by (auto simp: bm_accept_def mono_accept_def Let_def bm_peekFresh_def split: option.splits)
  show "agree (snd (bm_accept b sid ts now)) (snd (mono_accept m sid ts))"
    unfolding agree_def
  proof
    fix s
    have "map_of m s = map_option me_maxMs (lru_get (bm_entries b) s)"
      using assms(1) by (simp add: agree_def)
    then show "map_option me_maxMs (lru_get (bm_entries (snd (bm_accept b sid ts now))) s)
        = map_of (snd (mono_accept m sid ts)) s"
      using m assms(2)
      by (cases "s = sid"; cases "lru_get (bm_entries b) sid")
        (auto simp: bm_accept_def mono_accept_def Let_def bm_peekFresh_def bm_touch_def put
          update_conv' max_def)
  qed
  show "bm_ttlMs (snd (bm_accept b sid ts now)) = None"
    using assms(2) by (auto simp: bm_accept_def Let_def bm_peekFresh_def bm_touch_def split: option.splits)
  show "dom (lru_get (bm_entries (snd (bm_accept b sid ts now)))) \<subseteq> S"
    using assms(2,4,5) by (auto simp: bm_accept_def Let_def bm_peekFresh_def bm_touch_def put split: option.splits)
  show "lru_maxEntries (bm_entries (snd (bm_accept b sid ts now))) = lru_maxEntries (bm_entries b)"
    using assms(2) by (auto simp: bm_accept_def Let_def bm_peekFresh_def bm_touch_def lru.put_cap split: option.splits)
qed

lemma verdicts_agree:
  assumes "agree b m" "bm_ttlMs b = None" "lru_ok (bm_entries b)"
    and "dom (lru_get (bm_entries b)) \<subseteq> S" "finite S" "card S \<le> lru_maxEntries (bm_entries b)"
    and "fst ` set xs \<subseteq> S"
  shows "bm_verdicts b xs = mono_verdicts m xs"
  using assms
proof (induction xs arbitrary: b m)
  case (Cons x xs)
  obtain sid ts now where x: "x = (sid, ts, now)" by (cases x)
  have sid: "sid \<in> S" using Cons.prems(7) x by auto
  note step = accept_agree [OF Cons.prems(1-4) sid Cons.prems(5,6), of ts now]
  have "bm_verdicts (snd (bm_accept b sid ts now)) xs = mono_verdicts (snd (mono_accept m sid ts)) xs"
    using Cons.prems(5-7) by (intro Cons.IH) (simp_all add: step bm_accept_ok Cons.prems(3))
  then show ?case by (simp add: x step(1) Let_def)
qed simp

text \<open>The timestamps of one session in a history that denote a time.\<close>

definition times_of :: "(jstring \<times> jstring) list \<Rightarrow> jstring \<Rightarrow> rat set" where
  "times_of h sid = {fin_val (toEpochMs ts) |ts. (sid, ts) \<in> set h \<and> is_finite_num (toEpochMs ts)}"

definition mono_run :: "(jstring \<times> jstring) list \<Rightarrow> mono_state" where
  "mono_run h = foldl (\<lambda>m (sid, ts). snd (mono_accept m sid ts)) [] h"

definition max_opt :: "rat set \<Rightarrow> rat option" where
  "max_opt S = (if S = {} then None else Some (Max S))"

lemma finite_times: "finite (times_of h sid)"
proof -
  have "times_of h sid \<subseteq> (\<lambda>p. fin_val (toEpochMs (snd p))) ` set h"
    by (force simp: times_of_def)
  then show ?thesis by (rule finite_subset) simp
qed

lemma max_opt_insert: "finite S \<Longrightarrow> max_opt (insert x S) =
   Some (case max_opt S of None \<Rightarrow> x | Some y \<Rightarrow> max x y)"
  by (simp add: max_opt_def)

lemma times_of_snoc:
  "times_of (h @ [(sid, ts)]) s =
     (if s = sid \<and> is_finite_num (toEpochMs ts) then insert (fin_val (toEpochMs ts)) (times_of h s)
      else times_of h s)"
  by (auto simp: times_of_def)

lemma mono_run_max: "map_of (mono_run h) s = max_opt (times_of h s)"
proof (induction h arbitrary: s rule: rev_induct)
  case Nil
  then show ?case by (simp add: mono_run_def times_of_def max_opt_def)
next
  case (snoc x h)
  obtain sid ts where x: "x = (sid, ts)" by (cases x)
  have run: "mono_run (h @ [(sid, ts)]) = snd (mono_accept (mono_run h) sid ts)"
    by (simp add: mono_run_def)
  show ?case
    unfolding x run times_of_snoc
    by (auto simp: mono_accept_def Let_def snoc.IH update_conv' max_opt_insert finite_times max_def
        split: option.splits)
qed

section \<open>Properties\<close>

text \<open>
  The monotonicity checker is exact: after any history of events, a new event of a session
  is accepted if and only if its timestamp denotes a time that is not before any time already
  seen in that session, accepted or not.
\<close>

theorem monotonic_checker_exact:
  "fst (mono_accept (mono_run h) sid ts) \<longleftrightarrow>
     is_finite_num (toEpochMs ts) \<and> (\<forall>t. t \<in> times_of h sid \<longrightarrow> t \<le> fin_val (toEpochMs ts))"
proof -
  have "max_opt S = Some m \<Longrightarrow> finite S \<Longrightarrow> (\<forall>t. t \<in> S \<longrightarrow> t \<le> x) \<longleftrightarrow> m \<le> x" for S m x
    by (metis Max_le_iff max_opt_def option.distinct(1) option.inject)
  moreover have "max_opt S = None \<Longrightarrow> t \<notin> S" for S t
    by (simp add: max_opt_def split: if_splits)
  ultimately show ?thesis
    using finite_times [of h sid]
    by (auto simp: mono_accept_def Let_def mono_run_max not_less split: option.splits)
qed

theorem monotonic_checker_exact_witness:
  "fst (mono_accept (mono_run [(js ''s'', js ''2026-05-30T12:34:56Z'')]) (js ''s'') (js ''2026-05-30T12:34:57.5Z''))
   \<and> \<not> fst (mono_accept (mono_run [(js ''s'', js ''2026-05-30T12:34:56Z'')]) (js ''s'') (js ''2026-05-30T23:34:55+12:00''))"
proof -
  have e: "toEpochMs (js ''2026-05-30T12:34:56Z'') = JFin 1780144496000"
    "toEpochMs (js ''2026-05-30T12:34:57.5Z'') = JFin 1780144497500"
    "toEpochMs (js ''2026-05-30T23:34:55+12:00'') = JFin 1780140895000"
    by code_simp+
  have "times_of [(js ''s'', js ''2026-05-30T12:34:56Z'')] (js ''s'') = {1780144496000}"
    by (auto simp: times_of_def e)
  then show ?thesis
    using monotonic_checker_exact [of "[(js ''s'', js ''2026-05-30T12:34:56Z'')]" "js ''s''"]
    by (simp add: e)
qed

text \<open>
  Bounding the checker costs nothing while the sessions fit: without a time to live, on any
  sequence of inputs over at most \<^verbatim>\<open>maxSessions\<close> sessions, the bounded checker gives
  the verdicts of the unbounded one, whatever the order of the sessions.
\<close>

theorem bounded_checker_agrees:
  assumes "bm_new (Some (JFin (of_nat n))) None = Inr b"
    and "card (fst ` set xs) \<le> n"
  shows "bm_verdicts b xs = mono_verdicts [] xs"
proof -
  have b: "bm_entries b = \<lparr>lru_map = [], lru_maxEntries = n\<rparr>" "bm_ttlMs b = None" "1 \<le> n"
    using assms(1) by (auto simp: bm_new_def lru_new_def split: if_splits)
  show ?thesis
    using b assms(2)
    by (intro verdicts_agree [where S = "fst ` set xs"])
      (auto simp: agree_def lru_get_def lru_ok_def)
qed

theorem bounded_checker_agrees_witness:
  "bm_verdicts \<lparr>bm_entries = \<lparr>lru_map = [], lru_maxEntries = 1\<rparr>, bm_ttlMs = None\<rparr>
     [(js ''s'', js ''2026-05-30T12:34:56Z'', 0), (js ''s'', js ''2026-05-30T12:34:55Z'', 1)] = [True, False]"
  (is "bm_verdicts ?b ?xs = _")
proof -
  have "bm_new (Some (JFin (of_nat 1))) None = Inr ?b"
    by (simp add: bm_new_def lru_new_def)
  then have "bm_verdicts ?b ?xs = mono_verdicts [] ?xs"
    by (rule bounded_checker_agrees) simp
  also have "\<dots> = [True, False]"
    by code_simp
  finally show ?thesis .
qed

end
