(* ===== verification/Sha256.thy ===== *)
theory Sha256
  imports Prelude "HOL-Library.Word"
begin

unbundle bit_operations_syntax

text \<open>
  The isomorphic SHA-256 (\<^verbatim>\<open>packages/event-model/src/hash.ts\<close>): the UTF-8 encoder over
  UTF-16 code units, the padding in a byte buffer, the message schedule and the compression loop
  on 32-bit words, and the hexadecimal output. Bytes are naturals, 32-bit values are
  \<^typ>\<open>32 word\<close>: the source forces every sum back to 32 bits, and a sum of at most five of them is
  exact in a double before that.
\<close>

section \<open>UTF-8\<close>

fun utf8Bytes :: "jstring \<Rightarrow> nat list" where
  "utf8Bytes [] = []"
| "utf8Bytes (code # rest) =
    (if code < 0x80 then code # utf8Bytes rest
     else if code < 0x800 then
       (0xc0 OR drop_bit 6 code) # (0x80 OR (code AND 0x3f)) # utf8Bytes rest
     else if code \<ge> 0xd800 \<and> code \<le> 0xdbff then
       (case rest of
          [] \<Rightarrow> 0xef # 0xbf # 0xbd # utf8Bytes rest
        | nxt # rest' \<Rightarrow>
            if nxt \<ge> 0xdc00 \<and> nxt \<le> 0xdfff then
              (let c = 0x10000 + push_bit 10 (code - 0xd800) + (nxt - 0xdc00)
               in (0xf0 OR drop_bit 18 c) # (0x80 OR (drop_bit 12 c AND 0x3f))
                  # (0x80 OR (drop_bit 6 c AND 0x3f)) # (0x80 OR (c AND 0x3f)) # utf8Bytes rest')
            else 0xef # 0xbf # 0xbd # utf8Bytes rest)
     else if code \<ge> 0xdc00 \<and> code \<le> 0xdfff then 0xef # 0xbf # 0xbd # utf8Bytes rest
     else (0xe0 OR drop_bit 12 code) # (0x80 OR (drop_bit 6 code AND 0x3f))
          # (0x80 OR (code AND 0x3f)) # utf8Bytes rest)"

section \<open>Padding\<close>

text \<open>\<^verbatim>\<open>DataView.setUint32\<close> and \<^verbatim>\<open>getUint32\<close>, big-endian.\<close>

definition setUint32 :: "nat list \<Rightarrow> nat \<Rightarrow> nat \<Rightarrow> nat list" where
  "setUint32 buf i v =
    buf[i := v div 2 ^ 24 mod 256, i + 1 := v div 2 ^ 16 mod 256,
        i + 2 := v div 2 ^ 8 mod 256, i + 3 := v mod 256]"

definition getUint32 :: "nat list \<Rightarrow> nat \<Rightarrow> 32 word" where
  "getUint32 buf i =
    word_of_nat (((buf ! i * 256 + buf ! (i + 1)) * 256 + buf ! (i + 2)) * 256 + buf ! (i + 3))"

definition sha_padded :: "nat list \<Rightarrow> nat list" where
  "sha_padded msg =
    (let l = length msg;
         size = ((l + 8) div 64 + 1) * 64;
         buf = (msg @ drop l (replicate size 0))[l := 0x80];
         bitLenHi = l div 0x20000000 mod 2 ^ 32;
         bitLenLo = (l * 8) mod 2 ^ 32
     in setUint32 (setUint32 buf (size - 8) bitLenHi) (size - 4) bitLenLo)"

section \<open>Compression\<close>

definition sha_K :: "32 word list" where
  "sha_K = concat
   [[0x428a2f98, 0x71374491, 0xb5c0fbcf, 0xe9b5dba5, 0x3956c25b, 0x59f111f1, 0x923f82a4, 0xab1c5ed5],
    [0xd807aa98, 0x12835b01, 0x243185be, 0x550c7dc3, 0x72be5d74, 0x80deb1fe, 0x9bdc06a7, 0xc19bf174],
    [0xe49b69c1, 0xefbe4786, 0x0fc19dc6, 0x240ca1cc, 0x2de92c6f, 0x4a7484aa, 0x5cb0a9dc, 0x76f988da],
    [0x983e5152, 0xa831c66d, 0xb00327c8, 0xbf597fc7, 0xc6e00bf3, 0xd5a79147, 0x06ca6351, 0x14292967],
    [0x27b70a85, 0x2e1b2138, 0x4d2c6dfc, 0x53380d13, 0x650a7354, 0x766a0abb, 0x81c2c92e, 0x92722c85],
    [0xa2bfe8a1, 0xa81a664b, 0xc24b8b70, 0xc76c51a3, 0xd192e819, 0xd6990624, 0xf40e3585, 0x106aa070],
    [0x19a4c116, 0x1e376c08, 0x2748774c, 0x34b0bcb5, 0x391c0cb3, 0x4ed8aa4a, 0x5b9cca4f, 0x682e6ff3],
    [0x748f82ee, 0x78a5636f, 0x84c87814, 0x8cc70208, 0x90befffa, 0xa4506ceb, 0xbef9a3f7, 0xc67178f2]]"

definition rotr :: "nat \<Rightarrow> 32 word \<Rightarrow> 32 word" where
  "rotr n x = (drop_bit n x OR push_bit (32 - n) x)"

text \<open>The schedule: the sixteen words of the block, then one word appended 48 times.\<close>

definition sched_step :: "32 word list \<Rightarrow> 32 word list" where
  "sched_step w =
    (let i = length w;
         w15 = w ! (i - 15);
         w2 = w ! (i - 2);
         s0 = rotr 7 w15 XOR rotr 18 w15 XOR drop_bit 3 w15;
         s1 = rotr 17 w2 XOR rotr 19 w2 XOR drop_bit 10 w2
     in w @ [w ! (i - 16) + s0 + w ! (i - 7) + s1])"

definition schedule :: "nat list \<Rightarrow> nat \<Rightarrow> 32 word list" where
  "schedule padded off = (sched_step ^^ 48) (map (\<lambda>i. getUint32 padded (off + i * 4)) [0..<16])"

record sha_state =
  sh_a :: "32 word"
  sh_b :: "32 word"
  sh_c :: "32 word"
  sh_d :: "32 word"
  sh_e :: "32 word"
  sh_f :: "32 word"
  sh_g :: "32 word"
  sh_h :: "32 word"

definition sha_round :: "sha_state \<Rightarrow> 32 word \<times> 32 word \<Rightarrow> sha_state" where
  "sha_round st kw =
    (let a = sh_a st; b = sh_b st; c = sh_c st; d = sh_d st;
         e = sh_e st; f = sh_f st; g = sh_g st; h = sh_h st;
         s1 = rotr 6 e XOR rotr 11 e XOR rotr 25 e;
         ch = (e AND f) XOR (NOT e AND g);
         t1 = h + s1 + ch + fst kw + snd kw;
         s0 = rotr 2 a XOR rotr 13 a XOR rotr 22 a;
         maj = (a AND b) XOR (a AND c) XOR (b AND c);
         t2 = s0 + maj
     in \<lparr>sh_a = t1 + t2, sh_b = a, sh_c = b, sh_d = c, sh_e = d + t1, sh_f = e, sh_g = f, sh_h = g\<rparr>)"

definition sha_block :: "nat list \<Rightarrow> sha_state \<Rightarrow> nat \<Rightarrow> sha_state" where
  "sha_block padded st off =
    (let r = foldl sha_round st (zip sha_K (schedule padded off))
     in \<lparr>sh_a = sh_a st + sh_a r, sh_b = sh_b st + sh_b r, sh_c = sh_c st + sh_c r,
         sh_d = sh_d st + sh_d r, sh_e = sh_e st + sh_e r, sh_f = sh_f st + sh_f r,
         sh_g = sh_g st + sh_g r, sh_h = sh_h st + sh_h r\<rparr>)"

definition sha_init :: sha_state where
  "sha_init = \<lparr>sh_a = 0x6a09e667, sh_b = 0xbb67ae85, sh_c = 0x3c6ef372, sh_d = 0xa54ff53a,
     sh_e = 0x510e527f, sh_f = 0x9b05688c, sh_g = 0x1f83d9ab, sh_h = 0x5be0cd19\<rparr>"

section \<open>Output\<close>

definition hex_char :: "nat \<Rightarrow> nat" where
  "hex_char d = (if d < 10 then 48 + d else 87 + d)"

text \<open>\<^verbatim>\<open>Number.prototype.toString(16)\<close> and \<^verbatim>\<open>padStart\<close>.\<close>

fun to_hex :: "nat \<Rightarrow> jstring" where
  "to_hex n = (if n < 16 then [hex_char n] else to_hex (n div 16) @ [hex_char (n mod 16)])"

declare to_hex.simps [simp del]

definition padStart :: "nat \<Rightarrow> nat \<Rightarrow> jstring \<Rightarrow> jstring" where
  "padStart n c s = replicate (n - length s) c @ s"

definition sha256Hex :: "jstring \<Rightarrow> jstring" where
  "sha256Hex input =
    (let padded = sha_padded (utf8Bytes input);
         st = foldl (sha_block padded) sha_init (map (\<lambda>i. i * 64) [0..<length padded div 64])
     in concat (map (\<lambda>x. padStart 8 48 (to_hex (unat x)))
          [sh_a st, sh_b st, sh_c st, sh_d st, sh_e st, sh_f st, sh_g st, sh_h st]))"

section \<open>Reference definitions\<close>

text \<open>The UTF-16 code units and the UTF-8 bytes of a Unicode scalar value, by arithmetic.\<close>

definition scalar_value :: "nat \<Rightarrow> bool" where
  "scalar_value c \<longleftrightarrow> c < 0x110000 \<and> \<not> (0xd800 \<le> c \<and> c \<le> 0xdfff)"

definition utf16_units :: "nat \<Rightarrow> jstring" where
  "utf16_units c = (if c < 0x10000 then [c]
     else [0xd800 + (c - 0x10000) div 1024, 0xdc00 + (c - 0x10000) mod 1024])"

definition utf8_scalar :: "nat \<Rightarrow> nat list" where
  "utf8_scalar c =
    (if c < 0x80 then [c]
     else if c < 0x800 then [192 + c div 64, 128 + c mod 64]
     else if c < 0x10000 then [224 + c div 4096, 128 + c div 64 mod 64, 128 + c mod 64]
     else [240 + c div 262144, 128 + c div 4096 mod 64, 128 + c div 64 mod 64, 128 + c mod 64])"

text \<open>The padding rule of FIPS 180-4: a one bit, the fewest zeros, the length in 64 bits.\<close>

definition fips_pad :: "nat list \<Rightarrow> nat list" where
  "fips_pad msg = msg @ [0x80] @ replicate ((119 - length msg mod 64) mod 64) 0
     @ map (\<lambda>i. (length msg * 8) div 256 ^ (7 - i) mod 256) [0..<8]"

section \<open>Bits as arithmetic\<close>

lemma or_add: "(\<And>n. \<not> (bit a n \<and> bit b n)) \<Longrightarrow> a OR b = a + (b::nat)"
  by (rule disjunctive_add [symmetric]) auto

lemma or_high: "b < 2 ^ n \<Longrightarrow> push_bit n a OR b = push_bit n a + (b::nat)"
proof (rule or_add)
  fix m
  assume b: "b < 2 ^ n"
  show "\<not> (bit (push_bit n a) m \<and> bit b m)"
  proof
    assume *: "bit (push_bit n a) m \<and> bit b m"
    then have "n \<le> m" by (simp add: bit_push_bit_iff)
    then have "b < 2 ^ m" using b by (meson less_le_trans power_increasing one_le_numeral)
    then show False using * by (simp add: bit_iff_odd)
  qed
qed

lemma or_lead:
  "b < 64 \<Longrightarrow> 128 OR b = 128 + (b::nat)"
  "b < 32 \<Longrightarrow> 192 OR b = 192 + (b::nat)"
  "b < 16 \<Longrightarrow> 224 OR b = 224 + (b::nat)"
  "b < 8 \<Longrightarrow> 240 OR b = 240 + (b::nat)"
  using or_high [of b 6 2] or_high [of b 5 6] or_high [of b 4 14] or_high [of b 3 30]
  by (simp_all add: push_bit_eq_mult)

lemma and_low6: "c AND 63 = (c::nat) mod 64"
  using take_bit_eq_mask [of 6 c] by (simp add: mask_eq_exp_minus_1 take_bit_eq_mod)

section \<open>UTF-8 refines the reference encoder\<close>

lemma utf8Bytes_scalar:
  assumes "scalar_value c"
  shows "utf8Bytes (utf16_units c @ rest) = utf8_scalar c @ utf8Bytes rest"
proof -
  note [simp] = or_lead and_low6 drop_bit_eq_div utf16_units_def utf8_scalar_def
  consider "c < 0x80" | "0x80 \<le> c" "c < 0x800" | "0x800 \<le> c" "c < 0x10000" | "0x10000 \<le> c"
    by linarith
  then show ?thesis
  proof cases
    case 4
    define d where "d = c - 0x10000"
    have c: "c = 0x10000 + (d div 1024 * 1024 + d mod 1024)" "d < 0x100000"
      using 4 assms by (auto simp: d_def scalar_value_def)
    have q: "d div 1024 < 1024" using c(2) by simp
    have u: "utf16_units c = [0xd800 + d div 1024, 0xdc00 + d mod 1024]"
      using 4 by (simp add: d_def)
    have v: "0x10000 + push_bit 10 (d div 1024) + d mod 1024 = c"
      using c(1) by (simp add: push_bit_eq_mult)
    have m: "d mod 1024 \<le> 1023" using mod_less_divisor [of 1024 d] by linarith
    have "c div 262144 < 8" using c by simp
    then show ?thesis
      using 4 q m unfolding u by (simp add: v Let_def del: utf16_units_def)
  qed (use assms in \<open>auto simp: scalar_value_def\<close>)
qed

section \<open>Padding refines the standard's rule\<close>

lemma setUint32_at:
  "setUint32 (xs @ [a, b, c, d] @ ys) (length xs) v =
    xs @ [v div 2 ^ 24 mod 256, v div 2 ^ 16 mod 256, v div 2 ^ 8 mod 256, v mod 256] @ ys"
  by (simp add: setUint32_def list_update_append)

lemma setUint32_after:
  "setUint32 (xs @ [p, q, r, s, a, b, c, d]) (length xs + 4) v =
    xs @ [p, q, r, s, v div 2 ^ 24 mod 256, v div 2 ^ 16 mod 256, v div 2 ^ 8 mod 256, v mod 256]"
proof -
  have l: "length (xs @ [p, q, r, s]) = length xs + 4" by simp
  show ?thesis
    using setUint32_at [of "xs @ [p, q, r, s]" a b c d "[]" v] unfolding l by simp
qed

lemma pad_size:
  "((l + 8) div 64 + 1) * 64 = l + 1 + (119 - l mod 64) mod 64 + (8::nat)"
proof -
  define q r where "q = l div 64" and "r = l mod 64"
  have l: "l = 64 * q + r" and r: "r < 64" by (simp_all add: q_def r_def)
  have d: "(l + 8) div 64 = q + (r + 8) div 64" unfolding l by simp
  have "((r + 8) div 64 + 1) * 64 = r + 1 + (119 - r) mod 64 + 8"
  proof (cases "r < 56")
    case True
    then have e: "119 - r = 64 + (55 - r)" by simp
    have "(119 - r) mod 64 = 55 - r" unfolding e mod_add_self1 by (rule mod_less) simp
    then show ?thesis using True by simp
  next
    case False
    define i where "i = r - 56"
    have i: "r = 56 + i" "i < 8" using False r by (simp_all add: i_def)
    then have "(r + 8) div 64 = 1" by simp
    then show ?thesis using i by simp
  qed
  then show ?thesis
    unfolding d r_def [symmetric] using l by (simp add: algebra_simps)
qed

lemma byte_of_mod: "j \<le> 24 \<Longrightarrow> (x mod 2 ^ 32) div 2 ^ j mod 256 = x div 2 ^ j mod (256::nat)"
proof -
  assume "j \<le> 24"
  then have "take_bit 8 (drop_bit j (take_bit 32 x)) = take_bit 8 (drop_bit j x)"
    by (simp add: drop_bit_take_bit)
  then show ?thesis
    by (simp add: take_bit_eq_mod drop_bit_eq_div)
qed

section \<open>Shape of the digest\<close>

definition hex_string :: "jstring \<Rightarrow> bool" where
  "hex_string s = list_all (\<lambda>c. 48 \<le> c \<and> c \<le> 57 \<or> 97 \<le> c \<and> c \<le> 102) s"

lemma to_hex_ok: "hex_string (to_hex n) \<and> to_hex n \<noteq> []"
proof (induction n rule: to_hex.induct)
  case (1 n)
  have d: "m < 16 \<Longrightarrow> hex_string [hex_char m]" for m
    by (auto simp: hex_string_def hex_char_def)
  show ?case
    using 1 d [of n] d [of "n mod 16"] by (subst (1 2) to_hex.simps) (auto simp: hex_string_def)
qed

lemma to_hex_length: "n < 16 ^ Suc k \<Longrightarrow> length (to_hex n) \<le> Suc k"
proof (induction k arbitrary: n)
  case 0
  then show ?case by (subst to_hex.simps) simp
next
  case (Suc k)
  show ?case
  proof (cases "n < 16")
    case True
    then show ?thesis by (subst to_hex.simps) simp
  next
    case False
    have "n div 16 < 16 ^ Suc k" using Suc.prems by (simp add: less_mult_imp_div_less)
    then show ?thesis using Suc.IH False by (subst to_hex.simps) simp
  qed
qed

lemma word_hex:
  fixes x :: "32 word"
  shows "length (padStart 8 48 (to_hex (unat x))) = 8 \<and> hex_string (padStart 8 48 (to_hex (unat x)))"
proof -
  have "unat x < 16 ^ Suc 7" using unsigned_less [of x] by simp
  then have "length (to_hex (unat x)) \<le> 8" using to_hex_length [of "unat x" 7] by simp
  then show ?thesis
    using to_hex_ok [of "unat x"] by (auto simp: padStart_def hex_string_def list_all_iff)
qed

lemma sha256Hex_hex: "length (sha256Hex s) = 64" "hex_string (sha256Hex s)"
  using word_hex by (simp_all add: sha256Hex_def Let_def hex_string_def)

section \<open>Properties\<close>

text \<open>
  The encoder is UTF-8: on the code units of any sequence of Unicode scalar values, surrogate
  pairs included, it gives the bytes of the standard's table.
\<close>

theorem utf8Bytes_standard:
  assumes "list_all scalar_value cs"
  shows "utf8Bytes (concat (map utf16_units cs)) = concat (map utf8_scalar cs)"
  using assms by (induction cs) (simp_all add: utf8Bytes_scalar)

theorem utf8Bytes_standard_witness:
  "list_all scalar_value [0x1F600, 0x3042] \<and> utf8Bytes [0xd83d, 0xde00, 0x3042] = [240, 159, 152, 128, 227, 129, 130]"
  using utf8Bytes_standard [of "[0x1F600, 0x3042]"]
  by (simp add: scalar_value_def utf16_units_def utf8_scalar_def del: utf8Bytes.simps)

text \<open>
  The padding done by index writes into a zeroed buffer is the padding rule of FIPS 180-4 for
  a message of any length: no write overlaps the message, and the last eight bytes hold its
  length in bits.
\<close>

theorem sha_padded_fips: "sha_padded msg = fips_pad msg"
proof -
  define l k where "l = length msg" and "k = (119 - l mod 64) mod 64"
  have size: "((l + 8) div 64 + 1) * 64 = l + 1 + k + 8"
    unfolding k_def by (rule pad_size)
  have buf: "(msg @ drop l (replicate (l + 1 + k + 8) 0))[l := 0x80]
      = (msg @ 0x80 # replicate k 0) @ [0, 0, 0, 0] @ [0, 0, 0, 0]"
  proof -
    have "replicate (1 + k + 8) (0::nat) = 0 # replicate k 0 @ [0, 0, 0, 0, 0, 0, 0, 0]"
      unfolding replicate_add by (simp add: numeral_eq_Suc)
    then show ?thesis by (simp add: l_def list_update_append add.assoc)
  qed
  define xs where "xs = msg @ 0x80 # replicate k 0"
  have len: "length xs = l + 1 + k" by (simp add: xs_def l_def)
  have "sha_padded msg = setUint32 (setUint32 (xs @ [0, 0, 0, 0] @ [0, 0, 0, 0]) (length xs)
      (l div 0x20000000 mod 2 ^ 32)) (length xs + 4) (l * 8 mod 2 ^ 32)"
    unfolding sha_padded_def Let_def l_def [symmetric] size buf len xs_def [symmetric] by simp
  also have "\<dots> = xs @ map (\<lambda>j. l div 0x20000000 mod 2 ^ 32 div 2 ^ j mod 256) [24, 16, 8, 0]
      @ map (\<lambda>j. l * 8 mod 2 ^ 32 div 2 ^ j mod 256) [24, 16, 8, 0]"
    unfolding setUint32_at by (simp add: setUint32_after)
  also have "\<dots> = xs @ map (\<lambda>j. l div 0x20000000 div 2 ^ j mod 256) [24, 16, 8, 0]
      @ map (\<lambda>j. l * 8 div 2 ^ j mod 256) [24, 16, 8, 0]"
  proof -
    have "map (\<lambda>j. x mod 2 ^ 32 div 2 ^ j mod 256) [24, 16, 8, 0] = map (\<lambda>j. x div 2 ^ j mod 256) [24, 16, 8, 0]"
      for x :: nat
      by (rule map_cong, rule refl, rule byte_of_mod) auto
    then show ?thesis by (simp only:)
  qed
  also have "\<dots> = fips_pad msg"
  proof -
    have "l div 0x20000000 = l * 8 div 2 ^ 32"
      by (simp add: div_mult2_eq [of _ 8 "0x20000000", simplified])
    then show ?thesis
      by (simp add: fips_pad_def xs_def k_def l_def upt_conv_Cons div_mult2_eq [symmetric])
  qed
  finally show ?thesis .
qed

text \<open>
  A digest is always 64 lower-case hexadecimal digits, so an identifier built from it holds
  no character of the hashed text beyond those.
\<close>

theorem sha256Hex_shape: "length (sha256Hex s) = 64 \<and> hex_string (sha256Hex s)"
  by (simp add: sha256Hex_hex)

end
