(* ===== verification/Work_Items.thy ===== *)
theory Work_Items
  imports Session_Projection Timestamps Sha256
begin

text \<open>
  Work items and evidence-based completion
  (\<^verbatim>\<open>packages/event-model/src/work-item.ts\<close>, \<^verbatim>\<open>packages/projection/src/work-items.ts\<close>): the closed
  vocabularies, the identifiers and the tree fingerprint, and the fold that turns task updates,
  plan snapshots, checks and diffs into claimed and verified work items.
\<close>

section \<open>Vocabularies\<close>

datatype WorkItemStatus = WS_pending | WS_in_progress | WS_completed | WS_cancelled | WS_removed | WS_unknown

datatype VerificationState = V_unverified | V_passed | V_failed | V_stale | V_waived

datatype CheckKind = CK_test | CK_lint | CK_typecheck | CK_build | CK_format

datatype CheckMatch = CM_program | CM_script

datatype ObservationMethod =
  OM_official_hook | OM_official_api | OM_provider_jsonl | OM_local_file | OM_log_parse | OM_heuristic

datatype ObservationFidelity = OF_authoritative | OF_observed | OF_parsed | OF_inferred | OF_unknown

datatype WorkItemIdScheme = Scheme_task | Scheme_plan

fun status_str :: "WorkItemStatus \<Rightarrow> string" where
  "status_str WS_pending = ''pending''"
| "status_str WS_in_progress = ''in_progress''"
| "status_str WS_completed = ''completed''"
| "status_str WS_cancelled = ''cancelled''"
| "status_str WS_removed = ''removed''"
| "status_str WS_unknown = ''unknown''"

fun check_kind_str :: "CheckKind \<Rightarrow> string" where
  "check_kind_str CK_test = ''test''"
| "check_kind_str CK_lint = ''lint''"
| "check_kind_str CK_typecheck = ''typecheck''"
| "check_kind_str CK_build = ''build''"
| "check_kind_str CK_format = ''format''"

fun check_match_str :: "CheckMatch \<Rightarrow> string" where
  "check_match_str CM_program = ''program''"
| "check_match_str CM_script = ''script''"

fun method_str :: "ObservationMethod \<Rightarrow> string" where
  "method_str OM_official_hook = ''official_hook''"
| "method_str OM_official_api = ''official_api''"
| "method_str OM_provider_jsonl = ''provider_jsonl''"
| "method_str OM_local_file = ''local_file''"
| "method_str OM_log_parse = ''log_parse''"
| "method_str OM_heuristic = ''heuristic''"

fun fidelity_str :: "ObservationFidelity \<Rightarrow> string" where
  "fidelity_str OF_authoritative = ''authoritative''"
| "fidelity_str OF_observed = ''observed''"
| "fidelity_str OF_parsed = ''parsed''"
| "fidelity_str OF_inferred = ''inferred''"
| "fidelity_str OF_unknown = ''unknown''"

fun scheme_str :: "WorkItemIdScheme \<Rightarrow> string" where
  "scheme_str Scheme_task = ''task''"
| "scheme_str Scheme_plan = ''plan''"

text \<open>\<^verbatim>\<open>safeParse\<close> of a string enum: the member a value spells, if any.\<close>

definition enum_safeParse :: "('a \<Rightarrow> string) \<Rightarrow> 'a list \<Rightarrow> jsval \<Rightarrow> 'a option" where
  "enum_safeParse str members v =
    (case js_string v of None \<Rightarrow> None | Some s \<Rightarrow> find (\<lambda>x. js (str x) = s) members)"

definition coerceWorkItemStatus :: "jsval \<Rightarrow> WorkItemStatus" where
  "coerceWorkItemStatus v =
    (case enum_safeParse status_str
        [WS_pending, WS_in_progress, WS_completed, WS_cancelled, WS_removed, WS_unknown] v of
       Some s \<Rightarrow> s | None \<Rightarrow> WS_unknown)"

definition gateCheckKind :: "jsval \<Rightarrow> CheckKind option" where
  "gateCheckKind v = enum_safeParse check_kind_str [CK_test, CK_lint, CK_typecheck, CK_build, CK_format] v"

definition gateCheckMatch :: "jsval \<Rightarrow> CheckMatch option" where
  "gateCheckMatch v = enum_safeParse check_match_str [CM_program, CM_script] v"

definition gateObservation :: "jsval \<Rightarrow> ObservationMethod option \<times> ObservationFidelity option" where
  "gateObservation v =
    (enum_safeParse method_str
       [OM_official_hook, OM_official_api, OM_provider_jsonl, OM_local_file, OM_log_parse, OM_heuristic]
       (js_get v (js ''method'')),
     enum_safeParse fidelity_str [OF_authoritative, OF_observed, OF_parsed, OF_inferred, OF_unknown]
       (js_get v (js ''fidelity'')))"

section \<open>Identifiers\<close>

definition WORK_ITEM_ID_HASH_LEN :: nat where
  "WORK_ITEM_ID_HASH_LEN = 16"

definition deriveWorkItemId :: "WorkItemIdScheme \<Rightarrow> jstring \<Rightarrow> jstring" where
  "deriveWorkItemId scheme text =
    (let normalized = (if scheme = Scheme_plan then js_trim text else text)
     in js (scheme_str scheme) @ js '':'' @ take WORK_ITEM_ID_HASH_LEN (sha256Hex normalized))"

definition treeFingerprint :: "jstring option \<Rightarrow> jstring option \<Rightarrow> jstring option" where
  "treeFingerprint head_sha diff_hash =
    (if head_sha = None \<or> head_sha = Some [] then
       (if diff_hash \<noteq> None \<and> diff_hash \<noteq> Some [] then diff_hash else None)
     else Some (sha256Hex (the head_sha @ [0] @ (case diff_hash of Some d \<Rightarrow> d | None \<Rightarrow> []))))"

section \<open>State\<close>

definition MAX_WORK_ITEMS :: nat where
  "MAX_WORK_ITEMS = 200"

definition WORK_ITEM_REACTIVE_EVENT_TYPES :: "string list" where
  "WORK_ITEM_REACTIVE_EVENT_TYPES =
    [''work.item.updated'', ''turn.plan.updated'', ''command.started'', ''command.completed'',
     ''diff.updated'', ''session.ended'']"

record WorkItem =
  wi_session_id :: jstring
  wi_work_item_id :: jstring
  wi_id_scheme :: WorkItemIdScheme
  wi_subject :: "jstring option"
  wi_status :: WorkItemStatus
  wi_ordinal :: "nat option"
  wi_created_at :: "jstring option"
  wi_created_event_id :: "jstring option"
  wi_claimed_at :: "jstring option"
  wi_claim_event_id :: "jstring option"
  wi_claim_method :: "ObservationMethod option"
  wi_claim_fidelity :: "ObservationFidelity option"
  wi_verification_state :: VerificationState
  wi_verified_at :: "jstring option"
  wi_verification_event_id :: "jstring option"
  wi_check_kind :: "CheckKind option"
  wi_check_match :: "CheckMatch option"
  wi_check_exit_code :: "int option"
  wi_verified_tree_fp :: "jstring option"
  wi_run_dirty :: bool
  wi_stale_at :: "jstring option"
  wi_stale_event_id :: "jstring option"
  wi_updated_at :: jstring

record PendingCheck =
  pc_request_id :: jstring
  pc_dirtied :: bool

record WorkItemsProjection =
  wp_session_id :: jstring
  wp_items :: "WorkItem list"
  wp_dropped_count :: nat
  wp_frozen :: bool
  wp_tree_fp :: "jstring option"
  wp_pending_checks :: "PendingCheck list"

definition initialWorkItemsProjection :: "jstring \<Rightarrow> WorkItemsProjection" where
  "initialWorkItemsProjection sessionId =
    \<lparr>wp_session_id = sessionId, wp_items = [], wp_dropped_count = 0, wp_frozen = False,
     wp_tree_fp = None, wp_pending_checks = []\<rparr>"

datatype WorkItemBadge = Self_claimed | Verified | Verification_failed | Changed_after_verification

definition deriveWorkItemBadge :: "WorkItem \<Rightarrow> WorkItemBadge option" where
  "deriveWorkItemBadge item =
    (if wi_status item \<noteq> WS_completed then None
     else (case wi_verification_state item of
             V_unverified \<Rightarrow> Some Self_claimed
           | V_passed \<Rightarrow> Some Verified
           | V_failed \<Rightarrow> Some Verification_failed
           | V_stale \<Rightarrow> Some Changed_after_verification
           | V_waived \<Rightarrow> None))"

fun FIDELITY_RANK :: "ObservationFidelity \<Rightarrow> int" where
  "FIDELITY_RANK OF_authoritative = 4"
| "FIDELITY_RANK OF_observed = 3"
| "FIDELITY_RANK OF_parsed = 2"
| "FIDELITY_RANK OF_inferred = 1"
| "FIDELITY_RANK OF_unknown = 0"

definition fidelityRank :: "ObservationFidelity option \<Rightarrow> int" where
  "fidelityRank f = (case f of Some x \<Rightarrow> FIDELITY_RANK x | None \<Rightarrow> -1)"

definition findItem :: "WorkItem list \<Rightarrow> jstring \<Rightarrow> WorkItem option" where
  "findItem items i = find (\<lambda>it. wi_work_item_id it = i) items"

definition replaceItem :: "WorkItem list \<Rightarrow> WorkItem \<Rightarrow> WorkItem list" where
  "replaceItem items nxt = map (\<lambda>it. if wi_work_item_id it = wi_work_item_id nxt then nxt else it) items"

text \<open>Spreading \<^verbatim>\<open>CLEARED_CLAIM\<close> over an item.\<close>

definition CLEARED_CLAIM :: "WorkItem \<Rightarrow> WorkItem" where
  "CLEARED_CLAIM it =
    it\<lparr>wi_claimed_at := None, wi_claim_event_id := None, wi_claim_method := None,
       wi_claim_fidelity := None, wi_verification_state := V_unverified, wi_verified_at := None,
       wi_verification_event_id := None, wi_check_kind := None, wi_check_match := None,
       wi_check_exit_code := None, wi_verified_tree_fp := None, wi_run_dirty := False,
       wi_stale_at := None, wi_stale_event_id := None\<rparr>"

record Upsert =
  up_id :: jstring
  up_id_scheme :: WorkItemIdScheme
  up_status :: WorkItemStatus
  up_subject :: "jstring option"
  up_ordinal :: "nat option"
  up_method :: "ObservationMethod option"
  up_fidelity :: "ObservationFidelity option"

section \<open>Operations\<close>

definition new_item :: "Upsert \<Rightarrow> NormalizedEvent \<Rightarrow> WorkItem" where
  "new_item u ev =
    (let now = ev_timestamp ev; claimed = (up_status u = WS_completed)
     in \<lparr>wi_session_id = ev_session_id ev, wi_work_item_id = up_id u, wi_id_scheme = up_id_scheme u,
         wi_subject = up_subject u, wi_status = up_status u, wi_ordinal = up_ordinal u,
         wi_created_at = Some now, wi_created_event_id = Some (ev_event_id ev),
         wi_claimed_at = (if claimed then Some now else None),
         wi_claim_event_id = (if claimed then Some (ev_event_id ev) else None),
         wi_claim_method = (if claimed then up_method u else None),
         wi_claim_fidelity = (if claimed then up_fidelity u else None),
         wi_verification_state = V_unverified, wi_verified_at = None,
         wi_verification_event_id = None, wi_check_kind = None, wi_check_match = None,
         wi_check_exit_code = None, wi_verified_tree_fp = None, wi_run_dirty = False,
         wi_stale_at = None, wi_stale_event_id = None, wi_updated_at = now\<rparr>)"

definition updated_item :: "WorkItem \<Rightarrow> Upsert \<Rightarrow> NormalizedEvent \<Rightarrow> WorkItem" where
  "updated_item existing u ev =
    (let now = ev_timestamp ev;
         n0 = existing\<lparr>wi_status := up_status u, wi_updated_at := now\<rparr>;
         n1 = (case up_subject u of Some s \<Rightarrow> n0\<lparr>wi_subject := Some s\<rparr> | None \<Rightarrow> n0);
         nxt = (case up_ordinal u of Some i \<Rightarrow> n1\<lparr>wi_ordinal := Some i\<rparr> | None \<Rightarrow> n1);
         wasCompleted = (wi_status existing = WS_completed);
         nowCompleted = (up_status u = WS_completed)
     in if nowCompleted \<and> \<not> wasCompleted then
          nxt\<lparr>wi_claimed_at := (case wi_claimed_at existing of Some t \<Rightarrow> Some t | None \<Rightarrow> Some now),
              wi_claim_event_id := Some (ev_event_id ev),
              wi_claim_method := up_method u, wi_claim_fidelity := up_fidelity u,
              wi_verification_state := V_unverified\<rparr>
        else if nowCompleted \<and> wasCompleted then
          (if fidelityRank (up_fidelity u) > fidelityRank (wi_claim_fidelity existing)
           then nxt\<lparr>wi_claim_method := up_method u, wi_claim_fidelity := up_fidelity u\<rparr>
           else nxt)
        else if \<not> nowCompleted \<and> wasCompleted then CLEARED_CLAIM nxt
        else nxt)"

definition upsertItem :: "WorkItemsProjection \<Rightarrow> Upsert \<Rightarrow> NormalizedEvent \<Rightarrow> WorkItemsProjection" where
  "upsertItem prev u ev =
    (case findItem (wp_items prev) (up_id u) of
       None \<Rightarrow>
         if length (wp_items prev) \<ge> MAX_WORK_ITEMS
         then prev\<lparr>wp_dropped_count := wp_dropped_count prev + 1\<rparr>
         else prev\<lparr>wp_items := wp_items prev @ [new_item u ev]\<rparr>
     | Some existing \<Rightarrow>
         prev\<lparr>wp_items := replaceItem (wp_items prev) (updated_item existing u ev)\<rparr>)"

definition applyWorkItemUpdated :: "WorkItemsProjection \<Rightarrow> NormalizedEvent \<Rightarrow> WorkItemsProjection" where
  "applyWorkItemUpdated prev ev =
    (case payloadString (ev_payload ev) ''provider_task_id'' of
       None \<Rightarrow> prev
     | Some providerTaskId \<Rightarrow>
         (let obs = gateObservation (payloadValue (ev_payload ev) ''observation'')
          in upsertItem prev
            \<lparr>up_id = deriveWorkItemId Scheme_task providerTaskId, up_id_scheme = Scheme_task,
             up_status = coerceWorkItemStatus (payloadValue (ev_payload ev) ''status''),
             up_subject = boundTurnSummary (payloadString (ev_payload ev) ''subject''),
             up_ordinal = None, up_method = fst obs, up_fidelity = snd obs\<rparr> ev))"

definition plan_step ::
  "NormalizedEvent \<Rightarrow> WorkItemsProjection \<times> jstring list \<Rightarrow> nat \<times> jsval \<Rightarrow> WorkItemsProjection \<times> jstring list" where
  "plan_step ev acc iraw =
    (let raw = snd iraw in
     case payloadString raw ''step'' of
       None \<Rightarrow> acc
     | Some step \<Rightarrow>
         (let i = deriveWorkItemId Scheme_plan step
          in (upsertItem (fst acc)
                \<lparr>up_id = i, up_id_scheme = Scheme_plan,
                 up_status = coerceWorkItemStatus (payloadValue raw ''status''),
                 up_subject = boundTurnSummary (Some step),
                 up_ordinal = Some (fst iraw), up_method = None, up_fidelity = None\<rparr> ev,
              List.insert i (snd acc))))"

definition removed_by :: "jstring list \<Rightarrow> WorkItem \<Rightarrow> bool" where
  "removed_by seen it \<longleftrightarrow>
     wi_id_scheme it = Scheme_plan \<and> wi_status it \<noteq> WS_removed \<and> wi_work_item_id it \<notin> set seen"

definition applyPlanSnapshot :: "WorkItemsProjection \<Rightarrow> NormalizedEvent \<Rightarrow> WorkItemsProjection" where
  "applyPlanSnapshot prev ev =
    (case payloadValue (ev_payload ev) ''items'' of
       JArr items \<Rightarrow>
         (let (proj, seen) = foldl (plan_step ev) (prev, []) (zip [0..<length items] items);
              reconciled = map (\<lambda>it. if removed_by seen it
                then it\<lparr>wi_status := WS_removed, wi_updated_at := ev_timestamp ev\<rparr> else it) (wp_items proj)
          in if list_ex (removed_by seen) (wp_items proj)
             then proj\<lparr>wp_items := reconciled\<rparr> else proj)
     | _ \<Rightarrow> prev)"

definition applyCommandStarted :: "WorkItemsProjection \<Rightarrow> NormalizedEvent \<Rightarrow> WorkItemsProjection" where
  "applyCommandStarted prev ev =
    (if gateCheckKind (payloadValue (ev_payload ev) ''check_kind'') = None then prev
     else (case payloadString (ev_payload ev) ''request_id'' of
             None \<Rightarrow> prev
           | Some reqId \<Rightarrow>
               prev\<lparr>wp_pending_checks :=
                 filter (\<lambda>p. pc_request_id p \<noteq> reqId) (wp_pending_checks prev)
                 @ [\<lparr>pc_request_id = reqId, pc_dirtied = False\<rparr>]\<rparr>))"

definition stale_item :: "jstring \<Rightarrow> NormalizedEvent \<Rightarrow> WorkItem \<Rightarrow> WorkItem" where
  "stale_item fp ev it =
    (if wi_status it = WS_completed \<and> wi_verification_state it = V_passed
        \<and> wi_verified_tree_fp it \<noteq> Some fp
     then it\<lparr>wi_verification_state := V_stale, wi_stale_at := Some (ev_timestamp ev),
             wi_stale_event_id := Some (ev_event_id ev), wi_updated_at := ev_timestamp ev\<rparr>
     else it)"

definition applyDiffUpdated :: "WorkItemsProjection \<Rightarrow> NormalizedEvent \<Rightarrow> WorkItemsProjection" where
  "applyDiffUpdated prev ev =
    (case treeFingerprint (payloadString (ev_payload ev) ''head_sha'')
                          (payloadString (ev_payload ev) ''diff_hash'') of
       None \<Rightarrow> prev
     | Some fp \<Rightarrow>
         if Some fp = wp_tree_fp prev then prev
         else prev\<lparr>wp_tree_fp := Some fp,
                   wp_pending_checks := map (\<lambda>p. if pc_dirtied p then p else p\<lparr>pc_dirtied := True\<rparr>)
                     (wp_pending_checks prev),
                   wp_items := map (stale_item fp ev) (wp_items prev)\<rparr>)"

definition bind_check ::
  "NormalizedEvent \<Rightarrow> VerificationState \<Rightarrow> CheckKind \<Rightarrow> CheckMatch option \<Rightarrow> int \<Rightarrow> jstring option \<Rightarrow> bool
     \<Rightarrow> WorkItem \<Rightarrow> WorkItem" where
  "bind_check ev newState checkKind checkMatch ex fp runDirty it =
    (if wi_status it \<noteq> WS_completed \<or> wi_claimed_at it = None then it
     else if jsnum_less (toEpochMs (ev_timestamp ev)) (toEpochMs (the (wi_claimed_at it))) then it
     else it\<lparr>wi_verification_state := newState, wi_verified_at := Some (ev_timestamp ev),
             wi_verification_event_id := Some (ev_event_id ev),
             wi_check_kind := Some checkKind, wi_check_match := checkMatch,
             wi_check_exit_code := Some ex, wi_verified_tree_fp := fp, wi_run_dirty := runDirty,
             wi_stale_at := None, wi_stale_event_id := None, wi_updated_at := ev_timestamp ev\<rparr>)"

text \<open>An exit code is known when the payload holds an integral number.\<close>

fun exit_integer :: "jsval \<Rightarrow> int option" where
  "exit_integer (JNum n) = (if is_integer_num n then Some \<lfloor>fin_val n\<rfloor> else None)"
| "exit_integer _ = None"

definition applyCommandCompleted :: "WorkItemsProjection \<Rightarrow> NormalizedEvent \<Rightarrow> WorkItemsProjection" where
  "applyCommandCompleted prev ev =
    (case gateCheckKind (payloadValue (ev_payload ev) ''check_kind'') of
       None \<Rightarrow> prev
     | Some checkKind \<Rightarrow>
         (let reqId = payloadString (ev_payload ev) ''request_id'';
              pc = (case reqId of
                      Some r \<Rightarrow> find (\<lambda>p. pc_request_id p = r) (wp_pending_checks prev)
                    | None \<Rightarrow> None);
              runDirty = (case pc of Some p \<Rightarrow> pc_dirtied p | None \<Rightarrow> False);
              pending = (case reqId of
                           Some r \<Rightarrow> filter (\<lambda>p. pc_request_id p \<noteq> r) (wp_pending_checks prev)
                         | None \<Rightarrow> wp_pending_checks prev)
          in case exit_integer (payloadValue (ev_payload ev) ''exit_code'') of
               None \<Rightarrow> prev\<lparr>wp_pending_checks := pending\<rparr>
             | Some ex \<Rightarrow>
                 (let checkMatch = gateCheckMatch (payloadValue (ev_payload ev) ''check_match'');
                      newState = (if ex = 0 then V_passed else V_failed);
                      fp = wp_tree_fp prev
                  in if newState = V_passed \<and> fp = None then prev\<lparr>wp_pending_checks := pending\<rparr>
                     else prev\<lparr>wp_pending_checks := pending,
                               wp_items := map (bind_check ev newState checkKind checkMatch ex fp runDirty)
                                 (wp_items prev)\<rparr>)))"

definition applyWorkItemsEvent :: "WorkItemsProjection \<Rightarrow> NormalizedEvent \<Rightarrow> WorkItemsProjection" where
  "applyWorkItemsEvent prev ev =
    (if wp_frozen prev then prev
     else if ev_event_type ev = ET_session_ended \<or> isTerminalStateValue (ev_state_value ev)
     then prev\<lparr>wp_frozen := True\<rparr>
     else (case ev_event_type ev of
             ET_work_item_updated \<Rightarrow> applyWorkItemUpdated prev ev
           | ET_turn_plan_updated \<Rightarrow> applyPlanSnapshot prev ev
           | ET_command_started \<Rightarrow> applyCommandStarted prev ev
           | ET_command_completed \<Rightarrow> applyCommandCompleted prev ev
           | ET_diff_updated \<Rightarrow> applyDiffUpdated prev ev
           | _ \<Rightarrow> prev))"

definition reduceWorkItems :: "jstring \<Rightarrow> NormalizedEvent list \<Rightarrow> WorkItemsProjection" where
  "reduceWorkItems sessionId events =
    foldl applyWorkItemsEvent (initialWorkItemsProjection sessionId) events"

text \<open>The gate of the ingest store: the events it folds into the work items.\<close>

definition isWorkItemFoldEvent :: "NormalizedEvent \<Rightarrow> bool" where
  "isWorkItemFoldEvent ev \<longleftrightarrow>
     js (event_type_str (ev_event_type ev)) \<in> set (map js WORK_ITEM_REACTIVE_EVENT_TYPES)
   \<or> isTerminalStateValue (ev_state_value ev)"

end
