(* ===== verification/Work_Items_Correct.thy ===== *)
theory Work_Items_Correct
  imports Work_Items
begin

text \<open>
  Correctness of the work-item fold: the badge \<open>Verified\<close> is always relative to the current tree
  fingerprint, the table is bounded and keyed, the frozen end-of-run state never changes, the
  ingest store's gate loses nothing, repeated claims collapse, and a plan snapshot retires exactly
  the plan items it no longer lists.
\<close>

section \<open>Invariant\<close>

text \<open>
  One item against the projection's fingerprint. A completed item has a claim; a completed item
  whose check passed was verified on the present tree; a passed or failed verdict agrees with the
  recorded exit code.
\<close>

definition item_ok :: "jstring option \<Rightarrow> WorkItem \<Rightarrow> bool" where
  "item_ok fp it \<longleftrightarrow>
     (wi_status it = WS_completed \<longrightarrow> wi_claimed_at it \<noteq> None)
   \<and> (wi_status it = WS_completed \<and> wi_verification_state it = V_passed \<longrightarrow>
        wi_verified_tree_fp it = fp \<and> fp \<noteq> None)
   \<and> (wi_verification_state it = V_passed \<longrightarrow> wi_check_exit_code it = Some 0 \<and> wi_check_kind it \<noteq> None)
   \<and> (wi_verification_state it = V_failed \<longrightarrow>
        (\<exists>n. n \<noteq> 0 \<and> wi_check_exit_code it = Some n) \<and> wi_check_kind it \<noteq> None)"

definition table_ok :: "jstring option \<Rightarrow> WorkItem list \<Rightarrow> bool" where
  "table_ok fp items \<longleftrightarrow> length items \<le> MAX_WORK_ITEMS \<and> distinct (map wi_work_item_id items)
     \<and> list_all (item_ok fp) items"

definition items_wf :: "WorkItemsProjection \<Rightarrow> bool" where
  "items_wf p \<longleftrightarrow> table_ok (wp_tree_fp p) (wp_items p)"

lemma new_item_id [simp]: "wi_work_item_id (new_item u ev) = up_id u"
  by (simp add: new_item_def Let_def)

lemma new_item_ok: "item_ok fp (new_item u ev)"
  by (simp add: item_ok_def new_item_def Let_def)

lemma updated_item_id [simp]: "wi_work_item_id (updated_item it u ev) = wi_work_item_id it"
  by (simp add: updated_item_def Let_def CLEARED_CLAIM_def split: option.splits)

lemma updated_item_ok: "item_ok fp it \<Longrightarrow> item_ok fp (updated_item it u ev)"
  by (auto simp: item_ok_def updated_item_def Let_def CLEARED_CLAIM_def split: option.splits)

lemma findItem_Some: "findItem items i = Some it \<Longrightarrow> it \<in> set items \<and> wi_work_item_id it = i"
  unfolding findItem_def by (drule find_SomeD) simp

lemma findItem_None: "findItem items i = None \<longleftrightarrow> i \<notin> wi_work_item_id ` set items"
  by (auto simp: findItem_def find_None_iff)

lemma replaceItem_ids: "map wi_work_item_id (replaceItem items nxt) = map wi_work_item_id items"
  by (simp add: replaceItem_def)

lemma replaceItem_all: "list_all P items \<Longrightarrow> P nxt \<Longrightarrow> list_all P (replaceItem items nxt)"
  by (auto simp: replaceItem_def list_all_iff)

lemma replaceItem_length [simp]: "length (replaceItem items nxt) = length items"
  by (simp add: replaceItem_def)

lemma upsert_tree_fp [simp]: "wp_tree_fp (upsertItem p u ev) = wp_tree_fp p"
  by (simp add: upsertItem_def split: option.splits)

lemma table_ok_append:
  "table_ok fp items \<Longrightarrow> length items < MAX_WORK_ITEMS \<Longrightarrow> item_ok fp it \<Longrightarrow>
    wi_work_item_id it \<notin> wi_work_item_id ` set items \<Longrightarrow> table_ok fp (items @ [it])"
  by (auto simp: table_ok_def)

lemma table_ok_replace: "table_ok fp items \<Longrightarrow> item_ok fp it \<Longrightarrow> table_ok fp (replaceItem items it)"
  by (simp add: table_ok_def replaceItem_ids replaceItem_all)

lemma table_ok_map:
  assumes "table_ok fp items"
    and "\<And>it. wi_work_item_id (f it) = wi_work_item_id it"
    and "\<And>it. item_ok fp it \<Longrightarrow> item_ok fp' (f it)"
  shows "table_ok fp' (map f items)"
proof -
  have ids: "map wi_work_item_id (map f items) = map wi_work_item_id items"
    using assms(2) by simp
  show ?thesis
    using assms(1) unfolding table_ok_def ids by (simp add: assms(3) list_all_iff)
qed

lemma upsert_wf:
  assumes "items_wf p"
  shows "items_wf (upsertItem p u ev)"
proof (cases "findItem (wp_items p) (up_id u)")
  case None
  moreover from None have "up_id u \<notin> wi_work_item_id ` set (wp_items p)"
    by (simp only: findItem_None not_False_eq_True)
  ultimately show ?thesis
    using assms by (auto simp: upsertItem_def items_wf_def new_item_ok intro!: table_ok_append)
next
  case (Some it)
  then have "item_ok (wp_tree_fp p) it"
    using assms by (auto simp: items_wf_def table_ok_def list_all_iff dest: findItem_Some)
  then show ?thesis
    using assms Some by (simp add: upsertItem_def items_wf_def table_ok_replace updated_item_ok)
qed

lemma plan_loop_wf:
  "items_wf (fst acc) \<Longrightarrow> items_wf (fst (foldl (plan_step ev) acc xs))"
proof (induction xs arbitrary: acc)
  case (Cons x xs)
  have "items_wf (fst (plan_step ev acc x))"
    using Cons.prems by (simp add: plan_step_def Let_def upsert_wf split: option.splits)
  then show ?case using Cons.IH by simp
qed simp

text \<open>The reconciliation after the loop of a snapshot.\<close>

definition retire :: "NormalizedEvent \<Rightarrow> jstring list \<Rightarrow> WorkItem \<Rightarrow> WorkItem" where
  "retire ev seen it = (if removed_by seen it
     then it\<lparr>wi_status := WS_removed, wi_updated_at := ev_timestamp ev\<rparr> else it)"

lemma snapshot_eq:
  assumes "payloadValue (ev_payload ev) ''items'' = JArr items"
    and "foldl (plan_step ev) (p, []) (zip [0..<length items] items) = (proj, seen)"
  shows "applyPlanSnapshot p ev = proj\<lparr>wp_items := map (retire ev seen) (wp_items proj)\<rparr>"
proof -
  have "\<not> list_ex (removed_by seen) (wp_items proj) \<Longrightarrow> map (retire ev seen) (wp_items proj) = wp_items proj"
    by (rule map_idI) (auto simp: list_ex_iff retire_def)
  then show ?thesis
    using assms by (simp add: applyPlanSnapshot_def Let_def retire_def [abs_def])
qed

lemma snapshot_wf:
  assumes "items_wf p"
  shows "items_wf (applyPlanSnapshot p ev)"
proof (cases "payloadValue (ev_payload ev) ''items''")
  case (JArr items)
  obtain proj seen where r: "foldl (plan_step ev) (p, []) (zip [0..<length items] items) = (proj, seen)"
    by fastforce
  have "items_wf proj"
    using plan_loop_wf [of "(p, [])" ev] assms r by (metis fst_conv)
  then have "table_ok (wp_tree_fp proj) (map (retire ev seen) (wp_items proj))"
    unfolding items_wf_def by (rule table_ok_map) (auto simp: item_ok_def retire_def)
  then show ?thesis
    by (simp add: snapshot_eq [OF JArr r] items_wf_def)
qed (use assms in \<open>simp_all add: applyPlanSnapshot_def\<close>)

lemma diff_wf:
  assumes "items_wf p"
  shows "items_wf (applyDiffUpdated p ev)"
proof -
  have "table_ok (Some fp) (map (stale_item fp ev) (wp_items p))" for fp
    using assms unfolding items_wf_def
    by (rule table_ok_map) (auto simp: item_ok_def stale_item_def)
  then show ?thesis
    using assms by (auto simp: applyDiffUpdated_def items_wf_def split: option.splits)
qed

lemma completed_wf:
  assumes "items_wf p"
  shows "items_wf (applyCommandCompleted p ev)"
proof -
  have bind: "table_ok (wp_tree_fp p) (map (bind_check ev (if ex = 0 then V_passed else V_failed) ck cm ex
      (wp_tree_fp p) rd) (wp_items p))"
    if "ex = 0 \<Longrightarrow> wp_tree_fp p \<noteq> None" for ck cm ex rd
    using assms that unfolding items_wf_def
    by (intro table_ok_map [where fp = "wp_tree_fp p"]) (auto simp: item_ok_def bind_check_def split: if_splits)
  show ?thesis
    using assms bind unfolding applyCommandCompleted_def Let_def items_wf_def
    by (auto split: option.splits)
qed

lemma apply_items_wf:
  assumes "items_wf p"
  shows "items_wf (applyWorkItemsEvent p ev)"
proof -
  have "items_wf (applyWorkItemUpdated p ev)" "items_wf (applyCommandStarted p ev)"
    using assms upsert_wf
    by (auto simp: applyWorkItemUpdated_def applyCommandStarted_def Let_def items_wf_def split: option.splits)
  then show ?thesis
    using assms snapshot_wf diff_wf completed_wf
    by (cases "ev_event_type ev") (auto simp: applyWorkItemsEvent_def items_wf_def)
qed

interpretation work_fold: stream_fold applyWorkItemsEvent items_wf
  by unfold_locales (rule apply_items_wf)

lemma reduce_items_wf: "items_wf (reduceWorkItems sid es)"
  unfolding reduceWorkItems_def
  by (rule work_fold.run_inv) (simp add: items_wf_def table_ok_def initialWorkItemsProjection_def)

interpretation work_frozen: absorbing_fold applyWorkItemsEvent wp_frozen "\<lambda>p. p"
  by unfold_locales (simp_all add: applyWorkItemsEvent_def)

section \<open>Identifier schemes\<close>

definition scheme_ok :: "WorkItem \<Rightarrow> bool" where
  "scheme_ok it \<longleftrightarrow> js_starts_with (wi_work_item_id it) (js (scheme_str (wi_id_scheme it)))"

lemma derived_scheme: "js_starts_with (deriveWorkItemId s t) (js (scheme_str s'))  \<longleftrightarrow> s = s'"
proof -
  have "hd (deriveWorkItemId s t) = hd (js (scheme_str s))" "deriveWorkItemId s t \<noteq> []"
    by (cases s; simp add: deriveWorkItemId_def Let_def js_def)+
  then show ?thesis
    by (cases s; cases s') (auto simp: deriveWorkItemId_def Let_def js_starts_with_def js_def)
qed

lemma new_item_scheme: "wi_id_scheme (new_item u ev) = up_id_scheme u"
  by (simp add: new_item_def Let_def)

lemma updated_item_scheme [simp]: "wi_id_scheme (updated_item it u ev) = wi_id_scheme it"
  by (simp add: updated_item_def Let_def CLEARED_CLAIM_def split: option.splits)

definition schemes_ok :: "WorkItemsProjection \<Rightarrow> bool" where
  "schemes_ok p \<longleftrightarrow> list_all scheme_ok (wp_items p)"

definition upsert_ok :: "Upsert \<Rightarrow> bool" where
  "upsert_ok u \<longleftrightarrow> (\<exists>t. up_id u = deriveWorkItemId (up_id_scheme u) t)"

lemma upsert_schemes:
  assumes "schemes_ok p" "upsert_ok u"
  shows "schemes_ok (upsertItem p u ev)"
proof (cases "findItem (wp_items p) (up_id u)")
  case None
  have "scheme_ok (new_item u ev)"
    using assms(2) by (auto simp: scheme_ok_def upsert_ok_def new_item_scheme derived_scheme)
  then show ?thesis
    using assms(1) None by (simp add: schemes_ok_def upsertItem_def)
next
  case (Some it)
  then have "scheme_ok (updated_item it u ev)"
    using assms(1) by (auto simp: schemes_ok_def list_all_iff scheme_ok_def dest: findItem_Some)
  then show ?thesis
    using assms(1) Some by (simp add: schemes_ok_def upsertItem_def replaceItem_all)
qed

lemma upsert_keeps_tasks:
  assumes "schemes_ok p" "upsert_ok u" "up_id_scheme u = Scheme_plan"
  shows "filter (\<lambda>it. wi_id_scheme it = Scheme_task) (wp_items (upsertItem p u ev))
       = filter (\<lambda>it. wi_id_scheme it = Scheme_task) (wp_items p)"
proof (cases "findItem (wp_items p) (up_id u)")
  case None
  then show ?thesis
    using assms(3) by (simp add: upsertItem_def new_item_scheme)
next
  case (Some x)
  have plan: "it \<in> set (wp_items p) \<Longrightarrow> wi_work_item_id it = up_id u \<Longrightarrow> wi_id_scheme it = Scheme_plan" for it
    using assms derived_scheme [of Scheme_plan _ "wi_id_scheme it"]
    by (auto simp: schemes_ok_def upsert_ok_def list_all_iff scheme_ok_def)
  have "wi_work_item_id x = up_id u" "wi_id_scheme x = Scheme_plan"
    using Some plan findItem_Some by blast+
  moreover have "filter (\<lambda>it. wi_id_scheme it = Scheme_task) (replaceItem items n)
      = filter (\<lambda>it. wi_id_scheme it = Scheme_task) items"
    if "wi_id_scheme n = Scheme_plan" "\<And>it. it \<in> set items \<Longrightarrow> wi_work_item_id it = wi_work_item_id n \<Longrightarrow> wi_id_scheme it = Scheme_plan"
    for items n
    using that by (induction items) (auto simp: replaceItem_def)
  ultimately show ?thesis
    using Some plan by (simp add: upsertItem_def)
qed

lemma plan_step_upsert:
  "plan_step ev acc iraw = acc \<or>
   (\<exists>u s. plan_step ev acc iraw = (upsertItem (fst acc) u ev, s) \<and> upsert_ok u \<and> up_id_scheme u = Scheme_plan)"
proof (cases "payloadString (snd iraw) ''step''")
  case None
  then show ?thesis by (simp add: plan_step_def Let_def)
next
  case (Some step)
  then show ?thesis
    by (intro disjI2) (simp only: plan_step_def Let_def option.case, intro exI conjI, rule refl,
        auto simp: upsert_ok_def)
qed

lemma plan_loop_tasks:
  assumes "schemes_ok (fst acc)"
  shows "schemes_ok (fst (foldl (plan_step ev) acc xs))
    \<and> filter (\<lambda>it. wi_id_scheme it = Scheme_task) (wp_items (fst (foldl (plan_step ev) acc xs)))
       = filter (\<lambda>it. wi_id_scheme it = Scheme_task) (wp_items (fst acc))"
  using assms
proof (induction xs arbitrary: acc)
  case (Cons x xs)
  have "schemes_ok (fst (plan_step ev acc x))
    \<and> filter (\<lambda>it. wi_id_scheme it = Scheme_task) (wp_items (fst (plan_step ev acc x)))
       = filter (\<lambda>it. wi_id_scheme it = Scheme_task) (wp_items (fst acc))"
    using plan_step_upsert [of ev acc x] Cons.prems upsert_schemes upsert_keeps_tasks by fastforce
  then show ?case using Cons.IH by simp
qed simp

text \<open>The identifiers of the steps a snapshot lists.\<close>

definition snapshot_ids :: "jsval list \<Rightarrow> jstring set" where
  "snapshot_ids items =
    {deriveWorkItemId Scheme_plan step |step raw. raw \<in> set items \<and> payloadString raw ''step'' = Some step}"

lemma plan_loop_seen:
  "set (snd (foldl (plan_step ev) acc xs)) = set (snd acc) \<union> snapshot_ids (map snd xs)"
proof (induction xs arbitrary: acc)
  case (Cons x xs)
  have "set (snd (plan_step ev acc x)) = set (snd acc) \<union> snapshot_ids [snd x]"
    by (auto simp: plan_step_def Let_def snapshot_ids_def split: option.splits)
  moreover have "snapshot_ids (map snd (x # xs)) = snapshot_ids [snd x] \<union> snapshot_ids (map snd xs)"
    by (auto simp: snapshot_ids_def)
  ultimately show ?case using Cons.IH by auto
qed (simp add: snapshot_ids_def)

lemma map_retire_tasks:
  "filter (\<lambda>it. wi_id_scheme it = Scheme_task) (map (retire ev seen) items)
   = filter (\<lambda>it. wi_id_scheme it = Scheme_task) items"
  by (induction items) (auto simp: retire_def removed_by_def)

lemma apply_schemes:
  assumes "schemes_ok p"
  shows "schemes_ok (applyWorkItemsEvent p ev)"
proof -
  have map_ok: "list_all scheme_ok (map f (wp_items q))"
    if "schemes_ok q" "\<And>it. wi_work_item_id (f it) = wi_work_item_id it \<and> wi_id_scheme (f it) = wi_id_scheme it" for f q
    using that by (auto simp: schemes_ok_def list_all_iff scheme_ok_def)
  have "schemes_ok (applyWorkItemUpdated p ev)"
    using assms by (auto simp: applyWorkItemUpdated_def Let_def upsert_ok_def intro!: upsert_schemes split: option.splits)
  moreover have "schemes_ok (applyPlanSnapshot p ev)"
  proof (cases "payloadValue (ev_payload ev) ''items''")
    case (JArr items)
    obtain proj seen where r: "foldl (plan_step ev) (p, []) (zip [0..<length items] items) = (proj, seen)"
      by fastforce
    have "schemes_ok proj" using plan_loop_tasks [of "(p, [])" ev] assms r by (metis fst_conv)
    then show ?thesis
      using map_ok [of proj "retire ev seen"] by (simp add: snapshot_eq [OF JArr r] schemes_ok_def retire_def)
  qed (use assms in \<open>simp_all add: applyPlanSnapshot_def\<close>)
  moreover have "schemes_ok (applyDiffUpdated p ev)"
    using assms map_ok [OF assms] by (auto simp: applyDiffUpdated_def schemes_ok_def [of "_\<lparr>wp_tree_fp := _, wp_pending_checks := _, wp_items := _\<rparr>"] stale_item_def split: option.splits)
  moreover have "schemes_ok (applyCommandCompleted p ev)"
    using assms map_ok [OF assms] unfolding applyCommandCompleted_def Let_def
    by (auto simp: schemes_ok_def bind_check_def split: option.splits)
  moreover have "schemes_ok (applyCommandStarted p ev)"
    using assms by (auto simp: applyCommandStarted_def schemes_ok_def split: option.splits)
  ultimately show ?thesis
    using assms by (cases "ev_event_type ev") (auto simp: applyWorkItemsEvent_def schemes_ok_def)
qed

interpretation work_schemes: stream_fold applyWorkItemsEvent schemes_ok
  by unfold_locales (rule apply_schemes)

lemma reduce_schemes: "schemes_ok (reduceWorkItems sid es)"
  unfolding reduceWorkItems_def
  by (rule work_schemes.run_inv) (simp add: schemes_ok_def initialWorkItemsProjection_def)

section \<open>The gate\<close>

lemma fold_event_noop: "\<not> isWorkItemFoldEvent ev \<Longrightarrow> applyWorkItemsEvent p ev = p"
  by (cases "ev_event_type ev")
    (auto simp: isWorkItemFoldEvent_def applyWorkItemsEvent_def WORK_ITEM_REACTIVE_EVENT_TYPES_def)

section \<open>Properties\<close>

text \<open>
  C37. The work-item table of every event stream is well formed: at most 200 items with distinct
  identifiers, every completed item has a claim, a passed verdict has a zero exit code and a
  failed one a non-zero one, and each identifier carries its scheme.
\<close>

theorem work_items_invariant:
  "items_wf (reduceWorkItems sid es) \<and> schemes_ok (reduceWorkItems sid es)"
  by (simp add: reduce_items_wf reduce_schemes)


definition checked_stream :: "NormalizedEvent list" where
  "checked_stream =
    [mk_event ''e1'' ET_diff_updated None ''2026-05-30T12:00:00Z''
       (JObj [(js ''diff_hash'', JStr (js ''d1''))]),
     mk_event ''e2'' ET_work_item_updated None ''2026-05-30T12:00:01Z''
       (JObj [(js ''provider_task_id'', JStr (js ''1'')), (js ''status'', JStr (js ''completed''))]),
     mk_event ''e3'' ET_command_completed None ''2026-05-30T12:00:02Z''
       (JObj [(js ''check_kind'', JStr (js ''test'')), (js ''exit_code'', jint 0)])]"




text \<open>
  The end-of-run truth is kept: after an event that ends the session, in type or in state, no
  later event changes anything in the work-item projection.
\<close>

theorem work_items_frozen:
  assumes "ev_event_type e = ET_session_ended \<or> isTerminalStateValue (ev_state_value e)"
  shows "reduceWorkItems sid (es @ e # later) = reduceWorkItems sid (es @ [e])"
proof -
  have "wp_frozen (reduceWorkItems sid (es @ [e]))"
    using assms by (auto simp: reduceWorkItems_def applyWorkItemsEvent_def)
  then show ?thesis
    using work_frozen.run_obs [of "reduceWorkItems sid (es @ [e])" later] by (simp add: reduceWorkItems_def)
qed

theorem work_items_frozen_witness:
  "reduceWorkItems [] ([] @ mk_event ''e1'' ET_turn_failed (Some Failed) ''t'' (JObj []) # checked_stream)
   = reduceWorkItems [] ([] @ [mk_event ''e1'' ET_turn_failed (Some Failed) ''t'' (JObj [])])"
  by (rule work_items_frozen) (simp add: mk_event_def)

text \<open>
  The ingest store's gate loses nothing: folding only the events the gate lets through, the
  reactive types and the events with a terminal state, gives the same work items as folding the
  whole stream.
\<close>

theorem work_items_gate_complete:
  "reduceWorkItems sid (filter isWorkItemFoldEvent es) = reduceWorkItems sid es"
proof -
  have "foldl applyWorkItemsEvent p (filter isWorkItemFoldEvent es) = foldl applyWorkItemsEvent p es" for p
    by (induction es arbitrary: p) (auto simp: fold_event_noop)
  then show ?thesis by (simp add: reduceWorkItems_def)
qed

text \<open>
  Repeated completion reports collapse into one claim: reporting a completed item as completed
  again keeps the time and the event of the claim and the verdict, and raises the fidelity of the
  claim to the higher of the two.
\<close>

theorem claim_collapses:
  assumes "findItem (wp_items p) (up_id u) = Some it"
    and "wi_status it = WS_completed" and "up_status u = WS_completed"
  shows "\<exists>it'. findItem (wp_items (upsertItem p u ev)) (up_id u) = Some it'
    \<and> wi_claimed_at it' = wi_claimed_at it \<and> wi_claim_event_id it' = wi_claim_event_id it
    \<and> wi_verification_state it' = wi_verification_state it
    \<and> fidelityRank (wi_claim_fidelity it') = max (fidelityRank (wi_claim_fidelity it)) (fidelityRank (up_fidelity u))"
proof -
  let ?n = "updated_item it u ev"
  have "findItem items (up_id u) = Some it \<Longrightarrow> wi_work_item_id n = up_id u \<Longrightarrow>
      findItem (replaceItem items n) (up_id u) = Some n" for items n
    by (induction items) (auto simp: findItem_def replaceItem_def split: if_splits)
  then have "findItem (wp_items (upsertItem p u ev)) (up_id u) = Some ?n"
    using assms(1) findItem_Some [OF assms(1)] by (simp add: upsertItem_def)
  moreover have "wi_claimed_at ?n = wi_claimed_at it \<and> wi_claim_event_id ?n = wi_claim_event_id it
    \<and> wi_verification_state ?n = wi_verification_state it
    \<and> fidelityRank (wi_claim_fidelity ?n) = max (fidelityRank (wi_claim_fidelity it)) (fidelityRank (up_fidelity u))"
    using assms(2,3) by (auto simp: updated_item_def Let_def split: option.splits)
  ultimately show ?thesis by blast
qed

definition sample_upsert :: "ObservationFidelity option \<Rightarrow> Upsert" where
  "sample_upsert f = \<lparr>up_id = js ''task:0'', up_id_scheme = Scheme_task, up_status = WS_completed,
     up_subject = None, up_ordinal = None, up_method = None, up_fidelity = f\<rparr>"

theorem claim_collapses_witness:
  "\<exists>it'. findItem (wp_items (upsertItem (upsertItem (initialWorkItemsProjection [])
        (sample_upsert None) (mk_event ''e1'' ET_work_item_updated None ''t1'' (JObj [])))
        (sample_upsert (Some OF_observed)) (mk_event ''e2'' ET_work_item_updated None ''t2'' (JObj [])))) (js ''task:0'') = Some it'
     \<and> wi_claimed_at it' = Some (js ''t1'') \<and> fidelityRank (wi_claim_fidelity it') = 3"
proof -
  let ?e = "mk_event ''e1'' ET_work_item_updated None ''t1'' (JObj [])"
  let ?p = "upsertItem (initialWorkItemsProjection []) (sample_upsert None) ?e"
  have "findItem (wp_items ?p) (up_id (sample_upsert (Some OF_observed))) = Some (new_item (sample_upsert None) ?e)"
    by (simp add: sample_upsert_def upsertItem_def initialWorkItemsProjection_def findItem_def
        MAX_WORK_ITEMS_def new_item_def Let_def)
  from claim_collapses [OF this, of "mk_event ''e2'' ET_work_item_updated None ''t2'' (JObj [])"]
  show ?thesis
    by (simp add: sample_upsert_def new_item_def Let_def mk_event_def fidelityRank_def) blast
qed

text \<open>
  A plan snapshot retires exactly what it no longer lists: right after it, every plan item
  that is not removed is one of the listed steps, and the items tracked by provider task ids are
  untouched, in content and in order.
\<close>

theorem plan_snapshot_reconciles:
  assumes "\<not> wp_frozen (reduceWorkItems sid es)" and "ev_event_type ev = ET_turn_plan_updated"
    and "ev_state ev = None" and "payloadValue (ev_payload ev) ''items'' = JArr items"
  shows "list_all (\<lambda>it. wi_id_scheme it = Scheme_task \<or> wi_status it = WS_removed
        \<or> wi_work_item_id it \<in> snapshot_ids items) (wp_items (reduceWorkItems sid (es @ [ev])))
    \<and> filter (\<lambda>it. wi_id_scheme it = Scheme_task) (wp_items (reduceWorkItems sid (es @ [ev])))
       = filter (\<lambda>it. wi_id_scheme it = Scheme_task) (wp_items (reduceWorkItems sid es))"
proof -
  let ?p = "reduceWorkItems sid es"
  obtain proj seen where r: "foldl (plan_step ev) (?p, []) (zip [0..<length items] items) = (proj, seen)"
    by fastforce
  have q: "reduceWorkItems sid (es @ [ev]) = proj\<lparr>wp_items := map (retire ev seen) (wp_items proj)\<rparr>"
    using assms(1-3) snapshot_eq [OF assms(4) r]
    by (simp add: reduceWorkItems_def applyWorkItemsEvent_def ev_state_value_def)
  have seen: "set seen = snapshot_ids items"
    using plan_loop_seen [of ev "(?p, [])" "zip [0..<length items] items"] r by simp
  have "wi_id_scheme (retire ev seen it) = Scheme_task \<or> wi_status (retire ev seen it) = WS_removed
      \<or> wi_work_item_id (retire ev seen it) \<in> snapshot_ids items" for it
    using seen by (cases "wi_id_scheme it") (auto simp: retire_def removed_by_def)
  then have "list_all (\<lambda>it. wi_id_scheme it = Scheme_task \<or> wi_status it = WS_removed
        \<or> wi_work_item_id it \<in> snapshot_ids items) (wp_items (reduceWorkItems sid (es @ [ev])))"
    by (simp add: q list_all_iff)
  moreover have "filter (\<lambda>it. wi_id_scheme it = Scheme_task) (wp_items proj)
      = filter (\<lambda>it. wi_id_scheme it = Scheme_task) (wp_items ?p)"
    using plan_loop_tasks [of "(?p, [])" ev "zip [0..<length items] items"] reduce_schemes r by simp
  ultimately show ?thesis by (simp add: q map_retire_tasks)
qed

theorem plan_snapshot_reconciles_witness:
  "list_all (\<lambda>it. wi_id_scheme it = Scheme_task \<or> wi_status it = WS_removed \<or> wi_work_item_id it \<in> snapshot_ids [])
     (wp_items (reduceWorkItems [] ([] @ [mk_event ''e1'' ET_turn_plan_updated None ''t'' (JObj [(js ''items'', JArr [])])])))"
proof -
  have "\<not> wp_frozen (reduceWorkItems [] [])"
    by (simp add: reduceWorkItems_def initialWorkItemsProjection_def)
  from plan_snapshot_reconciles [OF this, of "mk_event ''e1'' ET_turn_plan_updated None ''t'' (JObj [(js ''items'', JArr [])])" "[]"]
  show ?thesis by (simp add: mk_event_def payloadValue_def)
qed

end
