(* ===== verification/Approval_Config.thy ===== *)
theory Approval_Config
  imports Events Sha256
begin

text \<open>
  The parameters of the approval gate: the three timeouts and their order
  (\<^verbatim>\<open>packages/event-model/src/approval-timeout.ts\<close>), the request identifiers
  (\<^verbatim>\<open>approval-request-id.ts\<close>), the bypass predicate
  (\<^verbatim>\<open>apps/sidecar/src/permission-mode.ts\<close>), project-scope containment and labels
  (\<^verbatim>\<open>path-scope.ts\<close>), and the policy categories with their presets (\<^verbatim>\<open>payload.ts\<close>).
\<close>

section \<open>Timeouts\<close>

definition DEFAULT_APPROVAL_TIMEOUT_MS :: rat where
  "DEFAULT_APPROVAL_TIMEOUT_MS = 300000"

definition APPROVAL_HOOK_MARGIN_MS :: rat where
  "APPROVAL_HOOK_MARGIN_MS = 30000"

definition APPROVAL_SHIM_MARGIN_MS :: rat where
  "APPROVAL_SHIM_MARGIN_MS = 15000"

definition MAX_APPROVAL_TIMEOUT_MS :: rat where
  "MAX_APPROVAL_TIMEOUT_MS = 570000"

definition MIN_APPROVAL_TIMEOUT_MS :: rat where
  "MIN_APPROVAL_TIMEOUT_MS = 1"

definition clampApprovalTimeoutMs :: "jsnum \<Rightarrow> rat" where
  "clampApprovalTimeoutMs ms =
    (if \<not> is_finite_num ms \<or> fin_val ms < MIN_APPROVAL_TIMEOUT_MS then DEFAULT_APPROVAL_TIMEOUT_MS
     else min (fin_val ms) MAX_APPROVAL_TIMEOUT_MS)"

definition hookTimeoutSecondsFor :: "jsnum \<Rightarrow> int" where
  "hookTimeoutSecondsFor ms = \<lceil>(clampApprovalTimeoutMs ms + APPROVAL_HOOK_MARGIN_MS) / 1000\<rceil>"

definition shimDeadlineMsFor :: "jsnum \<Rightarrow> int" where
  "shimDeadlineMsFor ms = \<lceil>clampApprovalTimeoutMs ms + APPROVAL_SHIM_MARGIN_MS\<rceil>"

definition effectiveApprovalTimeoutMs :: "jsnum option \<Rightarrow> rat" where
  "effectiveApprovalTimeoutMs requested =
    (case requested of
       None \<Rightarrow> DEFAULT_APPROVAL_TIMEOUT_MS
     | Some ms \<Rightarrow> min (clampApprovalTimeoutMs ms) DEFAULT_APPROVAL_TIMEOUT_MS)"

section \<open>Request identifiers\<close>

definition is_lower_hex :: "nat \<Rightarrow> bool" where
  "is_lower_hex c = (48 \<le> c \<and> c \<le> 57 \<or> 97 \<le> c \<and> c \<le> 102)"

definition approvalRequestId :: "jstring \<Rightarrow> jstring \<Rightarrow> jstring" where
  "approvalRequestId sessionId token = js ''s'' @ take 12 (sha256Hex sessionId) @ js '':apr-'' @ token"

text \<open>The random UUID is drawn by a library; its dashes are removed.\<close>

definition mintApprovalRequestId :: "jstring \<Rightarrow> jstring \<Rightarrow> jstring" where
  "mintApprovalRequestId uuid sessionId = approvalRequestId sessionId (filter (\<lambda>c. c \<noteq> 45) uuid)"

definition deriveDemoApprovalRequestId :: "jstring \<Rightarrow> jstring" where
  "deriveDemoApprovalRequestId sessionId =
    approvalRequestId sessionId (take 32 (sha256Hex (js ''demo-approval:'' @ sessionId)))"

text \<open>The patterns are matched from the left; the class before the colon excludes the colon.\<close>

definition APPROVAL_REQUEST_ID_RE :: "jstring \<Rightarrow> bool" where
  "APPROVAL_REQUEST_ID_RE s \<longleftrightarrow>
     length s = 50 \<and> take 1 s = js ''s'' \<and> list_all is_lower_hex (take 12 (drop 1 s))
   \<and> take 5 (drop 13 s) = js '':apr-'' \<and> list_all is_lower_hex (drop 18 s)"

definition session_id_char :: "nat \<Rightarrow> bool" where
  "session_id_char c \<longleftrightarrow> (65 \<le> c \<and> c \<le> 90) \<or> (97 \<le> c \<and> c \<le> 122) \<or> (48 \<le> c \<and> c \<le> 57)
     \<or> c = 95 \<or> c = 46 \<or> c = 45"

definition base64url_char :: "nat \<Rightarrow> bool" where
  "base64url_char c \<longleftrightarrow> (65 \<le> c \<and> c \<le> 90) \<or> (97 \<le> c \<and> c \<le> 122) \<or> (48 \<le> c \<and> c \<le> 57)
     \<or> c = 95 \<or> c = 45"

definition is_dec :: "nat \<Rightarrow> bool" where
  "is_dec c \<longleftrightarrow> 48 \<le> c \<and> c \<le> 57"

definition digits_between :: "nat \<Rightarrow> nat \<Rightarrow> jstring \<Rightarrow> bool" where
  "digits_between lo hi s \<longleftrightarrow> lo \<le> length s \<and> length s \<le> hi \<and> list_all is_dec s"

definition legacy_suffix :: "jstring \<Rightarrow> bool" where
  "legacy_suffix t \<longleftrightarrow>
     (length t = 22 \<and> list_all base64url_char t)
   \<or> digits_between 1 9 t
   \<or> (digits_between 13 13 (take 13 t) \<and> take 1 (drop 13 t) = js ''-'' \<and> digits_between 1 9 (drop 14 t))"

definition LEGACY_APPROVAL_REQUEST_ID_RES :: "jstring \<Rightarrow> bool" where
  "LEGACY_APPROVAL_REQUEST_ID_RES s =
    (let pre = takeWhile session_id_char s; rest = dropWhile session_id_char s
     in 1 \<le> length pre \<and> length pre \<le> 128 \<and> take 5 rest = js '':apr-'' \<and> legacy_suffix (drop 5 rest))"

definition isRetirableApprovalRequestId :: "jstring \<Rightarrow> bool" where
  "isRetirableApprovalRequestId s \<longleftrightarrow>
     (if APPROVAL_REQUEST_ID_RE s then True else LEGACY_APPROVAL_REQUEST_ID_RES s)"

section \<open>Bypass mode\<close>

definition BYPASS_PERMISSION_MODE :: string where
  "BYPASS_PERMISSION_MODE = ''bypassPermissions''"

definition isBypassPermissionMode :: "jstring option \<Rightarrow> bool" where
  "isBypassPermissionMode mode = (mode = Some (js BYPASS_PERMISSION_MODE))"

definition governanceModeFor :: "jstring option \<Rightarrow> GovernanceMode" where
  "governanceModeFor mode = (if isBypassPermissionMode mode then Gov_unavailable else Gov_enforcement)"

section \<open>Path scope\<close>

definition norm_step :: "bool \<Rightarrow> jstring list \<Rightarrow> jstring \<Rightarrow> jstring list" where
  "norm_step isAbs out part =
    (if part = [] \<or> part = js ''.'' then out
     else if part = js ''..'' then
       (if out \<noteq> [] \<and> last out \<noteq> js ''..'' then butlast out
        else if \<not> isAbs then out @ [js ''..''] else out)
     else out @ [part])"

definition normalizeScopePath :: "jstring \<Rightarrow> jstring" where
  "normalizeScopePath p =
    (let isAbs = js_starts_with p (js ''/'');
         joined = js_join 47 (foldl (norm_step isAbs) [] (js_split 47 p))
     in if isAbs then js ''/'' @ joined else joined)"

definition in_prefix :: "jstring \<Rightarrow> jstring \<Rightarrow> bool" where
  "in_prefix p prefixRaw =
    (if \<not> js_starts_with prefixRaw (js ''/'') then False
     else let pre = normalizeScopePath prefixRaw
          in p = pre \<or> js_starts_with p (pre @ js ''/''))"

definition isPathWithinScope :: "jsval \<Rightarrow> jstring list \<Rightarrow> bool" where
  "isPathWithinScope candidate scope =
    (if scope = [] then True
     else (case js_string candidate of
             None \<Rightarrow> False
           | Some c \<Rightarrow>
               if c = [] then False
               else if 0 \<in> set c then False
               else if \<not> js_starts_with c (js ''/'') then False
               else list_ex (in_prefix (normalizeScopePath c)) scope))"

definition label_control :: "nat \<Rightarrow> bool" where
  "label_control c = (c \<le> 31 \<or> c = 127)"

text \<open>The last segment after splitting at either kind of slash.\<close>

definition last_segment :: "jstring \<Rightarrow> jstring" where
  "last_segment s = rev (takeWhile (\<lambda>c. c \<noteq> 47 \<and> c \<noteq> 92) (rev s))"

definition sanitizeRepoLabel :: "jsval \<Rightarrow> jstring option" where
  "sanitizeRepoLabel raw =
    (case js_string raw of
       None \<Rightarrow> None
     | Some s \<Rightarrow>
         (let cleaned = take 64 (js_trim (filter (\<lambda>c. \<not> label_control c) (last_segment s)))
          in if length cleaned > 0 then Some cleaned else None))"

section \<open>Policy categories\<close>

datatype PolicyCategory =
    PC_recursive_rm | PC_disk_destroy | PC_history_rewrite | PC_db_drop | PC_fork_bomb
  | PC_secret_egress | PC_perm_change | PC_inline_code | PC_secret_file_edit | PC_external_tool
  | PC_migrate_prod | PC_high_risk_other

definition policy_options :: "PolicyCategory list" where
  "policy_options =
    [PC_recursive_rm, PC_disk_destroy, PC_history_rewrite, PC_db_drop, PC_fork_bomb,
     PC_secret_egress, PC_perm_change, PC_inline_code, PC_secret_file_edit, PC_external_tool,
     PC_migrate_prod, PC_high_risk_other]"

fun category_str :: "PolicyCategory \<Rightarrow> string" where
  "category_str PC_recursive_rm = ''recursive-rm''"
| "category_str PC_disk_destroy = ''disk-destroy''"
| "category_str PC_history_rewrite = ''history-rewrite''"
| "category_str PC_db_drop = ''db-drop''"
| "category_str PC_fork_bomb = ''fork-bomb''"
| "category_str PC_secret_egress = ''secret-egress''"
| "category_str PC_perm_change = ''perm-change''"
| "category_str PC_inline_code = ''inline-code''"
| "category_str PC_secret_file_edit = ''secret-file-edit''"
| "category_str PC_external_tool = ''external-tool''"
| "category_str PC_migrate_prod = ''migrate-prod''"
| "category_str PC_high_risk_other = ''high-risk-other''"

definition DEFAULT_GATED_CATEGORIES :: "PolicyCategory list" where
  "DEFAULT_GATED_CATEGORIES =
    [PC_recursive_rm, PC_disk_destroy, PC_history_rewrite, PC_db_drop, PC_fork_bomb,
     PC_secret_egress, PC_inline_code, PC_high_risk_other]"

definition orderPolicyCategories :: "jstring set \<Rightarrow> PolicyCategory list" where
  "orderPolicyCategories S = filter (\<lambda>c. js (category_str c) \<in> S) policy_options"

fun projectPolicyCategories :: "jsval \<Rightarrow> PolicyCategory list" where
  "projectPolicyCategories (JArr raw) = orderPolicyCategories (set (somes (map js_string raw)))"
| "projectPolicyCategories _ = []"

definition category_strs :: "PolicyCategory set \<Rightarrow> jstring set" where
  "category_strs S = (\<lambda>c. js (category_str c)) ` S"

datatype PolicyPresetName = Preset_strict | Preset_balanced | Preset_demo

definition PRESET_ORDER :: "PolicyPresetName list" where
  "PRESET_ORDER = [Preset_strict, Preset_balanced, Preset_demo]"

fun POLICY_PRESETS :: "PolicyPresetName \<Rightarrow> PolicyCategory list" where
  "POLICY_PRESETS Preset_strict = orderPolicyCategories (category_strs (set policy_options))"
| "POLICY_PRESETS Preset_balanced = orderPolicyCategories (category_strs (set DEFAULT_GATED_CATEGORIES))"
| "POLICY_PRESETS Preset_demo =
    orderPolicyCategories (category_strs {PC_recursive_rm, PC_disk_destroy, PC_fork_bomb})"

definition presetCategories :: "PolicyPresetName \<Rightarrow> PolicyCategory list" where
  "presetCategories name = POLICY_PRESETS name"

definition matchPreset :: "jstring set \<Rightarrow> PolicyPresetName option" where
  "matchPreset cats =
    (let normalized = orderPolicyCategories cats
     in find (\<lambda>name. length (POLICY_PRESETS name) = length normalized
                     \<and> list_all2 (=) (POLICY_PRESETS name) normalized) PRESET_ORDER)"

section \<open>Paths as segment lists\<close>

text \<open>The directory an absolute path names, after resolving dots from the root.\<close>

definition path_segs :: "jstring \<Rightarrow> jstring list" where
  "path_segs p = foldl (norm_step True) [] (js_split 47 p)"

definition clean_segment :: "jstring \<Rightarrow> bool" where
  "clean_segment s \<longleftrightarrow> s \<noteq> [] \<and> s \<noteq> js ''.'' \<and> s \<noteq> js ''..'' \<and> 47 \<notin> set s"

lemma norm_step_clean:
  assumes "list_all clean_segment out" "47 \<notin> set part"
  shows "list_all clean_segment (norm_step True out part)"
  using assms by (auto simp: norm_step_def list_all_iff clean_segment_def dest: in_set_butlastD)

lemma path_segs_clean: "list_all clean_segment (path_segs p)"
proof -
  have run: "list_all clean_segment (foldl (norm_step True) out parts)"
    if "list_all clean_segment out" "\<And>x. x \<in> set parts \<Longrightarrow> 47 \<notin> set x" for out parts
    using that by (induction parts arbitrary: out) (simp_all add: norm_step_clean)
  show ?thesis
    unfolding path_segs_def by (rule run) (auto dest: js_split_no_sep)
qed

lemma normalize_abs:
  "js_starts_with p (js ''/'') \<Longrightarrow> normalizeScopePath p = 47 # js_join 47 (path_segs p)"
  by (simp add: normalizeScopePath_def path_segs_def js_def)

lemma js_split_join_append:
  "xs \<noteq> [] \<Longrightarrow> (\<And>s. s \<in> set xs \<Longrightarrow> c \<notin> set s) \<Longrightarrow> js_split c (js_join c xs @ c # r) = xs @ js_split c r"
  by (induction c xs rule: js_join.induct) (auto simp: js_split_append)

lemma js_join_append:
  "xs \<noteq> [] \<Longrightarrow> zs \<noteq> [] \<Longrightarrow> js_join c (xs @ zs) = js_join c xs @ c # js_join c zs"
proof (induction c xs rule: js_join.induct)
  case (2 c s)
  then show ?case by (cases zs) auto
qed auto

lemma join_Nil_iff: "list_all clean_segment xs \<Longrightarrow> js_join 47 xs = [] \<longleftrightarrow> xs = []"
  by (induction "47::nat" xs rule: js_join.induct) (auto simp: clean_segment_def)

lemma split_join_clean: "list_all clean_segment xs \<Longrightarrow> xs \<noteq> [] \<Longrightarrow> js_split 47 (js_join 47 xs) = xs"
  by (rule js_split_join) (auto simp: clean_segment_def list_all_iff)

lemma join_inj:
  assumes "list_all clean_segment xs" "list_all clean_segment ys"
  shows "js_join 47 xs = js_join 47 ys \<longleftrightarrow> xs = ys"
  using assms join_Nil_iff split_join_clean by (metis js_join.simps(1))

lemma join_prefix:
  assumes "list_all clean_segment xs" "list_all clean_segment ys"
  shows "(\<exists>r. js_join 47 ys = js_join 47 xs @ 47 # r) \<longleftrightarrow> xs \<noteq> [] \<and> (\<exists>zs. zs \<noteq> [] \<and> ys = xs @ zs)"
proof
  assume "\<exists>r. js_join 47 ys = js_join 47 xs @ 47 # r"
  then obtain r where r: "js_join 47 ys = js_join 47 xs @ 47 # r" by blast
  have ys: "ys \<noteq> []" using r by auto
  have "xs \<noteq> []"
  proof
    assume "xs = []"
    then have "js_split 47 (47 # r) = ys" using r ys assms(2) split_join_clean by fastforce
    then have "[] \<in> set ys" by auto
    then show False using assms(2) by (auto simp: list_all_iff clean_segment_def)
  qed
  moreover have "ys = xs @ js_split 47 r"
    using split_join_clean [OF assms(2) ys] js_split_join_append [OF \<open>xs \<noteq> []\<close>, of 47 r] assms(1) r
    by (auto simp: list_all_iff clean_segment_def)
  ultimately show "xs \<noteq> [] \<and> (\<exists>zs. zs \<noteq> [] \<and> ys = xs @ zs)" by auto
qed (auto simp: js_join_append)

lemma in_prefix_iff:
  assumes "js_starts_with c (js ''/'')"
  shows "in_prefix (normalizeScopePath c) pre \<longleftrightarrow>
    js_starts_with pre (js ''/'')
    \<and> (\<exists>rest. path_segs c = path_segs pre @ rest \<and> (0 < length (path_segs pre) \<or> rest = []))"
proof (cases "js_starts_with pre (js ''/'')")
  case True
  have "in_prefix (normalizeScopePath c) pre \<longleftrightarrow>
      js_join 47 (path_segs c) = js_join 47 (path_segs pre)
      \<or> (\<exists>r. js_join 47 (path_segs c) = js_join 47 (path_segs pre) @ 47 # r)"
    using True assms by (auto simp: in_prefix_def normalize_abs js_starts_with_append js_def)
  then show ?thesis
    using True join_inj [OF path_segs_clean path_segs_clean] join_prefix [OF path_segs_clean path_segs_clean]
    by auto
qed (simp add: in_prefix_def)

section \<open>Identifiers\<close>

lemma hex_string_iff: "hex_string s = list_all is_lower_hex s"
  by (simp add: hex_string_def is_lower_hex_def [abs_def])

lemma request_id_canonical:
  assumes "length token = 32" "list_all is_lower_hex token"
  shows "APPROVAL_REQUEST_ID_RE (approvalRequestId sid token)"
proof -
  have "length (take 12 (sha256Hex sid)) = 12" "list_all is_lower_hex (take 12 (sha256Hex sid))"
    using sha256Hex_hex [of sid] by (auto simp: hex_string_iff list_all_iff dest: in_set_takeD)
  then show ?thesis
    using assms by (simp add: APPROVAL_REQUEST_ID_RE_def approvalRequestId_def js_def)
qed

section \<open>Properties\<close>

text \<open>
  C40. The approval wait always ends before the hook that carries it. Whatever wait the operator
  asks for, even a non-number, the wait the bridge uses is shorter than the deadline of the
  shim, which is shorter than the agent's hook timeout, both derived from the default; and the
  same order holds for the values derived from any other input. So an unanswered request is
  denied by the gate and never let through by a hook timeout.
\<close>

theorem approval_timeout_ordering:
  "effectiveApprovalTimeoutMs requested < of_int (shimDeadlineMsFor (JFin DEFAULT_APPROVAL_TIMEOUT_MS))
   \<and> shimDeadlineMsFor (JFin DEFAULT_APPROVAL_TIMEOUT_MS) < 1000 * hookTimeoutSecondsFor (JFin DEFAULT_APPROVAL_TIMEOUT_MS)
   \<and> clampApprovalTimeoutMs x < of_int (shimDeadlineMsFor x)
   \<and> shimDeadlineMsFor x < 1000 * hookTimeoutSecondsFor x
   \<and> 1000 * hookTimeoutSecondsFor x \<le> 600000"
proof -
  note [simp] = DEFAULT_APPROVAL_TIMEOUT_MS_def APPROVAL_HOOK_MARGIN_MS_def APPROVAL_SHIM_MARGIN_MS_def
    MAX_APPROVAL_TIMEOUT_MS_def MIN_APPROVAL_TIMEOUT_MS_def
  have chain: "clampApprovalTimeoutMs y < of_int (shimDeadlineMsFor y)
      \<and> shimDeadlineMsFor y < 1000 * hookTimeoutSecondsFor y" for y
  proof -
    let ?c = "clampApprovalTimeoutMs y"
    have s: "?c + 15000 \<le> of_int (shimDeadlineMsFor y)" "of_int (shimDeadlineMsFor y) < ?c + 15001"
      unfolding shimDeadlineMsFor_def by (simp_all) linarith
    have "(?c + 30000) / 1000 \<le> of_int (hookTimeoutSecondsFor y)"
      unfolding hookTimeoutSecondsFor_def by simp
    then have "?c + 30000 \<le> of_int (1000 * hookTimeoutSecondsFor y)" by simp
    then have "of_int (shimDeadlineMsFor y) < (of_int (1000 * hookTimeoutSecondsFor y) :: rat)"
      using s(2) by linarith
    then have "shimDeadlineMsFor y < 1000 * hookTimeoutSecondsFor y"
      by (simp only: of_int_less_iff)
    then show ?thesis using s(1) by simp
  qed
  have max: "clampApprovalTimeoutMs x \<le> 570000"
    by (simp add: clampApprovalTimeoutMs_def)
  have "hookTimeoutSecondsFor x \<le> 600"
    unfolding hookTimeoutSecondsFor_def ceiling_le_iff using max by simp
  moreover have "effectiveApprovalTimeoutMs requested \<le> 300000"
    by (simp add: effectiveApprovalTimeoutMs_def split: option.splits)
  moreover have "clampApprovalTimeoutMs (JFin DEFAULT_APPROVAL_TIMEOUT_MS) = 300000"
    by (simp add: clampApprovalTimeoutMs_def)
  ultimately show ?thesis
    using chain [of x] chain [of "JFin DEFAULT_APPROVAL_TIMEOUT_MS"] by linarith
qed

text \<open>
  Scope containment is exact: with a scope set, a path is inside it if and only if it is
  absolute, has no NUL and, once its dots are resolved from the root, its segments extend those
  of one of the scope's absolute prefixes (the root prefix matching the root alone). Resolved
  segments are never empty or dots, so no traversal leaves a prefix and no sibling with a common
  name prefix is let in.
\<close>

theorem path_scope_containment:
  "(isPathWithinScope (JStr c) scope \<longleftrightarrow>
      scope = [] \<or>
      (js_starts_with c (js ''/'') \<and> 0 \<notin> set c \<and>
       (\<exists>pre \<in> set scope. js_starts_with pre (js ''/'')
          \<and> (\<exists>rest. path_segs c = path_segs pre @ rest \<and> (0 < length (path_segs pre) \<or> rest = [])))))
   \<and> list_all clean_segment (path_segs c)"
  using path_segs_clean
  by (auto simp: isPathWithinScope_def list_ex_iff in_prefix_iff js_starts_with_append js_def)

text \<open>
  Request identifiers have the canonical shape and are retirable: the demo identifier always,
  and a minted one whenever the library's UUID is 32 lower-case hexadecimal digits once its
  dashes are removed, whatever the session id contains.
\<close>

theorem request_ids_canonical:
  assumes "length (filter (\<lambda>c. c \<noteq> 45) uuid) = 32" and "list_all is_lower_hex (filter (\<lambda>c. c \<noteq> 45) uuid)"
  shows "APPROVAL_REQUEST_ID_RE (mintApprovalRequestId uuid sid)
    \<and> APPROVAL_REQUEST_ID_RE (deriveDemoApprovalRequestId sid)
    \<and> isRetirableApprovalRequestId (mintApprovalRequestId uuid sid)"
proof -
  have "list_all is_lower_hex (take 32 (sha256Hex t))" "length (take 32 (sha256Hex t)) = 32" for t
    using sha256Hex_hex [of t] by (auto simp: hex_string_iff list_all_iff dest: in_set_takeD)
  then show ?thesis
    using assms by (simp add: mintApprovalRequestId_def deriveDemoApprovalRequestId_def
        request_id_canonical isRetirableApprovalRequestId_def del: length_take)
qed

theorem request_ids_canonical_witness:
  "APPROVAL_REQUEST_ID_RE (mintApprovalRequestId (js ''0b8f4a3e-7c1d-4f6a-9e2b-5d3c7a1f0e49'') (js ''sess''))"
  using request_ids_canonical [of "js ''0b8f4a3e-7c1d-4f6a-9e2b-5d3c7a1f0e49''" "js ''sess''"]
  by (simp add: js_def is_lower_hex_def)

end
