(* ===== verification/Grant_Store.thy ===== *)
theory Grant_Store
  imports Prelude
begin

text \<open>
  The persistent allow-list (\<^verbatim>\<open>apps/sidecar/src/approval-allowlist-store.ts\<close>): a file
  of signatures with a repository scope and an expiry. The state is the parsed content of the
  file (\<^term>\<open>None\<close> when it is missing or not a JSON document); the file lock makes every mutation one
  read-modify-write, so each operation is a function from content to content. Properties of an
  entry the store does not know are not represented.
\<close>

section \<open>Entries\<close>

record PersistedApproval =
  pg_signature :: jstring
  pg_repoScope :: jstring
  pg_repoLabel :: "jstring option"
  pg_risk :: jstring
  pg_createdAt :: rat
  pg_expiresAt :: rat

type_synonym json_file = "jsval option"

text \<open>\<^verbatim>\<open>readJsonObject\<close>: only a plain object counts.\<close>

fun readJsonObject :: "json_file \<Rightarrow> jsval option" where
  "readJsonObject (Some (JObj ps)) = Some (JObj ps)"
| "readJsonObject _ = None"

fun finite_number :: "jsval \<Rightarrow> rat option" where
  "finite_number (JNum n) = (if is_finite_num n then Some (fin_val n) else None)"
| "finite_number _ = None"

definition isValidEntry :: "jsval \<Rightarrow> PersistedApproval option" where
  "isValidEntry v =
    (case (js_string (js_get v (js ''signature'')), js_string (js_get v (js ''repoScope'')),
           js_string (js_get v (js ''risk'')), finite_number (js_get v (js ''createdAt'')),
           finite_number (js_get v (js ''expiresAt''))) of
       (Some sg, Some sc, Some rk, Some cr, Some ex) \<Rightarrow>
         if sg = [] \<or> sc = [] then None
         else (case js_get v (js ''repoLabel'') of
                 JUndef \<Rightarrow> Some \<lparr>pg_signature = sg, pg_repoScope = sc, pg_repoLabel = None,
                                 pg_risk = rk, pg_createdAt = cr, pg_expiresAt = ex\<rparr>
               | JStr l \<Rightarrow> Some \<lparr>pg_signature = sg, pg_repoScope = sc, pg_repoLabel = Some l,
                                 pg_risk = rk, pg_createdAt = cr, pg_expiresAt = ex\<rparr>
               | _ \<Rightarrow> None)
     | _ \<Rightarrow> None)"

definition readEntries :: "json_file \<Rightarrow> PersistedApproval list" where
  "readEntries f =
    (case readJsonObject f of
       None \<Rightarrow> []
     | Some ob \<Rightarrow>
         (case js_get ob (js ''entries'') of
            JArr vs \<Rightarrow> somes (map isValidEntry vs)
          | _ \<Rightarrow> []))"

definition entry_json :: "PersistedApproval \<Rightarrow> jsval" where
  "entry_json e = JObj
    ([(js ''signature'', JStr (pg_signature e)), (js ''repoScope'', JStr (pg_repoScope e))]
     @ (case pg_repoLabel e of Some l \<Rightarrow> [(js ''repoLabel'', JStr l)] | None \<Rightarrow> [])
     @ [(js ''risk'', JStr (pg_risk e)), (js ''createdAt'', JNum (JFin (pg_createdAt e))),
        (js ''expiresAt'', JNum (JFin (pg_expiresAt e)))])"

definition writeEntries :: "PersistedApproval list \<Rightarrow> json_file" where
  "writeEntries es = Some (JObj [(js ''version'', jint 1), (js ''entries'', JArr (map entry_json es))])"

section \<open>Operations\<close>

definition store_list :: "json_file \<Rightarrow> rat \<Rightarrow> PersistedApproval list" where
  "store_list f now = filter (\<lambda>e. pg_expiresAt e > now) (readEntries f)"

definition store_has :: "json_file \<Rightarrow> jstring \<Rightarrow> jstring \<Rightarrow> rat \<Rightarrow> bool" where
  "store_has f sg sc now =
    list_ex (\<lambda>e. pg_signature e = sg \<and> pg_repoScope e = sc \<and> pg_expiresAt e > now) (readEntries f)"

record AddApprovalInput =
  in_signature :: jstring
  in_repoScope :: jstring
  in_repoLabel :: "jstring option"
  in_risk :: jstring
  in_ttlMs :: rat
  in_now :: rat

definition store_add :: "json_file \<Rightarrow> AddApprovalInput \<Rightarrow> json_file" where
  "store_add f i =
    (let now = in_now i;
         every = readEntries f;
         existing = find (\<lambda>e. pg_signature e = in_signature i \<and> pg_repoScope e = in_repoScope i) every;
         kept = filter (\<lambda>e. pg_expiresAt e > now
                  \<and> \<not> (pg_signature e = in_signature i \<and> pg_repoScope e = in_repoScope i)) every;
         entry = \<lparr>pg_signature = in_signature i, pg_repoScope = in_repoScope i,
                  pg_repoLabel = in_repoLabel i, pg_risk = in_risk i,
                  pg_createdAt = (case existing of Some e \<Rightarrow> pg_createdAt e | None \<Rightarrow> now),
                  pg_expiresAt = now + in_ttlMs i\<rparr>
     in writeEntries (kept @ [entry]))"

definition store_revoke :: "json_file \<Rightarrow> jstring \<Rightarrow> jstring option \<Rightarrow> nat \<times> json_file" where
  "store_revoke f sg sc =
    (let before = readEntries f;
         kept = filter (\<lambda>e. \<not> (pg_signature e = sg \<and> (sc = None \<or> sc = Some (pg_repoScope e)))) before
     in (length before - length kept, if length kept \<noteq> length before then writeEntries kept else f))"

definition store_clear :: "json_file \<Rightarrow> json_file" where
  "store_clear f = None"

section \<open>The contract of a grant store\<close>

datatype grant_op = Add AddApprovalInput | Revoke jstring "jstring option" | Clear

fun grant_apply ::
  "('f \<Rightarrow> AddApprovalInput \<Rightarrow> 'f) \<Rightarrow> ('f \<Rightarrow> jstring \<Rightarrow> jstring option \<Rightarrow> 'f) \<Rightarrow> ('f \<Rightarrow> 'f) \<Rightarrow> 'f \<Rightarrow> grant_op \<Rightarrow> 'f" where
  "grant_apply add revoke clear f (Add i) = add f i"
| "grant_apply add revoke clear f (Revoke sg sc) = revoke f sg sc"
| "grant_apply add revoke clear f Clear = clear f"

text \<open>What one operation does to the grant of one signature in one scope, seen at one time.\<close>

fun grant_spec :: "jstring \<Rightarrow> jstring \<Rightarrow> rat \<Rightarrow> bool \<Rightarrow> grant_op \<Rightarrow> bool" where
  "grant_spec sg sc t b (Add i) =
    (if in_signature i = sg \<and> in_repoScope i = sc then t < in_now i + in_ttlMs i else b)"
| "grant_spec sg sc t b (Revoke s r) = (if s = sg \<and> (r = None \<or> r = Some sc) then False else b)"
| "grant_spec sg sc t b Clear = False"

fun op_ok :: "rat \<Rightarrow> grant_op \<Rightarrow> bool" where
  "op_ok t (Add i) = (in_signature i \<noteq> [] \<and> in_repoScope i \<noteq> [] \<and> in_now i \<le> t)"
| "op_ok t _ = True"

locale grant_store =
  fixes has :: "'f \<Rightarrow> jstring \<Rightarrow> jstring \<Rightarrow> rat \<Rightarrow> bool"
    and add :: "'f \<Rightarrow> AddApprovalInput \<Rightarrow> 'f"
    and revoke :: "'f \<Rightarrow> jstring \<Rightarrow> jstring option \<Rightarrow> 'f"
    and clear :: "'f \<Rightarrow> 'f"
  assumes has_add_same: "in_signature i \<noteq> [] \<Longrightarrow> in_repoScope i \<noteq> [] \<Longrightarrow>
      has (add f i) (in_signature i) (in_repoScope i) t \<longleftrightarrow> t < in_now i + in_ttlMs i"
    and has_add_other: "\<not> (in_signature i = sg \<and> in_repoScope i = sc) \<Longrightarrow> in_now i \<le> t \<Longrightarrow>
      in_signature i \<noteq> [] \<Longrightarrow> in_repoScope i \<noteq> [] \<Longrightarrow> has (add f i) sg sc t \<longleftrightarrow> has f sg sc t"
    and has_revoke: "has (revoke f s r) sg sc t \<longleftrightarrow> has f sg sc t \<and> \<not> (s = sg \<and> (r = None \<or> r = Some sc))"
    and has_clear: "\<not> has (clear f) sg sc t"
    and has_expiry: "has f sg sc t \<Longrightarrow> t' \<le> t \<Longrightarrow> has f sg sc t'"
begin

lemma apply_spec:
  "op_ok t op \<Longrightarrow> has (grant_apply add revoke clear f op) sg sc t \<longleftrightarrow> grant_spec sg sc t (has f sg sc t) op"
  by (cases op) (auto simp: has_add_same has_add_other has_revoke has_clear)

lemma run_spec:
  "list_all (op_ok t) ops \<Longrightarrow>
    has (foldl (grant_apply add revoke clear) f ops) sg sc t
    \<longleftrightarrow> foldl (grant_spec sg sc t) (has f sg sc t) ops"
  by (induction ops arbitrary: f) (simp_all add: apply_spec)

lemma never_after_expiry: "\<not> has f sg sc t \<Longrightarrow> t \<le> t' \<Longrightarrow> \<not> has f sg sc t'"
  using has_expiry by blast

end

section \<open>The file implements the contract\<close>

definition entry_ok :: "PersistedApproval \<Rightarrow> bool" where
  "entry_ok e \<longleftrightarrow> pg_signature e \<noteq> [] \<and> pg_repoScope e \<noteq> []"

lemma isValidEntry_ok: "isValidEntry v = Some e \<Longrightarrow> entry_ok e"
  by (auto simp: isValidEntry_def entry_ok_def split: option.splits jsval.splits if_splits)

lemma isValidEntry_json: "entry_ok e \<Longrightarrow> isValidEntry (entry_json e) = Some e"
  by (cases e) (auto simp: isValidEntry_def entry_json_def entry_ok_def split: option.splits)

lemma somes_entries: "list_all entry_ok es \<Longrightarrow> somes (map isValidEntry (map entry_json es)) = es"
  by (induction es) (simp_all add: isValidEntry_json)

lemma read_write: "list_all entry_ok es \<Longrightarrow> readEntries (writeEntries es) = es"
  using somes_entries [of es] by (simp add: readEntries_def writeEntries_def)

lemma somes_ok: "list_all entry_ok (somes (map isValidEntry vs))"
proof (induction vs)
  case (Cons v vs)
  then show ?case
    by (cases "isValidEntry v") (auto dest: isValidEntry_ok)
qed simp

lemma read_ok: "list_all entry_ok (readEntries f)"
  by (auto simp: readEntries_def somes_ok split: option.splits jsval.splits)

lemma read_add:
  assumes "in_signature i \<noteq> []" "in_repoScope i \<noteq> []"
  shows "\<exists>e. readEntries (store_add f i) =
      filter (\<lambda>e. pg_expiresAt e > in_now i
        \<and> \<not> (pg_signature e = in_signature i \<and> pg_repoScope e = in_repoScope i)) (readEntries f) @ [e]
    \<and> pg_signature e = in_signature i \<and> pg_repoScope e = in_repoScope i
    \<and> pg_expiresAt e = in_now i + in_ttlMs i"
proof -
  have "list_all entry_ok (filter P (readEntries f))" for P
    using read_ok [of f] by (auto simp: list_all_iff)
  then show ?thesis
    using assms unfolding store_add_def Let_def
    by (subst read_write) (auto simp: entry_ok_def)
qed

lemma filter_same_length: "length (filter P xs) = length xs \<Longrightarrow> filter P xs = xs"
proof (induction xs)
  case (Cons x xs)
  then show ?case
    using length_filter_le [of P xs] by (cases "P x") simp_all
qed simp

lemma read_revoke:
  "readEntries (snd (store_revoke f sg sc)) =
    filter (\<lambda>e. \<not> (pg_signature e = sg \<and> (sc = None \<or> sc = Some (pg_repoScope e)))) (readEntries f)"
proof -
  have "list_all entry_ok (filter P (readEntries f))" for P
    using read_ok [of f] by (auto simp: list_all_iff)
  then show ?thesis
    unfolding store_revoke_def Let_def by (auto simp: read_write dest!: filter_same_length)
qed

interpretation grants: grant_store store_has store_add "\<lambda>f s r. snd (store_revoke f s r)" store_clear
proof
  fix f i sg sc t t' s r
  show "in_signature i \<noteq> [] \<Longrightarrow> in_repoScope i \<noteq> [] \<Longrightarrow>
      store_has (store_add f i) (in_signature i) (in_repoScope i) t \<longleftrightarrow> t < in_now i + in_ttlMs i"
    using read_add [of i f] by (auto simp: store_has_def list_ex_iff)
  show "\<not> (in_signature i = sg \<and> in_repoScope i = sc) \<Longrightarrow> in_now i \<le> t \<Longrightarrow>
      in_signature i \<noteq> [] \<Longrightarrow> in_repoScope i \<noteq> [] \<Longrightarrow> store_has (store_add f i) sg sc t \<longleftrightarrow> store_has f sg sc t"
    using read_add [of i f] by (auto simp: store_has_def list_ex_iff)
  show "store_has (snd (store_revoke f s r)) sg sc t \<longleftrightarrow>
      store_has f sg sc t \<and> \<not> (s = sg \<and> (r = None \<or> r = Some sc))"
    by (auto simp: store_has_def list_ex_iff read_revoke)
  show "\<not> store_has (store_clear f) sg sc t"
    by (simp add: store_has_def store_clear_def readEntries_def)
  show "store_has f sg sc t \<Longrightarrow> t' \<le> t \<Longrightarrow> store_has f sg sc t'"
    by (auto simp: store_has_def list_ex_iff)
qed

section \<open>Properties\<close>

text \<open>
  Persistent grants are exact. After any sequence of grants, revocations and clears on any
  file, damaged or hand-edited ones included, a signature is granted in a repository scope at a
  time no earlier than the operations if and only if the last operation that concerned that
  signature and scope was a grant that has not expired, or none did and the file granted it
  already. Other signatures and other repositories are never affected.
\<close>

theorem persistent_grants_exact:
  assumes "list_all (op_ok t) ops"
  shows "store_has (foldl (grant_apply store_add (\<lambda>f s r. snd (store_revoke f s r)) store_clear) f ops) sg sc t
    \<longleftrightarrow> foldl (grant_spec sg sc t) (store_has f sg sc t) ops"
  using assms by (rule grants.run_spec)

definition sample_grant :: "rat \<Rightarrow> AddApprovalInput" where
  "sample_grant now = \<lparr>in_signature = js ''ab'', in_repoScope = js ''0f'', in_repoLabel = None,
     in_risk = js ''medium'', in_ttlMs = 100, in_now = now\<rparr>"

theorem persistent_grants_exact_witness:
  "store_has (foldl (grant_apply store_add (\<lambda>f s r. snd (store_revoke f s r)) store_clear) None
      [Add (sample_grant 0), Revoke (js ''ab'') None, Add (sample_grant 50)]) (js ''ab'') (js ''0f'') 149
   \<and> \<not> store_has (foldl (grant_apply store_add (\<lambda>f s r. snd (store_revoke f s r)) store_clear) None
      [Add (sample_grant 0), Revoke (js ''ab'') (Some (js ''0f''))]) (js ''ab'') (js ''0f'') 60"
  using persistent_grants_exact [of 149 "[Add (sample_grant 0), Revoke (js ''ab'') None, Add (sample_grant 50)]"]
    persistent_grants_exact [of 60 "[Add (sample_grant 0), Revoke (js ''ab'') (Some (js ''0f''))]"]
  by (simp add: sample_grant_def)

end
