(* ===== verification/Policy_Store.thy ===== *)
theory Policy_Store
  imports Approval_Config Grant_Store
begin

text \<open>
  The approval policy on disk (\<^verbatim>\<open>apps/sidecar/src/approval-policy-store.ts\<close>): reading the
  layered policy with its fail-safe defaults and the migration of the flat format, writing it, and
  the read-modify-write of a single change. The state is the parsed content of the policy file.
\<close>

section \<open>Data\<close>

record ApprovalPolicyConfig =
  pol_enabled :: bool
  pol_categories :: "PolicyCategory set"

record RepoPolicyEntry = ApprovalPolicyConfig +
  pol_label :: "jstring option"

record LayeredApprovalPolicy =
  lay_default :: ApprovalPolicyConfig
  lay_repos :: "(jstring \<times> RepoPolicyEntry) list"

datatype PolicyDelta =
    Set_default ApprovalPolicyConfig
  | Set_repo jstring RepoPolicyEntry
  | Remove_repo jstring

section \<open>Reading\<close>

definition POLICY_FILE_VERSION :: int where
  "POLICY_FILE_VERSION = 2"

definition REPO_SCOPE_RE :: "jstring \<Rightarrow> bool" where
  "REPO_SCOPE_RE s \<longleftrightarrow> 1 \<le> length s \<and> length s \<le> 64 \<and> list_all is_lower_hex s"

definition sanitizeCategories :: "jsval \<Rightarrow> PolicyCategory set" where
  "sanitizeCategories raw = set (projectPolicyCategories raw)"

definition defaultPreset :: ApprovalPolicyConfig where
  "defaultPreset = \<lparr>pol_enabled = True, pol_categories = set DEFAULT_GATED_CATEGORIES\<rparr>"

fun isPlainObject :: "jsval \<Rightarrow> bool" where
  "isPlainObject (JObj _) = True"
| "isPlainObject _ = False"

fun is_array :: "jsval \<Rightarrow> bool" where
  "is_array (JArr _) = True"
| "is_array _ = False"

definition parseScopeConfig :: "jsval \<Rightarrow> bool \<Rightarrow> ApprovalPolicyConfig" where
  "parseScopeConfig raw failsafeEmpty =
    (let categories = sanitizeCategories (js_get raw (js ''categories''))
     in \<lparr>pol_enabled = (js_get raw (js ''enabled'') \<noteq> JBool False),
         pol_categories = (if categories \<noteq> {} \<or> \<not> failsafeEmpty then categories
                           else set DEFAULT_GATED_CATEGORIES)\<rparr>)"

definition parse_repo :: "jsval \<Rightarrow> RepoPolicyEntry" where
  "parse_repo val =
    (let base = parseScopeConfig val False
     in \<lparr>pol_enabled = pol_enabled base, pol_categories = pol_categories base,
         pol_label = sanitizeRepoLabel (js_get val (js ''label''))\<rparr>)"

definition parse_repos_step ::
  "(jstring \<times> RepoPolicyEntry) list \<Rightarrow> jstring \<times> jsval \<Rightarrow> (jstring \<times> RepoPolicyEntry) list" where
  "parse_repos_step out kv =
    (if \<not> REPO_SCOPE_RE (fst kv) then out
     else if \<not> isPlainObject (snd kv) then out
     else if \<not> is_array (js_get (snd kv) (js ''categories'')) then out
     else AList.update (fst kv) (parse_repo (snd kv)) out)"

fun parseRepos :: "jsval \<Rightarrow> (jstring \<times> RepoPolicyEntry) list" where
  "parseRepos (JObj entries) = foldl parse_repos_step [] entries"
| "parseRepos _ = []"

definition loadApprovalPolicy :: "json_file \<Rightarrow> LayeredApprovalPolicy" where
  "loadApprovalPolicy f =
    (case readJsonObject f of
       None \<Rightarrow> \<lparr>lay_default = defaultPreset, lay_repos = []\<rparr>
     | Some parsed \<Rightarrow>
         (let d = js_get parsed (js ''default''); r = js_get parsed (js ''repos'') in
          if isPlainObject d \<or> isPlainObject r then
            \<lparr>lay_default = (if isPlainObject d then parseScopeConfig d True else defaultPreset),
             lay_repos = parseRepos r\<rparr>
          else \<lparr>lay_default = parseScopeConfig parsed True, lay_repos = []\<rparr>))"

section \<open>Writing\<close>

definition categories_json :: "PolicyCategory set \<Rightarrow> jsval" where
  "categories_json S = JArr (map (\<lambda>c. JStr (js (category_str c))) (orderPolicyCategories (category_strs S)))"

definition repo_json :: "RepoPolicyEntry \<Rightarrow> jsval" where
  "repo_json e = JObj
    ((case pol_label e of Some l \<Rightarrow> [(js ''label'', JStr l)] | None \<Rightarrow> [])
     @ [(js ''enabled'', JBool (pol_enabled e)), (js ''categories'', categories_json (pol_categories e))])"

definition saveApprovalPolicy :: "LayeredApprovalPolicy \<Rightarrow> json_file" where
  "saveApprovalPolicy p = Some (JObj
    [(js ''version'', jint POLICY_FILE_VERSION),
     (js ''default'', JObj
        [(js ''enabled'', JBool (pol_enabled (lay_default p))),
         (js ''categories'', categories_json (pol_categories (lay_default p)))]),
     (js ''repos'', JObj (map (\<lambda>(scope, e). (scope, repo_json e)) (lay_repos p)))])"

definition applyPolicyDelta :: "PolicyDelta \<Rightarrow> json_file \<Rightarrow> json_file" where
  "applyPolicyDelta delta f =
    (let disk = loadApprovalPolicy f in
     saveApprovalPolicy
       (case delta of
          Set_default config \<Rightarrow> disk\<lparr>lay_default := config\<rparr>
        | Set_repo scope e \<Rightarrow> disk\<lparr>lay_repos := AList.update scope e (lay_repos disk)\<rparr>
        | Remove_repo scope \<Rightarrow> disk\<lparr>lay_repos := AList.delete scope (lay_repos disk)\<rparr>))"

section \<open>The environment switch\<close>

definition isBypassCatastrophicGateEnabled :: "jstring option \<Rightarrow> bool" where
  "isBypassCatastrophicGateEnabled v = (\<not> (v = Some (js ''0'') \<or> v = Some (js ''false'')))"

record BridgePolicyOptions =
  bpo_policy :: ApprovalPolicyConfig
  bpo_policyRepos :: "(jstring \<times> RepoPolicyEntry) list"
  bpo_policyEnvEnabled :: bool

definition buildBridgePolicyOptions :: "jstring option \<Rightarrow> json_file \<Rightarrow> BridgePolicyOptions" where
  "buildBridgePolicyOptions env f =
    (let layered = loadApprovalPolicy f
     in \<lparr>bpo_policy = lay_default layered, bpo_policyRepos = lay_repos layered,
         bpo_policyEnvEnabled = isBypassCatastrophicGateEnabled env\<rparr>)"

section \<open>Well-formed policies\<close>

definition layered_ok :: "LayeredApprovalPolicy \<Rightarrow> bool" where
  "layered_ok p \<longleftrightarrow> pol_categories (lay_default p) \<noteq> {}
     \<and> distinct (map fst (lay_repos p)) \<and> list_all REPO_SCOPE_RE (map fst (lay_repos p))"

lemma policy_options_all: "set policy_options = UNIV"
proof -
  have "c \<in> set policy_options" for c by (cases c) (simp_all add: policy_options_def)
  then show ?thesis by blast
qed

lemma category_str_inj [simp]: "category_str a = category_str b \<longleftrightarrow> a = b"
  by (cases a; cases b) simp_all

lemma ordered_set: "set (orderPolicyCategories (category_strs S)) = S"
  using policy_options_all by (auto simp: orderPolicyCategories_def category_strs_def)

lemma somes_strings: "somes (map js_string (map (\<lambda>c. JStr (f c)) cs)) = map f cs"
  by (induction cs) simp_all

lemma sanitize_json: "sanitizeCategories (categories_json S) = S"
proof -
  have "set (map (\<lambda>c. js (category_str c)) (orderPolicyCategories (category_strs S))) = category_strs S"
    using ordered_set [of S] by (auto simp: category_strs_def)
  then show ?thesis
    using somes_strings [of "\<lambda>c. js (category_str c)"] ordered_set [of S]
    by (simp add: sanitizeCategories_def categories_json_def)
qed

lemma default_gated_ne: "set DEFAULT_GATED_CATEGORIES \<noteq> {}"
  by (simp add: DEFAULT_GATED_CATEGORIES_def)

lemma parseScopeConfig_ne: "pol_categories (parseScopeConfig raw True) \<noteq> {}"
  using default_gated_ne by (simp add: parseScopeConfig_def Let_def)

definition repos_ok :: "(jstring \<times> RepoPolicyEntry) list \<Rightarrow> bool" where
  "repos_ok rs \<longleftrightarrow> distinct (map fst rs) \<and> list_all REPO_SCOPE_RE (map fst rs)"

lemma repos_ok_update: "repos_ok rs \<Longrightarrow> REPO_SCOPE_RE s \<Longrightarrow> repos_ok (AList.update s e rs)"
  by (auto simp: repos_ok_def distinct_update update_keys list_all_iff)

lemma repos_ok_delete: "repos_ok rs \<Longrightarrow> repos_ok (AList.delete s rs)"
  by (auto simp: repos_ok_def delete_keys distinct_removeAll list_all_iff)

interpretation repos_loop: stream_fold parse_repos_step repos_ok
  by unfold_locales (simp add: parse_repos_step_def repos_ok_update)

lemma parseRepos_ok: "repos_ok (parseRepos v)"
  by (cases v) (auto simp: repos_ok_def intro!: repos_loop.run_inv [unfolded repos_ok_def])

lemma layered_ok_iff: "layered_ok p \<longleftrightarrow> pol_categories (lay_default p) \<noteq> {} \<and> repos_ok (lay_repos p)"
  by (simp add: layered_ok_def repos_ok_def)

lemma load_ok: "layered_ok (loadApprovalPolicy f)"
proof -
  have "pol_categories defaultPreset \<noteq> {}" using default_gated_ne by (simp add: defaultPreset_def)
  then show ?thesis
    using parseScopeConfig_ne parseRepos_ok
    by (auto simp: layered_ok_iff loadApprovalPolicy_def Let_def repos_ok_def split: option.splits)
qed

section \<open>What a policy decides\<close>

text \<open>
  The abstraction of a policy: the switch and the categories of the default and of each
  repository. Labels are for display only.
\<close>

type_synonym scope_view = "bool \<times> PolicyCategory set"

definition config_view :: "ApprovalPolicyConfig \<Rightarrow> scope_view" where
  "config_view c = (pol_enabled c, pol_categories c)"

definition entry_view :: "RepoPolicyEntry \<Rightarrow> scope_view" where
  "entry_view e = (pol_enabled e, pol_categories e)"

definition policy_view :: "LayeredApprovalPolicy \<Rightarrow> scope_view \<times> (jstring \<rightharpoonup> scope_view)" where
  "policy_view p = (config_view (lay_default p), \<lambda>s. map_option entry_view (map_of (lay_repos p) s))"

fun delta_spec :: "PolicyDelta \<Rightarrow> scope_view \<times> (jstring \<rightharpoonup> scope_view) \<Rightarrow> scope_view \<times> (jstring \<rightharpoonup> scope_view)" where
  "delta_spec (Set_default c) (d, r) = (config_view c, r)"
| "delta_spec (Set_repo s e) (d, r) = (d, r(s \<mapsto> entry_view e))"
| "delta_spec (Remove_repo s) (d, r) = (d, r(s := None))"

fun delta_ok :: "PolicyDelta \<Rightarrow> bool" where
  "delta_ok (Set_default c) = (pol_categories c \<noteq> {})"
| "delta_ok (Set_repo s e) = REPO_SCOPE_RE s"
| "delta_ok (Remove_repo s) = True"

lemma parse_repo_json: "entry_view (parse_repo (repo_json e)) = entry_view e"
  by (simp add: entry_view_def parse_repo_def repo_json_def parseScopeConfig_def Let_def sanitize_json
      split: option.splits)

lemma repo_json_shape: "isPlainObject (repo_json e)" "is_array (js_get (repo_json e) (js ''categories''))"
  by (simp_all add: repo_json_def categories_json_def split: option.splits)

lemma parseRepos_save:
  assumes "repos_ok rs"
  shows "map_option entry_view (map_of (parseRepos (JObj (map (\<lambda>(s, e). (s, repo_json e)) rs))) s)
       = map_option entry_view (map_of rs s)"
proof -
  have "foldl parse_repos_step out (map (\<lambda>(s, e). (s, repo_json e)) rs) = out @ map (\<lambda>(s, e). (s, parse_repo (repo_json e))) rs"
    if "distinct (map fst out @ map fst rs)" "list_all REPO_SCOPE_RE (map fst rs)" for out and rs :: "(jstring \<times> RepoPolicyEntry) list"
    using that
  proof (induction rs arbitrary: out)
    case (Cons x rs)
    obtain s e where x: "x = (s, e)" by (cases x)
    have "parse_repos_step out (s, repo_json e) = out @ [(s, parse_repo (repo_json e))]"
      using Cons.prems x by (simp add: parse_repos_step_def repo_json_shape update_new)
    then show ?case
      using Cons.IH [of "out @ [(s, parse_repo (repo_json e))]"] Cons.prems x by simp
  qed simp
  then have "parseRepos (JObj (map (\<lambda>(s, e). (s, repo_json e)) rs)) = map (\<lambda>(s, e). (s, parse_repo (repo_json e))) rs"
    using assms by (simp add: repos_ok_def)
  moreover have "map_option entry_view (map_of (map (\<lambda>(s, e). (s, parse_repo (repo_json e))) xs) s)
      = map_option entry_view (map_of xs s)" for xs
    by (induction xs) (auto simp: parse_repo_json)
  ultimately show ?thesis by simp
qed

lemma load_save:
  assumes "layered_ok p"
  shows "policy_view (loadApprovalPolicy (saveApprovalPolicy p)) = policy_view p"
  using assms parseRepos_save [of "lay_repos p"]
  by (simp add: layered_ok_iff policy_view_def loadApprovalPolicy_def saveApprovalPolicy_def Let_def
      config_view_def parseScopeConfig_def sanitize_json)

lemma delta_roundtrip:
  assumes "delta_ok d"
  shows "policy_view (loadApprovalPolicy (applyPolicyDelta d f)) = delta_spec d (policy_view (loadApprovalPolicy f))"
proof -
  let ?disk = "loadApprovalPolicy f"
  have ok: "layered_ok ?disk" by (rule load_ok)
  show ?thesis
  proof (cases d)
    case (Set_default c)
    then have "layered_ok (?disk\<lparr>lay_default := c\<rparr>)" using ok assms by (simp add: layered_ok_def)
    then show ?thesis
      by (simp add: Set_default applyPolicyDelta_def Let_def load_save) (simp add: policy_view_def)
  next
    case (Set_repo s e)
    then have "layered_ok (?disk\<lparr>lay_repos := AList.update s e (lay_repos ?disk)\<rparr>)"
      using ok assms by (simp add: layered_ok_iff repos_ok_update)
    then show ?thesis
      by (simp add: Set_repo applyPolicyDelta_def Let_def load_save) (auto simp: policy_view_def update_conv')
  next
    case (Remove_repo s)
    have "layered_ok (?disk\<lparr>lay_repos := AList.delete s (lay_repos ?disk)\<rparr>)"
      using ok by (simp add: layered_ok_iff repos_ok_delete)
    then show ?thesis
      by (simp add: Remove_repo applyPolicyDelta_def Let_def load_save) (auto simp: policy_view_def delete_conv')
  qed
qed

section \<open>Properties\<close>

text \<open>
  Whatever the policy file contains, damaged or hostile content included, the policy that is
  loaded gates something by default (it is never silently empty), its repository keys are
  distinct short hexadecimal scopes, and saving it and loading it again decides the same.
\<close>

theorem policy_load_failsafe:
  "pol_categories (lay_default (loadApprovalPolicy f)) \<noteq> {}
   \<and> distinct (map fst (lay_repos (loadApprovalPolicy f)))
   \<and> list_all REPO_SCOPE_RE (map fst (lay_repos (loadApprovalPolicy f)))
   \<and> policy_view (loadApprovalPolicy (saveApprovalPolicy (loadApprovalPolicy f)))
     = policy_view (loadApprovalPolicy f)"
  using load_ok [of f] load_save [OF load_ok] by (simp add: layered_ok_def)

text \<open>
  Persisting one policy change touches that change only: on any file, after writing a change
  of the default or of one repository, loading gives the previous policy with exactly that change,
  so an override written by another process is never dropped.
\<close>

theorem policy_delta_exact:
  assumes "delta_ok d"
  shows "policy_view (loadApprovalPolicy (applyPolicyDelta d f)) = delta_spec d (policy_view (loadApprovalPolicy f))"
  using assms by (rule delta_roundtrip)

theorem policy_delta_exact_witness:
  "snd (policy_view (loadApprovalPolicy (applyPolicyDelta
      (Set_repo (js ''0f'') \<lparr>pol_enabled = True, pol_categories = {}, pol_label = None\<rparr>) None))) (js ''0f'')
   = Some (True, {})"
  using policy_delta_exact [of "Set_repo (js ''0f'') \<lparr>pol_enabled = True, pol_categories = {}, pol_label = None\<rparr>" None]
  by (simp add: REPO_SCOPE_RE_def js_def is_lower_hex_def policy_view_def entry_view_def)

end
