(* ===== verification/Json_Text.thy ===== *)
theory Json_Text
  imports Sha256
begin

text \<open>
  The text form of JSON values (\<^verbatim>\<open>JSON.stringify\<close>): strings with their escapes, arrays, objects, and
  numbers through a parameter for \<^verbatim>\<open>Number.prototype.toString\<close>; a reader of quoted strings; and what a
  text determines of the value behind it.
\<close>

section \<open>Text\<close>

text \<open>\<^verbatim>\<open>JSON.stringify\<close> of a string, and of an array of strings.\<close>

fun json_units :: "jstring \<Rightarrow> jstring" where
  "json_units [] = []"
| "json_units (c # s) =
    (if c = 34 then 92 # 34 # json_units s
     else if c = 92 then 92 # 92 # json_units s
     else if c = 8 then 92 # 98 # json_units s
     else if c = 12 then 92 # 102 # json_units s
     else if c = 10 then 92 # 110 # json_units s
     else if c = 13 then 92 # 114 # json_units s
     else if c = 9 then 92 # 116 # json_units s
     else if c < 32 then 92 # 117 # padStart 4 48 (to_hex c) @ json_units s
     else if 0xd800 \<le> c \<and> c \<le> 0xdbff then
       (case s of
          d # s' \<Rightarrow> if 0xdc00 \<le> d \<and> d \<le> 0xdfff then c # d # json_units s'
                    else 92 # 117 # padStart 4 48 (to_hex c) @ json_units s
        | [] \<Rightarrow> 92 # 117 # padStart 4 48 (to_hex c))
     else if 0xdc00 \<le> c \<and> c \<le> 0xdfff then 92 # 117 # padStart 4 48 (to_hex c) @ json_units s
     else c # json_units s)"

definition json_quote :: "jstring \<Rightarrow> jstring" where
  "json_quote s = [34] @ json_units s @ [34]"

definition json_string_array :: "jstring list \<Rightarrow> jstring" where
  "json_string_array ss = [91] @ js_join 44 (map json_quote ss) @ [93]"

text \<open>
  A value inside an array: \<^verbatim>\<open>undefined\<close> and the non-finite numbers become \<^verbatim>\<open>null\<close>; properties
  whose value is \<^verbatim>\<open>undefined\<close> are left out.
\<close>

fun json_stringify :: "(jsnum \<Rightarrow> jstring) \<Rightarrow> jsval \<Rightarrow> jstring" where
  "json_stringify N JUndef = js ''null''"
| "json_stringify N JNull = js ''null''"
| "json_stringify N (JBool b) = js (if b then ''true'' else ''false'')"
| "json_stringify N (JNum n) = (if is_finite_num n then N n else js ''null'')"
| "json_stringify N (JStr s) = json_quote s"
| "json_stringify N (JArr vs) = [91] @ js_join 44 (map (json_stringify N) vs) @ [93]"
| "json_stringify N (JObj ps) =
    [123] @ js_join 44 (map (\<lambda>(k, v). json_quote k @ [58] @ json_stringify N v)
                         (filter (\<lambda>(k, v). v \<noteq> JUndef) ps)) @ [125]"

section \<open>Reading quoted strings\<close>

text \<open>A reader of the quoted strings, the left inverse of \<open>json_units\<close>.\<close>

definition hex_val :: "nat \<Rightarrow> nat" where
  "hex_val h = (if h < 87 then h - 48 else h - 87)"

definition unescape :: "nat \<Rightarrow> nat" where
  "unescape d = (if d = 98 then 8 else if d = 102 then 12 else if d = 110 then 10
     else if d = 114 then 13 else if d = 116 then 9 else d)"

definition cons_read :: "nat \<Rightarrow> (jstring \<times> jstring) option \<Rightarrow> (jstring \<times> jstring) option" where
  "cons_read c x = map_option (apfst ((#) c)) x"

fun json_read :: "jstring \<Rightarrow> (jstring \<times> jstring) option" where
  "json_read [] = None"
| "json_read (c # s) =
    (if c = 34 then Some ([], s)
     else if c \<noteq> 92 then cons_read c (json_read s)
     else (case s of
        [] \<Rightarrow> None
      | d # s' \<Rightarrow>
          if d \<noteq> 117 then cons_read (unescape d) (json_read s')
          else (case s' of
              h3 # h2 # h1 # h0 # s'' \<Rightarrow>
                cons_read (4096 * hex_val h3 + 256 * hex_val h2 + 16 * hex_val h1 + hex_val h0) (json_read s'')
            | _ \<Rightarrow> None)))"

declare json_read.simps [simp del]

lemma json_read_quote: "json_read (34 # s) = Some ([], s)"
  by (subst json_read.simps) simp

lemma json_read_plain: "c \<noteq> 34 \<Longrightarrow> c \<noteq> 92 \<Longrightarrow> json_read (c # s) = cons_read c (json_read s)"
  by (subst json_read.simps) simp

lemma json_read_escape: "d \<noteq> 117 \<Longrightarrow> json_read (92 # d # s) = cons_read (unescape d) (json_read s)"
  by (subst json_read.simps) simp

lemma json_read_unicode:
  "json_read (92 # 117 # h3 # h2 # h1 # h0 # s) =
    cons_read (4096 * hex_val h3 + 256 * hex_val h2 + 16 * hex_val h1 + hex_val h0) (json_read s)"
  by (subst json_read.simps) simp

lemma hex_val_char: "d < 16 \<Longrightarrow> hex_val (hex_char d) = d"
  by (simp add: hex_val_def hex_char_def)

lemma pad_hex_step:
  "padStart (Suc (Suc k)) 48 (to_hex n) = padStart (Suc k) 48 (to_hex (n div 16)) @ [hex_char (n mod 16)]"
proof (cases "n < 16")
  case True
  then have "to_hex n = [hex_char n]" "to_hex (n div 16) = [hex_char 0]"
    by (simp_all add: to_hex.simps [of n] to_hex.simps [of 0])
  then show ?thesis
    using True by (simp add: padStart_def hex_char_def replicate_append_same)
next
  case False
  then show ?thesis
    by (simp add: to_hex.simps [of n] padStart_def)
qed

lemma pad_hex4:
  assumes "n < 65536"
  shows "padStart 4 48 (to_hex n) =
    [hex_char (n div 4096), hex_char (n div 256 mod 16), hex_char (n div 16 mod 16), hex_char (n mod 16)]"
proof -
  have "n div 4096 < 16" using assms by simp
  then have one: "padStart (Suc 0) 48 (to_hex (n div 4096)) = [hex_char (n div 4096)]"
    by (simp add: to_hex.simps [of "n div 4096"] padStart_def)
  have d: "n div 16 div 16 = n div 256" "n div 256 div 16 = n div 4096"
    by (simp_all add: div_mult2_eq [symmetric])
  have "(4 :: nat) = Suc (Suc (Suc (Suc 0)))" by simp
  then show ?thesis
    by (simp only: pad_hex_step d one append.simps)
qed

lemma json_read_hex:
  assumes "c < 65536"
  shows "json_read (92 # 117 # padStart 4 48 (to_hex c) @ s) = cons_read c (json_read s)"
proof -
  have "c = 16 * (c div 16) + c mod 16" "c div 16 = 16 * (c div 256) + c div 16 mod 16"
    "c div 256 = 16 * (c div 4096) + c div 256 mod 16"
    using div_mult2_eq [of c 16 16] div_mult2_eq [of c 256 16] by simp_all
  then have "4096 * (c div 4096) + 256 * (c div 256 mod 16) + 16 * (c div 16 mod 16) + c mod 16 = c"
    by linarith
  moreover have "c div 4096 < 16" using assms by simp
  ultimately show ?thesis
    using assms by (simp add: pad_hex4 json_read_unicode hex_val_char)
qed

lemmas json_read_rules = json_read_quote json_read_plain json_read_escape json_read_hex

lemma cons_read_Some [simp]: "cons_read c (Some (s, r)) = Some (c # s, r)"
  by (simp add: cons_read_def)

lemma json_read_units: "json_read (json_units s @ 34 # r) = Some (s, r)"
proof (induction s rule: length_induct)
  case (1 s)
  show ?case
  proof (cases s)
    case Nil
    then show ?thesis by (simp add: json_read_quote)
  next
    case (Cons c s')
    have ih: "json_read (json_units s' @ 34 # r) = Some (s', r)"
      "s' = d # s'' \<Longrightarrow> json_read (json_units s'' @ 34 # r) = Some (s'', r)" for d s''
      using 1 Cons by auto
    define esc where "esc \<longleftrightarrow> c \<in> {34, 92, 8, 12, 10, 13, 9}"
    define hi where "hi \<longleftrightarrow> 0xd800 \<le> c \<and> c \<le> 0xdbff"
    define lo where "lo \<longleftrightarrow> 0xdc00 \<le> c \<and> c \<le> 0xdfff"
    note defs = esc_def hi_def lo_def
    consider esc | "\<not> esc" "c < 32" | hi | lo | "\<not> esc" "\<not> c < 32" "\<not> hi" "\<not> lo"
      by blast
    then show ?thesis
    proof cases
      case 1
      then show ?thesis using ih(1) unfolding Cons defs by (auto simp: json_read_rules unescape_def)
    next
      case 3
      then show ?thesis using ih unfolding Cons defs by (cases s') (simp_all add: json_read_rules)
    qed (use ih(1) in \<open>auto simp: Cons defs json_read_rules\<close>)
  qed
qed

lemma json_array3_inj:
  assumes "json_string_array [a, b, c] = json_string_array [a', b', c']"
  shows "a = a' \<and> b = b' \<and> c = c'"
proof -
  have step: "s = s' \<and> r = r'" if "json_units s @ 34 # r = json_units s' @ 34 # r'" for s s' r r'
  proof -
    have "Some (s, r) = Some (s', r')" by (metis that json_read_units)
    then show ?thesis by simp
  qed
  have "json_units a @ 34 # 44 # 34 # json_units b @ 34 # 44 # 34 # json_units c @ [34, 93] =
      json_units a' @ 34 # 44 # 34 # json_units b' @ 34 # 44 # 34 # json_units c' @ [34, 93]"
    using assms by (simp add: json_string_array_def json_quote_def)
  from step [OF this] have a: "a = a'"
    and "json_units b @ 34 # 44 # 34 # json_units c @ [34, 93] = json_units b' @ 34 # 44 # 34 # json_units c' @ [34, 93]"
    by simp_all
  from step [OF this(2)] have b: "b = b'" and "json_units c @ 34 # [93] = json_units c' @ 34 # [93]"
    by simp_all
  from step [OF this(2)] show ?thesis using a b by blast
qed

section \<open>What a text determines\<close>

text \<open>
  What is used of \<^verbatim>\<open>Number.prototype.toString\<close>: distinct numbers have distinct texts, made of digits,
  signs, the point and the exponent mark.
\<close>

definition number_char :: "nat \<Rightarrow> bool" where
  "number_char c \<longleftrightarrow> (48 \<le> c \<and> c \<le> 57) \<or> c = 43 \<or> c = 45 \<or> c = 46 \<or> c = 101"

definition number_text :: "(jsnum \<Rightarrow> jstring) \<Rightarrow> bool" where
  "number_text N \<longleftrightarrow> (\<forall>a b. N (JFin a) = N (JFin b) \<longrightarrow> a = b)
     \<and> (\<forall>a. N (JFin a) \<noteq> [] \<and> list_all number_char (N (JFin a)))"

text \<open>The values an honest writer puts into a record: strings, finite numbers, and arrays of such.\<close>

fun plain :: "jsval \<Rightarrow> bool" where
  "plain (JStr s) = True"
| "plain (JNum n) = is_finite_num n"
| "plain (JArr vs) = list_all plain vs"
| "plain _ = False"

text \<open>What may follow a value, and how the text of a value starts.\<close>

definition delimited :: "jstring \<Rightarrow> bool" where
  "delimited r \<longleftrightarrow> r = [] \<or> hd r \<in> {44, 93, 125}"

lemma delimited_Cons: "delimited (44 # r)" "delimited (93 # r)"
  by (simp_all add: delimited_def)

lemma delimited_not_number: "delimited r \<Longrightarrow> takeWhile number_char r = []"
  by (cases r) (auto simp: delimited_def number_char_def)

definition text_kind :: "jsval \<Rightarrow> nat set" where
  "text_kind v = (case v of
      JUndef \<Rightarrow> {110} | JNull \<Rightarrow> {110} | JBool b \<Rightarrow> {if b then 116 else 102}
    | JNum n \<Rightarrow> if is_finite_num n then {c. number_char c} else {110}
    | JStr s \<Rightarrow> {34} | JArr vs \<Rightarrow> {91} | JObj ps \<Rightarrow> {123})"

lemma stringify_start:
  assumes "number_text N"
  shows "\<exists>c s. json_stringify N v = c # s \<and> c \<in> text_kind v"
proof (cases v)
  case (JNum n)
  show ?thesis
  proof (cases n)
    case (JFin a)
    have "N (JFin a) \<noteq> []" "list_all number_char (N (JFin a))" using assms by (simp_all add: number_text_def)
    then show ?thesis
      using JFin JNum by (cases "N (JFin a)") (auto simp: text_kind_def)
  qed (simp_all add: JNum text_kind_def js_def of_char_def)
qed (simp_all add: text_kind_def js_def json_quote_def of_char_def)

lemma stringify_kind:
  assumes "number_text N" and "json_stringify N v @ r = json_stringify N v' @ r'"
  shows "text_kind v \<inter> text_kind v' \<noteq> {}"
  using stringify_start [OF assms(1), of v] stringify_start [OF assms(1), of v'] assms(2) by fastforce

lemma stringify_not_delimited: "number_text N \<Longrightarrow> json_stringify N v @ r \<noteq> 93 # r'"
  using stringify_start [of N v] by (auto simp: text_kind_def number_char_def split: jsval.splits if_splits)

lemma quote_prefix:
  assumes "json_quote s @ r = json_quote s' @ r'"
  shows "s = s' \<and> r = r'"
proof -
  have "json_units s @ 34 # r = json_units s' @ 34 # r'" using assms by (simp add: json_quote_def)
  then have "json_read (json_units s @ 34 # r) = json_read (json_units s' @ 34 # r')" by (rule arg_cong)
  then show ?thesis by (simp add: json_read_units)
qed

lemma number_prefix:
  assumes "number_text N" "N (JFin a) @ r = N (JFin b) @ r'" "delimited r" "delimited r'"
  shows "a = b \<and> r = r'"
proof -
  have "takeWhile number_char (N (JFin q) @ x) = N (JFin q)" if "delimited x" for q x
    using assms(1) delimited_not_number [OF that]
    by (subst takeWhile_append2) (auto simp: number_text_def list_all_iff)
  then have "N (JFin a) = N (JFin b)" using assms by metis
  then show ?thesis using assms by (auto simp: number_text_def)
qed

lemma js_join_Cons: "js_join c (x # xs) = x @ (if xs = [] then [] else c # js_join c xs)"
  by (cases xs) simp_all

lemma stringify_list_prefix:
  assumes N: "number_text N"
    and ih: "\<And>v v' r r'. v \<in> set vs \<Longrightarrow> delimited r \<Longrightarrow> delimited r' \<Longrightarrow>
      json_stringify N v @ r = json_stringify N v' @ r' \<Longrightarrow> v = v' \<and> r = r'"
    and eq: "js_join 44 (map (json_stringify N) vs) @ 93 # r = js_join 44 (map (json_stringify N) vs') @ 93 # r'"
  shows "vs = vs' \<and> r = r'"
  using ih eq
proof (induction vs arbitrary: vs')
  case Nil
  then show ?case
    using stringify_not_delimited [OF N] by (cases vs') (auto simp: js_join_Cons dest: sym)
next
  case (Cons v vs)
  obtain v' ws where vs': "vs' = v' # ws"
    using Cons.prems(2) stringify_not_delimited [OF N] by (cases vs') (auto simp: js_join_Cons)
  let ?rest = "\<lambda>us x. if us = [] then 93 # x else 44 # js_join 44 (map (json_stringify N) us) @ 93 # x"
  have "json_stringify N v @ ?rest vs r = json_stringify N v' @ ?rest ws r'"
    using Cons.prems(2) vs' by (auto simp: js_join_Cons)
  then have step: "v = v'" "?rest vs r = ?rest ws r'"
    using Cons.prems(1) [of v "?rest vs r" "?rest ws r'" v'] delimited_Cons by auto
  show ?case
  proof (cases "vs = [] \<or> ws = []")
    case True
    then show ?thesis using step vs' by (cases "vs = []"; cases "ws = []") simp_all
  next
    case False
    then have "js_join 44 (map (json_stringify N) vs) @ 93 # r = js_join 44 (map (json_stringify N) ws) @ 93 # r'"
      using step(2) by simp
    then have "vs = ws \<and> r = r'"
      by (rule Cons.IH [rotated]) (rule Cons.prems(1), simp_all)
    then show ?thesis using step(1) vs' by simp
  qed
qed

lemma stringify_prefix:
  assumes N: "number_text N"
  shows "plain v \<Longrightarrow> delimited r \<Longrightarrow> delimited r' \<Longrightarrow> json_stringify N v @ r = json_stringify N v' @ r' \<Longrightarrow> v = v' \<and> r = r'"
proof (induction v arbitrary: v' r r')
  case (JStr s)
  then obtain s' where "v' = JStr s'"
    using stringify_kind [OF N JStr.prems(4)]
    by (auto simp: text_kind_def number_char_def split: jsval.splits if_splits)
  then show ?case using JStr.prems quote_prefix [of s r s' r'] by simp
next
  case (JNum n)
  then obtain a where n: "n = JFin a" by (cases n) auto
  obtain b where "v' = JNum (JFin b)"
    using stringify_kind [OF N JNum.prems(4)] n
    by (auto simp: text_kind_def number_char_def split: jsval.splits if_splits elim: is_finite_num.elims)
  then show ?case using JNum.prems n number_prefix [OF N, of a r b r'] by simp
next
  case (JArr vs)
  then obtain vs' where v': "v' = JArr vs'"
    using stringify_kind [OF N JArr.prems(4)]
    by (auto simp: text_kind_def number_char_def split: jsval.splits if_splits)
  have "vs = vs' \<and> r = r'"
  proof (rule stringify_list_prefix [OF N])
    show "js_join 44 (map (json_stringify N) vs) @ 93 # r = js_join 44 (map (json_stringify N) vs') @ 93 # r'"
      using JArr.prems(4) v' by simp
  qed (use JArr.IH JArr.prems(1) in \<open>auto simp: list_all_iff\<close>)
  then show ?case using v' by simp
qed simp_all

lemma stringify_array_inj:
  assumes "number_text N" "list_all plain vs" "json_stringify N (JArr vs) = json_stringify N (JArr vs')"
  shows "vs = vs'"
  using stringify_prefix [OF assms(1), of "JArr vs" "[]" "[]" "JArr vs'"] assms(2,3)
  by (simp add: delimited_def)

end
