(* ===== verification/Approval_Bridge.thy ===== *)
theory Approval_Bridge
  imports Policy_Store Json_Text "HOL-Library.Multiset"
begin

text \<open>
  The approval bridge of the sidecar (\<^verbatim>\<open>apps/sidecar/src/approval-bridge.ts\<close>): which tool
  calls need a human, the pending requests, the session and persistent allow-lists, and the live
  policy.

  The command classifiers of \<^verbatim>\<open>normalize.ts\<close>, the redactor, the general
  \<^verbatim>\<open>JSON.stringify\<close>, the SHA-256 of \<^verbatim>\<open>node:crypto\<close> and the random UUIDs are the fields of the
  record \<open>classifiers\<close>. A promise that settles is an output of the operation that settles it. What
  \<^verbatim>\<open>requestApproval\<close> awaits (the repository of the working directory) and the clock are
  arguments of its continuations, and how a disk write ends is an argument of the operations that write.
  \<^verbatim>\<open>requestApproval\<close> is cut at its two awaits: between them other operations may run, and a
  suspended call is kept in \<open>br_flights\<close>. The promise of a call is its ticket; the timers that are
  armed are kept in \<open>br_timers\<close> with the ticket and the request id their closure holds.
\<close>

section \<open>Data\<close>

datatype RiskLevel = Risk_low | Risk_medium | Risk_high

datatype ToolKind = Kind_bash | Kind_edit | Kind_mcp | Kind_websearch | Kind_other

datatype ApprovalDecision = Dec_allow | Dec_allow_for_session | Dec_deny | Dec_cancel

datatype ResolutionOrigin =
  Org_operator | Org_timeout | Org_policy | Org_shutdown | Org_child_exit | Org_relay_lost

datatype ApprovalTrigger = Trig_destructive | Trig_secret | Trig_both

datatype Behavior = Allow | Deny | Defer

record classifiers =
  cl_commandRisk :: "jstring \<Rightarrow> RiskLevel"
  cl_commandCategories :: "jstring \<Rightarrow> PolicyCategory set"
  cl_networkEgress :: "jstring \<Rightarrow> bool"
  cl_persistDenied :: "jstring \<Rightarrow> bool"
  cl_redactString :: "jstring \<Rightarrow> jstring"
  cl_markerKinds :: "jstring \<Rightarrow> jstring list"
  cl_stringify :: "jsval \<Rightarrow> jstring option"
  cl_sha256 :: "jstring \<Rightarrow> jstring"
  cl_uuid :: "nat \<Rightarrow> jstring"

record HookCommonInput =
  hi_session_id :: jstring
  hi_cwd :: "jstring option"
  hi_permission_mode :: "jstring option"
  hi_hook_event_name :: jstring
  hi_tool_name :: jsval
  hi_tool_input :: jsval

record ApprovalResult =
  ar_behavior :: Behavior
  ar_reason :: "jstring option"
  ar_decision :: "ApprovalDecision option"
  ar_autoAllowed :: bool
  ar_persistGrant :: bool
  ar_origin :: "ResolutionOrigin option"

record GuardReason =
  gr_trigger :: ApprovalTrigger
  gr_secretKinds :: "jstring list"
  gr_persistable :: bool

record GateDecision =
  gd_gated :: bool
  gd_trigger :: "ApprovalTrigger option"
  gd_secretKinds :: "jstring list"

record Pending =
  pend_ticket :: nat
  pend_signature :: jstring
  pend_cacheable :: bool
  pend_persistable :: bool
  pend_repoScope :: "jstring option"
  pend_repoLabel :: "jstring option"

record PersistConfig =
  ps_enabled :: bool
  ps_ttlMs :: rat

datatype Flight =
    Await_policy HookCommonInput
  | Await_persist HookCommonInput ApprovalTrigger "jstring list" jstring

datatype Disk = Disk_ok | Disk_throws | Disk_written_throws

record ApprovalBridge =
  br_flights :: "(nat \<times> Flight) list"
  br_timers :: "(nat \<times> jstring) list"
  br_pending :: "(jstring \<times> Pending) list"
  br_timeoutMs :: rat
  br_sessionAllow :: "jstring set"
  br_persist :: "PersistConfig option"
  br_store :: json_file
  br_policyDefault :: "ApprovalPolicyConfig option"
  br_policyRepos :: "(jstring \<times> RepoPolicyEntry) list"
  br_policyEnvEnabled :: bool
  br_persistPolicy :: bool
  br_policyFile :: json_file
  br_hasResolver :: bool
  br_persistFailures :: nat
  br_unstableMints :: nat
  br_minted :: nat

definition simple_result :: "Behavior \<Rightarrow> string \<Rightarrow> ApprovalResult" where
  "simple_result b r = \<lparr>ar_behavior = b, ar_reason = Some (js r), ar_decision = None,
     ar_autoAllowed = False, ar_persistGrant = False, ar_origin = None\<rparr>"

section \<open>Classification of a tool call\<close>

definition classifyTool :: "jstring \<Rightarrow> ToolKind" where
  "classifyTool toolName =
    (if toolName = js ''Bash'' \<or> toolName = js ''BashOutput'' then Kind_bash
     else if toolName = js ''Edit'' \<or> toolName = js ''Write'' \<or> toolName = js ''MultiEdit''
        \<or> toolName = js ''NotebookEdit'' then Kind_edit
     else if js_starts_with toolName (js ''mcp__'') then Kind_mcp
     else if toolName = js ''WebSearch'' \<or> toolName = js ''WebFetch'' then Kind_websearch
     else Kind_other)"

text \<open>\<^verbatim>\<open>SECRET_FILE_PATH_RE\<close>: a case-insensitive search for any of these literals.\<close>

definition ascii_lower :: "nat \<Rightarrow> nat" where
  "ascii_lower c = (if 65 \<le> c \<and> c \<le> 90 then c + 32 else c)"

fun js_includes :: "jstring \<Rightarrow> jstring \<Rightarrow> bool" where
  "js_includes [] p = (p = [])"
| "js_includes (c # s) p = (js_starts_with (c # s) p \<or> js_includes s p)"

definition SECRET_FILE_PATH_RE :: "jstring \<Rightarrow> bool" where
  "SECRET_FILE_PATH_RE s =
    list_ex (\<lambda>p. js_includes (map ascii_lower s) (js p))
      [''.env'', ''secret'', ''credential'', ''.pem'', ''.key'', ''.p12'', ''.pfx'', ''.jks'',
       ''id_rsa'', ''id_ed25519'', ''id_ecdsa'', ''id_dsa'', ''.pgpass'', ''.netrc'', ''.npmrc'',
       ''kubeconfig'']"

definition tool_name :: "HookCommonInput \<Rightarrow> jstring" where
  "tool_name i = (case js_string (hi_tool_name i) of Some s \<Rightarrow> s | None \<Rightarrow> [])"

definition input_string :: "HookCommonInput \<Rightarrow> string \<Rightarrow> jstring option" where
  "input_string i k = js_string (js_get (hi_tool_input i) (js k))"

text \<open>\<^verbatim>\<open>input.tool_input ?? null\<close>.\<close>

definition input_or_null :: "HookCommonInput \<Rightarrow> jsval" where
  "input_or_null i = (if hi_tool_input i = JUndef then JNull else hi_tool_input i)"

definition requiresDestructiveApproval :: "classifiers \<Rightarrow> HookCommonInput \<Rightarrow> bool" where
  "requiresDestructiveApproval C i =
    (let toolName = tool_name i; kind = classifyTool toolName in
     case (kind, input_string i ''command'', input_string i ''file_path'') of
       (Kind_bash, Some command, _) \<Rightarrow> cl_commandRisk C command \<noteq> Risk_low
     | (Kind_edit, _, Some file_path) \<Rightarrow> SECRET_FILE_PATH_RE file_path
     | (Kind_mcp, _, _) \<Rightarrow> True
     | (Kind_websearch, _, _) \<Rightarrow> toolName = js ''WebFetch''
     | _ \<Rightarrow> False)"

definition scanned_fields :: "classifiers \<Rightarrow> HookCommonInput \<Rightarrow> jstring list" where
  "scanned_fields C i =
    (case classifyTool (tool_name i) of
       Kind_bash \<Rightarrow> somes [input_string i ''command'']
     | Kind_edit \<Rightarrow> somes (map (input_string i) [''content'', ''new_string'', ''new_str'', ''file_path''])
     | Kind_mcp \<Rightarrow> somes [cl_stringify C (input_or_null i)]
     | _ \<Rightarrow> [])"

definition secret_field :: "classifiers \<Rightarrow> jstring \<Rightarrow> bool" where
  "secret_field C f \<longleftrightarrow> f \<noteq> [] \<and> cl_redactString C f \<noteq> f"

definition detectSecretInInput :: "classifiers \<Rightarrow> HookCommonInput \<Rightarrow> bool \<times> jstring list" where
  "detectSecretInInput C i =
    (let hits = filter (secret_field C) (scanned_fields C i)
     in (hits \<noteq> [],
         foldl (\<lambda>ks f. foldl (\<lambda>ks k. if isKnownRedactionKind k \<and> k \<notin> set ks then ks @ [k] else ks) ks
                  (cl_markerKinds C (cl_redactString C f))) [] hits))"

definition requiresHumanApproval :: "classifiers \<Rightarrow> HookCommonInput \<Rightarrow> GateDecision" where
  "requiresHumanApproval C i =
    (let destructive = requiresDestructiveApproval C i; (secret, kinds) = detectSecretInInput C i in
     if \<not> destructive \<and> \<not> secret then \<lparr>gd_gated = False, gd_trigger = None, gd_secretKinds = []\<rparr>
     else \<lparr>gd_gated = True,
           gd_trigger = Some (if destructive \<and> secret then Trig_both
                              else if secret then Trig_secret else Trig_destructive),
           gd_secretKinds = (if secret then kinds else [])\<rparr>)"

definition gatePermissionRequest :: "classifiers \<Rightarrow> HookCommonInput \<Rightarrow> GateDecision" where
  "gatePermissionRequest C i =
    (let (secret, kinds) = detectSecretInInput C i in
     \<lparr>gd_gated = True, gd_trigger = Some (if secret then Trig_both else Trig_destructive),
      gd_secretKinds = (if secret then kinds else [])\<rparr>)"

definition opCategories :: "classifiers \<Rightarrow> HookCommonInput \<Rightarrow> PolicyCategory set" where
  "opCategories C i =
    (let toolName = tool_name i; kind = classifyTool toolName in
     case (kind, input_string i ''command'', input_string i ''file_path'') of
       (Kind_bash, Some command, _) \<Rightarrow>
         cl_commandCategories C command
         \<union> (if cl_networkEgress C command \<and> fst (detectSecretInInput C i) then {PC_secret_egress} else {})
     | (Kind_edit, _, Some file_path) \<Rightarrow>
         (if SECRET_FILE_PATH_RE file_path then {PC_secret_file_edit} else {})
     | (Kind_mcp, _, _) \<Rightarrow> {PC_external_tool}
     | (Kind_websearch, _, _) \<Rightarrow> (if toolName = js ''WebFetch'' then {PC_external_tool} else {})
     | _ \<Rightarrow> {})"

definition matchedPolicyCategories :: "classifiers \<Rightarrow> HookCommonInput \<Rightarrow> PolicyCategory set \<Rightarrow> PolicyCategory set" where
  "matchedPolicyCategories C i enabled = {c \<in> opCategories C i. c \<in> enabled}"

definition policyGateDecision :: "classifiers \<Rightarrow> PolicyCategory set \<Rightarrow> HookCommonInput \<Rightarrow> GateDecision" where
  "policyGateDecision C matched i =
    (let secretInvolved = (PC_secret_egress \<in> matched \<or> PC_secret_file_edit \<in> matched);
         destructiveInvolved = (\<exists>c \<in> matched. c \<noteq> PC_secret_egress \<and> c \<noteq> PC_secret_file_edit);
         kinds = (if secretInvolved then snd (detectSecretInInput C i) else [])
     in \<lparr>gd_gated = True,
         gd_trigger = Some (if secretInvolved \<and> destructiveInvolved then Trig_both
                            else if secretInvolved then Trig_secret else Trig_destructive),
         gd_secretKinds = (if secretInvolved then kinds else [])\<rparr>)"

section \<open>Signatures\<close>

definition encodeOperationSignature :: "classifiers \<Rightarrow> jstring \<Rightarrow> jstring \<Rightarrow> jstring \<Rightarrow> jstring" where
  "encodeOperationSignature C kind risk operand = cl_sha256 C (json_string_array [kind, risk, operand])"

fun kind_str :: "ToolKind \<Rightarrow> string" where
  "kind_str Kind_bash = ''bash''"
| "kind_str Kind_edit = ''edit''"
| "kind_str Kind_mcp = ''mcp''"
| "kind_str Kind_websearch = ''websearch''"
| "kind_str Kind_other = ''other''"

fun risk_str :: "RiskLevel \<Rightarrow> string" where
  "risk_str Risk_low = ''low''"
| "risk_str Risk_medium = ''medium''"
| "risk_str Risk_high = ''high''"

text \<open>The kind, the risk and the operand that identify an operation.\<close>

definition operation_key :: "classifiers \<Rightarrow> HookCommonInput \<Rightarrow> jstring \<times> jstring \<times> jstring" where
  "operation_key C i =
    (let toolName = tool_name i; kind = classifyTool toolName;
         whole = toolName @ [0] @ (case cl_stringify C (input_or_null i) of
                   Some inputJson \<Rightarrow> inputJson | None \<Rightarrow> js ''<unserializable>'') in
     (js (kind_str kind),
      case (kind, input_string i ''command'', input_string i ''file_path'') of
        (Kind_bash, Some command, _) \<Rightarrow> (js (risk_str (cl_commandRisk C command)), command)
      | (Kind_edit, _, Some file_path) \<Rightarrow> (js ''n/a'', file_path)
      | _ \<Rightarrow> (js ''n/a'', whole)))"

definition computeSignature :: "classifiers \<Rightarrow> HookCommonInput \<Rightarrow> jstring" where
  "computeSignature C i =
    (case operation_key C i of (kind, risk, operand) \<Rightarrow> encodeOperationSignature C kind risk operand)"

definition isPersistableBash :: "classifiers \<Rightarrow> HookCommonInput \<Rightarrow> bool" where
  "isPersistableBash C i =
    (classifyTool (tool_name i) = Kind_bash
     \<and> (case input_string i ''command'' of
          None \<Rightarrow> False
        | Some command \<Rightarrow> cl_commandRisk C command = Risk_medium \<and> \<not> cl_persistDenied C command))"

section \<open>The live policy\<close>

definition deriveLivePolicy :: "ApprovalBridge \<Rightarrow> ApprovalPolicyConfig \<Rightarrow> ApprovalPolicyConfig" where
  "deriveLivePolicy b file =
    \<lparr>pol_enabled = (pol_enabled file \<and> br_policyEnvEnabled b), pol_categories = pol_categories file\<rparr>"

definition effectiveLivePolicy :: "ApprovalBridge \<Rightarrow> jstring option \<Rightarrow> ApprovalPolicyConfig option" where
  "effectiveLivePolicy b scope =
    (case br_policyDefault b of
       None \<Rightarrow> None
     | Some def \<Rightarrow>
         Some (deriveLivePolicy b
           (case Option.bind scope (map_of (br_policyRepos b)) of
              Some e \<Rightarrow> \<lparr>pol_enabled = pol_enabled e, pol_categories = pol_categories e\<rparr>
            | None \<Rightarrow> def)))"

section \<open>Requests\<close>

text \<open>
  \<^verbatim>\<open>nextRequestId\<close>: up to eight further draws while the redactor would change the identifier,
  counting every unstable draw. \<open>br_minted\<close> counts the draws of the process, so that the UUIDs
  are a stream.
\<close>

definition mint :: "classifiers \<Rightarrow> ApprovalBridge \<Rightarrow> jstring \<Rightarrow> jstring \<times> ApprovalBridge" where
  "mint C b sid = (mintApprovalRequestId (cl_uuid C (br_minted b)) sid, b\<lparr>br_minted := br_minted b + 1\<rparr>)"

fun reroll :: "classifiers \<Rightarrow> jstring \<Rightarrow> nat \<Rightarrow> jstring \<Rightarrow> ApprovalBridge \<Rightarrow> jstring \<times> ApprovalBridge" where
  "reroll C sid 0 rid b = (rid, b)"
| "reroll C sid (Suc n) rid b =
    (if cl_redactString C rid = rid then (rid, b)
     else (case mint C (b\<lparr>br_unstableMints := br_unstableMints b + 1\<rparr>) sid of
             (rid', b') \<Rightarrow> reroll C sid n rid' b'))"

definition nextRequestId :: "classifiers \<Rightarrow> ApprovalBridge \<Rightarrow> jstring \<Rightarrow> jstring \<times> ApprovalBridge" where
  "nextRequestId C b sid =
    (case mint C b sid of (rid, b1) \<Rightarrow>
       (case reroll C sid 8 rid b1 of (rid', b2) \<Rightarrow>
          (rid', if cl_redactString C rid' \<noteq> rid' then b2\<lparr>br_unstableMints := br_unstableMints b2 + 1\<rparr>
                 else b2)))"

datatype Outcome = Settled ApprovalResult | Emitted jstring GuardReason | Suspended

text \<open>The end of \<^verbatim>\<open>requestApproval\<close>: emit the request, arm the timer, register the pending entry.\<close>

definition open_request ::
  "classifiers \<Rightarrow> ApprovalBridge \<Rightarrow> nat \<Rightarrow> HookCommonInput \<Rightarrow> ApprovalTrigger \<Rightarrow> jstring list \<Rightarrow> jstring
    \<Rightarrow> bool \<Rightarrow> (jstring \<times> jstring option) option \<Rightarrow> Outcome \<times> ApprovalBridge" where
  "open_request C b t i trigger kinds sig cacheable scope =
    (case nextRequestId C b (hi_session_id i) of (rid, b') \<Rightarrow>
       (Emitted rid \<lparr>gr_trigger = trigger, gr_secretKinds = kinds, gr_persistable = (scope \<noteq> None)\<rparr>,
        b'\<lparr>br_timers := (t, rid) # br_timers b',
           br_pending := AList.update rid
             \<lparr>pend_ticket = t, pend_signature = sig, pend_cacheable = cacheable,
              pend_persistable = (scope \<noteq> None), pend_repoScope = map_option fst scope,
              pend_repoLabel = Option.bind scope snd\<rparr> (br_pending b')\<rparr>))"

definition secret_triggered :: "ApprovalTrigger \<Rightarrow> bool" where
  "secret_triggered trigger \<longleftrightarrow> trigger = Trig_secret \<or> trigger = Trig_both"

definition persist_enabled :: "ApprovalBridge \<Rightarrow> bool" where
  "persist_enabled b = (case br_persist b of Some p \<Rightarrow> ps_enabled p | None \<Rightarrow> False)"

definition request_gate ::
  "classifiers \<Rightarrow> ApprovalBridge \<Rightarrow> nat \<Rightarrow> HookCommonInput \<Rightarrow> GateDecision option \<Rightarrow> Outcome \<times> ApprovalBridge" where
  "request_gate C b t i bypassPolicyGate =
    (let gate = (case bypassPolicyGate of
                   Some g \<Rightarrow> g
                 | None \<Rightarrow> if hi_hook_event_name i = js ''PermissionRequest'' then gatePermissionRequest C i
                           else requiresHumanApproval C i)
     in if \<not> gd_gated gate then
          (Settled (simple_result Defer ''not gated; defer to normal permission flow''), b)
        else
          (let trigger = (case gd_trigger gate of Some tr \<Rightarrow> tr | None \<Rightarrow> Trig_destructive);
               secretTriggered = secret_triggered trigger;
               sig = computeSignature C i
           in if bypassPolicyGate = None \<and> \<not> secretTriggered \<and> sig \<in> br_sessionAllow b then
                (Settled ((simple_result Allow
                   ''allow_for_session: matching signature previously approved this session'')
                   \<lparr>ar_autoAllowed := True\<rparr>), b)
              else if bypassPolicyGate = None \<and> persist_enabled b \<and> \<not> secretTriggered
                 \<and> hi_hook_event_name i = js ''PreToolUse'' \<and> isPersistableBash C i then
                (Suspended, b\<lparr>br_flights := (t, Await_persist i trigger (gd_secretKinds gate) sig) # br_flights b\<rparr>)
              else open_request C b t i trigger (gd_secretKinds gate) sig
                     (bypassPolicyGate = None \<and> \<not> secretTriggered) None))"

text \<open>After the first await: the effective policy of the operation decides.\<close>

definition request_policy ::
  "classifiers \<Rightarrow> ApprovalBridge \<Rightarrow> nat \<Rightarrow> HookCommonInput \<Rightarrow> jstring option \<Rightarrow> Outcome \<times> ApprovalBridge" where
  "request_policy C b t i scope =
    (case effectiveLivePolicy b scope of
       None \<Rightarrow> (Settled (simple_result Defer ''bypassPermissions: user opted out of approval gating''), b)
     | Some live \<Rightarrow>
         if \<not> pol_enabled live then
           (Settled (simple_result Defer ''bypassPermissions: user opted out of approval gating''), b)
         else
           (let matched = matchedPolicyCategories C i (pol_categories live) in
            if matched = {} then
              (Settled (simple_result Defer ''bypassPermissions: no policy-gated category matched''), b)
            else request_gate C b t i (Some (policyGateDecision C matched i))))"

text \<open>After the second await: the persistent allow-list. A grant that was awaited is never secret-triggered.\<close>

definition request_persist ::
  "classifiers \<Rightarrow> ApprovalBridge \<Rightarrow> nat \<Rightarrow> HookCommonInput \<Rightarrow> ApprovalTrigger \<Rightarrow> jstring list \<Rightarrow> jstring
    \<Rightarrow> (jstring \<times> jstring option) option \<Rightarrow> rat \<Rightarrow> Outcome \<times> ApprovalBridge" where
  "request_persist C b t i trigger kinds sig resolved now =
    (case resolved of
       Some (scope, label) \<Rightarrow>
         if store_has (br_store b) sig scope now then
           (Settled ((simple_result Allow
              ''persistent allowlist: matching signature previously persisted for this repo'')
              \<lparr>ar_autoAllowed := True, ar_persistGrant := True\<rparr>), b)
         else open_request C b t i trigger kinds sig True resolved
     | None \<Rightarrow> open_request C b t i trigger kinds sig True None)"

text \<open>\<^verbatim>\<open>requestApproval\<close> up to its first await, and its two continuations.\<close>

definition requestApproval ::
  "classifiers \<Rightarrow> ApprovalBridge \<Rightarrow> nat \<Rightarrow> HookCommonInput \<Rightarrow> Outcome \<times> ApprovalBridge" where
  "requestApproval C b t i =
    (if isBypassPermissionMode (hi_permission_mode i) then
       if br_policyRepos b \<noteq> [] \<and> br_hasResolver b then
         (Suspended, b\<lparr>br_flights := (t, Await_policy i) # br_flights b\<rparr>)
       else request_policy C b t i None
     else request_gate C b t i None)"

definition land :: "ApprovalBridge \<Rightarrow> nat \<Rightarrow> ApprovalBridge" where
  "land b t = b\<lparr>br_flights := AList.delete t (br_flights b)\<rparr>"

definition requestApproval_resume ::
  "classifiers \<Rightarrow> ApprovalBridge \<Rightarrow> nat \<Rightarrow> (jstring \<times> jstring option) option \<Rightarrow> rat
    \<Rightarrow> (Outcome \<times> ApprovalBridge) option" where
  "requestApproval_resume C b t resolved now =
    (case map_of (br_flights b) t of
       None \<Rightarrow> None
     | Some (Await_policy i) \<Rightarrow> Some (request_policy C (land b t) t i (map_option fst resolved))
     | Some (Await_persist i trigger kinds sig) \<Rightarrow>
         Some (request_persist C (land b t) t i trigger kinds sig resolved now))"

section \<open>Resolution\<close>

text \<open>
  \<^verbatim>\<open>safePersist\<close>: a disk effect whose exceptions are counted and absorbed. A write is a
  temporary file and a rename, so an exception leaves the old content, or the new one when what
  throws comes after the rename.
\<close>

definition disk_effect :: "Disk \<Rightarrow> 'f \<Rightarrow> 'f \<Rightarrow> 'f" where
  "disk_effect d old new = (if d = Disk_throws then old else new)"

definition safePersist :: "Disk \<Rightarrow> ApprovalBridge \<Rightarrow> bool \<times> ApprovalBridge" where
  "safePersist d b =
    (if d = Disk_ok then (True, b) else (False, b\<lparr>br_persistFailures := br_persistFailures b + 1\<rparr>))"

definition clear_timer :: "ApprovalBridge \<Rightarrow> nat \<Rightarrow> ApprovalBridge" where
  "clear_timer b t = b\<lparr>br_timers := AList.delete t (br_timers b)\<rparr>"

definition take_pending :: "ApprovalBridge \<Rightarrow> jstring \<Rightarrow> Pending \<Rightarrow> ApprovalBridge" where
  "take_pending b rid p = (clear_timer b (pend_ticket p))\<lparr>br_pending := AList.delete rid (br_pending b)\<rparr>"

definition persist_grant :: "ApprovalBridge \<Rightarrow> Pending \<Rightarrow> rat \<Rightarrow> Disk \<Rightarrow> ApprovalBridge" where
  "persist_grant b p now d =
    (case (br_persist b, pend_repoScope p) of
       (Some ps, Some scope) \<Rightarrow>
         if pend_persistable p \<and> ps_enabled ps then
           snd (safePersist d (b\<lparr>br_store := disk_effect d (br_store b) (store_add (br_store b)
             \<lparr>in_signature = pend_signature p, in_repoScope = scope, in_repoLabel = pend_repoLabel p,
              in_risk = js ''medium'', in_ttlMs = ps_ttlMs ps, in_now = now\<rparr>)\<rparr>))
         else b
     | _ \<Rightarrow> b)"

definition resolve ::
  "ApprovalBridge \<Rightarrow> jstring \<Rightarrow> ApprovalDecision \<Rightarrow> jstring option \<Rightarrow> bool \<Rightarrow> rat \<Rightarrow> Disk
    \<Rightarrow> (nat \<times> ApprovalResult) option \<times> ApprovalBridge" where
  "resolve b rid decision reason persist now d =
    (case map_of (br_pending b) rid of
       None \<Rightarrow> (None, b)
     | Some p \<Rightarrow>
         (let b1 = take_pending b rid p;
              behavior = (if decision = Dec_allow \<or> decision = Dec_allow_for_session then Allow else Deny);
              b2 = (if decision = Dec_allow_for_session \<and> pend_cacheable p then
                      (let b3 = b1\<lparr>br_sessionAllow := insert (pend_signature p) (br_sessionAllow b1)\<rparr>
                       in if persist then persist_grant b3 p now d else b3)
                    else b1)
          in (Some (pend_ticket p, \<lparr>ar_behavior = behavior, ar_reason = reason, ar_decision = Some decision,
                ar_autoAllowed = False, ar_persistGrant = False, ar_origin = Some Org_operator\<rparr>), b2)))"

definition deny_result :: "ResolutionOrigin \<Rightarrow> jstring option \<Rightarrow> ApprovalResult" where
  "deny_result org reason = \<lparr>ar_behavior = Deny, ar_reason = reason, ar_decision = None,
     ar_autoAllowed = False, ar_persistGrant = False, ar_origin = Some org\<rparr>"

definition cancelPending ::
  "ApprovalBridge \<Rightarrow> jstring \<Rightarrow> ResolutionOrigin \<Rightarrow> jstring option \<Rightarrow> (nat \<times> ApprovalResult) option \<times> ApprovalBridge" where
  "cancelPending b rid org reason =
    (case map_of (br_pending b) rid of
       None \<Rightarrow> (None, b)
     | Some p \<Rightarrow> (Some (pend_ticket p, deny_result org reason), take_pending b rid p))"

text \<open>The callback of the timer a request armed.\<close>

definition timeout_fires :: "ApprovalBridge \<Rightarrow> nat \<Rightarrow> (nat \<times> ApprovalResult) option \<times> ApprovalBridge" where
  "timeout_fires b t =
    (case map_of (br_timers b) t of
       None \<Rightarrow> (None, b)
     | Some rid \<Rightarrow>
         (Some (t, deny_result Org_timeout (Some (js ''approval timeout (safe default: deny)''))),
          (clear_timer b t)\<lparr>br_pending := AList.delete rid (br_pending b)\<rparr>))"

definition drain :: "ApprovalBridge \<Rightarrow> (nat \<times> ApprovalResult) list \<times> ApprovalBridge" where
  "drain b =
    (map (\<lambda>(rid, p). (pend_ticket p, deny_result Org_shutdown (Some (js ''sidecar shutdown (safe default: deny)''))))
       (br_pending b),
     (foldl clear_timer b (map (\<lambda>(rid, p). pend_ticket p) (br_pending b)))\<lparr>br_pending := [], br_sessionAllow := {}\<rparr>)"

definition pendingRequestIds :: "ApprovalBridge \<Rightarrow> jstring list" where
  "pendingRequestIds b = map fst (br_pending b)"

section \<open>Administration\<close>

definition listPersistedApprovals :: "ApprovalBridge \<Rightarrow> rat \<Rightarrow> PersistedApproval list" where
  "listPersistedApprovals b now = (case br_persist b of None \<Rightarrow> [] | Some _ \<Rightarrow> store_list (br_store b) now)"

text \<open>An exception of the store leaves the count at 0, also when the file was already rewritten.\<close>

definition revokePersistedApproval ::
  "ApprovalBridge \<Rightarrow> jstring \<Rightarrow> jstring option \<Rightarrow> Disk \<Rightarrow> nat \<times> ApprovalBridge" where
  "revokePersistedApproval b sig scope d =
    (case br_persist b of
       None \<Rightarrow> (0, b)
     | Some _ \<Rightarrow>
         (let (n, f) = store_revoke (br_store b) sig scope;
              (ok, b') = safePersist d (b\<lparr>br_store := disk_effect d (br_store b) f\<rparr>)
          in (if ok then n else 0, b')))"

record PolicyConfigView =
  pv_enabled :: bool
  pv_categories :: "PolicyCategory set"
  pv_envGateEnabled :: bool
  pv_repoScope :: "jstring option"
  pv_repoLabel :: "jstring option"
  pv_isOverride :: "bool option"
  pv_persistError :: bool

definition getPolicyConfig :: "ApprovalBridge \<Rightarrow> jstring option \<Rightarrow> PolicyConfigView" where
  "getPolicyConfig b repoScope =
    (let inherited = \<lparr>pv_enabled = (case br_policyDefault b of Some c \<Rightarrow> pol_enabled c | None \<Rightarrow> False),
           pv_categories = (case br_policyDefault b of Some c \<Rightarrow> pol_categories c | None \<Rightarrow> {}),
           pv_envGateEnabled = br_policyEnvEnabled b, pv_repoScope = repoScope, pv_repoLabel = None,
           pv_isOverride = None, pv_persistError = False\<rparr>
     in case repoScope of
          None \<Rightarrow> inherited
        | Some scope \<Rightarrow>
            (case map_of (br_policyRepos b) scope of
               Some e \<Rightarrow> inherited\<lparr>pv_enabled := pol_enabled e, pv_categories := pol_categories e,
                           pv_repoLabel := pol_label e, pv_isOverride := Some True\<rparr>
             | None \<Rightarrow> inherited\<lparr>pv_isOverride := Some False\<rparr>))"

record resolved_repo =
  rr_scope :: jstring
  rr_label :: "jstring option"
  rr_root :: "jstring option"

definition getPolicyConfigForPath ::
  "ApprovalBridge \<Rightarrow> resolved_repo option \<Rightarrow> jstring list \<Rightarrow> PolicyConfigView option" where
  "getPolicyConfigForPath b resolved scope =
    (if \<not> br_hasResolver b then None
     else case resolved of
       None \<Rightarrow> None
     | Some r \<Rightarrow>
         if scope \<noteq> [] \<and> \<not> isPathWithinScope (case rr_root r of Some p \<Rightarrow> JStr p | None \<Rightarrow> JUndef) scope then None
         else (let view = getPolicyConfig b (Some (rr_scope r)) in
               if rr_label r \<noteq> None \<and> pv_repoLabel view = None then Some (view\<lparr>pv_repoLabel := rr_label r\<rparr>)
               else Some view))"

definition persistDelta :: "ApprovalBridge \<Rightarrow> PolicyDelta \<Rightarrow> Disk \<Rightarrow> bool \<times> ApprovalBridge" where
  "persistDelta b delta d =
    (if br_persistPolicy b then
       safePersist d (b\<lparr>br_policyFile := disk_effect d (br_policyFile b) (applyPolicyDelta delta (br_policyFile b))\<rparr>)
     else (True, b))"

record PolicyUpdate =
  up_enabled :: "bool option"
  up_categories :: "PolicyCategory set option"
  up_repoScope :: "jstring option"
  up_repoLabel :: "jstring option"
  up_persist :: "bool option"

definition persist_unless :: "bool option \<Rightarrow> ApprovalBridge \<Rightarrow> PolicyDelta \<Rightarrow> Disk \<Rightarrow> bool \<times> ApprovalBridge" where
  "persist_unless flag b delta d = (if flag = Some False then (True, b) else persistDelta b delta d)"

definition or_else :: "'a option \<Rightarrow> 'a \<Rightarrow> 'a" where
  "or_else x y = (case x of Some v \<Rightarrow> v | None \<Rightarrow> y)"

definition setPolicyConfig :: "ApprovalBridge \<Rightarrow> PolicyUpdate \<Rightarrow> Disk \<Rightarrow> PolicyConfigView \<times> ApprovalBridge" where
  "setPolicyConfig b u d =
    (case up_repoScope u of
       Some scope \<Rightarrow>
         (let base = map_of (br_policyRepos b) scope;
              entry = \<lparr>pol_enabled = or_else (up_enabled u) (or_else (map_option pol_enabled base) True),
                       pol_categories = or_else (up_categories u) (or_else (map_option pol_categories base) {}),
                       pol_label = (case up_repoLabel u of Some l \<Rightarrow> Some l | None \<Rightarrow> Option.bind base pol_label)\<rparr>;
              b1 = b\<lparr>br_policyRepos := AList.update scope entry (br_policyRepos b)\<rparr>;
              (ok, b2) = persist_unless (up_persist u) b1 (Set_repo scope entry) d
          in ((getPolicyConfig b2 (Some scope))\<lparr>pv_persistError := \<not> ok\<rparr>, b2))
     | None \<Rightarrow>
         (let enabled = or_else (up_enabled u) (or_else (map_option pol_enabled (br_policyDefault b)) True);
              rawCats = or_else (up_categories u) (or_else (map_option pol_categories (br_policyDefault b)) {});
              config = \<lparr>pol_enabled = enabled,
                        pol_categories = (if rawCats \<noteq> {} then rawCats else set DEFAULT_GATED_CATEGORIES)\<rparr>;
              b1 = b\<lparr>br_policyDefault := Some config\<rparr>;
              (ok, b2) = persist_unless (up_persist u) b1 (Set_default config) d
          in ((getPolicyConfig b2 None)\<lparr>pv_persistError := \<not> ok\<rparr>, b2)))"

definition removePolicyRepo ::
  "ApprovalBridge \<Rightarrow> jstring \<Rightarrow> bool option \<Rightarrow> Disk \<Rightarrow> PolicyConfigView \<times> ApprovalBridge" where
  "removePolicyRepo b scope persist d =
    (let b1 = b\<lparr>br_policyRepos := AList.delete scope (br_policyRepos b)\<rparr>;
         (ok, b2) = persist_unless persist b1 (Remove_repo scope) d
     in ((getPolicyConfig b2 (Some scope))\<lparr>pv_persistError := \<not> ok\<rparr>, b2))"

record ApprovalBridgeOptions =
  opt_timeoutMs :: "jsnum option"
  opt_persist :: "PersistConfig option"
  opt_policy :: "ApprovalPolicyConfig option"
  opt_policyRepos :: "(jstring \<times> RepoPolicyEntry) list option"
  opt_hasResolver :: bool
  opt_policyEnvEnabled :: "bool option"
  opt_persistPolicy :: bool

definition bridge_new :: "ApprovalBridgeOptions \<Rightarrow> json_file \<Rightarrow> json_file \<Rightarrow> ApprovalBridge" where
  "bridge_new opts store policyFile =
    \<lparr>br_flights = [], br_timers = [], br_pending = [], br_timeoutMs = effectiveApprovalTimeoutMs (opt_timeoutMs opts),
     br_sessionAllow = {}, br_persist = opt_persist opts, br_store = store,
     br_policyDefault = opt_policy opts, br_policyRepos = or_else (opt_policyRepos opts) [],
     br_policyEnvEnabled = or_else (opt_policyEnvEnabled opts) True, br_persistPolicy = opt_persistPolicy opts,
     br_policyFile = policyFile, br_hasResolver = opt_hasResolver opts, br_persistFailures = 0,
     br_unstableMints = 0, br_minted = 0\<rparr>"

section \<open>The bridge as a machine\<close>

text \<open>
  One operation of the process. \<open>Op_disk\<close> is any other process that replaces one of the two
  files. The outputs of an operation are the promises it settles.
\<close>

datatype bridge_op =
    Op_request nat HookCommonInput
  | Op_resume nat "(jstring \<times> jstring option) option" rat
  | Op_resolve jstring ApprovalDecision "jstring option" bool rat Disk
  | Op_cancel jstring ResolutionOrigin "jstring option"
  | Op_timeout nat
  | Op_drain
  | Op_revoke jstring "jstring option" Disk
  | Op_set_policy PolicyUpdate Disk
  | Op_remove_policy jstring "bool option" Disk
  | Op_disk json_file json_file

definition outcome_out :: "nat \<Rightarrow> Outcome \<Rightarrow> (nat \<times> ApprovalResult) list" where
  "outcome_out t oc = (case oc of Settled r \<Rightarrow> [(t, r)] | _ \<Rightarrow> [])"

fun bridge_step :: "classifiers \<Rightarrow> ApprovalBridge \<Rightarrow> bridge_op \<Rightarrow> (nat \<times> ApprovalResult) list \<times> ApprovalBridge" where
  "bridge_step C b (Op_request t i) = apfst (outcome_out t) (requestApproval C b t i)"
| "bridge_step C b (Op_resume t resolved now) =
    (case requestApproval_resume C b t resolved now of
       None \<Rightarrow> ([], b) | Some r \<Rightarrow> apfst (outcome_out t) r)"
| "bridge_step C b (Op_resolve rid dec reason persist now d) =
    apfst (\<lambda>x. somes [x]) (resolve b rid dec reason persist now d)"
| "bridge_step C b (Op_cancel rid org reason) = apfst (\<lambda>x. somes [x]) (cancelPending b rid org reason)"
| "bridge_step C b (Op_timeout t) = apfst (\<lambda>x. somes [x]) (timeout_fires b t)"
| "bridge_step C b Op_drain = drain b"
| "bridge_step C b (Op_revoke sig scope d) = ([], snd (revokePersistedApproval b sig scope d))"
| "bridge_step C b (Op_set_policy u d) = ([], snd (setPolicyConfig b u d))"
| "bridge_step C b (Op_remove_policy scope persist d) = ([], snd (removePolicyRepo b scope persist d))"
| "bridge_step C b (Op_disk store policyFile) = ([], b\<lparr>br_store := store, br_policyFile := policyFile\<rparr>)"

fun bridge_run :: "classifiers \<Rightarrow> ApprovalBridge \<Rightarrow> bridge_op list \<Rightarrow> (nat \<times> ApprovalResult) list \<times> ApprovalBridge" where
  "bridge_run C b [] = ([], b)"
| "bridge_run C b (op # ops) =
    (case bridge_step C b op of (os, b') \<Rightarrow> apfst ((@) os) (bridge_run C b' ops))"

end
