(* ===== verification/Approval_Bridge_Correct.thy ===== *)
theory Approval_Bridge_Correct
  imports Approval_Bridge
begin

text \<open>
  Correctness of the approval bridge: the life of a request, the causes of an allow, the sources
  of the two allow-lists, the gates, the live policy and the signatures.
\<close>

section \<open>Identifiers\<close>

lemma mint_fields: "\<exists>m u. snd (mint C b sid) = b\<lparr>br_minted := m, br_unstableMints := u\<rparr>"
  by (intro exI [of _ "br_minted b + 1"] exI [of _ "br_unstableMints b"]) (simp add: mint_def)

lemma reroll_fields: "\<exists>m u. snd (reroll C sid n rid b) = b\<lparr>br_minted := m, br_unstableMints := u\<rparr>"
proof (induction n arbitrary: rid b)
  case 0
  show ?case by (intro exI [of _ "br_minted b"] exI [of _ "br_unstableMints b"]) simp
next
  case (Suc n)
  show ?case
  proof (cases "cl_redactString C rid = rid")
    case True
    then show ?thesis by (intro exI [of _ "br_minted b"] exI [of _ "br_unstableMints b"]) simp
  next
    case False
    let ?b = "b\<lparr>br_unstableMints := Suc (br_unstableMints b), br_minted := Suc (br_minted b)\<rparr>"
    obtain m u where "snd (reroll C sid n (mintApprovalRequestId (cl_uuid C (br_minted b)) sid) ?b)
        = ?b\<lparr>br_minted := m, br_unstableMints := u\<rparr>"
      using Suc.IH by blast
    then show ?thesis
      using False by (intro exI [of _ m] exI [of _ u]) (simp add: mint_def)
  qed
qed

lemma nextRequestId_fields: "\<exists>m u. snd (nextRequestId C b sid) = b\<lparr>br_minted := m, br_unstableMints := u\<rparr>"
proof -
  obtain rid b1 where m: "mint C b sid = (rid, b1)" by fastforce
  obtain rid' b2 where r: "reroll C sid 8 rid b1 = (rid', b2)" by fastforce
  obtain m u where b1: "b1 = b\<lparr>br_minted := m, br_unstableMints := u\<rparr>"
    using mint_fields [of C b sid] m by auto
  obtain m' u' where b2: "b2 = b1\<lparr>br_minted := m', br_unstableMints := u'\<rparr>"
    using reroll_fields [of C sid 8 rid b1] r by auto
  show ?thesis
  proof (cases "cl_redactString C rid' = rid'")
    case True
    then show ?thesis
      using m r b1 b2 by (intro exI [of _ m'] exI [of _ u']) (simp add: nextRequestId_def)
  next
    case False
    then show ?thesis
      using m r b1 b2 by (intro exI [of _ m'] exI [of _ "u' + 1"]) (simp add: nextRequestId_def)
  qed
qed

text \<open>What opening a request changes.\<close>

definition opened :: "nat \<Rightarrow> jstring \<Rightarrow> bool \<Rightarrow> (jstring \<times> jstring option) option \<Rightarrow> Pending" where
  "opened t sig cacheable scope =
    \<lparr>pend_ticket = t, pend_signature = sig, pend_cacheable = cacheable,
     pend_persistable = (scope \<noteq> None), pend_repoScope = map_option fst scope,
     pend_repoLabel = Option.bind scope snd\<rparr>"

lemma open_request_cases:
  obtains rid m u where
    "open_request C b t i trigger kinds sig cacheable scope =
      (Emitted rid \<lparr>gr_trigger = trigger, gr_secretKinds = kinds, gr_persistable = (scope \<noteq> None)\<rparr>,
       b\<lparr>br_minted := m, br_unstableMints := u, br_timers := (t, rid) # br_timers b,
         br_pending := AList.update rid (opened t sig cacheable scope) (br_pending b)\<rparr>)"
proof -
  obtain rid b' where n: "nextRequestId C b (hi_session_id i) = (rid, b')" by fastforce
  obtain m u where "b' = b\<lparr>br_minted := m, br_unstableMints := u\<rparr>"
    using nextRequestId_fields [of C b "hi_session_id i"] n by auto
  then show thesis
    using that [of rid u m] n by (simp add: open_request_def opened_def)
qed

section \<open>What a request does\<close>

definition secret_in :: "classifiers \<Rightarrow> HookCommonInput \<Rightarrow> bool" where
  "secret_in C i = fst (detectSecretInInput C i)"

definition bypassed :: "HookCommonInput \<Rightarrow> bool" where
  "bypassed i = isBypassPermissionMode (hi_permission_mode i)"

text \<open>An input whose approval may be remembered, and one whose approval may be written to disk.\<close>

definition may_cache :: "classifiers \<Rightarrow> HookCommonInput \<Rightarrow> bool" where
  "may_cache C i \<longleftrightarrow> \<not> bypassed i \<and> \<not> secret_in C i"

definition may_persist :: "classifiers \<Rightarrow> HookCommonInput \<Rightarrow> bool" where
  "may_persist C i \<longleftrightarrow> may_cache C i \<and> hi_hook_event_name i = js ''PreToolUse'' \<and> isPersistableBash C i"

text \<open>
  The effect of one segment of \<^verbatim>\<open>requestApproval\<close> on behalf of ticket \<open>t\<close> and input \<open>i\<close>:
  it defers, allows from one of the two lists, suspends, or opens a pending request.
\<close>

inductive segment ::
  "classifiers \<Rightarrow> nat \<Rightarrow> HookCommonInput \<Rightarrow> (jstring \<times> jstring option) option \<Rightarrow> rat
    \<Rightarrow> ApprovalBridge \<Rightarrow> Outcome \<Rightarrow> ApprovalBridge \<Rightarrow> bool"
  for C :: classifiers and t :: nat and i :: HookCommonInput
    and resolved :: "(jstring \<times> jstring option) option" and now :: rat where
  deferred: "ar_behavior r = Defer \<Longrightarrow> segment C t i resolved now b (Settled r) b"
| cached: "may_cache C i \<Longrightarrow> computeSignature C i \<in> br_sessionAllow b \<Longrightarrow> ar_autoAllowed r
    \<Longrightarrow> \<not> ar_persistGrant r \<Longrightarrow> segment C t i resolved now b (Settled r) b"
| granted: "may_persist C i \<Longrightarrow> resolved = Some (scope, label)
    \<Longrightarrow> store_has (br_store b) (computeSignature C i) scope now \<Longrightarrow> ar_persistGrant r
    \<Longrightarrow> segment C t i resolved now b (Settled r) b"
| wait_policy: "bypassed i \<Longrightarrow>
    segment C t i resolved now b Suspended (b\<lparr>br_flights := (t, Await_policy i) # br_flights b\<rparr>)"
| wait_persist: "may_persist C i \<Longrightarrow> persist_enabled b \<Longrightarrow>
    segment C t i resolved now b Suspended
      (b\<lparr>br_flights := (t, Await_persist i trigger kinds (computeSignature C i)) # br_flights b\<rparr>)"
| emitted: "(cacheable \<Longrightarrow> may_cache C i) \<Longrightarrow> (scope \<noteq> None \<Longrightarrow> may_persist C i \<and> cacheable \<and> scope = resolved) \<Longrightarrow>
    segment C t i resolved now b (Emitted rid reason)
      (b\<lparr>br_minted := m, br_unstableMints := u, br_timers := (t, rid) # br_timers b,
         br_pending := AList.update rid (opened t (computeSignature C i) cacheable scope) (br_pending b)\<rparr>)"

inductive_cases segmentE: "segment C t i resolved now b oc b'"

lemma open_request_segment:
  assumes "cacheable \<Longrightarrow> may_cache C i"
    and "scope \<noteq> None \<Longrightarrow> may_persist C i \<and> cacheable \<and> scope = resolved"
    and "open_request C b t i trigger kinds (computeSignature C i) cacheable scope = (oc, b')"
  shows "segment C t i resolved now b oc b'"
proof -
  obtain rid m u where "open_request C b t i trigger kinds (computeSignature C i) cacheable scope =
      (Emitted rid \<lparr>gr_trigger = trigger, gr_secretKinds = kinds, gr_persistable = (scope \<noteq> None)\<rparr>,
       b\<lparr>br_minted := m, br_unstableMints := u, br_timers := (t, rid) # br_timers b,
         br_pending := AList.update rid (opened t (computeSignature C i) cacheable scope) (br_pending b)\<rparr>)"
    by (rule open_request_cases)
  then show ?thesis
    using emitted [OF assms(1,2)] assms(3) by fastforce
qed

lemma gate_secret:
  "\<not> secret_triggered (case gd_trigger (requiresHumanApproval C i) of Some tr \<Rightarrow> tr | None \<Rightarrow> Trig_destructive)
    \<Longrightarrow> gd_gated (requiresHumanApproval C i) \<Longrightarrow> \<not> secret_in C i"
  "\<not> secret_triggered (case gd_trigger (gatePermissionRequest C i) of Some tr \<Rightarrow> tr | None \<Rightarrow> Trig_destructive)
    \<Longrightarrow> \<not> secret_in C i"
  by (cases "detectSecretInInput C i"; auto simp: requiresHumanApproval_def gatePermissionRequest_def
      secret_triggered_def secret_in_def Let_def split: if_splits)+

lemma request_gate_segment:
  assumes bp: "bp = None \<longleftrightarrow> \<not> bypassed i"
    and run: "request_gate C b t i bp = (oc, b')"
  shows "segment C t i resolved now b oc b'"
proof -
  define gate where "gate = (case bp of Some g \<Rightarrow> g
      | None \<Rightarrow> if hi_hook_event_name i = js ''PermissionRequest'' then gatePermissionRequest C i
                else requiresHumanApproval C i)"
  define tr where "tr = (case gd_trigger gate of Some tr \<Rightarrow> tr | None \<Rightarrow> Trig_destructive)"
  define sig where "sig = computeSignature C i"
  define cacheable where "cacheable \<longleftrightarrow> bp = None \<and> \<not> secret_triggered tr"
  define eligible where "eligible \<longleftrightarrow> bp = None \<and> persist_enabled b \<and> \<not> secret_triggered tr
      \<and> hi_hook_event_name i = js ''PreToolUse'' \<and> isPersistableBash C i"
  have may: "may_cache C i" if "gd_gated gate" "cacheable"
    using that gate_secret [of C i] bp
    by (auto simp: may_cache_def gate_def tr_def cacheable_def split: if_splits)
  have run': "(if \<not> gd_gated gate then
        (Settled (simple_result Defer ''not gated; defer to normal permission flow''), b)
      else if bp = None \<and> \<not> secret_triggered tr \<and> sig \<in> br_sessionAllow b then
        (Settled ((simple_result Allow
           ''allow_for_session: matching signature previously approved this session'')
           \<lparr>ar_autoAllowed := True\<rparr>), b)
      else if eligible then (Suspended, b\<lparr>br_flights := (t, Await_persist i tr (gd_secretKinds gate) sig) # br_flights b\<rparr>)
      else open_request C b t i tr (gd_secretKinds gate) sig cacheable None) = (oc, b')"
    using run unfolding request_gate_def gate_def [symmetric] Let_def tr_def [symmetric] sig_def [symmetric]
      eligible_def cacheable_def .
  show ?thesis
  proof (cases "\<not> gd_gated gate")
    case True
    then show ?thesis
      using run' by (auto simp: simple_result_def intro: segment.deferred)
  next
    case gated: False
    consider (cache) "cacheable" "sig \<in> br_sessionAllow b"
      | (persist) "\<not> (cacheable \<and> sig \<in> br_sessionAllow b)" "eligible"
      | (opens) "\<not> (cacheable \<and> sig \<in> br_sessionAllow b)" "\<not> eligible"
      by blast
    then show ?thesis
    proof cases
      case cache
      then show ?thesis
        using run' gated may segment.cached [of C i b]
        by (auto simp: cacheable_def simple_result_def sig_def)
    next
      case persist
      then have "may_persist C i" "persist_enabled b"
        using may gated by (auto simp: eligible_def may_persist_def cacheable_def)
      then show ?thesis
        using persist run' gated segment.wait_persist [of C i b t resolved now tr "gd_secretKinds gate"]
        by (auto simp: cacheable_def sig_def)
    next
      case opens
      then have "open_request C b t i tr (gd_secretKinds gate) (computeSignature C i) cacheable None = (oc, b')"
        using run' gated by (auto simp: cacheable_def sig_def)
      then show ?thesis
        by (rule open_request_segment [rotated 2]) (use may gated in auto)
    qed
  qed
qed

lemma request_policy_segment:
  assumes "bypassed i" and "request_policy C b t i scope = (oc, b')"
  shows "segment C t i resolved now b oc b'"
  using assms request_gate_segment [of "Some g" i C b t oc b' resolved now for g]
  by (auto simp: request_policy_def Let_def simple_result_def intro: segment.deferred split: option.splits if_splits)

lemma requestApproval_segment:
  assumes "requestApproval C b t i = (oc, b')"
  shows "segment C t i resolved now b oc b'"
  using assms request_policy_segment [of i C b t None oc b' resolved now]
    request_gate_segment [of None i C b t oc b' resolved now]
  by (auto simp: requestApproval_def bypassed_def intro: segment.wait_policy split: if_splits)

lemma request_persist_segment:
  assumes "may_persist C i" and "request_persist C b t i trigger kinds (computeSignature C i) resolved now = (oc, b')"
  shows "segment C t i resolved now b oc b'"
proof -
  have mc: "may_cache C i" using assms(1) by (simp add: may_persist_def)
  show ?thesis
  proof (cases resolved)
    case None
    then show ?thesis
      using assms open_request_segment [of True C i None resolved b t trigger kinds oc b' now] mc
      by (simp add: request_persist_def)
  next
    case (Some x)
    then show ?thesis
      using assms open_request_segment [of True C i resolved resolved b t trigger kinds oc b' now] mc
      by (cases x) (auto simp: request_persist_def simple_result_def intro: segment.granted split: if_splits)
  qed
qed

section \<open>The life of a request\<close>







text \<open>Where the suspended calls and the pending entries come from: the requests made so far.\<close>

fun flight_input :: "Flight \<Rightarrow> HookCommonInput" where
  "flight_input (Await_policy i) = i"
| "flight_input (Await_persist i _ _ _) = i"

fun flight_ok :: "classifiers \<Rightarrow> bool \<Rightarrow> Flight \<Rightarrow> bool" where
  "flight_ok C enabled (Await_policy i) = bypassed i"
| "flight_ok C enabled (Await_persist i _ _ sig) = (enabled \<and> may_persist C i \<and> sig = computeSignature C i)"

definition pending_ok :: "classifiers \<Rightarrow> HookCommonInput \<Rightarrow> Pending \<Rightarrow> bool" where
  "pending_ok C i p \<longleftrightarrow> pend_signature p = computeSignature C i \<and> (pend_cacheable p \<longrightarrow> may_cache C i)
     \<and> (pend_persistable p \<longrightarrow> may_persist C i)"

definition origin_ok :: "classifiers \<Rightarrow> (nat \<times> HookCommonInput) set \<Rightarrow> ApprovalBridge \<Rightarrow> bool" where
  "origin_ok C R b \<longleftrightarrow>
     (\<forall>(t, f) \<in> set (br_flights b). (t, flight_input f) \<in> R \<and> flight_ok C (persist_enabled b) f)
     \<and> (\<forall>(rid, p) \<in> set (br_pending b). \<exists>i. (pend_ticket p, i) \<in> R \<and> pending_ok C i p)"

lemma origin_ok_mono: "origin_ok C R b \<Longrightarrow> R \<subseteq> R' \<Longrightarrow> origin_ok C R' b"
  unfolding origin_ok_def by fastforce

lemma origin_ok_sub:
  "origin_ok C R b \<Longrightarrow> set (br_flights b') \<subseteq> set (br_flights b) \<Longrightarrow> set (br_pending b') \<subseteq> set (br_pending b)
    \<Longrightarrow> br_persist b' = br_persist b \<Longrightarrow> origin_ok C R b'"
  unfolding origin_ok_def persist_enabled_def by auto

lemma segment_origin:
  assumes "origin_ok C R b" "(t, i) \<in> R" "segment C t i resolved now b oc b'"
  shows "origin_ok C R b'"
  using assms(3,1,2)
  by cases (fastforce simp: origin_ok_def opened_def pending_ok_def persist_enabled_def
      dest!: set_update_cases)+

lemma resume_segment:
  assumes fl: "map_of (br_flights b) t = Some f" and ok: "flight_ok C enabled f"
    and run: "requestApproval_resume C b t resolved now = Some (oc, b')"
  shows "segment C t (flight_input f) resolved now (land b t) oc b'"
proof (cases f)
  case (Await_policy i)
  then show ?thesis
    using fl ok run request_policy_segment [of i C "land b t" t "map_option fst resolved" oc b']
    by (simp add: requestApproval_resume_def)
next
  case (Await_persist i tr ks sig)
  then show ?thesis
    using fl ok run request_persist_segment [of C i "land b t" t tr ks resolved now oc b']
    by (simp add: requestApproval_resume_def)
qed


lemma foldl_clear_timer:
  "br_timers (foldl clear_timer b ts) = filter (\<lambda>x. fst x \<notin> set ts) (br_timers b)"
  "br_flights (foldl clear_timer b ts) = br_flights b"
  by (induction ts arbitrary: b) (auto simp: clear_timer_def AList.delete_eq intro!: filter_cong)


definition queue_view where
  "queue_view b = (br_flights b, br_timers b, br_pending b, br_persist b)"


lemma persist_grant_queue [simp]:
  "br_flights (persist_grant b p now d) = br_flights b"
  "br_timers (persist_grant b p now d) = br_timers b"
  "br_pending (persist_grant b p now d) = br_pending b"
  "br_sessionAllow (persist_grant b p now d) = br_sessionAllow b"
  "br_persist (persist_grant b p now d) = br_persist b"
  by (simp_all add: persist_grant_def safePersist_def split: option.split)

lemma persist_unless_queue [simp]:
  "br_flights (snd (persist_unless flag b delta d)) = br_flights b"
  "br_timers (snd (persist_unless flag b delta d)) = br_timers b"
  "br_pending (snd (persist_unless flag b delta d)) = br_pending b"
  "br_sessionAllow (snd (persist_unless flag b delta d)) = br_sessionAllow b"
  "br_store (snd (persist_unless flag b delta d)) = br_store b"
  "br_persist (snd (persist_unless flag b delta d)) = br_persist b"
  "br_policyDefault (snd (persist_unless flag b delta d)) = br_policyDefault b"
  "br_policyRepos (snd (persist_unless flag b delta d)) = br_policyRepos b"
  "br_policyEnvEnabled (snd (persist_unless flag b delta d)) = br_policyEnvEnabled b"
  by (simp_all add: persist_unless_def persistDelta_def safePersist_def)

text \<open>The operations of the administration leave the queue and the session cache alone.\<close>

lemma admin_fields [simp]:
  "queue_view (snd (revokePersistedApproval b sig scope d)) = queue_view b"
  "br_sessionAllow (snd (revokePersistedApproval b sig scope d)) = br_sessionAllow b"
  "queue_view (snd (setPolicyConfig b u d)) = queue_view b"
  "br_sessionAllow (snd (setPolicyConfig b u d)) = br_sessionAllow b"
  "br_store (snd (setPolicyConfig b u d)) = br_store b"
  "queue_view (snd (removePolicyRepo b sc persist d)) = queue_view b"
  "br_sessionAllow (snd (removePolicyRepo b sc persist d)) = br_sessionAllow b"
  "br_store (snd (removePolicyRepo b sc persist d)) = br_store b"
  by (simp_all add: revokePersistedApproval_def safePersist_def queue_view_def setPolicyConfig_def
      removePolicyRepo_def Let_def case_prod_unfold split: option.split)


fun requested :: "bridge_op \<Rightarrow> (nat \<times> HookCommonInput) list" where
  "requested (Op_request t i) = [(t, i)]"
| "requested _ = []"

definition requests :: "bridge_op list \<Rightarrow> (nat \<times> HookCommonInput) list" where
  "requests ops = concat (map requested ops)"

lemma requests_simps [simp]:
  "requests [] = []" "requests (op # ops) = requested op @ requests ops"
  "requests (ops @ ops') = requests ops @ requests ops'"
  by (simp_all add: requests_def)


definition cache_pending :: "ApprovalBridge \<Rightarrow> jstring \<Rightarrow> Pending \<Rightarrow> ApprovalBridge" where
  "cache_pending b rid p = (take_pending b rid p)\<lparr>br_sessionAllow := insert (pend_signature p) (br_sessionAllow b)\<rparr>"

lemma take_pending_allow [simp]: "br_sessionAllow (take_pending b rid p) = br_sessionAllow b"
  by (simp add: take_pending_def clear_timer_def)

lemma resolve_state:
  assumes "map_of (br_pending b) rid = Some p" and "resolve b rid dec reason persist now d = (os, b')"
  shows "b' = (if dec = Dec_allow_for_session \<and> pend_cacheable p then
      if persist then persist_grant (cache_pending b rid p) p now d else cache_pending b rid p
    else take_pending b rid p)"
  using assms unfolding resolve_def Let_def cache_pending_def by (auto split: if_split_asm)

lemma resolve_cases:
  assumes "map_of (br_pending b) rid = Some p" and "resolve b rid dec reason persist now d = (os, b')"
  shows "queue_view b' = queue_view (take_pending b rid p)"
    and "\<exists>r. os = Some (pend_ticket p, r) \<and> (ar_behavior r = Allow \<longleftrightarrow> dec = Dec_allow \<or> dec = Dec_allow_for_session)
           \<and> ar_behavior r \<noteq> Defer \<and> ar_origin r = Some Org_operator"
    and "br_sessionAllow b' = (if dec = Dec_allow_for_session \<and> pend_cacheable p
           then insert (pend_signature p) (br_sessionAllow b) else br_sessionAllow b)"
proof -
  let ?cache = "dec = Dec_allow_for_session \<and> pend_cacheable p"
  have "os = Some (pend_ticket p, \<lparr>ar_behavior = (if dec = Dec_allow \<or> dec = Dec_allow_for_session then Allow else Deny),
      ar_reason = reason, ar_decision = Some dec, ar_autoAllowed = False, ar_persistGrant = False,
      ar_origin = Some Org_operator\<rparr>)"
    using assms by (simp add: resolve_def Let_def)
  then show "\<exists>r. os = Some (pend_ticket p, r) \<and> (ar_behavior r = Allow \<longleftrightarrow> dec = Dec_allow \<or> dec = Dec_allow_for_session)
      \<and> ar_behavior r \<noteq> Defer \<and> ar_origin r = Some Org_operator" by simp
  note resolve_state [OF assms]
  then show "queue_view b' = queue_view (take_pending b rid p)"
    and "br_sessionAllow b' = (if ?cache then insert (pend_signature p) (br_sessionAllow b) else br_sessionAllow b)"
    by (simp_all add: queue_view_def cache_pending_def)
qed





section \<open>Runs\<close>

lemma bridge_run_snoc:
  "bridge_run C b (ops @ [op]) =
    (let (os, b1) = bridge_run C b ops; (os', b2) = bridge_step C b1 op in (os @ os', b2))"
  by (induction ops arbitrary: b) (auto simp: case_prod_unfold Let_def apfst_def map_prod_def)

lemma run_snocE:
  assumes "bridge_run C b (ops @ [op]) = (os, b2)"
  obtains os1 b1 os' where "bridge_run C b ops = (os1, b1)" "bridge_step C b1 op = (os', b2)" "os = os1 @ os'"
  using assms by (auto simp: bridge_run_snoc Let_def split: prod.splits)

lemma step_origin:
  assumes org: "origin_ok C R b" and step: "bridge_step C b op = (os, b')" and R: "R \<union> set (requested op) \<subseteq> R'"
  shows "origin_ok C R' b'"
proof -
  have org': "origin_ok C R' b" using origin_ok_mono [OF org] R by blast
  have quiet: ?thesis if "queue_view b' = queue_view b"
    using that origin_ok_sub [OF org', of b'] by (simp add: queue_view_def)
  show ?thesis
  proof (cases op)
    case (Op_request t i)
    then obtain oc where "requestApproval C b t i = (oc, b')"
      using step by (cases "requestApproval C b t i") auto
    then show ?thesis
      using segment_origin [OF org' _ requestApproval_segment] R Op_request by auto
  next
    case (Op_resume t resolved now)
    show ?thesis
    proof (cases "requestApproval_resume C b t resolved now")
      case (Some x)
      then obtain oc where r: "requestApproval_resume C b t resolved now = Some (oc, b')"
        using step Op_resume by (cases x) auto
      then obtain f where f: "map_of (br_flights b) t = Some f"
        by (auto simp: requestApproval_resume_def split: option.splits)
      then have fl: "(t, flight_input f) \<in> R'" "flight_ok C (persist_enabled b) f"
        using org' map_of_SomeD [OF f] by (auto simp: origin_ok_def)
      have "origin_ok C R' (land b t)"
        by (rule origin_ok_sub [OF org']) (auto simp: land_def set_delete)
      then show ?thesis
        using segment_origin [OF _ fl(1) resume_segment [OF f fl(2) r]] by blast
    qed (use step Op_resume org' in auto)
  next
    case (Op_resolve rid dec reason persist now d)
    show ?thesis
    proof (cases "map_of (br_pending b) rid")
      case None
      then show ?thesis using step Op_resolve org' by (simp add: resolve_def)
    next
      case (Some p)
      have "queue_view b' = queue_view (take_pending b rid p)"
        using step Op_resolve resolve_cases(1) [OF Some] by (cases "resolve b rid dec reason persist now d") auto
      then show ?thesis
        by (intro origin_ok_sub [OF org']) (auto simp: queue_view_def take_pending_def clear_timer_def set_delete)
    qed
  next
    case (Op_cancel rid orgn reason)
    then show ?thesis
      using step by (intro origin_ok_sub [OF org'])
        (auto simp: cancelPending_def take_pending_def clear_timer_def set_delete split: option.splits)
  next
    case (Op_timeout t)
    then show ?thesis
      using step by (intro origin_ok_sub [OF org'])
        (auto simp: timeout_fires_def clear_timer_def set_delete split: option.splits)
  next
    case Op_drain
    have "br_persist (foldl clear_timer b ts) = br_persist b" for ts
      by (induction ts arbitrary: b) (simp_all add: clear_timer_def)
    then show ?thesis
      using step Op_drain by (intro origin_ok_sub [OF org']) (auto simp: drain_def foldl_clear_timer)
  next
    case (Op_disk f g)
    then show ?thesis using step by (intro quiet) (auto simp: queue_view_def)
  qed (rule quiet; use step in \<open>auto\<close>)+
qed

lemma run_origin:
  "bridge_run C (bridge_new opts store file) ops = (os, b) \<Longrightarrow> origin_ok C (set (requests ops)) b"
proof (induction ops arbitrary: os b rule: rev_induct)
  case Nil
  then show ?case by (auto simp: origin_ok_def bridge_new_def)
next
  case (snoc op ops)
  then show ?case
    by (elim run_snocE) (auto intro: step_origin)
qed


section \<open>Why a request is allowed\<close>

lemma segment_allow:
  assumes "segment C t i resolved now b oc b'"
  shows "br_sessionAllow b' = br_sessionAllow b \<and> br_store b' = br_store b"
  using assms by cases simp_all

lemma foldl_clear_timer_store: "br_store (foldl clear_timer b ts) = br_store b"
  by (induction ts arbitrary: b) (simp_all add: clear_timer_def)

lemma resume_flight:
  assumes "origin_ok C R b" and "requestApproval_resume C b t resolved now = Some (oc, b')"
  obtains i where "(t, i) \<in> R" "segment C t i resolved now (land b t) oc b'"
proof -
  obtain f where f: "map_of (br_flights b) t = Some f"
    using assms(2) by (auto simp: requestApproval_resume_def split: option.splits)
  then have fl: "(t, flight_input f) \<in> R" "flight_ok C (persist_enabled b) f"
    using assms(1) map_of_SomeD [OF f] by (auto simp: origin_ok_def)
  show thesis using that fl resume_segment [OF f fl(2) assms(2)] by blast
qed

text \<open>The pending entry an operator's decision settles.\<close>

definition decides :: "ApprovalBridge \<Rightarrow> bridge_op \<Rightarrow> ApprovalDecision \<Rightarrow> Pending \<Rightarrow> bool" where
  "decides b op dec p \<longleftrightarrow> (\<exists>rid reason persist now d. op = Op_resolve rid dec reason persist now d
     \<and> map_of (br_pending b) rid = Some p)"

lemma step_cache:
  assumes org: "origin_ok C R b" and step: "bridge_step C b op = (os, b')" and sig: "sig \<in> br_sessionAllow b'"
  shows "op \<noteq> Op_drain \<and> (sig \<in> br_sessionAllow b
    \<or> (\<exists>p. decides b op Dec_allow_for_session p \<and> pend_cacheable p \<and> pend_signature p = sig))"
proof (cases op)
  case (Op_request t i)
  then show ?thesis
    using step sig segment_allow [OF requestApproval_segment] by (cases "requestApproval C b t i") auto
next
  case (Op_resume t resolved now)
  show ?thesis
  proof (cases "requestApproval_resume C b t resolved now")
    case None
    then show ?thesis using step sig Op_resume by simp
  next
    case (Some x)
    then obtain oc where "requestApproval_resume C b t resolved now = Some (oc, b')"
      using step Op_resume by (cases x) auto
    then show ?thesis
      using sig Op_resume by (elim resume_flight [OF org]) (auto dest!: segment_allow simp: land_def)
  qed
next
  case (Op_resolve rid dec reason persist now d)
  show ?thesis
  proof (cases "map_of (br_pending b) rid")
    case None
    then show ?thesis using step sig Op_resolve by (simp add: resolve_def)
  next
    case (Some p)
    obtain x where "resolve b rid dec reason persist now d = (x, b')"
      using step Op_resolve by (cases "resolve b rid dec reason persist now d") auto
    then show ?thesis
      using resolve_cases(3) [OF Some] sig Op_resolve Some by (auto simp: decides_def split: if_splits)
  qed
qed (use step sig in \<open>auto simp: cancelPending_def take_pending_def clear_timer_def timeout_fires_def
      drain_def split: option.splits\<close>)

text \<open>
  A signature was remembered in a run: at some point the operator allowed for the session a
  pending request with that signature, made by an input whose approval may be remembered, and the
  bridge was not drained since.
\<close>

definition remembered :: "classifiers \<Rightarrow> ApprovalBridge \<Rightarrow> bridge_op list \<Rightarrow> jstring \<Rightarrow> bool" where
  "remembered C b0 ops sig \<longleftrightarrow>
    (\<exists>pre op post p i. ops = pre @ op # post \<and> Op_drain \<notin> set post
       \<and> decides (snd (bridge_run C b0 pre)) op Dec_allow_for_session p
       \<and> (pend_ticket p, i) \<in> set (requests pre) \<and> may_cache C i \<and> computeSignature C i = sig)"

lemma remembered_snoc: "remembered C b0 ops sig \<Longrightarrow> op \<noteq> Op_drain \<Longrightarrow> remembered C b0 (ops @ [op]) sig"
  unfolding remembered_def by fastforce

lemma pending_origin:
  assumes "origin_ok C R b" "decides b op dec p"
  obtains i where "(pend_ticket p, i) \<in> R" "pending_ok C i p"
  using assms unfolding origin_ok_def decides_def by (blast dest: map_of_SomeD)

lemma run_cache:
  "bridge_run C (bridge_new opts store file) ops = (os, b) \<Longrightarrow> sig \<in> br_sessionAllow b \<Longrightarrow>
    remembered C (bridge_new opts store file) ops sig"
proof (induction ops arbitrary: os b rule: rev_induct)
  case Nil
  then show ?case by (auto simp: bridge_new_def)
next
  case (snoc op ops)
  obtain os1 b1 os' where r: "bridge_run C (bridge_new opts store file) ops = (os1, b1)"
    "bridge_step C b1 op = (os', b)"
    using snoc.prems(1) by (rule run_snocE)
  note org = run_origin [OF r(1)]
  from step_cache [OF org r(2) snoc.prems(2)] consider
      (old) "op \<noteq> Op_drain" "sig \<in> br_sessionAllow b1"
    | (new) p where "decides b1 op Dec_allow_for_session p" "pend_cacheable p" "pend_signature p = sig"
    by blast
  then show ?case
  proof cases
    case old
    then show ?thesis using snoc.IH [OF r(1)] remembered_snoc by blast
  next
    case new
    obtain i where "(pend_ticket p, i) \<in> set (requests ops)" "pending_ok C i p"
      using pending_origin [OF org new(1)] .
    then show ?thesis
      unfolding remembered_def using new r(1)
      by (intro exI [of _ ops] exI [of _ op] exI [of _ "[]"] exI [of _ p] exI [of _ i])
         (simp add: pending_ok_def)
  qed
qed

lemma settle_allow:
  assumes "segment C t i resolved now b (Settled r) b'" "ar_behavior r = Allow"
  shows "may_cache C i \<and> computeSignature C i \<in> br_sessionAllow b
    \<or> (\<exists>scope label. resolved = Some (scope, label) \<and> may_persist C i
        \<and> store_has (br_store b) (computeSignature C i) scope now)"
  using assms by (auto elim: segmentE)

lemma request_allow:
  assumes "requestApproval C b t i = (Settled r, b')" "ar_behavior r = Allow"
  shows "may_cache C i \<and> computeSignature C i \<in> br_sessionAllow b"
  using assms settle_allow [OF requestApproval_segment [where resolved = None and now = 0]] by blast

lemma resume_allow:
  assumes "origin_ok C R b" "requestApproval_resume C b t resolved now = Some (Settled r, b')" "ar_behavior r = Allow"
  shows "\<exists>i scope label. (t, i) \<in> R \<and> resolved = Some (scope, label) \<and> may_persist C i \<and> persist_enabled b
    \<and> store_has (br_store b) (computeSignature C i) scope now"
proof -
  obtain f where f: "map_of (br_flights b) t = Some f"
    using assms(2) by (auto simp: requestApproval_resume_def split: option.splits)
  then have fl: "(t, flight_input f) \<in> R" "flight_ok C (persist_enabled b) f"
    using assms(1) map_of_SomeD [OF f] by (auto simp: origin_ok_def)
  have seg: "segment C t (flight_input f) resolved now (land b t) (Settled r) b'"
    by (rule resume_segment [OF f fl(2) assms(2)])
  show ?thesis
  proof (cases f)
    case (Await_policy i)
    then show ?thesis
      using settle_allow [OF seg assms(3)] fl by (simp add: may_cache_def may_persist_def)
  next
    case (Await_persist i tr ks sig)
    then have "\<exists>scope label. resolved = Some (scope, label) \<and> store_has (br_store b) sig scope now"
      using assms(2,3) f
      by (auto simp: requestApproval_resume_def request_persist_def land_def open_request_def
          split: option.splits if_splits prod.splits)
    then show ?thesis using fl Await_persist by auto
  qed
qed

definition allow_cause ::
  "classifiers \<Rightarrow> ApprovalBridge \<Rightarrow> bridge_op list \<Rightarrow> bridge_op \<Rightarrow> nat \<Rightarrow> HookCommonInput \<Rightarrow> bool" where
  "allow_cause C b0 ops op t i \<longleftrightarrow> (let b = snd (bridge_run C b0 ops) in
     (\<exists>dec p. decides b op dec p \<and> pend_ticket p = t \<and> (dec = Dec_allow \<or> dec = Dec_allow_for_session))
     \<or> (op = Op_request t i \<and> may_cache C i \<and> remembered C b0 ops (computeSignature C i))
     \<or> (\<exists>scope label now. op = Op_resume t (Some (scope, label)) now \<and> may_persist C i \<and> persist_enabled b
          \<and> store_has (br_store b) (computeSignature C i) scope now))"

text \<open>
  C1. No operation is allowed without a cause. In every run of the bridge, with any interleaving
  of requests, decisions, time-outs, cancellations, shutdowns, policy changes and changes of the
  files by other processes, a call that is answered with allow was (a) allowed by the operator for
  that very request, or (b) has the signature of an earlier request the operator allowed for the
  session, with no shutdown since, or (c) is an ordinary medium-risk shell command whose signature
  is granted on disk for its repository and has not expired, with the feature switched on. In
  cases (b) and (c) the call is not in bypass mode and carries no detected secret: those are only
  ever allowed by the operator.
\<close>

theorem no_unapproved_allow:
  assumes run: "bridge_run C (bridge_new opts store file) ops = (os, b)"
    and step: "bridge_step C b op = (os', b')" and out: "(t, r) \<in> set os'" "ar_behavior r = Allow"
  shows "\<exists>i. (t, i) \<in> set (requests (ops @ [op])) \<and> allow_cause C (bridge_new opts store file) ops op t i"
proof -
  note org = run_origin [OF run]
  have b: "snd (bridge_run C (bridge_new opts store file) ops) = b" using run by simp
  show ?thesis
  proof (cases op)
    case (Op_request u i)
    then have "requestApproval C b u i = (Settled r, b')" "u = t"
      using step out by (cases "requestApproval C b u i"; auto simp: outcome_out_def split: Outcome.splits)+
    then show ?thesis
      using request_allow [of C b t i r b'] run_cache [OF run] out Op_request by (auto simp: allow_cause_def Let_def)
  next
    case (Op_resume u resolved now)
    then have "requestApproval_resume C b u resolved now = Some (Settled r, b')" "u = t"
      using step out by (auto simp: outcome_out_def split: option.splits Outcome.splits prod.splits)
    then show ?thesis
      using resume_allow [OF org, of t resolved now r b'] out Op_resume b
      by (auto simp: allow_cause_def Let_def)
  next
    case (Op_resolve rid dec reason persist now d)
    show ?thesis
    proof (cases "map_of (br_pending b) rid")
      case None
      then show ?thesis using step out Op_resolve by (simp add: resolve_def)
    next
      case (Some p)
      obtain x where x: "resolve b rid dec reason persist now d = (x, b')" "os' = somes [x]"
        using step Op_resolve by (cases "resolve b rid dec reason persist now d") auto
      have dec: "decides b op dec p" using Op_resolve Some by (simp add: decides_def)
      obtain i where i: "(pend_ticket p, i) \<in> set (requests ops)" using pending_origin [OF org dec] by blast
      have t: "pend_ticket p = t" "dec = Dec_allow \<or> dec = Dec_allow_for_session"
        using resolve_cases(2) [OF Some x(1)] x(2) out by auto
      then have "allow_cause C (bridge_new opts store file) ops op t i"
        using dec b unfolding allow_cause_def Let_def by blast
      then show ?thesis using i t by auto
    qed
  qed (use step out in \<open>auto simp: cancelPending_def timeout_fires_def drain_def deny_result_def split: option.splits\<close>)
qed

text \<open>A small instance: every command is of medium risk and nothing is a secret.\<close>

definition sample_cl :: classifiers where
  "sample_cl = \<lparr>cl_commandRisk = (\<lambda>_. Risk_medium), cl_commandCategories = (\<lambda>_. {PC_recursive_rm}),
     cl_networkEgress = (\<lambda>_. False), cl_persistDenied = (\<lambda>_. False), cl_redactString = (\<lambda>s. s),
     cl_markerKinds = (\<lambda>_. []), cl_stringify = (\<lambda>_. None), cl_sha256 = (\<lambda>s. s), cl_uuid = (\<lambda>n. [48])\<rparr>"

definition sample_input :: "string \<Rightarrow> HookCommonInput" where
  "sample_input mode = \<lparr>hi_session_id = js ''s'', hi_cwd = None, hi_permission_mode = Some (js mode),
     hi_hook_event_name = js ''PreToolUse'', hi_tool_name = JStr (js ''Bash''),
     hi_tool_input = JObj [(js ''command'', JStr (js ''rm x''))]\<rparr>"

definition sample_bridge :: ApprovalBridge where
  "sample_bridge = bridge_new \<lparr>opt_timeoutMs = None, opt_persist = None,
     opt_policy = Some defaultPreset, opt_policyRepos = None, opt_hasResolver = False,
     opt_policyEnvEnabled = None, opt_persistPolicy = True\<rparr> None None"

definition sample_rid :: jstring where
  "sample_rid = mintApprovalRequestId [48] (js ''s'')"

lemma sample_emits:
  "requestApproval sample_cl sample_bridge 0 (sample_input ''default'') =
    (Emitted sample_rid \<lparr>gr_trigger = Trig_destructive, gr_secretKinds = [], gr_persistable = False\<rparr>,
     sample_bridge\<lparr>br_minted := 1, br_timers := [(0, sample_rid)],
       br_pending := [(sample_rid, opened 0 (computeSignature sample_cl (sample_input ''default'')) True None)]\<rparr>)"
proof -
  have "requiresHumanApproval sample_cl (sample_input ''default'') =
      \<lparr>gd_gated = True, gd_trigger = Some Trig_destructive, gd_secretKinds = []\<rparr>"
    by (simp add: requiresHumanApproval_def requiresDestructiveApproval_def detectSecretInInput_def Let_def
        sample_input_def sample_cl_def tool_name_def classifyTool_def input_string_def secret_field_def
        scanned_fields_def)
  then have "requestApproval sample_cl sample_bridge 0 (sample_input ''default'') =
      open_request sample_cl sample_bridge 0 (sample_input ''default'') Trig_destructive []
        (computeSignature sample_cl (sample_input ''default'')) True None"
    by (simp add: requestApproval_def request_gate_def Let_def secret_triggered_def)
       (simp add: sample_input_def isBypassPermissionMode_def BYPASS_PERMISSION_MODE_def sample_bridge_def
        bridge_new_def persist_enabled_def)
  then show ?thesis
    by (simp add: open_request_def nextRequestId_def mint_def eval_nat_numeral sample_cl_def sample_rid_def
        sample_input_def)
       (simp add: sample_bridge_def bridge_new_def opened_def)
qed

definition sample_allow :: bridge_op where
  "sample_allow = Op_resolve sample_rid Dec_allow None False 0 Disk_ok"

theorem no_unapproved_allow_witness:
  "\<exists>i. (0, i) \<in> set (requests ([Op_request 0 (sample_input ''default'')] @ [sample_allow]))
     \<and> allow_cause sample_cl sample_bridge [Op_request 0 (sample_input ''default'')] sample_allow 0 i"
proof -
  let ?ops = "[Op_request 0 (sample_input ''default'')]"
  have run: "bridge_run sample_cl sample_bridge ?ops =
      ([], snd (requestApproval sample_cl sample_bridge 0 (sample_input ''default'')))"
    by (simp add: sample_emits outcome_out_def)
  show ?thesis
    unfolding sample_bridge_def
    by (rule no_unapproved_allow [OF run [unfolded sample_bridge_def], where op = sample_allow, OF prod.collapse [symmetric],
          where r = "\<lparr>ar_behavior = Allow, ar_reason = None, ar_decision = Some Dec_allow,
            ar_autoAllowed = False, ar_persistGrant = False, ar_origin = Some Org_operator\<rparr>"])
       (simp_all add: sample_bridge_def [symmetric] sample_emits sample_allow_def resolve_def opened_def Let_def)
qed

section \<open>Every request is settled once\<close>



section \<open>Where persistent grants come from\<close>

lemma readEntries_write_sub: "set (readEntries (writeEntries es)) \<subseteq> set es"
proof -
  have "set (somes (map isValidEntry (map entry_json es))) \<subseteq> set es"
  proof (induction es)
    case (Cons e es)
    have "isValidEntry (entry_json e) = Some e \<or> isValidEntry (entry_json e) = None"
      using isValidEntry_json [of e]
      by (cases "entry_ok e") (auto simp: isValidEntry_def entry_json_def entry_ok_def split: option.splits)
    then show ?case using Cons by auto
  qed simp
  then show ?thesis by (simp add: readEntries_def writeEntries_def)
qed

lemma store_has_add:
  assumes "store_has (store_add f i) sg sc t"
  shows "store_has f sg sc t \<or> in_signature i = sg \<and> in_repoScope i = sc \<and> t < in_now i + in_ttlMs i"
  using assms readEntries_write_sub unfolding store_add_def Let_def store_has_def list_ex_iff by fastforce

text \<open>A decision that writes a grant to disk.\<close>

definition persists :: "ApprovalBridge \<Rightarrow> bridge_op \<Rightarrow> Pending \<Rightarrow> bool" where
  "persists b op p \<longleftrightarrow> (\<exists>rid reason now d. op = Op_resolve rid Dec_allow_for_session reason True now d
     \<and> map_of (br_pending b) rid = Some p \<and> pend_cacheable p \<and> pend_persistable p \<and> persist_enabled b)"

fun foreign_write :: "bridge_op \<Rightarrow> bool" where
  "foreign_write (Op_disk _ _) = True"
| "foreign_write _ = False"

lemma resolve_store:
  assumes p: "map_of (br_pending b) rid = Some p" and run: "resolve b rid dec reason persist now d = (x, b')"
    and new: "store_has (br_store b') sg sc t" and old: "\<not> store_has (br_store b) sg sc t"
  shows "persists b (Op_resolve rid dec reason persist now d) p \<and> pend_signature p = sg \<and> pend_repoScope p = Some sc"
proof -
  have keep: "br_store (take_pending b rid p) = br_store b" "br_persist (cache_pending b rid p) = br_persist b"
    "br_store (cache_pending b rid p) = br_store b"
    by (simp_all add: take_pending_def clear_timer_def cache_pending_def)
  have g: "dec = Dec_allow_for_session" "pend_cacheable p" "persist" "b' = persist_grant (cache_pending b rid p) p now d"
    using new old keep resolve_state [OF p run] by (auto split: if_splits)
  show ?thesis
    using new old p g(2,3) unfolding g(1,4) persist_grant_def
    by (auto simp: keep safePersist_def disk_effect_def persists_def persist_enabled_def
        split: option.splits if_splits dest!: store_has_add)
qed

definition grant_decided :: "classifiers \<Rightarrow> ApprovalBridge \<Rightarrow> bridge_op list \<Rightarrow> jstring \<Rightarrow> jstring \<Rightarrow> bool" where
  "grant_decided C b0 ops sg sc \<longleftrightarrow>
    (\<exists>pre op post p i. ops = pre @ op # post \<and> persists (snd (bridge_run C b0 pre)) op p
       \<and> pend_repoScope p = Some sc \<and> (pend_ticket p, i) \<in> set (requests pre)
       \<and> may_persist C i \<and> computeSignature C i = sg)"

lemma step_store:
  assumes org: "origin_ok C R b" and step: "bridge_step C b op = (os, b')" and foreign: "\<not> foreign_write op"
    and new: "store_has (br_store b') sg sc t" and old: "\<not> store_has (br_store b) sg sc t"
  shows "\<exists>p. persists b op p \<and> pend_signature p = sg \<and> pend_repoScope p = Some sc"
proof (cases op)
  case (Op_request u i)
  then show ?thesis
    using step new old segment_allow [OF requestApproval_segment] by (cases "requestApproval C b u i") auto
next
  case (Op_resume u resolved now)
  show ?thesis
  proof (cases "requestApproval_resume C b u resolved now")
    case None
    then show ?thesis using step new old Op_resume by simp
  next
    case (Some x)
    then obtain oc where "requestApproval_resume C b u resolved now = Some (oc, b')"
      using step Op_resume by (cases x) auto
    then show ?thesis
      using new old by (elim resume_flight [OF org]) (auto dest!: segment_allow simp: land_def)
  qed
next
  case (Op_resolve rid dec reason persist now d)
  show ?thesis
  proof (cases "map_of (br_pending b) rid")
    case None
    then show ?thesis using step new old Op_resolve by (simp add: resolve_def)
  next
    case (Some p)
    then show ?thesis
      using resolve_store [OF Some _ new old] step Op_resolve
      by (intro exI [of _ p]) (cases "resolve b rid dec reason persist now d"; auto)
  qed
next
  case (Op_revoke sig scope d)
  then show ?thesis
    using step new old grants.has_revoke
    by (auto simp: revokePersistedApproval_def safePersist_def disk_effect_def Let_def case_prod_unfold
        split: option.splits if_splits)
qed (use step new old foreign in \<open>auto simp: cancelPending_def take_pending_def clear_timer_def timeout_fires_def
      drain_def foldl_clear_timer_store split: option.splits\<close>)

lemma grant_decided_snoc: "grant_decided C b0 ops sg sc \<Longrightarrow> grant_decided C b0 (ops @ [op]) sg sc"
  unfolding grant_decided_def by fastforce

text \<open>
  C36. Every persistent grant was given by the operator. As long as no other process writes the
  file, a signature that is granted for a repository after a run, and was not granted there before
  it, was allowed for the session with the choice to keep it, on a pending request for that very
  signature and repository, made by an ordinary medium-risk shell command outside bypass mode
  that carries no detected secret, with the feature switched on.
\<close>

theorem persistent_grant_source:
  assumes run: "bridge_run C (bridge_new opts store file) ops = (os, b)" and "\<not> list_ex foreign_write ops"
    and "store_has (br_store b) sg sc t"
  shows "store_has store sg sc t \<or> grant_decided C (bridge_new opts store file) ops sg sc"
  using assms
proof (induction ops arbitrary: os b rule: rev_induct)
  case Nil
  then show ?case by (auto simp: bridge_new_def)
next
  case (snoc op ops)
  obtain os1 b1 os' where r: "bridge_run C (bridge_new opts store file) ops = (os1, b1)"
    "bridge_step C b1 op = (os', b)"
    using snoc.prems(1) by (rule run_snocE)
  note org = run_origin [OF r(1)]
  show ?case
  proof (cases "store_has (br_store b1) sg sc t")
    case True
    then show ?thesis using snoc.IH [OF r(1)] snoc.prems(2) grant_decided_snoc by auto
  next
    case False
    obtain p where p: "persists b1 op p" "pend_signature p = sg" "pend_repoScope p = Some sc"
      using step_store [OF org r(2) _ snoc.prems(3) False] snoc.prems(2) by auto
    then obtain i where "(pend_ticket p, i) \<in> set (requests ops)" "pending_ok C i p"
      using pending_origin [OF org, of op Dec_allow_for_session p] unfolding decides_def persists_def by blast
    then show ?thesis
      unfolding grant_decided_def using p r(1)
      by (intro disjI2 exI [of _ ops] exI [of _ op] exI [of _ "[]"] exI [of _ p] exI [of _ i])
         (auto simp: pending_ok_def persists_def)
  qed
qed

definition sample_grant_bridge :: ApprovalBridge where
  "sample_grant_bridge = bridge_new \<lparr>opt_timeoutMs = None, opt_persist = Some \<lparr>ps_enabled = True, ps_ttlMs = 100\<rparr>,
     opt_policy = None, opt_policyRepos = None, opt_hasResolver = False, opt_policyEnvEnabled = None,
     opt_persistPolicy = False\<rparr> None None"

definition sample_grant_ops :: "bridge_op list" where
  "sample_grant_ops = [Op_request 0 (sample_input ''default''), Op_resume 0 (Some (js ''0f'', None)) 0,
     Op_resolve sample_rid Dec_allow_for_session None True 0 Disk_ok]"

lemma sample_suspends:
  "requestApproval sample_cl sample_grant_bridge 0 (sample_input ''default'') =
    (Suspended, sample_grant_bridge\<lparr>br_flights := [(0, Await_persist (sample_input ''default'') Trig_destructive []
       (computeSignature sample_cl (sample_input ''default'')))]\<rparr>)"
proof -
  have "requiresHumanApproval sample_cl (sample_input ''default'') =
      \<lparr>gd_gated = True, gd_trigger = Some Trig_destructive, gd_secretKinds = []\<rparr>"
    "isPersistableBash sample_cl (sample_input ''default'')"
    by (simp_all add: requiresHumanApproval_def requiresDestructiveApproval_def detectSecretInInput_def Let_def
        sample_input_def sample_cl_def tool_name_def classifyTool_def input_string_def secret_field_def
        scanned_fields_def isPersistableBash_def)
  then show ?thesis
    by (simp add: requestApproval_def request_gate_def Let_def secret_triggered_def)
       (simp add: sample_input_def isBypassPermissionMode_def BYPASS_PERMISSION_MODE_def sample_grant_bridge_def
        bridge_new_def persist_enabled_def)
qed

lemma sample_grant_store:
  "br_store (snd (bridge_run sample_cl sample_grant_bridge sample_grant_ops)) =
    store_add None \<lparr>in_signature = computeSignature sample_cl (sample_input ''default''), in_repoScope = js ''0f'',
      in_repoLabel = None, in_risk = js ''medium'', in_ttlMs = 100, in_now = 0\<rparr>"
proof -
  have "open_request sample_cl sample_grant_bridge 0 (sample_input ''default'') Trig_destructive [] sig True scope =
      (Emitted sample_rid \<lparr>gr_trigger = Trig_destructive, gr_secretKinds = [], gr_persistable = (scope \<noteq> None)\<rparr>,
       sample_grant_bridge\<lparr>br_minted := 1, br_timers := [(0, sample_rid)],
         br_pending := [(sample_rid, opened 0 sig True scope)]\<rparr>)" for sig scope
    by (simp add: open_request_def nextRequestId_def mint_def eval_nat_numeral sample_cl_def sample_rid_def
        sample_input_def)
       (simp add: sample_grant_bridge_def bridge_new_def opened_def)
  moreover have "land (sample_grant_bridge\<lparr>br_flights := [(0, f)]\<rparr>) 0 = sample_grant_bridge" for f
    by (simp add: land_def sample_grant_bridge_def bridge_new_def)
  moreover have "store_has (br_store sample_grant_bridge) sg sc t = False" for sg sc t
    by (simp add: sample_grant_bridge_def bridge_new_def store_has_def readEntries_def)
  ultimately show ?thesis
    by (simp add: sample_grant_ops_def sample_suspends outcome_out_def requestApproval_resume_def request_persist_def
        resolve_def Let_def opened_def persist_grant_def take_pending_def clear_timer_def)
       (simp add: sample_grant_bridge_def bridge_new_def safePersist_def disk_effect_def)
qed

theorem persistent_grant_source_witness:
  "grant_decided sample_cl sample_grant_bridge sample_grant_ops (computeSignature sample_cl (sample_input ''default'')) (js ''0f'')"
proof -
  let ?sig = "computeSignature sample_cl (sample_input ''default'')"
  have "?sig \<noteq> []"
    by (cases "operation_key sample_cl (sample_input ''default'')")
       (simp add: computeSignature_def encodeOperationSignature_def json_string_array_def, simp add: sample_cl_def)
  then have "store_has (br_store (snd (bridge_run sample_cl sample_grant_bridge sample_grant_ops))) ?sig (js ''0f'') 99"
    using grants.has_add_same [of "\<lparr>in_signature = ?sig, in_repoScope = js ''0f'', in_repoLabel = None,
        in_risk = js ''medium'', in_ttlMs = 100, in_now = 0\<rparr>" None 99]
    by (simp add: sample_grant_store)
  moreover have "\<not> list_ex foreign_write sample_grant_ops" by (simp add: sample_grant_ops_def)
  moreover have "\<not> store_has None ?sig (js ''0f'') 99" by (simp add: store_has_def readEntries_def)
  ultimately show ?thesis
    using persistent_grant_source [OF prod.collapse [symmetric]] unfolding sample_grant_bridge_def by blast
qed

end
