(* ===== verification/Approval_Gates.thy ===== *)
theory Approval_Gates
  imports Approval_Bridge_Correct
begin

text \<open>
  What the gates of the approval bridge decide, the authority of the policy in memory, and the
  identity of an operation behind its signature.
\<close>

section \<open>Signatures\<close>

definition signature_preimage :: "classifiers \<Rightarrow> HookCommonInput \<Rightarrow> jstring" where
  "signature_preimage C i = (case operation_key C i of (kind, risk, operand) \<Rightarrow> json_string_array [kind, risk, operand])"

text \<open>
  A signature identifies its operation. The signature of a tool call is the hash of a text
  that determines, and is determined by, its tool kind, its risk and its operand (command, file
  path, or tool name with the whole input), whatever characters occur in them. Two calls share a
  signature only if they are the same operation or their two texts collide under the hash.
\<close>

theorem signature_identifies:
  "computeSignature C i = cl_sha256 C (signature_preimage C i)
   \<and> (signature_preimage C i = signature_preimage C j \<longleftrightarrow> operation_key C i = operation_key C j)"
  by (cases "operation_key C i"; cases "operation_key C j")
     (auto simp: computeSignature_def encodeOperationSignature_def signature_preimage_def dest!: json_array3_inj)

section \<open>The gates\<close>

definition defers :: "Outcome \<Rightarrow> bool" where
  "defers oc \<longleftrightarrow> (\<exists>r. oc = Settled r \<and> ar_behavior r = Defer)"

lemma defers_simps:
  "defers (Settled (simple_result Defer s))" "\<not> defers Suspended"
  "\<not> defers (Settled ((simple_result Allow s)\<lparr>ar_autoAllowed := x\<rparr>))"
  by (simp_all add: defers_def simple_result_def)

lemma open_request_not_defers: "\<not> defers (fst (open_request C b t i tr ks sig c sc))"
  by (simp add: open_request_def defers_def split: prod.split)

lemma request_gate_defers:
  "defers (fst (request_gate C b t i bp)) \<longleftrightarrow>
    \<not> gd_gated (case bp of Some g \<Rightarrow> g | None \<Rightarrow>
        if hi_hook_event_name i = js ''PermissionRequest'' then gatePermissionRequest C i else requiresHumanApproval C i)"
  unfolding request_gate_def Let_def
  by (simp only: if_distrib [of fst] if_distrib [of defers] fst_conv defers_simps open_request_not_defers
      if_True if_False simp_thms if_cancel) simp

lemma gated_iff:
  "gd_gated (requiresHumanApproval C i) \<longleftrightarrow> requiresDestructiveApproval C i \<or> secret_in C i"
  "gd_gated (gatePermissionRequest C i)" "gd_gated (policyGateDecision C m i)"
  by (auto simp: requiresHumanApproval_def gatePermissionRequest_def policyGateDecision_def Let_def secret_in_def
      split: prod.splits)

lemma deferred_exactly:
  assumes "bypassed i \<longrightarrow> br_policyRepos b = [] \<or> \<not> br_hasResolver b"
  shows "(defers (fst (requestApproval C b t i)) \<longleftrightarrow>
      (if bypassed i
       then \<not> (\<exists>live. effectiveLivePolicy b None = Some live \<and> pol_enabled live
                \<and> opCategories C i \<inter> pol_categories live \<noteq> {})
       else hi_hook_event_name i \<noteq> js ''PermissionRequest'' \<and> \<not> requiresDestructiveApproval C i \<and> \<not> secret_in C i))
    \<and> (defers (fst (request_policy C b' t i scope)) \<longleftrightarrow>
         \<not> (\<exists>live. effectiveLivePolicy b' scope = Some live \<and> pol_enabled live
                \<and> opCategories C i \<inter> pol_categories live \<noteq> {}))"
proof -
  have matched: "matchedPolicyCategories C i S = opCategories C i \<inter> S" for S
    by (auto simp: matchedPolicyCategories_def)
  have policy: "defers (fst (request_policy C b t i scope)) \<longleftrightarrow>
      \<not> (\<exists>live. effectiveLivePolicy b scope = Some live \<and> pol_enabled live \<and> opCategories C i \<inter> pol_categories live \<noteq> {})"
    for b scope
    by (auto simp: request_policy_def defers_simps matched Let_def request_gate_defers gated_iff split: option.splits)
  show ?thesis
    using assms by (auto simp: policy requestApproval_def bypassed_def request_gate_defers gated_iff)
qed

text \<open>
  C39. Exactly what is not gated is deferred to the agent's own permission flow. Outside bypass
  mode a call is deferred if and only if it is not an explicit permission request, is not
  destructive and carries no detected secret. In bypass mode the call is deferred if and only if
  the effective policy of its repository is absent, switched off, or gates none of the
  operation's categories. Every other call is allowed from a list or waits for the operator; it is
  never silently passed on.
\<close>

theorem gate_exact:
  assumes "bypassed i \<longrightarrow> br_policyRepos b = [] \<or> \<not> br_hasResolver b"
  shows "(defers (fst (requestApproval C b t i)) \<longleftrightarrow>
      (if bypassed i
       then \<not> (\<exists>live. effectiveLivePolicy b None = Some live \<and> pol_enabled live
                \<and> opCategories C i \<inter> pol_categories live \<noteq> {})
       else hi_hook_event_name i \<noteq> js ''PermissionRequest'' \<and> \<not> requiresDestructiveApproval C i \<and> \<not> secret_in C i))
    \<and> (defers (fst (request_policy C b' t i scope)) \<longleftrightarrow>
         \<not> (\<exists>live. effectiveLivePolicy b' scope = Some live \<and> pol_enabled live
                \<and> opCategories C i \<inter> pol_categories live \<noteq> {}))"
  by (rule deferred_exactly [OF assms])

theorem gate_exact_witness:
  "bypassed (sample_input ''bypassPermissions'')
   \<and> \<not> defers (fst (requestApproval sample_cl sample_bridge 0 (sample_input ''bypassPermissions'')))"
proof -
  have b: "br_policyRepos sample_bridge = []"
    "effectiveLivePolicy sample_bridge None = Some defaultPreset"
    by (simp_all add: sample_bridge_def bridge_new_def effectiveLivePolicy_def deriveLivePolicy_def or_else_def
        defaultPreset_def)
  have "PC_recursive_rm \<in> opCategories sample_cl (sample_input ''bypassPermissions'')"
    by (simp add: opCategories_def sample_input_def tool_name_def classifyTool_def input_string_def sample_cl_def Let_def)
  moreover have "bypassed (sample_input ''bypassPermissions'')"
    by (simp add: bypassed_def sample_input_def isBypassPermissionMode_def BYPASS_PERMISSION_MODE_def)
  ultimately show ?thesis
    using gate_exact [of "sample_input ''bypassPermissions''" sample_bridge sample_cl 0] b
    by (auto simp: defaultPreset_def DEFAULT_GATED_CATEGORIES_def)
qed

section \<open>The policy in memory is the authority\<close>

definition policy_state :: "ApprovalBridge \<Rightarrow> _" where
  "policy_state b = (br_policyDefault b, br_policyRepos b, br_policyEnvEnabled b)"

fun policy_op :: "bridge_op \<Rightarrow> bool" where
  "policy_op (Op_set_policy _ _) = True"
| "policy_op (Op_remove_policy _ _ _) = True"
| "policy_op _ = False"

lemma open_request_policy: "policy_state (snd (open_request C b t i tr ks sig c sc)) = policy_state b"
  by (rule open_request_cases [of C b t i tr ks sig c sc]) (simp add: policy_state_def)

lemma request_gate_policy: "policy_state (snd (request_gate C b t i bp)) = policy_state b"
proof -
  have flight: "policy_state (b\<lparr>br_flights := f\<rparr>) = policy_state b" for f by (simp add: policy_state_def)
  show ?thesis
    unfolding request_gate_def Let_def
    by (simp only: if_distrib [of snd] if_distrib [of policy_state] snd_conv open_request_policy flight if_cancel)
qed

lemma request_policy_policy: "policy_state (snd (request_policy C b t i scope)) = policy_state b"
  by (simp add: request_policy_def Let_def request_gate_policy split: option.split)

lemma requestApproval_policy: "policy_state (snd (requestApproval C b t i)) = policy_state b"
  by (simp add: requestApproval_def request_policy_policy request_gate_policy) (simp add: policy_state_def)

lemma land_policy: "policy_state (land b t) = policy_state b"
  by (simp add: land_def policy_state_def)

lemma resume_policy:
  "requestApproval_resume C b t resolved now = Some (oc, b') \<Longrightarrow> policy_state b' = policy_state b"
  by (auto simp: requestApproval_resume_def request_persist_def land_policy
      split: option.splits Flight.splits if_splits
      dest!: arg_cong [where f = "policy_state \<circ> snd"]
      simp: request_policy_policy open_request_policy)

lemma persist_grant_policy: "policy_state (persist_grant b p now d) = policy_state b"
  by (simp add: persist_grant_def safePersist_def policy_state_def split: option.split)

lemma take_pending_policy: "policy_state (take_pending b rid p) = policy_state b"
  "policy_state (cache_pending b rid p) = policy_state b"
  by (simp_all add: take_pending_def clear_timer_def cache_pending_def policy_state_def)

lemma resolve_policy: "policy_state (snd (resolve b rid dec reason persist now d)) = policy_state b"
proof (cases "map_of (br_pending b) rid")
  case None
  then show ?thesis by (simp add: resolve_def)
next
  case (Some p)
  show ?thesis
    using resolve_state [OF Some prod.collapse [symmetric]]
    by (simp add: persist_grant_policy take_pending_policy)
qed

lemma drain_policy: "policy_state (snd (drain b)) = policy_state b"
proof -
  have "policy_state (foldl clear_timer b ts) = policy_state b" for ts
    by (induction ts arbitrary: b) (simp_all add: clear_timer_def policy_state_def)
  then show ?thesis by (simp add: drain_def policy_state_def)
qed

text \<open>Only the two policy operations change the policy state, and what they make of it depends on it alone.\<close>

lemma step_policy_quiet: "\<not> policy_op op \<Longrightarrow> policy_state (snd (bridge_step C b op)) = policy_state b"
proof (cases op)
  case (Op_resume t resolved now)
  then show ?thesis
    by (cases "requestApproval_resume C b t resolved now") (auto dest: resume_policy)
qed (auto simp: requestApproval_policy resolve_policy drain_policy cancelPending_def timeout_fires_def
      revokePersistedApproval_def safePersist_def Let_def take_pending_policy clear_timer_def
      split: option.splits prod.splits, auto simp: policy_state_def)

lemma set_policy_state:
  "policy_state b1 = policy_state b2 \<Longrightarrow>
    policy_state (snd (setPolicyConfig b1 u d)) = policy_state (snd (setPolicyConfig b2 u d))"
  by (auto simp: setPolicyConfig_def policy_state_def Let_def case_prod_unfold split: option.split)

lemma remove_policy_state:
  "policy_state b1 = policy_state b2 \<Longrightarrow>
    policy_state (snd (removePolicyRepo b1 sc p d)) = policy_state (snd (removePolicyRepo b2 sc p d))"
  by (auto simp: removePolicyRepo_def policy_state_def Let_def case_prod_unfold)

lemma step_policy_cong:
  "policy_op op \<Longrightarrow> policy_state b1 = policy_state b2 \<Longrightarrow>
    policy_state (snd (bridge_step C b1 op)) = policy_state (snd (bridge_step C b2 op))"
  by (cases op) (auto intro: set_policy_state remove_policy_state)

lemma bridge_run_snd: "snd (bridge_run C b (op # ops)) = snd (bridge_run C (snd (bridge_step C b op)) ops)"
  by (simp add: case_prod_unfold apfst_def map_prod_def)

lemma run_policy:
  "policy_state b1 = policy_state b2 \<Longrightarrow>
    policy_state (snd (bridge_run C b1 ops)) = policy_state (snd (bridge_run C b2 (filter policy_op ops)))"
proof (induction ops arbitrary: b1 b2)
  case (Cons op ops)
  show ?case
  proof (cases "policy_op op")
    case True
    then show ?thesis
      using Cons.IH [OF step_policy_cong [OF True Cons.prems]] by (simp add: bridge_run_snd del: bridge_run.simps)
  next
    case False
    then have "policy_state (snd (bridge_step C b1 op)) = policy_state b2"
      using Cons.prems step_policy_quiet by simp
    from Cons.IH [OF this] False show ?thesis by (simp add: bridge_run_snd del: bridge_run.simps)
  qed
qed simp

text \<open>
  The policy in memory is the authority. After any run, the policy that gates an operation
  is the one obtained from the operator's policy changes alone: requests, decisions, time-outs and,
  in particular, whatever other processes write into the policy file or the allow-list while the
  sidecar runs, have no influence on it. Outside the operator's changes nothing can weaken a gate.
\<close>

theorem live_policy_authoritative:
  "effectiveLivePolicy (snd (bridge_run C b ops)) scope
   = effectiveLivePolicy (snd (bridge_run C b (filter policy_op ops))) scope"
  using run_policy [of b b C ops]
  by (simp add: policy_state_def effectiveLivePolicy_def deriveLivePolicy_def split: option.split)

section \<open>A policy change in memory and on disk\<close>

definition memory_view :: "ApprovalBridge \<Rightarrow> scope_view option \<times> (jstring \<rightharpoonup> scope_view)" where
  "memory_view b = (map_option config_view (br_policyDefault b), \<lambda>s. map_option entry_view (map_of (br_policyRepos b) s))"

fun memory_spec :: "PolicyDelta \<Rightarrow> scope_view option \<times> (jstring \<rightharpoonup> scope_view) \<Rightarrow> scope_view option \<times> (jstring \<rightharpoonup> scope_view)" where
  "memory_spec (Set_default c) (d, r) = (Some (config_view c), r)"
| "memory_spec (Set_repo s e) (d, r) = (d, r(s \<mapsto> entry_view e))"
| "memory_spec (Remove_repo s) (d, r) = (d, r(s := None))"

text \<open>The change an update asks for.\<close>

fun honours :: "PolicyUpdate \<Rightarrow> PolicyDelta \<Rightarrow> bool" where
  "honours u (Set_default c) \<longleftrightarrow> up_repoScope u = None \<and> pol_categories c \<noteq> {}
     \<and> up_enabled u \<in> {None, Some (pol_enabled c)}
     \<and> up_categories u \<in> {None, Some {}, Some (pol_categories c)}"
| "honours u (Set_repo s e) \<longleftrightarrow> up_repoScope u = Some s \<and> up_enabled u \<in> {None, Some (pol_enabled e)}
     \<and> up_categories u \<in> {None, Some (pol_categories e)}"
| "honours u (Remove_repo s) \<longleftrightarrow> False"

definition writes_disk :: "ApprovalBridge \<Rightarrow> bool option \<Rightarrow> Disk \<Rightarrow> bool" where
  "writes_disk b flag d \<longleftrightarrow> flag \<noteq> Some False \<and> br_persistPolicy b \<and> d \<noteq> Disk_throws"

lemma persist_unless_file:
  "br_policyFile (snd (persist_unless flag b delta d)) =
    (if writes_disk b flag d then applyPolicyDelta delta (br_policyFile b) else br_policyFile b)"
  "fst (persist_unless flag b delta d) \<longleftrightarrow> flag = Some False \<or> \<not> br_persistPolicy b \<or> d = Disk_ok"
  by (auto simp: persist_unless_def persistDelta_def safePersist_def disk_effect_def writes_disk_def)

definition disk_agrees :: "ApprovalBridge \<Rightarrow> ApprovalBridge \<Rightarrow> PolicyDelta \<Rightarrow> bool option \<Rightarrow> Disk \<Rightarrow> bool" where
  "disk_agrees b b' \<delta> flag d \<longleftrightarrow>
    (if writes_disk b flag d
     then policy_view (loadApprovalPolicy (br_policyFile b')) = delta_spec \<delta> (policy_view (loadApprovalPolicy (br_policyFile b)))
     else br_policyFile b' = br_policyFile b)"

lemma or_else_simps [simp]: "or_else (Some x) y = x" "or_else None y = y"
  by (simp_all add: or_else_def)

lemma setPolicyConfig_delta:
  "\<exists>\<delta>. honours u \<delta> \<and> memory_view (snd (setPolicyConfig b u d)) = memory_spec \<delta> (memory_view b)
     \<and> br_policyFile (snd (setPolicyConfig b u d)) =
         (if writes_disk b (up_persist u) d then applyPolicyDelta \<delta> (br_policyFile b) else br_policyFile b)
     \<and> (pv_persistError (fst (setPolicyConfig b u d)) \<longleftrightarrow>
          up_persist u \<noteq> Some False \<and> br_persistPolicy b \<and> d \<noteq> Disk_ok)"
proof (cases "up_repoScope u")
  case None
  define cats where "cats = or_else (up_categories u) (or_else (map_option pol_categories (br_policyDefault b)) {})"
  define c where "c = \<lparr>pol_enabled = or_else (up_enabled u) (or_else (map_option pol_enabled (br_policyDefault b)) True),
    pol_categories = (if cats \<noteq> {} then cats else set DEFAULT_GATED_CATEGORIES)\<rparr>"
  have "honours u (Set_default c)"
    using None default_gated_ne
    by (cases "up_enabled u"; cases "up_categories u") (auto simp: c_def cats_def)
  moreover have "setPolicyConfig b u d = (case persist_unless (up_persist u) (b\<lparr>br_policyDefault := Some c\<rparr>) (Set_default c) d of
      (ok, b2) \<Rightarrow> ((getPolicyConfig b2 None)\<lparr>pv_persistError := \<not> ok\<rparr>, b2))"
    using None by (simp add: setPolicyConfig_def Let_def c_def cats_def)
  ultimately show ?thesis
    by (intro exI [of _ "Set_default c"])
       (auto simp: case_prod_unfold memory_view_def persist_unless_file writes_disk_def)
next
  case (Some s)
  define base where "base = map_of (br_policyRepos b) s"
  define e where "e = \<lparr>pol_enabled = or_else (up_enabled u) (or_else (map_option pol_enabled base) True),
    pol_categories = or_else (up_categories u) (or_else (map_option pol_categories base) {}),
    pol_label = (case up_repoLabel u of Some l \<Rightarrow> Some l | None \<Rightarrow> Option.bind base pol_label)\<rparr>"
  have "honours u (Set_repo s e)"
    using Some by (cases "up_enabled u"; cases "up_categories u") (auto simp: e_def)
  moreover have "setPolicyConfig b u d = (case persist_unless (up_persist u)
      (b\<lparr>br_policyRepos := AList.update s e (br_policyRepos b)\<rparr>) (Set_repo s e) d of
      (ok, b2) \<Rightarrow> ((getPolicyConfig b2 (Some s))\<lparr>pv_persistError := \<not> ok\<rparr>, b2))"
    unfolding setPolicyConfig_def Some option.case Let_def base_def [symmetric] e_def [symmetric] ..
  ultimately show ?thesis
    by (intro exI [of _ "Set_repo s e"])
       (auto simp: case_prod_unfold memory_view_def persist_unless_file writes_disk_def update_conv')
qed

text \<open>
  A policy change reaches memory and disk alike. Updating the policy of the machine or of one
  repository makes one change, which honours the fields of the update and never leaves the default
  empty; the live policy in memory gets exactly that change at once, also when the disk fails; the
  file gets exactly that change, and keeps every other entry, unless the update is a copy that
  must not be persisted or the write fails, in which case it is untouched; and a failed write
  is reported to the caller.
\<close>

theorem policy_update_refines:
  assumes "case up_repoScope u of Some s \<Rightarrow> REPO_SCOPE_RE s | None \<Rightarrow> True"
    and "setPolicyConfig b u d = (view, b')"
  shows "\<exists>\<delta>. honours u \<delta> \<and> memory_view b' = memory_spec \<delta> (memory_view b)
    \<and> disk_agrees b b' \<delta> (up_persist u) d
    \<and> (pv_persistError view \<longleftrightarrow> up_persist u \<noteq> Some False \<and> br_persistPolicy b \<and> d \<noteq> Disk_ok)"
proof -
  obtain \<delta> where \<delta>: "honours u \<delta>" "memory_view b' = memory_spec \<delta> (memory_view b)"
    "br_policyFile b' = (if writes_disk b (up_persist u) d then applyPolicyDelta \<delta> (br_policyFile b) else br_policyFile b)"
    "pv_persistError view \<longleftrightarrow> up_persist u \<noteq> Some False \<and> br_persistPolicy b \<and> d \<noteq> Disk_ok"
    using setPolicyConfig_delta [of u b d] assms(2) by auto
  have "delta_ok \<delta>" using \<delta>(1) assms(1) by (cases \<delta>) auto
  then have "disk_agrees b b' \<delta> (up_persist u) d"
    using \<delta>(3) delta_roundtrip by (simp add: disk_agrees_def)
  then show ?thesis using \<delta> by blast
qed

definition sample_update :: PolicyUpdate where
  "sample_update = \<lparr>up_enabled = None, up_categories = Some {}, up_repoScope = None, up_repoLabel = None,
     up_persist = None\<rparr>"

theorem policy_update_refines_witness:
  "\<exists>\<delta>. honours sample_update \<delta>
     \<and> memory_view (snd (setPolicyConfig sample_bridge sample_update Disk_throws)) = memory_spec \<delta> (memory_view sample_bridge)
     \<and> pv_persistError (fst (setPolicyConfig sample_bridge sample_update Disk_throws))"
  using policy_update_refines [of sample_update sample_bridge Disk_throws, OF _ prod.collapse [symmetric]]
  by (auto simp: sample_update_def sample_bridge_def bridge_new_def)

end
