(* ===== verification/Audit_Integrity.thy ===== *)
theory Audit_Integrity
  imports Json_Text
begin

text \<open>
  Tamper-evident audit exports (\<^verbatim>\<open>apps/backend/src/audit-integrity.ts\<close>) and the review packets built on
  them (\<^verbatim>\<open>apps/backend/src/audit-packet.ts\<close>, without its HTML and Markdown rendering).

  A manifest is a JSON value: the verifier receives it from outside, so every field may be missing
  or of any type. The hash, the base64 decoder, the Ed25519 verifier of \<^verbatim>\<open>node:crypto\<close> and
  \<^verbatim>\<open>Number.prototype.toString\<close> are the fields of the record \<open>crypto\<close>; \<^term>\<open>None\<close> stands for an
  exception they throw, and for one that leaves a function of the module.
\<close>

section \<open>Data\<close>

record crypto =
  cr_sha256 :: "jstring \<Rightarrow> jstring"
  cr_shaBytes :: "nat list \<Rightarrow> jstring"
  cr_fromBase64 :: "jsval \<Rightarrow> nat list option"
  cr_verify :: "nat list \<Rightarrow> jstring \<Rightarrow> nat list \<Rightarrow> bool option"
  cr_num :: "jsnum \<Rightarrow> jstring"

record ReplayEventDTO =
  re_event_id :: jstring
  re_timestamp :: jstring
  re_event_type :: jstring
  re_kind :: jstring
  re_risk_level :: "jstring option"
  re_decision :: "jstring option"
  re_exit_code :: "jsnum option"
  re_elapsed_ms :: "jsnum option"
  re_command :: "jstring option"
  re_path :: "jstring option"
  re_subject :: "jstring option"

record AuditApprovalEntry =
  ae_risk_level :: "jstring option"
  ae_command :: "jstring option"
  ae_path :: "jstring option"
  ae_decision :: "jstring option"
  ae_resolution_origin :: "jstring option"

record AuditApprovalSummary =
  ap_total :: rat
  ap_allow :: rat
  ap_allow_for_session :: rat
  ap_deny :: rat
  ap_cancel :: rat
  ap_synthetic_retired :: rat
  ap_pending :: rat

record AuditSessionSummary =
  as_session_id :: jstring
  as_provider :: jstring
  as_source :: jstring
  as_agent_id :: "jstring option"
  as_repo :: "jstring option"
  as_branch :: "jstring option"
  as_cwd :: "jstring option"
  as_capture_mode :: "jstring option"
  as_permission_mode :: "jstring option"
  as_state :: "jstring option"
  as_started_at :: "jstring option"
  as_ended_at :: "jstring option"
  as_last_event_at :: "jstring option"
  as_secret_detected :: bool
  as_secret_redaction_count :: rat
  as_by_kind :: "(jstring \<times> rat) list"
  as_approvals :: AuditApprovalSummary
  as_high_risk_op_count :: rat
  as_auto_allowed_count :: rat
  as_entries :: "AuditApprovalEntry list option"

record AuditSessionReportDiff =
  ad_available :: bool
  ad_body :: "jstring option"
  ad_truncated :: "bool option"
  ad_secret_detected :: "bool option"
  ad_redaction_count :: "rat option"
  ad_unavailable_reason :: "jstring option"

record AuditSessionReport =
  rp_generated_at :: jstring
  rp_summary :: AuditSessionSummary
  rp_events :: "ReplayEventDTO list"
  rp_events_truncated :: bool
  rp_diff :: "AuditSessionReportDiff option"

record AuditSigner =
  sg_fingerprint :: jstring
  sg_publicKey :: jstring
  sg_sign :: "jstring \<Rightarrow> jstring"

record AuditVerifyResult =
  vr_ok :: bool
  vr_chain_valid :: bool
  vr_signed :: bool
  vr_signature_valid :: "bool option"
  vr_key_trusted :: "bool option"
  vr_reason :: string

definition AUDIT_MANIFEST_MARKER :: string where
  "AUDIT_MANIFEST_MARKER = ''actradeck-audit-manifest''"

definition AUDIT_MANIFEST_VERSION :: string where
  "AUDIT_MANIFEST_VERSION = ''actradeck-audit-manifest/v3''"

definition AUDIT_CHAIN_ALGORITHM :: string where
  "AUDIT_CHAIN_ALGORITHM = ''sha256-chain''"

definition CHAIN_DOMAIN :: string where
  "CHAIN_DOMAIN = AUDIT_MANIFEST_VERSION @ ''/'' @ AUDIT_CHAIN_ALGORITHM"

definition AUDIT_PACKET_MANIFEST_MARKER :: string where
  "AUDIT_PACKET_MANIFEST_MARKER = ''actradeck-audit-packet-manifest''"

definition AUDIT_PACKET_MANIFEST_VERSION :: string where
  "AUDIT_PACKET_MANIFEST_VERSION = ''actradeck-audit-packet-manifest/v2''"

definition PACKET_CHAIN_DOMAIN :: string where
  "PACKET_CHAIN_DOMAIN = AUDIT_PACKET_MANIFEST_VERSION @ ''/'' @ AUDIT_CHAIN_ALGORITHM"

section \<open>Canonical text\<close>

definition canonJSON :: "crypto \<Rightarrow> jsval list \<Rightarrow> jstring" where
  "canonJSON K vs = json_stringify (cr_num K) (JArr vs)"

definition chainStep :: "crypto \<Rightarrow> jstring \<Rightarrow> jstring \<Rightarrow> jstring" where
  "chainStep K prev canon = cr_sha256 K (prev @ canon)"

definition fingerprintOfPublicKey :: "crypto \<Rightarrow> jsval \<Rightarrow> jstring option" where
  "fingerprintOfPublicKey K publicKeyB64 = map_option (cr_shaBytes K) (cr_fromBase64 K publicKeyB64)"

definition fields_of :: "jsval \<Rightarrow> string list \<Rightarrow> jsval list" where
  "fields_of v ks = map (\<lambda>k. js_get v (js k)) ks"

definition event_keys :: "string list" where
  "event_keys = [''event_id'', ''timestamp'', ''event_type'', ''kind'', ''risk_level'', ''decision'',
     ''exit_code'', ''elapsed_ms'', ''command'']"

definition canonicalizeEventFields :: "crypto \<Rightarrow> jsval \<Rightarrow> jstring" where
  "canonicalizeEventFields K e = canonJSON K (fields_of e event_keys)"

definition summary_keys :: "string list" where
  "summary_keys = [''provider'', ''source'', ''agent_id'', ''repo'', ''branch'', ''cwd'', ''capture_mode'',
     ''permission_mode'', ''state'', ''started_at'', ''ended_at'', ''last_event_at'', ''secret_detected'',
     ''secret_redaction_count'', ''redaction_by_kind'', ''approval_total'', ''approval_allow'',
     ''approval_allow_for_session'', ''approval_deny'', ''approval_cancel'', ''approval_synthetic_retired'',
     ''approval_pending'', ''high_risk_op_count'']"

definition canonicalizeSummary :: "crypto \<Rightarrow> jsval \<Rightarrow> jstring" where
  "canonicalizeSummary K s = canonJSON K (fields_of s summary_keys)"

definition diff_keys :: "string list" where
  "diff_keys = [''available'', ''truncated'', ''secret_detected'', ''redaction_count'', ''unavailable_reason'',
     ''body_sha256'']"

text \<open>A \<^verbatim>\<open>null\<close> diff makes the property accesses throw.\<close>

fun canonicalizeDiff :: "crypto \<Rightarrow> jsval \<Rightarrow> jstring option" where
  "canonicalizeDiff K JUndef = Some (canonJSON K [])"
| "canonicalizeDiff K JNull = None"
| "canonicalizeDiff K d = Some (canonJSON K (fields_of d diff_keys))"

section \<open>Projections\<close>

definition str_string :: "jstring option \<Rightarrow> jsval" where
  "str_string v = JStr (case v of Some s \<Rightarrow> s | None \<Rightarrow> [])"

definition str_number :: "crypto \<Rightarrow> jsnum option \<Rightarrow> jsval" where
  "str_number K v = JStr (case v of Some n \<Rightarrow> cr_num K n | None \<Rightarrow> [])"

definition str_bool :: "bool option \<Rightarrow> jsval" where
  "str_bool v = JStr (case v of Some b \<Rightarrow> js (if b then ''true'' else ''false'') | None \<Rightarrow> [])"

fun first_some :: "'a option list \<Rightarrow> 'a option" where
  "first_some [] = None"
| "first_some (Some x # xs) = Some x"
| "first_some (None # xs) = first_some xs"

definition named :: "string list \<Rightarrow> jsval list \<Rightarrow> jsval" where
  "named ks vs = JObj (zip (map js ks) vs)"

definition normalizeEventForManifest :: "crypto \<Rightarrow> ReplayEventDTO \<Rightarrow> jsval list" where
  "normalizeEventForManifest K e =
    [JStr (re_event_id e), JStr (re_timestamp e), JStr (re_event_type e), JStr (re_kind e),
     str_string (re_risk_level e), str_string (re_decision e), str_number K (re_exit_code e),
     str_number K (re_elapsed_ms e), str_string (first_some [re_command e, re_path e, re_subject e])]"

definition by_kind_pairs :: "crypto \<Rightarrow> (jstring \<times> rat) list \<Rightarrow> jsval" where
  "by_kind_pairs K m = JArr (map (\<lambda>(k, v). JArr [JStr k, JStr (cr_num K (JFin v))]) (sort_key fst m))"

definition normalizeSummaryForManifest :: "crypto \<Rightarrow> AuditSessionSummary \<Rightarrow> jsval list" where
  "normalizeSummaryForManifest K s =
    (let a = as_approvals s; num = (\<lambda>q. str_number K (Some (JFin q))) in
     [JStr (as_provider s), JStr (as_source s), str_string (as_agent_id s), str_string (as_repo s),
      str_string (as_branch s), str_string (as_cwd s), str_string (as_capture_mode s),
      str_string (as_permission_mode s), str_string (as_state s), str_string (as_started_at s),
      str_string (as_ended_at s), str_string (as_last_event_at s), str_bool (Some (as_secret_detected s)),
      num (as_secret_redaction_count s), by_kind_pairs K (as_by_kind s), num (ap_total a), num (ap_allow a),
      num (ap_allow_for_session a), num (ap_deny a), num (ap_cancel a), num (ap_synthetic_retired a),
      num (ap_pending a), num (as_high_risk_op_count s)])"

definition normalizeDiffForManifest :: "crypto \<Rightarrow> AuditSessionReportDiff \<Rightarrow> jsval list" where
  "normalizeDiffForManifest K d =
    [str_bool (Some (ad_available d)), str_bool (ad_truncated d), str_bool (ad_secret_detected d),
     str_number K (map_option JFin (ad_redaction_count d)), str_string (ad_unavailable_reason d),
     JStr (case ad_body d of None \<Rightarrow> [] | Some body \<Rightarrow> cr_sha256 K body)]"

section \<open>Building a session manifest\<close>

definition canonicalizeHeader :: "crypto \<Rightarrow> jsval \<Rightarrow> jstring" where
  "canonicalizeHeader K m =
    canonJSON K (JStr (js AUDIT_MANIFEST_VERSION) # fields_of m [''session_id'', ''generated_at'', ''event_count'', ''root''])"

definition chain_start :: "crypto \<Rightarrow> jsval \<Rightarrow> jsval \<Rightarrow> jstring" where
  "chain_start K session_id summary =
    chainStep K (cr_sha256 K (js CHAIN_DOMAIN @ canonJSON K [session_id])) (canonicalizeSummary K summary)"

text \<open>The loops that hash the elements one after the other and record the running hash in each.\<close>

fun build_chain :: "crypto \<Rightarrow> string list \<Rightarrow> (jsval \<Rightarrow> jstring) \<Rightarrow> jstring \<Rightarrow> jsval list list \<Rightarrow> jsval list \<times> jstring" where
  "build_chain K ks canon prev [] = ([], prev)"
| "build_chain K ks canon prev (fs # fss) =
    (let h = chainStep K prev (canon (named ks fs));
         (es, h') = build_chain K ks canon h fss
     in (named (ks @ [''hash'']) (fs @ [JStr h]) # es, h'))"

definition signature_json :: "AuditSigner \<Rightarrow> jstring \<Rightarrow> jsval" where
  "signature_json s header = named [''algorithm'', ''public_key'', ''public_key_fingerprint'', ''value'']
    [JStr (js ''ed25519''), JStr (sg_publicKey s), JStr (sg_fingerprint s), JStr (sg_sign s header)]"

definition with_signature :: "jsval \<Rightarrow> jsval \<Rightarrow> jsval" where
  "with_signature m sig = (case m of JObj ps \<Rightarrow> JObj (ps @ [(js ''signature'', sig)]) | _ \<Rightarrow> m)"

definition diff_text :: "crypto \<Rightarrow> AuditSessionReport \<Rightarrow> jsval" where
  "diff_text K report = (case rp_diff report of None \<Rightarrow> JUndef
     | Some d \<Rightarrow> named diff_keys (normalizeDiffForManifest K d))"

definition base_manifest :: "crypto \<Rightarrow> AuditSessionReport \<Rightarrow> jsval" where
  "base_manifest K report =
    (let sid = JStr (as_session_id (rp_summary report));
         summary = named summary_keys (normalizeSummaryForManifest K (rp_summary report));
         truncated = js (if rp_events_truncated report then ''true'' else ''false'');
         (es, prev) = build_chain K event_keys (canonicalizeEventFields K) (chain_start K sid summary)
            (map (normalizeEventForManifest K) (rp_events report));
         diff = diff_text K report;
         root = chainStep K prev (canonJSON K [JStr (the (canonicalizeDiff K diff)), JStr truncated])
     in JObj ([(js ''version'', JStr (js AUDIT_MANIFEST_VERSION)), (js ''algorithm'', JStr (js AUDIT_CHAIN_ALGORITHM)),
          (js ''session_id'', sid), (js ''generated_at'', JStr (rp_generated_at report)),
          (js ''event_count'', jint (int (length es))), (js ''events_truncated'', JStr truncated),
          (js ''summary'', summary), (js ''events'', JArr es)]
          @ (if diff = JUndef then [] else [(js ''diff'', diff)])
          @ [(js ''root'', JStr root)]))"

definition buildAuditManifest :: "crypto \<Rightarrow> AuditSessionReport \<Rightarrow> AuditSigner option \<Rightarrow> jsval" where
  "buildAuditManifest K report signer =
    (let base = base_manifest K report in
     case signer of
       None \<Rightarrow> base
     | Some s \<Rightarrow> with_signature base (signature_json s (canonicalizeHeader K base)))"

section \<open>Verifying\<close>

definition unsupportedVersionResult :: "jsval \<Rightarrow> string \<Rightarrow> string \<Rightarrow> string \<Rightarrow> AuditVerifyResult option" where
  "unsupportedVersionResult manifest currentVersion familyMarker reason =
    (case js_get manifest (js ''version'') of
       JStr v \<Rightarrow> if v \<noteq> js currentVersion \<and> js_starts_with v (js (familyMarker @ ''/''))
                 then Some \<lparr>vr_ok = False, vr_chain_valid = False, vr_signed = False, vr_signature_valid = None,
                            vr_key_trusted = None, vr_reason = reason\<rparr>
                 else None
     | _ \<Rightarrow> None)"

fun is_string :: "jsval \<Rightarrow> bool" where
  "is_string (JStr _) = True"
| "is_string _ = False"

fun is_arr :: "jsval \<Rightarrow> bool" where
  "is_arr (JArr _) = True"
| "is_arr _ = False"

fun elements :: "jsval \<Rightarrow> jsval list" where
  "elements (JArr vs) = vs"
| "elements _ = []"

definition isWellFormedManifest :: "jsval \<Rightarrow> bool" where
  "isWellFormedManifest m \<longleftrightarrow>
     js_get m (js ''version'') = JStr (js AUDIT_MANIFEST_VERSION)
     \<and> js_get m (js ''algorithm'') = JStr (js AUDIT_CHAIN_ALGORITHM)
     \<and> is_string (js_get m (js ''session_id'')) \<and> is_string (js_get m (js ''generated_at''))
     \<and> is_string (js_get m (js ''events_truncated'')) \<and> is_string (js_get m (js ''root''))
     \<and> is_arr (js_get (js_get m (js ''summary'')) (js ''redaction_by_kind''))
     \<and> is_arr (js_get m (js ''events''))
     \<and> list_all (\<lambda>e. is_string (js_get e (js ''event_id'')) \<and> is_string (js_get e (js ''hash'')))
          (elements (js_get m (js ''events'')))"

text \<open>The loop over the elements: the running hash, and whether every recorded hash agreed.\<close>

fun verify_chain :: "crypto \<Rightarrow> (jsval \<Rightarrow> jstring) \<Rightarrow> jstring \<Rightarrow> bool \<Rightarrow> jsval list \<Rightarrow> jstring \<times> bool" where
  "verify_chain K canon prev ok [] = (prev, ok)"
| "verify_chain K canon prev ok (e # es) =
    (let h = chainStep K prev (canon e)
     in verify_chain K canon h (ok \<and> JStr h = js_get e (js ''hash'')) es)"

text \<open>The end of both verifiers, after the chain was recomputed.\<close>

definition signature_valid :: "crypto \<Rightarrow> jstring \<Rightarrow> jsval \<Rightarrow> bool" where
  "signature_valid K header sig =
    (sig \<noteq> JNull \<and> (case (cr_fromBase64 K (js_get sig (js ''public_key'')), cr_fromBase64 K (js_get sig (js ''value''))) of
       (Some key, Some val) \<Rightarrow> cr_verify K key header val = Some True
     | _ \<Rightarrow> False))"

definition conclude :: "crypto \<Rightarrow> bool \<Rightarrow> jstring \<Rightarrow> jsval \<Rightarrow> jstring option \<Rightarrow> AuditVerifyResult" where
  "conclude K chainValid header sig expectedFingerprint =
    (let signed = (sig \<noteq> JUndef) in
     if \<not> chainValid then
       \<lparr>vr_ok = False, vr_chain_valid = False, vr_signed = signed, vr_signature_valid = None, vr_key_trusted = None,
        vr_reason = ''chain-mismatch (tampered or corrupt)''\<rparr>
     else if \<not> signed then
       \<lparr>vr_ok = True, vr_chain_valid = True, vr_signed = False, vr_signature_valid = None, vr_key_trusted = None,
        vr_reason = ''chain-consistent (unsigned: internal integrity only; enable signing for tamper-evidence)''\<rparr>
     else if \<not> signature_valid K header sig then
       \<lparr>vr_ok = False, vr_chain_valid = True, vr_signed = True, vr_signature_valid = Some False, vr_key_trusted = None,
        vr_reason = ''signature-invalid (tampered or wrong key)''\<rparr>
     else case expectedFingerprint of
       None \<Rightarrow>
         \<lparr>vr_ok = False, vr_chain_valid = True, vr_signed = True, vr_signature_valid = Some True, vr_key_trusted = None,
          vr_reason = ''signature-valid-unpinned (provide expected_fingerprint to establish trust)''\<rparr>
     | Some expected \<Rightarrow>
         (let keyTrusted = (fingerprintOfPublicKey K (js_get sig (js ''public_key'')) = Some expected) in
          \<lparr>vr_ok = keyTrusted, vr_chain_valid = True, vr_signed = True, vr_signature_valid = Some True,
           vr_key_trusted = Some keyTrusted,
           vr_reason = (if keyTrusted then ''verified (chain + ed25519 signature, fingerprint pinned)''
                        else ''signature-valid-but-untrusted-key (fingerprint mismatch)'')\<rparr>))"

definition malformed_result :: "string \<Rightarrow> AuditVerifyResult" where
  "malformed_result reason = \<lparr>vr_ok = False, vr_chain_valid = False, vr_signed = False,
     vr_signature_valid = None, vr_key_trusted = None, vr_reason = reason\<rparr>"

definition verifyAuditManifest :: "crypto \<Rightarrow> jsval \<Rightarrow> jstring option \<Rightarrow> AuditVerifyResult option" where
  "verifyAuditManifest K m expectedFingerprint =
    (case unsupportedVersionResult m AUDIT_MANIFEST_VERSION AUDIT_MANIFEST_MARKER ''unsupported-manifest-version'' of
       Some r \<Rightarrow> Some r
     | None \<Rightarrow>
         if \<not> isWellFormedManifest m then Some (malformed_result ''malformed-manifest'')
         else
           (let es = elements (js_get m (js ''events''));
                (prev, ok) = verify_chain K (canonicalizeEventFields K)
                   (chain_start K (js_get m (js ''session_id'')) (js_get m (js ''summary'')))
                   (js_get m (js ''event_count'') = jint (int (length es))) es
            in case canonicalizeDiff K (js_get m (js ''diff'')) of
                 None \<Rightarrow> None
               | Some dt \<Rightarrow>
                   (let root = chainStep K prev (canonJSON K [JStr dt, js_get m (js ''events_truncated'')]) in
                    Some (conclude K (ok \<and> JStr root = js_get m (js ''root'')) (canonicalizeHeader K m)
                            (js_get m (js ''signature'')) expectedFingerprint))))"

section \<open>Packets\<close>

definition packet_session_keys :: "string list" where
  "packet_session_keys = [''session_id'', ''root'', ''event_count'', ''events_truncated'', ''hard_gate'', ''soft_gate'',
     ''auto_allowed'']"

definition canonicalizePacketSession :: "crypto \<Rightarrow> jsval \<Rightarrow> jstring" where
  "canonicalizePacketSession K s = canonJSON K (fields_of s packet_session_keys)"

definition governance_keys :: "string list" where
  "governance_keys = [''session_count'', ''hard_gate'', ''soft_gate'', ''auto_allowed'', ''high_risk_op_count'',
     ''secret_redaction_count'', ''redaction_by_kind'', ''flagged'']"

definition canonicalizePacketGovernance :: "crypto \<Rightarrow> jsval \<Rightarrow> jstring" where
  "canonicalizePacketGovernance K g = canonJSON K (fields_of g governance_keys)"

definition canonicalizePacketHeader :: "crypto \<Rightarrow> jsval \<Rightarrow> jstring" where
  "canonicalizePacketHeader K m =
    canonJSON K (JStr (js AUDIT_PACKET_MANIFEST_VERSION) # fields_of m [''generated_at'', ''session_count'', ''root''])"

definition packet_start :: "crypto \<Rightarrow> jsval \<Rightarrow> jsval \<Rightarrow> jstring" where
  "packet_start K generated_at session_count =
    cr_sha256 K (js PACKET_CHAIN_DOMAIN
      @ canonJSON K [JStr (js AUDIT_PACKET_MANIFEST_VERSION), generated_at, session_count])"

record PacketManifestSessionInput =
  pi_session_id :: jstring
  pi_root :: jsval
  pi_event_count :: jsval
  pi_events_truncated :: bool
  pi_hard_gate :: rat
  pi_soft_gate :: rat
  pi_auto_allowed :: rat

definition packet_projection :: "crypto \<Rightarrow> PacketManifestSessionInput \<Rightarrow> jsval list" where
  "packet_projection K s =
    [JStr (pi_session_id s), pi_root s, pi_event_count s, str_bool (Some (pi_events_truncated s)),
     str_number K (Some (JFin (pi_hard_gate s))), str_number K (Some (JFin (pi_soft_gate s))),
     str_number K (Some (JFin (pi_auto_allowed s)))]"

definition base_packet :: "crypto \<Rightarrow> jstring \<Rightarrow> PacketManifestSessionInput list \<Rightarrow> jsval list \<Rightarrow> jsval" where
  "base_packet K generated_at inputs governance =
    (let count = jint (int (length inputs));
         (ss, prev) = build_chain K packet_session_keys (canonicalizePacketSession K)
            (packet_start K (JStr generated_at) count) (map (packet_projection K) inputs);
         gov = named governance_keys governance
     in JObj [(js ''version'', JStr (js AUDIT_PACKET_MANIFEST_VERSION)), (js ''algorithm'', JStr (js AUDIT_CHAIN_ALGORITHM)),
          (js ''generated_at'', JStr generated_at), (js ''session_count'', count), (js ''sessions'', JArr ss),
          (js ''governance'', gov), (js ''root'', JStr (chainStep K prev (canonicalizePacketGovernance K gov)))])"

definition buildPacketManifest ::
  "crypto \<Rightarrow> jstring \<Rightarrow> PacketManifestSessionInput list \<Rightarrow> jsval list \<Rightarrow> AuditSigner option \<Rightarrow> jsval" where
  "buildPacketManifest K generated_at inputs governance signer =
    (let base = base_packet K generated_at inputs governance in
     case signer of
       None \<Rightarrow> base
     | Some s \<Rightarrow> with_signature base (signature_json s (canonicalizePacketHeader K base)))"

definition isWellFormedPacketManifest :: "jsval \<Rightarrow> bool" where
  "isWellFormedPacketManifest m \<longleftrightarrow>
     js_get m (js ''version'') = JStr (js AUDIT_PACKET_MANIFEST_VERSION)
     \<and> js_get m (js ''algorithm'') = JStr (js AUDIT_CHAIN_ALGORITHM)
     \<and> is_string (js_get m (js ''generated_at'')) \<and> is_string (js_get m (js ''root''))
     \<and> is_arr (js_get (js_get m (js ''governance'')) (js ''redaction_by_kind''))
     \<and> is_arr (js_get (js_get m (js ''governance'')) (js ''flagged''))
     \<and> is_arr (js_get m (js ''sessions''))
     \<and> list_all (\<lambda>s. is_string (js_get s (js ''session_id'')) \<and> is_string (js_get s (js ''root''))
            \<and> is_string (js_get s (js ''hash''))) (elements (js_get m (js ''sessions'')))"

definition verifyPacketManifest :: "crypto \<Rightarrow> jsval \<Rightarrow> jstring option \<Rightarrow> AuditVerifyResult" where
  "verifyPacketManifest K m expectedFingerprint =
    (case unsupportedVersionResult m AUDIT_PACKET_MANIFEST_VERSION AUDIT_PACKET_MANIFEST_MARKER
            ''unsupported-packet-manifest-version'' of
       Some r \<Rightarrow> r
     | None \<Rightarrow>
         if \<not> isWellFormedPacketManifest m then malformed_result ''malformed-packet-manifest''
         else
           (let ss = elements (js_get m (js ''sessions''));
                (prev, ok) = verify_chain K (canonicalizePacketSession K)
                   (packet_start K (js_get m (js ''generated_at'')) (js_get m (js ''session_count'')))
                   (js_get m (js ''session_count'') = jint (int (length ss))) ss;
                root = chainStep K prev (canonicalizePacketGovernance K (js_get m (js ''governance'')))
            in conclude K (ok \<and> JStr root = js_get m (js ''root'')) (canonicalizePacketHeader K m)
                 (js_get m (js ''signature'')) expectedFingerprint))"

section \<open>Review packets\<close>

record SessionGovernance =
  gov_hard_gate :: rat
  gov_soft_gate :: rat
  gov_auto_allowed :: rat
  gov_high_risk :: rat
  gov_redactions :: rat

definition deriveSessionGovernance :: "AuditSessionSummary \<Rightarrow> SessionGovernance" where
  "deriveSessionGovernance s =
    (let d = as_approvals s in
     \<lparr>gov_hard_gate = ap_deny d + ap_cancel d, gov_soft_gate = ap_allow d + ap_allow_for_session d,
      gov_auto_allowed = as_auto_allowed_count s, gov_high_risk = as_high_risk_op_count s,
      gov_redactions = as_secret_redaction_count s\<rparr>)"

record FlaggedItem =
  fl_session_id :: jstring
  fl_reason :: string
  fl_risk_level :: jstring
  fl_decision :: jstring
  fl_subject :: jstring

definition HIGH_RISK_LEVELS :: "jstring set" where
  "HIGH_RISK_LEVELS = {js ''high'', js ''critical''}"

definition or_empty :: "jstring option \<Rightarrow> jstring" where
  "or_empty v = (case v of Some s \<Rightarrow> s | None \<Rightarrow> [])"

definition flag_entry :: "jstring \<Rightarrow> AuditApprovalEntry \<Rightarrow> FlaggedItem option" where
  "flag_entry sid e =
    (let subject = or_empty (first_some [ae_command e, ae_path e]) in
     if ae_decision e = Some (js ''deny'') \<or> ae_decision e = Some (js ''cancel'') then
       Some \<lparr>fl_session_id = sid,
         fl_reason = (if ae_resolution_origin e = Some (js ''relay_lost'') then ''relay_lost'' else ''denied''),
         fl_risk_level = or_empty (ae_risk_level e), fl_decision = or_empty (ae_decision e), fl_subject = subject\<rparr>
     else
       (case ae_risk_level e of
          Some lvl \<Rightarrow> if lvl \<in> HIGH_RISK_LEVELS
            then Some \<lparr>fl_session_id = sid, fl_reason = ''high_risk'', fl_risk_level = lvl,
                       fl_decision = or_empty (ae_decision e), fl_subject = subject\<rparr>
            else None
        | None \<Rightarrow> None))"

definition deriveFlagged :: "AuditSessionSummary \<Rightarrow> FlaggedItem list" where
  "deriveFlagged s = somes (map (flag_entry (as_session_id s)) (case as_entries s of Some es \<Rightarrow> es | None \<Rightarrow> []))"

definition add_kind_count :: "(jstring \<times> rat) list \<Rightarrow> jstring \<times> rat \<Rightarrow> (jstring \<times> rat) list" where
  "add_kind_count m kv =
    AList.update (fst kv) ((case map_of m (fst kv) of Some n \<Rightarrow> n | None \<Rightarrow> 0) + snd kv) m"

definition mergeRedactionByKind :: "AuditSessionReport list \<Rightarrow> (jstring \<times> rat) list" where
  "mergeRedactionByKind reports = foldl add_kind_count [] (concat (map (\<lambda>r. as_by_kind (rp_summary r)) reports))"

definition packet_governance :: "crypto \<Rightarrow> AuditSessionReport list \<Rightarrow> jsval list" where
  "packet_governance K reports =
    (let govs = map (\<lambda>r. deriveSessionGovernance (rp_summary r)) reports;
         total = (\<lambda>f. str_number K (Some (JFin (sum_list (map f govs)))));
         flagged = concat (map (\<lambda>r. deriveFlagged (rp_summary r)) reports)
     in [str_number K (Some (JFin (of_nat (length reports)))), total gov_hard_gate, total gov_soft_gate,
         total gov_auto_allowed, total gov_high_risk, total gov_redactions,
         by_kind_pairs K (mergeRedactionByKind reports),
         JArr (map (\<lambda>f. JArr [JStr (fl_session_id f), JStr (js (fl_reason f)), JStr (fl_risk_level f),
                              JStr (fl_decision f), JStr (fl_subject f)]) flagged)])"

definition packet_input :: "AuditSessionReport \<times> jsval \<Rightarrow> PacketManifestSessionInput" where
  "packet_input rm =
    (let g = deriveSessionGovernance (rp_summary (fst rm)) in
     \<lparr>pi_session_id = as_session_id (rp_summary (fst rm)), pi_root = js_get (snd rm) (js ''root''),
      pi_event_count = js_get (snd rm) (js ''event_count''), pi_events_truncated = rp_events_truncated (fst rm),
      pi_hard_gate = gov_hard_gate g, pi_soft_gate = gov_soft_gate g, pi_auto_allowed = gov_auto_allowed g\<rparr>)"

definition buildReviewPacket ::
  "crypto \<Rightarrow> jstring \<Rightarrow> (AuditSessionReport \<times> jsval) list \<Rightarrow> AuditSigner option \<Rightarrow> jsval" where
  "buildReviewPacket K generated_at sessions signer =
    buildPacketManifest K generated_at (map packet_input sessions) (packet_governance K (map fst sessions)) signer"

end
