(* ===== verification/Audit_Integrity_Correct.thy ===== *)
theory Audit_Integrity_Correct
  imports Audit_Integrity "HOL-Library.Countable"
begin

text \<open>
  Correctness of the tamper-evident exports: what is built verifies, and what verifies under a
  pinned key shows exactly what was signed.
\<close>

section \<open>Hash chains\<close>

text \<open>A digest of fixed length, and what equal ends of two chains of the same length imply.\<close>

definition chain_run :: "(jstring \<Rightarrow> jstring) \<Rightarrow> (jsval \<Rightarrow> jstring) \<Rightarrow> jstring \<Rightarrow> jsval list \<Rightarrow> jstring" where
  "chain_run H canon p es = foldl (\<lambda>p e. H (p @ canon e)) p es"

lemma chain_run_simps [simp]:
  "chain_run H canon p [] = p" "chain_run H canon p (es @ [e]) = H (chain_run H canon p es @ canon e)"
  "chain_run H canon p (e # es) = chain_run H canon (H (p @ canon e)) es"
  by (simp_all add: chain_run_def)

text \<open>The texts that are hashed along a chain.\<close>

definition chain_inputs :: "(jstring \<Rightarrow> jstring) \<Rightarrow> (jsval \<Rightarrow> jstring) \<Rightarrow> jstring \<Rightarrow> jsval list \<Rightarrow> jstring set" where
  "chain_inputs H canon p es = (\<lambda>i. chain_run H canon p (take i es) @ canon (es ! i)) ` {..<length es}"

lemma chain_inputs_snoc:
  "chain_inputs H canon p (es @ [e]) = insert (chain_run H canon p es @ canon e) (chain_inputs H canon p es)"
proof -
  have "{..<length (es @ [e])} = insert (length es) {..<length es}" by auto
  then show ?thesis
    by (auto simp: chain_inputs_def nth_append)
qed

locale digest =
  fixes H :: "jstring \<Rightarrow> jstring"
  assumes digest_length: "length (H x) = 64"
begin

lemma run_length: "length p = 64 \<Longrightarrow> length (chain_run H canon p es) = 64"
  by (cases es rule: rev_cases) (simp_all add: digest_length)

lemma chain_inj:
  assumes "inj_on H A" "chain_inputs H canon p es \<subseteq> A" "chain_inputs H canon p' es' \<subseteq> A"
    and "length es = length es'" "length p = 64" "length p' = 64" "chain_run H canon p es = chain_run H canon p' es'"
  shows "p = p' \<and> map canon es = map canon es'"
  using assms(2-4,7)
proof (induction es arbitrary: es' rule: rev_induct)
  case (snoc e es)
  obtain fs f where es': "es' = fs @ [f]" "length fs = length es"
    using snoc.prems(3) by (cases es' rule: rev_cases) auto
  have "H (chain_run H canon p es @ canon e) = H (chain_run H canon p' fs @ canon f)"
    using snoc.prems(4) es' by simp
  then have "chain_run H canon p es @ canon e = chain_run H canon p' fs @ canon f"
    using assms(1) snoc.prems(1,2) es' by (auto simp: chain_inputs_snoc dest!: inj_onD)
  then have "chain_run H canon p es = chain_run H canon p' fs" "canon e = canon f"
    using run_length assms(5,6) by simp_all
  then show ?case
    using snoc.IH [of fs] snoc.prems(1,2) es' by (simp add: chain_inputs_snoc)
qed simp

end

text \<open>The hash of the repository is such a digest.\<close>

interpretation own: digest sha256Hex
  by unfold_locales (rule sha256Hex_hex)

section \<open>Records\<close>

lemma fields_of_named:
  assumes "distinct ks" "length ks = length vs"
  shows "fields_of (named (ks @ ks') (vs @ vs')) ks = vs"
proof (rule nth_equalityI)
  have d: "distinct (map js ks)" using assms(1) by (simp add: distinct_map inj_on_def)
  fix i assume "i < length (fields_of (named (ks @ ks') (vs @ vs')) ks)"
  then have i: "i < length ks" by (simp add: fields_of_def)
  have "map_of (zip (map js ks) vs) (js (ks ! i)) = Some (vs ! i)"
    using i assms(2) d by (auto simp: set_zip intro!: exI [of _ i])
  then show "fields_of (named (ks @ ks') (vs @ vs')) ks ! i = vs ! i"
    using i assms(2) by (simp add: fields_of_def named_def zip_append map_add_def)
qed (use assms in \<open>simp add: fields_of_def\<close>)

lemmas fields_of_exact = fields_of_named [of _ _ "[]" "[]", simplified]

section \<open>What the verifiers recompute\<close>

lemma verify_chain_fst: "fst (verify_chain K canon p ok es) = chain_run (cr_sha256 K) canon p es"
  by (induction es arbitrary: p ok) (simp_all add: chainStep_def Let_def)

lemma verify_chain_ok: "snd (verify_chain K canon p ok es) \<Longrightarrow> ok"
  by (induction es arbitrary: p ok) (auto simp: Let_def)

lemma get_last_named:
  assumes "k \<notin> set ks" "length ks = length vs"
  shows "js_get (named (ks @ [k]) (vs @ [v])) (js k) = v"
proof -
  have "map_of (zip (map js ks) vs) (js k) = None"
    using assms by (auto simp: map_of_eq_None_iff dest!: set_zip_leftD)
  then show ?thesis
    using assms(2) by (simp add: named_def zip_append map_add_def del: map_of_zip_is_None)
qed

text \<open>The elements a builder writes carry their own fields and the running hashes.\<close>

lemma build_chain_spec:
  assumes dist: "distinct (ks @ [''hash''])" and canon: "\<And>v. canon v = canonJSON K (fields_of v ks)"
    and "list_all (\<lambda>fs. length fs = length ks) fss"
  shows "map (\<lambda>e. fields_of e ks) (fst (build_chain K ks canon p fss)) = fss
    \<and> verify_chain K canon p ok (fst (build_chain K ks canon p fss)) = (snd (build_chain K ks canon p fss), ok)
    \<and> list_all (\<lambda>e. is_string (js_get e (js ''hash''))) (fst (build_chain K ks canon p fss))"
  using assms(3)
proof (induction fss arbitrary: p)
  case (Cons fs fss)
  have len: "length ks = length fs" using Cons.prems by simp
  have f: "fields_of (named (ks @ [''hash'']) (fs @ [JStr h])) ks = fs" for h
    using fields_of_named len dist by simp
  have g: "fields_of (named ks fs) ks = fs"
    using fields_of_exact len dist by simp
  have h: "js_get (named (ks @ [''hash'']) (fs @ [JStr h])) (js ''hash'') = JStr h" for h
    using get_last_named len dist by simp
  show ?case
    using Cons f g h by (simp add: Let_def case_prod_unfold canon)
qed simp

section \<open>Session manifests\<close>

definition report_summary :: "crypto \<Rightarrow> AuditSessionReport \<Rightarrow> jsval" where
  "report_summary K r = named summary_keys (normalizeSummaryForManifest K (rp_summary r))"

definition report_start :: "crypto \<Rightarrow> AuditSessionReport \<Rightarrow> jstring" where
  "report_start K r = chain_start K (JStr (as_session_id (rp_summary r))) (report_summary K r)"

definition report_chain :: "crypto \<Rightarrow> AuditSessionReport \<Rightarrow> jsval list \<times> jstring" where
  "report_chain K r = build_chain K event_keys (canonicalizeEventFields K) (report_start K r)
     (map (normalizeEventForManifest K) (rp_events r))"

definition report_tail :: "crypto \<Rightarrow> AuditSessionReport \<Rightarrow> jstring" where
  "report_tail K r = canonJSON K [JStr (the (canonicalizeDiff K (diff_text K r))),
     JStr (js (if rp_events_truncated r then ''true'' else ''false''))]"

lemma base_manifest_eq:
  "base_manifest K r =
    JObj ([(js ''version'', JStr (js AUDIT_MANIFEST_VERSION)), (js ''algorithm'', JStr (js AUDIT_CHAIN_ALGORITHM)),
      (js ''session_id'', JStr (as_session_id (rp_summary r))), (js ''generated_at'', JStr (rp_generated_at r)),
      (js ''event_count'', jint (int (length (fst (report_chain K r))))),
      (js ''events_truncated'', JStr (js (if rp_events_truncated r then ''true'' else ''false''))),
      (js ''summary'', report_summary K r), (js ''events'', JArr (fst (report_chain K r)))]
      @ (if diff_text K r = JUndef then [] else [(js ''diff'', diff_text K r)])
      @ [(js ''root'', JStr (chainStep K (snd (report_chain K r)) (report_tail K r)))])"
  by (simp add: base_manifest_def Let_def case_prod_unfold report_chain_def report_start_def report_summary_def report_tail_def)

lemma base_manifest_get [simp]:
  "js_get (base_manifest K r) (js ''version'') = JStr (js AUDIT_MANIFEST_VERSION)"
  "js_get (base_manifest K r) (js ''algorithm'') = JStr (js AUDIT_CHAIN_ALGORITHM)"
  "js_get (base_manifest K r) (js ''session_id'') = JStr (as_session_id (rp_summary r))"
  "js_get (base_manifest K r) (js ''generated_at'') = JStr (rp_generated_at r)"
  "js_get (base_manifest K r) (js ''event_count'') = jint (int (length (fst (report_chain K r))))"
  "js_get (base_manifest K r) (js ''events_truncated'') = JStr (js (if rp_events_truncated r then ''true'' else ''false''))"
  "js_get (base_manifest K r) (js ''summary'') = report_summary K r"
  "js_get (base_manifest K r) (js ''events'') = JArr (fst (report_chain K r))"
  "js_get (base_manifest K r) (js ''diff'') = diff_text K r"
  "js_get (base_manifest K r) (js ''root'') = JStr (chainStep K (snd (report_chain K r)) (report_tail K r))"
  "js_get (base_manifest K r) (js ''signature'') = JUndef"
  by (simp_all add: base_manifest_eq del: of_int_of_nat_eq)

lemma with_signature_get:
  "js_get (with_signature (base_manifest K r) sig) (js k) =
    (if k = ''signature'' then sig else js_get (base_manifest K r) (js k))"
  using base_manifest_get(11) [of K r]
  by (auto simp: base_manifest_eq with_signature_def map_of_append map_add_def split: option.splits)

lemma summary_length: "length (normalizeSummaryForManifest K s) = length summary_keys"
  by (simp add: normalizeSummaryForManifest_def summary_keys_def Let_def)

lemma event_length: "length (normalizeEventForManifest K e) = length event_keys"
  by (simp add: normalizeEventForManifest_def event_keys_def)

lemma diff_length: "length (normalizeDiffForManifest K d) = length diff_keys"
  by (simp add: normalizeDiffForManifest_def diff_keys_def)

lemma report_chain_spec:
  "map (\<lambda>e. fields_of e event_keys) (fst (report_chain K r)) = map (normalizeEventForManifest K) (rp_events r)"
  "verify_chain K (canonicalizeEventFields K) (report_start K r) ok (fst (report_chain K r)) = (snd (report_chain K r), ok)"
  "list_all (\<lambda>e. is_string (js_get e (js ''hash''))) (fst (report_chain K r))"
proof -
  have "distinct (event_keys @ [''hash''])" by (simp add: event_keys_def)
  note spec = build_chain_spec [OF this, of "canonicalizeEventFields K" K "map (normalizeEventForManifest K) (rp_events r)",
      OF canonicalizeEventFields_def, folded report_chain_def]
  show "map (\<lambda>e. fields_of e event_keys) (fst (report_chain K r)) = map (normalizeEventForManifest K) (rp_events r)"
    "verify_chain K (canonicalizeEventFields K) (report_start K r) ok (fst (report_chain K r)) = (snd (report_chain K r), ok)"
    "list_all (\<lambda>e. is_string (js_get e (js ''hash''))) (fst (report_chain K r))"
    using spec event_length by (auto simp: report_chain_def list_all_iff)
qed

lemma report_event_ids: "list_all (\<lambda>e. is_string (js_get e (js ''event_id''))) (fst (report_chain K r))"
proof -
  have "is_string (js_get e (js ''event_id''))" if "e \<in> set (fst (report_chain K r))" for e
  proof -
    have "fields_of e event_keys \<in> set (map (\<lambda>e. fields_of e event_keys) (fst (report_chain K r)))" using that by simp
    then have "fields_of e event_keys \<in> set (map (normalizeEventForManifest K) (rp_events r))"
      unfolding report_chain_spec(1) .
    then obtain x where "fields_of e event_keys = normalizeEventForManifest K x" by auto
    then show ?thesis by (simp add: fields_of_def event_keys_def normalizeEventForManifest_def)
  qed
  then show ?thesis by (simp add: list_all_iff)
qed

lemma report_summary_fields: "fields_of (report_summary K r) summary_keys = normalizeSummaryForManifest K (rp_summary r)"
  using summary_length by (simp add: report_summary_def fields_of_exact summary_keys_def)

lemma report_by_kind: "is_arr (js_get (report_summary K r) (js ''redaction_by_kind''))"
proof -
  have "js_get (report_summary K r) (js ''redaction_by_kind'') = fields_of (report_summary K r) summary_keys ! 14"
    by (simp add: fields_of_def summary_keys_def)
  also have "\<dots> = by_kind_pairs K (as_by_kind (rp_summary r))"
    by (simp add: report_summary_fields normalizeSummaryForManifest_def Let_def)
  finally show ?thesis by (simp add: by_kind_pairs_def)
qed

lemma base_well_formed: "isWellFormedManifest (base_manifest K r)"
  using report_chain_spec(3) [of K r] report_event_ids [of K r] report_by_kind [of K r]
  by (auto simp: isWellFormedManifest_def list_all_iff)

lemma diff_text_canon: "\<exists>t. canonicalizeDiff K (diff_text K r) = Some t"
  by (auto simp: diff_text_def named_def split: option.splits)

text \<open>Verification of a manifest with the fields of a built one.\<close>

lemma verify_built:
  assumes "\<And>k. k \<noteq> ''signature'' \<Longrightarrow> js_get m (js k) = js_get (base_manifest K r) (js k)"
  shows "verifyAuditManifest K m pin =
    Some (conclude K True (canonicalizeHeader K (base_manifest K r)) (js_get m (js ''signature'')) pin)"
proof -
  have wf: "isWellFormedManifest m"
    using base_well_formed [of K r] assms by (simp add: isWellFormedManifest_def)
  have hd: "canonicalizeHeader K m = canonicalizeHeader K (base_manifest K r)"
    using assms by (simp add: canonicalizeHeader_def fields_of_def)
  have ver: "unsupportedVersionResult m AUDIT_MANIFEST_VERSION AUDIT_MANIFEST_MARKER ''unsupported-manifest-version'' = None"
    using assms by (simp add: unsupportedVersionResult_def)
  obtain dt where dt: "canonicalizeDiff K (diff_text K r) = Some dt" using diff_text_canon by blast
  have start: "chain_start K (JStr (as_session_id (rp_summary r))) (report_summary K r) = report_start K r"
    by (simp add: report_start_def)
  show ?thesis
    unfolding verifyAuditManifest_def ver option.case hd
    using wf dt report_chain_spec(2) [of K r]
    by (simp add: assms start report_tail_def)
qed

definition valid_signer :: "crypto \<Rightarrow> AuditSigner \<Rightarrow> bool" where
  "valid_signer K s \<longleftrightarrow> (\<exists>key. cr_fromBase64 K (JStr (sg_publicKey s)) = Some key \<and> sg_fingerprint s = cr_shaBytes K key
     \<and> (\<forall>d. \<exists>val. cr_fromBase64 K (JStr (sg_sign s d)) = Some val \<and> cr_verify K key d val = Some True))"

lemma signature_json_get [simp]:
  "js_get (signature_json s h) (js ''public_key'') = JStr (sg_publicKey s)"
  "js_get (signature_json s h) (js ''value'') = JStr (sg_sign s h)"
  "signature_json s h \<noteq> JUndef" "signature_json s h \<noteq> JNull"
  by (simp_all add: signature_json_def named_def)

lemma conclude_signed:
  assumes "valid_signer K s"
  shows "vr_ok (conclude K True h (signature_json s h) pin) \<longleftrightarrow> pin = Some (sg_fingerprint s)"
proof -
  obtain key val where "cr_fromBase64 K (JStr (sg_publicKey s)) = Some key" "sg_fingerprint s = cr_shaBytes K key"
    "cr_fromBase64 K (JStr (sg_sign s h)) = Some val" "cr_verify K key h val = Some True"
    using assms unfolding valid_signer_def by blast
  then show ?thesis
    by (auto simp: conclude_def Let_def signature_valid_def fingerprintOfPublicKey_def split: option.split)
qed

lemma conclude_flags:
  "vr_chain_valid (conclude K True h sig pin)" "vr_signed (conclude K True h sig pin) \<longleftrightarrow> sig \<noteq> JUndef"
  by (auto simp: conclude_def Let_def split: option.splits)

lemma build_get:
  "js_get (buildAuditManifest K r (Some s)) (js k) =
    (if k = ''signature'' then signature_json s (canonicalizeHeader K (base_manifest K r)) else js_get (base_manifest K r) (js k))"
  by (simp add: buildAuditManifest_def Let_def with_signature_get)

text \<open>
  What is exported verifies. For every report and every working signing key, the verifier
  accepts the exported manifest when it is given the fingerprint of that key, and for a signed
  manifest only then: without a pinned fingerprint, or with another one, the answer is not ok. An
  unsigned export is accepted as internally consistent and reported as unsigned.
\<close>

theorem manifest_verifies:
  assumes "valid_signer K s"
  shows "(\<exists>res. verifyAuditManifest K (buildAuditManifest K report (Some s)) pin = Some res
      \<and> (vr_ok res \<longleftrightarrow> pin = Some (sg_fingerprint s)) \<and> vr_chain_valid res \<and> vr_signed res)
    \<and> (\<exists>res. verifyAuditManifest K (buildAuditManifest K report None) pin = Some res
      \<and> vr_ok res \<and> vr_chain_valid res \<and> \<not> vr_signed res)"
proof -
  have "verifyAuditManifest K (buildAuditManifest K report (Some s)) pin
      = Some (conclude K True (canonicalizeHeader K (base_manifest K report))
          (js_get (buildAuditManifest K report (Some s)) (js ''signature'')) pin)"
    by (rule verify_built) (simp add: build_get)
  moreover have "verifyAuditManifest K (base_manifest K report) pin =
      Some (conclude K True (canonicalizeHeader K (base_manifest K report)) JUndef pin)"
    using verify_built [of "base_manifest K report" K report pin] by simp
  ultimately show ?thesis
    using conclude_signed [OF assms] conclude_flags
    by (simp add: build_get) (simp add: buildAuditManifest_def conclude_def)
qed

section \<open>Malformed input\<close>




section \<open>Tampering\<close>

text \<open>What a reader of a manifest is shown.\<close>

definition diff_view :: "jsval \<Rightarrow> jsval list option" where
  "diff_view d = (if d = JUndef then None else Some (fields_of d diff_keys))"

definition displayed :: "jsval \<Rightarrow> jsval list \<times> jsval list \<times> jsval list list \<times> jsval list option" where
  "displayed m = (fields_of m [''session_id'', ''generated_at'', ''event_count'', ''events_truncated''],
     fields_of (js_get m (js ''summary'')) summary_keys,
     map (\<lambda>e. fields_of e event_keys) (elements (js_get m (js ''events''))),
     diff_view (js_get m (js ''diff'')))"

text \<open>The texts that are hashed when the root of a manifest is computed.\<close>

definition manifest_tail :: "crypto \<Rightarrow> jsval \<Rightarrow> jstring" where
  "manifest_tail K m = canonJSON K [JStr (the (canonicalizeDiff K (js_get m (js ''diff'')))), js_get m (js ''events_truncated'')]"

definition manifest_head :: "crypto \<Rightarrow> jsval \<Rightarrow> jstring" where
  "manifest_head K m = js CHAIN_DOMAIN @ canonJSON K [js_get m (js ''session_id'')]"

definition manifest_end :: "crypto \<Rightarrow> jsval \<Rightarrow> jstring" where
  "manifest_end K m = chain_run (cr_sha256 K) (canonicalizeEventFields K)
     (chain_start K (js_get m (js ''session_id'')) (js_get m (js ''summary''))) (elements (js_get m (js ''events'')))"

definition manifest_inputs :: "crypto \<Rightarrow> jsval \<Rightarrow> jstring set" where
  "manifest_inputs K m =
    {manifest_head K m, cr_sha256 K (manifest_head K m) @ canonicalizeSummary K (js_get m (js ''summary'')),
     manifest_end K m @ manifest_tail K m}
    \<union> chain_inputs (cr_sha256 K) (canonicalizeEventFields K)
        (chain_start K (js_get m (js ''session_id'')) (js_get m (js ''summary''))) (elements (js_get m (js ''events'')))"

definition root_ok :: "crypto \<Rightarrow> jsval \<Rightarrow> bool" where
  "root_ok K m \<longleftrightarrow> isWellFormedManifest m \<and> js_get m (js ''diff'') \<noteq> JNull
     \<and> js_get m (js ''event_count'') = jint (int (length (elements (js_get m (js ''events'')))))
     \<and> js_get m (js ''root'') = JStr (cr_sha256 K (manifest_end K m @ manifest_tail K m))"

text \<open>What an accepting answer for a signed manifest implies.\<close>

lemma verify_accepts:
  assumes "verifyAuditManifest K m (Some fp) = Some res" "vr_ok res" "vr_signed res"
  shows "root_ok K m \<and> (\<exists>key val. cr_verify K key (canonicalizeHeader K m) val = Some True \<and> cr_shaBytes K key = fp)"
proof -
  let ?es = "elements (js_get m (js ''events''))"
  let ?canon = "canonicalizeEventFields K"
  let ?start = "chain_start K (js_get m (js ''session_id'')) (js_get m (js ''summary''))"
  let ?count = "js_get m (js ''event_count'') = jint (int (length ?es))"
  let ?vc = "verify_chain K ?canon ?start ?count ?es"
  have nv: "unsupportedVersionResult m AUDIT_MANIFEST_VERSION AUDIT_MANIFEST_MARKER ''unsupported-manifest-version'' = None"
    using assms by (auto simp: verifyAuditManifest_def unsupportedVersionResult_def split: jsval.splits if_splits)
  have wf: "isWellFormedManifest m"
    using assms nv by (auto simp: verifyAuditManifest_def malformed_result_def split: if_splits)
  obtain dt where dt: "canonicalizeDiff K (js_get m (js ''diff'')) = Some dt"
    using assms nv wf by (auto simp: verifyAuditManifest_def Let_def case_prod_unfold split: option.splits)
  then have nn: "js_get m (js ''diff'') \<noteq> JNull" by auto
  let ?ok = "snd ?vc \<and> JStr (chainStep K (fst ?vc) (canonJSON K [JStr dt, js_get m (js ''events_truncated'')])) = js_get m (js ''root'')"
  have res: "res = conclude K ?ok (canonicalizeHeader K m) (js_get m (js ''signature'')) (Some fp)"
    using assms(1) nv wf dt by (simp add: verifyAuditManifest_def Let_def case_prod_unfold)
  have sig: "?ok" "signature_valid K (canonicalizeHeader K m) (js_get m (js ''signature''))"
    "fingerprintOfPublicKey K (js_get (js_get m (js ''signature'')) (js ''public_key'')) = Some fp"
    using assms(2,3) unfolding res conclude_def Let_def by (auto split: if_splits)
  have "root_ok K m"
    using sig(1) wf nn dt verify_chain_ok [of K ?canon ?start ?count ?es] verify_chain_fst [of K ?canon ?start ?count ?es]
    by (auto simp: root_ok_def manifest_end_def manifest_tail_def chainStep_def)
  moreover have "\<exists>key val. cr_verify K key (canonicalizeHeader K m) val = Some True \<and> cr_shaBytes K key = fp"
    using sig(2,3) by (auto simp: signature_valid_def fingerprintOfPublicKey_def split: option.splits)
  ultimately show ?thesis by blast
qed

lemma plain_strings [simp]: "plain (str_string x)" "plain (str_number K n)" "plain (str_bool b)"
  by (simp_all add: str_string_def str_number_def str_bool_def)

lemma plain_built:
  "list_all plain (normalizeEventForManifest K e)"
  "list_all plain (normalizeSummaryForManifest K s)"
  "list_all plain (normalizeDiffForManifest K d)"
  by (simp_all add: normalizeEventForManifest_def normalizeSummaryForManifest_def normalizeDiffForManifest_def
      by_kind_pairs_def Let_def list_all_iff case_prod_unfold)

lemma canonJSON_inj:
  "number_text (cr_num K) \<Longrightarrow> list_all plain vs \<Longrightarrow> canonJSON K vs = canonJSON K vs' \<Longrightarrow> vs = vs'"
  unfolding canonJSON_def by (rule stringify_array_inj)

lemma canon_map_inj:
  assumes N: "number_text (cr_num K)" and "\<And>e. e \<in> set es \<Longrightarrow> list_all plain (fields_of e ks)"
    and "map (\<lambda>e. canonJSON K (fields_of e ks)) es = map (\<lambda>e. canonJSON K (fields_of e ks)) es'"
  shows "map (\<lambda>e. fields_of e ks) es = map (\<lambda>e. fields_of e ks) es'"
  using assms(2,3)
proof (induction es arbitrary: es')
  case (Cons e es)
  then obtain f fs where "es' = f # fs" by (cases es') auto
  then show ?case using Cons canonJSON_inj [OF N, of "fields_of e ks" "fields_of f ks"] by simp
qed simp

lemma diff_canon_inj:
  assumes N: "number_text (cr_num K)" and "d \<noteq> JNull" "canonicalizeDiff K (diff_text K r) = canonicalizeDiff K d"
  shows "diff_view (diff_text K r) = diff_view d"
proof -
  have canon: "canonicalizeDiff K v = Some (if v = JUndef then canonJSON K [] else canonJSON K (fields_of v diff_keys))"
    if "v \<noteq> JNull" for v using that by (cases v) auto
  have ne: "canonJSON K [] \<noteq> canonJSON K (fields_of v diff_keys)" for v
    using canonJSON_inj [OF N, of "[]" "fields_of v diff_keys"] by (auto simp: fields_of_def diff_keys_def)
  have "list_all plain (fields_of (diff_text K r) diff_keys)" if some: "diff_text K r \<noteq> JUndef"
  proof -
    obtain x where "rp_diff r = Some x"
      using some by (cases "rp_diff r") (simp_all add: diff_text_def)
    then have "diff_text K r = named diff_keys (normalizeDiffForManifest K x)" by (simp add: diff_text_def)
    then show ?thesis
      using plain_built(3) [of K x] diff_length [of K x] by (simp add: fields_of_exact diff_keys_def)
  qed
  moreover have "diff_text K r \<noteq> JNull" by (simp add: diff_text_def named_def split: option.split)
  ultimately show ?thesis
    using assms(2,3) canon ne ne [symmetric] canonJSON_inj [OF N] by (auto simp: diff_view_def split: if_splits dest: sym)
qed

lemma base_end: "manifest_end K (base_manifest K r) = snd (report_chain K r)"
  using verify_chain_fst [of K "canonicalizeEventFields K" "report_start K r" True "fst (report_chain K r)"]
    report_chain_spec(2) [of K r True]
  by (simp add: manifest_end_def report_start_def)

lemma base_root_ok: "root_ok K (base_manifest K r)"
  using base_well_formed [of K r]
  by (auto simp: root_ok_def base_end chainStep_def manifest_tail_def report_tail_def diff_text_def named_def
      split: option.splits)

lemma base_event_plain: "e \<in> set (fst (report_chain K r)) \<Longrightarrow> list_all plain (fields_of e event_keys)"
proof -
  assume "e \<in> set (fst (report_chain K r))"
  then have "fields_of e event_keys \<in> set (map (normalizeEventForManifest K) (rp_events r))"
    unfolding report_chain_spec(1) [symmetric] by simp
  then show ?thesis using plain_built(1) by auto
qed

lemma inputs_mem:
  "manifest_head K m \<in> manifest_inputs K m"
  "cr_sha256 K (manifest_head K m) @ canonicalizeSummary K (js_get m (js ''summary'')) \<in> manifest_inputs K m"
  "manifest_end K m @ manifest_tail K m \<in> manifest_inputs K m"
  "chain_inputs (cr_sha256 K) (canonicalizeEventFields K)
     (chain_start K (js_get m (js ''session_id'')) (js_get m (js ''summary''))) (elements (js_get m (js ''events'')))
   \<subseteq> manifest_inputs K m"
  by (auto simp: manifest_inputs_def)

text \<open>The root of a chain fixes everything that was hashed into it.\<close>

lemma root_binds:
  assumes D: "digest (cr_sha256 K)" and N: "number_text (cr_num K)"
    and inj: "inj_on (cr_sha256 K) (manifest_inputs K m \<union> manifest_inputs K (base_manifest K r))"
    and ok: "root_ok K m" and root: "js_get m (js ''root'') = js_get (base_manifest K r) (js ''root'')"
    and count: "js_get m (js ''event_count'') = js_get (base_manifest K r) (js ''event_count'')"
  shows "js_get (base_manifest K r) (js ''session_id'') = js_get m (js ''session_id'')
    \<and> fields_of (report_summary K r) summary_keys = fields_of (js_get m (js ''summary'')) summary_keys
    \<and> map (\<lambda>e. fields_of e event_keys) (fst (report_chain K r)) = map (\<lambda>e. fields_of e event_keys) (elements (js_get m (js ''events'')))
    \<and> diff_view (diff_text K r) = diff_view (js_get m (js ''diff''))
    \<and> js_get (base_manifest K r) (js ''events_truncated'') = js_get m (js ''events_truncated'')"
proof -
  let ?b = "base_manifest K r" and ?H = "cr_sha256 K" and ?canon = "canonicalizeEventFields K"
  let ?es = "\<lambda>m. elements (js_get m (js ''events''))"
  let ?start = "\<lambda>m. chain_start K (js_get m (js ''session_id'')) (js_get m (js ''summary''))"
  have start: "?start m = ?H (?H (manifest_head K m) @ canonicalizeSummary K (js_get m (js ''summary'')))" for m
    by (simp add: chain_start_def chainStep_def manifest_head_def)
  have len: "length (?start m) = 64" "length (manifest_end K m) = 64" for m
    unfolding manifest_end_def start by (simp_all add: digest.digest_length [OF D] digest.run_length [OF D])
  have step: "x = y" if "?H x = ?H y" "x \<in> manifest_inputs K ?b" "y \<in> manifest_inputs K m" for x y
    using inj_onD [OF inj that(1)] that by blast
  have "?H (manifest_end K ?b @ manifest_tail K ?b) = ?H (manifest_end K m @ manifest_tail K m)"
    using ok root base_root_ok [of K r] by (simp add: root_ok_def)
  then have "manifest_end K ?b @ manifest_tail K ?b = manifest_end K m @ manifest_tail K m"
    by (rule step [OF _ inputs_mem(3) inputs_mem(3)])
  then have e: "manifest_end K ?b = manifest_end K m" "manifest_tail K ?b = manifest_tail K m"
    using len(2) by simp_all
  have c: "length (?es ?b) = length (?es m)"
    using ok base_root_ok [of K r] count by (simp add: root_ok_def)
  have s: "?start ?b = ?start m" "map ?canon (?es ?b) = map ?canon (?es m)"
    using digest.chain_inj [OF D inj le_supI2 [OF inputs_mem(4)] le_supI1 [OF inputs_mem(4)] c len(1) len(1)]
      e(1) by (simp_all only: manifest_end_def)
  have h: "?H (manifest_head K ?b) = ?H (manifest_head K m)"
    "canonicalizeSummary K (js_get ?b (js ''summary'')) = canonicalizeSummary K (js_get m (js ''summary''))"
    using step [OF s(1) [unfolded start] inputs_mem(2) inputs_mem(2)] by (simp_all add: digest.digest_length [OF D])
  have "manifest_head K ?b = manifest_head K m"
    by (rule step [OF h(1) inputs_mem(1) inputs_mem(1)])
  then have "js_get ?b (js ''session_id'') = js_get m (js ''session_id'')"
    using canonJSON_inj [OF N, of "[js_get ?b (js ''session_id'')]" "[js_get m (js ''session_id'')]"]
    by (simp add: manifest_head_def)
  moreover have "fields_of (report_summary K r) summary_keys = fields_of (js_get m (js ''summary'')) summary_keys"
    using h(2) canonJSON_inj [OF N] plain_built(2) report_summary_fields [of K r]
    by (simp add: canonicalizeSummary_def)
  moreover have "map (\<lambda>e. fields_of e event_keys) (fst (report_chain K r)) = map (\<lambda>e. fields_of e event_keys) (?es m)"
    using s(2) by (intro canon_map_inj [OF N base_event_plain]) (simp_all add: canonicalizeEventFields_def [abs_def])
  moreover have tail: "[JStr (the (canonicalizeDiff K (diff_text K r))), js_get ?b (js ''events_truncated'')]
      = [JStr (the (canonicalizeDiff K (js_get m (js ''diff'')))), js_get m (js ''events_truncated'')]"
    using e(2) by (intro canonJSON_inj [OF N]) (simp_all add: manifest_tail_def)
  moreover have "diff_view (diff_text K r) = diff_view (js_get m (js ''diff''))"
  proof (rule diff_canon_inj [OF N])
    show "js_get m (js ''diff'') \<noteq> JNull" using ok by (simp add: root_ok_def)
    then obtain dt where "canonicalizeDiff K (js_get m (js ''diff'')) = Some dt"
      by (cases "js_get m (js ''diff'')") auto
    then show "canonicalizeDiff K (diff_text K r) = canonicalizeDiff K (js_get m (js ''diff''))"
      using tail diff_text_canon [of K r] by auto
  qed
  ultimately show ?thesis by simp
qed

text \<open>
  What is assumed of the signature scheme: whatever verifies under a key with the pinned
  fingerprint was signed with it, that is, is the header of one of the exported manifests or of
  one of the exported packets.
\<close>

definition only_signed :: "crypto \<Rightarrow> jstring \<Rightarrow> AuditSessionReport set \<Rightarrow> jsval set \<Rightarrow> bool" where
  "only_signed K fp reports packets \<longleftrightarrow>
    (\<forall>key h val. cr_verify K key h val = Some True \<longrightarrow> cr_shaBytes K key = fp \<longrightarrow>
       h \<in> (\<lambda>r. canonicalizeHeader K (base_manifest K r)) ` reports \<union> canonicalizePacketHeader K ` packets)"

lemma header_plain:
  assumes "root_ok K m"
  shows "list_all plain (JStr (js AUDIT_MANIFEST_VERSION)
    # fields_of m [''session_id'', ''generated_at'', ''event_count'', ''root''])"
proof -
  have "is_string v \<Longrightarrow> plain v" for v by (cases v) auto
  then show ?thesis using assms by (simp add: root_ok_def fields_of_def isWellFormedManifest_def)
qed

lemma header_separates:
  assumes "number_text (cr_num K)" "root_ok K m"
  shows "canonicalizeHeader K m \<noteq> canonicalizePacketHeader K p"
proof
  assume "canonicalizeHeader K m = canonicalizePacketHeader K p"
  from canonJSON_inj [OF assms(1) header_plain [OF assms(2)] this [unfolded canonicalizeHeader_def canonicalizePacketHeader_def]]
  show False by (simp add: AUDIT_MANIFEST_VERSION_def AUDIT_PACKET_MANIFEST_VERSION_def)
qed

text \<open>
  C16. A signed export is tamper-evident. Suppose a received manifest, of whatever content, is
  accepted as signed under the pinned fingerprint of the operator's key. If nothing but the
  operator's exports was signed with that key, the digest has a fixed length and no two of the texts
  hashed for the received manifest and for the exports collide, then everything the reader is shown
  is what the operator exported: the session, the time and the number of events, every field of the
  summary, every displayed field of every event in order, the diff and the truncation notice. A
  packet signed with the same key cannot pass as a session manifest.
\<close>

theorem manifest_tamper_evident:
  assumes D: "digest (cr_sha256 K)" and N: "number_text (cr_num K)"
    and signed: "only_signed K fp reports packets"
    and inj: "\<And>r. r \<in> reports \<Longrightarrow> inj_on (cr_sha256 K) (manifest_inputs K m \<union> manifest_inputs K (base_manifest K r))"
    and accepted: "verifyAuditManifest K m (Some fp) = Some res" "vr_ok res" "vr_signed res"
  shows "\<exists>r \<in> reports. displayed m = displayed (base_manifest K r)"
proof -
  have ok: "root_ok K m" using verify_accepts [OF accepted] by blast
  obtain key val where "cr_verify K key (canonicalizeHeader K m) val = Some True" "cr_shaBytes K key = fp"
    using verify_accepts [OF accepted] by blast
  then obtain r where r: "r \<in> reports" "canonicalizeHeader K m = canonicalizeHeader K (base_manifest K r)"
    using signed header_separates [OF N ok] unfolding only_signed_def by blast
  then have "fields_of m [''session_id'', ''generated_at'', ''event_count'', ''root'']
      = fields_of (base_manifest K r) [''session_id'', ''generated_at'', ''event_count'', ''root'']"
    using canonJSON_inj [OF N header_plain [OF ok]] by (auto simp: canonicalizeHeader_def)
  then have f: "js_get m (js ''generated_at'') = js_get (base_manifest K r) (js ''generated_at'')"
    "js_get m (js ''event_count'') = js_get (base_manifest K r) (js ''event_count'')"
    "js_get m (js ''root'') = js_get (base_manifest K r) (js ''root'')"
    by (simp_all add: fields_of_def)
  show ?thesis
    using root_binds [OF D N inj [OF r(1)] ok f(3,2)] f r(1)
    by (intro bexI [of _ r]) (simp_all add: displayed_def fields_of_def del: of_int_of_nat_eq)
qed

section \<open>Packets\<close>

definition packet_chain :: "crypto \<Rightarrow> jstring \<Rightarrow> PacketManifestSessionInput list \<Rightarrow> jsval list \<times> jstring" where
  "packet_chain K g ins = build_chain K packet_session_keys (canonicalizePacketSession K)
     (packet_start K (JStr g) (jint (int (length ins)))) (map (packet_projection K) ins)"

lemma base_packet_get [simp]:
  "js_get (base_packet K g ins gv) (js ''version'') = JStr (js AUDIT_PACKET_MANIFEST_VERSION)"
  "js_get (base_packet K g ins gv) (js ''algorithm'') = JStr (js AUDIT_CHAIN_ALGORITHM)"
  "js_get (base_packet K g ins gv) (js ''generated_at'') = JStr g"
  "js_get (base_packet K g ins gv) (js ''session_count'') = jint (int (length ins))"
  "js_get (base_packet K g ins gv) (js ''sessions'') = JArr (fst (packet_chain K g ins))"
  "js_get (base_packet K g ins gv) (js ''governance'') = named governance_keys gv"
  "js_get (base_packet K g ins gv) (js ''root'') =
     JStr (chainStep K (snd (packet_chain K g ins)) (canonicalizePacketGovernance K (named governance_keys gv)))"
  by (simp_all add: base_packet_def Let_def case_prod_unfold packet_chain_def del: of_int_of_nat_eq)

lemma packet_chain_spec:
  "map (\<lambda>e. fields_of e packet_session_keys) (fst (packet_chain K g ins)) = map (packet_projection K) ins"
  "chain_run (cr_sha256 K) (canonicalizePacketSession K) (packet_start K (JStr g) (jint (int (length ins))))
     (fst (packet_chain K g ins)) = snd (packet_chain K g ins)"
  "length (fst (packet_chain K g ins)) = length ins"
proof -
  have "distinct (packet_session_keys @ [''hash''])" by (simp add: packet_session_keys_def)
  note spec = build_chain_spec [OF this, of "canonicalizePacketSession K" K "map (packet_projection K) ins",
      OF canonicalizePacketSession_def]
  have ok: "list_all (\<lambda>fs. length fs = length packet_session_keys) (map (packet_projection K) ins)"
    by (simp add: list_all_iff packet_projection_def packet_session_keys_def)
  note spec' = spec [OF ok, of "packet_start K (JStr g) (jint (int (length ins)))" True, folded packet_chain_def]
  show fs: "map (\<lambda>e. fields_of e packet_session_keys) (fst (packet_chain K g ins)) = map (packet_projection K) ins"
    using spec' by blast
  show "chain_run (cr_sha256 K) (canonicalizePacketSession K) (packet_start K (JStr g) (jint (int (length ins))))
     (fst (packet_chain K g ins)) = snd (packet_chain K g ins)"
    using spec' verify_chain_fst [of K "canonicalizePacketSession K"] by (metis fst_conv)
  show "length (fst (packet_chain K g ins)) = length ins"
    using arg_cong [OF fs, of length] by simp
qed

definition packet_end :: "crypto \<Rightarrow> jsval \<Rightarrow> jstring" where
  "packet_end K m = chain_run (cr_sha256 K) (canonicalizePacketSession K)
     (packet_start K (js_get m (js ''generated_at'')) (js_get m (js ''session_count'')))
     (elements (js_get m (js ''sessions'')))"

definition packet_inputs :: "crypto \<Rightarrow> jsval \<Rightarrow> jstring set" where
  "packet_inputs K m =
    insert (packet_end K m @ canonicalizePacketGovernance K (js_get m (js ''governance'')))
      (chain_inputs (cr_sha256 K) (canonicalizePacketSession K)
        (packet_start K (js_get m (js ''generated_at'')) (js_get m (js ''session_count'')))
        (elements (js_get m (js ''sessions''))))"

definition packet_ok :: "crypto \<Rightarrow> jsval \<Rightarrow> bool" where
  "packet_ok K m \<longleftrightarrow> isWellFormedPacketManifest m
     \<and> js_get m (js ''session_count'') = jint (int (length (elements (js_get m (js ''sessions'')))))
     \<and> js_get m (js ''root'') = JStr (cr_sha256 K (packet_end K m @ canonicalizePacketGovernance K (js_get m (js ''governance''))))"

lemma packet_accepts:
  assumes "vr_ok (verifyPacketManifest K m (Some fp))" "vr_signed (verifyPacketManifest K m (Some fp))"
  shows "packet_ok K m \<and> (\<exists>key val. cr_verify K key (canonicalizePacketHeader K m) val = Some True \<and> cr_shaBytes K key = fp)"
proof -
  let ?ss = "elements (js_get m (js ''sessions''))"
  let ?canon = "canonicalizePacketSession K"
  let ?start = "packet_start K (js_get m (js ''generated_at'')) (js_get m (js ''session_count''))"
  let ?count = "js_get m (js ''session_count'') = jint (int (length ?ss))"
  let ?vc = "verify_chain K ?canon ?start ?count ?ss"
  let ?ok = "snd ?vc \<and> JStr (chainStep K (fst ?vc) (canonicalizePacketGovernance K (js_get m (js ''governance'')))) = js_get m (js ''root'')"
  have nv: "unsupportedVersionResult m AUDIT_PACKET_MANIFEST_VERSION AUDIT_PACKET_MANIFEST_MARKER
      ''unsupported-packet-manifest-version'' = None"
    using assms by (auto simp: verifyPacketManifest_def unsupportedVersionResult_def split: jsval.splits if_splits)
  have wf: "isWellFormedPacketManifest m"
    using assms nv by (auto simp: verifyPacketManifest_def malformed_result_def split: if_splits)
  have "verifyPacketManifest K m (Some fp) = conclude K ?ok (canonicalizePacketHeader K m) (js_get m (js ''signature'')) (Some fp)"
    using nv wf by (simp add: verifyPacketManifest_def Let_def case_prod_unfold)
  then have sig: "?ok" "signature_valid K (canonicalizePacketHeader K m) (js_get m (js ''signature''))"
    "fingerprintOfPublicKey K (js_get (js_get m (js ''signature'')) (js ''public_key'')) = Some fp"
    using assms unfolding conclude_def Let_def by (auto split: if_splits)
  have "packet_ok K m"
    using sig(1) wf verify_chain_ok [of K ?canon ?start ?count ?ss] verify_chain_fst [of K ?canon ?start ?count ?ss]
    by (auto simp: packet_ok_def packet_end_def chainStep_def)
  moreover have "\<exists>key val. cr_verify K key (canonicalizePacketHeader K m) val = Some True \<and> cr_shaBytes K key = fp"
    using sig(2,3) by (auto simp: signature_valid_def fingerprintOfPublicKey_def split: option.splits)
  ultimately show ?thesis by blast
qed

definition displayed_packet :: "jsval \<Rightarrow> jsval list \<times> jsval list list \<times> jsval list" where
  "displayed_packet m = (fields_of m [''generated_at'', ''session_count''],
     map (\<lambda>s. fields_of s packet_session_keys) (elements (js_get m (js ''sessions''))),
     fields_of (js_get m (js ''governance'')) governance_keys)"

lemma packet_header_plain:
  assumes "packet_ok K m"
  shows "list_all plain (JStr (js AUDIT_PACKET_MANIFEST_VERSION) # fields_of m [''generated_at'', ''session_count'', ''root''])"
proof -
  have "is_string v \<Longrightarrow> plain v" for v by (cases v) auto
  then show ?thesis using assms by (simp add: packet_ok_def fields_of_def isWellFormedPacketManifest_def)
qed

lemma packet_binds:
  assumes D: "digest (cr_sha256 K)" and N: "number_text (cr_num K)"
    and inj: "inj_on (cr_sha256 K) (packet_inputs K m \<union> packet_inputs K (base_packet K g ins gv))"
    and plain: "\<And>i. i \<in> set ins \<Longrightarrow> list_all plain (packet_projection K i)" "list_all plain gv" "length gv = length governance_keys"
    and ok: "packet_ok K m" and hd: "canonicalizePacketHeader K m = canonicalizePacketHeader K (base_packet K g ins gv)"
  shows "displayed_packet m = displayed_packet (base_packet K g ins gv)"
proof -
  let ?b = "base_packet K g ins gv" and ?H = "cr_sha256 K" and ?canon = "canonicalizePacketSession K"
  let ?gov = "\<lambda>m. canonicalizePacketGovernance K (js_get m (js ''governance''))"
  let ?ss = "\<lambda>m. elements (js_get m (js ''sessions''))"
  let ?start = "\<lambda>m. packet_start K (js_get m (js ''generated_at'')) (js_get m (js ''session_count''))"
  have "fields_of m [''generated_at'', ''session_count'', ''root''] = fields_of ?b [''generated_at'', ''session_count'', ''root'']"
    using canonJSON_inj [OF N packet_header_plain [OF ok]] hd by (auto simp: canonicalizePacketHeader_def)
  then have f: "js_get m (js ''generated_at'') = js_get ?b (js ''generated_at'')"
    "js_get m (js ''session_count'') = js_get ?b (js ''session_count'')" "js_get m (js ''root'') = js_get ?b (js ''root'')"
    by (simp_all add: fields_of_def)
  have start: "length (?start m) = 64" for m by (simp add: packet_start_def digest.digest_length [OF D])
  have len: "length (packet_end K m) = 64" for m
    unfolding packet_end_def by (rule digest.run_length [OF D start])
  have bend: "packet_end K ?b = snd (packet_chain K g ins)"
    using packet_chain_spec(2) [of K g ins] by (simp add: packet_end_def)
  have "?H (packet_end K m @ ?gov m) = ?H (packet_end K ?b @ ?gov ?b)"
    using ok f(3) by (simp add: packet_ok_def bend chainStep_def)
  then have "packet_end K m @ ?gov m = packet_end K ?b @ ?gov ?b"
    by (rule inj_onD [OF inj]) (simp_all add: packet_inputs_def)
  then have e: "packet_end K m = packet_end K ?b" "?gov m = ?gov ?b" using len by simp_all
  have c: "length (?ss m) = length (?ss ?b)"
    using ok f(2) packet_chain_spec(3) [of K g ins] by (simp add: packet_ok_def)
  have sub: "chain_inputs ?H ?canon (?start m) (?ss m) \<subseteq> packet_inputs K m" for m
    by (auto simp: packet_inputs_def)
  have "map ?canon (?ss m) = map ?canon (?ss ?b)"
    using digest.chain_inj [OF D inj le_supI1 [OF sub] le_supI2 [OF sub] c start start] e(1)
    by (simp_all only: packet_end_def)
  then have "map (\<lambda>e. fields_of e packet_session_keys) (?ss ?b) = map (\<lambda>e. fields_of e packet_session_keys) (?ss m)"
  proof (intro canon_map_inj [OF N])
    fix e assume "e \<in> set (?ss ?b)"
    then have "fields_of e packet_session_keys \<in> set (map (packet_projection K) ins)"
      unfolding packet_chain_spec(1) [of K g ins, symmetric] by simp
    then show "list_all plain (fields_of e packet_session_keys)" using plain(1) by auto
  qed (simp add: canonicalizePacketSession_def [abs_def])
  moreover have gb: "fields_of (js_get ?b (js ''governance'')) governance_keys = gv"
    using plain(3) by (simp add: fields_of_exact governance_keys_def)
  then have "gv = fields_of (js_get m (js ''governance'')) governance_keys"
    using e(2) by (intro canonJSON_inj [OF N plain(2)]) (simp add: canonicalizePacketGovernance_def)
  then have "fields_of (js_get m (js ''governance'')) governance_keys = fields_of (js_get ?b (js ''governance'')) governance_keys"
    using gb by (simp only:)
  moreover have "fields_of m [''generated_at'', ''session_count''] = fields_of ?b [''generated_at'', ''session_count'']"
    using f by (simp add: fields_of_def)
  ultimately show ?thesis
    unfolding displayed_packet_def by (metis (no_types, lifting))
qed

definition review_base :: "crypto \<Rightarrow> jstring \<times> AuditSessionReport list \<times> AuditSigner option \<Rightarrow> jsval" where
  "review_base K p = (case p of (g, rs, sg) \<Rightarrow>
     buildReviewPacket K g (map (\<lambda>r. (r, buildAuditManifest K r sg)) rs) None)"

lemma review_base_eq:
  "review_base K (g, rs, sg) = base_packet K g (map (\<lambda>r. packet_input (r, buildAuditManifest K r sg)) rs) (packet_governance K rs)"
  by (simp add: review_base_def buildReviewPacket_def buildPacketManifest_def comp_def)

lemma review_plain:
  "list_all plain (packet_projection K (packet_input (r, buildAuditManifest K r sg)))"
  "list_all plain (packet_governance K rs)" "length (packet_governance K rs) = length governance_keys"
proof -
  have "plain (js_get (buildAuditManifest K r sg) (js ''root''))" "plain (js_get (buildAuditManifest K r sg) (js ''event_count''))"
    by (cases sg; simp add: build_get; simp add: buildAuditManifest_def)+
  then show "list_all plain (packet_projection K (packet_input (r, buildAuditManifest K r sg)))"
    by (simp add: packet_projection_def packet_input_def Let_def)
qed (simp_all add: packet_governance_def Let_def by_kind_pairs_def governance_keys_def list_all_iff case_prod_unfold)

text \<open>
  A signed review packet is tamper-evident. A received packet that is accepted as signed under
  the pinned fingerprint shows exactly what one of the operator's packets shows: the same sessions in
  the same order, each with its event count, truncation, gate counts and the root of its own
  manifest, and the same governance totals, redaction counts and flagged operations; under the same
  assumptions on the digest and the signature scheme. A session manifest signed with the same key
  cannot pass as a packet.
\<close>

theorem packet_tamper_evident:
  assumes D: "digest (cr_sha256 K)" and N: "number_text (cr_num K)"
    and signed: "only_signed K fp reports (review_base K ` P)"
    and inj: "\<And>p. p \<in> P \<Longrightarrow> inj_on (cr_sha256 K) (packet_inputs K m \<union> packet_inputs K (review_base K p))"
    and accepted: "vr_ok (verifyPacketManifest K m (Some fp))" "vr_signed (verifyPacketManifest K m (Some fp))"
  shows "\<exists>p \<in> P. displayed_packet m = displayed_packet (review_base K p)"
proof -
  have ok: "packet_ok K m" using packet_accepts [OF accepted] by blast
  obtain key val where "cr_verify K key (canonicalizePacketHeader K m) val = Some True" "cr_shaBytes K key = fp"
    using packet_accepts [OF accepted] by blast
  then obtain p where p: "p \<in> P" "canonicalizePacketHeader K m = canonicalizePacketHeader K (review_base K p)"
    using signed header_separates [OF N base_root_ok, of _ m] unfolding only_signed_def by (metis UnE imageE)
  obtain g rs sg where q: "p = (g, rs, sg)" by (cases p)
  have "displayed_packet m = displayed_packet (review_base K (g, rs, sg))"
    unfolding review_base_eq
    by (rule packet_binds [OF D N inj [OF p(1), unfolded q review_base_eq] _ review_plain(2,3) ok])
       (use p(2) review_plain(1) in \<open>auto simp: q review_base_eq\<close>)
  then show ?thesis using p(1) q by blast
qed

section \<open>A working instance\<close>

text \<open>
  Numbers as sign, numerator and denominator in unary; a digest of 64 units that is injective, as the
  units of the model are not bounded.
\<close>

fun sample_num :: "jsnum \<Rightarrow> jstring" where
  "sample_num (JFin q) = (case quotient_of q of (a, b) \<Rightarrow>
     (if a < 0 then 45 else 43) # replicate (nat \<bar>a\<bar>) 48 @ 46 # replicate (nat b) 48)"
| "sample_num _ = []"

lemma unary_inj: "replicate n (48::nat) @ 46 # x = replicate n' 48 @ 46 # x' \<Longrightarrow> n = n' \<and> x = x'"
proof (induction n arbitrary: n')
  case 0
  then show ?case by (cases n') auto
next
  case (Suc n)
  then show ?case by (cases n') auto
qed

lemma sample_number_text: "number_text sample_num"
proof -
  have "a = b" if "sample_num (JFin a) = sample_num (JFin b)" for a b
  proof -
    obtain m n where q: "quotient_of a = (m, n)" by fastforce
    obtain m' n' where q': "quotient_of b = (m', n')" by fastforce
    have pos: "0 < n" "0 < n'" using quotient_of_denom_pos [OF q] quotient_of_denom_pos [OF q'] by simp_all
    have "(m < 0) = (m' < 0)" "nat \<bar>m\<bar> = nat \<bar>m'\<bar>" "nat n = nat n'"
      using that q q' by (auto dest!: unary_inj split: if_splits)
    then have "quotient_of a = quotient_of b" using pos q q' by (auto split: if_splits)
    then show ?thesis by (simp add: quotient_of_inject)
  qed
  then show ?thesis
    by (auto simp: number_text_def number_char_def list_all_iff split: prod.splits)
qed

definition sample_sha :: "jstring \<Rightarrow> jstring" where
  "sample_sha x = list_encode x # replicate 63 0"

interpretation sample: digest sample_sha
  by unfold_locales (simp add: sample_sha_def)

lemma sample_sha_inj: "inj_on sample_sha A"
  by (rule inj_onI) (simp add: sample_sha_def list_encode_eq)

definition sample_report :: AuditSessionReport where
  "sample_report = \<lparr>rp_generated_at = [], rp_summary = \<lparr>as_session_id = [], as_provider = [], as_source = [],
     as_agent_id = None, as_repo = None, as_branch = None, as_cwd = None, as_capture_mode = None,
     as_permission_mode = None, as_state = None, as_started_at = None, as_ended_at = None, as_last_event_at = None,
     as_secret_detected = False, as_secret_redaction_count = 0, as_by_kind = [],
     as_approvals = \<lparr>ap_total = 0, ap_allow = 0, ap_allow_for_session = 0, ap_deny = 0, ap_cancel = 0,
       ap_synthetic_retired = 0, ap_pending = 0\<rparr>, as_high_risk_op_count = 0, as_auto_allowed_count = 0,
     as_entries = None\<rparr>, rp_events = [], rp_events_truncated = False, rp_diff = None\<rparr>"

text \<open>The verifier accepts one header under one key: that of the sample report.\<close>

definition bare_crypto :: crypto where
  "bare_crypto = \<lparr>cr_sha256 = sample_sha, cr_shaBytes = (\<lambda>b. b), cr_fromBase64 = (\<lambda>v. js_string v),
     cr_verify = (\<lambda>_ _ _. None), cr_num = sample_num\<rparr>"

definition sample_header :: "jstring \<Rightarrow> bool" where
  "sample_header h \<longleftrightarrow> h = canonicalizeHeader bare_crypto (base_manifest bare_crypto sample_report)
     \<or> h = canonicalizePacketHeader bare_crypto (review_base bare_crypto ([], [], None))"

definition sample_crypto :: crypto where
  "sample_crypto = bare_crypto\<lparr>cr_verify := (\<lambda>key h val. Some (sample_header h))\<rparr>"

definition sample_signer :: AuditSigner where
  "sample_signer = \<lparr>sg_fingerprint = [7], sg_publicKey = [7], sg_sign = (\<lambda>d. d)\<rparr>"

lemma crypto_cong:
  assumes "cr_sha256 K = cr_sha256 K'" "cr_num K = cr_num K'"
  shows "canonJSON K = canonJSON K'" "chainStep K = chainStep K'"
    "canonicalizeEventFields K = canonicalizeEventFields K'" "canonicalizeSummary K = canonicalizeSummary K'"
    "canonicalizeDiff K = canonicalizeDiff K'"
    "build_chain K ks canon p fss = build_chain K' ks canon p fss"
    "canonicalizeHeader K = canonicalizeHeader K'" "base_manifest K r = base_manifest K' r"
proof -
  show c: "canonJSON K = canonJSON K'" and s: "chainStep K = chainStep K'"
    using assms by (simp_all add: canonJSON_def [abs_def] chainStep_def [abs_def])
  show e: "canonicalizeEventFields K = canonicalizeEventFields K'" and u: "canonicalizeSummary K = canonicalizeSummary K'"
    and "canonicalizeHeader K = canonicalizeHeader K'"
    by (simp_all add: c canonicalizeEventFields_def [abs_def] canonicalizeSummary_def [abs_def] canonicalizeHeader_def [abs_def])
  show d: "canonicalizeDiff K = canonicalizeDiff K'"
  proof
    show "canonicalizeDiff K v = canonicalizeDiff K' v" for v by (cases v) (simp_all add: c)
  qed
  have b: "build_chain K ks canon p fss = build_chain K' ks canon p fss" for ks canon p fss
    by (induction fss arbitrary: p) (simp_all add: s)
  then show "build_chain K ks canon p fss = build_chain K' ks canon p fss" .
  have n: "str_number K = str_number K'" by (rule ext) (simp add: str_number_def assms split: option.split)
  have "normalizeEventForManifest K = normalizeEventForManifest K'" "normalizeSummaryForManifest K = normalizeSummaryForManifest K'"
    "diff_text K r = diff_text K' r" "chain_start K = chain_start K'"
    by (simp_all add: n normalizeEventForManifest_def [abs_def] normalizeSummaryForManifest_def [abs_def] by_kind_pairs_def
        assms diff_text_def normalizeDiffForManifest_def chain_start_def [abs_def] c s u split: option.split)
  then show "base_manifest K r = base_manifest K' r"
    by (simp add: base_manifest_def b c s d e)
qed

lemma crypto_cong_packet:
  assumes "cr_sha256 K = cr_sha256 K'" "cr_num K = cr_num K'"
  shows "canonicalizePacketHeader K = canonicalizePacketHeader K'"
    "review_base K ([], [], None) = review_base K' ([], [], None)"
proof -
  note c = crypto_cong [OF assms]
  show h: "canonicalizePacketHeader K = canonicalizePacketHeader K'"
    by (simp add: canonicalizePacketHeader_def [abs_def] c)
  have "packet_governance K [] = packet_governance K' []"
    by (simp add: packet_governance_def by_kind_pairs_def str_number_def mergeRedactionByKind_def assms)
  moreover have "packet_start K = packet_start K'" by (simp add: packet_start_def [abs_def] c assms)
  ultimately show "review_base K ([], [], None) = review_base K' ([], [], None)"
    by (simp add: review_base_eq base_packet_def c canonicalizePacketGovernance_def [abs_def])
qed

lemma sample_fields [simp]:
  "cr_sha256 sample_crypto = sample_sha" "cr_num sample_crypto = sample_num"
  "cr_shaBytes sample_crypto = (\<lambda>b. b)" "cr_fromBase64 sample_crypto = js_string"
  "cr_verify sample_crypto key h val = Some (sample_header h)"
  "sg_fingerprint sample_signer = [7]" "sg_publicKey sample_signer = [7]" "sg_sign sample_signer h = h"
  by (simp_all add: sample_crypto_def bare_crypto_def sample_signer_def)

lemma sample_header_iff:
  "sample_header h \<longleftrightarrow> h = canonicalizeHeader sample_crypto (base_manifest sample_crypto sample_report)
     \<or> h = canonicalizePacketHeader sample_crypto (review_base sample_crypto ([], [], None))"
proof -
  have "cr_sha256 bare_crypto = cr_sha256 sample_crypto" "cr_num bare_crypto = cr_num sample_crypto"
    by (simp_all add: bare_crypto_def)
  from crypto_cong [OF this] crypto_cong_packet [OF this] show ?thesis by (simp add: sample_header_def)
qed

lemma sample_only_signed:
  "only_signed sample_crypto [7] {sample_report} (review_base sample_crypto ` {([], [], None)})"
  by (auto simp: only_signed_def sample_header_iff)

lemma sample_signer_valid: "valid_signer (sample_crypto\<lparr>cr_verify := (\<lambda>_ _ _. Some True)\<rparr>) sample_signer"
  by (simp add: valid_signer_def)

lemma sample_conclude:
  assumes "sample_header h"
  shows "conclude sample_crypto True h (signature_json sample_signer h) (Some [7]) =
    \<lparr>vr_ok = True, vr_chain_valid = True, vr_signed = True, vr_signature_valid = Some True, vr_key_trusted = Some True,
     vr_reason = ''verified (chain + ed25519 signature, fingerprint pinned)''\<rparr>"
  using assms by (simp add: conclude_def signature_valid_def fingerprintOfPublicKey_def)

theorem manifest_verifies_witness:
  "\<exists>res. verifyAuditManifest (sample_crypto\<lparr>cr_verify := (\<lambda>_ _ _. Some True)\<rparr>)
      (buildAuditManifest (sample_crypto\<lparr>cr_verify := (\<lambda>_ _ _. Some True)\<rparr>) sample_report (Some sample_signer)) (Some [7]) = Some res
    \<and> vr_ok res"
  using manifest_verifies [OF sample_signer_valid, of sample_report "Some [7]"] by auto

theorem manifest_tamper_evident_witness:
  "\<exists>r \<in> {sample_report}. displayed (buildAuditManifest sample_crypto sample_report (Some sample_signer))
     = displayed (base_manifest sample_crypto r)"
proof -
  have "verifyAuditManifest sample_crypto (buildAuditManifest sample_crypto sample_report (Some sample_signer)) (Some [7])
    = Some \<lparr>vr_ok = True, vr_chain_valid = True, vr_signed = True, vr_signature_valid = Some True, vr_key_trusted = Some True,
     vr_reason = ''verified (chain + ed25519 signature, fingerprint pinned)''\<rparr>"
    by (subst verify_built [where r = sample_report]) (simp_all add: build_get sample_conclude sample_header_iff)
  from manifest_tamper_evident [OF _ _ sample_only_signed _ this] show ?thesis
    by (simp add: sample.digest_axioms sample_number_text sample_sha_inj)
qed

lemma with_signature_packet_get:
  "js_get (with_signature (base_packet K g ins gv) sig) (js k) =
    (if k = ''signature'' then sig else js_get (base_packet K g ins gv) (js k))"
  by (auto simp: base_packet_def Let_def case_prod_unfold with_signature_def map_of_append map_add_def split: option.splits)

lemma sample_packet_verifies:
  "verifyPacketManifest sample_crypto (with_signature (review_base sample_crypto ([], [], None))
      (signature_json sample_signer (canonicalizePacketHeader sample_crypto (review_base sample_crypto ([], [], None))))) (Some [7])
    = \<lparr>vr_ok = True, vr_chain_valid = True, vr_signed = True, vr_signature_valid = Some True, vr_key_trusted = Some True,
     vr_reason = ''verified (chain + ed25519 signature, fingerprint pinned)''\<rparr>"
proof -
  define b where "b = review_base sample_crypto ([], [], None)"
  define sig where "sig = signature_json sample_signer (canonicalizePacketHeader sample_crypto b)"
  let ?m = "with_signature b sig"
  have g: "js_get ?m (js k) = (if k = ''signature'' then sig else js_get b (js k))" for k
    unfolding b_def review_base_eq by (rule with_signature_packet_get)
  have "canonicalizePacketHeader sample_crypto ?m = canonicalizePacketHeader sample_crypto b"
    by (simp add: canonicalizePacketHeader_def fields_of_def g)
  moreover have "isWellFormedPacketManifest ?m"
    by (simp add: isWellFormedPacketManifest_def g)
       (simp add: b_def review_base_eq packet_chain_def packet_governance_def governance_keys_def named_def by_kind_pairs_def)
  moreover have "sample_header (canonicalizePacketHeader sample_crypto b)" by (simp add: sample_header_iff b_def)
  note sample_conclude [OF this, folded sig_def]
  moreover have "js_get b (js ''sessions'') = JArr []" "js_get b (js ''session_count'') = jint 0"
    "js_get b (js ''version'') = JStr (js AUDIT_PACKET_MANIFEST_VERSION)"
    "js_get b (js ''root'') = JStr (chainStep sample_crypto (packet_start sample_crypto (js_get b (js ''generated_at'')) (jint 0))
       (canonicalizePacketGovernance sample_crypto (js_get b (js ''governance''))))"
    by (simp_all add: b_def review_base_eq packet_chain_def)
  ultimately have "verifyPacketManifest sample_crypto ?m (Some [7]) =
    \<lparr>vr_ok = True, vr_chain_valid = True, vr_signed = True, vr_signature_valid = Some True, vr_key_trusted = Some True,
     vr_reason = ''verified (chain + ed25519 signature, fingerprint pinned)''\<rparr>"
    by (simp add: verifyPacketManifest_def unsupportedVersionResult_def g)
  then show ?thesis by (simp add: b_def sig_def)
qed

theorem packet_tamper_evident_witness:
  "\<exists>p \<in> {([], [], None)}. displayed_packet (with_signature (review_base sample_crypto ([], [], None))
      (signature_json sample_signer (canonicalizePacketHeader sample_crypto (review_base sample_crypto ([], [], None)))))
    = displayed_packet (review_base sample_crypto p)"
  using packet_tamper_evident [OF _ _ sample_only_signed, of "with_signature (review_base sample_crypto ([], [], None))
      (signature_json sample_signer (canonicalizePacketHeader sample_crypto (review_base sample_crypto ([], [], None))))"]
  by (simp add: sample.digest_axioms sample_number_text sample_sha_inj sample_packet_verifies)

end
