(* ===== verification/Wire_Formats.thy ===== *)
theory Wire_Formats
  imports Policy_Store
begin

text \<open>
  What crosses the control channel between sidecar and backend besides events: the declaration of
  live approvals in the hello frame (\<^verbatim>\<open>packages/event-model/src/approval-reconcile-wire.ts\<close>),
  the visibility of agents (\<^verbatim>\<open>agent-visibility-wire.ts\<close>), the counters of degraded operation
  (\<^verbatim>\<open>observability-counters-wire.ts\<close>) and the vocabulary of spawn requests
  (\<^verbatim>\<open>codex-spawn-wire.ts\<close>). Everything received is a value of unknown shape.
\<close>

section \<open>Declared approvals\<close>

definition MAX_ACTIVE_PENDING_IDS :: nat where
  "MAX_ACTIVE_PENDING_IDS = 1024"

definition MAX_REQUEST_ID_LEN :: nat where
  "MAX_REQUEST_ID_LEN = 256"

definition ACTIVE_PENDING_FIELD :: string where
  "ACTIVE_PENDING_FIELD = ''active_pending_request_ids''"

definition RUNTIME_EPOCH_FIELD :: string where
  "RUNTIME_EPOCH_FIELD = ''runtime_epoch''"

definition is_hex :: "nat \<Rightarrow> bool" where
  "is_hex c \<longleftrightarrow> 48 \<le> c \<and> c \<le> 57 \<or> 65 \<le> c \<and> c \<le> 70 \<or> 97 \<le> c \<and> c \<le> 102"

definition UUID_RE :: "jstring \<Rightarrow> bool" where
  "UUID_RE s \<longleftrightarrow> map length (js_split 45 s) = [8, 4, 4, 4, 12] \<and> list_all (list_all is_hex) (js_split 45 s)"

definition buildApprovalReconcileHelloFields :: "jstring option \<Rightarrow> jstring list option \<Rightarrow> (jstring \<times> jsval) list" where
  "buildApprovalReconcileHelloFields runtimeEpoch ids =
    (case runtimeEpoch of
       Some e \<Rightarrow> if UUID_RE e then [(js RUNTIME_EPOCH_FIELD, JStr e)] else []
     | None \<Rightarrow> [])
    @ (case ids of
         Some is \<Rightarrow> if length is \<le> MAX_ACTIVE_PENDING_IDS then [(js ACTIVE_PENDING_FIELD, JArr (map JStr is))] else []
       | None \<Rightarrow> [])"

definition request_id_ok :: "jstring \<Rightarrow> bool" where
  "request_id_ok i \<longleftrightarrow> \<not> (length i = 0 \<or> length i > MAX_REQUEST_ID_LEN \<or> \<not> APPROVAL_REQUEST_ID_RE i)"

fun parse_ids :: "jsval list \<Rightarrow> jstring set option" where
  "parse_ids [] = Some {}"
| "parse_ids (v # vs) =
    (case js_string v of
       None \<Rightarrow> None
     | Some i \<Rightarrow> if request_id_ok i then map_option (insert i) (parse_ids vs) else None)"

fun parseActivePendingRequestIds :: "jsval \<Rightarrow> jstring set option" where
  "parseActivePendingRequestIds (JArr raw) = (if length raw > MAX_ACTIVE_PENDING_IDS then None else parse_ids raw)"
| "parseActivePendingRequestIds _ = None"

definition parseRuntimeEpoch :: "jsval \<Rightarrow> jstring option" where
  "parseRuntimeEpoch raw = (case js_string raw of Some s \<Rightarrow> if UUID_RE s then Some s else None | None \<Rightarrow> None)"

section \<open>Visibility of agents\<close>

record AgentVisibilityWire =
  av_claude_binaryOnPath :: bool
  av_claude_anyHook :: bool
  av_codex_binaryOnPath :: bool
  av_codex_rolloutDirResolved :: bool

definition asBool :: "jsval \<Rightarrow> bool" where
  "asBool v \<longleftrightarrow> v = JBool True"

definition parseAgentVisibilityWire :: "jsval \<Rightarrow> AgentVisibilityWire option" where
  "parseAgentVisibilityWire raw =
    (let claude = js_get raw (js ''claude''); codex = js_get raw (js ''codex'') in
     if \<not> isPlainObject raw then None
     else if \<not> isPlainObject claude \<or> \<not> isPlainObject codex then None
     else Some \<lparr>av_claude_binaryOnPath = asBool (js_get claude (js ''binaryOnPath'')),
                av_claude_anyHook = asBool (js_get claude (js ''anyHook'')),
                av_codex_binaryOnPath = asBool (js_get codex (js ''binaryOnPath'')),
                av_codex_rolloutDirResolved = asBool (js_get codex (js ''rolloutDirResolved''))\<rparr>)"

definition aggregateAgentReadiness :: "AgentVisibilityWire list \<Rightarrow> AgentVisibilityWire" where
  "aggregateAgentReadiness reports =
    \<lparr>av_claude_binaryOnPath = list_ex av_claude_binaryOnPath reports,
     av_claude_anyHook = list_ex av_claude_anyHook reports,
     av_codex_binaryOnPath = list_ex av_codex_binaryOnPath reports,
     av_codex_rolloutDirResolved = list_ex av_codex_rolloutDirResolved reports\<rparr>"

section \<open>Counters\<close>

text \<open>
  Counts are safe integers, so a sum of two is compared with the bound exactly, also where the
  double above it would be rounded.
\<close>

definition MAX_SAFE_INTEGER :: nat where
  "MAX_SAFE_INTEGER = 9007199254740991"

record DaemonCountersWire =
  dc_unstableRequestIdCount :: nat

record ReadinessCountersWire = DaemonCountersWire +
  rc_nonRetirableSkipCount :: nat

definition ZERO_DAEMON_COUNTERS :: DaemonCountersWire where
  "ZERO_DAEMON_COUNTERS = \<lparr>dc_unstableRequestIdCount = 0\<rparr>"

fun asCount :: "jsval \<Rightarrow> nat" where
  "asCount (JNum (JFin q)) =
    (if of_int \<lfloor>q\<rfloor> = q \<and> \<bar>q\<bar> \<le> of_nat MAX_SAFE_INTEGER \<and> q \<ge> 0 then nat \<lfloor>q\<rfloor> else 0)"
| "asCount _ = 0"

definition addSaturating :: "nat \<Rightarrow> nat \<Rightarrow> nat" where
  "addSaturating a b = (let s = a + b in if s > MAX_SAFE_INTEGER then MAX_SAFE_INTEGER else s)"

abbreviation jcount :: "nat \<Rightarrow> jsval" where
  "jcount n \<equiv> jint (int n)"

definition DAEMON_COUNTERS_FIELD :: string where
  "DAEMON_COUNTERS_FIELD = ''daemon_counters''"

definition buildDaemonCountersHelloFields :: "DaemonCountersWire option \<Rightarrow> (jstring \<times> jsval) list" where
  "buildDaemonCountersHelloFields counters =
    (case counters of
       None \<Rightarrow> []
     | Some c \<Rightarrow> [(js DAEMON_COUNTERS_FIELD,
         JObj [(js ''unstableRequestIdCount'', jcount (asCount (jcount (dc_unstableRequestIdCount c))))])])"

definition parseDaemonCountersWire :: "jsval \<Rightarrow> DaemonCountersWire option" where
  "parseDaemonCountersWire raw =
    (if \<not> isPlainObject raw then None
     else Some \<lparr>dc_unstableRequestIdCount = asCount (js_get raw (js ''unstableRequestIdCount''))\<rparr>)"

definition aggregateDaemonCounters :: "DaemonCountersWire list \<Rightarrow> DaemonCountersWire" where
  "aggregateDaemonCounters reports =
    \<lparr>dc_unstableRequestIdCount =
       foldl (\<lambda>n r. addSaturating n (asCount (jcount (dc_unstableRequestIdCount r)))) 0 reports\<rparr>"

definition buildReadinessCounters :: "DaemonCountersWire \<Rightarrow> jsval \<Rightarrow> ReadinessCountersWire" where
  "buildReadinessCounters daemon nonRetirableSkipCount =
    \<lparr>dc_unstableRequestIdCount = asCount (jcount (dc_unstableRequestIdCount daemon)),
     rc_nonRetirableSkipCount = asCount nonRetirableSkipCount\<rparr>"

definition parseReadinessCountersWire :: "jsval \<Rightarrow> ReadinessCountersWire" where
  "parseReadinessCountersWire raw =
    (if \<not> isPlainObject raw then \<lparr>dc_unstableRequestIdCount = 0, rc_nonRetirableSkipCount = 0\<rparr>
     else \<lparr>dc_unstableRequestIdCount = asCount (js_get raw (js ''unstableRequestIdCount'')),
           rc_nonRetirableSkipCount = asCount (js_get raw (js ''nonRetirableSkipCount''))\<rparr>)"

section \<open>Spawn requests\<close>

record CodexSpawnParams =
  sp_prompt :: jstring
  sp_cwd :: jstring

definition MAX_SPAWN_PROMPT_LEN :: nat where
  "MAX_SPAWN_PROMPT_LEN = 32768"

definition MAX_SPAWN_CWD_LEN :: nat where
  "MAX_SPAWN_CWD_LEN = 4096"

datatype CodexSpawnErrorCode = invalid_request | cwd_out_of_scope | spawn_disabled | spawn_cap_reached | spawn_failed

fun spawn_error_str :: "CodexSpawnErrorCode \<Rightarrow> string" where
  "spawn_error_str invalid_request = ''invalid_request''"
| "spawn_error_str cwd_out_of_scope = ''cwd_out_of_scope''"
| "spawn_error_str spawn_disabled = ''spawn_disabled''"
| "spawn_error_str spawn_cap_reached = ''spawn_cap_reached''"
| "spawn_error_str spawn_failed = ''spawn_failed''"

definition SPAWN_ERROR_CODES :: "CodexSpawnErrorCode list" where
  "SPAWN_ERROR_CODES = [invalid_request, cwd_out_of_scope, spawn_disabled, spawn_cap_reached, spawn_failed]"

definition asCodexSpawnErrorCode :: "jsval \<Rightarrow> CodexSpawnErrorCode" where
  "asCodexSpawnErrorCode v =
    (case find (\<lambda>c. v = JStr (js (spawn_error_str c))) SPAWN_ERROR_CODES of Some c \<Rightarrow> c | None \<Rightarrow> spawn_failed)"

definition parseCodexSpawnRequest :: "jsval \<Rightarrow> CodexSpawnParams option" where
  "parseCodexSpawnRequest raw =
    (if \<not> isPlainObject raw then None
     else case js_string (js_get raw (js ''prompt'')) of
       None \<Rightarrow> None
     | Some prompt \<Rightarrow>
         if length prompt = 0 \<or> length prompt > MAX_SPAWN_PROMPT_LEN then None
         else if 0 \<in> set prompt then None
         else (case js_string (js_get raw (js ''cwd'')) of
             None \<Rightarrow> None
           | Some cwd \<Rightarrow>
               if length cwd = 0 \<or> length cwd > MAX_SPAWN_CWD_LEN then None
               else if 0 \<in> set cwd then None
               else if \<not> js_starts_with cwd (js ''/'') then None
               else Some \<lparr>sp_prompt = prompt, sp_cwd = cwd\<rparr>))"

section \<open>Declarations\<close>

lemma parse_ids_Some:
  "parse_ids (map JStr is) = (if list_all request_id_ok is then Some (set is) else None)"
  by (induction "is") auto

lemma parse_ids_shape: "parse_ids vs = Some S \<Longrightarrow> i \<in> S \<Longrightarrow> APPROVAL_REQUEST_ID_RE i"
  by (induction vs arbitrary: S) (auto simp: request_id_ok_def split: option.splits if_splits)

lemma request_id_ok_iff: "request_id_ok i \<longleftrightarrow> APPROVAL_REQUEST_ID_RE i"
  by (auto simp: request_id_ok_def APPROVAL_REQUEST_ID_RE_def MAX_REQUEST_ID_LEN_def)

lemma hello_field_absent:
  "js_get (JObj (buildApprovalReconcileHelloFields e None)) (js ACTIVE_PENDING_FIELD) = JUndef"
  by (auto simp: buildApprovalReconcileHelloFields_def ACTIVE_PENDING_FIELD_def RUNTIME_EPOCH_FIELD_def split: option.split)

lemma hello_field_ids:
  "js_get (JObj (buildApprovalReconcileHelloFields e (Some is))) (js ACTIVE_PENDING_FIELD) =
    (if length is \<le> MAX_ACTIVE_PENDING_IDS then JArr (map JStr is) else JUndef)"
  by (auto simp: buildApprovalReconcileHelloFields_def ACTIVE_PENDING_FIELD_def RUNTIME_EPOCH_FIELD_def split: option.split)

lemma asCount_bound: "asCount v \<le> MAX_SAFE_INTEGER"
proof (cases v rule: asCount.cases)
  case (1 q)
  then show ?thesis by (auto simp: le_floor_iff nat_le_iff floor_le_iff)
qed simp_all

lemma asCount_jcount: "asCount (jcount n) = (if n \<le> MAX_SAFE_INTEGER then n else 0)"
  by simp

lemma set_somes: "x \<in> set (somes xs) \<longleftrightarrow> Some x \<in> set xs"
  by (induction xs rule: somes.induct) auto

lemma saturating_sum:
  assumes "\<And>r. r \<in> set reports \<Longrightarrow> dc_unstableRequestIdCount r \<le> MAX_SAFE_INTEGER" "n \<le> MAX_SAFE_INTEGER"
  shows "foldl (\<lambda>n r. addSaturating n (asCount (jcount (dc_unstableRequestIdCount r)))) n reports
    = min MAX_SAFE_INTEGER (n + sum_list (map dc_unstableRequestIdCount reports))"
  using assms
proof (induction reports arbitrary: n)
  case (Cons r reports)
  have "addSaturating n (asCount (jcount (dc_unstableRequestIdCount r)))
      = min MAX_SAFE_INTEGER (n + dc_unstableRequestIdCount r)"
    unfolding asCount_jcount using Cons.prems(1) [of r] by (auto simp: addSaturating_def Let_def)
  then show ?case using Cons by (auto simp: min_def)
qed simp

section \<open>Properties\<close>

text \<open>
  A declaration of live approvals arrives as it was made. The field a sidecar puts into its
  hello frame for a list of request identifiers is read back as exactly the set of those
  identifiers when all are canonical and at most 1024; in every other case, too many, an identifier
  of another shape or no declaration at all, nothing is read, so that nothing is retired on its
  account.
\<close>

theorem declaration_roundtrip:
  "parseActivePendingRequestIds (js_get (JObj (buildApprovalReconcileHelloFields epoch ids)) (js ACTIVE_PENDING_FIELD))
   = (case ids of
        Some is \<Rightarrow> if length is \<le> MAX_ACTIVE_PENDING_IDS \<and> list_all APPROVAL_REQUEST_ID_RE is then Some (set is) else None
      | None \<Rightarrow> None)"
proof (cases ids)
  case (Some xs)
  show ?thesis
    unfolding Some hello_field_ids by (simp add: parse_ids_Some request_id_ok_iff [abs_def])
next
  case None
  show ?thesis unfolding None hello_field_absent by simp
qed

text \<open>
  Counters never overflow and never lose a report. Whatever values the daemons send, the
  aggregated count is the sum of the counts that were read from them, cut at the largest safe
  integer; a value that is not a safe non-negative integer counts as zero.
\<close>

theorem daemon_counters_saturate:
  "dc_unstableRequestIdCount (aggregateDaemonCounters (somes (map parseDaemonCountersWire raws)))
   = min MAX_SAFE_INTEGER (sum_list (map dc_unstableRequestIdCount (somes (map parseDaemonCountersWire raws))))"
proof -
  have "dc_unstableRequestIdCount r \<le> MAX_SAFE_INTEGER" if "r \<in> set (somes (map parseDaemonCountersWire raws))" for r
    using that asCount_bound by (auto simp: set_somes parseDaemonCountersWire_def split: if_splits)
  then show ?thesis by (simp only: aggregateDaemonCounters_def DaemonCountersWire.simps saturating_sum zero_le add_0)
qed

end
