(* ===== verification/Round_Trips.thy ===== *)
theory Round_Trips
  imports Prelude "HOL-Library.Multiset"
begin

text \<open>
  The envelope of a request that waits for an answer over the control channel
  (\<^verbatim>\<open>apps/backend/src/pending-round-trips.ts\<close>). A waiting caller is a ticket, the promise it
  holds; an armed timer carries what its callback captured, the request identifier and the value a
  time-out gives. The answers an operation gives are its first result.
\<close>

section \<open>The envelope\<close>

record 'r PendingRoundTrips =
  rt_pending :: "(jstring \<times> nat) list"
  rt_timers :: "(nat \<times> jstring \<times> 'r) list"

definition rt_new :: "'r PendingRoundTrips" where
  "rt_new = \<lparr>rt_pending = [], rt_timers = []\<rparr>"

definition register :: "jstring \<Rightarrow> nat \<Rightarrow> 'r \<Rightarrow> 'r PendingRoundTrips \<Rightarrow> 'r PendingRoundTrips" where
  "register requestId t timeoutResult p =
    p\<lparr>rt_timers := (t, requestId, timeoutResult) # rt_timers p, rt_pending := AList.update requestId t (rt_pending p)\<rparr>"

text \<open>The callback of the timer.\<close>

definition trip_times_out :: "nat \<Rightarrow> 'r PendingRoundTrips \<Rightarrow> (nat \<times> 'r) list \<times> 'r PendingRoundTrips" where
  "trip_times_out t p =
    (case map_of (rt_timers p) t of
       None \<Rightarrow> ([], p)
     | Some (requestId, r) \<Rightarrow>
         ([(t, r)], p\<lparr>rt_timers := AList.delete t (rt_timers p), rt_pending := AList.delete requestId (rt_pending p)\<rparr>))"

definition settle :: "jstring \<Rightarrow> 'r PendingRoundTrips \<Rightarrow> nat option \<times> 'r PendingRoundTrips" where
  "settle requestId p =
    (case map_of (rt_pending p) requestId of
       None \<Rightarrow> (None, p)
     | Some t \<Rightarrow> (Some t, p\<lparr>rt_timers := AList.delete t (rt_timers p), rt_pending := AList.delete requestId (rt_pending p)\<rparr>))"

definition settle_with :: "jstring \<Rightarrow> 'r \<Rightarrow> 'r PendingRoundTrips \<Rightarrow> (nat \<times> 'r) list \<times> 'r PendingRoundTrips" where
  "settle_with requestId r p =
    (case settle requestId p of (None, p') \<Rightarrow> ([], p') | (Some t, p') \<Rightarrow> ([(t, r)], p'))"

definition abort :: "jstring \<Rightarrow> 'r \<Rightarrow> 'r PendingRoundTrips \<Rightarrow> (nat \<times> 'r) list \<times> 'r PendingRoundTrips" where
  "abort requestId r p = settle_with requestId r p"

definition rejectAll :: "'r \<Rightarrow> 'r PendingRoundTrips \<Rightarrow> (nat \<times> 'r) list \<times> 'r PendingRoundTrips" where
  "rejectAll r p =
    (map (\<lambda>(requestId, t). (t, r)) (rt_pending p),
     p\<lparr>rt_timers := foldl (\<lambda>ts x. AList.delete (snd x) ts) (rt_timers p) (rt_pending p), rt_pending := []\<rparr>)"

definition rt_size :: "'r PendingRoundTrips \<Rightarrow> nat" where
  "rt_size p = length (rt_pending p)"

section \<open>Answering exactly once\<close>

text \<open>Running a component that gives answers, and the tickets a sequence of operations takes on.\<close>

fun run_ops :: "('s \<Rightarrow> 'o \<Rightarrow> (nat \<times> 'r) list \<times> 's) \<Rightarrow> 's \<Rightarrow> 'o list \<Rightarrow> (nat \<times> 'r) list \<times> 's" where
  "run_ops step s [] = ([], s)"
| "run_ops step s (x # xs) = (let (out, s') = step s x; (outs, s'') = run_ops step s' xs in (out @ outs, s''))"

definition all_opened :: "('o \<Rightarrow> nat multiset) \<Rightarrow> 'o list \<Rightarrow> nat multiset" where
  "all_opened opened xs = sum_list (map opened xs)"

text \<open>
  The contract of a component that takes on obligations, tickets, and discharges them: what an
  operation takes on is what it leaves open or answers. \<open>fresh\<close> is what the environment promises of
  the tickets of an operation.
\<close>

locale obligations =
  fixes step :: "'s \<Rightarrow> 'o \<Rightarrow> (nat \<times> 'r) list \<times> 's"
    and opened :: "'o \<Rightarrow> nat multiset"
    and due :: "'s \<Rightarrow> nat multiset"
    and inv :: "'s \<Rightarrow> bool"
  assumes step_inv: "inv s \<Longrightarrow> set_mset (opened x) \<inter> set_mset (due s) = {} \<Longrightarrow> inv (snd (step s x))"
    and step_balance: "inv s \<Longrightarrow> set_mset (opened x) \<inter> set_mset (due s) = {} \<Longrightarrow>
      due s + opened x = due (snd (step s x)) + mset (map fst (fst (step s x)))"
begin

lemma run_balance:
  assumes "inv s" "set_mset (all_opened opened xs) \<inter> set_mset (due s) = {}" "\<And>t. count (all_opened opened xs) t \<le> 1"
  shows "due s + all_opened opened xs = due (snd (run_ops step s xs)) + mset (map fst (fst (run_ops step s xs))) \<and> inv (snd (run_ops step s xs))"
  using assms
proof (induction xs arbitrary: s)
  case (Cons x xs)
  let ?s = "snd (step s x)"
  have fresh: "set_mset (opened x) \<inter> set_mset (due s) = {}" "set_mset (all_opened opened xs) \<inter> set_mset (due s) = {}"
    using Cons.prems(2) by (auto simp: all_opened_def)
  have apart: "set_mset (all_opened opened xs) \<inter> set_mset (opened x) = {}"
  proof (rule ccontr)
    assume "set_mset (all_opened opened xs) \<inter> set_mset (opened x) \<noteq> {}"
    then obtain t where "t \<in># all_opened opened xs" "t \<in># opened x" by blast
    then have "0 < count (all_opened opened xs) t + count (opened x) t" "1 \<le> count (all_opened opened xs) t" "1 \<le> count (opened x) t"
      by (simp_all only: count_greater_zero_iff Suc_le_eq One_nat_def add_pos_pos)
    moreover have "count (opened x) t + count (all_opened opened xs) t \<le> 1"
      using Cons.prems(3) [of t] by (simp add: all_opened_def)
    ultimately show False by linarith
  qed
  have bal: "due s + opened x = due ?s + mset (map fst (fst (step s x)))"
    by (rule step_balance [OF Cons.prems(1) fresh(1)])
  then have "set_mset (due ?s) \<subseteq> set_mset (due s + opened x)"
    by (metis mset_subset_eq_add_left set_mset_mono)
  then have "set_mset (all_opened opened xs) \<inter> set_mset (due ?s) = {}"
    using fresh(2) apart by auto
  moreover have "count (all_opened opened xs) t \<le> 1" for t
    using Cons.prems(3) [of t] by (simp add: all_opened_def)
  ultimately have "due ?s + all_opened opened xs = due (snd (run_ops step ?s xs)) + mset (map fst (fst (run_ops step ?s xs)))"
    "inv (snd (run_ops step ?s xs))"
    using Cons.IH [OF step_inv [OF Cons.prems(1) fresh(1)]] by simp_all
  moreover have "due s + all_opened opened (x # xs) = (due s + opened x) + all_opened opened xs"
    by (simp add: all_opened_def ac_simps)
  ultimately show ?case
    using bal by (simp add: Let_def case_prod_unfold ac_simps)
qed (simp add: all_opened_def)

text \<open>Every ticket taken on is either still open or answered exactly once.\<close>

lemma answered_once:
  assumes "inv s" "due s = {#}" "\<And>t. count (all_opened opened xs) t \<le> 1" "t \<in># all_opened opened xs"
  shows "count (due (snd (run_ops step s xs))) t + count (mset (map fst (fst (run_ops step s xs)))) t = 1"
proof -
  have "due (snd (run_ops step s xs)) + mset (map fst (fst (run_ops step s xs))) = all_opened opened xs"
    using run_balance [OF assms(1) _ assms(3)] assms(2) by simp
  moreover have "count (all_opened opened xs) t = 1"
    using assms(3) [of t] assms(4) by (metis One_nat_def Suc_leI count_greater_zero_iff le_antisym)
  ultimately show ?thesis by (metis count_union)
qed

end

section \<open>The envelope meets its contract\<close>

datatype 'r trip_op =
    Register jstring nat 'r
  | Time_out nat
  | Settle jstring 'r
  | Abort jstring 'r
  | Reject_all 'r

fun trip_step :: "'r PendingRoundTrips \<Rightarrow> 'r trip_op \<Rightarrow> (nat \<times> 'r) list \<times> 'r PendingRoundTrips" where
  "trip_step p (Register i t r) = ([], register i t r p)"
| "trip_step p (Time_out t) = trip_times_out t p"
| "trip_step p (Settle i r) = settle_with i r p"
| "trip_step p (Abort i r) = abort i r p"
| "trip_step p (Reject_all r) = rejectAll r p"

fun trip_opened :: "'r trip_op \<Rightarrow> nat multiset" where
  "trip_opened (Register i t r) = {#t#}"
| "trip_opened _ = {#}"

definition trip_due :: "'r PendingRoundTrips \<Rightarrow> nat multiset" where
  "trip_due p = mset (map fst (rt_timers p))"

text \<open>Who waits for an answer has an armed timer, which captured that request.\<close>

definition trip_inv :: "'r PendingRoundTrips \<Rightarrow> bool" where
  "trip_inv p \<longleftrightarrow> distinct (map fst (rt_timers p)) \<and> distinct (map fst (rt_pending p))
     \<and> (\<forall>i t. (i, t) \<in> set (rt_pending p) \<longrightarrow> (\<exists>r. map_of (rt_timers p) t = Some (i, r)))"

lemma mset_keys_delete:
  assumes "distinct (map fst ts)" "map_of ts t = Some v"
  shows "mset (map fst ts) = add_mset t (mset (map fst (AList.delete t ts)))"
  using assms
proof (induction ts)
  case (Cons x ts)
  then show ?case by (cases x) (auto simp: delete_idem)
qed simp

lemma trip_inv_discharge:
  assumes "trip_inv p" "map_of (rt_timers p) t = Some (i, r)"
  shows "trip_inv (p\<lparr>rt_timers := AList.delete t (rt_timers p), rt_pending := AList.delete i (rt_pending p)\<rparr>)"
  unfolding trip_inv_def
proof (intro conjI allI impI)
  fix j u assume "(j, u) \<in> set (rt_pending (p\<lparr>rt_timers := AList.delete t (rt_timers p), rt_pending := AList.delete i (rt_pending p)\<rparr>))"
  then have "(j, u) \<in> set (rt_pending p)" "j \<noteq> i" by (simp_all add: set_delete)
  then obtain r' where "map_of (rt_timers p) u = Some (j, r')" using assms(1) unfolding trip_inv_def by blast
  then show "\<exists>r. map_of (rt_timers (p\<lparr>rt_timers := AList.delete t (rt_timers p), rt_pending := AList.delete i (rt_pending p)\<rparr>)) u = Some (j, r)"
    using \<open>j \<noteq> i\<close> assms(2) by (auto simp: delete_conv')
qed (use assms(1) in \<open>simp_all add: trip_inv_def distinct_delete\<close>)

lemma trip_due_discharge:
  assumes "trip_inv p" "map_of (rt_timers p) t = Some v"
  shows "trip_due p = add_mset t (trip_due (p\<lparr>rt_timers := AList.delete t (rt_timers p), rt_pending := ps\<rparr>))"
  using mset_keys_delete [OF _ assms(2)] assms(1) by (simp add: trip_due_def trip_inv_def)

lemma pending_timer:
  "trip_inv p \<Longrightarrow> map_of (rt_pending p) i = Some t \<Longrightarrow> \<exists>r. map_of (rt_timers p) t = Some (i, r)"
  unfolding trip_inv_def by (blast dest: map_of_SomeD)

lemma settle_with_spec:
  assumes "trip_inv p"
  shows "trip_inv (snd (settle_with i r p))
    \<and> trip_due p = trip_due (snd (settle_with i r p)) + mset (map fst (fst (settle_with i r p)))"
proof (cases "map_of (rt_pending p) i")
  case (Some t)
  then obtain r' where "map_of (rt_timers p) t = Some (i, r')" using pending_timer [OF assms] by blast
  then show ?thesis
    using trip_inv_discharge [OF assms] trip_due_discharge [OF assms] Some
    by (auto simp: settle_with_def settle_def)
qed (simp add: settle_with_def settle_def assms)

lemma time_out_spec:
  assumes "trip_inv p"
  shows "trip_inv (snd (trip_times_out t p))
    \<and> trip_due p = trip_due (snd (trip_times_out t p)) + mset (map fst (fst (trip_times_out t p)))"
proof (cases "map_of (rt_timers p) t")
  case (Some v)
  then show ?thesis
    using trip_inv_discharge [OF assms] trip_due_discharge [OF assms Some]
    by (cases v) (auto simp: trip_times_out_def)
qed (simp add: trip_times_out_def assms)

lemma register_spec:
  assumes "trip_inv p" "t \<notin># trip_due p"
  shows "trip_inv (register i t r p) \<and> trip_due (register i t r p) = add_mset t (trip_due p)"
proof -
  have "t \<notin> fst ` set (rt_timers p)" using assms(2) by (auto simp: trip_due_def)
  moreover have "\<exists>r'. map_of (rt_timers (register i t r p)) u = Some (j, r')"
    if "(j, u) \<in> set (rt_pending (register i t r p))" for j u
  proof (cases "(j, u) = (i, t)")
    case False
    then have "(j, u) \<in> set (rt_pending p)" using that by (auto simp: register_def dest!: set_update_cases)
    then obtain r' where r': "map_of (rt_timers p) u = Some (j, r')" using assms(1) unfolding trip_inv_def by blast
    then have "u \<noteq> t" using calculation by (force dest: map_of_SomeD)
    then show ?thesis using r' by (simp add: register_def)
  qed (simp add: register_def)
  ultimately show ?thesis
    using assms(1) by (simp add: trip_inv_def register_def trip_due_def distinct_update)
qed

text \<open>Rejecting all is rejecting the waiting requests one after the other.\<close>

lemma rejectAll_Cons:
  assumes "rt_pending p = (i, t) # ps" "distinct (map fst (rt_pending p))"
  shows "rejectAll r p = (let (out, p') = settle_with i r p; (outs, p'') = rejectAll r p' in (out @ outs, p''))"
proof -
  have "AList.delete i ps = ps" using assms by (simp add: delete_idem)
  then show ?thesis using assms(1) by (simp add: rejectAll_def settle_with_def settle_def)
qed

lemma rejectAll_spec:
  assumes "trip_inv p"
  shows "trip_inv (snd (rejectAll r p)) \<and> trip_due p = trip_due (snd (rejectAll r p)) + mset (map fst (fst (rejectAll r p)))"
  using assms
proof (induction "length (rt_pending p)" arbitrary: p)
  case 0
  then show ?case by (simp add: rejectAll_def trip_inv_def trip_due_def)
next
  case (Suc n)
  then obtain i t ps where ps: "rt_pending p = (i, t) # ps" by (cases "rt_pending p") auto
  let ?q = "snd (settle_with i r p)"
  have "n = length (rt_pending ?q)"
    using Suc.hyps(2) Suc.prems ps by (simp add: settle_with_def settle_def trip_inv_def delete_idem)
  then have "trip_inv (snd (rejectAll r ?q)) \<and> trip_due ?q = trip_due (snd (rejectAll r ?q)) + mset (map fst (fst (rejectAll r ?q)))"
    using Suc.hyps(1) settle_with_spec [OF Suc.prems] by blast
  moreover have "distinct (map fst (rt_pending p))" using Suc.prems by (simp add: trip_inv_def)
  ultimately show ?case
    using rejectAll_Cons [OF ps, of r] settle_with_spec [OF Suc.prems, of i r]
    by (simp add: case_prod_unfold Let_def ac_simps)
qed

interpretation trips: obligations "trip_step :: 'r PendingRoundTrips \<Rightarrow> _" trip_opened trip_due trip_inv
proof
  fix p :: "'r PendingRoundTrips" and x :: "'r trip_op"
  assume inv: "trip_inv p" and fresh: "set_mset (trip_opened x) \<inter> set_mset (trip_due p) = {}"
  have "trip_inv (snd (trip_step p x)) \<and> trip_due p + trip_opened x = trip_due (snd (trip_step p x)) + mset (map fst (fst (trip_step p x)))"
  proof (cases x)
    case (Register i t r)
    then show ?thesis using register_spec [OF inv, of t i r] fresh by auto
  qed (use time_out_spec [OF inv] settle_with_spec [OF inv] rejectAll_spec [OF inv] in \<open>simp_all add: abort_def\<close>)
  then show "trip_inv (snd (trip_step p x))"
    and "trip_due p + trip_opened x = trip_due (snd (trip_step p x)) + mset (map fst (fst (trip_step p x)))"
    by simp_all
qed

section \<open>Properties\<close>

fun registered :: "'r trip_op list \<Rightarrow> nat list" where
  "registered [] = []"
| "registered (Register i t r # xs) = t # registered xs"
| "registered (_ # xs) = registered xs"

lemma all_opened_registered: "all_opened trip_opened xs = mset (registered xs)"
  by (induction xs rule: registered.induct) (simp_all add: all_opened_def)

lemma rt_new_inv [simp]: "trip_inv rt_new" "trip_due rt_new = {#}"
  by (simp_all add: trip_inv_def trip_due_def rt_new_def)

text \<open>
  A request over the control channel is answered exactly once. Whatever the order of answers,
  send failures, time-outs and shutdowns, repeated and unknown identifiers included, each caller
  that registered is either answered once and has no timer left, or has not been answered and its
  time-out is armed. No caller is lost and none is answered twice.
\<close>

theorem round_trip_answered_once:
  assumes "distinct (registered ops)" "t \<in> set (registered ops)"
  shows "(count_list (map fst (fst (run_ops trip_step rt_new ops))) t = 1 \<and> t \<notin> fst ` set (rt_timers (snd (run_ops trip_step rt_new ops))))
    \<or> (count_list (map fst (fst (run_ops trip_step rt_new ops))) t = 0 \<and> t \<in> fst ` set (rt_timers (snd (run_ops trip_step rt_new ops))))"
proof -
  have "count (mset (registered ops)) u \<le> 1" for u
    using assms(1) by (simp add: distinct_count_atmost_1)
  then have "count (trip_due (snd (run_ops trip_step rt_new ops))) t + count (mset (map fst (fst (run_ops trip_step rt_new ops)))) t = 1"
    using trips.answered_once [of rt_new ops t] assms(2) by (simp add: all_opened_registered)
  moreover have "count (trip_due p) t = 0 \<longleftrightarrow> t \<notin> fst ` set (rt_timers p)" for p :: "'a PendingRoundTrips"
    by (simp add: trip_due_def count_eq_zero_iff)
  moreover have "count_list xs t = count (mset xs) t" for xs by (induction xs) auto
  ultimately show ?thesis by (metis One_nat_def add_is_1)
qed

theorem round_trip_answered_once_witness:
  "count_list (map fst (fst (run_ops trip_step rt_new
     [Register [1] 0 ''late'', Register [2] 1 ''late'', Settle [1] ''ok'', Settle [1] ''again'', Time_out 0, Time_out 1]))) 0 = 1"
  using round_trip_answered_once [of "[Register [1] 0 ''late'', Register [2] 1 ''late'', Settle [1] ''ok'', Settle [1] ''again'', Time_out 0, Time_out 1]" 0]
  by (simp add: run_ops.simps rt_new_def register_def settle_with_def settle_def trip_times_out_def)

end
