(* ===== verification/Sidecar_Registry.thy ===== *)
theory Sidecar_Registry
  imports Wire_Formats Round_Trips
begin

text \<open>
  The registry of connected sidecars and the relay to them
  (\<^verbatim>\<open>apps/backend/src/sidecar-registry.ts\<close>). A connection object is shared between three maps
  of the class, so connections live in a store and the maps hold their addresses. Links are the
  sockets of the server: whether one is open, and whether a send on it throws, is an argument of
  each operation. Everything the class does outside its own state, calls of listeners, frames
  handed to a socket and promises it resolves, is appended to a log in the order it happens.
\<close>

section \<open>Data\<close>

record link_env =
  en_open :: "nat \<Rightarrow> bool"
  en_send :: "nat \<Rightarrow> bool"

record SidecarConn =
  cn_link :: nat
  cn_daemonId :: jstring
  cn_controlToken :: "jstring option"
  cn_policyCapable :: bool
  cn_spawnCapable :: bool
  cn_agentVisibility :: "AgentVisibilityWire option"
  cn_daemonCounters :: "DaemonCountersWire option"
  cn_runtimeEpoch :: "jstring option"
  cn_sessions :: "jstring list"

record AgentReadinessSummary =
  ra_daemonCount :: nat
  ra_visibility :: AgentVisibilityWire
  ra_counters :: ReadinessCountersWire

datatype RelayResult = Relay_ok | Relay_error string

record ApprovalRelay =
  rl_session_id :: jstring
  rl_request_id :: jstring
  rl_decision :: jstring
  rl_reason :: "jstring option"
  rl_persist :: bool

record DiffResponse =
  df_body :: jstring
  df_truncated :: bool
  df_secret_detected :: bool
  df_redaction_count :: rat

datatype DiffRelayResult = Diff_ok DiffResponse | Diff_error string

record AllowlistEntry =
  al_signature :: jstring
  al_repo_scope :: jstring
  al_repo_label :: "jstring option"
  al_risk :: jstring
  al_created_at_ms :: rat
  al_expires_at_ms :: rat

datatype AllowlistRelayResult = Allowlist_ok bool "AllowlistEntry list" "rat option" | Allowlist_error string

record PolicyRepoRelay =
  pr_repo_scope :: jstring
  pr_repo_label :: "jstring option"
  pr_enabled :: bool
  pr_categories :: "PolicyCategory list"

record PolicyRelayView =
  pw_enabled :: bool
  pw_categories :: "PolicyCategory list"
  pw_env_gate_enabled :: bool
  pw_repo_scope :: "jstring option"
  pw_repo_label :: "jstring option"
  pw_is_override :: "bool option"
  pw_repos :: "PolicyRepoRelay list option"

datatype PolicyRelayResult = Policy_ok PolicyRelayView | Policy_error jstring

datatype CodexSpawnRelayResult = Spawn_ok "jstring option" | Spawn_error string bool

record ApprovalReconcileSignal =
  rs_sessionIds :: "jstring list"
  rs_activeRequestIds :: "jstring set"
  rs_receivedAt :: rat
  rs_runtimeEpoch :: "jstring option"

datatype PolicyRelayOp = Op_get | Op_set | Op_unset | Op_list | Op_resolve

record PolicyRelayParams =
  pp_categories :: "jstring list option"
  pp_enabled :: "bool option"
  pp_repo_scope :: "jstring option"
  pp_repo_label :: "jstring option"
  pp_path :: "jstring option"
  pp_resolveScope :: "jstring list option"

datatype registry_event =
    Presence nat jstring bool
  | Reconcile nat ApprovalReconcileSignal
  | Sent nat jsval
  | Diff_answer nat DiffRelayResult
  | Allowlist_answer nat AllowlistRelayResult
  | Policy_answer nat PolicyRelayResult
  | Spawn_answer nat CodexSpawnRelayResult

record SidecarRegistry =
  rg_conn :: "nat \<Rightarrow> SidecarConn"
  rg_next :: nat
  rg_conns :: "(nat \<times> nat) list"
  rg_sessionOwner :: "(jstring \<times> nat) list"
  rg_byDaemon :: "(jstring \<times> nat) list"
  rg_graceTimers :: "jstring list"
  rg_presenceListeners :: "nat list"
  rg_approvalReconcileListeners :: "nat list"
  rg_diffs :: "DiffRelayResult PendingRoundTrips"
  rg_allowlist :: "AllowlistRelayResult PendingRoundTrips"
  rg_policy :: "PolicyRelayResult PendingRoundTrips"
  rg_spawn :: "CodexSpawnRelayResult PendingRoundTrips"
  rg_log :: "registry_event list"

section \<open>Frames\<close>

definition frame_type :: "string \<Rightarrow> jsval \<Rightarrow> bool" where
  "frame_type k v \<longleftrightarrow> js_get v (js ''type'') = JStr (js k)"

definition isHelloFrame :: "jsval \<Rightarrow> bool" where
  "isHelloFrame = frame_type ''hello''"

definition isDiffResponseFrame :: "jsval \<Rightarrow> bool" where
  "isDiffResponseFrame = frame_type ''diff.response''"

definition isAllowlistResponseFrame :: "jsval \<Rightarrow> bool" where
  "isAllowlistResponseFrame = frame_type ''allowlist.response''"

definition isPolicyResponseFrame :: "jsval \<Rightarrow> bool" where
  "isPolicyResponseFrame = frame_type ''policy.response''"

definition isCodexSpawnResponseFrame :: "jsval \<Rightarrow> bool" where
  "isCodexSpawnResponseFrame = frame_type ''codex.spawn.response''"

definition MAX_RELAY_ERROR_LEN :: nat where
  "MAX_RELAY_ERROR_LEN = 256"

definition MAX_RECONCILE_SESSIONS :: nat where
  "MAX_RECONCILE_SESSIONS = 1024"

text \<open>A property that is present only when its value is.\<close>

definition opt_prop :: "string \<Rightarrow> jsval option \<Rightarrow> (jstring \<times> jsval) list" where
  "opt_prop k v = (case v of Some x \<Rightarrow> [(js k, x)] | None \<Rightarrow> [])"

fun finite_or :: "rat \<Rightarrow> jsval \<Rightarrow> rat" where
  "finite_or d (JNum (JFin q)) = q"
| "finite_or d _ = d"

fun js_bool :: "jsval \<Rightarrow> bool option" where
  "js_bool (JBool b) = Some b"
| "js_bool _ = None"

section \<open>Connections\<close>

definition registry_new :: SidecarRegistry where
  "registry_new = \<lparr>rg_conn = (\<lambda>_. \<lparr>cn_link = 0, cn_daemonId = [], cn_controlToken = None, cn_policyCapable = False,
       cn_spawnCapable = False, cn_agentVisibility = None, cn_daemonCounters = None, cn_runtimeEpoch = None, cn_sessions = []\<rparr>),
     rg_next = 0, rg_conns = [], rg_sessionOwner = [], rg_byDaemon = [], rg_graceTimers = [],
     rg_presenceListeners = [], rg_approvalReconcileListeners = [],
     rg_diffs = rt_new, rg_allowlist = rt_new, rg_policy = rt_new, rg_spawn = rt_new, rg_log = []\<rparr>"

definition record_events :: "registry_event list \<Rightarrow> SidecarRegistry \<Rightarrow> SidecarRegistry" where
  "record_events es r = r\<lparr>rg_log := rg_log r @ es\<rparr>"

definition upd_conn :: "nat \<Rightarrow> (SidecarConn \<Rightarrow> SidecarConn) \<Rightarrow> SidecarRegistry \<Rightarrow> SidecarRegistry" where
  "upd_conn c f r = r\<lparr>rg_conn := (rg_conn r)(c := f (rg_conn r c))\<rparr>"

definition set_add :: "'a \<Rightarrow> 'a list \<Rightarrow> 'a list" where
  "set_add x xs = (if x \<in> set xs then xs else xs @ [x])"

definition onPresenceChange :: "nat \<Rightarrow> SidecarRegistry \<Rightarrow> SidecarRegistry" where
  "onPresenceChange cb r = r\<lparr>rg_presenceListeners := rg_presenceListeners r @ [cb]\<rparr>"

definition onApprovalReconcile :: "nat \<Rightarrow> SidecarRegistry \<Rightarrow> SidecarRegistry" where
  "onApprovalReconcile cb r = r\<lparr>rg_approvalReconcileListeners := rg_approvalReconcileListeners r @ [cb]\<rparr>"

text \<open>Registering a link; the identifier of the daemon is drawn at random.\<close>

definition registry_add :: "jstring \<Rightarrow> nat \<Rightarrow> SidecarRegistry \<Rightarrow> SidecarRegistry" where
  "registry_add daemonId link r =
    (if map_of (rg_conns r) link \<noteq> None then r
     else (let c = rg_next r in
       r\<lparr>rg_conn := (rg_conn r)(c := \<lparr>cn_link = link, cn_daemonId = daemonId, cn_controlToken = None,
            cn_policyCapable = False, cn_spawnCapable = False, cn_agentVisibility = None, cn_daemonCounters = None,
            cn_runtimeEpoch = None, cn_sessions = []\<rparr>),
         rg_next := Suc c, rg_conns := AList.update link c (rg_conns r),
         rg_byDaemon := AList.update daemonId c (rg_byDaemon r)\<rparr>))"

definition isLive :: "link_env \<Rightarrow> jstring \<Rightarrow> SidecarRegistry \<Rightarrow> bool" where
  "isLive env sid r =
    (if sid \<in> set (rg_graceTimers r) then True
     else case map_of (rg_sessionOwner r) sid of
       None \<Rightarrow> False
     | Some c \<Rightarrow> en_open env (cn_link (rg_conn r c)))"

definition emitPresence :: "jstring \<Rightarrow> bool \<Rightarrow> SidecarRegistry \<Rightarrow> SidecarRegistry" where
  "emitPresence sid live r = record_events (map (\<lambda>cb. Presence cb sid live) (rg_presenceListeners r)) r"

definition startGrace :: "jstring \<Rightarrow> SidecarRegistry \<Rightarrow> SidecarRegistry" where
  "startGrace sid r = r\<lparr>rg_graceTimers := set_add sid (rg_graceTimers r)\<rparr>"

text \<open>The callback of the grace timer of a session.\<close>

definition grace_expires :: "link_env \<Rightarrow> jstring \<Rightarrow> SidecarRegistry \<Rightarrow> SidecarRegistry" where
  "grace_expires env sid r =
    (if sid \<notin> set (rg_graceTimers r) then r
     else (let r1 = r\<lparr>rg_graceTimers := removeAll sid (rg_graceTimers r)\<rparr> in
       if \<not> isLive env sid r1 then emitPresence sid False r1 else r1))"

definition claim :: "link_env \<Rightarrow> nat \<Rightarrow> jstring \<Rightarrow> SidecarRegistry \<Rightarrow> SidecarRegistry" where
  "claim env c sid r =
    (let wasLive = isLive env sid r;
         r1 = (upd_conn c (\<lambda>conn. conn\<lparr>cn_sessions := set_add sid (cn_sessions conn)\<rparr>) r)
                \<lparr>rg_graceTimers := removeAll sid (rg_graceTimers r),
                 rg_sessionOwner := AList.update sid c (rg_sessionOwner r)\<rparr>
     in if \<not> wasLive \<and> en_open env (cn_link (rg_conn r c)) then emitPresence sid True r1 else r1)"

definition disown :: "jstring \<Rightarrow> SidecarRegistry \<Rightarrow> SidecarRegistry" where
  "disown sid r = startGrace sid (r\<lparr>rg_sessionOwner := AList.delete sid (rg_sessionOwner r)\<rparr>)"

definition releaseSession :: "nat \<Rightarrow> jstring \<Rightarrow> SidecarRegistry \<Rightarrow> SidecarRegistry" where
  "releaseSession c sid r =
    (if map_of (rg_sessionOwner r) sid \<noteq> Some c then r
     else disown sid (upd_conn c (\<lambda>conn. conn\<lparr>cn_sessions := removeAll sid (cn_sessions conn)\<rparr>) r))"

definition observeSession :: "link_env \<Rightarrow> nat \<Rightarrow> jstring \<Rightarrow> SidecarRegistry \<Rightarrow> SidecarRegistry" where
  "observeSession env link sid r =
    (case map_of (rg_conns r) link of None \<Rightarrow> r | Some c \<Rightarrow> claim env c sid r)"

definition registry_remove :: "nat \<Rightarrow> SidecarRegistry \<Rightarrow> SidecarRegistry" where
  "registry_remove link r =
    (case map_of (rg_conns r) link of
       None \<Rightarrow> r
     | Some c \<Rightarrow>
         (let r1 = foldl (\<lambda>r sid. if map_of (rg_sessionOwner r) sid = Some c then disown sid r else r) r
                     (cn_sessions (rg_conn r c))
          in r1\<lparr>rg_conns := AList.delete link (rg_conns r1),
                rg_byDaemon := AList.delete (cn_daemonId (rg_conn r c)) (rg_byDaemon r1)\<rparr>))"

section \<open>The handshake\<close>

text \<open>What a hello frame records of its connection before its sessions.\<close>

definition record_hello :: "jsval \<Rightarrow> SidecarConn \<Rightarrow> SidecarConn" where
  "record_hello frame conn =
    conn\<lparr>cn_controlToken := (case js_string (js_get frame (js ''control_token'')) of
                               Some t \<Rightarrow> if length t > 0 then Some t else cn_controlToken conn
                             | None \<Rightarrow> cn_controlToken conn),
         cn_policyCapable := (js_get frame (js ''policy_capable'') = JBool True),
         cn_spawnCapable := (js_get frame (js ''spawn_capable'') = JBool True),
         cn_agentVisibility := (case parseAgentVisibilityWire (js_get frame (js ''agent_visibility'')) of
                                  Some v \<Rightarrow> Some v | None \<Rightarrow> cn_agentVisibility conn),
         cn_daemonCounters := (case parseDaemonCountersWire (js_get frame (js ''daemon_counters'')) of
                                 Some v \<Rightarrow> Some v | None \<Rightarrow> cn_daemonCounters conn)\<rparr>"

fun hello_sessions :: "jsval \<Rightarrow> jstring list option" where
  "hello_sessions (JArr vs) = Some (foldl (\<lambda>next v. case js_string v of
       Some sid \<Rightarrow> if length sid > 0 then set_add sid next else next
     | None \<Rightarrow> next) [] vs)"
| "hello_sessions _ = None"

definition hello_membership :: "link_env \<Rightarrow> nat \<Rightarrow> jstring list option \<Rightarrow> SidecarRegistry \<Rightarrow> SidecarRegistry" where
  "hello_membership env c ids r =
    (case ids of
       None \<Rightarrow> r
     | Some nxt \<Rightarrow>
         (let r1 = foldl (\<lambda>r sid. claim env c sid r) r nxt
          in foldl (\<lambda>r sid. if sid \<in> set nxt then r else releaseSession c sid r) r1 (cn_sessions (rg_conn r1 c))))"

definition maybeEmitApprovalReconcile :: "rat \<Rightarrow> nat \<Rightarrow> jsval \<Rightarrow> SidecarRegistry \<Rightarrow> SidecarRegistry" where
  "maybeEmitApprovalReconcile now c declared r =
    (case parseActivePendingRequestIds declared of
       None \<Rightarrow> r
     | Some active \<Rightarrow>
         (let sessionIds = filter (\<lambda>sid. map_of (rg_sessionOwner r) sid = Some c) (cn_sessions (rg_conn r c)) in
          if length sessionIds = 0 \<or> length sessionIds > MAX_RECONCILE_SESSIONS then r
          else record_events (map (\<lambda>cb. Reconcile cb
                 \<lparr>rs_sessionIds = sessionIds, rs_activeRequestIds = active, rs_receivedAt = now,
                  rs_runtimeEpoch = cn_runtimeEpoch (rg_conn r c)\<rparr>) (rg_approvalReconcileListeners r)) r))"

definition handleHello :: "link_env \<Rightarrow> rat \<Rightarrow> nat \<Rightarrow> jsval \<Rightarrow> SidecarRegistry \<Rightarrow> bool \<times> SidecarRegistry" where
  "handleHello env now link frame r =
    (case map_of (rg_conns r) link of
       None \<Rightarrow> (False, r)
     | Some c \<Rightarrow>
         (let r1 = upd_conn c (record_hello frame) r;
              r2 = hello_membership env c (hello_sessions (js_get frame (js ''session_ids''))) r1;
              r3 = (case parseRuntimeEpoch (js_get frame (js ''runtime_epoch'')) of
                      Some e \<Rightarrow> upd_conn c (\<lambda>conn. conn\<lparr>cn_runtimeEpoch := Some e\<rparr>) r2
                    | None \<Rightarrow> r2)
          in (True, maybeEmitApprovalReconcile now c (js_get frame (js ''active_pending_request_ids'')) r3)))"

section \<open>Queries\<close>

definition liveSessionIds :: "link_env \<Rightarrow> SidecarRegistry \<Rightarrow> jstring list" where
  "liveSessionIds env r =
    foldl (\<lambda>ids sid. set_add sid ids) []
      (map fst (filter (\<lambda>(sid, c). en_open env (cn_link (rg_conn r c))) (rg_sessionOwner r)) @ rg_graceTimers r)"

text \<open>Why a connection cannot be used: it is closed, or its handshake is not complete.\<close>

definition channel_error :: "link_env \<Rightarrow> SidecarConn \<Rightarrow> string option" where
  "channel_error env conn =
    (if \<not> en_open env (cn_link conn) then Some ''sidecar disconnected''
     else if cn_controlToken conn = None then Some ''no control channel (handshake incomplete)''
     else None)"

definition canRelay :: "link_env \<Rightarrow> jstring \<Rightarrow> SidecarRegistry \<Rightarrow> bool" where
  "canRelay env sid r =
    (case map_of (rg_sessionOwner r) sid of None \<Rightarrow> False | Some c \<Rightarrow> channel_error env (rg_conn r c) = None)"

definition connectedDaemons :: "link_env \<Rightarrow> SidecarRegistry \<Rightarrow> (jstring \<times> bool \<times> jstring option) list" where
  "connectedDaemons env r =
    map (\<lambda>conn. (cn_daemonId conn, cn_spawnCapable conn, cn_runtimeEpoch conn))
      (filter (\<lambda>conn. channel_error env conn = None \<and> cn_policyCapable conn) (map (\<lambda>(l, c). rg_conn r c) (rg_conns r)))"

definition agentReadiness :: "link_env \<Rightarrow> jsval \<Rightarrow> SidecarRegistry \<Rightarrow> AgentReadinessSummary" where
  "agentReadiness env nonRetirableSkipCount r =
    (let opens = filter (\<lambda>conn. en_open env (cn_link conn)) (map (\<lambda>(l, c). rg_conn r c) (rg_conns r)) in
     \<lparr>ra_daemonCount = length opens,
      ra_visibility = aggregateAgentReadiness (somes (map cn_agentVisibility opens)),
      ra_counters = buildReadinessCounters (aggregateDaemonCounters (somes (map cn_daemonCounters opens))) nonRetirableSkipCount\<rparr>)"

section \<open>Relaying decisions\<close>

definition token_json :: "SidecarConn \<Rightarrow> jsval" where
  "token_json conn = (case cn_controlToken conn of Some t \<Rightarrow> JStr t | None \<Rightarrow> JUndef)"

definition link_send :: "link_env \<Rightarrow> nat \<Rightarrow> jsval \<Rightarrow> SidecarRegistry \<Rightarrow> bool \<times> SidecarRegistry" where
  "link_send env link frame r = (if en_send env link then (True, record_events [Sent link frame] r) else (False, r))"

definition relay_to :: "link_env \<Rightarrow> jstring \<Rightarrow> (SidecarConn \<Rightarrow> jsval) \<Rightarrow> SidecarRegistry \<Rightarrow> RelayResult \<times> SidecarRegistry" where
  "relay_to env sid msg r =
    (case map_of (rg_sessionOwner r) sid of
       None \<Rightarrow> (Relay_error ''session not registered'', r)
     | Some c \<Rightarrow>
         (let conn = rg_conn r c in
          case channel_error env conn of
            Some e \<Rightarrow> (Relay_error e, r)
          | None \<Rightarrow>
              (case link_send env (cn_link conn) (msg conn) r of
                 (True, r') \<Rightarrow> (Relay_ok, r')
               | (False, r') \<Rightarrow> (Relay_error ''relay send failed'', r'))))"

definition approval_frame :: "ApprovalRelay \<Rightarrow> SidecarConn \<Rightarrow> jsval" where
  "approval_frame relay conn = JObj
    ([(js ''type'', JStr (js ''approval'')), (js ''request_id'', JStr (rl_request_id relay)),
      (js ''decision'', JStr (rl_decision relay)), (js ''token'', token_json conn)]
     @ opt_prop ''reason'' (map_option JStr (rl_reason relay))
     @ opt_prop ''persist'' (if rl_persist relay then Some (JBool True) else None))"

definition relayApproval :: "link_env \<Rightarrow> ApprovalRelay \<Rightarrow> SidecarRegistry \<Rightarrow> RelayResult \<times> SidecarRegistry" where
  "relayApproval env relay r = relay_to env (rl_session_id relay) (approval_frame relay) r"

definition interrupt_frame :: "jstring \<Rightarrow> SidecarConn \<Rightarrow> jsval" where
  "interrupt_frame sid conn = JObj
    [(js ''type'', JStr (js ''interrupt'')), (js ''session_id'', JStr sid), (js ''token'', token_json conn)]"

definition relayInterrupt :: "link_env \<Rightarrow> jstring \<Rightarrow> SidecarRegistry \<Rightarrow> RelayResult \<times> SidecarRegistry" where
  "relayInterrupt env sid r = relay_to env sid (interrupt_frame sid) r"

section \<open>Round trips\<close>

text \<open>
  A request is answered at once when it cannot be sent; otherwise it is registered, sent, and
  aborted when the send throws. The promise of the caller is a ticket.
\<close>

definition diff_answers :: "(nat \<times> DiffRelayResult) list \<times> DiffRelayResult PendingRoundTrips \<Rightarrow> SidecarRegistry \<Rightarrow> SidecarRegistry" where
  "diff_answers op r = record_events (map (\<lambda>(t, x). Diff_answer t x) (fst op)) (r\<lparr>rg_diffs := snd op\<rparr>)"

definition requestDiff :: "link_env \<Rightarrow> jstring \<Rightarrow> nat \<Rightarrow> jstring \<Rightarrow> SidecarRegistry \<Rightarrow> SidecarRegistry" where
  "requestDiff env requestId t sid r =
    (case map_of (rg_sessionOwner r) sid of
       None \<Rightarrow> record_events [Diff_answer t (Diff_error ''session not registered'')] r
     | Some c \<Rightarrow>
         (let conn = rg_conn r c in
          case channel_error env conn of
            Some e \<Rightarrow> record_events [Diff_answer t (Diff_error e)] r
          | None \<Rightarrow>
              (let r1 = r\<lparr>rg_diffs := register requestId t (Diff_error ''diff request timed out'') (rg_diffs r)\<rparr>;
                   msg = JObj [(js ''type'', JStr (js ''diff.request'')), (js ''request_id'', JStr requestId),
                               (js ''session_id'', JStr sid), (js ''token'', token_json conn)]
               in case link_send env (cn_link conn) msg r1 of
                    (True, r2) \<Rightarrow> r2
                  | (False, r2) \<Rightarrow> diff_answers (abort requestId (Diff_error ''relay send failed'') (rg_diffs r2)) r2)))"

definition diff_times_out :: "nat \<Rightarrow> SidecarRegistry \<Rightarrow> SidecarRegistry" where
  "diff_times_out t r = diff_answers (trip_times_out t (rg_diffs r)) r"

definition diff_response :: "jsval \<Rightarrow> DiffResponse" where
  "diff_response frame =
    \<lparr>df_body = (case js_string (js_get frame (js ''body'')) of Some b \<Rightarrow> b | None \<Rightarrow> []),
     df_truncated = (js_get frame (js ''truncated'') = JBool True),
     df_secret_detected = (js_get frame (js ''secret_detected'') = JBool True),
     df_redaction_count = finite_or 0 (js_get frame (js ''redaction_count''))\<rparr>"

definition resolveDiff :: "jsval \<Rightarrow> SidecarRegistry \<Rightarrow> SidecarRegistry" where
  "resolveDiff frame r =
    (case js_string (js_get frame (js ''request_id'')) of
       None \<Rightarrow> r
     | Some requestId \<Rightarrow> diff_answers (settle_with requestId (Diff_ok (diff_response frame)) (rg_diffs r)) r)"

definition allowlist_answers ::
  "(nat \<times> AllowlistRelayResult) list \<times> AllowlistRelayResult PendingRoundTrips \<Rightarrow> SidecarRegistry \<Rightarrow> SidecarRegistry" where
  "allowlist_answers op r = record_events (map (\<lambda>(t, x). Allowlist_answer t x) (fst op)) (r\<lparr>rg_allowlist := snd op\<rparr>)"

definition requestAllowlist ::
  "link_env \<Rightarrow> jstring \<Rightarrow> nat \<Rightarrow> jstring \<Rightarrow> string \<Rightarrow> jstring option \<Rightarrow> jstring option \<Rightarrow> SidecarRegistry \<Rightarrow> SidecarRegistry" where
  "requestAllowlist env requestId t sid op signature repoScope r =
    (case map_of (rg_sessionOwner r) sid of
       None \<Rightarrow> record_events [Allowlist_answer t (Allowlist_error ''session not registered'')] r
     | Some c \<Rightarrow>
         (let conn = rg_conn r c in
          case channel_error env conn of
            Some e \<Rightarrow> record_events [Allowlist_answer t (Allowlist_error e)] r
          | None \<Rightarrow>
              (let r1 = r\<lparr>rg_allowlist := register requestId t (Allowlist_error ''allowlist request timed out'') (rg_allowlist r)\<rparr>;
                   msg = JObj ([(js ''type'', JStr (js ''allowlist.request'')), (js ''request_id'', JStr requestId),
                                (js ''op'', JStr (js op)), (js ''token'', token_json conn)]
                               @ opt_prop ''signature'' (map_option JStr signature)
                               @ opt_prop ''repo_scope'' (map_option JStr repoScope))
               in case link_send env (cn_link conn) msg r1 of
                    (True, r2) \<Rightarrow> r2
                  | (False, r2) \<Rightarrow> allowlist_answers (abort requestId (Allowlist_error ''relay send failed'') (rg_allowlist r2)) r2)))"

definition allowlist_times_out :: "nat \<Rightarrow> SidecarRegistry \<Rightarrow> SidecarRegistry" where
  "allowlist_times_out t r = allowlist_answers (trip_times_out t (rg_allowlist r)) r"

definition allowlist_entry :: "jsval \<Rightarrow> AllowlistEntry option" where
  "allowlist_entry e =
    (case (js_string (js_get e (js ''signature'')), js_string (js_get e (js ''repo_scope''))) of
       (Some s, Some scope) \<Rightarrow> Some
         \<lparr>al_signature = s, al_repo_scope = scope, al_repo_label = js_string (js_get e (js ''repo_label'')),
          al_risk = (case js_string (js_get e (js ''risk'')) of Some x \<Rightarrow> x | None \<Rightarrow> []),
          al_created_at_ms = finite_or 0 (js_get e (js ''created_at_ms'')),
          al_expires_at_ms = finite_or 0 (js_get e (js ''expires_at_ms''))\<rparr>
     | _ \<Rightarrow> None)"

fun finite_opt :: "jsval \<Rightarrow> rat option" where
  "finite_opt (JNum (JFin q)) = Some q"
| "finite_opt _ = None"

fun array_elems :: "jsval \<Rightarrow> jsval list" where
  "array_elems (JArr vs) = vs"
| "array_elems _ = []"

definition resolveAllowlist :: "jsval \<Rightarrow> SidecarRegistry \<Rightarrow> SidecarRegistry" where
  "resolveAllowlist frame r =
    (case js_string (js_get frame (js ''request_id'')) of
       None \<Rightarrow> r
     | Some requestId \<Rightarrow>
         allowlist_answers (settle_with requestId
           (Allowlist_ok (js_get frame (js ''enabled'') = JBool True)
              (somes (map allowlist_entry (array_elems (js_get frame (js ''entries'')))))
              (finite_opt (js_get frame (js ''removed'')))) (rg_allowlist r)) r)"

section \<open>Policies\<close>

fun policy_op_str :: "PolicyRelayOp \<Rightarrow> string" where
  "policy_op_str Op_get = ''get''"
| "policy_op_str Op_set = ''set''"
| "policy_op_str Op_unset = ''unset''"
| "policy_op_str Op_list = ''list''"
| "policy_op_str Op_resolve = ''resolve''"

definition only_when :: "bool \<Rightarrow> 'a option \<Rightarrow> 'a option" where
  "only_when b v = (if b then v else None)"

definition policy_payload :: "PolicyRelayOp \<Rightarrow> PolicyRelayParams \<Rightarrow> (jstring \<times> jsval) list" where
  "policy_payload op params =
    [(js ''op'', JStr (js (policy_op_str op)))]
    @ opt_prop ''categories'' (only_when (op = Op_set) (map_option (\<lambda>cs. JArr (map JStr cs)) (pp_categories params)))
    @ opt_prop ''enabled'' (only_when (op = Op_set) (map_option JBool (pp_enabled params)))
    @ opt_prop ''repo_scope'' (map_option JStr (pp_repo_scope params))
    @ opt_prop ''repo_label'' (only_when (op = Op_set) (map_option JStr (pp_repo_label params)))
    @ opt_prop ''path'' (only_when (op = Op_resolve) (map_option JStr (pp_path params)))
    @ opt_prop ''resolve_scope'' (only_when (op = Op_resolve)
        (case pp_resolveScope params of Some ps \<Rightarrow> if length ps > 0 then Some (JArr (map JStr ps)) else None | None \<Rightarrow> None))"

definition policy_frame :: "jstring \<Rightarrow> SidecarConn \<Rightarrow> (jstring \<times> jsval) list \<Rightarrow> (jstring \<times> jsval) list \<Rightarrow> jsval" where
  "policy_frame requestId conn payload extra = JObj
    ([(js ''type'', JStr (js ''policy.request'')), (js ''request_id'', JStr requestId), (js ''token'', token_json conn)]
     @ payload @ extra)"

definition policy_answers :: "(nat \<times> PolicyRelayResult) list \<times> PolicyRelayResult PendingRoundTrips \<Rightarrow> SidecarRegistry \<Rightarrow> SidecarRegistry" where
  "policy_answers op r = record_events (map (\<lambda>(t, x). Policy_answer t x) (fst op)) (r\<lparr>rg_policy := snd op\<rparr>)"

text \<open>The copies of a mutation; the identifiers are drawn at random, one for each copy.\<close>

definition fanOutPolicyMutation ::
  "link_env \<Rightarrow> (nat \<Rightarrow> jstring) \<Rightarrow> (jstring \<times> jsval) list \<Rightarrow> nat \<Rightarrow> SidecarRegistry \<Rightarrow> SidecarRegistry" where
  "fanOutPolicyMutation env draw payload except r =
    foldl (\<lambda>r (k, l, c).
        if c = except then r
        else if channel_error env (rg_conn r c) \<noteq> None then r
        else snd (link_send env (cn_link (rg_conn r c))
               (policy_frame (draw (Suc k)) (rg_conn r c) payload [(js ''persist'', JBool False)]) r))
      r (enumerate 0 (rg_conns r))"

definition relayPolicyVia ::
  "link_env \<Rightarrow> (nat \<Rightarrow> jstring) \<Rightarrow> nat \<Rightarrow> nat \<Rightarrow> PolicyRelayOp \<Rightarrow> PolicyRelayParams \<Rightarrow> SidecarRegistry \<Rightarrow> SidecarRegistry" where
  "relayPolicyVia env draw t c op params r =
    (let conn = rg_conn r c in
     case channel_error env conn of
       Some e \<Rightarrow> record_events [Policy_answer t (Policy_error (js e))] r
     | None \<Rightarrow>
         (let requestId = draw 0;
              isMutating = (op = Op_set \<or> op = Op_unset);
              r1 = r\<lparr>rg_policy := register requestId t (Policy_error (js ''policy request timed out'')) (rg_policy r)\<rparr>;
              payload = policy_payload op params
          in case link_send env (cn_link conn) (policy_frame requestId conn payload []) r1 of
               (False, r2) \<Rightarrow> policy_answers (abort requestId (Policy_error (js ''relay send failed'')) (rg_policy r2)) r2
             | (True, r2) \<Rightarrow> if isMutating then fanOutPolicyMutation env draw payload c r2 else r2))"

definition requestPolicy ::
  "link_env \<Rightarrow> (nat \<Rightarrow> jstring) \<Rightarrow> nat \<Rightarrow> jstring \<Rightarrow> PolicyRelayOp \<Rightarrow> PolicyRelayParams \<Rightarrow> SidecarRegistry \<Rightarrow> SidecarRegistry" where
  "requestPolicy env draw t sid op params r =
    (case map_of (rg_sessionOwner r) sid of
       None \<Rightarrow> record_events [Policy_answer t (Policy_error (js ''session not registered''))] r
     | Some c \<Rightarrow> relayPolicyVia env draw t c op params r)"

definition requestPolicyByDaemon ::
  "link_env \<Rightarrow> (nat \<Rightarrow> jstring) \<Rightarrow> nat \<Rightarrow> jstring \<Rightarrow> PolicyRelayOp \<Rightarrow> PolicyRelayParams \<Rightarrow> SidecarRegistry \<Rightarrow> SidecarRegistry" where
  "requestPolicyByDaemon env draw t daemonId op params r =
    (case map_of (rg_byDaemon r) daemonId of
       None \<Rightarrow> record_events [Policy_answer t (Policy_error (js ''daemon not registered''))] r
     | Some c \<Rightarrow> relayPolicyVia env draw t c op params r)"

definition policy_times_out :: "nat \<Rightarrow> SidecarRegistry \<Rightarrow> SidecarRegistry" where
  "policy_times_out t r = policy_answers (trip_times_out t (rg_policy r)) r"

definition policy_repo :: "jsval \<Rightarrow> PolicyRepoRelay option" where
  "policy_repo v =
    (case js_string (js_get v (js ''repo_scope'')) of
       None \<Rightarrow> None
     | Some scope \<Rightarrow> Some \<lparr>pr_repo_scope = scope, pr_repo_label = js_string (js_get v (js ''repo_label'')),
         pr_enabled = (js_get v (js ''enabled'') = JBool True),
         pr_categories = projectPolicyCategories (js_get v (js ''categories''))\<rparr>)"

definition policy_view_of :: "jsval \<Rightarrow> PolicyRelayView" where
  "policy_view_of frame =
    \<lparr>pw_enabled = (js_get frame (js ''enabled'') = JBool True),
     pw_categories = projectPolicyCategories (js_get frame (js ''categories'')),
     pw_env_gate_enabled = (js_get frame (js ''env_gate_enabled'') \<noteq> JBool False),
     pw_repo_scope = js_string (js_get frame (js ''repo_scope'')),
     pw_repo_label = js_string (js_get frame (js ''repo_label'')),
     pw_is_override = js_bool (js_get frame (js ''is_override'')),
     pw_repos = (case js_get frame (js ''repos'') of JArr vs \<Rightarrow> Some (somes (map policy_repo vs)) | _ \<Rightarrow> None)\<rparr>"

definition policy_result :: "jsval \<Rightarrow> PolicyRelayResult" where
  "policy_result frame =
    (case js_string (js_get frame (js ''error'')) of
       Some e \<Rightarrow> if length e > 0 then Policy_error (take MAX_RELAY_ERROR_LEN e) else Policy_ok (policy_view_of frame)
     | None \<Rightarrow> Policy_ok (policy_view_of frame))"

definition resolvePolicy :: "jsval \<Rightarrow> SidecarRegistry \<Rightarrow> SidecarRegistry" where
  "resolvePolicy frame r =
    (case js_string (js_get frame (js ''request_id'')) of
       None \<Rightarrow> r
     | Some requestId \<Rightarrow> policy_answers (settle_with requestId (policy_result frame) (rg_policy r)) r)"

section \<open>Spawning\<close>

definition spawn_answers ::
  "(nat \<times> CodexSpawnRelayResult) list \<times> CodexSpawnRelayResult PendingRoundTrips \<Rightarrow> SidecarRegistry \<Rightarrow> SidecarRegistry" where
  "spawn_answers op r = record_events (map (\<lambda>(t, x). Spawn_answer t x) (fst op)) (r\<lparr>rg_spawn := snd op\<rparr>)"

definition requestCodexSpawnByDaemon ::
  "link_env \<Rightarrow> jstring \<Rightarrow> nat \<Rightarrow> jstring \<Rightarrow> jstring \<Rightarrow> jstring \<Rightarrow> jstring list option \<Rightarrow> SidecarRegistry \<Rightarrow> SidecarRegistry" where
  "requestCodexSpawnByDaemon env requestId t daemonId prompt cwd resolveScope r =
    (case map_of (rg_byDaemon r) daemonId of
       None \<Rightarrow> record_events [Spawn_answer t (Spawn_error ''daemon not registered'' False)] r
     | Some c \<Rightarrow>
         (let conn = rg_conn r c in
          case channel_error env conn of
            Some e \<Rightarrow> record_events [Spawn_answer t (Spawn_error e (\<not> en_open env (cn_link conn)))] r
          | None \<Rightarrow>
              (let r1 = r\<lparr>rg_spawn := register requestId t (Spawn_error ''codex spawn request timed out'' True) (rg_spawn r)\<rparr>;
                   msg = JObj ([(js ''type'', JStr (js ''codex.spawn.request'')), (js ''request_id'', JStr requestId),
                                (js ''token'', token_json conn), (js ''prompt'', JStr prompt), (js ''cwd'', JStr cwd)]
                               @ opt_prop ''resolve_scope'' (case resolveScope of
                                   Some ps \<Rightarrow> if length ps > 0 then Some (JArr (map JStr ps)) else None | None \<Rightarrow> None))
               in case link_send env (cn_link conn) msg r1 of
                    (True, r2) \<Rightarrow> r2
                  | (False, r2) \<Rightarrow> spawn_answers (abort requestId (Spawn_error ''relay send failed'' True) (rg_spawn r2)) r2)))"

definition spawn_times_out :: "nat \<Rightarrow> SidecarRegistry \<Rightarrow> SidecarRegistry" where
  "spawn_times_out t r = spawn_answers (trip_times_out t (rg_spawn r)) r"

definition resolveCodexSpawn :: "jsval \<Rightarrow> SidecarRegistry \<Rightarrow> SidecarRegistry" where
  "resolveCodexSpawn frame r =
    (case js_string (js_get frame (js ''request_id'')) of
       None \<Rightarrow> r
     | Some requestId \<Rightarrow>
         spawn_answers (settle_with requestId
           (if js_get frame (js ''ok'') = JBool True then Spawn_ok (js_string (js_get frame (js ''session_id'')))
            else Spawn_error (spawn_error_str (asCodexSpawnErrorCode (js_get frame (js ''error'')))) False) (rg_spawn r)) r)"

section \<open>Shutdown\<close>

definition dispose :: "SidecarRegistry \<Rightarrow> SidecarRegistry" where
  "dispose r =
    (let r1 = r\<lparr>rg_graceTimers := [], rg_presenceListeners := [], rg_approvalReconcileListeners := []\<rparr>;
         r2 = diff_answers (rejectAll (Diff_error ''server shutting down'') (rg_diffs r1)) r1;
         r3 = allowlist_answers (rejectAll (Allowlist_error ''server shutting down'') (rg_allowlist r2)) r2;
         r4 = policy_answers (rejectAll (Policy_error (js ''server shutting down'')) (rg_policy r3)) r3
     in spawn_answers (rejectAll (Spawn_error ''server shutting down'' True) (rg_spawn r4)) r4)"

end
