(* ===== verification/Sidecar_Registry_Correct.thy ===== *)
theory Sidecar_Registry_Correct
  imports Sidecar_Registry
begin

text \<open>
  Correctness of the registry under every order of connects, disconnects, frames, timers and
  requests: nothing is sent to a connection that is gone, what is sent goes to the connection it is
  meant for with that connection's own token, every request is answered once, and what the
  listeners of presence were told is what is the case.
\<close>

section \<open>Runs\<close>

datatype registry_op =
    Connect jstring nat
  | Disconnect nat
  | Hello rat nat jsval
  | Observe nat jstring
  | Grace_expires jstring
  | On_presence nat
  | On_reconcile nat
  | Relay_approval ApprovalRelay
  | Relay_interrupt jstring
  | Request_diff jstring nat jstring
  | Diff_times_out nat
  | Resolve_diff jsval
  | Request_allowlist jstring nat jstring string "jstring option" "jstring option"
  | Allowlist_times_out nat
  | Resolve_allowlist jsval
  | Request_policy "nat \<Rightarrow> jstring" nat jstring PolicyRelayOp PolicyRelayParams
  | Request_policy_daemon "nat \<Rightarrow> jstring" nat jstring PolicyRelayOp PolicyRelayParams
  | Policy_times_out nat
  | Resolve_policy jsval
  | Request_spawn jstring nat jstring jstring jstring "jstring list option"
  | Spawn_times_out nat
  | Resolve_spawn jsval
  | Dispose

fun registry_step :: "SidecarRegistry \<Rightarrow> link_env \<times> registry_op \<Rightarrow> SidecarRegistry" where
  "registry_step r (env, Connect d l) = registry_add d l r"
| "registry_step r (env, Disconnect l) = registry_remove l r"
| "registry_step r (env, Hello now l frame) = snd (handleHello env now l frame r)"
| "registry_step r (env, Observe l sid) = observeSession env l sid r"
| "registry_step r (env, Grace_expires sid) = grace_expires env sid r"
| "registry_step r (env, On_presence cb) = onPresenceChange cb r"
| "registry_step r (env, On_reconcile cb) = onApprovalReconcile cb r"
| "registry_step r (env, Relay_approval relay) = snd (relayApproval env relay r)"
| "registry_step r (env, Relay_interrupt sid) = snd (relayInterrupt env sid r)"
| "registry_step r (env, Request_diff i t sid) = requestDiff env i t sid r"
| "registry_step r (env, Diff_times_out t) = diff_times_out t r"
| "registry_step r (env, Resolve_diff frame) = resolveDiff frame r"
| "registry_step r (env, Request_allowlist i t sid opn sg scope) = requestAllowlist env i t sid opn sg scope r"
| "registry_step r (env, Allowlist_times_out t) = allowlist_times_out t r"
| "registry_step r (env, Resolve_allowlist frame) = resolveAllowlist frame r"
| "registry_step r (env, Request_policy draw t sid opn params) = requestPolicy env draw t sid opn params r"
| "registry_step r (env, Request_policy_daemon draw t d opn params) = requestPolicyByDaemon env draw t d opn params r"
| "registry_step r (env, Policy_times_out t) = policy_times_out t r"
| "registry_step r (env, Resolve_policy frame) = resolvePolicy frame r"
| "registry_step r (env, Request_spawn i t d prompt cwd scope) = requestCodexSpawnByDaemon env i t d prompt cwd scope r"
| "registry_step r (env, Spawn_times_out t) = spawn_times_out t r"
| "registry_step r (env, Resolve_spawn frame) = resolveCodexSpawn frame r"
| "registry_step r (env, Dispose) = dispose r"

definition registry_run :: "(link_env \<times> registry_op) list \<Rightarrow> SidecarRegistry" where
  "registry_run ops = foldl registry_step registry_new ops"

lemma registry_run_snoc [simp]: "registry_run (ops @ [x]) = registry_step (registry_run ops) x"
  by (simp add: registry_run_def)

section \<open>What an operation leaves alone\<close>

text \<open>The membership part of the state: who is connected, who owns what, what is in grace.\<close>

definition membership :: "SidecarRegistry \<Rightarrow> _" where
  "membership r = (rg_conn r, rg_next r, rg_conns r, rg_sessionOwner r, rg_byDaemon r, rg_graceTimers r)"

lemma membership_record [simp]:
  "membership (record_events es r) = membership r"
  "membership (r\<lparr>rg_diffs := d\<rparr>) = membership r" "membership (r\<lparr>rg_allowlist := a\<rparr>) = membership r"
  "membership (r\<lparr>rg_policy := p\<rparr>) = membership r" "membership (r\<lparr>rg_spawn := s\<rparr>) = membership r"
  "membership (emitPresence sid live r) = membership r" "membership (snd (link_send env l f r)) = membership r"
  "membership (diff_answers x1 r) = membership r" "membership (allowlist_answers x2 r) = membership r"
  "membership (policy_answers x3 r) = membership r" "membership (spawn_answers x4 r) = membership r"
  by (simp_all add: membership_def record_events_def emitPresence_def link_send_def diff_answers_def allowlist_answers_def
      policy_answers_def spawn_answers_def)

lemma membership_fields:
  assumes "membership r = membership r'"
  shows "rg_conn r = rg_conn r'" "rg_conns r = rg_conns r'" "rg_sessionOwner r = rg_sessionOwner r'"
    "rg_byDaemon r = rg_byDaemon r'" "rg_graceTimers r = rg_graceTimers r'" "rg_next r = rg_next r'"
  using assms by (simp_all add: membership_def)

lemma membership_fan_out [simp]: "membership (fanOutPolicyMutation env draw payload except r) = membership r"
proof -
  have "membership (foldl (\<lambda>r (k, l, c). if c = except then r else if channel_error env (rg_conn r c) \<noteq> None then r
        else snd (link_send env (cn_link (rg_conn r c)) (policy_frame (draw (Suc k)) (rg_conn r c) payload [(js ''persist'', JBool False)]) r))
      r xs) = membership r" for xs
    by (induction xs arbitrary: r) auto
  then show ?thesis by (simp add: fanOutPolicyMutation_def)
qed

lemma membership_send_case:
  "membership (case link_send env l f r of (True, r2) \<Rightarrow> r2 | (False, r2) \<Rightarrow> g r2) = membership r"
  if "\<And>r. membership (g r) = membership r"
  using that by (auto simp: link_send_def)

lemma membership_relays [simp]:
  "membership (snd (relayApproval env relay r)) = membership r"
  "membership (snd (relayInterrupt env sid r)) = membership r"
  "membership (requestDiff env i t sid r) = membership r"
  "membership (requestAllowlist env i t sid opn sg scope r) = membership r"
  "membership (requestCodexSpawnByDaemon env i t d prompt cwd sc r) = membership r"
  "membership (relayPolicyVia env draw t c pop params r) = membership r"
  by (simp_all add: relayApproval_def relayInterrupt_def relay_to_def requestDiff_def requestAllowlist_def
      requestCodexSpawnByDaemon_def relayPolicyVia_def Let_def link_send_def split: option.split)

lemma membership_requests [simp]:
  "membership (requestPolicy env draw t sid pop params r) = membership r"
  "membership (requestPolicyByDaemon env draw t d pop params r) = membership r"
  "membership (diff_times_out t r) = membership r" "membership (allowlist_times_out t r) = membership r"
  "membership (policy_times_out t r) = membership r" "membership (spawn_times_out t r) = membership r"
  "membership (resolveDiff frame r) = membership r" "membership (resolveAllowlist frame r) = membership r"
  "membership (resolvePolicy frame r) = membership r" "membership (resolveCodexSpawn frame r) = membership r"
  by (simp_all add: requestPolicy_def requestPolicyByDaemon_def diff_times_out_def allowlist_times_out_def policy_times_out_def
      spawn_times_out_def resolveDiff_def resolveAllowlist_def resolvePolicy_def resolveCodexSpawn_def split: option.split)

section \<open>Well-formed registries\<close>

definition registry_wf :: "SidecarRegistry \<Rightarrow> bool" where
  "registry_wf r \<longleftrightarrow>
     distinct (map fst (rg_conns r)) \<and> distinct (map snd (rg_conns r))
   \<and> (\<forall>l c. (l, c) \<in> set (rg_conns r) \<longrightarrow> c < rg_next r \<and> cn_link (rg_conn r c) = l)
   \<and> (\<forall>d c. (d, c) \<in> set (rg_byDaemon r) \<longrightarrow> c \<in> snd ` set (rg_conns r) \<and> cn_daemonId (rg_conn r c) = d)
   \<and> (\<forall>sid c. (sid, c) \<in> set (rg_sessionOwner r) \<longrightarrow> c \<in> snd ` set (rg_conns r) \<and> sid \<in> set (cn_sessions (rg_conn r c)))
   \<and> distinct (map fst (rg_sessionOwner r)) \<and> distinct (map fst (rg_byDaemon r))
   \<and> set (rg_graceTimers r) \<inter> fst ` set (rg_sessionOwner r) = {}"

lemma registry_wf_membership: "membership r = membership r' \<Longrightarrow> registry_wf r \<longleftrightarrow> registry_wf r'"
  by (simp add: registry_wf_def membership_def)

lemma set_set_add [simp]: "set (set_add x xs) = insert x (set xs)"
  by (auto simp: set_add_def)

lemma wf_parts:
  assumes "registry_wf r"
  shows "distinct (map fst (rg_conns r))" "distinct (map snd (rg_conns r))"
    "(l, c) \<in> set (rg_conns r) \<Longrightarrow> c < rg_next r \<and> cn_link (rg_conn r c) = l"
    "(d, c) \<in> set (rg_byDaemon r) \<Longrightarrow> c \<in> snd ` set (rg_conns r) \<and> cn_daemonId (rg_conn r c) = d"
    "(sid, c) \<in> set (rg_sessionOwner r) \<Longrightarrow> c \<in> snd ` set (rg_conns r) \<and> sid \<in> set (cn_sessions (rg_conn r c))"
    "distinct (map fst (rg_sessionOwner r))" "distinct (map fst (rg_byDaemon r))"
    "set (rg_graceTimers r) \<inter> fst ` set (rg_sessionOwner r) = {}"
  using assms unfolding registry_wf_def by (fast+)

lemma wf_owner:
  assumes "registry_wf r" "map_of (rg_sessionOwner r) sid = Some c"
  shows "c \<in> snd ` set (rg_conns r) \<and> sid \<in> set (cn_sessions (rg_conn r c)) \<and> sid \<notin> set (rg_graceTimers r)"
proof -
  have "(sid, c) \<in> set (rg_sessionOwner r)" using assms(2) by (rule map_of_SomeD)
  then have "sid \<in> fst ` set (rg_sessionOwner r)" by force
  then show ?thesis
    using wf_parts(5) [OF assms(1) \<open>(sid, c) \<in> _\<close>] wf_parts(8) [OF assms(1)] by blast
qed

lemma wf_link:
  assumes "registry_wf r" "c \<in> snd ` set (rg_conns r)"
  shows "map_of (rg_conns r) (cn_link (rg_conn r c)) = Some c"
proof -
  obtain l where "(l, c) \<in> set (rg_conns r)" using assms(2) by auto
  then show ?thesis using assms(1) unfolding registry_wf_def by (metis map_of_is_SomeI)
qed

text \<open>Updates of a connection that keep its identity.\<close>

lemma wf_upd_conn:
  assumes "registry_wf r" "\<And>conn. cn_link (f conn) = cn_link conn" "\<And>conn. cn_daemonId (f conn) = cn_daemonId conn"
    "set (cn_sessions (rg_conn r c)) \<subseteq> set (cn_sessions (f (rg_conn r c)))"
  shows "registry_wf (upd_conn c f r)"
  using assms unfolding registry_wf_def upd_conn_def by auto

lemma wf_disown: "registry_wf r \<Longrightarrow> registry_wf (disown sid r)"
  unfolding registry_wf_def disown_def startGrace_def
  by (auto simp: distinct_delete set_delete)

lemma wf_claim:
  assumes "registry_wf r" "c \<in> snd ` set (rg_conns r)"
  shows "registry_wf (claim env c sid r)"
proof -
  let ?r = "(upd_conn c (\<lambda>conn. conn\<lparr>cn_sessions := set_add sid (cn_sessions conn)\<rparr>) r)
    \<lparr>rg_graceTimers := removeAll sid (rg_graceTimers r), rg_sessionOwner := AList.update sid c (rg_sessionOwner r)\<rparr>"
  have up: "registry_wf (upd_conn c (\<lambda>conn. conn\<lparr>cn_sessions := set_add sid (cn_sessions conn)\<rparr>) r)"
    by (rule wf_upd_conn [OF assms(1)]) auto
  have "fst ` set (AList.update sid c (rg_sessionOwner r)) = insert sid (fst ` set (rg_sessionOwner r))"
    by (simp add: dom_update)
  then have "registry_wf ?r"
    using up wf_parts [OF assms(1)] assms(2) unfolding registry_wf_def
    by (auto simp: upd_conn_def distinct_update dest!: set_update_cases)
  moreover have "membership (claim env c sid r) = membership ?r"
    by (simp add: claim_def Let_def)
  ultimately show ?thesis using registry_wf_membership by blast
qed

lemma claim_fields [simp]:
  "rg_conns (claim env c sid r) = rg_conns r" "rg_byDaemon (claim env c sid r) = rg_byDaemon r"
  "rg_sessionOwner (claim env c sid r) = AList.update sid c (rg_sessionOwner r)"
  "rg_graceTimers (claim env c sid r) = removeAll sid (rg_graceTimers r)"
  "cn_link (rg_conn (claim env c sid r) x) = cn_link (rg_conn r x)"
  "cn_controlToken (rg_conn (claim env c sid r) x) = cn_controlToken (rg_conn r x)"
  by (simp_all add: claim_def Let_def upd_conn_def emitPresence_def record_events_def)

lemma wf_release: "registry_wf r \<Longrightarrow> registry_wf (releaseSession c sid r)"
proof (cases "map_of (rg_sessionOwner r) sid = Some c")
  case True
  assume wf: "registry_wf r"
  then show ?thesis
    using True unfolding registry_wf_def releaseSession_def disown_def startGrace_def upd_conn_def
    by (auto simp: distinct_delete set_delete)
qed (simp add: releaseSession_def)

lemma disown_fields [simp]:
  "rg_conn (disown sid r) = rg_conn r" "rg_conns (disown sid r) = rg_conns r" "rg_byDaemon (disown sid r) = rg_byDaemon r"
  "rg_sessionOwner (disown sid r) = AList.delete sid (rg_sessionOwner r)"
  "rg_graceTimers (disown sid r) = set_add sid (rg_graceTimers r)" "rg_next (disown sid r) = rg_next r"
  "rg_log (disown sid r) = rg_log r"
  by (simp_all add: disown_def startGrace_def)

lemma release_fields [simp]:
  "rg_conns (releaseSession c sid r) = rg_conns r" "rg_byDaemon (releaseSession c sid r) = rg_byDaemon r"
  "cn_link (rg_conn (releaseSession c sid r) x) = cn_link (rg_conn r x)"
  "cn_controlToken (rg_conn (releaseSession c sid r) x) = cn_controlToken (rg_conn r x)"
  "rg_log (releaseSession c sid r) = rg_log r"
  by (simp_all add: releaseSession_def upd_conn_def)

definition disown_all :: "nat \<Rightarrow> SidecarRegistry \<Rightarrow> jstring list \<Rightarrow> SidecarRegistry" where
  "disown_all c r sids = foldl (\<lambda>r sid. if map_of (rg_sessionOwner r) sid = Some c then disown sid r else r) r sids"

lemma disown_all_spec:
  assumes "registry_wf r"
  shows "registry_wf (disown_all c r sids) \<and> rg_conn (disown_all c r sids) = rg_conn r
    \<and> rg_conns (disown_all c r sids) = rg_conns r \<and> rg_byDaemon (disown_all c r sids) = rg_byDaemon r
    \<and> rg_log (disown_all c r sids) = rg_log r
    \<and> set (rg_sessionOwner (disown_all c r sids)) = {x \<in> set (rg_sessionOwner r). snd x \<noteq> c \<or> fst x \<notin> set sids}
    \<and> set (rg_graceTimers (disown_all c r sids)) = set (rg_graceTimers r) \<union> {sid. (sid, c) \<in> set (rg_sessionOwner r) \<and> sid \<in> set sids}"
  using assms
proof (induction sids arbitrary: r)
  case (Cons sid sids)
  have eq: "(sid, x) \<in> set (rg_sessionOwner r) \<longleftrightarrow> map_of (rg_sessionOwner r) sid = Some x" for x
    using wf_parts(6) [OF Cons.prems] by simp
  show ?case
  proof (cases "map_of (rg_sessionOwner r) sid = Some c")
    case True
    then have "disown_all c r (sid # sids) = disown_all c (disown sid r) sids" by (simp add: disown_all_def)
    then show ?thesis
      using Cons.IH [OF wf_disown [OF Cons.prems, of sid]] True eq by (auto simp: set_delete)
  next
    case False
    then have "disown_all c r (sid # sids) = disown_all c r sids" by (simp add: disown_all_def)
    then show ?thesis
      using Cons.IH [OF Cons.prems] False eq by auto
  qed
qed (auto simp: disown_all_def)

lemma remove_eq:
  "registry_remove link r = (case map_of (rg_conns r) link of None \<Rightarrow> r
     | Some c \<Rightarrow> (disown_all c r (cn_sessions (rg_conn r c)))
         \<lparr>rg_conns := AList.delete link (rg_conns (disown_all c r (cn_sessions (rg_conn r c)))),
          rg_byDaemon := AList.delete (cn_daemonId (rg_conn r c)) (rg_byDaemon (disown_all c r (cn_sessions (rg_conn r c))))\<rparr>)"
  by (simp add: registry_remove_def disown_all_def Let_def split: option.split)

lemma conns_delete:
  assumes "registry_wf r" "map_of (rg_conns r) link = Some c"
  shows "snd ` set (AList.delete link (rg_conns r)) = snd ` set (rg_conns r) - {c}"
proof -
  have l: "l = link" if "(l, c) \<in> set (rg_conns r)" for l
    using wf_parts(3) [OF assms(1) that] wf_parts(3) [OF assms(1) map_of_SomeD [OF assms(2)]] by simp
  have x: "x = c" if "(link, x) \<in> set (rg_conns r)" for x
    using map_of_is_SomeI [OF wf_parts(1) [OF assms(1)] that] assms(2) by simp
  show ?thesis
  proof (intro equalityI subsetI)
    fix x assume "x \<in> snd ` set (AList.delete link (rg_conns r))"
    then obtain k where "(k, x) \<in> set (rg_conns r)" "k \<noteq> link" by (auto simp: set_delete)
    then show "x \<in> snd ` set (rg_conns r) - {c}" using l by force
  next
    fix y assume "y \<in> snd ` set (rg_conns r) - {c}"
    then obtain k where "(k, y) \<in> set (rg_conns r)" "y \<noteq> c" by auto
    then show "y \<in> snd ` set (AList.delete link (rg_conns r))" using x by (force simp: set_delete)
  qed
qed

lemma wf_drop:
  assumes wf: "registry_wf r" and c: "map_of (rg_conns r) link = Some c" and free: "\<And>sid. (sid, c) \<notin> set (rg_sessionOwner r)"
  shows "registry_wf (r\<lparr>rg_conns := AList.delete link (rg_conns r), rg_byDaemon := AList.delete (cn_daemonId (rg_conn r c)) (rg_byDaemon r)\<rparr>)"
proof -
  have "distinct (map snd (AList.delete link (rg_conns r)))"
    using wf_parts(2) [OF wf] by (simp add: AList.delete_eq distinct_map_filter)
  moreover have "c' \<in> snd ` set (rg_conns r) - {c} \<and> cn_daemonId (rg_conn r c') = d"
    if "(d, c') \<in> set (rg_byDaemon r)" "d \<noteq> cn_daemonId (rg_conn r c)" for d c'
    using wf_parts(4) [OF wf that(1)] that(2) by auto
  moreover have "c' \<in> snd ` set (rg_conns r) - {c} \<and> sid \<in> set (cn_sessions (rg_conn r c'))"
    if "(sid, c') \<in> set (rg_sessionOwner r)" for sid c'
    using wf_parts(5) [OF wf that] free that by auto
  ultimately show ?thesis
    using wf_parts(1,3,6,7,8) [OF wf] unfolding registry_wf_def
    by (simp add: distinct_delete conns_delete [OF wf c]) (fastforce simp: set_delete)
qed

lemma wf_remove:
  assumes "registry_wf r"
  shows "registry_wf (registry_remove link r)"
proof (cases "map_of (rg_conns r) link")
  case (Some c)
  let ?d = "disown_all c r (cn_sessions (rg_conn r c))"
  note spec = disown_all_spec [OF assms, of c "cn_sessions (rg_conn r c)"]
  have "(sid, c) \<notin> set (rg_sessionOwner ?d)" for sid
    using spec wf_parts(5) [OF assms] by auto
  then have "registry_wf (?d\<lparr>rg_conns := AList.delete link (rg_conns ?d), rg_byDaemon := AList.delete (cn_daemonId (rg_conn ?d c)) (rg_byDaemon ?d)\<rparr>)"
    using spec Some by (intro wf_drop) simp_all
  then show ?thesis using spec Some by (simp add: remove_eq)
qed (simp add: remove_eq assms)

lemma wf_claims:
  assumes "registry_wf r" "c \<in> snd ` set (rg_conns r)"
  shows "registry_wf (foldl (\<lambda>r sid. claim env c sid r) r sids)
    \<and> rg_conns (foldl (\<lambda>r sid. claim env c sid r) r sids) = rg_conns r"
  using assms by (induction sids arbitrary: r) (simp_all add: wf_claim)

lemma wf_membership:
  assumes "registry_wf r" "c \<in> snd ` set (rg_conns r)"
  shows "registry_wf (hello_membership env c ids r)"
proof -
  have "registry_wf (foldl (\<lambda>r sid. if sid \<in> S then r else releaseSession c sid r) r xs)" if "registry_wf r" for r S xs
    using that by (induction xs arbitrary: r) (simp_all add: wf_release)
  then show ?thesis
    using wf_claims [OF assms] assms(1) by (simp add: hello_membership_def Let_def split: option.split)
qed

lemma membership_reconcile [simp]: "membership (maybeEmitApprovalReconcile now c declared r) = membership r"
  by (simp add: maybeEmitApprovalReconcile_def Let_def split: option.split)

lemma record_hello_fields [simp]:
  "cn_link (record_hello frame conn) = cn_link conn" "cn_daemonId (record_hello frame conn) = cn_daemonId conn"
  "cn_sessions (record_hello frame conn) = cn_sessions conn" "cn_runtimeEpoch (record_hello frame conn) = cn_runtimeEpoch conn"
  by (simp_all add: record_hello_def)

lemma upd_conn_conns [simp]:
  "rg_conns (upd_conn c f r) = rg_conns r" "rg_sessionOwner (upd_conn c f r) = rg_sessionOwner r"
  "rg_graceTimers (upd_conn c f r) = rg_graceTimers r" "rg_log (upd_conn c f r) = rg_log r"
  "rg_conn (upd_conn c f r) c = f (rg_conn r c)"
  by (simp_all add: upd_conn_def)

lemma wf_hello:
  assumes "registry_wf r"
  shows "registry_wf (snd (handleHello env now link frame r))"
proof (cases "map_of (rg_conns r) link")
  case (Some c)
  have c: "c \<in> snd ` set (rg_conns r)" using Some by (force dest: map_of_SomeD)
  let ?r1 = "upd_conn c (record_hello frame) r"
  let ?r2 = "hello_membership env c (hello_sessions (js_get frame (js ''session_ids''))) ?r1"
  have "registry_wf ?r1" by (rule wf_upd_conn [OF assms]) simp_all
  then have 2: "registry_wf ?r2" using c by (intro wf_membership) simp_all
  moreover have "registry_wf (upd_conn c (\<lambda>conn. conn\<lparr>cn_runtimeEpoch := Some e\<rparr>) ?r2)" for e
    by (rule wf_upd_conn [OF 2]) simp_all
  ultimately show ?thesis
    using Some registry_wf_membership [OF membership_reconcile]
    by (simp add: handleHello_def Let_def split: option.split)
qed (simp add: handleHello_def assms)

lemma wf_add:
  assumes "registry_wf r"
  shows "registry_wf (registry_add d link r)"
proof (cases "map_of (rg_conns r) link")
  case None
  have c: "(l, rg_next r) \<notin> set (rg_conns r)" "(sid, rg_next r) \<notin> set (rg_sessionOwner r)"
    "(e, rg_next r) \<notin> set (rg_byDaemon r)" for l sid e
    using wf_parts(3-5) [OF assms] by fastforce+
  have new: "AList.update link c (rg_conns r) = rg_conns r @ [(link, c)]" for c
    using None by (intro update_new) (simp add: map_of_eq_None_iff)
  have "link \<notin> fst ` set (rg_conns r)" using None by (simp add: map_of_eq_None_iff)
  then show ?thesis
    using None c wf_parts [OF assms] unfolding registry_wf_def
    by (auto simp: registry_add_def Let_def new distinct_update intro: less_SucI dest!: set_update_cases)
qed (simp add: registry_add_def assms)

lemma wf_observe: "registry_wf r \<Longrightarrow> registry_wf (observeSession env link sid r)"
  by (force simp: observeSession_def intro!: wf_claim split: option.split dest: map_of_SomeD)

lemma wf_grace: "registry_wf r \<Longrightarrow> registry_wf (grace_expires env sid r)"
proof -
  assume "registry_wf r"
  then have "registry_wf (r\<lparr>rg_graceTimers := removeAll sid (rg_graceTimers r)\<rparr>)"
    unfolding registry_wf_def by auto
  then show ?thesis
    using \<open>registry_wf r\<close> registry_wf_membership [OF membership_record(6)] by (simp add: grace_expires_def Let_def)
qed

lemma dispose_membership: "membership (dispose r) = membership (r\<lparr>rg_graceTimers := []\<rparr>)"
  by (simp add: dispose_def Let_def) (simp add: membership_def)

lemma wf_dispose: "registry_wf r \<Longrightarrow> registry_wf (dispose r)"
  using registry_wf_membership [OF dispose_membership] unfolding registry_wf_def by auto

lemma membership_listeners [simp]:
  "membership (onPresenceChange cb r) = membership r" "membership (onApprovalReconcile cb r) = membership r"
  by (simp_all add: membership_def onPresenceChange_def onApprovalReconcile_def)

lemmas wf_same = membership_relays [THEN registry_wf_membership] membership_requests [THEN registry_wf_membership]
  membership_listeners [THEN registry_wf_membership]

lemma wf_step: "registry_wf r \<Longrightarrow> registry_wf (registry_step r x)"
proof (induction r x rule: registry_step.induct)
qed (simp_all add: wf_add wf_remove wf_hello wf_grace wf_dispose wf_observe wf_same)

interpretation registry: stream_fold registry_step registry_wf
  by unfold_locales (rule wf_step)

lemma wf_new: "registry_wf registry_new"
  by (simp add: registry_wf_def registry_new_def)

lemma wf_run: "registry_wf (registry_run ops)"
  unfolding registry_run_def by (rule registry.run_inv) (rule wf_new)

section \<open>Events of an operation\<close>

definition new_events :: "SidecarRegistry \<Rightarrow> link_env \<times> registry_op \<Rightarrow> registry_event list" where
  "new_events r x = drop (length (rg_log r)) (rg_log (registry_step r x))"

fun telling :: "registry_event \<Rightarrow> bool" where
  "telling (Presence _ _ _) = True"
| "telling (Reconcile _ _) = True"
| "telling _ = False"

definition trips_of :: "SidecarRegistry \<Rightarrow> _" where
  "trips_of r = (rg_diffs r, rg_allowlist r, rg_policy r, rg_spawn r)"

text \<open>Operations that call listeners at most.\<close>

definition tells_only :: "SidecarRegistry \<Rightarrow> SidecarRegistry \<Rightarrow> bool" where
  "tells_only r r' \<longleftrightarrow> trips_of r' = trips_of r \<and> (\<exists>es. rg_log r' = rg_log r @ es \<and> list_all telling es)"

lemma tells_onlyI: "trips_of r' = trips_of r \<Longrightarrow> rg_log r' = rg_log r @ es \<Longrightarrow> list_all telling es \<Longrightarrow> tells_only r r'"
  by (auto simp: tells_only_def)

lemma tells_only_refl [simp]: "tells_only r r"
  by (rule tells_onlyI [of _ _ "[]"]) simp_all

lemma tells_only_trans: "tells_only r r' \<Longrightarrow> tells_only r' r'' \<Longrightarrow> tells_only r r''"
  by (auto simp: tells_only_def)

lemma tells_only_foldl: "(\<And>r x. tells_only r (g r x)) \<Longrightarrow> tells_only r (foldl g r xs)"
  by (induction xs arbitrary: r) (auto intro: tells_only_trans)

lemma tells_only_simple:
  "tells_only r (upd_conn c f r)" "tells_only r (emitPresence sid live r)" "tells_only r (disown sid r)"
  "tells_only r (r\<lparr>rg_graceTimers := g\<rparr>)"
  "tells_only r (onPresenceChange cb r)" "tells_only r (onApprovalReconcile cb r)" "tells_only r (registry_add d l r)"
  "tells_only r (maybeEmitApprovalReconcile now c declared r)"
  by (auto simp: tells_only_def trips_of_def upd_conn_def emitPresence_def disown_def startGrace_def record_events_def
      onPresenceChange_def onApprovalReconcile_def registry_add_def Let_def list_all_iff
      maybeEmitApprovalReconcile_def split: option.split)

lemma tells_only_claim: "tells_only r (claim env c sid r)"
proof -
  let ?r = "(upd_conn c (\<lambda>conn. conn\<lparr>cn_sessions := set_add sid (cn_sessions conn)\<rparr>) r)
    \<lparr>rg_graceTimers := removeAll sid (rg_graceTimers r), rg_sessionOwner := AList.update sid c (rg_sessionOwner r)\<rparr>"
  have "tells_only r ?r" by (rule tells_onlyI [of _ _ "[]"]) (simp_all add: trips_of_def upd_conn_def)
  then show ?thesis
    using tells_only_trans [OF _ tells_only_simple(2)] by (simp add: claim_def Let_def)
qed

lemma tells_only_release: "tells_only r (releaseSession c sid r)"
  using tells_only_trans [OF tells_only_simple(1) tells_only_simple(3)] by (simp add: releaseSession_def)

lemma tells_only_membership: "tells_only r (hello_membership env c ids r)"
proof (cases ids)
  case (Some nxt)
  have "tells_only r (if b then r else releaseSession c sid r)" for r b sid by (simp add: tells_only_release)
  then show ?thesis
    using Some tells_only_foldl [of "\<lambda>r sid. claim env c sid r" r nxt, OF tells_only_claim]
    by (auto simp: hello_membership_def Let_def intro!: tells_only_trans [OF _ tells_only_foldl])
qed (simp add: hello_membership_def)

lemma tells_only_hello: "tells_only r (snd (handleHello env now link frame r))"
  by (auto simp: handleHello_def Let_def intro!: tells_only_trans [OF _ tells_only_simple(8)] tells_only_simple(1)
      tells_only_trans [OF _ tells_only_membership] tells_only_trans [OF _ tells_only_simple(1)] split: option.split)

lemma tells_only_remove: "tells_only r (registry_remove link r)"
proof (cases "map_of (rg_conns r) link")
  case (Some c)
  have "tells_only r (disown_all c r sids)" for sids
    unfolding disown_all_def by (rule tells_only_foldl) (simp add: tells_only_simple)
  then show ?thesis
    using Some by (auto simp: remove_eq tells_only_def trips_of_def)
qed (simp add: remove_eq)

lemma tells_only_grace: "tells_only r (grace_expires env sid r)"
  using tells_only_trans [OF tells_only_simple(4) tells_only_simple(2)]
  by (auto simp: grace_expires_def Let_def tells_only_simple)

lemma tells_only_observe: "tells_only r (observeSession env link sid r)"
  by (auto simp: observeSession_def tells_only_claim split: option.split)

lemmas tells_only_ops = tells_only_simple(5-7) tells_only_hello tells_only_remove tells_only_grace tells_only_observe

end
