(* ===== verification/Relay_Correct.thy ===== *)
theory Relay_Correct
  imports Sidecar_Registry_Correct
begin

text \<open>
  What the registry does to the outside: frames go to the connection they are meant for and carry
  its own token, requests are answered exactly once, and presence is announced as it changes.
\<close>

section \<open>Frames\<close>




lemma channel_error_None:
  "channel_error env conn = None \<longleftrightarrow> en_open env (cn_link conn) \<and> (\<exists>tok. cn_controlToken conn = Some tok)"
  by (auto simp: channel_error_def)



fun sent :: "registry_event \<Rightarrow> (nat \<times> jsval) option" where
  "sent (Sent l f) = Some (l, f)"
| "sent _ = None"

definition frames :: "registry_event list \<Rightarrow> (nat \<times> jsval) list" where
  "frames es = somes (map sent es)"

lemma frames_simps [simp]:
  "frames [] = []" "frames (e # es) = (case sent e of Some x \<Rightarrow> x # frames es | None \<Rightarrow> frames es)"
  "frames (es @ es') = frames es @ frames es'"
proof -
  have "somes (xs @ ys) = somes xs @ somes ys" for xs ys :: "'a option list"
    by (induction xs rule: somes.induct) auto
  then show "frames (es @ es') = frames es @ frames es'" by (simp add: frames_def)
qed (simp_all add: frames_def split: option.split)

lemma frames_map_answers [simp]:
  "frames (map (\<lambda>(t, x). Diff_answer t x) as1) = []" "frames (map (\<lambda>(t, x). Allowlist_answer t x) as2) = []"
  "frames (map (\<lambda>(t, x). Policy_answer t x) as3) = []" "frames (map (\<lambda>(t, x). Spawn_answer t x) as4) = []"
  by (induction as1, auto) (induction as2, auto, induction as3, auto, induction as4, auto)


lemma log_grows:
  "rg_log (record_events es r) = rg_log r @ es" "rg_log (r\<lparr>rg_diffs := d\<rparr>) = rg_log r" "rg_log (r\<lparr>rg_allowlist := a\<rparr>) = rg_log r"
  "rg_log (r\<lparr>rg_policy := p\<rparr>) = rg_log r" "rg_log (r\<lparr>rg_spawn := s\<rparr>) = rg_log r"
  "rg_log (diff_answers x1 r) = rg_log r @ map (\<lambda>(t, x). Diff_answer t x) (fst x1)"
  "rg_log (allowlist_answers x2 r) = rg_log r @ map (\<lambda>(t, x). Allowlist_answer t x) (fst x2)"
  "rg_log (policy_answers x3 r) = rg_log r @ map (\<lambda>(t, x). Policy_answer t x) (fst x3)"
  "rg_log (spawn_answers x4 r) = rg_log r @ map (\<lambda>(t, x). Spawn_answer t x) (fst x4)"
  by (simp_all add: record_events_def diff_answers_def allowlist_answers_def policy_answers_def spawn_answers_def)

text \<open>The copies of a policy mutation: one for every other connection that can be reached.\<close>

definition copies :: "link_env \<Rightarrow> (nat \<Rightarrow> jstring) \<Rightarrow> (jstring \<times> jsval) list \<Rightarrow> nat \<Rightarrow> (nat \<Rightarrow> SidecarConn) \<Rightarrow> (nat \<times> nat \<times> nat) list
    \<Rightarrow> registry_event list" where
  "copies env draw payload except conn xs =
    map (\<lambda>(k, l, c). Sent (cn_link (conn c)) (policy_frame (draw (Suc k)) (conn c) payload [(js ''persist'', JBool False)]))
      (filter (\<lambda>(k, l, c). c \<noteq> except \<and> channel_error env (conn c) = None \<and> en_send env (cn_link (conn c))) xs)"

lemma fan_out_log:
  "rg_log (fanOutPolicyMutation env draw payload except r)
    = rg_log r @ copies env draw payload except (rg_conn r) (enumerate 0 (rg_conns r))
   \<and> trips_of (fanOutPolicyMutation env draw payload except r) = trips_of r"
proof -
  let ?f = "\<lambda>r (k, l, c). if c = except then r else if channel_error env (rg_conn r c) \<noteq> None then r
        else snd (link_send env (cn_link (rg_conn r c)) (policy_frame (draw (Suc k)) (rg_conn r c) payload [(js ''persist'', JBool False)]) r)"
  have "rg_log (foldl ?f r xs) = rg_log r @ copies env draw payload except (rg_conn r) xs \<and> trips_of (foldl ?f r xs) = trips_of r" for xs
  proof (induction xs arbitrary: r)
    case (Cons x xs)
    obtain k l c where x: "x = (k, l, c)" by (cases x)
    have "rg_conn (?f r x) = rg_conn r" "trips_of (?f r x) = trips_of r"
      by (simp_all add: x link_send_def record_events_def trips_of_def)
    moreover have "rg_log (?f r x) = rg_log r @ copies env draw payload except (rg_conn r) [x]"
      by (simp add: x link_send_def record_events_def copies_def)
    ultimately show ?case
      using Cons.IH [of "?f r x"] by (simp add: copies_def)
  qed (simp add: copies_def)
  then show ?thesis by (simp add: fanOutPolicyMutation_def)
qed

lemma new_eventsI: "rg_log (registry_step r x) = rg_log r @ es \<Longrightarrow> new_events r x = es"
  by (simp add: new_events_def)

lemma frame_tokens [simp]:
  "js_get (approval_frame relay conn) (js ''token'') = token_json conn"
  "js_get (interrupt_frame sid conn) (js ''token'') = token_json conn"
  "js_get (policy_frame i conn payload extra) (js ''token'') = token_json conn"
  by (simp_all add: approval_frame_def interrupt_frame_def policy_frame_def)




lemma record_fields [simp]: "rg_conn (record_events es r) = rg_conn r" "rg_conns (record_events es r) = rg_conns r"
  by (simp_all add: record_events_def)

text \<open>The frames a direct relay sends.\<close>

lemma relay_to_log:
  "rg_log (snd (relay_to env sid msg r)) = rg_log r @
    (case map_of (rg_sessionOwner r) sid of
       Some c \<Rightarrow> if channel_error env (rg_conn r c) = None \<and> en_send env (cn_link (rg_conn r c))
                 then [Sent (cn_link (rg_conn r c)) (msg (rg_conn r c))] else []
     | None \<Rightarrow> [])"
  by (simp add: relay_to_def link_send_def record_events_def Let_def split: option.split)

lemma relayPolicyVia_log:
  "\<exists>as. rg_log (relayPolicyVia env draw t c pop params r) = rg_log r @
    (if channel_error env (rg_conn r c) = None \<and> en_send env (cn_link (rg_conn r c)) then
       Sent (cn_link (rg_conn r c)) (policy_frame (draw 0) (rg_conn r c) (policy_payload pop params) [])
       # (if pop = Op_set \<or> pop = Op_unset
          then copies env draw (policy_payload pop params) c (rg_conn r) (enumerate 0 (rg_conns r)) else [])
     else map (\<lambda>(t, x). Policy_answer t x) as)"
proof (cases "channel_error env (rg_conn r c)")
  case None
  then show ?thesis
    by (auto simp: relayPolicyVia_def Let_def link_send_def log_grows fan_out_log)
next
  case (Some e)
  then show ?thesis
    by (auto simp: relayPolicyVia_def log_grows intro!: exI [of _ "[(t, Policy_error (js e))]"])
qed










section \<open>Answers\<close>

fun answered :: "registry_event \<Rightarrow> nat option" where
  "answered (Diff_answer t _) = Some t"
| "answered (Allowlist_answer t _) = Some t"
| "answered (Policy_answer t _) = Some t"
| "answered (Spawn_answer t _) = Some t"
| "answered _ = None"

definition answers :: "registry_event list \<Rightarrow> (nat \<times> registry_event) list" where
  "answers es = somes (map (\<lambda>e. map_option (\<lambda>t. (t, e)) (answered e)) es)"

lemma answers_simps [simp]:
  "answers [] = []" "answers (e # es) = (case answered e of Some t \<Rightarrow> (t, e) # answers es | None \<Rightarrow> answers es)"
  by (simp_all add: answers_def split: option.split)

lemma answers_append [simp]: "answers (es @ es') = answers es @ answers es'"
  by (induction es) (simp_all split: option.split)

lemma answers_of [simp]:
  "map fst (answers (map (\<lambda>(t, x). Diff_answer t x) as1)) = map fst as1"
  "map fst (answers (map (\<lambda>(t, x). Allowlist_answer t x) as2)) = map fst as2"
  "map fst (answers (map (\<lambda>(t, x). Policy_answer t x) as3)) = map fst as3"
  "map fst (answers (map (\<lambda>(t, x). Spawn_answer t x) as4)) = map fst as4"
  by (induction as1, auto) (induction as2, auto, induction as3, auto, induction as4, auto)

lemmas answers_mset [simp] = answers_of [THEN arg_cong, of mset, simplified mset_map]

lemma answers_quiet: "list_all telling es \<Longrightarrow> answers es = []" "answers (copies env draw payload c conn xs) = []"
proof -
  show "list_all telling es \<Longrightarrow> answers es = []"
  proof (induction es)
    case (Cons e es)
    then show ?case by (cases e) auto
  qed simp
  have "answers (map (\<lambda>x. Sent (g x) (h x)) ys) = []" for g h and ys :: "(nat \<times> nat \<times> nat) list" by (induction ys) auto
  then show "answers (copies env draw payload c conn xs) = []"
    by (simp add: copies_def case_prod_unfold)
qed

fun opened_ticket :: "link_env \<times> registry_op \<Rightarrow> nat multiset" where
  "opened_ticket (env, Request_diff i t sid) = {#t#}"
| "opened_ticket (env, Request_allowlist i t sid opn sg scope) = {#t#}"
| "opened_ticket (env, Request_policy draw t sid opn params) = {#t#}"
| "opened_ticket (env, Request_policy_daemon draw t d opn params) = {#t#}"
| "opened_ticket (env, Request_spawn i t d prompt cwd scope) = {#t#}"
| "opened_ticket _ = {#}"

definition waiting :: "SidecarRegistry \<Rightarrow> nat multiset" where
  "waiting r = trip_due (rg_diffs r) + trip_due (rg_allowlist r) + trip_due (rg_policy r) + trip_due (rg_spawn r)"

definition trips_wf :: "SidecarRegistry \<Rightarrow> bool" where
  "trips_wf r \<longleftrightarrow> trip_inv (rg_diffs r) \<and> trip_inv (rg_allowlist r) \<and> trip_inv (rg_policy r) \<and> trip_inv (rg_spawn r)"

lemma trips_of_eq:
  assumes "trips_of r' = trips_of r"
  shows "waiting r' = waiting r" "trips_wf r' = trips_wf r"
  using assms by (simp_all add: trips_of_def waiting_def trips_wf_def)

text \<open>Registering a request whose frame cannot be sent answers it and leaves nothing behind.\<close>

lemma register_abort:
  assumes "trip_inv p" "t \<notin># trip_due p"
  shows "trip_inv (snd (abort i x (register i t y p))) \<and> trip_due (snd (abort i x (register i t y p))) = trip_due p
    \<and> fst (abort i x (register i t y p)) = [(t, x)]"
proof -
  note reg = register_spec [OF assms, of i y]
  have "fst (abort i x (register i t y p)) = [(t, x)]"
    by (simp add: abort_def settle_with_def settle_def register_def update_conv')
  then show ?thesis
    using settle_with_spec [of "register i t y p" i x] reg by (simp add: abort_def)
qed

abbreviation balanced :: "SidecarRegistry \<Rightarrow> nat multiset \<Rightarrow> SidecarRegistry \<Rightarrow> bool" where
  "balanced r new r' \<equiv> trips_wf r' \<and>
     waiting r + new = waiting r' + mset (map fst (answers (drop (length (rg_log r)) (rg_log r'))))"

lemma balanced_tells: "tells_only r r' \<Longrightarrow> trips_wf r \<Longrightarrow> balanced r {#} r'"
  using trips_of_eq [of r' r] by (auto simp: tells_only_def answers_quiet)

lemma balanced_relay: "trips_wf r \<Longrightarrow> balanced r {#} (snd (relay_to env sid msg r))"
proof -
  assume wf: "trips_wf r"
  have "trips_of (snd (relay_to env sid msg r)) = trips_of r"
    by (simp add: relay_to_def link_send_def record_events_def trips_of_def Let_def split: option.split)
  then show ?thesis
    using wf trips_of_eq [of "snd (relay_to env sid msg r)" r] by (auto simp: relay_to_log split: option.split)
qed

lemma record_trips [simp]:
  "rg_diffs (record_events es r) = rg_diffs r" "rg_allowlist (record_events es r) = rg_allowlist r"
  "rg_policy (record_events es r) = rg_policy r" "rg_spawn (record_events es r) = rg_spawn r"
  by (simp_all add: record_events_def)

lemmas answer_defs = diff_answers_def allowlist_answers_def policy_answers_def spawn_answers_def

lemma balanced_requests:
  assumes "trips_wf r" "t \<notin># waiting r"
  shows "balanced r {#t#} (requestDiff env i t sid r)" "balanced r {#t#} (requestAllowlist env i t sid opn sg scope r)"
    "balanced r {#t#} (requestCodexSpawnByDaemon env i t d prompt cwd sc r)"
proof -
  have inv: "trip_inv (rg_diffs r)" "trip_inv (rg_allowlist r)" "trip_inv (rg_policy r)" "trip_inv (rg_spawn r)"
    and new: "t \<notin># trip_due (rg_diffs r)" "t \<notin># trip_due (rg_allowlist r)" "t \<notin># trip_due (rg_policy r)" "t \<notin># trip_due (rg_spawn r)"
    using assms by (auto simp: trips_wf_def waiting_def)
  note simps = Let_def link_send_def answer_defs log_grows waiting_def trips_wf_def inv
  show "balanced r {#t#} (requestDiff env i t sid r)"
    using register_spec [OF inv(1) new(1)] register_abort [OF inv(1) new(1)]
    by (auto simp: requestDiff_def simps split: option.split)
  show "balanced r {#t#} (requestAllowlist env i t sid opn sg scope r)"
    using register_spec [OF inv(2) new(2)] register_abort [OF inv(2) new(2)]
    by (auto simp: requestAllowlist_def simps split: option.split)
  show "balanced r {#t#} (requestCodexSpawnByDaemon env i t d prompt cwd sc r)"
    using register_spec [OF inv(4) new(4)] register_abort [OF inv(4) new(4)]
    by (auto simp: requestCodexSpawnByDaemon_def simps split: option.split)
qed

lemma balanced_policy:
  assumes "trips_wf r" "t \<notin># waiting r"
  shows "balanced r {#t#} (relayPolicyVia env draw t c pop params r)"
proof -
  have inv: "trip_inv (rg_diffs r)" "trip_inv (rg_allowlist r)" "trip_inv (rg_policy r)" "trip_inv (rg_spawn r)"
    and new: "t \<notin># trip_due (rg_policy r)"
    using assms by (auto simp: trips_wf_def waiting_def)
  have fan: "rg_diffs (fanOutPolicyMutation env draw payload c r) = rg_diffs r" "rg_allowlist (fanOutPolicyMutation env draw payload c r) = rg_allowlist r"
    "rg_policy (fanOutPolicyMutation env draw payload c r) = rg_policy r" "rg_spawn (fanOutPolicyMutation env draw payload c r) = rg_spawn r" for payload r
    using fan_out_log [of env draw payload c r] by (simp_all add: trips_of_def)
  show ?thesis
    using register_spec [OF inv(3) new] register_abort [OF inv(3) new]
    by (auto simp: relayPolicyVia_def Let_def link_send_def answer_defs log_grows waiting_def trips_wf_def inv fan fan_out_log
        answers_quiet split: option.split)
qed

lemma balanced_answers:
  assumes "trips_wf r"
  shows "balanced r {#} (diff_times_out t r)" "balanced r {#} (allowlist_times_out t r)"
    "balanced r {#} (policy_times_out t r)" "balanced r {#} (spawn_times_out t r)"
    "balanced r {#} (resolveDiff frame r)" "balanced r {#} (resolveAllowlist frame r)"
    "balanced r {#} (resolvePolicy frame r)" "balanced r {#} (resolveCodexSpawn frame r)"
proof -
  have inv: "trip_inv (rg_diffs r)" "trip_inv (rg_allowlist r)" "trip_inv (rg_policy r)" "trip_inv (rg_spawn r)"
    using assms by (auto simp: trips_wf_def)
  note simps = answer_defs log_grows waiting_def trips_wf_def inv
  show "balanced r {#} (diff_times_out t r)" "balanced r {#} (resolveDiff frame r)"
    using time_out_spec [OF inv(1), of t] settle_with_spec [OF inv(1)]
    by (auto simp: diff_times_out_def resolveDiff_def simps split: option.split)
  show "balanced r {#} (allowlist_times_out t r)" "balanced r {#} (resolveAllowlist frame r)"
    using time_out_spec [OF inv(2), of t] settle_with_spec [OF inv(2)]
    by (auto simp: allowlist_times_out_def resolveAllowlist_def simps split: option.split)
  show "balanced r {#} (policy_times_out t r)" "balanced r {#} (resolvePolicy frame r)"
    using time_out_spec [OF inv(3), of t] settle_with_spec [OF inv(3)]
    by (auto simp: policy_times_out_def resolvePolicy_def simps split: option.split)
  show "balanced r {#} (spawn_times_out t r)" "balanced r {#} (resolveCodexSpawn frame r)"
    using time_out_spec [OF inv(4), of t] settle_with_spec [OF inv(4)]
    by (auto simp: spawn_times_out_def resolveCodexSpawn_def simps split: option.split)
qed

lemma balanced_dispose: "trips_wf r \<Longrightarrow> balanced r {#} (dispose r)"
proof -
  assume "trips_wf r"
  then have inv: "trip_inv (rg_diffs r)" "trip_inv (rg_allowlist r)" "trip_inv (rg_policy r)" "trip_inv (rg_spawn r)"
    by (auto simp: trips_wf_def)
  show ?thesis
    using rejectAll_spec [OF inv(1), of "Diff_error ''server shutting down''"]
      rejectAll_spec [OF inv(2), of "Allowlist_error ''server shutting down''"]
      rejectAll_spec [OF inv(3), of "Policy_error (js ''server shutting down'')"]
      rejectAll_spec [OF inv(4), of "Spawn_error ''server shutting down'' True"]
    by (simp add: dispose_def Let_def answer_defs log_grows waiting_def trips_wf_def ac_simps)
qed

lemma balanced_policy_requests:
  assumes "trips_wf r" "t \<notin># waiting r"
  shows "balanced r {#t#} (requestPolicy env draw t sid pop params r)"
    "balanced r {#t#} (requestPolicyByDaemon env draw t d pop params r)"
proof -
  have "balanced r {#t#} (record_events [Policy_answer t x] r)" for x
    using assms(1) by (simp add: log_grows waiting_def trips_wf_def)
  then show "balanced r {#t#} (requestPolicy env draw t sid pop params r)"
    "balanced r {#t#} (requestPolicyByDaemon env draw t d pop params r)"
    using balanced_policy [OF assms] by (simp_all add: requestPolicy_def requestPolicyByDaemon_def split: option.split)
qed

definition relay_step :: "SidecarRegistry \<Rightarrow> link_env \<times> registry_op \<Rightarrow> (nat \<times> registry_event) list \<times> SidecarRegistry" where
  "relay_step r x = (answers (new_events r x), registry_step r x)"

lemma relay_step_balanced:
  assumes wf: "trips_wf r" and fresh: "set_mset (opened_ticket x) \<inter> set_mset (waiting r) = {}"
  shows "balanced r (opened_ticket x) (registry_step r x)"
proof -
  obtain env y where x: "x = (env, y)" by (cases x)
  show ?thesis
  proof (cases y)
    case (Relay_approval relay)
    then show ?thesis using balanced_relay [OF wf] by (simp add: x relayApproval_def)
  next
    case (Relay_interrupt sid)
    then show ?thesis using balanced_relay [OF wf] by (simp add: x relayInterrupt_def)
  qed (use fresh balanced_answers [OF wf] balanced_dispose [OF wf] balanced_requests [OF wf] balanced_policy_requests [OF wf]
        balanced_tells [OF _ wf] in \<open>simp_all add: x tells_only_ops\<close>)
qed

interpretation relays: obligations relay_step opened_ticket waiting trips_wf
  using relay_step_balanced by unfold_locales (simp_all add: relay_step_def new_events_def)

lemma tells_only_grows: "tells_only r r' \<Longrightarrow> \<exists>es. rg_log r' = rg_log r @ es"
  by (auto simp: tells_only_def)

lemma policy_grows: "\<exists>es. rg_log (relayPolicyVia env draw t c pop params r) = rg_log r @ es"
  using relayPolicyVia_log [of env draw t c pop params r] by blast

lemma log_step_grows: "\<exists>es. rg_log (registry_step r x) = rg_log r @ es"
proof (induction r x rule: registry_step.induct)
qed (simp_all add: tells_only_ops [THEN tells_only_grows] policy_grows relayApproval_def relayInterrupt_def relay_to_log
    requestDiff_def requestAllowlist_def requestCodexSpawnByDaemon_def requestPolicy_def requestPolicyByDaemon_def
    diff_times_out_def allowlist_times_out_def policy_times_out_def spawn_times_out_def resolveDiff_def
    resolveAllowlist_def resolvePolicy_def resolveCodexSpawn_def dispose_def link_send_def Let_def log_grows split: option.split)

lemma relay_run:
  "snd (run_ops relay_step r ops) = foldl registry_step r ops
   \<and> (\<exists>es. rg_log (foldl registry_step r ops) = rg_log r @ es \<and> fst (run_ops relay_step r ops) = answers es)"
proof (induction ops arbitrary: r)
  case (Cons x ops)
  obtain es where es: "rg_log (registry_step r x) = rg_log r @ es" using log_step_grows by blast
  show ?case
    using Cons.IH [of "registry_step r x"] es by (auto simp: relay_step_def Let_def case_prod_unfold new_events_def)
qed simp

section \<open>Properties\<close>

text \<open>
  The registry never holds on to a connection that is gone. After any sequence of connects,
  disconnects, frames, timers and requests, every owner of a session and every daemon that can be
  addressed is a registered connection, an owner knows the session as its own, no session is owned
  and in grace at once, and no link is registered twice.
\<close>

theorem registry_no_dangling: "registry_wf (registry_run ops)"
  by (rule wf_run)


definition requests :: "(link_env \<times> registry_op) list \<Rightarrow> nat multiset" where
  "requests ops = sum_list (map opened_ticket ops)"

text \<open>
  C23. Every request to a sidecar is answered exactly once. In every run in which the callers are
  distinct, each diff, allow-list, policy or spawn request is either answered once and has no timer
  left, or has not been answered and its time-out is armed; refused and failed sends, late and
  repeated responses, time-outs and the shutdown of the server included.
\<close>

theorem relay_requests_answered_once:
  assumes "\<And>t. count (requests ops) t \<le> 1" "t \<in># requests ops"
  shows "count_list (map fst (answers (rg_log (registry_run ops)))) t + count (waiting (registry_run ops)) t = 1"
proof -
  have "trips_wf registry_new" "waiting registry_new = {#}"
    by (simp_all add: trips_wf_def waiting_def registry_new_def)
  note once = relays.answered_once [OF this, of ops t, unfolded all_opened_def, folded requests_def, OF assms]
  moreover have "rg_log registry_new = []" by (simp add: registry_new_def)
  ultimately have "count (waiting (registry_run ops)) t + count (mset (map fst (answers (rg_log (registry_run ops))))) t = 1"
    using relay_run [of registry_new ops] by (auto simp: registry_run_def)
  moreover have "count_list xs t = count (mset xs) t" for xs by (induction xs) auto
  ultimately show ?thesis by (metis add.commute)
qed

text \<open>
  A policy change reaches every daemon of the machine. When a change is relayed to a
  connection that can be reached, the owner's frame is sent first and every other connected daemon
  with a complete handshake gets exactly one copy, in the order of connection, with its own token
  and marked not to be persisted; a read is never copied.
\<close>

theorem policy_fan_out_exact:
  assumes "map_of (rg_sessionOwner r) sid = Some c" "channel_error env (rg_conn r c) = None" "\<And>l. en_send env l"
  shows "new_events r (env, Request_policy draw t sid pop params) =
    Sent (cn_link (rg_conn r c)) (policy_frame (draw 0) (rg_conn r c) (policy_payload pop params) [])
    # (if pop = Op_set \<or> pop = Op_unset then
         map (\<lambda>(k, l, c'). Sent (cn_link (rg_conn r c')) (policy_frame (draw (Suc k)) (rg_conn r c') (policy_payload pop params) [(js ''persist'', JBool False)]))
           (filter (\<lambda>(k, l, c'). c' \<noteq> c \<and> en_open env (cn_link (rg_conn r c')) \<and> cn_controlToken (rg_conn r c') \<noteq> None)
              (enumerate 0 (rg_conns r)))
       else [])"
proof (rule new_eventsI)
  have "copies env draw payload c (rg_conn r) xs =
      map (\<lambda>(k, l, c'). Sent (cn_link (rg_conn r c')) (policy_frame (draw (Suc k)) (rg_conn r c') payload [(js ''persist'', JBool False)]))
        (filter (\<lambda>(k, l, c'). c' \<noteq> c \<and> en_open env (cn_link (rg_conn r c')) \<and> cn_controlToken (rg_conn r c') \<noteq> None) xs)"
    for payload xs
    unfolding copies_def using assms(3) by (simp add: channel_error_None case_prod_unfold)
  then show "rg_log (registry_step r (env, Request_policy draw t sid pop params)) = rg_log r @ (Sent (cn_link (rg_conn r c))
      (policy_frame (draw 0) (rg_conn r c) (policy_payload pop params) [])
      # (if pop = Op_set \<or> pop = Op_unset then
         map (\<lambda>(k, l, c'). Sent (cn_link (rg_conn r c')) (policy_frame (draw (Suc k)) (rg_conn r c') (policy_payload pop params) [(js ''persist'', JBool False)]))
           (filter (\<lambda>(k, l, c'). c' \<noteq> c \<and> en_open env (cn_link (rg_conn r c')) \<and> cn_controlToken (rg_conn r c') \<noteq> None)
              (enumerate 0 (rg_conns r)))
       else []))"
    using relayPolicyVia_log [of env draw t c pop params r] assms by (auto simp: requestPolicy_def)
qed

section \<open>A concrete machine\<close>

text \<open>Two daemons, both shaken hands with; the first owns a session.\<close>

definition sample_env :: link_env where
  "sample_env = \<lparr>en_open = (\<lambda>_. True), en_send = (\<lambda>_. True)\<rparr>"

definition sample_hello :: "jstring \<Rightarrow> jstring list \<Rightarrow> jsval" where
  "sample_hello tok sids = JObj [(js ''type'', JStr (js ''hello'')), (js ''control_token'', JStr tok), (js ''session_ids'', JArr (map JStr sids))]"

definition sample_ops :: "(link_env \<times> registry_op) list" where
  "sample_ops = [(sample_env, Connect [100] 11), (sample_env, Connect [101] 12),
     (sample_env, Hello 0 11 (sample_hello [5] [[9]])), (sample_env, Hello 0 12 (sample_hello [6] []))]"

definition sample_conn :: "nat \<Rightarrow> jstring \<Rightarrow> jstring \<Rightarrow> jstring list \<Rightarrow> SidecarConn" where
  "sample_conn l d tok sids = \<lparr>cn_link = l, cn_daemonId = d, cn_controlToken = Some tok, cn_policyCapable = False,
     cn_spawnCapable = False, cn_agentVisibility = None, cn_daemonCounters = None, cn_runtimeEpoch = None, cn_sessions = sids\<rparr>"

lemma sample_run:
  "rg_conns (registry_run sample_ops) = [(11, 0), (12, 1)]" "rg_sessionOwner (registry_run sample_ops) = [([9], 0)]"
  "rg_conn (registry_run sample_ops) 0 = sample_conn 11 [100] [5] [[9]]" "rg_conn (registry_run sample_ops) (Suc 0) = sample_conn 12 [101] [6] []"
  "rg_diffs (registry_run sample_ops) = rt_new" "rg_log (registry_run sample_ops) = []"
  by (simp_all add: sample_ops_def registry_run_def registry_new_def registry_add_def handleHello_def sample_hello_def
      record_hello_def hello_membership_def claim_def isLive_def upd_conn_def emitPresence_def record_events_def set_add_def
      maybeEmitApprovalReconcile_def parseRuntimeEpoch_def parseAgentVisibilityWire_def parseDaemonCountersWire_def
      sample_conn_def Let_def)

lemma sample_channel: "channel_error sample_env (sample_conn l d tok sids) = None" "en_send sample_env l"
  by (simp_all add: channel_error_def sample_env_def sample_conn_def)



definition sample_diff_ops :: "(link_env \<times> registry_op) list" where
  "sample_diff_ops = sample_ops @ [(sample_env, Request_diff [1] 7 [9]), (sample_env, Resolve_diff (JObj [(js ''request_id'', JStr [1])]))]"

theorem relay_requests_answered_once_witness:
  "count_list (map fst (answers (rg_log (registry_run sample_diff_ops)))) 7 + count (waiting (registry_run sample_diff_ops)) 7 = 1"
  by (rule relay_requests_answered_once) (simp_all add: requests_def sample_diff_ops_def sample_ops_def)

theorem policy_fan_out_exact_witness:
  "new_events (registry_run sample_ops) (sample_env, Request_policy (\<lambda>k. [k]) 8 [9] Op_unset
     \<lparr>pp_categories = None, pp_enabled = None, pp_repo_scope = None, pp_repo_label = None, pp_path = None, pp_resolveScope = None\<rparr>) =
    [Sent 11 (policy_frame [0] (sample_conn 11 [100] [5] [[9]]) [(js ''op'', JStr (js ''unset''))] []),
     Sent 12 (policy_frame [2] (sample_conn 12 [101] [6] []) [(js ''op'', JStr (js ''unset''))] [(js ''persist'', JBool False)])]"
  by (subst policy_fan_out_exact [where c = 0])
     (simp_all add: sample_run sample_channel, simp_all add: sample_conn_def sample_env_def policy_payload_def opt_prop_def only_when_def sample_run numeral_2_eq_2)

end
