(* ===== verification/Presence_Correct.thy ===== *)
theory Presence_Correct
  imports Relay_Correct
begin

text \<open>
  Presence: what a listener was told about the sessions agrees with who owns them, through
  disconnects, the grace period, reconnects and changes of ownership.
\<close>

section \<open>What a listener believes\<close>

fun hears :: "nat \<Rightarrow> jstring \<Rightarrow> bool \<Rightarrow> registry_event \<Rightarrow> bool" where
  "hears cb sid b (Presence cb' sid' live) = (if cb' = cb \<and> sid' = sid then live else b)"
| "hears cb sid b _ = b"

text \<open>The last thing listener \<open>cb\<close> was told about a session; nobody is present at first.\<close>

definition told :: "nat \<Rightarrow> jstring \<Rightarrow> registry_event list \<Rightarrow> bool" where
  "told cb sid es = foldl (hears cb sid) False es"

lemma told_append: "told cb sid (es @ es') = foldl (hears cb sid) (told cb sid es) es'"
  by (simp add: told_def)

fun announcing :: "registry_event \<Rightarrow> bool" where
  "announcing (Presence _ _ _) = True"
| "announcing _ = False"

lemma told_silent: "\<not> list_ex announcing es' \<Longrightarrow> told cb sid (es @ es') = told cb sid es"
proof -
  have "\<not> list_ex announcing es' \<Longrightarrow> foldl (hears cb sid) b es' = b" for b
  proof (induction es' arbitrary: b)
    case (Cons e es')
    then show ?case by (cases e) auto
  qed simp
  then show "\<not> list_ex announcing es' \<Longrightarrow> ?thesis" by (simp add: told_append)
qed

text \<open>Owned, or in the grace period after it was owned.\<close>

definition present :: "SidecarRegistry \<Rightarrow> jstring \<Rightarrow> bool" where
  "present r sid \<longleftrightarrow> sid \<in> set (rg_graceTimers r) \<or> map_of (rg_sessionOwner r) sid \<noteq> None"

definition presence_inv :: "nat \<Rightarrow> SidecarRegistry \<Rightarrow> bool" where
  "presence_inv cb r \<longleftrightarrow> rg_presenceListeners r = [cb] \<and> (\<forall>sid. told cb sid (rg_log r) \<longleftrightarrow> present r sid)"

text \<open>Steps that neither announce anything nor change who is present.\<close>

definition unheard :: "SidecarRegistry \<Rightarrow> SidecarRegistry \<Rightarrow> bool" where
  "unheard r r' \<longleftrightarrow> rg_presenceListeners r' = rg_presenceListeners r
     \<and> (\<exists>es. rg_log r' = rg_log r @ es \<and> \<not> list_ex announcing es) \<and> (\<forall>sid. present r' sid = present r sid)"

lemma unheard_refl [simp]: "unheard r r"
  by (auto simp: unheard_def intro: exI [of _ "[]"])

lemma unheard_trans: "unheard r r' \<Longrightarrow> unheard r' r'' \<Longrightarrow> unheard r r''"
  by (auto simp: unheard_def)

lemma unheard_inv: "presence_inv cb r \<Longrightarrow> unheard r r' \<Longrightarrow> presence_inv cb r'"
  by (auto simp: presence_inv_def unheard_def told_silent)

lemma unheard_record: "\<not> list_ex announcing es \<Longrightarrow> unheard r (record_events es r)"
  by (auto simp: unheard_def record_events_def present_def)

lemma present_membership: "membership r' = membership r \<Longrightarrow> present r' sid = present r sid"
  by (simp add: present_def membership_def)

lemma quiet_answers:
  "\<not> list_ex announcing (map (\<lambda>(t, x). Diff_answer t x) as1)" "\<not> list_ex announcing (map (\<lambda>(t, x). Allowlist_answer t x) as2)"
  "\<not> list_ex announcing (map (\<lambda>(t, x). Policy_answer t x) as3)" "\<not> list_ex announcing (map (\<lambda>(t, x). Spawn_answer t x) as4)"
  "\<not> list_ex announcing (copies env draw payload c conn xs)"
  by (auto simp: list_ex_iff copies_def)

lemma listeners_keep [simp]:
  "rg_presenceListeners (record_events es r) = rg_presenceListeners r" "rg_presenceListeners (upd_conn c f r) = rg_presenceListeners r"
  "rg_presenceListeners (emitPresence sid live r) = rg_presenceListeners r"
  "rg_presenceListeners (disown sid r) = rg_presenceListeners r" "rg_presenceListeners (claim env c sid r) = rg_presenceListeners r"
  "rg_presenceListeners (diff_answers x1 r) = rg_presenceListeners r" "rg_presenceListeners (allowlist_answers x2 r) = rg_presenceListeners r"
  "rg_presenceListeners (policy_answers x3 r) = rg_presenceListeners r" "rg_presenceListeners (spawn_answers x4 r) = rg_presenceListeners r"
  by (simp_all add: record_events_def upd_conn_def emitPresence_def disown_def startGrace_def claim_def Let_def answer_defs)

lemma fan_out_listeners [simp]: "rg_presenceListeners (fanOutPolicyMutation env draw payload except r) = rg_presenceListeners r"
proof -
  have "rg_presenceListeners (foldl (\<lambda>r (k, l, c). if c = except then r else if channel_error env (rg_conn r c) \<noteq> None then r
        else snd (link_send env (cn_link (rg_conn r c)) (policy_frame (draw (Suc k)) (rg_conn r c) payload [(js ''persist'', JBool False)]) r))
      r xs) = rg_presenceListeners r" for xs
    by (induction xs arbitrary: r) (auto simp: link_send_def)
  then show ?thesis by (simp add: fanOutPolicyMutation_def)
qed

lemma unheardI:
  "membership r' = membership r \<Longrightarrow> rg_presenceListeners r' = rg_presenceListeners r \<Longrightarrow> rg_log r' = rg_log r @ es
    \<Longrightarrow> \<not> list_ex announcing es \<Longrightarrow> unheard r r'"
  using present_membership [of r' r] by (auto simp: unheard_def)

lemma unheard_policy: "unheard r (relayPolicyVia env draw t c pop params r)"
proof -
  obtain as where log: "rg_log (relayPolicyVia env draw t c pop params r) = rg_log r @
    (if channel_error env (rg_conn r c) = None \<and> en_send env (cn_link (rg_conn r c)) then
       Sent (cn_link (rg_conn r c)) (policy_frame (draw 0) (rg_conn r c) (policy_payload pop params) [])
       # (if pop = Op_set \<or> pop = Op_unset
          then copies env draw (policy_payload pop params) c (rg_conn r) (enumerate 0 (rg_conns r)) else [])
     else map (\<lambda>(t, x). Policy_answer t x) as)"
    using relayPolicyVia_log [of env draw t c pop params r] by blast
  have "rg_presenceListeners (relayPolicyVia env draw t c pop params r) = rg_presenceListeners r"
    by (simp add: relayPolicyVia_def Let_def link_send_def split: option.split)
  then show ?thesis by (rule unheardI [OF membership_relays(6) _ log]) (simp add: quiet_answers)
qed

lemma unheard_answers_all:
  "unheard r (diff_answers x1 r)" "unheard r (allowlist_answers x2 r)" "unheard r (policy_answers x3 r)" "unheard r (spawn_answers x4 r)"
  by (rule unheardI [OF membership_record(8) _ log_grows(6)], simp, simp add: quiet_answers)
     (rule unheardI [OF membership_record(9) _ log_grows(7)], simp, simp add: quiet_answers,
      rule unheardI [OF membership_record(10) _ log_grows(8)], simp, simp add: quiet_answers,
      rule unheardI [OF membership_record(11) _ log_grows(9)], simp, simp add: quiet_answers)

lemma unheard_trip_fields:
  "unheard r (r\<lparr>rg_diffs := d\<rparr>)" "unheard r (r\<lparr>rg_allowlist := a\<rparr>)" "unheard r (r\<lparr>rg_policy := p\<rparr>)" "unheard r (r\<lparr>rg_spawn := s\<rparr>)"
  by (auto intro!: unheardI [of _ _ "[]"])

lemma unheard_send: "unheard r (snd (link_send env l f r))"
  by (simp add: link_send_def unheard_record)

lemma unheard_requests:
  "unheard r (snd (relay_to env sid msg r))"
  "unheard r (requestDiff env i t sid r)" "unheard r (requestAllowlist env i t sid opn sg scope r)"
  "unheard r (requestCodexSpawnByDaemon env i t d prompt cwd sc r)"
  "unheard r (requestPolicy env draw t sid pop params r)" "unheard r (requestPolicyByDaemon env draw t d pop params r)"
  by (simp_all add: relay_to_def requestDiff_def requestAllowlist_def requestCodexSpawnByDaemon_def Let_def link_send_def unheard_record
      requestPolicy_def requestPolicyByDaemon_def unheard_policy split: option.split)
     (auto intro!: unheard_trans [OF _ unheard_answers_all(1)] unheard_trans [OF _ unheard_answers_all(2)]
        unheard_trans [OF _ unheard_answers_all(4)] unheard_trans [OF _ unheard_record] unheard_trip_fields)

lemma unheard_answers:
  "unheard r (diff_times_out t r)" "unheard r (allowlist_times_out t r)" "unheard r (policy_times_out t r)" "unheard r (spawn_times_out t r)"
  "unheard r (resolveDiff frame r)" "unheard r (resolveAllowlist frame r)" "unheard r (resolvePolicy frame r)" "unheard r (resolveCodexSpawn frame r)"
  by (simp_all add: diff_times_out_def allowlist_times_out_def policy_times_out_def spawn_times_out_def resolveDiff_def
      resolveAllowlist_def resolvePolicy_def resolveCodexSpawn_def unheard_answers_all split: option.split)

section \<open>Membership\<close>

lemma unheard_upd: "unheard r (upd_conn c f r)"
  by (auto simp: unheard_def upd_conn_def present_def)

lemma unheard_disown: "map_of (rg_sessionOwner r) sid = Some c \<Longrightarrow> unheard r (disown sid r)"
  by (auto simp: unheard_def present_def delete_conv')

lemma unheard_release: "unheard r (releaseSession c sid r)"
proof (cases "map_of (rg_sessionOwner r) sid = Some c")
  case True
  then show ?thesis
    by (auto simp: releaseSession_def intro!: unheard_trans [OF unheard_upd unheard_disown])
qed (simp add: releaseSession_def)

lemma unheard_foldl: "(\<And>r x. unheard r (g r x)) \<Longrightarrow> unheard r (foldl g r xs)"
  by (induction xs arbitrary: r) (auto intro: unheard_trans)

lemma unheard_remove: "unheard r (registry_remove link r)"
proof (cases "map_of (rg_conns r) link")
  case (Some c)
  have "unheard r (disown_all c r sids)" for sids
    unfolding disown_all_def by (rule unheard_foldl) (simp add: unheard_disown)
  then show ?thesis using Some by (auto simp: remove_eq unheard_def present_def)
qed (simp add: remove_eq)

lemma unheard_misc:
  "unheard r (registry_add d l r)" "unheard r (onApprovalReconcile cb r)"
  "unheard r (maybeEmitApprovalReconcile now c declared r)"
  by (auto simp: unheard_def registry_add_def onApprovalReconcile_def maybeEmitApprovalReconcile_def Let_def present_def
      record_events_def list_ex_iff split: option.split)

lemma claim_inv:
  assumes "presence_inv cb r" "en_open env (cn_link (rg_conn r c))"
  shows "presence_inv cb (claim env c sid r)"
proof -
  have "rg_log (claim env c sid r) = rg_log r @ (if isLive env sid r then [] else [Presence cb sid True])"
    using assms by (simp add: claim_def Let_def emitPresence_def record_events_def upd_conn_def presence_inv_def)
  then have t: "told cb x (rg_log (claim env c sid r)) = (if x = sid \<and> \<not> isLive env sid r then True else told cb x (rg_log r))" for x
    by (simp add: told_append)
  moreover have "present (claim env c sid r) x \<longleftrightarrow> x = sid \<or> present r x" for x
    by (auto simp: present_def update_conv')
  moreover have "isLive env sid r \<Longrightarrow> present r sid"
    by (auto simp: isLive_def present_def split: if_splits option.splits)
  ultimately show ?thesis
    using assms(1) by (auto simp: presence_inv_def)
qed

lemma claims_inv:
  assumes "presence_inv cb r" "en_open env (cn_link (rg_conn r c))"
  shows "presence_inv cb (foldl (\<lambda>r sid. claim env c sid r) r sids)"
  using assms by (induction sids arbitrary: r) (simp_all add: claim_inv)

lemma grace_inv:
  assumes "presence_inv cb r" "registry_wf r"
  shows "presence_inv cb (grace_expires env sid r)"
proof (cases "sid \<in> set (rg_graceTimers r)")
  case True
  then have o: "map_of (rg_sessionOwner r) sid = None"
    using wf_owner [OF assms(2)] by (cases "map_of (rg_sessionOwner r) sid") auto
  then have eq: "grace_expires env sid r = emitPresence sid False (r\<lparr>rg_graceTimers := removeAll sid (rg_graceTimers r)\<rparr>)"
    using True by (simp add: grace_expires_def Let_def isLive_def)
  have "told cb x (rg_log (grace_expires env sid r)) = (if x = sid then False else told cb x (rg_log r))" for x
    using assms(1) by (simp add: eq emitPresence_def record_events_def presence_inv_def told_append)
  moreover have "present (grace_expires env sid r) x \<longleftrightarrow> x \<noteq> sid \<and> present r x" for x
    using o by (auto simp: eq emitPresence_def record_events_def present_def)
  moreover have "rg_presenceListeners (grace_expires env sid r) = rg_presenceListeners r"
    by (simp add: eq)
  ultimately show ?thesis using assms(1) by (auto simp: presence_inv_def)
qed (simp add: grace_expires_def assms(1))

lemma hello_inv:
  assumes "presence_inv cb r" "registry_wf r" "en_open env link"
  shows "presence_inv cb (snd (handleHello env now link frame r))"
proof (cases "map_of (rg_conns r) link")
  case (Some c)
  let ?r1 = "upd_conn c (record_hello frame) r"
  let ?ids = "hello_sessions (js_get frame (js ''session_ids''))"
  have l: "cn_link (rg_conn r c) = link" using wf_parts(3) [OF assms(2)] Some by (blast dest: map_of_SomeD)
  have 1: "presence_inv cb ?r1" by (rule unheard_inv [OF assms(1) unheard_upd])
  have 2: "presence_inv cb (hello_membership env c ?ids ?r1)"
  proof (cases ?ids)
    case (Some nxt)
    let ?r2 = "foldl (\<lambda>r sid. claim env c sid r) ?r1 nxt"
    have "presence_inv cb ?r2" using claims_inv [OF 1] l assms(3) by simp
    moreover have "unheard ?r2 (foldl (\<lambda>r sid. if sid \<in> set nxt then r else releaseSession c sid r) ?r2 xs)" for xs
      by (rule unheard_foldl) (simp add: unheard_release)
    ultimately show ?thesis
      using Some unheard_inv by (auto simp: hello_membership_def Let_def)
  qed (simp add: hello_membership_def 1)
  then have "presence_inv cb (case parseRuntimeEpoch (js_get frame (js ''runtime_epoch'')) of
      Some e \<Rightarrow> upd_conn c (\<lambda>conn. conn\<lparr>cn_runtimeEpoch := Some e\<rparr>) (hello_membership env c ?ids ?r1)
    | None \<Rightarrow> hello_membership env c ?ids ?r1)"
    using unheard_inv [OF 2 unheard_upd] by (simp split: option.split)
  then show ?thesis
    using Some unheard_inv [OF _ unheard_misc(3)] by (simp add: handleHello_def Let_def)
qed (simp add: handleHello_def assms(1))

lemma observe_inv:
  assumes "presence_inv cb r" "registry_wf r" "en_open env link"
  shows "presence_inv cb (observeSession env link sid r)"
proof (cases "map_of (rg_conns r) link")
  case (Some c)
  then have "cn_link (rg_conn r c) = link" using wf_parts(3) [OF assms(2)] by (blast dest: map_of_SomeD)
  then show ?thesis using claim_inv [OF assms(1)] assms(3) Some by (simp add: observeSession_def)
qed (simp add: observeSession_def assms(1))

section \<open>Properties\<close>

text \<open>Frames are handled while the socket they came from is open; nobody else subscribes and nothing shuts down.\<close>

fun orderly :: "link_env \<times> registry_op \<Rightarrow> bool" where
  "orderly (env, Hello now l frame) = en_open env l"
| "orderly (env, Observe l sid) = en_open env l"
| "orderly (env, On_presence cb) = False"
| "orderly (env, Dispose) = False"
| "orderly _ = True"

lemma presence_step:
  assumes "presence_inv cb r" "registry_wf r" "orderly x"
  shows "presence_inv cb (registry_step r x)"
proof -
  obtain env y where x: "x = (env, y)" by (cases x)
  show ?thesis
  proof (cases y)
    case (Relay_approval relay)
    then show ?thesis using unheard_inv [OF assms(1) unheard_requests(1)] by (simp add: x relayApproval_def)
  next
    case (Relay_interrupt sid)
    then show ?thesis using unheard_inv [OF assms(1) unheard_requests(1)] by (simp add: x relayInterrupt_def)
  qed (use assms(3) hello_inv [OF assms(1,2)] observe_inv [OF assms(1,2)] grace_inv [OF assms(1,2)]
       in \<open>simp_all add: x unheard_inv [OF assms(1)] unheard_requests unheard_answers unheard_misc unheard_remove\<close>)
qed

lemma presence_run:
  "presence_inv cb r \<Longrightarrow> registry_wf r \<Longrightarrow> list_all orderly ops \<Longrightarrow> presence_inv cb (foldl registry_step r ops)"
  by (induction ops arbitrary: r) (simp_all add: presence_step wf_step)

lemma present_iff:
  "present r sid \<longleftrightarrow> isLive env sid r \<or> (\<exists>c. map_of (rg_sessionOwner r) sid = Some c \<and> \<not> en_open env (cn_link (rg_conn r c)))"
  by (auto simp: present_def isLive_def split: option.splits)

lemma presence_start: "presence_inv cb (onPresenceChange cb registry_new)" "registry_wf (onPresenceChange cb registry_new)"
  by (simp_all add: presence_inv_def onPresenceChange_def registry_new_def told_def present_def registry_wf_def)

text \<open>
  C24. A listener is always told the truth about presence. A listener that subscribed at the start
  was last told that a session is present if and only if the session is live, or its owner's socket
  is closing and the close has not been handled yet; through disconnects, the grace period,
  reconnects, releases and changes of ownership, provided that frames are handled while the socket
  they came from is open.
\<close>

theorem presence_exact:
  assumes "list_all orderly ops"
  shows "told cb sid (rg_log (foldl registry_step (onPresenceChange cb registry_new) ops)) \<longleftrightarrow>
    isLive env sid (foldl registry_step (onPresenceChange cb registry_new) ops)
    \<or> (\<exists>c. map_of (rg_sessionOwner (foldl registry_step (onPresenceChange cb registry_new) ops)) sid = Some c
         \<and> \<not> en_open env (cn_link (rg_conn (foldl registry_step (onPresenceChange cb registry_new) ops) c)))"
  using presence_run [OF presence_start(1) presence_start(2) assms, of cb] by (simp only: presence_inv_def present_iff)

theorem presence_exact_witness:
  "told 0 [9] (rg_log (foldl registry_step (onPresenceChange 0 registry_new) sample_ops)) \<longleftrightarrow>
    isLive sample_env [9] (foldl registry_step (onPresenceChange 0 registry_new) sample_ops)
    \<or> (\<exists>c. map_of (rg_sessionOwner (foldl registry_step (onPresenceChange 0 registry_new) sample_ops)) [9] = Some c
         \<and> \<not> en_open sample_env (cn_link (rg_conn (foldl registry_step (onPresenceChange 0 registry_new) sample_ops) c)))"
  by (rule presence_exact) (simp add: sample_ops_def sample_env_def)

text \<open>
  The proviso is needed. An event whose storage is awaited is attributed to its session after the
  await: when the socket is closing by then, the session is claimed without an announcement, the
  close puts it into grace, and a reconnect within the grace period finds it live already. The
  session is then live for good and no listener was ever told.
\<close>

lemma unannounced_session:
  defines "shut \<equiv> \<lparr>en_open = (\<lambda>l. l \<noteq> 11), en_send = (\<lambda>_. True)\<rparr>"
  defines "r \<equiv> foldl registry_step (onPresenceChange 0 registry_new)
    [(sample_env, Connect [100] 11), (shut, Observe 11 [9]), (shut, Disconnect 11), (shut, Connect [101] 12), (shut, Observe 12 [9])]"
  shows "isLive shut [9] r \<and> rg_log r = []"
  by (simp add: r_def shut_def onPresenceChange_def registry_new_def registry_add_def observeSession_def claim_def isLive_def
      upd_conn_def set_add_def registry_remove_def disown_def startGrace_def Let_def)

end
