(* ===== verification/Approval_Reconciler.thy ===== *)
theory Approval_Reconciler
  imports Presence_Correct Timestamps Projection_Correct Approval_Bridge
begin

text \<open>
  The reconciler (\<^verbatim>\<open>apps/backend/src/approval-reconciler.ts\<close>): after a sidecar has restarted, approvals
  that only the database still knows are retired by a synthetic cancel. A run of \<^verbatim>\<open>reconcile\<close> is cut
  at its two awaits, the read of the database and the ingestion of one cancel; the runs in progress
  are the threads of the state, so every interleaving of runs is a sequence of steps.
\<close>

section \<open>Data\<close>

definition RECONCILE_WATERMARK_MS :: rat where
  "RECONCILE_WATERMARK_MS = 2000"

definition MAX_CONCURRENT_RECONCILES :: nat where
  "MAX_CONCURRENT_RECONCILES = 4"

definition SYNTHETIC_RETIRE_ORIGIN :: string where
  "SYNTHETIC_RETIRE_ORIGIN = ''relay_lost''"

definition isSyntheticRetireOrigin :: "jsval \<Rightarrow> bool" where
  "isSyntheticRetireOrigin v \<longleftrightarrow> v = JStr (js SYNTHETIC_RETIRE_ORIGIN)"

record ReconcileRow =
  rw_session_id :: jstring
  rw_provider :: jstring
  rw_state :: "jstring option"
  rw_requests :: "(jstring \<times> jstring) list" \<comment> \<open>request id and time of request\<close>

text \<open>A row of \<^verbatim>\<open>session_state\<close> joined with its session; the column of pending approvals is an array.\<close>

record SessionStateRow =
  db_session_id :: jstring
  db_state :: "jstring option"
  db_pending_approvals :: "jsval list"
  db_provider :: jstring

definition pendingApprovalsForSessions :: "SessionStateRow list \<Rightarrow> jstring list \<Rightarrow> ReconcileRow list" where
  "pendingApprovalsForSessions table sessionIds =
    (if sessionIds = [] then []
     else map (\<lambda>r. \<lparr>rw_session_id = db_session_id r, rw_provider = db_provider r, rw_state = db_state r,
                rw_requests = map (\<lambda>p. (pa_request_id p, pa_requested_at p)) (parsePendingApprovals (JArr (db_pending_approvals r)))\<rparr>)
            (filter (\<lambda>r. db_session_id r \<in> set sessionIds \<and> length (db_pending_approvals r) > 0) table))"

text \<open>The label of the summary, in Japanese in the source, by its code units.\<close>

definition cancel_summary :: jstring where
  "cancel_summary = [25215, 35469, 32, 21462, 28040, 32, 40, 20013, 32153, 21930, 22833, 41]"

definition buildSyntheticApprovalCancel :: "jstring \<Rightarrow> ReconcileRow \<Rightarrow> jstring \<Rightarrow> jstring \<Rightarrow> jsval" where
  "buildSyntheticApprovalCancel eventId row requestId timestamp = JObj
    [(js ''event_id'', JStr eventId),
     (js ''provider'', JStr (rw_provider row)),
     (js ''source'', JStr (js ''external'')),
     (js ''session_id'', JStr (rw_session_id row)),
     (js ''event_type'', JStr (js ''tool.permission.resolved'')),
     (js ''state'', JStr (case rw_state row of Some s \<Rightarrow> s | None \<Rightarrow> js ''running.model_wait'')),
     (js ''timestamp'', JStr timestamp),
     (js ''summary'', JStr cancel_summary),
     (js ''payload'', JObj
       [(js ''kind'', JStr (js ''tool.permission.resolved'')),
        (js ''request_id'', JStr requestId),
        (js ''decision'', JStr (js ''cancel'')),
        (js ''resolution_origin'', JStr (js SYNTHETIC_RETIRE_ORIGIN)),
        (js ''delivery_status'', JStr (js ''not_sent''))])]"

section \<open>The reconciler\<close>

datatype ReconcileThread =
    Reading ApprovalReconcileSignal
  | Ingesting ApprovalReconcileSignal jstring "(ReconcileRow \<times> jstring \<times> jstring) list"

text \<open>The threads are numbered in the order they start; what was handed to the ingestion is logged.\<close>

record ApprovalReconciler =
  rc_inFlight :: "jstring list"
  rc_running :: nat
  rc_nonRetirableSkips :: nat
  rc_threads :: "(nat \<times> ReconcileThread) list"
  rc_started :: nat
  rc_ingested :: "(ApprovalReconcileSignal \<times> jsval) list"

definition reconciler_new :: ApprovalReconciler where
  "reconciler_new = \<lparr>rc_inFlight = [], rc_running = 0, rc_nonRetirableSkips = 0, rc_threads = [], rc_started = 0, rc_ingested = []\<rparr>"

definition inFlightCount :: "ApprovalReconciler \<Rightarrow> nat" where
  "inFlightCount rc = length (rc_inFlight rc)"

text \<open>
  What a step takes from outside: fresh event identifiers, the clock, and the schema check
  of a payload.
\<close>

record reconcile_env =
  re_newEventId :: jstring
  re_now :: jstring
  re_payload_ok :: "jsval \<Rightarrow> bool"

definition reconcile_watermark :: "ApprovalReconcileSignal \<Rightarrow> jsnum" where
  "reconcile_watermark signal = JFin (rs_receivedAt signal - RECONCILE_WATERMARK_MS)"

text \<open>The body of the two loops, up to the next await or to the end of the run.\<close>

fun reconcile_scan ::
  "reconcile_env \<Rightarrow> nat \<Rightarrow> ApprovalReconcileSignal \<Rightarrow> (ReconcileRow \<times> jstring \<times> jstring) list \<Rightarrow> ApprovalReconciler \<Rightarrow> ApprovalReconciler" where
  "reconcile_scan env t signal [] rc =
    rc\<lparr>rc_running := rc_running rc - 1, rc_threads := AList.delete t (rc_threads rc)\<rparr>"
| "reconcile_scan env t signal ((row, requestId, requestedAt) # rest) rc =
    (if requestId \<in> rs_activeRequestIds signal then reconcile_scan env t signal rest rc
     else if \<not> isRetirableApprovalRequestId requestId
     then reconcile_scan env t signal rest (rc\<lparr>rc_nonRetirableSkips := rc_nonRetirableSkips rc + 1\<rparr>)
     else if \<not> jsnum_less (date_parse requestedAt) (reconcile_watermark signal) then reconcile_scan env t signal rest rc
     else if requestId \<in> set (rc_inFlight rc) then reconcile_scan env t signal rest rc
     else
       (let synthetic = buildSyntheticApprovalCancel (re_newEventId env) row requestId (re_now env) in
        if \<not> re_payload_ok env (js_get synthetic (js ''payload'')) then reconcile_scan env t signal rest rc
        else rc\<lparr>rc_inFlight := set_add requestId (rc_inFlight rc),
                rc_threads := AList.update t (Ingesting signal requestId rest) (rc_threads rc),
                rc_ingested := rc_ingested rc @ [(signal, synthetic)]\<rparr>))"

definition reconcile_items :: "ReconcileRow list \<Rightarrow> (ReconcileRow \<times> jstring \<times> jstring) list" where
  "reconcile_items rows = concat (map (\<lambda>row. map (Pair row) (rw_requests row)) rows)"

definition reconcile :: "ApprovalReconcileSignal \<Rightarrow> ApprovalReconciler \<Rightarrow> ApprovalReconciler" where
  "reconcile signal rc =
    (if rc_running rc \<ge> MAX_CONCURRENT_RECONCILES then rc
     else rc\<lparr>rc_running := rc_running rc + 1, rc_started := rc_started rc + 1,
             rc_threads := AList.update (rc_started rc) (Reading signal) (rc_threads rc)\<rparr>)"

text \<open>The read has come back with the table as it is then, or has failed.\<close>

definition rows_arrive :: "reconcile_env \<Rightarrow> nat \<Rightarrow> SessionStateRow list option \<Rightarrow> ApprovalReconciler \<Rightarrow> ApprovalReconciler" where
  "rows_arrive env t table rc =
    (case map_of (rc_threads rc) t of
       Some (Reading signal) \<Rightarrow>
         reconcile_scan env t signal
           (case table of None \<Rightarrow> [] | Some tb \<Rightarrow> reconcile_items (pendingApprovalsForSessions tb (rs_sessionIds signal))) rc
     | _ \<Rightarrow> rc)"

text \<open>The ingestion has ended, with or without success.\<close>

definition ingest_done :: "reconcile_env \<Rightarrow> nat \<Rightarrow> ApprovalReconciler \<Rightarrow> ApprovalReconciler" where
  "ingest_done env t rc =
    (case map_of (rc_threads rc) t of
       Some (Ingesting signal requestId rest) \<Rightarrow>
         reconcile_scan env t signal rest (rc\<lparr>rc_inFlight := removeAll requestId (rc_inFlight rc)\<rparr>)
     | _ \<Rightarrow> rc)"

end
