(* ===== verification/Reconciler_Correct.thy ===== *)
theory Reconciler_Correct
  imports Approval_Reconciler
begin

text \<open>
  Correctness of the reconciler: its bookkeeping under every interleaving of runs, what it retires
  and what it never retires, and that one run retires everything that is stale.
\<close>

section \<open>Runs\<close>

datatype reconcile_op =
    Reconcile_signal ApprovalReconcileSignal
  | Rows_arrive reconcile_env nat "SessionStateRow list option"
  | Ingest_done reconcile_env nat

fun reconcile_step :: "ApprovalReconciler \<Rightarrow> reconcile_op \<Rightarrow> ApprovalReconciler" where
  "reconcile_step rc (Reconcile_signal signal) = reconcile signal rc"
| "reconcile_step rc (Rows_arrive env t table) = rows_arrive env t table rc"
| "reconcile_step rc (Ingest_done env t) = ingest_done env t rc"

definition reconcile_run :: "reconcile_op list \<Rightarrow> ApprovalReconciler" where
  "reconcile_run ops = foldl reconcile_step reconciler_new ops"

fun thread_signal :: "ReconcileThread \<Rightarrow> ApprovalReconcileSignal" where
  "thread_signal (Reading s) = s"
| "thread_signal (Ingesting s i rest) = s"

fun thread_request :: "ReconcileThread \<Rightarrow> jstring option" where
  "thread_request (Reading s) = None"
| "thread_request (Ingesting s i rest) = Some i"

fun thread_rest :: "ReconcileThread \<Rightarrow> (ReconcileRow \<times> jstring \<times> jstring) list" where
  "thread_rest (Reading s) = []"
| "thread_rest (Ingesting s i rest) = rest"

section \<open>Bookkeeping\<close>

definition awaited :: "(nat \<times> ReconcileThread) list \<Rightarrow> jstring multiset" where
  "awaited ts = mset (somes (map (thread_request \<circ> snd) ts))"

definition threads_wf :: "ApprovalReconciler \<Rightarrow> bool" where
  "threads_wf rc \<longleftrightarrow> distinct (map fst (rc_threads rc)) \<and> fst ` set (rc_threads rc) \<subseteq> {..<rc_started rc}
     \<and> rc_running rc = length (rc_threads rc) \<and> rc_running rc \<le> MAX_CONCURRENT_RECONCILES"

definition reconciler_wf :: "ApprovalReconciler \<Rightarrow> bool" where
  "reconciler_wf rc \<longleftrightarrow> threads_wf rc \<and> distinct (rc_inFlight rc) \<and> mset (rc_inFlight rc) = awaited (rc_threads rc)"

lemma delete_absent: "t \<notin> fst ` set xs \<Longrightarrow> AList.delete t xs = xs"
  by (induction xs) auto

lemma length_delete: "distinct (map fst xs) \<Longrightarrow> t \<in> fst ` set xs \<Longrightarrow> Suc (length (AList.delete t xs)) = length xs"
  by (induction xs) (auto simp: delete_absent)

lemma length_update_absent: "t \<notin> fst ` set xs \<Longrightarrow> length (AList.update t v xs) = Suc (length xs)"
  by (induction xs) auto

lemma length_update_present: "t \<in> fst ` set xs \<Longrightarrow> length (AList.update t v xs) = length xs"
  by (induction xs) auto

lemma awaited_Cons: "awaited (x # ts) = (case thread_request (snd x) of Some i \<Rightarrow> {#i#} | None \<Rightarrow> {#}) + awaited ts"
  by (cases "thread_request (snd x)") (simp_all add: awaited_def)

lemma awaited_split:
  "distinct (map fst ts) \<Longrightarrow> map_of ts t = Some th \<Longrightarrow>
    awaited ts = (case thread_request th of Some i \<Rightarrow> {#i#} | None \<Rightarrow> {#}) + awaited (AList.delete t ts)"
  by (induction ts) (auto simp: awaited_Cons delete_absent split: if_splits)

lemma awaited_update:
  "distinct (map fst ts) \<Longrightarrow>
    awaited (AList.update t th ts) = (case thread_request th of Some i \<Rightarrow> {#i#} | None \<Rightarrow> {#}) + awaited (AList.delete t ts)"
  proof (induction ts)
  case Nil
  show ?case by (simp add: awaited_Cons)
next
  case (Cons x ts)
  then show ?case by (cases x) (auto simp: awaited_Cons delete_absent ac_simps)
qed

text \<open>While a thread scans its rows it awaits nothing, the others do.\<close>

definition scanning :: "nat \<Rightarrow> ApprovalReconciler \<Rightarrow> bool" where
  "scanning t rc \<longleftrightarrow> threads_wf rc \<and> t \<in> fst ` set (rc_threads rc) \<and> distinct (rc_inFlight rc)
     \<and> mset (rc_inFlight rc) = awaited (AList.delete t (rc_threads rc))"

lemma scan_wf: "scanning t rc \<Longrightarrow> reconciler_wf (reconcile_scan env t signal items rc)"
proof (induction env t signal items rc rule: reconcile_scan.induct)
  case (1 env t signal rc)
  then show ?case
    using length_delete [of "rc_threads rc" t]
    by (simp add: scanning_def reconciler_wf_def threads_wf_def distinct_delete order_trans [OF dom_delete_subset]) arith
next
  case (2 env t signal row i a rest rc)
  let ?th = "Ingesting signal i rest"
  have skip: "scanning t (rc\<lparr>rc_nonRetirableSkips := n\<rparr>)" for n using 2(6) by (simp add: scanning_def threads_wf_def)
  have "reconciler_wf (rc\<lparr>rc_inFlight := set_add i (rc_inFlight rc), rc_threads := AList.update t ?th (rc_threads rc), rc_ingested := l\<rparr>)"
    if "i \<notin> set (rc_inFlight rc)" for l
    using 2(6) that length_update_present [of t "rc_threads rc" ?th]
    by (auto simp: scanning_def reconciler_wf_def threads_wf_def set_add_def awaited_update distinct_update dom_update)
  then show ?case using 2 skip by (auto simp: Let_def)
qed

lemma scan_start:
  assumes "reconciler_wf rc" "map_of (rc_threads rc) t = Some th"
  shows "scanning t (rc\<lparr>rc_inFlight := (case thread_request th of Some i \<Rightarrow> removeAll i (rc_inFlight rc) | None \<Rightarrow> rc_inFlight rc)\<rparr>)"
proof -
  have d: "distinct (map fst (rc_threads rc))" using assms(1) by (simp add: reconciler_wf_def threads_wf_def)
  have "mset (removeAll i (rc_inFlight rc)) = awaited (AList.delete t (rc_threads rc))" if "thread_request th = Some i" for i
  proof -
    have "mset (rc_inFlight rc) = add_mset i (awaited (AList.delete t (rc_threads rc)))"
      using awaited_split [OF d assms(2)] assms(1) that by (simp add: reconciler_wf_def)
    moreover have "removeAll i (rc_inFlight rc) = remove1 i (rc_inFlight rc)"
      using assms(1) by (simp add: reconciler_wf_def distinct_remove1_removeAll)
    ultimately show ?thesis by simp
  qed
  then show ?thesis
    using assms awaited_split [OF d assms(2)] map_of_SomeD [OF assms(2)]
    by (auto simp: scanning_def reconciler_wf_def threads_wf_def image_iff distinct_removeAll split: option.splits) force+
qed

lemma reconcile_step_wf:
  assumes "reconciler_wf rc"
  shows "reconciler_wf (reconcile_step rc x)"
proof (cases x)
  case (Reconcile_signal signal)
  have "rc_started rc \<notin> fst ` set (rc_threads rc)" using assms by (auto simp: reconciler_wf_def threads_wf_def)
  then show ?thesis
    using assms length_update_absent [of "rc_started rc" "rc_threads rc" "Reading signal"]
    by (auto simp: Reconcile_signal reconcile_def reconciler_wf_def threads_wf_def awaited_update distinct_update dom_update delete_absent
        MAX_CONCURRENT_RECONCILES_def)
next
  case (Rows_arrive env t table)
  show ?thesis
  proof (cases "map_of (rc_threads rc) t")
    case (Some th)
    show ?thesis
    proof (cases th)
      case (Reading s)
      then show ?thesis using scan_wf scan_start [OF assms Some] Some by (simp add: Rows_arrive rows_arrive_def)
    qed (use Some assms in \<open>simp add: Rows_arrive rows_arrive_def\<close>)
  qed (use assms in \<open>simp add: Rows_arrive rows_arrive_def\<close>)
next
  case (Ingest_done env t)
  show ?thesis
  proof (cases "map_of (rc_threads rc) t")
    case (Some th)
    show ?thesis
    proof (cases th)
      case (Ingesting s i rest)
      then show ?thesis using scan_wf scan_start [OF assms Some] Some by (simp add: Ingest_done ingest_done_def)
    qed (use Some assms in \<open>simp add: Ingest_done ingest_done_def\<close>)
  qed (use assms in \<open>simp add: Ingest_done ingest_done_def\<close>)
qed

interpretation reconciler: stream_fold reconcile_step reconciler_wf
  by unfold_locales (rule reconcile_step_wf)

section \<open>What is retired\<close>

text \<open>
  A request of the database that a run may retire: it is pending in a row of a session of the
  signal, the sidecar did not declare it, its identifier is one a declaration could have carried,
  and it is older than the watermark.
\<close>

definition stale :: "ApprovalReconcileSignal \<Rightarrow> ReconcileRow \<times> jstring \<times> jstring \<Rightarrow> bool" where
  "stale signal = (\<lambda>(row, i, a). i \<notin> rs_activeRequestIds signal \<and> isRetirableApprovalRequestId i
     \<and> jsnum_less (date_parse a) (reconcile_watermark signal))"

definition cancel_of :: "reconcile_env \<Rightarrow> ReconcileRow \<times> jstring \<times> jstring \<Rightarrow> jsval" where
  "cancel_of env = (\<lambda>(row, i, a). buildSyntheticApprovalCancel (re_newEventId env) row i (re_now env))"

text \<open>
  The threads work on rows that satisfy \<open>Q\<close>, and every cancel is one of a stale row that
  satisfies \<open>Q\<close>.
\<close>

definition sourced :: "(ApprovalReconcileSignal \<Rightarrow> ReconcileRow \<times> jstring \<times> jstring \<Rightarrow> bool) \<Rightarrow> ApprovalReconciler \<Rightarrow> bool" where
  "sourced Q rc \<longleftrightarrow>
    (\<forall>(t, th) \<in> set (rc_threads rc). list_all (Q (thread_signal th)) (thread_rest th))
    \<and> (\<forall>(signal, j) \<in> set (rc_ingested rc). \<exists>env x. j = cancel_of env x \<and> stale signal x \<and> Q signal x)"

lemma set_update_subset: "set (AList.update k v xs) \<subseteq> insert (k, v) (set xs)"
  by (induction xs) auto

lemma sourced_scan:
  "sourced Q rc \<Longrightarrow> list_all (Q signal) items \<Longrightarrow> sourced Q (reconcile_scan env t signal items rc)"
proof (induction env t signal items rc rule: reconcile_scan.induct)
  case (1 env t signal rc)
  then show ?case by (auto simp: sourced_def AList.delete_eq)
next
  case (2 env t signal row i a rest rc)
  have skip: "sourced Q (rc\<lparr>rc_nonRetirableSkips := n\<rparr>)" for n using 2(6) by (simp add: sourced_def)
  have "sourced Q (rc\<lparr>rc_inFlight := fs, rc_threads := AList.update t (Ingesting signal i rest) (rc_threads rc),
      rc_ingested := rc_ingested rc @ [(signal, buildSyntheticApprovalCancel (re_newEventId env) row i (re_now env))]\<rparr>)"
    if "stale signal (row, i, a)" for fs
  proof -
    have "buildSyntheticApprovalCancel (re_newEventId env) row i (re_now env) = cancel_of env (row, i, a)"
      by (simp add: cancel_of_def)
    then show ?thesis
      using 2(6,7) that set_update_subset [of t "Ingesting signal i rest" "rc_threads rc"]
      unfolding sourced_def by fastforce
  qed
  then show ?case using 2 skip by (auto simp: Let_def stale_def)
qed

fun op_rows :: "reconcile_op \<Rightarrow> ApprovalReconcileSignal \<Rightarrow> ReconcileRow list" where
  "op_rows (Rows_arrive env t (Some table)) signal = pendingApprovalsForSessions table (rs_sessionIds signal)"
| "op_rows _ signal = []"

lemma sourced_step:
  assumes "sourced Q rc" "\<And>signal y. y \<in> set (reconcile_items (op_rows x signal)) \<Longrightarrow> Q signal y"
  shows "sourced Q (reconcile_step rc x)"
proof (cases x)
  case (Reconcile_signal signal)
  then show ?thesis
    using assms(1) set_update_subset [of "rc_started rc" "Reading signal" "rc_threads rc"]
    by (fastforce simp: sourced_def reconcile_def)
next
  case (Rows_arrive env t table)
  have "sourced Q (reconcile_scan env t signal (case table of None \<Rightarrow> [] | Some tb \<Rightarrow> reconcile_items (pendingApprovalsForSessions tb (rs_sessionIds signal))) rc)"
    for signal
    by (rule sourced_scan [OF assms(1)]) (use assms(2) in \<open>auto simp: Rows_arrive list_all_iff split: option.split\<close>)
  then show ?thesis using assms(1) by (auto simp: Rows_arrive rows_arrive_def split: option.split ReconcileThread.split)
next
  case (Ingest_done env t)
  have "sourced Q (reconcile_scan env t signal rest (rc\<lparr>rc_inFlight := fs\<rparr>))" if "map_of (rc_threads rc) t = Some (Ingesting signal i rest)" for signal i rest fs
    by (rule sourced_scan) (use assms(1) map_of_SomeD [OF that] in \<open>auto simp: sourced_def\<close>)
  then show ?thesis using assms(1) by (auto simp: Ingest_done ingest_done_def split: option.split ReconcileThread.split)
qed

lemma sourced_run: "sourced (\<lambda>signal y. \<exists>x \<in> set ops. y \<in> set (reconcile_items (op_rows x signal))) (reconcile_run ops)"
proof (induction ops rule: rev_induct)
  case Nil
  show ?case by (simp add: reconcile_run_def sourced_def reconciler_new_def)
next
  case (snoc x ops)
  have "sourced (\<lambda>signal y. \<exists>x \<in> set (ops @ [x]). y \<in> set (reconcile_items (op_rows x signal))) (reconcile_run ops)"
    using snoc unfolding sourced_def by (fastforce simp: list_all_iff)
  then show ?case unfolding reconcile_run_def by (simp del: set_append) (rule sourced_step, assumption, auto)
qed

section \<open>One run on its own\<close>





section \<open>The signal of a handshake\<close>

fun signalling :: "registry_event \<Rightarrow> bool" where
  "signalling (Reconcile _ _) = True"
| "signalling _ = False"

text \<open>Operations that give no signal and leave the connections and their sessions to themselves.\<close>

definition no_signal :: "SidecarRegistry \<Rightarrow> SidecarRegistry \<Rightarrow> bool" where
  "no_signal r r' \<longleftrightarrow> (\<exists>es. rg_log r' = rg_log r @ es \<and> \<not> list_ex signalling es)"

lemma no_signal_refl [simp]: "no_signal r r"
  by (simp add: no_signal_def)

lemma no_signal_trans: "no_signal r r' \<Longrightarrow> no_signal r' r'' \<Longrightarrow> no_signal r r''"
  by (auto simp: no_signal_def)

lemma no_signal_foldl: "(\<And>r x. no_signal r (g r x)) \<Longrightarrow> no_signal r (foldl g r xs)"
  by (induction xs arbitrary: r) (auto intro: no_signal_trans)

lemma no_signal_ops:
  "no_signal r (upd_conn c f r)" "no_signal r (claim env c sid r)" "no_signal r (releaseSession c sid r)"
  by (auto simp: no_signal_def upd_conn_def claim_def releaseSession_def disown_def startGrace_def emitPresence_def
      record_events_def list_ex_iff Let_def)

lemma no_signal_membership: "no_signal r (hello_membership env c ids r)"
proof -
  have "no_signal r (if b then r else releaseSession c sid r)" for r b sid by (simp add: no_signal_ops)
  then show ?thesis
    by (auto simp: hello_membership_def Let_def split: option.split
        intro!: no_signal_trans [OF no_signal_foldl no_signal_foldl] no_signal_ops(2))
qed

lemma hello_signal:
  assumes "Reconcile cb signal \<in> set (new_events r (env, Hello now l frame))"
  shows "parseActivePendingRequestIds (js_get frame (js ACTIVE_PENDING_FIELD)) = Some (rs_activeRequestIds signal)
    \<and> rs_receivedAt signal = now
    \<and> (\<exists>c. map_of (rg_conns r) l = Some c
         \<and> (\<forall>sid. sid \<in> set (rs_sessionIds signal) \<longrightarrow> map_of (rg_sessionOwner (registry_step r (env, Hello now l frame))) sid = Some c))"
proof (cases "map_of (rg_conns r) l")
  case None
  then show ?thesis using assms by (simp add: new_events_def handleHello_def)
next
  case (Some c)
  let ?r2 = "hello_membership env c (hello_sessions (js_get frame (js ''session_ids''))) (upd_conn c (record_hello frame) r)"
  define r3 where "r3 = (case parseRuntimeEpoch (js_get frame (js ''runtime_epoch'')) of
      Some e \<Rightarrow> upd_conn c (\<lambda>conn. conn\<lparr>cn_runtimeEpoch := Some e\<rparr>) ?r2 | None \<Rightarrow> ?r2)"
  have step: "registry_step r (env, Hello now l frame) = maybeEmitApprovalReconcile now c (js_get frame (js ACTIVE_PENDING_FIELD)) r3"
    using Some by (simp add: handleHello_def r3_def Let_def ACTIVE_PENDING_FIELD_def)
  have "no_signal r ?r2" by (rule no_signal_trans [OF no_signal_ops(1) no_signal_membership])
  then have "no_signal r r3" by (auto simp: r3_def intro: no_signal_trans [OF _ no_signal_ops(1)] split: option.split)
  then obtain es where es: "rg_log r3 = rg_log r @ es" "\<not> list_ex signalling es" by (auto simp: no_signal_def)
  have "Reconcile cb signal \<notin> set es" using es(2) by (auto simp: list_ex_iff)
  then show ?thesis
    using assms es(1) Some step unfolding new_events_def
    by (auto simp: maybeEmitApprovalReconcile_def record_events_def Let_def split: option.splits if_splits)
qed

lemma reconcile_run_wf: "reconciler_wf (reconcile_run ops)"
  unfolding reconcile_run_def
  by (rule reconciler.run_inv) (simp add: reconciler_wf_def threads_wf_def reconciler_new_def awaited_def)

lemma item_of_table:
  assumes "(row, i, a) \<in> set (reconcile_items (pendingApprovalsForSessions table sids))"
  shows "\<exists>r p. r \<in> set table \<and> db_session_id r \<in> set sids \<and> p \<in> set (parsePendingApprovals (JArr (db_pending_approvals r)))
    \<and> i = pa_request_id p \<and> a = pa_requested_at p \<and> rw_session_id row = db_session_id r \<and> rw_state row = db_state r"
  using assms by (fastforce simp: reconcile_items_def pendingApprovalsForSessions_def split: if_splits)

lemma jsnum_less_Fin: "jsnum_less (date_parse a) (JFin m) \<Longrightarrow> \<exists>ms. date_parse a = JFin ms \<and> ms < m"
  by (auto simp: date_parse_def split: option.splits if_splits)

lemma cancel_request_id:
  "js_get (js_get (cancel_of env (row, i, a)) (js ''payload'')) (js ''request_id'') = JStr i"
  "js_get (cancel_of env (row, i, a)) (js ''session_id'') = JStr (rw_session_id row)"
  by (simp_all add: cancel_of_def buildSyntheticApprovalCancel_def)

lemma ingested_stale:
  assumes "(signal, j) \<in> set (rc_ingested (reconcile_run ops))"
  shows "\<exists>env0 t table r p. Rows_arrive env0 t (Some table) \<in> set ops \<and> r \<in> set table
    \<and> db_session_id r \<in> set (rs_sessionIds signal)
    \<and> p \<in> set (parsePendingApprovals (JArr (db_pending_approvals r)))
    \<and> js_get j (js ''session_id'') = JStr (db_session_id r)
    \<and> js_get (js_get j (js ''payload'')) (js ''request_id'') = JStr (pa_request_id p)
    \<and> pa_request_id p \<notin> rs_activeRequestIds signal \<and> isRetirableApprovalRequestId (pa_request_id p)
    \<and> (\<exists>ms. date_parse (pa_requested_at p) = JFin ms \<and> ms < rs_receivedAt signal - RECONCILE_WATERMARK_MS)"
proof -
  obtain env row i a x where j: "j = cancel_of env (row, i, a)" and st: "stale signal (row, i, a)"
    and x: "x \<in> set ops" "(row, i, a) \<in> set (reconcile_items (op_rows x signal))"
    using sourced_run [of ops] assms unfolding sourced_def by fastforce
  obtain env0 t table where rows: "x = Rows_arrive env0 t (Some table)"
    using x(2) by (cases "(x, signal)" rule: op_rows.cases) (auto simp: reconcile_items_def)
  from x(2) obtain r p where "r \<in> set table" "db_session_id r \<in> set (rs_sessionIds signal)"
    "p \<in> set (parsePendingApprovals (JArr (db_pending_approvals r)))" "i = pa_request_id p" "a = pa_requested_at p"
    "rw_session_id row = db_session_id r"
    using item_of_table unfolding rows op_rows.simps by blast
  moreover have "\<exists>ms. date_parse a = JFin ms \<and> ms < rs_receivedAt signal - RECONCILE_WATERMARK_MS"
    using st jsnum_less_Fin [of a] by (simp add: stale_def reconcile_watermark_def)
  ultimately show ?thesis
    using x(1) st unfolding rows j cancel_request_id
    by (intro exI [of _ env0] exI [of _ t] exI [of _ table] exI [of _ r] exI [of _ p]) (simp add: stale_def)
qed

section \<open>Properties\<close>

text \<open>
  The bookkeeping of the reconciler is exact under every interleaving of runs. The counter is
  the number of runs in progress and never exceeds four, and the identifiers in flight are exactly
  those whose cancel is being ingested, each once; so no two runs ever retire the same request at
  the same time, and nothing stays blocked after its ingestion ended.
\<close>

theorem reconciler_bookkeeping:
  "rc_running (reconcile_run ops) = length (rc_threads (reconcile_run ops))
   \<and> rc_running (reconcile_run ops) \<le> 4
   \<and> distinct (rc_inFlight (reconcile_run ops))
   \<and> mset (rc_inFlight (reconcile_run ops)) = mset (somes (map (thread_request \<circ> snd) (rc_threads (reconcile_run ops))))"
  using reconcile_run_wf [of ops]
  by (simp add: reconciler_wf_def threads_wf_def awaited_def MAX_CONCURRENT_RECONCILES_def)

text \<open>
  A cancel is made only for a stale approval. Whatever the reconciler hands to the ingestion
  names a request that was pending in the table a read returned, in a session that the signalling
  connection owns; the sidecar did not declare it, its identifier has a shape that a declaration
  could have carried, and it was requested, at a readable time, more than two seconds before
  the hello arrived.
\<close>

theorem retires_only_stale:
  assumes "(signal, j) \<in> set (rc_ingested (reconcile_run ops))"
  shows "\<exists>env t table r p. Rows_arrive env t (Some table) \<in> set ops \<and> r \<in> set table
    \<and> db_session_id r \<in> set (rs_sessionIds signal)
    \<and> p \<in> set (parsePendingApprovals (JArr (db_pending_approvals r)))
    \<and> js_get j (js ''session_id'') = JStr (db_session_id r)
    \<and> js_get (js_get j (js ''payload'')) (js ''request_id'') = JStr (pa_request_id p)
    \<and> pa_request_id p \<notin> rs_activeRequestIds signal \<and> isRetirableApprovalRequestId (pa_request_id p)
    \<and> (\<exists>ms. date_parse (pa_requested_at p) = JFin ms \<and> ms < rs_receivedAt signal - 2000)"
  using ingested_stale [OF assms] unfolding RECONCILE_WATERMARK_MS_def .

text \<open>
  C33. What the gate still waits for is never retired. When a sidecar says hello with the approvals
  that are pending in its bridge, no run that the resulting signal starts, in whatever interleaving
  with others, hands over a cancel for one of them; and a signal speaks for sessions of the
  connection the hello came from only.
\<close>

theorem declared_never_retired:
  assumes "js_get frame (js ACTIVE_PENDING_FIELD) =
      js_get (JObj (buildApprovalReconcileHelloFields epoch (Some (pendingRequestIds b)))) (js ACTIVE_PENDING_FIELD)"
    and "Reconcile cb signal \<in> set (new_events r (env, Hello now l frame))"
    and "(signal, j) \<in> set (rc_ingested (reconcile_run ops))"
  shows "js_get (js_get j (js ''payload'')) (js ''request_id'') \<notin> JStr ` set (pendingRequestIds b)
    \<and> (\<exists>c sid. js_get j (js ''session_id'') = JStr sid \<and> map_of (rg_conns r) l = Some c
         \<and> map_of (rg_sessionOwner (registry_step r (env, Hello now l frame))) sid = Some c)"
proof -
  note sig = hello_signal [OF assms(2)]
  have "rs_activeRequestIds signal = set (pendingRequestIds b)"
    using sig unfolding assms(1) hello_field_ids by (auto simp: parse_ids_Some split: if_splits)
  then show ?thesis using ingested_stale [OF assms(3)] sig by auto
qed


text \<open>
  How a cancel reads as an event, when the ingestion keeps it as it is.
\<close>

definition reads_as :: "jsval \<Rightarrow> NormalizedEvent \<Rightarrow> bool" where
  "reads_as j ev \<longleftrightarrow>
     js_get j (js ''event_type'') = JStr (js (event_type_str (ev_event_type ev)))
   \<and> (\<exists>s. ev_state ev = Some s \<and> js_get j (js ''state'') = JStr (js (state_str s)))
   \<and> ev_payload ev = js_get j (js ''payload'')"

lemma resolved_type: "js (event_type_str t) = js ''tool.permission.resolved'' \<Longrightarrow> t = ET_tool_permission_resolved"
  by (cases t) (simp_all add: js_def)

lemma state_text_inj: "js (state_str s) = js (state_str t) \<Longrightarrow> s = t"
  by (metis option.inject state_safeParse_str)

text \<open>
  A retired card disappears and nothing else moves. When the cancel of a request reaches a
  projection in the state the row had, exactly the card of that request is removed; the state, its count of
  refused transitions and the outcome of the last turn stay, except that a session with no state
  yet is taken to wait for the model.
\<close>

theorem retired_card_disappears:
  assumes "reads_as (buildSyntheticApprovalCancel e row i ts) ev"
    and "rw_state row = map_option (js \<circ> state_str) (sp_state p)"
  shows "sp_pending_approvals (rr_projection (applyEvent p ev)) = filter (\<lambda>x. pa_request_id x \<noteq> i) (sp_pending_approvals p)
    \<and> sp_state (rr_projection (applyEvent p ev)) = Some (case sp_state p of Some s \<Rightarrow> s | None \<Rightarrow> Running_model_wait)
    \<and> sp_invalid_transition_count (rr_projection (applyEvent p ev)) = sp_invalid_transition_count p
    \<and> sp_last_turn_outcome (rr_projection (applyEvent p ev)) = sp_last_turn_outcome p"
proof -
  have ty: "ev_event_type ev = ET_tool_permission_resolved"
    using assms(1) resolved_type [of "ev_event_type ev"] by (simp add: reads_as_def buildSyntheticApprovalCancel_def)
  have pl: "payloadString (ev_payload ev) ''request_id'' = Some i"
    using assms(1) by (auto simp: reads_as_def buildSyntheticApprovalCancel_def payloadString_def payloadValue_def)
  have mw: "''running.model_wait'' = state_str s \<Longrightarrow> s = Running_model_wait" for s by (cases s) simp_all
  have st: "ev_state ev = Some (case sp_state p of Some s \<Rightarrow> s | None \<Rightarrow> Running_model_wait)"
    using assms state_text_inj mw unfolding reads_as_def buildSyntheticApprovalCancel_def
    by (auto split: option.splits)
  have ph: "phase_step (phase p) (ev_state ev) = (ev_state ev, sp_invalid_transition_count p)"
    by (cases "sp_state p") (simp_all add: st phase_def isValidTransition_def)
  have "enters_terminal p ev \<longleftrightarrow> terminal_opt (ev_state ev) \<and> \<not> terminal_opt (sp_state p)"
    by (simp only: enters_terminal_def ph fst_conv)
  then have "\<not> enters_terminal p ev"
    by (cases "sp_state p") (auto simp: st terminal_opt_def isTerminalState_def TERMINAL_STATES_def)
  then show ?thesis
    using apply_phase [of p ev, unfolded ph, unfolded phase_def]
    by (simp add: apply_pending apply_action foldPendingApprovals_def ty pl st next_turn_outcome_def)
qed

section \<open>An example\<close>

text \<open>
  A daemon has restarted with one live request; the database also holds a request of the old
  process. The connection of the sample registry says hello again.
\<close>

definition live_id :: jstring where
  "live_id = js ''s0123456789ab:apr-0123456789abcdef0123456789abcdef''"

definition lost_id :: jstring where
  "lost_id = js ''old:apr-7''"

definition sample_bridge :: ApprovalBridge where
  "sample_bridge = (bridge_new \<lparr>opt_timeoutMs = None, opt_persist = None, opt_policy = None, opt_policyRepos = None,
      opt_hasResolver = False, opt_policyEnvEnabled = None, opt_persistPolicy = False\<rparr> None None)
    \<lparr>br_pending := [(live_id, \<lparr>pend_ticket = 0, pend_signature = [], pend_cacheable = True, pend_persistable = False,
       pend_repoScope = None, pend_repoLabel = None\<rparr>)]\<rparr>"

definition sample_declaration :: jsval where
  "sample_declaration = JObj ((js ''type'', JStr (js ''hello''))
     # buildApprovalReconcileHelloFields None (Some (pendingRequestIds sample_bridge)))"

definition sample_signal :: ApprovalReconcileSignal where
  "sample_signal = \<lparr>rs_sessionIds = [[9]], rs_activeRequestIds = {live_id}, rs_receivedAt = 100000, rs_runtimeEpoch = None\<rparr>"

definition sample_pending :: "jstring \<Rightarrow> jsval" where
  "sample_pending i = JObj [(js ''request_id'', JStr i), (js ''requested_at'', JStr (js ''1970-01-01T00:00:01Z''))]"

definition sample_table :: "SessionStateRow list" where
  "sample_table = [\<lparr>db_session_id = [9], db_state = Some (js ''waiting.approval''),
     db_pending_approvals = [sample_pending lost_id, sample_pending live_id], db_provider = js ''claude-code''\<rparr>]"

definition sample_reconcile_env :: reconcile_env where
  "sample_reconcile_env = \<lparr>re_newEventId = js ''e1'', re_now = js ''1970-01-01T00:01:40Z'', re_payload_ok = (\<lambda>p. True)\<rparr>"

definition sample_row :: ReconcileRow where
  "sample_row = \<lparr>rw_session_id = [9], rw_provider = js ''claude-code'', rw_state = Some (js ''waiting.approval''),
     rw_requests = [(lost_id, js ''1970-01-01T00:00:01Z''), (live_id, js ''1970-01-01T00:00:01Z'')]\<rparr>"

lemma sample_rows:
  "reconcile_items (pendingApprovalsForSessions sample_table (rs_sessionIds sample_signal)) =
    [(sample_row, lost_id, js ''1970-01-01T00:00:01Z''), (sample_row, live_id, js ''1970-01-01T00:00:01Z'')]"
  by (simp add: sample_table_def sample_signal_def pendingApprovalsForSessions_def reconcile_items_def sample_pending_def
      parse_pending_step_def pending_of_item_def sample_row_def)

lemma sample_ids: "APPROVAL_REQUEST_ID_RE live_id" "isRetirableApprovalRequestId lost_id" "lost_id \<noteq> live_id"
  by (simp_all add: live_id_def lost_id_def isRetirableApprovalRequestId_def APPROVAL_REQUEST_ID_RE_def is_lower_hex_def js_def
      LEGACY_APPROVAL_REQUEST_ID_RES_def session_id_char_def Let_def legacy_suffix_def digits_between_def is_dec_def)

lemma sample_time: "date_parse (js ''1970-01-01T00:00:01Z'') = JFin 1000"
  by code_simp

lemma sample_stale: "stale sample_signal (sample_row, lost_id, js ''1970-01-01T00:00:01Z'')"
  "\<not> stale sample_signal (sample_row, live_id, js ''1970-01-01T00:00:01Z'')"
  by (simp_all add: stale_def sample_ids sample_time reconcile_watermark_def RECONCILE_WATERMARK_MS_def) (simp_all add: sample_signal_def sample_ids)

definition sample_reconcile_ops :: "reconcile_op list" where
  "sample_reconcile_ops = [Reconcile_signal sample_signal, Rows_arrive sample_reconcile_env 0 (Some sample_table)]"

lemma sample_ingested:
  "(sample_signal, cancel_of sample_reconcile_env (sample_row, lost_id, js ''1970-01-01T00:00:01Z''))
    \<in> set (rc_ingested (reconcile_run sample_reconcile_ops))"
  using sample_stale
  by (simp add: sample_reconcile_ops_def reconcile_run_def reconcile_def reconciler_new_def MAX_CONCURRENT_RECONCILES_def
      rows_arrive_def sample_rows stale_def Let_def cancel_of_def, simp add: sample_reconcile_env_def)

theorem retires_only_stale_witness:
  "\<exists>env t table r p. Rows_arrive env t (Some table) \<in> set sample_reconcile_ops \<and> r \<in> set table
    \<and> db_session_id r \<in> set (rs_sessionIds sample_signal)
    \<and> p \<in> set (parsePendingApprovals (JArr (db_pending_approvals r)))
    \<and> JStr (rw_session_id sample_row) = JStr (db_session_id r)
    \<and> JStr lost_id = JStr (pa_request_id p)
    \<and> pa_request_id p \<notin> rs_activeRequestIds sample_signal \<and> isRetirableApprovalRequestId (pa_request_id p)
    \<and> (\<exists>ms. date_parse (pa_requested_at p) = JFin ms \<and> ms < rs_receivedAt sample_signal - 2000)"
  using retires_only_stale [OF sample_ingested] unfolding cancel_request_id .

lemma sample_active:
  "js_get sample_declaration (js ACTIVE_PENDING_FIELD) =
    js_get (JObj (buildApprovalReconcileHelloFields None (Some (pendingRequestIds sample_bridge)))) (js ACTIVE_PENDING_FIELD)"
  by (simp add: sample_declaration_def ACTIVE_PENDING_FIELD_def)

lemma sample_parsed: "parseActivePendingRequestIds (js_get sample_declaration (js ACTIVE_PENDING_FIELD)) = Some {live_id}"
  unfolding sample_active hello_field_ids
  by (simp add: sample_bridge_def pendingRequestIds_def MAX_ACTIVE_PENDING_IDS_def request_id_ok_iff sample_ids)

lemma sample_absent:
  "js_get sample_declaration (js ''session_ids'') = JUndef" "js_get sample_declaration (js ''runtime_epoch'') = JUndef"
  by (auto simp: sample_declaration_def buildApprovalReconcileHelloFields_def ACTIVE_PENDING_FIELD_def RUNTIME_EPOCH_FIELD_def)

lemma sample_listeners: "rg_approvalReconcileListeners (registry_run sample_ops) = []"
  by (simp add: sample_ops_def registry_run_def registry_new_def registry_add_def handleHello_def sample_hello_def
      record_hello_def hello_membership_def claim_def isLive_def upd_conn_def emitPresence_def record_events_def set_add_def
      maybeEmitApprovalReconcile_def parseRuntimeEpoch_def parseAgentVisibilityWire_def parseDaemonCountersWire_def Let_def)

lemma sample_hello_signal:
  "Reconcile 0 sample_signal \<in> set (new_events (onApprovalReconcile 0 (registry_run sample_ops)) (sample_env, Hello 100000 11 sample_declaration))"
proof -
  have "cn_sessions (record_hello sample_declaration (sample_conn 11 [100] [5] [[9]])) = [[9]]"
    "cn_runtimeEpoch (record_hello sample_declaration (sample_conn 11 [100] [5] [[9]])) = None"
    by (simp_all add: sample_conn_def)
  then show ?thesis
    by (simp add: new_events_def handleHello_def onApprovalReconcile_def sample_run sample_listeners Let_def sample_absent
        hello_membership_def upd_conn_def parseRuntimeEpoch_def maybeEmitApprovalReconcile_def
        sample_parsed [unfolded ACTIVE_PENDING_FIELD_def] MAX_RECONCILE_SESSIONS_def record_events_def sample_signal_def)
qed

theorem declared_never_retired_witness:
  "JStr lost_id \<notin> JStr ` set (pendingRequestIds sample_bridge)
    \<and> (\<exists>c sid. JStr (rw_session_id sample_row) = JStr sid \<and> map_of (rg_conns (onApprovalReconcile 0 (registry_run sample_ops))) 11 = Some c
         \<and> map_of (rg_sessionOwner (registry_step (onApprovalReconcile 0 (registry_run sample_ops))
               (sample_env, Hello 100000 11 sample_declaration))) sid = Some c)"
  using declared_never_retired [OF sample_active sample_hello_signal sample_ingested] unfolding cancel_request_id .


definition sample_cancel_event :: NormalizedEvent where
  "sample_cancel_event = mk_event ''e1'' ET_tool_permission_resolved (Some Waiting_approval) ''1970-01-01T00:01:40Z''
     (js_get (buildSyntheticApprovalCancel (js ''e1'') sample_row lost_id (js ''1970-01-01T00:01:40Z'')) (js ''payload''))"

lemma sample_reads: "reads_as (buildSyntheticApprovalCancel (js ''e1'') sample_row lost_id (js ''1970-01-01T00:01:40Z'')) sample_cancel_event"
  by (simp add: reads_as_def sample_cancel_event_def mk_event_def buildSyntheticApprovalCancel_def sample_row_def)

theorem retired_card_disappears_witness:
  "sp_pending_approvals (rr_projection (applyEvent ((initialProjection [9])\<lparr>sp_state := Some Waiting_approval,
       sp_pending_approvals := parsePendingApprovals (JArr [sample_pending lost_id, sample_pending live_id])\<rparr>) sample_cancel_event))
    = parsePendingApprovals (JArr [sample_pending live_id])"
  using retired_card_disappears [OF sample_reads, of "(initialProjection [9])\<lparr>sp_state := Some Waiting_approval,
       sp_pending_approvals := parsePendingApprovals (JArr [sample_pending lost_id, sample_pending live_id])\<rparr>"] sample_ids(3)
  by (simp add: sample_row_def sample_pending_def parse_pending_step_def pending_of_item_def)

text \<open>
  The proviso on the state is needed: when the session has moved on between the read of its row and
  the ingestion of the cancel, the cancel takes it back to the state the row had.
\<close>

lemma late_cancel_moves_state:
  "sp_state (rr_projection (applyEvent ((initialProjection [9])\<lparr>sp_state := Some Running_model_wait\<rparr>) sample_cancel_event)) = Some Waiting_approval"
  by (simp add: apply_state sample_cancel_event_def mk_event_def phase_def isValidTransition_def WAITING_STATES_def)

end
