(* ===== verification/Event_Delivery.thy ===== *)
theory Event_Delivery
  imports Sidecar_Registry Timestamps Events Approval_Bridge
begin

text \<open>
  How events leave the sidecar: the sink (\<^verbatim>\<open>apps/sidecar/src/sink.ts\<close>) that redacts, checks and
  stores an event, the append-only log (\<^verbatim>\<open>store.ts\<close>) and the client (\<^verbatim>\<open>ws-client.ts\<close>) that sends the
  log to the backend and takes control messages from it. The asynchronous \<^verbatim>\<open>flush\<close> is cut at the
  await of each send; what waits is a field of the client. Frames are the values whose JSON text
  goes over the wire.
\<close>

section \<open>The event log\<close>

text \<open>The row keeps the event itself; the column \<^verbatim>\<open>event_json\<close> is its JSON text.\<close>

record StoredRow =
  sr_event_id :: jstring
  sr_session_id :: jstring
  sr_event_type :: EventType
  sr_seq :: nat
  sr_event :: NormalizedEvent
  sr_created_at :: jstring
  sr_sent_at :: "jstring option"

text \<open>The rows in the order of their sequence numbers.\<close>

record EventStore =
  es_rows :: "StoredRow list"
  es_next :: nat
  es_closed :: bool

definition store_new :: EventStore where
  "store_new = \<lparr>es_rows = [], es_next = 1, es_closed = False\<rparr>"

definition log_append :: "jstring \<Rightarrow> NormalizedEvent \<Rightarrow> EventStore \<Rightarrow> int \<times> EventStore" where
  "log_append now ev st =
    (if es_closed st then (-1, st)
     else case find (\<lambda>r. sr_event_id r = ev_event_id ev) (es_rows st) of
       Some r \<Rightarrow> (int (sr_seq r), st)
     | None \<Rightarrow>
         (int (es_next st),
          st\<lparr>es_rows := es_rows st @ [\<lparr>sr_event_id = ev_event_id ev, sr_session_id = ev_session_id ev, sr_event_type = ev_event_type ev,
               sr_seq = es_next st, sr_event = ev, sr_created_at = now, sr_sent_at = None\<rparr>],
             es_next := es_next st + 1\<rparr>))"

definition unsent :: "EventStore \<Rightarrow> StoredRow list" where
  "unsent st = filter (\<lambda>r. sr_sent_at r = None) (es_rows st)"

definition pendingUnsent :: "nat \<Rightarrow> EventStore \<Rightarrow> StoredRow list" where
  "pendingUnsent limit st = (if es_closed st then [] else take limit (unsent st))"

definition mark_row :: "jstring \<Rightarrow> jstring \<Rightarrow> StoredRow \<Rightarrow> StoredRow" where
  "mark_row now i r = (if sr_event_id r = i \<and> sr_sent_at r = None then r\<lparr>sr_sent_at := Some now\<rparr> else r)"

definition markSent :: "jstring \<Rightarrow> jstring list \<Rightarrow> EventStore \<Rightarrow> EventStore" where
  "markSent now eventIds st =
    (if es_closed st \<or> length eventIds = 0 then st
     else st\<lparr>es_rows := foldl (\<lambda>rows i. map (mark_row now i) rows) (es_rows st) eventIds\<rparr>)"

definition unsentCount :: "EventStore \<Rightarrow> nat" where
  "unsentCount st = (if es_closed st then 0 else length (unsent st))"

definition totalCount :: "EventStore \<Rightarrow> nat" where
  "totalCount st = (if es_closed st then 0 else length (es_rows st))"

definition allRows :: "EventStore \<Rightarrow> StoredRow list" where
  "allRows st = (if es_closed st then [] else es_rows st)"

definition log_close :: "EventStore \<Rightarrow> EventStore" where
  "log_close st = (if es_closed st then st else st\<lparr>es_closed := True\<rparr>)"

section \<open>Tokens\<close>

text \<open>The bytes of a string in a buffer are its UTF-8 encoding.\<close>

definition tokenEquals :: "jstring \<Rightarrow> jsval \<Rightarrow> bool" where
  "tokenEquals expected provided =
    (case js_string provided of
       None \<Rightarrow> False
     | Some p \<Rightarrow>
         if length p = 0 then False
         else if length expected = 0 then False
         else (let a = utf8Bytes expected; b = utf8Bytes p in
               if length a \<noteq> length b then False else a = b))"

section \<open>The client\<close>

datatype ReadyState = CONNECTING | OPEN | CLOSING | CLOSED

text \<open>A flush between two sends: the row that is being sent, the rest of the batch, what was accepted.\<close>

record Flush =
  fl_row :: StoredRow
  fl_rest :: "StoredRow list"
  fl_sentIds :: "jstring list"

record WsClient =
  wc_ws :: "nat option"
  wc_controlToken :: "jstring option"
  wc_policyCapable :: bool
  wc_spawnCapable :: bool
  wc_runtimeEpoch :: "jstring option"
  wc_reconnectBaseMs :: rat
  wc_reconnectMaxMs :: rat
  wc_reconnectAttempts :: nat
  wc_reconnectTimer :: "rat option"
  wc_flushing :: "Flush option"
  wc_closed :: bool

datatype delivery_event =
    Dialled nat
  | Raw_frame nat jsval
  | Event_frame nat NormalizedEvent
  | Accepted NormalizedEvent
  | Dispatched string jsval
  | Connection bool
  | Validation_error jstring
  | Out_of_order NormalizedEvent rat rat

text \<open>The process: the client, its log, the order checker of the sink, and the state of its sockets.\<close>

record Delivery =
  dv_store :: EventStore
  dv_client :: WsClient
  dv_checker :: BoundedMonotonic
  dv_sockets :: "(nat \<times> ReadyState) list"
  dv_dialled :: nat
  dv_log :: "delivery_event list"

definition note_event :: "delivery_event list \<Rightarrow> Delivery \<Rightarrow> Delivery" where
  "note_event es d = d\<lparr>dv_log := dv_log d @ es\<rparr>"

definition upd_client :: "(WsClient \<Rightarrow> WsClient) \<Rightarrow> Delivery \<Rightarrow> Delivery" where
  "upd_client f d = d\<lparr>dv_client := f (dv_client d)\<rparr>"

definition isAuthorizedControl :: "WsClient \<Rightarrow> jsval \<Rightarrow> bool" where
  "isAuthorizedControl c msgToken =
    (case wc_controlToken c of
       None \<Rightarrow> False
     | Some expected \<Rightarrow> if length expected = 0 then False else tokenEquals expected msgToken)"

definition ws_connected :: "Delivery \<Rightarrow> bool" where
  "ws_connected d = (case wc_ws (dv_client d) of None \<Rightarrow> False | Some l \<Rightarrow> map_of (dv_sockets d) l = Some OPEN)"

definition sendRaw :: "jsval \<Rightarrow> Delivery \<Rightarrow> Delivery" where
  "sendRaw payload d =
    (case wc_ws (dv_client d) of
       None \<Rightarrow> d
     | Some l \<Rightarrow> if \<not> ws_connected d then d else note_event [Raw_frame l payload] d)"

section \<open>The hello frame\<close>

text \<open>What the providers of a client return when a frame is built.\<close>

record hello_inputs =
  hi_sessionIds :: "jstring list"
  hi_agentVisibility :: "AgentVisibilityWire option"
  hi_pendingIds :: "jstring list option"
  hi_daemonCounters :: "DaemonCountersWire option"

definition visibility_json :: "AgentVisibilityWire \<Rightarrow> jsval" where
  "visibility_json v = JObj
    [(js ''claude'', JObj [(js ''binaryOnPath'', JBool (av_claude_binaryOnPath v)), (js ''anyHook'', JBool (av_claude_anyHook v))]),
     (js ''codex'', JObj [(js ''binaryOnPath'', JBool (av_codex_binaryOnPath v)),
        (js ''rolloutDirResolved'', JBool (av_codex_rolloutDirResolved v))])]"

definition has_token :: "WsClient \<Rightarrow> bool" where
  "has_token c = (case wc_controlToken c of None \<Rightarrow> False | Some t \<Rightarrow> length t > 0)"

definition buildHelloFrame :: "WsClient \<Rightarrow> hello_inputs \<Rightarrow> jsval" where
  "buildHelloFrame c hi = JObj
    ([(js ''type'', JStr (js ''hello'')),
      (js ''control_token'', case wc_controlToken c of Some t \<Rightarrow> JStr t | None \<Rightarrow> JUndef),
      (js ''session_ids'', JArr (map JStr (hi_sessionIds hi)))]
     @ (if wc_policyCapable c then [(js ''policy_capable'', JBool True)] else [])
     @ (if wc_spawnCapable c then [(js ''spawn_capable'', JBool True)] else [])
     @ (case hi_agentVisibility hi of Some v \<Rightarrow> [(js ''agent_visibility'', visibility_json v)] | None \<Rightarrow> [])
     @ buildApprovalReconcileHelloFields (wc_runtimeEpoch c) (hi_pendingIds hi)
     @ buildDaemonCountersHelloFields (hi_daemonCounters hi))"

text \<open>The providers the daemons wire to their bridge, which does not exist yet or any more at times.\<close>

definition pendingIdsFromBridge :: "ApprovalBridge option \<Rightarrow> jstring list option" where
  "pendingIdsFromBridge bridge = map_option pendingRequestIds bridge"

definition daemonCountersFromBridge :: "ApprovalBridge option \<Rightarrow> DaemonCountersWire option" where
  "daemonCountersFromBridge bridge = map_option (\<lambda>b. \<lparr>dc_unstableRequestIdCount = br_unstableMints b\<rparr>) bridge"

section \<open>Sending the log\<close>

definition flush_end :: "jstring \<Rightarrow> jstring list \<Rightarrow> Delivery \<Rightarrow> Delivery" where
  "flush_end now sentIds d =
    upd_client (\<lambda>c. c\<lparr>wc_flushing := None\<rparr>) (d\<lparr>dv_store := markSent now sentIds (dv_store d)\<rparr>)"

definition try_send :: "jstring \<Rightarrow> StoredRow \<Rightarrow> StoredRow list \<Rightarrow> jstring list \<Rightarrow> Delivery \<Rightarrow> Delivery" where
  "try_send now row rest sentIds d =
    (case wc_ws (dv_client d) of
       None \<Rightarrow> flush_end now sentIds d
     | Some l \<Rightarrow>
         if \<not> ws_connected d then flush_end now sentIds d
         else note_event [Event_frame l (sr_event row)]
                (upd_client (\<lambda>c. c\<lparr>wc_flushing := Some \<lparr>fl_row = row, fl_rest = rest, fl_sentIds = sentIds\<rparr>\<rparr>) d))"

definition flush_next :: "jstring \<Rightarrow> Delivery \<Rightarrow> Delivery" where
  "flush_next now d =
    (case pendingUnsent 200 (dv_store d) of
       [] \<Rightarrow> upd_client (\<lambda>c. c\<lparr>wc_flushing := None\<rparr>) d
     | row # rest \<Rightarrow> try_send now row rest [] d)"

definition flush :: "jstring \<Rightarrow> Delivery \<Rightarrow> Delivery" where
  "flush now d = (if wc_flushing (dv_client d) \<noteq> None \<or> \<not> ws_connected d then d else flush_next now d)"

text \<open>The callback of a send, with or without an error.\<close>

definition send_done :: "jstring \<Rightarrow> bool \<Rightarrow> Delivery \<Rightarrow> Delivery" where
  "send_done now ok d =
    (case wc_flushing (dv_client d) of
       None \<Rightarrow> d
     | Some f \<Rightarrow>
         if \<not> ok then flush_end now (fl_sentIds f) d
         else (let d' = note_event [Accepted (sr_event (fl_row f))] d;
                   sentIds = fl_sentIds f @ [sr_event_id (fl_row f)]
               in case fl_rest f of
                    row # rest \<Rightarrow> try_send now row rest sentIds d'
                  | [] \<Rightarrow> flush_next now (d'\<lparr>dv_store := markSent now sentIds (dv_store d')\<rparr>)))"

definition notifyAppended :: "jstring \<Rightarrow> Delivery \<Rightarrow> Delivery" where
  "notifyAppended now d = (if ws_connected d then flush now d else d)"

section \<open>The connection\<close>

definition client_connect :: "Delivery \<Rightarrow> Delivery" where
  "client_connect d =
    (if wc_closed (dv_client d) then d
     else let l = dv_dialled d in
       note_event [Dialled l] (upd_client (\<lambda>c. c\<lparr>wc_ws := Some l\<rparr>)
         (d\<lparr>dv_sockets := AList.update l CONNECTING (dv_sockets d), dv_dialled := l + 1\<rparr>)))"

definition socket_opens :: "jstring \<Rightarrow> hello_inputs \<Rightarrow> nat \<Rightarrow> Delivery \<Rightarrow> Delivery" where
  "socket_opens now hi l d =
    (if map_of (dv_sockets d) l \<noteq> Some CONNECTING then d
     else
       (let d1 = note_event [Connection True]
                   (upd_client (\<lambda>c. c\<lparr>wc_reconnectAttempts := 0\<rparr>) (d\<lparr>dv_sockets := AList.update l OPEN (dv_sockets d)\<rparr>));
            d2 = (if has_token (dv_client d1) then sendRaw (buildHelloFrame (dv_client d1) hi) d1 else d1)
        in flush now d2))"

definition scheduleReconnect :: "Delivery \<Rightarrow> Delivery" where
  "scheduleReconnect d =
    (let c = dv_client d in
     if wc_closed c \<or> wc_reconnectTimer c \<noteq> None then d
     else upd_client (\<lambda>c. c\<lparr>wc_reconnectTimer := Some (min (wc_reconnectMaxMs c) (wc_reconnectBaseMs c * 2 ^ wc_reconnectAttempts c)),
                           wc_reconnectAttempts := wc_reconnectAttempts c + 1\<rparr>) d)"

definition reconnect_due :: "Delivery \<Rightarrow> Delivery" where
  "reconnect_due d =
    (if wc_reconnectTimer (dv_client d) = None then d
     else client_connect (upd_client (\<lambda>c. c\<lparr>wc_reconnectTimer := None\<rparr>) d))"

definition socket_closes :: "nat \<Rightarrow> Delivery \<Rightarrow> Delivery" where
  "socket_closes l d =
    (if map_of (dv_sockets d) l \<in> {None, Some CLOSED} then d
     else scheduleReconnect (note_event [Connection False] (d\<lparr>dv_sockets := AList.update l CLOSED (dv_sockets d)\<rparr>)))"

definition control_events :: "(string \<times> string) list" where
  "control_events = [(''approval'', ''approval''), (''interrupt'', ''interrupt''), (''diff.request'', ''diffRequest''),
     (''allowlist.request'', ''allowlistRequest''), (''policy.request'', ''policyRequest''), (''codex.spawn.request'', ''spawnRequest'')]"

text \<open>
  Data that is not JSON is dropped. Reading the type of the value null raises outside of the
  handler's own guard; the result is then \<open>None\<close>.
\<close>

definition handleInbound :: "jsval option \<Rightarrow> Delivery \<Rightarrow> Delivery option" where
  "handleInbound data d =
    (case data of
       None \<Rightarrow> Some d
     | Some msg \<Rightarrow>
         if msg \<in> {JNull, JUndef} then None
         else
           (case find (\<lambda>(ty, ev). js_get msg (js ''type'') = JStr (js ty)) control_events of
              None \<Rightarrow> Some d
            | Some (ty, ev) \<Rightarrow>
                if \<not> isAuthorizedControl (dv_client d) (js_get msg (js ''token'')) then Some d
                else Some (note_event [Dispatched ev msg] d)))"

definition reannounce :: "hello_inputs \<Rightarrow> Delivery \<Rightarrow> Delivery" where
  "reannounce hi d = (if \<not> has_token (dv_client d) then d else sendRaw (buildHelloFrame (dv_client d) hi) d)"

definition client_close :: "Delivery \<Rightarrow> Delivery" where
  "client_close d =
    (let d1 = upd_client (\<lambda>c. c\<lparr>wc_closed := True, wc_reconnectTimer := None\<rparr>) d in
     case wc_ws (dv_client d) of
       None \<Rightarrow> d1
     | Some l \<Rightarrow> if map_of (dv_sockets d) l \<in> {Some CONNECTING, Some OPEN}
                  then d1\<lparr>dv_sockets := AList.update l CLOSING (dv_sockets d1)\<rparr> else d1)"

section \<open>The sink\<close>

text \<open>
  What the sink takes from outside: the redaction of a value with its counts, the schema check of an event
  and of a payload (with the message of a failure), and the clock.
\<close>

record sink_env =
  sk_redactDeepWithCount :: "jsval \<Rightarrow> jsval \<times> jsval \<times> jsval"
  sk_parseEvent :: "jsval \<Rightarrow> jstring + NormalizedEvent"
  sk_payload_ok :: "jsval \<Rightarrow> bool"
  sk_nowMs :: rat
  sk_now :: jstring

fun obj_entries :: "jsval \<Rightarrow> (jstring \<times> jsval) list option" where
  "obj_entries (JObj ps) = Some ps"
| "obj_entries _ = None"

definition set_prop :: "string \<Rightarrow> jsval \<Rightarrow> (jstring \<times> jsval) list \<Rightarrow> (jstring \<times> jsval) list" where
  "set_prop k v ps = AList.update (js k) v ps"

definition redactEventWithAuthoritativeCounts :: "sink_env \<Rightarrow> jsval \<Rightarrow> jsval" where
  "redactEventWithAuthoritativeCounts K input =
    (case sk_redactDeepWithCount K input of
       (v, redactionCount, redactionCountByKind) \<Rightarrow>
         (case obj_entries v of
            None \<Rightarrow> v
          | Some ps \<Rightarrow> JObj (set_prop ''redaction_count_by_kind'' redactionCountByKind (set_prop ''redaction_count'' redactionCount ps))))"

text \<open>Whether the check of the payload against its event passes; a payload of a parsed event is an object or missing.\<close>

definition assertPayloadConsistency :: "sink_env \<Rightarrow> NormalizedEvent \<Rightarrow> bool" where
  "assertPayloadConsistency K ev =
    (case obj_entries (ev_payload ev) of
       None \<Rightarrow> True
     | Some ps \<Rightarrow>
         if map_of ps (js ''kind'') = None then True
         else if js_get (ev_payload ev) (js ''kind'') \<noteq> JStr (js (event_type_str (ev_event_type ev))) then False
         else sk_payload_ok K (ev_payload ev))"

definition checked_event :: "sink_env \<Rightarrow> jsval \<Rightarrow> NormalizedEvent option" where
  "checked_event K withCount =
    (case sk_parseEvent K withCount of Inl e \<Rightarrow> None
     | Inr ev \<Rightarrow> if assertPayloadConsistency K ev then Some ev else None)"

definition observe_order :: "sink_env \<Rightarrow> NormalizedEvent \<Rightarrow> Delivery \<Rightarrow> Delivery" where
  "observe_order K ev d =
    (let (beforeHwm, ch1) = bm_lastSeen (dv_checker d) (ev_session_id ev) (sk_nowMs K);
         (monotonic, ch2) = bm_accept ch1 (ev_session_id ev) (ev_timestamp ev) (sk_nowMs K);
         ts = date_parse (ev_timestamp ev);
         d' = d\<lparr>dv_checker := ch2\<rparr>
     in case beforeHwm of
          None \<Rightarrow> d'
        | Some hwm \<Rightarrow> if monotonic then d'
            else note_event [Out_of_order ev hwm (if is_finite_num ts then hwm - fin_val ts else 0)] d')"

definition emit :: "sink_env \<Rightarrow> jsval \<Rightarrow> Delivery \<Rightarrow> NormalizedEvent option \<times> Delivery" where
  "emit K rawCandidate d =
    (let withCount = redactEventWithAuthoritativeCounts K rawCandidate in
     case checked_event K withCount of
       None \<Rightarrow> (None, note_event [Validation_error
         (case js_string (js_get withCount (js ''event_type'')) of Some t \<Rightarrow> t | None \<Rightarrow> js ''unknown'')] d)
     | Some ev \<Rightarrow>
         (let d1 = observe_order K ev d;
              d2 = d1\<lparr>dv_store := snd (log_append (sk_now K) ev (dv_store d1))\<rparr>
          in (Some ev, notifyAppended (sk_now K) d2)))"

end
