(* ===== verification/Control_Handlers.thy ===== *)
theory Control_Handlers
  imports Event_Delivery Approval_Bridge
begin

text \<open>
  What a sidecar does with an authorised control message: the handlers of \<^verbatim>\<open>apps/sidecar/src/sidecar.ts\<close>,
  \<^verbatim>\<open>allowlist-relay.ts\<close> and \<^verbatim>\<open>policy-relay.ts\<close>. Messages and responses are JSON values.
\<close>

section \<open>Decisions\<close>

fun decision_str :: "ApprovalDecision \<Rightarrow> string" where
  "decision_str Dec_allow = ''allow''"
| "decision_str Dec_allow_for_session = ''allow_for_session''"
| "decision_str Dec_deny = ''deny''"
| "decision_str Dec_cancel = ''cancel''"

definition APPROVAL_DECISIONS :: "ApprovalDecision list" where
  "APPROVAL_DECISIONS = [Dec_allow, Dec_allow_for_session, Dec_deny, Dec_cancel]"

text \<open>The reason is passed on as it is; the relay sends a string or nothing.\<close>

definition on_approval ::
  "ApprovalBridge \<Rightarrow> jsval \<Rightarrow> rat \<Rightarrow> Disk \<Rightarrow> (nat \<times> ApprovalResult) option \<times> ApprovalBridge" where
  "on_approval b msg now disk =
    (case js_string (js_get msg (js ''request_id'')) of
       None \<Rightarrow> (None, b)
     | Some requestId \<Rightarrow>
         (case js_string (js_get msg (js ''decision'')) of
            None \<Rightarrow> (None, b)
          | Some s \<Rightarrow>
              (case find (\<lambda>d. js (decision_str d) = s) APPROVAL_DECISIONS of
                 None \<Rightarrow> (None, b)
               | Some decision \<Rightarrow>
                   resolve b requestId decision (js_string (js_get msg (js ''reason''))) (js_get msg (js ''persist'') = JBool True) now disk)))"

section \<open>The allow-list\<close>

definition persistEnabled :: "ApprovalBridge \<Rightarrow> bool" where
  "persistEnabled b = (case br_persist b of Some ps \<Rightarrow> ps_enabled ps | None \<Rightarrow> False)"

definition grant_json :: "PersistedApproval \<Rightarrow> jsval" where
  "grant_json e = JObj
    ([(js ''signature'', JStr (pg_signature e)), (js ''repo_scope'', JStr (pg_repoScope e))]
     @ opt_prop ''repo_label'' (map_option JStr (pg_repoLabel e))
     @ [(js ''risk'', JStr (pg_risk e)), (js ''created_at_ms'', JNum (JFin (pg_createdAt e))),
        (js ''expires_at_ms'', JNum (JFin (pg_expiresAt e)))])"

definition nonempty_string :: "jsval \<Rightarrow> jstring option" where
  "nonempty_string v = (case js_string v of Some s \<Rightarrow> if length s > 0 then Some s else None | None \<Rightarrow> None)"

definition buildAllowlistResponse :: "ApprovalBridge \<Rightarrow> jsval \<Rightarrow> rat \<Rightarrow> Disk \<Rightarrow> jsval option \<times> ApprovalBridge" where
  "buildAllowlistResponse b msg now disk =
    (case nonempty_string (js_get msg (js ''request_id'')) of
       None \<Rightarrow> (None, b)
     | Some requestId \<Rightarrow>
         (let (removed, b') =
                (if js_get msg (js ''op'') = JStr (js ''revoke'') then
                   (case nonempty_string (js_get msg (js ''signature'')) of
                      Some sg \<Rightarrow> (let (n, b') = revokePersistedApproval b sg (nonempty_string (js_get msg (js ''repo_scope''))) disk
                                  in (Some n, b'))
                    | None \<Rightarrow> (Some 0, b))
                 else (None, b))
          in (Some (JObj
               ([(js ''type'', JStr (js ''allowlist.response'')), (js ''request_id'', JStr requestId),
                 (js ''enabled'', JBool (persistEnabled b')),
                 (js ''entries'', JArr (map grant_json (listPersistedApprovals b' now)))]
                @ opt_prop ''removed'' (map_option jcount removed))), b')))"

section \<open>The policy\<close>

definition PERSIST_ERROR :: string where
  "PERSIST_ERROR = ''policy applied in memory but failed to persist to disk''"

definition categories_wire :: "PolicyCategory set \<Rightarrow> jsval" where
  "categories_wire cats = JArr (map (\<lambda>c. JStr (js (category_str c))) (orderPolicyCategories (category_strs cats)))"

definition viewToResponse :: "jstring \<Rightarrow> PolicyConfigView \<Rightarrow> jsval" where
  "viewToResponse requestId view = JObj
    ([(js ''type'', JStr (js ''policy.response'')), (js ''request_id'', JStr requestId),
      (js ''enabled'', JBool (pv_enabled view)), (js ''categories'', categories_wire (pv_categories view)),
      (js ''env_gate_enabled'', JBool (pv_envGateEnabled view))]
     @ opt_prop ''repo_scope'' (map_option JStr (pv_repoScope view))
     @ opt_prop ''repo_label'' (map_option JStr (pv_repoLabel view))
     @ opt_prop ''is_override'' (map_option JBool (pv_isOverride view))
     @ opt_prop ''error'' (if pv_persistError view then Some (JStr (js PERSIST_ERROR)) else None))"

definition repo_wire :: "jstring \<times> RepoPolicyEntry \<Rightarrow> jsval" where
  "repo_wire = (\<lambda>(scope, e). JObj
    ([(js ''repo_scope'', JStr scope)]
     @ opt_prop ''repo_label'' (map_option JStr (pol_label e))
     @ [(js ''enabled'', JBool (pol_enabled e)), (js ''categories'', categories_wire (pol_categories e))]))"

text \<open>
  The overrides in the order of the locale, which is a parameter: it gives a permutation of them.
\<close>

definition buildListResponse :: "((jstring \<times> RepoPolicyEntry) list \<Rightarrow> (jstring \<times> RepoPolicyEntry) list) \<Rightarrow> ApprovalBridge \<Rightarrow> jstring \<Rightarrow> jsval" where
  "buildListResponse collate b requestId =
    (let def = getPolicyConfig b None in JObj
      [(js ''type'', JStr (js ''policy.response'')), (js ''request_id'', JStr requestId),
       (js ''enabled'', JBool (pv_enabled def)), (js ''categories'', categories_wire (pv_categories def)),
       (js ''env_gate_enabled'', JBool (pv_envGateEnabled def)), (js ''repos'', JArr (map repo_wire (collate (br_policyRepos b))))])"

definition policy_failure :: "jstring \<Rightarrow> string \<Rightarrow> jsval" where
  "policy_failure requestId e = JObj
    [(js ''type'', JStr (js ''policy.response'')), (js ''request_id'', JStr requestId), (js ''enabled'', JBool False),
     (js ''categories'', JArr []), (js ''error'', JStr (js e))]"

definition array_strings :: "jsval \<Rightarrow> jstring list" where
  "array_strings v = somes (map js_string (array_elems v))"

definition requested_update :: "jsval \<Rightarrow> jstring option \<Rightarrow> PolicyUpdate" where
  "requested_update msg repoScope =
    \<lparr>up_enabled = js_bool (js_get msg (js ''enabled'')),
     up_categories = (if js_get msg (js ''categories'') = JUndef then None else Some (sanitizeCategories (js_get msg (js ''categories'')))),
     up_repoScope = repoScope,
     up_repoLabel = sanitizeRepoLabel (js_get msg (js ''repo_label'')),
     up_persist = Some (js_get msg (js ''persist'') \<noteq> JBool False)\<rparr>"

text \<open>
  \<open>found\<close> is what the repository resolver gives for the path of the request, once it is awaited.
\<close>

definition buildPolicyResponse ::
  "((jstring \<times> RepoPolicyEntry) list \<Rightarrow> (jstring \<times> RepoPolicyEntry) list) \<Rightarrow> (jstring \<Rightarrow> resolved_repo option) \<Rightarrow> Disk
    \<Rightarrow> jsval \<Rightarrow> ApprovalBridge \<Rightarrow> jsval option \<times> ApprovalBridge" where
  "buildPolicyResponse collate found disk msg b =
    (case nonempty_string (js_get msg (js ''request_id'')) of
       None \<Rightarrow> (None, b)
     | Some requestId \<Rightarrow>
         (let raw = js_get msg (js ''repo_scope''); repoScope = js_string raw; op = js_get msg (js ''op'') in
          if raw \<noteq> JUndef \<and> (repoScope = None \<or> \<not> REPO_SCOPE_RE (the repoScope))
          then (Some (policy_failure requestId ''invalid repo_scope''), b)
          else if op = JStr (js ''list'') then (Some (buildListResponse collate b requestId), b)
          else if op = JStr (js ''resolve'') then
            (let path = (case js_string (js_get msg (js ''path'')) of Some p \<Rightarrow> p | None \<Rightarrow> []);
                 resolved = (if length path > 0 then getPolicyConfigForPath b (found path) (array_strings (js_get msg (js ''resolve_scope''))) else None)
             in (Some (case resolved of None \<Rightarrow> policy_failure requestId ''path is not a resolvable git repository''
                       | Some view \<Rightarrow> viewToResponse requestId view), b))
          else
            (let (view, b') =
                   (if op = JStr (js ''set'') then setPolicyConfig b (requested_update msg repoScope) disk
                    else if op = JStr (js ''unset'') \<and> repoScope \<noteq> None
                    then removePolicyRepo b (the repoScope) (Some (js_get msg (js ''persist'') \<noteq> JBool False)) disk
                    else (getPolicyConfig b repoScope, b))
             in (Some (viewToResponse requestId view), b'))))"

end
