(* ===== verification/Delivery_Correct.thy ===== *)
theory Delivery_Correct
  imports Event_Delivery Relay_Correct
begin

text \<open>
  Correctness of the way out: the order and completeness of what is delivered, through lost
  connections and restarts; that nothing but checked, redacted events leaves; and that control
  messages are taken from the holder of the token only.
\<close>

section \<open>Runs\<close>

datatype delivery_op =
    Emit sink_env jsval
  | Dial
  | Socket_opens jstring hello_inputs nat
  | Socket_closes nat
  | Reconnect_due
  | Send_done jstring bool
  | Inbound "jsval option"
  | Reannounce hello_inputs
  | Respond jsval
  | Close_client
  | Close_log
  | Restart WsClient BoundedMonotonic

text \<open>A new process opens the log of the previous one; its client has not connected yet.\<close>

definition restart :: "WsClient \<Rightarrow> BoundedMonotonic \<Rightarrow> Delivery \<Rightarrow> Delivery" where
  "restart c ch d = d\<lparr>dv_store := (dv_store d)\<lparr>es_closed := False\<rparr>,
     dv_client := c\<lparr>wc_ws := None, wc_reconnectAttempts := 0, wc_reconnectTimer := None, wc_flushing := None, wc_closed := False\<rparr>,
     dv_checker := ch, dv_sockets := []\<rparr>"

fun delivery_step :: "Delivery \<Rightarrow> delivery_op \<Rightarrow> Delivery" where
  "delivery_step d (Emit K raw) = snd (emit K raw d)"
| "delivery_step d Dial = client_connect d"
| "delivery_step d (Socket_opens now hi l) = socket_opens now hi l d"
| "delivery_step d (Socket_closes l) = socket_closes l d"
| "delivery_step d Reconnect_due = reconnect_due d"
| "delivery_step d (Send_done now ok) = send_done now ok d"
| "delivery_step d (Inbound msg) = (case handleInbound msg d of Some d' \<Rightarrow> d' | None \<Rightarrow> d)"
| "delivery_step d (Reannounce hi) = reannounce hi d"
| "delivery_step d (Respond msg) = sendRaw msg d"
| "delivery_step d Close_client = client_close d"
| "delivery_step d Close_log = d\<lparr>dv_store := log_close (dv_store d)\<rparr>"
| "delivery_step d (Restart c ch) = restart c ch d"

definition delivery_start :: "WsClient \<Rightarrow> BoundedMonotonic \<Rightarrow> Delivery" where
  "delivery_start c ch = restart c ch \<lparr>dv_store = store_new, dv_client = c, dv_checker = ch, dv_sockets = [], dv_dialled = 0, dv_log = []\<rparr>"

definition delivery_run :: "WsClient \<Rightarrow> BoundedMonotonic \<Rightarrow> delivery_op list \<Rightarrow> Delivery" where
  "delivery_run c ch ops = foldl delivery_step (delivery_start c ch) ops"

section \<open>The log\<close>

definition sent_rows :: "EventStore \<Rightarrow> StoredRow list" where
  "sent_rows st = filter (\<lambda>r. sr_sent_at r \<noteq> None) (es_rows st)"

definition log_wf :: "EventStore \<Rightarrow> bool" where
  "log_wf st \<longleftrightarrow> distinct (map sr_event_id (es_rows st)) \<and> (\<forall>r \<in> set (es_rows st). sr_event_id r = ev_event_id (sr_event r))
     \<and> es_rows st = sent_rows st @ unsent st"

lemma log_wfD:
  assumes "log_wf st"
  shows "distinct (map sr_event_id (es_rows st))" "\<forall>r \<in> set (es_rows st). sr_event_id r = ev_event_id (sr_event r)"
    "es_rows st = sent_rows st @ unsent st"
  using assms unfolding log_wf_def by blast+

lemma log_append_cases:
  obtains "snd (log_append now ev st) = st"
  | r where "es_rows (snd (log_append now ev st)) = es_rows st @ [r]" "es_closed (snd (log_append now ev st)) = es_closed st"
      "sr_sent_at r = None" "sr_event r = ev" "sr_event_id r = ev_event_id ev" "ev_event_id ev \<notin> sr_event_id ` set (es_rows st)"
proof (cases "es_closed st \<or> find (\<lambda>r. sr_event_id r = ev_event_id ev) (es_rows st) \<noteq> None")
  case True
  then show thesis using that(1) by (auto simp: log_append_def)
next
  case False
  then have "ev_event_id ev \<notin> sr_event_id ` set (es_rows st)" by (auto simp: find_None_iff)
  then show thesis using that(2) False by (auto simp: log_append_def)
qed

lemma mark_rows:
  "foldl (\<lambda>rows i. map (mark_row now i) rows) rows ids =
    map (\<lambda>r. if sr_event_id r \<in> set ids \<and> sr_sent_at r = None then r\<lparr>sr_sent_at := Some now\<rparr> else r) rows"
  by (induction ids arbitrary: rows) (auto simp: mark_row_def)

lemma markSent_eq:
  "markSent now ids st = (if es_closed st then st
     else st\<lparr>es_rows := map (\<lambda>r. if sr_event_id r \<in> set ids \<and> sr_sent_at r = None then r\<lparr>sr_sent_at := Some now\<rparr> else r) (es_rows st)\<rparr>)"
  by (simp add: markSent_def mark_rows)

lemma map_markSent:
  "map sr_event (es_rows (markSent now ids st)) = map sr_event (es_rows st)"
  "map sr_event_id (es_rows (markSent now ids st)) = map sr_event_id (es_rows st)"
  by (simp_all add: markSent_eq)

lemma markSent_split:
  assumes "log_wf st" "\<not> es_closed st" "unsent st = A @ B"
  shows "unsent (markSent now (map sr_event_id A) st) = B"
    and "map sr_event_id (sent_rows (markSent now (map sr_event_id A) st)) = map sr_event_id (sent_rows st @ A)"
    and "log_wf (markSent now (map sr_event_id A) st)"
proof -
  let ?f = "\<lambda>r. if sr_event_id r \<in> sr_event_id ` set A \<and> sr_sent_at r = None then r\<lparr>sr_sent_at := Some now\<rparr> else r"
  have rows: "es_rows st = sent_rows st @ A @ B" using assms(1,3) by (simp add: log_wf_def)
  have d: "sr_event_id ` set A \<inter> sr_event_id ` set B = {}"
    using assms(1) unfolding log_wf_def rows by auto
  have S: "map ?f (sent_rows st) = sent_rows st" by (rule map_idI) (auto simp: sent_rows_def)
  have U: "\<forall>r \<in> set (A @ B). sr_sent_at r = None" unfolding assms(3) [symmetric] by (simp add: unsent_def)
  have A: "map ?f A = map (\<lambda>r. r\<lparr>sr_sent_at := Some now\<rparr>) A" using U by auto
  have B: "map ?f B = B" by (rule map_idI) (use d in auto)
  have rows': "es_rows (markSent now (map sr_event_id A) st) = sent_rows st @ map (\<lambda>r. r\<lparr>sr_sent_at := Some now\<rparr>) A @ B"
    using assms(2) S A B by (simp add: markSent_eq rows)
  have S': "filter (\<lambda>r. sr_sent_at r = None) (sent_rows st) = []" "filter (\<lambda>r. sr_sent_at r \<noteq> None) (sent_rows st) = sent_rows st"
    by (auto simp: sent_rows_def filter_empty_conv)
  have B': "filter (\<lambda>r. sr_sent_at r = None) B = B" "filter (\<lambda>r. sr_sent_at r \<noteq> None) B = []"
    using U by (auto simp: filter_empty_conv)
  show u: "unsent (markSent now (map sr_event_id A) st) = B"
    unfolding unsent_def rows' by (simp add: S' B' filter_map o_def)
  have s: "sent_rows (markSent now (map sr_event_id A) st) = sent_rows st @ map (\<lambda>r. r\<lparr>sr_sent_at := Some now\<rparr>) A"
    by (subst sent_rows_def, subst rows') (simp add: S' B' filter_map o_def del: not_None_eq)
  then show "map sr_event_id (sent_rows (markSent now (map sr_event_id A) st)) = map sr_event_id (sent_rows st @ A)"
    by simp
  have "\<forall>r \<in> set (es_rows (markSent now (map sr_event_id A) st)). sr_event_id r = ev_event_id (sr_event r)"
    using log_wfD(2) [OF assms(1)] by (auto simp: markSent_eq)
  moreover have "es_rows (markSent now (map sr_event_id A) st) = sent_rows (markSent now (map sr_event_id A) st) @ unsent (markSent now (map sr_event_id A) st)"
    unfolding u s rows' by simp
  ultimately show "log_wf (markSent now (map sr_event_id A) st)"
    unfolding log_wf_def map_markSent(2) using log_wfD(1) [OF assms(1)] by blast
qed

section \<open>Order of delivery\<close>

text \<open>The identifiers of the events a socket has accepted, and the first occurrences of a list.\<close>

fun accepted_id :: "delivery_event \<Rightarrow> jstring option" where
  "accepted_id (Accepted ev) = Some (ev_event_id ev)"
| "accepted_id _ = None"

definition accepted_ids :: "Delivery \<Rightarrow> jstring list" where
  "accepted_ids d = somes (map accepted_id (dv_log d))"

definition firsts :: "'a list \<Rightarrow> 'a list" where
  "firsts xs = foldl (\<lambda>ys x. set_add x ys) [] xs"

lemma firsts_snoc: "firsts (xs @ [x]) = set_add x (firsts xs)"
  by (simp add: firsts_def)

lemma somes_append: "somes (xs @ ys) = somes xs @ somes ys"
  by (induction xs rule: somes.induct) auto

lemma accepted_note: "accepted_ids (note_event es d) = accepted_ids d @ somes (map accepted_id es)"
  by (simp add: accepted_ids_def note_event_def somes_append)

text \<open>
  \<open>X\<close> are the rows that were accepted and are not marked yet; the flush in progress works on a
  stretch of the unmarked rows, and what it has behind it was accepted.
\<close>

definition flush_ok :: "StoredRow list \<Rightarrow> nat \<Rightarrow> Flush option \<Rightarrow> bool" where
  "flush_ok U n fl \<longleftrightarrow> (case fl of None \<Rightarrow> True
     | Some f \<Rightarrow> \<exists>A B. U = A @ fl_row f # fl_rest f @ B \<and> fl_sentIds f = map sr_event_id A \<and> length A \<le> n)"

definition delivered_upto :: "StoredRow list \<Rightarrow> Delivery \<Rightarrow> bool" where
  "delivered_upto X d \<longleftrightarrow> log_wf (dv_store d) \<and> (\<exists>Y. unsent (dv_store d) = X @ Y)
     \<and> firsts (accepted_ids d) = map sr_event_id (sent_rows (dv_store d) @ X)"

definition delivery_inv :: "Delivery \<Rightarrow> bool" where
  "delivery_inv d \<longleftrightarrow> (\<exists>X. delivered_upto X d \<and> flush_ok (unsent (dv_store d)) (length X) (wc_flushing (dv_client d)))"

lemma delivered_upto_cong:
  "dv_store d' = dv_store d \<Longrightarrow> accepted_ids d' = accepted_ids d \<Longrightarrow> delivered_upto X d' = delivered_upto X d"
  by (simp add: delivered_upto_def)

lemma delivery_inv_cong:
  "dv_store d' = dv_store d \<Longrightarrow> accepted_ids d' = accepted_ids d \<Longrightarrow> wc_flushing (dv_client d') = wc_flushing (dv_client d)
    \<Longrightarrow> delivery_inv d' = delivery_inv d"
  by (simp add: delivery_inv_def delivered_upto_def)

lemma upto_simps [simp]:
  "delivered_upto X (upd_client f d) = delivered_upto X d"
  "dv_store (upd_client f d) = dv_store d" "dv_store (note_event es d) = dv_store d"
  "dv_client (upd_client f d) = f (dv_client d)" "dv_client (note_event es d) = dv_client d"
  "accepted_ids (upd_client f d) = accepted_ids d"
  by (simp_all add: delivered_upto_def upd_client_def note_event_def accepted_ids_def)

lemma mark_upto:
  assumes "delivered_upto X d" "unsent (dv_store d) = A @ B" "length A \<le> length X"
  shows "\<exists>X'. delivered_upto X' (d\<lparr>dv_store := markSent now (map sr_event_id A) (dv_store d)\<rparr>)"
proof (cases "es_closed (dv_store d)")
  case True
  then show ?thesis using assms(1) by (auto simp: markSent_def)
next
  case False
  obtain Y where Y: "unsent (dv_store d) = X @ Y" and wf: "log_wf (dv_store d)" using assms(1) by (auto simp: delivered_upto_def)
  obtain X' where "X = A @ X'" "B = X' @ Y" using Y assms(2,3) by (auto simp: append_eq_append_conv2)
  then show ?thesis
    using markSent_split [OF wf False assms(2), of now] assms(1)
    by (intro exI [of _ X']) (auto simp: delivered_upto_def accepted_ids_def)
qed

lemma inv_flush_end:
  assumes "delivered_upto X d" "unsent (dv_store d) = A @ B" "length A \<le> length X"
  shows "delivery_inv (flush_end now (map sr_event_id A) d)"
  using mark_upto [OF assms, of now] by (auto simp: flush_end_def delivery_inv_def flush_ok_def)

lemma inv_try_send:
  assumes "delivered_upto X d" "unsent (dv_store d) = A @ row # rest @ B" "length A \<le> length X"
  shows "delivery_inv (try_send now row rest (map sr_event_id A) d)"
proof -
  have "delivery_inv (note_event [Event_frame l ev] (upd_client (\<lambda>c. c\<lparr>wc_flushing := Some \<lparr>fl_row = row, fl_rest = rest, fl_sentIds = map sr_event_id A\<rparr>\<rparr>) d))"
    for l ev
    unfolding delivery_inv_def
    by (rule exI [of _ X], subst delivered_upto_cong [of _ d]) (use assms in \<open>auto simp: accepted_note flush_ok_def\<close>)
  then show ?thesis
    using inv_flush_end [OF assms] by (auto simp: try_send_def split: option.split)
qed

lemma inv_flush_next:
  assumes "delivered_upto X d"
  shows "delivery_inv (flush_next now d)"
proof (cases "pendingUnsent 200 (dv_store d)")
  case Nil
  then show ?thesis using assms by (auto simp: flush_next_def delivery_inv_def flush_ok_def)
next
  case (Cons row rest)
  then have "unsent (dv_store d) = [] @ row # rest @ drop 200 (unsent (dv_store d))"
    by (metis append_Cons append_Nil append_take_drop_id list.distinct(1) pendingUnsent_def)
  from inv_try_send [OF assms this] show ?thesis by (simp add: flush_next_def Cons)
qed

lemma inv_flush: "delivery_inv d \<Longrightarrow> delivery_inv (flush now d)"
  by (auto simp: flush_def delivery_inv_def [of d] intro: inv_flush_next)

lemma inv_send_done:
  assumes "delivery_inv d"
  shows "delivery_inv (send_done now ok d)"
proof (cases "wc_flushing (dv_client d)")
  case None
  then show ?thesis using assms by (simp add: send_done_def)
next
  case (Some f)
  obtain X A B where X: "delivered_upto X d" and U: "unsent (dv_store d) = A @ fl_row f # fl_rest f @ B"
    and ids: "fl_sentIds f = map sr_event_id A" and le: "length A \<le> length X"
    using assms Some by (auto simp: delivery_inv_def flush_ok_def)
  let ?d = "note_event [Accepted (sr_event (fl_row f))] d" and ?A = "A @ [fl_row f]"
  have id: "ev_event_id (sr_event (fl_row f)) = sr_event_id (fl_row f)"
    using X U by (auto simp: delivered_upto_def log_wf_def)
  have "\<exists>X'. delivered_upto X' ?d \<and> length ?A \<le> length X'"
  proof (cases "length A < length X")
    case True
    have "sr_event_id (fl_row f) \<in> set (firsts (accepted_ids d))"
      using X U True by (auto simp: delivered_upto_def append_eq_append_conv2 Cons_eq_append_conv)
    then show ?thesis
      using X True by (intro exI [of _ X]) (auto simp: delivered_upto_def accepted_note firsts_snoc set_add_def id)
  next
    case False
    then have XA: "X = A" using X U le by (auto simp: delivered_upto_def append_eq_append_conv2)
    have "sr_event_id (fl_row f) \<notin> set (firsts (accepted_ids d))"
      using X U by (auto simp: delivered_upto_def log_wf_def XA)
    then show ?thesis
      using X U by (intro exI [of _ ?A]) (auto simp: delivered_upto_def accepted_note firsts_snoc set_add_def id XA)
  qed
  then obtain X' where X': "delivered_upto X' ?d" "length ?A \<le> length X'" by blast
  show ?thesis
  proof (cases "fl_rest f")
    case Nil
    have "unsent (dv_store ?d) = ?A @ B" using U Nil by simp
    from mark_upto [OF X'(1) this X'(2)] inv_flush_next inv_flush_end [OF X _ le, of "fl_row f # B"] U Nil show ?thesis
      by (auto simp: send_done_def Some ids)
  next
    case (Cons row rest)
    have "unsent (dv_store ?d) = ?A @ row # rest @ B" using U Cons by simp
    from inv_try_send [OF X'(1) this X'(2)] inv_flush_end [OF X _ le, of "fl_row f # fl_rest f @ B"] U show ?thesis
      by (auto simp: send_done_def Some ids Cons)
  qed
qed

lemma inv_append:
  assumes "delivery_inv d"
  shows "delivery_inv (d\<lparr>dv_store := snd (log_append now ev (dv_store d))\<rparr>)"
proof (cases rule: log_append_cases [of now ev "dv_store d"])
  case 1
  then show ?thesis using assms by simp
next
  case (2 r)
  have u: "unsent (snd (log_append now ev (dv_store d))) = unsent (dv_store d) @ [r]"
    and s: "sent_rows (snd (log_append now ev (dv_store d))) = sent_rows (dv_store d)"
    using 2(1,3) by (simp_all add: unsent_def sent_rows_def)
  have "log_wf (snd (log_append now ev (dv_store d)))" if "log_wf (dv_store d)"
    unfolding log_wf_def u s 2(1) using log_wfD [OF that] 2(4-6) by (simp del: append_assoc add: append_assoc [symmetric] image_Un)
  moreover have "flush_ok (unsent (dv_store d) @ [r]) n fl" if fok: "flush_ok (unsent (dv_store d)) n fl" for n fl
  proof (cases fl)
    case (Some f)
    then obtain A B where "unsent (dv_store d) @ [r] = A @ fl_row f # fl_rest f @ (B @ [r])" "fl_sentIds f = map sr_event_id A" "length A \<le> n"
      using fok by (auto simp: flush_ok_def)
    then show ?thesis unfolding flush_ok_def Some option.case by blast
  qed (simp add: flush_ok_def)
  moreover obtain X Y where "log_wf (dv_store d)" "unsent (dv_store d) = X @ Y"
    "firsts (accepted_ids d) = map sr_event_id (sent_rows (dv_store d) @ X)" "flush_ok (unsent (dv_store d)) (length X) (wc_flushing (dv_client d))"
    using assms by (auto simp: delivery_inv_def delivered_upto_def)
  ultimately show ?thesis
    unfolding delivery_inv_def delivered_upto_def
    by (intro exI [of _ X]) (simp add: u s accepted_ids_def)
qed

text \<open>Operations that leave the log, the flush and what was accepted alone.\<close>

definition aside :: "Delivery \<Rightarrow> Delivery \<Rightarrow> bool" where
  "aside d d' \<longleftrightarrow> dv_store d' = dv_store d \<and> accepted_ids d' = accepted_ids d \<and> wc_flushing (dv_client d') = wc_flushing (dv_client d)"

lemma aside_refl [simp]: "aside d d"
  by (simp add: aside_def)

lemma aside_inv: "aside d d' \<Longrightarrow> delivery_inv d \<Longrightarrow> delivery_inv d'"
  using delivery_inv_cong [of d' d] by (simp add: aside_def)

lemma aside_note: "aside d d' \<Longrightarrow> somes (map accepted_id es) = [] \<Longrightarrow> aside d (note_event es d')"
  by (simp add: aside_def accepted_note)

lemma aside_client: "aside d d' \<Longrightarrow> wc_flushing (f (dv_client d')) = wc_flushing (dv_client d') \<Longrightarrow> aside d (upd_client f d')"
  by (simp add: aside_def)

lemma aside_sockets: "aside d d' \<Longrightarrow> aside d (d'\<lparr>dv_sockets := ss\<rparr>)" "aside d d' \<Longrightarrow> aside d (d'\<lparr>dv_dialled := n\<rparr>)"
  by (simp_all add: aside_def accepted_ids_def)

lemmas aside_intros = aside_note aside_client aside_sockets

lemma aside_send: "aside d (sendRaw p d)"
  by (simp add: sendRaw_def aside_intros split: option.split)

lemma aside_connect: "aside d d' \<Longrightarrow> aside d (client_connect d')"
  by (simp add: client_connect_def Let_def aside_intros)

lemma aside_ops:
  "aside d (client_connect d)" "aside d (reconnect_due d)" "aside d (socket_closes l d)" "aside d (sendRaw p d)"
  "aside d (client_close d)" "aside d (reannounce hi d)"
  by (simp_all add: aside_connect reconnect_due_def socket_closes_def scheduleReconnect_def client_close_def reannounce_def aside_send
      Let_def aside_intros split: option.split)

lemma aside_inbound: "handleInbound msg d = Some d' \<Longrightarrow> aside d d'"
  by (auto simp: handleInbound_def aside_intros split: option.splits if_splits)

lemma aside_observe: "aside d (observe_order K ev d)"
  by (auto simp: aside_def observe_order_def accepted_ids_def note_event_def somes_append Let_def split: option.split prod.split)

lemma aside_opening:
  "aside d (note_event [Connection True] (upd_client (\<lambda>c. c\<lparr>wc_reconnectAttempts := 0\<rparr>) (d\<lparr>dv_sockets := ss\<rparr>)))"
  by (simp add: aside_def accepted_ids_def note_event_def upd_client_def somes_append)

lemma inv_step: "delivery_inv d \<Longrightarrow> delivery_inv (delivery_step d x)"
proof (cases x)
  case (Emit K raw)
  assume inv: "delivery_inv d"
  have "delivery_inv (notifyAppended n (d'\<lparr>dv_store := snd (log_append now ev (dv_store d'))\<rparr>))" if "aside d d'" for n now ev d'
    using inv_append [OF aside_inv [OF that inv]] by (simp add: notifyAppended_def inv_flush)
  then have "delivery_inv (notifyAppended n (observe_order K ev d\<lparr>dv_store := snd (log_append now ev (dv_store (observe_order K ev d)))\<rparr>))" for n now ev
    using aside_observe by blast
  moreover have "aside d (note_event [Validation_error t] d)" for t by (simp add: aside_def accepted_note)
  ultimately show ?thesis
    using inv aside_inv [OF _ inv] by (auto simp: Emit emit_def Let_def split: option.split)
next
  case (Socket_opens now hi l)
  assume inv: "delivery_inv d"
  let ?d = "note_event [Connection True] (upd_client (\<lambda>c. c\<lparr>wc_reconnectAttempts := 0\<rparr>) (d\<lparr>dv_sockets := AList.update l OPEN (dv_sockets d)\<rparr>))"
  have "delivery_inv ?d" by (rule aside_inv [OF aside_opening inv])
  then show ?thesis
    using inv aside_inv [OF aside_ops(4), of ?d] by (auto simp: Socket_opens socket_opens_def Let_def intro!: inv_flush)
next
  case Close_log
  assume "delivery_inv d"
  then show ?thesis
    by (simp add: Close_log delivery_inv_def delivered_upto_def log_close_def log_wf_def unsent_def sent_rows_def accepted_ids_def)
next
  case (Restart c ch)
  assume "delivery_inv d"
  then show ?thesis
    by (auto simp: Restart restart_def delivery_inv_def delivered_upto_def log_wf_def unsent_def sent_rows_def accepted_ids_def flush_ok_def)
qed (auto intro: aside_inv [OF aside_ops(1)] aside_inv [OF aside_ops(2)] aside_inv [OF aside_ops(3)] aside_inv [OF aside_ops(4)]
    aside_inv [OF aside_ops(5)] aside_inv [OF aside_ops(6)] aside_inv [OF aside_inbound] inv_send_done split: option.split)

interpretation delivery: stream_fold delivery_step delivery_inv
  by unfold_locales (rule inv_step)

lemma inv_run: "delivery_inv (delivery_run c ch ops)"
proof -
  have "delivery_inv (delivery_start c ch)"
    by (simp add: delivery_start_def restart_def delivery_inv_def delivered_upto_def store_new_def log_wf_def unsent_def sent_rows_def
        accepted_ids_def firsts_def flush_ok_def)
  then show ?thesis unfolding delivery_run_def by (rule delivery.run_inv)
qed

section \<open>The flush ends\<close>

lemma connected_simps [simp]:
  "ws_connected (note_event es d) = ws_connected d" "ws_connected (d\<lparr>dv_store := st\<rparr>) = ws_connected d"
  by (simp_all add: ws_connected_def note_event_def split: option.split)

lemma connected_flushing [simp]: "ws_connected (upd_client (\<lambda>c. c\<lparr>wc_flushing := f\<rparr>) d) = ws_connected d"
  by (simp add: ws_connected_def upd_client_def split: option.split)

lemma markSent_closed [simp]: "es_closed (markSent now ids st) = es_closed st"
  by (simp add: markSent_def)

definition sending :: "StoredRow list \<Rightarrow> Flush \<Rightarrow> StoredRow list \<Rightarrow> Delivery \<Rightarrow> bool" where
  "sending A f B d \<longleftrightarrow> ws_connected d \<and> \<not> es_closed (dv_store d) \<and> log_wf (dv_store d) \<and> wc_flushing (dv_client d) = Some f
     \<and> unsent (dv_store d) = A @ fl_row f # fl_rest f @ B \<and> fl_sentIds f = map sr_event_id A"

lemma try_send_connected:
  "ws_connected d \<Longrightarrow> \<exists>l. try_send now row rest ids d =
    note_event [Event_frame l (sr_event row)] (upd_client (\<lambda>c. c\<lparr>wc_flushing := Some \<lparr>fl_row = row, fl_rest = rest, fl_sentIds = ids\<rparr>\<rparr>) d)"
  by (auto simp: try_send_def ws_connected_def split: option.splits)

lemma send_done_progress:
  assumes "sending A f B d"
  shows "(fl_rest f @ B = [] \<and> wc_flushing (dv_client (send_done now True d)) = None \<and> unsent (dv_store (send_done now True d)) = [])
    \<or> (\<exists>A' f' B'. sending A' f' B' (send_done now True d) \<and> length (fl_rest f' @ B') < length (fl_rest f @ B))"
proof (cases "fl_rest f")
  case (Cons row rest)
  let ?d = "note_event [Accepted (sr_event (fl_row f))] d"
  obtain l where l: "try_send now row rest (map sr_event_id (A @ [fl_row f])) ?d =
      note_event [Event_frame l (sr_event row)]
        (upd_client (\<lambda>c. c\<lparr>wc_flushing := Some \<lparr>fl_row = row, fl_rest = rest, fl_sentIds = map sr_event_id (A @ [fl_row f])\<rparr>\<rparr>) ?d)"
    using try_send_connected [of ?d] assms by (fastforce simp: sending_def)
  have "send_done now True d = try_send now row rest (map sr_event_id (A @ [fl_row f])) ?d"
    using assms Cons by (simp add: send_done_def sending_def)
  then show ?thesis
    using assms Cons unfolding l
    by (intro disjI2 exI [of _ "A @ [fl_row f]"] exI [of _ "\<lparr>fl_row = row, fl_rest = rest, fl_sentIds = map sr_event_id (A @ [fl_row f])\<rparr>"] exI [of _ B])
       (simp add: sending_def)
next
  case Nil
  let ?d = "(note_event [Accepted (sr_event (fl_row f))] d)\<lparr>dv_store := markSent now (map sr_event_id (A @ [fl_row f])) (dv_store d)\<rparr>"
  have step: "send_done now True d = flush_next now ?d"
    using assms Nil by (simp add: send_done_def sending_def)
  have wf: "log_wf (dv_store d)" "\<not> es_closed (dv_store d)" "unsent (dv_store d) = (A @ [fl_row f]) @ B"
    using assms Nil by (simp_all add: sending_def)
  note m = markSent_split(1,3) [OF wf, of now]
  show ?thesis
  proof (cases B)
    case Nil
    then show ?thesis using \<open>fl_rest f = []\<close> m(1) by (simp add: step flush_next_def pendingUnsent_def)
  next
    case (Cons row more)
    let ?rest = "take 199 more" and ?B = "drop 199 more"
    obtain l where l: "try_send now row ?rest [] ?d =
        note_event [Event_frame l (sr_event row)] (upd_client (\<lambda>c. c\<lparr>wc_flushing := Some \<lparr>fl_row = row, fl_rest = ?rest, fl_sentIds = []\<rparr>\<rparr>) ?d)"
      using try_send_connected [of ?d] assms by (fastforce simp: sending_def)
    have "send_done now True d = try_send now row ?rest [] ?d"
      using m(1) wf(2) Cons by (simp add: step flush_next_def pendingUnsent_def)
    then show ?thesis
      using assms m Cons \<open>fl_rest f = []\<close> unfolding l
      by (intro disjI2 exI [of _ "[]"] exI [of _ "\<lparr>fl_row = row, fl_rest = ?rest, fl_sentIds = []\<rparr>"] exI [of _ ?B]) (simp add: sending_def)
  qed
qed

lemma send_done_idle: "wc_flushing (dv_client d) = None \<Longrightarrow> (send_done now ok ^^ n) d = d"
proof (induction n)
  case (Suc n)
  then show ?case by (simp add: send_done_def)
qed simp

lemma sends_end:
  assumes "sending A f B d" "length (fl_rest f @ B) < n"
  shows "wc_flushing (dv_client ((send_done now True ^^ n) d)) = None \<and> unsent (dv_store ((send_done now True ^^ n) d)) = []"
  using assms
proof (induction n arbitrary: A f B d)
  case (Suc n)
  from send_done_progress [OF Suc.prems(1), of now] show ?case
  proof (elim disjE conjE exE)
    fix A' f' B'
    assume "sending A' f' B' (send_done now True d)" "length (fl_rest f' @ B') < length (fl_rest f @ B)"
    then show ?thesis using Suc.IH Suc.prems(2) by (fastforce simp: funpow_swap1)
  qed (simp add: funpow_swap1 send_done_idle)
qed simp

section \<open>What leaves the process\<close>

fun event_of :: "delivery_event \<Rightarrow> NormalizedEvent option" where
  "event_of (Event_frame l ev) = Some ev"
| "event_of (Accepted ev) = Some ev"
| "event_of _ = None"

definition carries :: "NormalizedEvent set \<Rightarrow> Delivery \<Rightarrow> bool" where
  "carries P d \<longleftrightarrow> sr_event ` set (es_rows (dv_store d)) \<subseteq> P \<and> set (somes (map event_of (dv_log d))) \<subseteq> P
     \<and> (\<forall>f. wc_flushing (dv_client d) = Some f \<longrightarrow> sr_event ` set (fl_row f # fl_rest f) \<subseteq> P)"

lemma carries_note: "carries P (note_event es d) \<longleftrightarrow> carries P d \<and> set (somes (map event_of es)) \<subseteq> P"
  by (auto simp: carries_def note_event_def somes_append)

lemma carries_client: "carries P d \<Longrightarrow> wc_flushing (f (dv_client d)) = wc_flushing (dv_client d) \<Longrightarrow> carries P (upd_client f d)"
  by (simp add: carries_def upd_client_def)

lemma carries_other: "carries P d \<Longrightarrow> carries P (d\<lparr>dv_sockets := ss\<rparr>)" "carries P d \<Longrightarrow> carries P (d\<lparr>dv_dialled := n\<rparr>)"
    "carries P d \<Longrightarrow> carries P (d\<lparr>dv_checker := ch\<rparr>)"
  by (simp_all add: carries_def)

lemmas carries_intros = carries_note [THEN iffD2] carries_client carries_other

lemma rows_markSent: "sr_event ` set (es_rows (markSent now ids st)) = sr_event ` set (es_rows st)"
  by (metis list.set_map map_markSent(1))

lemma carries_mark: "carries P d \<Longrightarrow> carries P (d\<lparr>dv_store := markSent now ids (dv_store d)\<rparr>)"
  by (simp add: carries_def rows_markSent)

lemma carries_flush_end: "carries P d \<Longrightarrow> carries P (flush_end now ids d)"
  using rows_markSent by (auto simp: flush_end_def carries_def upd_client_def)

lemma carries_try_send:
  assumes "carries P d" "sr_event ` set (row # rest) \<subseteq> P"
  shows "carries P (try_send now row rest ids d)"
proof -
  have "carries P (upd_client (\<lambda>c. c\<lparr>wc_flushing := Some \<lparr>fl_row = row, fl_rest = rest, fl_sentIds = ids\<rparr>\<rparr>) d)"
    using assms by (simp add: carries_def upd_client_def)
  then show ?thesis
    using assms carries_flush_end by (simp add: try_send_def carries_note split: option.split)
qed

lemma carries_flush_next: assumes "carries P d" shows "carries P (flush_next now d)"
proof (cases "pendingUnsent 200 (dv_store d)")
  case Nil
  then show ?thesis using assms by (simp add: flush_next_def carries_def upd_client_def)
next
  case (Cons row rest)
  have "set (pendingUnsent 200 (dv_store d)) \<subseteq> set (es_rows (dv_store d))"
    by (auto simp: pendingUnsent_def unsent_def dest: in_set_takeD)
  then have "sr_event ` set (row # rest) \<subseteq> P" using assms unfolding Cons by (auto simp: carries_def)
  then show ?thesis using assms by (simp add: flush_next_def Cons carries_try_send)
qed

lemma carries_flush: "carries P d \<Longrightarrow> carries P (flush now d)"
  by (simp add: flush_def carries_flush_next)

lemma carries_send_done: assumes "carries P d" shows "carries P (send_done now ok d)"
proof (cases "wc_flushing (dv_client d)")
  case (Some f)
  have "sr_event ` set (fl_row f # fl_rest f) \<subseteq> P" using assms Some by (simp add: carries_def)
  then have "carries P (note_event [Accepted (sr_event (fl_row f))] d)" "sr_event ` set (fl_rest f) \<subseteq> P"
    using assms by (simp_all add: carries_note)
  then show ?thesis
    using assms by (auto simp: send_done_def Some Let_def carries_flush_end carries_try_send split: list.split
        intro!: carries_flush_next carries_mark [of P "note_event _ d", simplified])
qed (use assms in \<open>simp add: send_done_def\<close>)

lemma carries_send: "carries P d \<Longrightarrow> carries P (sendRaw p d)"
  by (simp add: sendRaw_def carries_note split: option.split)

lemma carries_emit:
  assumes "carries P d" "\<And>ev. checked_event K (redactEventWithAuthoritativeCounts K raw) = Some ev \<Longrightarrow> ev \<in> P"
  shows "carries P (snd (emit K raw d))"
proof -
  have "carries P (observe_order K ev d)" for ev
    using assms(1) by (simp add: observe_order_def Let_def carries_intros split: option.split prod.split)
  moreover have "carries P (d'\<lparr>dv_store := snd (log_append now ev (dv_store d'))\<rparr>)" if "carries P d'" "ev \<in> P" for d' now ev
    using that by (cases rule: log_append_cases [of now ev "dv_store d'"]) (auto simp: carries_def)
  ultimately show ?thesis
    using assms by (auto simp: emit_def Let_def notifyAppended_def carries_note carries_flush split: option.split)
qed

lemma carries_step:
  assumes "carries P d" "\<And>K raw ev. x = Emit K raw \<Longrightarrow> checked_event K (redactEventWithAuthoritativeCounts K raw) = Some ev \<Longrightarrow> ev \<in> P"
  shows "carries P (delivery_step d x)"
proof (cases x)
  case (Emit K raw)
  then show ?thesis using carries_emit assms by simp
next
  case (Inbound msg)
  then show ?thesis using assms(1) by (auto simp: handleInbound_def carries_note split: option.split)
next
  case (Restart c ch)
  then show ?thesis using assms(1) by (simp add: restart_def carries_def)
next
  case Close_log
  then show ?thesis using assms(1) by (simp add: log_close_def carries_def)
qed (use assms(1) in \<open>simp_all add: client_connect_def socket_opens_def socket_closes_def scheduleReconnect_def reconnect_due_def
      reannounce_def client_close_def Let_def carries_intros carries_flush carries_send_done carries_send split: option.split\<close>)

lemma carries_run:
  "carries {ev. \<exists>K raw. Emit K raw \<in> set ops \<and> checked_event K (redactEventWithAuthoritativeCounts K raw) = Some ev} (delivery_run c ch ops)"
proof (induction ops rule: rev_induct)
  case Nil
  show ?case by (simp add: delivery_run_def delivery_start_def restart_def carries_def store_new_def)
next
  case (snoc x ops)
  have mono: "carries P d \<Longrightarrow> P \<subseteq> Q \<Longrightarrow> carries Q d" for P Q d unfolding carries_def by (meson order_trans)
  show ?case
    unfolding delivery_run_def foldl_append foldl.simps
    by (rule carries_step, rule mono [OF snoc [unfolded delivery_run_def]]) auto
qed

section \<open>Append only\<close>

definition extends_log :: "EventStore \<Rightarrow> EventStore \<Rightarrow> bool" where
  "extends_log st st' \<longleftrightarrow> (\<exists>new. map sr_event (es_rows st') = map sr_event (es_rows st) @ new)"

lemma extends_refl [simp]: "extends_log st st"
  by (simp add: extends_log_def)

lemma extends_trans: "extends_log st st' \<Longrightarrow> extends_log st' st'' \<Longrightarrow> extends_log st st''"
  by (auto simp: extends_log_def)

lemma extends_mark [simp]: "extends_log st (markSent now ids st)"
  by (simp add: extends_log_def map_markSent)

lemma extends_append: "extends_log st (snd (log_append now ev st))"
  by (cases rule: log_append_cases [of now ev st]) (auto simp: extends_log_def)

lemma extends_flush:
  "extends_log st (dv_store d) \<Longrightarrow> extends_log st (dv_store (flush_end now ids d))"
  "extends_log st (dv_store d) \<Longrightarrow> extends_log st (dv_store (try_send now row rest ids d))"
  "extends_log st (dv_store d) \<Longrightarrow> extends_log st (dv_store (flush_next now d))"
  "extends_log st (dv_store d) \<Longrightarrow> extends_log st (dv_store (flush now d))"
proof -
  show e: "extends_log st (dv_store d) \<Longrightarrow> extends_log st (dv_store (flush_end now ids d))" for now ids
    by (auto simp: flush_end_def intro: extends_trans)
  show t: "extends_log st (dv_store d) \<Longrightarrow> extends_log st (dv_store (try_send now row rest ids d))" for now row rest ids
    using e by (simp add: try_send_def split: option.split)
  show n: "extends_log st (dv_store d) \<Longrightarrow> extends_log st (dv_store (flush_next now d))"
    using t by (simp add: flush_next_def split: list.split)
  show "extends_log st (dv_store d) \<Longrightarrow> extends_log st (dv_store (flush now d))"
    using n by (simp add: flush_def)
qed

lemma extends_send_done: "extends_log (dv_store d) (dv_store (send_done now ok d))"
  by (auto simp: send_done_def Let_def extends_flush split: option.split list.split)

lemma aside_extends: "aside d d' \<Longrightarrow> extends_log (dv_store d) (dv_store d')"
  by (simp add: aside_def)

lemma extends_step: "extends_log (dv_store d) (dv_store (delivery_step d x))"
proof (cases x)
  case (Emit K raw)
  have "dv_store (observe_order K ev d) = dv_store d" for ev using aside_observe by (simp add: aside_def)
  then show ?thesis
    by (auto simp: Emit emit_def Let_def notifyAppended_def extends_append extends_flush split: option.split)
next
  case (Socket_opens now hi l)
  let ?d = "note_event [Connection True] (upd_client (\<lambda>c. c\<lparr>wc_reconnectAttempts := 0\<rparr>) (d\<lparr>dv_sockets := AList.update l OPEN (dv_sockets d)\<rparr>))"
  have "extends_log (dv_store d) (dv_store ?d)" by simp
  moreover have "extends_log (dv_store d) (dv_store (sendRaw p ?d))" for p
    using aside_extends [OF aside_ops(4), of ?d p] by simp
  ultimately show ?thesis by (simp add: Socket_opens socket_opens_def Let_def extends_flush(4))
next
  case (Inbound msg)
  then show ?thesis by (auto intro: aside_extends aside_inbound split: option.split)
next
  case Close_log
  then show ?thesis by (simp add: log_close_def extends_log_def)
next
  case (Restart c ch)
  then show ?thesis by (simp add: restart_def extends_log_def)
qed (simp_all add: extends_send_done aside_ops [THEN aside_extends])

section \<open>Properties\<close>

lemma set_firsts: "set (firsts xs) = set xs"
  by (induction xs rule: rev_induct) (auto simp: firsts_snoc set_add_def, simp add: firsts_def)

lemma in_order:
  assumes "delivery_inv d"
  shows "\<exists>n. firsts (accepted_ids d) = map sr_event_id (take n (es_rows (dv_store d)))"
    and "sr_event_id ` set (sent_rows (dv_store d)) \<subseteq> set (accepted_ids d)"
proof -
  obtain X Y where *: "log_wf (dv_store d)" "unsent (dv_store d) = X @ Y" "firsts (accepted_ids d) = map sr_event_id (sent_rows (dv_store d) @ X)"
    using assms by (auto simp: delivery_inv_def delivered_upto_def)
  show "\<exists>n. firsts (accepted_ids d) = map sr_event_id (take n (es_rows (dv_store d)))"
    by (rule exI [of _ "length (sent_rows (dv_store d) @ X)"]) (simp only: * log_wfD(3) [OF *(1)] append_assoc [symmetric] take_append, simp)
  show "sr_event_id ` set (sent_rows (dv_store d)) \<subseteq> set (accepted_ids d)"
    using * set_firsts [of "accepted_ids d"] by auto
qed

lemma extends_run: "extends_log (dv_store (delivery_run c ch ops)) (dv_store (delivery_run c ch (ops @ later)))"
proof (induction later rule: rev_induct)
  case (snoc x xs)
  then show ?case
    using extends_trans [OF _ extends_step] by (simp add: delivery_run_def append_assoc [symmetric] del: append_assoc)
qed simp

text \<open>
  C14. Events reach the backend in order and without gaps. After any run, with lost connections,
  failed sends and restarts, the events that a socket has accepted are, taking each at its first
  occurrence, an initial piece of the log; an event is marked as sent only if it was accepted; and
  the log is only ever extended, so what has not been delivered yet will be offered again.
\<close>

theorem delivery_in_order:
  "(\<exists>n. firsts (accepted_ids (delivery_run c ch ops)) = map sr_event_id (take n (es_rows (dv_store (delivery_run c ch ops)))))
   \<and> sr_event_id ` set (sent_rows (dv_store (delivery_run c ch ops))) \<subseteq> set (accepted_ids (delivery_run c ch ops))
   \<and> (\<exists>new. map sr_event (es_rows (dv_store (delivery_run c ch (ops @ later)))) = map sr_event (es_rows (dv_store (delivery_run c ch ops))) @ new)"
  using in_order [OF inv_run] extends_run [unfolded extends_log_def] by blast

text \<open>
  C19. A flush delivers everything. Once a flush is under way on an open connection and the sends
  succeed, it ends, after at most as many sends as there are unsent events; then every event of the
  log has been accepted and is marked as sent.
\<close>

theorem flush_delivers:
  assumes "wc_flushing (dv_client (delivery_run c ch ops)) \<noteq> None" "ws_connected (delivery_run c ch ops)"
    and "\<not> es_closed (dv_store (delivery_run c ch ops))" "unsentCount (dv_store (delivery_run c ch ops)) \<le> n"
  shows "wc_flushing (dv_client ((send_done now True ^^ n) (delivery_run c ch ops))) = None
    \<and> unsentCount (dv_store ((send_done now True ^^ n) (delivery_run c ch ops))) = 0
    \<and> sr_event_id ` set (es_rows (dv_store ((send_done now True ^^ n) (delivery_run c ch ops))))
        \<subseteq> set (accepted_ids ((send_done now True ^^ n) (delivery_run c ch ops)))"
proof -
  let ?d = "delivery_run c ch ops" and ?e = "(send_done now True ^^ n) (delivery_run c ch ops)"
  obtain f X A B where f: "wc_flushing (dv_client ?d) = Some f" and X: "delivered_upto X ?d"
    and U: "unsent (dv_store ?d) = A @ fl_row f # fl_rest f @ B" "fl_sentIds f = map sr_event_id A"
    using inv_run [of c ch ops] assms(1) by (auto simp: delivery_inv_def flush_ok_def)
  then have "sending A f B ?d" using assms by (simp add: sending_def delivered_upto_def)
  moreover have "length (fl_rest f @ B) < n" using U(1) assms(3,4) by (simp add: unsentCount_def)
  ultimately have e: "wc_flushing (dv_client ?e) = None" "unsent (dv_store ?e) = []" using sends_end by blast+
  have inv: "delivery_inv ?e"
  proof (induction n)
    case (Suc n)
    then show ?case by (simp add: inv_send_done)
  qed (simp add: inv_run)
  have "es_rows (dv_store ?e) = sent_rows (dv_store ?e)"
    using inv e(2) by (auto simp: delivery_inv_def delivered_upto_def dest: log_wfD(3))
  then show ?thesis using e in_order(2) [OF inv] by (simp add: unsentCount_def)
qed

text \<open>
  C18. Nothing leaves or is stored unredacted or unchecked. Every event in the log and every event
  frame handed to a socket is what the schema check accepted of the redacted form, with its
  recomputed counts, of a candidate given to the sink, and its payload agrees with its type.
\<close>

theorem only_checked_leaves:
  assumes "ev \<in> sr_event ` set (es_rows (dv_store (delivery_run c ch ops))) \<or> Event_frame l ev \<in> set (dv_log (delivery_run c ch ops))"
  shows "\<exists>K raw. Emit K raw \<in> set ops \<and> sk_parseEvent K (redactEventWithAuthoritativeCounts K raw) = Inr ev \<and> assertPayloadConsistency K ev"
proof -
  have "ev \<in> set (somes (map event_of es))" if "Event_frame l ev \<in> set es" for es
    using that by (auto simp: set_somes image_iff) (metis event_of.simps(1))
  then obtain K raw where *: "Emit K raw \<in> set ops" "checked_event K (redactEventWithAuthoritativeCounts K raw) = Some ev"
    using assms carries_run [of ops c ch] unfolding carries_def by blast
  then have "sk_parseEvent K (redactEventWithAuthoritativeCounts K raw) = Inr ev \<and> assertPayloadConsistency K ev"
    by (cases "sk_parseEvent K (redactEventWithAuthoritativeCounts K raw)") (auto simp: checked_event_def split: if_splits)
  then show ?thesis using *(1) by blast
qed

section \<open>An example\<close>

text \<open>A client that dials, connects and then emits one event.\<close>

definition sample_event :: NormalizedEvent where
  "sample_event = \<lparr>ev_event_id = js ''e1'', ev_provider = js ''claude_code'', ev_source = Src_hooks, ev_session_id = js ''s'', ev_provider_session_id = None,
     ev_start_kind = None, ev_resumed_from_session_id = None, ev_end_kind = None, ev_recoverability = None, ev_capture_mode = None,
     ev_governance_mode = None, ev_permission_mode = None, ev_redaction_count = Some (JFin 0), ev_redaction_count_by_kind = Some [],
     ev_seq = None, ev_thread_id = None, ev_turn_id = None, ev_agent_id = None, ev_event_type = ET_turn_started, ev_state = None,
     ev_timestamp = js ''1970-01-01T00:00:01Z'', ev_cwd = None, ev_summary = None, ev_payload = JObj [], ev_metrics = JObj []\<rparr>"

definition sample_client :: WsClient where
  "sample_client = \<lparr>wc_ws = None, wc_controlToken = Some (js ''t0ken''), wc_policyCapable = True, wc_spawnCapable = False, wc_runtimeEpoch = None,
     wc_reconnectBaseMs = 500, wc_reconnectMaxMs = 10000, wc_reconnectAttempts = 0, wc_reconnectTimer = None, wc_flushing = None, wc_closed = False\<rparr>"

definition sample_checker :: BoundedMonotonic where
  "sample_checker = \<lparr>bm_entries = \<lparr>lru_map = [], lru_maxEntries = 10\<rparr>, bm_ttlMs = None\<rparr>"

definition sample_sink :: sink_env where
  "sample_sink = \<lparr>sk_redactDeepWithCount = (\<lambda>v. (v, jint 0, JObj [])), sk_parseEvent = (\<lambda>v. Inr sample_event), sk_payload_ok = (\<lambda>v. True),
     sk_nowMs = 0, sk_now = js ''now''\<rparr>"

definition sample_hello_inputs :: hello_inputs where
  "sample_hello_inputs = \<lparr>hi_sessionIds = [js ''s''], hi_agentVisibility = None, hi_pendingIds = None, hi_daemonCounters = None\<rparr>"

definition sample_delivery :: "delivery_op list" where
  "sample_delivery = [Dial, Socket_opens (js ''now'') sample_hello_inputs 0, Emit sample_sink (JObj [])]"

lemma sample_store_after:
  assumes "ws_connected d" "wc_flushing (dv_client d) = None" "pendingUnsent 200 (dv_store d) \<noteq> []"
  shows "dv_store (notifyAppended now d) = dv_store d \<and> wc_flushing (dv_client (notifyAppended now d)) \<noteq> None \<and> ws_connected (notifyAppended now d)"
proof -
  obtain row rest where r: "pendingUnsent 200 (dv_store d) = row # rest" using assms(3) by (meson neq_Nil_conv)
  obtain l where "try_send now row rest [] d =
      note_event [Event_frame l (sr_event row)] (upd_client (\<lambda>c. c\<lparr>wc_flushing := Some \<lparr>fl_row = row, fl_rest = rest, fl_sentIds = []\<rparr>\<rparr>) d)"
    using try_send_connected [OF assms(1)] by blast
  then show ?thesis using assms r by (simp add: notifyAppended_def flush_def flush_next_def)
qed

lemma sample_open:
  "ws_connected (delivery_run sample_client sample_checker [Dial, Socket_opens (js ''now'') sample_hello_inputs 0])
   \<and> wc_flushing (dv_client (delivery_run sample_client sample_checker [Dial, Socket_opens (js ''now'') sample_hello_inputs 0])) = None
   \<and> dv_store (delivery_run sample_client sample_checker [Dial, Socket_opens (js ''now'') sample_hello_inputs 0]) = store_new"
  by (simp add: delivery_run_def delivery_start_def restart_def client_connect_def socket_opens_def sample_client_def Let_def note_event_def
      upd_client_def has_token_def sendRaw_def ws_connected_def flush_def flush_next_def pendingUnsent_def unsent_def store_new_def)

lemma connected_observe: "ws_connected (observe_order K ev d) = ws_connected d"
  by (simp add: observe_order_def Let_def ws_connected_def note_event_def split: option.split prod.split)

lemma sample_emitted:
  "wc_flushing (dv_client (delivery_run sample_client sample_checker sample_delivery)) \<noteq> None
   \<and> ws_connected (delivery_run sample_client sample_checker sample_delivery)
   \<and> map sr_event (es_rows (dv_store (delivery_run sample_client sample_checker sample_delivery))) = [sample_event]
   \<and> unsentCount (dv_store (delivery_run sample_client sample_checker sample_delivery)) = 1
   \<and> \<not> es_closed (dv_store (delivery_run sample_client sample_checker sample_delivery))"
proof -
  let ?d = "delivery_run sample_client sample_checker [Dial, Socket_opens (js ''now'') sample_hello_inputs 0]"
  let ?o = "observe_order sample_sink sample_event ?d"
  let ?e = "?o\<lparr>dv_store := snd (log_append (js ''now'') sample_event (dv_store ?o))\<rparr>"
  have ck: "checked_event sample_sink v = Some sample_event" for v
    by (simp add: checked_event_def sample_sink_def assertPayloadConsistency_def sample_event_def)
  have o: "dv_store ?o = store_new" "ws_connected ?o" "wc_flushing (dv_client ?o) = None"
    using aside_observe [of ?d sample_sink sample_event] sample_open by (simp_all add: aside_def connected_observe)
  have run: "delivery_run sample_client sample_checker sample_delivery = notifyAppended (js ''now'') ?e"
    by (simp add: sample_delivery_def delivery_run_def emit_def ck Let_def) (simp add: sample_sink_def)
  have e: "es_rows (dv_store ?e) = [\<lparr>sr_event_id = js ''e1'', sr_session_id = js ''s'', sr_event_type = ET_turn_started, sr_seq = 1,
      sr_event = sample_event, sr_created_at = js ''now'', sr_sent_at = None\<rparr>]" "\<not> es_closed (dv_store ?e)"
    unfolding o(1) Delivery.simps by (simp_all add: log_append_def store_new_def) (simp add: sample_event_def)
  have "pendingUnsent 200 (dv_store ?e) \<noteq> []" using e by (simp add: pendingUnsent_def unsent_def)
  from sample_store_after [OF _ _ this, of "js ''now''"] show ?thesis
    unfolding run using o(2,3) e by (simp add: unsentCount_def unsent_def)
qed

theorem flush_delivers_witness:
  "unsentCount (dv_store ((send_done (js ''now'') True ^^ 1) (delivery_run sample_client sample_checker sample_delivery))) = 0"
  using flush_delivers [of sample_client sample_checker sample_delivery 1 "js ''now''"] sample_emitted by simp

theorem only_checked_leaves_witness:
  "\<exists>K raw. Emit K raw \<in> set sample_delivery \<and> sk_parseEvent K (redactEventWithAuthoritativeCounts K raw) = Inr sample_event
     \<and> assertPayloadConsistency K sample_event"
proof (rule only_checked_leaves [of sample_event sample_client sample_checker sample_delivery 0], rule disjI1)
  show "sample_event \<in> sr_event ` set (es_rows (dv_store (delivery_run sample_client sample_checker sample_delivery)))"
    using sample_emitted by (metis list.set_intros(1) list.set_map)
qed

end
