(* ===== verification/Control_Channel.thy ===== *)
theory Control_Channel
  imports Control_Handlers Delivery_Correct
begin

text \<open>
  The control channel end to end: from a request of the operator at the backend, over the frame on
  the wire and the check of its token, to its effect on the approval bridge of the sidecar and back.
\<close>

section \<open>Tokens\<close>

lemma bit7_ge: "bit (n :: nat) 7 \<Longrightarrow> n \<ge> 128"
  by (rule ccontr) (simp add: bit_iff_odd)

lemma or_bit7: "bit (m :: nat) 7 \<Longrightarrow> m OR n \<ge> 128"
  by (rule bit7_ge) (simp add: bit_or_iff)

lemma high_bytes: "(0xc0 :: nat) OR n \<ge> 128" "(0xe0 :: nat) OR n \<ge> 128" "(0xf0 :: nat) OR n \<ge> 128"
  by (rule or_bit7, simp add: bit_iff_odd)+

lemma utf8_first:
  "c \<ge> 128 \<Longrightarrow> \<exists>b bs. utf8Bytes (c # s) = b # bs \<and> b \<ge> 128"
  using high_bytes by (auto simp: Let_def split: list.split)

lemma utf8_ascii: "list_all (\<lambda>c. c < 128) t \<Longrightarrow> utf8Bytes t = t"
  by (induction t) auto

lemma utf8_ascii_unique: "list_all (\<lambda>c. c < 128) t \<Longrightarrow> utf8Bytes s = t \<Longrightarrow> s = t"
proof (induction t arbitrary: s)
  case Nil
  show ?case
  proof (cases s)
    case (Cons a l)
    then show ?thesis using Nil.prems(2) utf8_first [of a l] by (cases "a < 128") auto
  qed simp
next
  case (Cons b t)
  then obtain c s' where s: "s = c # s'" by (cases s) auto
  have "c < 128"
  proof (rule ccontr)
    assume "\<not> c < 128"
    then show False using utf8_first [of c s'] Cons.prems s by auto
  qed
  then show ?case using Cons s by simp
qed

definition ascii_token :: "jstring \<Rightarrow> bool" where
  "ascii_token t \<longleftrightarrow> t \<noteq> [] \<and> list_all (\<lambda>c. c < 128) t"

lemma tokenEquals_ascii: "ascii_token t \<Longrightarrow> tokenEquals t v \<longleftrightarrow> v = JStr t"
proof (cases v)
  case (JStr p)
  assume t: "ascii_token t"
  have a: "list_all (\<lambda>c. c < 128) t" and ne: "t \<noteq> []" using t by (simp_all add: ascii_token_def)
  have "utf8Bytes p = utf8Bytes t \<longleftrightarrow> p = t" using utf8_ascii_unique [OF a] utf8_ascii [OF a] by metis
  then show ?thesis using ne unfolding tokenEquals_def JStr by (auto simp: Let_def)
qed (simp_all add: tokenEquals_def)

lemma authorized_ascii:
  "wc_controlToken c = Some t \<Longrightarrow> ascii_token t \<Longrightarrow> isAuthorizedControl c v \<longleftrightarrow> v = JStr t"
  by (simp add: isAuthorizedControl_def tokenEquals_ascii) (simp add: ascii_token_def)

lemma inbound_control:
  assumes "js_get f (js ''type'') = JStr (js ty)" "(ty, ev) \<in> set control_events" "js_get f (js ''token'') = JStr t"
    and "wc_controlToken (dv_client d) = Some t'" "ascii_token t'"
  shows "handleInbound (Some f) d = Some (if t = t' then note_event [Dispatched ev f] d else d)"
proof -
  have "f \<notin> {JNull, JUndef}" using assms(1) by auto
  moreover have "find (\<lambda>(ty', ev). js ty = js ty') control_events = Some (ty, ev)"
    using assms(2) by (auto simp: control_events_def js_def)
  ultimately show ?thesis using assms(1,3) authorized_ascii [OF assms(4,5)] by (auto simp: handleInbound_def)
qed

section \<open>The handshake\<close>

lemma foldl_claim:
  "cn_link (rg_conn (foldl (\<lambda>r sid. claim env c sid r) r sids) x) = cn_link (rg_conn r x)"
  "cn_controlToken (rg_conn (foldl (\<lambda>r sid. claim env c sid r) r sids) x) = cn_controlToken (rg_conn r x)"
  "sid \<in> set sids \<or> map_of (rg_sessionOwner r) sid = Some c \<Longrightarrow>
    map_of (rg_sessionOwner (foldl (\<lambda>r sid. claim env c sid r) r sids)) sid = Some c"
  by (induction sids arbitrary: r) (auto simp: update_conv')

lemma foldl_release:
  "cn_link (rg_conn (foldl (\<lambda>r sid. if sid \<in> S then r else releaseSession c sid r) r sids) x) = cn_link (rg_conn r x)"
  "cn_controlToken (rg_conn (foldl (\<lambda>r sid. if sid \<in> S then r else releaseSession c sid r) r sids) x) = cn_controlToken (rg_conn r x)"
  "sid \<in> S \<Longrightarrow> map_of (rg_sessionOwner (foldl (\<lambda>r sid. if sid \<in> S then r else releaseSession c sid r) r sids)) sid = map_of (rg_sessionOwner r) sid"
  by (induction sids arbitrary: r) (auto simp: releaseSession_def upd_conn_def delete_conv')

lemma hello_session_list:
  "hello_sessions (JArr (map JStr ids)) = Some nxt \<Longrightarrow> sid \<in> set ids \<Longrightarrow> sid \<noteq> [] \<Longrightarrow> sid \<in> set nxt"
proof -
  have "set (foldl (\<lambda>nxt v. case js_string v of Some sid \<Rightarrow> if length sid > 0 then set_add sid nxt else nxt | None \<Rightarrow> nxt) acc (map JStr ids))
      = set acc \<union> {sid \<in> set ids. sid \<noteq> []}" for acc
    by (induction ids arbitrary: acc) (auto simp: set_add_def)
  then show "hello_sessions (JArr (map JStr ids)) = Some nxt \<Longrightarrow> sid \<in> set ids \<Longrightarrow> sid \<noteq> [] \<Longrightarrow> sid \<in> set nxt" by auto
qed

lemma hello_learns:
  assumes "map_of (rg_conns r) l = Some c" "js_get frame (js ''control_token'') = JStr t" "t \<noteq> []"
    and "js_get frame (js ''session_ids'') = JArr (map JStr ids)" "sid \<in> set ids" "sid \<noteq> []"
  shows "map_of (rg_sessionOwner (snd (handleHello env now l frame r))) sid = Some c"
    and "cn_controlToken (rg_conn (snd (handleHello env now l frame r)) c) = Some t"
    and "cn_link (rg_conn (snd (handleHello env now l frame r)) c) = cn_link (rg_conn r c)"
proof -
  let ?r1 = "upd_conn c (record_hello frame) r"
  let ?r2 = "hello_membership env c (hello_sessions (js_get frame (js ''session_ids''))) ?r1"
  obtain nxt where nxt: "hello_sessions (js_get frame (js ''session_ids'')) = Some nxt" by (simp add: assms(4))
  have "sid \<in> set nxt" using hello_session_list nxt assms(4-6) by simp
  then have own: "map_of (rg_sessionOwner ?r2) sid = Some c"
    by (simp add: nxt hello_membership_def Let_def foldl_release(3) foldl_claim(3))
  have tok: "cn_controlToken (rg_conn ?r2 c) = Some t" "cn_link (rg_conn ?r2 c) = cn_link (rg_conn r c)"
    using assms(2,3) by (simp_all add: nxt hello_membership_def Let_def foldl_release foldl_claim record_hello_def)
  define r3 where "r3 = (case parseRuntimeEpoch (js_get frame (js ''runtime_epoch'')) of
      Some e \<Rightarrow> upd_conn c (\<lambda>conn. conn\<lparr>cn_runtimeEpoch := Some e\<rparr>) ?r2 | None \<Rightarrow> ?r2)"
  have step: "snd (handleHello env now l frame r) = maybeEmitApprovalReconcile now c (js_get frame (js ''active_pending_request_ids'')) r3"
    using assms(1) by (simp add: handleHello_def r3_def Let_def)
  note m = membership_fields [OF membership_reconcile [of now c "js_get frame (js ''active_pending_request_ids'')" r3]]
  have r3: "rg_sessionOwner r3 = rg_sessionOwner ?r2" "cn_controlToken (rg_conn r3 c) = cn_controlToken (rg_conn ?r2 c)"
    "cn_link (rg_conn r3 c) = cn_link (rg_conn ?r2 c)"
    by (simp_all add: r3_def split: option.split)
  show "map_of (rg_sessionOwner (snd (handleHello env now l frame r))) sid = Some c"
    "cn_controlToken (rg_conn (snd (handleHello env now l frame r)) c) = Some t"
    "cn_link (rg_conn (snd (handleHello env now l frame r)) c) = cn_link (rg_conn r c)"
    unfolding step m(1,3) using own tok r3 by simp_all
qed

lemma hello_frame_fields:
  "wc_controlToken c = Some t \<Longrightarrow> js_get (buildHelloFrame c hi) (js ''control_token'') = JStr t"
  "js_get (buildHelloFrame c hi) (js ''session_ids'') = JArr (map JStr (hi_sessionIds hi))"
  by (simp_all add: buildHelloFrame_def)

section \<open>Frames\<close>

lemma map_of_opt_prop: "map_of (opt_prop k v @ ps) x = (if x = js k \<and> v \<noteq> None then v else map_of ps x)"
  by (auto simp: opt_prop_def split: option.split)

lemma map_of_opt_prop_last: "map_of (opt_prop k v) x = (if x = js k then v else None)"
  by (auto simp: opt_prop_def split: option.split)

lemmas frame_get = map_of_opt_prop map_of_opt_prop_last

lemma approval_frame_fields:
  assumes "cn_controlToken conn = Some t"
  shows "js_get (approval_frame relay conn) (js ''type'') = JStr (js ''approval'')"
    "js_get (approval_frame relay conn) (js ''token'') = JStr t"
    "js_get (approval_frame relay conn) (js ''request_id'') = JStr (rl_request_id relay)"
    "js_get (approval_frame relay conn) (js ''decision'') = JStr (rl_decision relay)"
    "js_string (js_get (approval_frame relay conn) (js ''reason'')) = rl_reason relay"
    "js_get (approval_frame relay conn) (js ''persist'') = (if rl_persist relay then JBool True else JUndef)"
  using assms by (auto simp: approval_frame_def token_json_def frame_get simp del: map_of_append split: option.split)

lemma find_decision: "find (\<lambda>d. decision_str d = decision_str dec) APPROVAL_DECISIONS = Some dec"
  by (cases dec) (simp_all add: APPROVAL_DECISIONS_def)

lemma on_approval_frame:
  assumes "cn_controlToken conn = Some t" "rl_decision relay = js (decision_str dec)"
  shows "on_approval b (approval_frame relay conn) now disk = resolve b (rl_request_id relay) dec (rl_reason relay) (rl_persist relay) now disk"
  by (simp add: on_approval_def approval_frame_fields [OF assms(1)] assms(2) find_decision)

lemma policy_frame_fields:
  "js_get (policy_frame rid conn (policy_payload op params) x) (js ''request_id'') = JStr rid"
  "js_get (policy_frame rid conn (policy_payload op params) x) (js ''op'') = JStr (js (policy_op_str op))"
  "js_get (policy_frame rid conn (policy_payload op params) [(js ''persist'', JBool False)]) (js ''persist'') = JBool False"
  "js_get (policy_frame rid conn (policy_payload op params) []) (js ''persist'') = JUndef"
  by (simp_all add: policy_frame_def policy_payload_def frame_get del: map_of_append)

lemma policy_frame_set:
  "js_get (policy_frame rid conn (policy_payload Op_set params) x) (js ''repo_scope'')
     = (case pp_repo_scope params of Some s \<Rightarrow> JStr s | None \<Rightarrow> js_get (JObj x) (js ''repo_scope''))"
  "js_get (policy_frame rid conn (policy_payload Op_set params) x) (js ''categories'')
     = (case pp_categories params of Some cs \<Rightarrow> JArr (map JStr cs) | None \<Rightarrow> js_get (JObj x) (js ''categories''))"
  "js_get (policy_frame rid conn (policy_payload Op_set params) x) (js ''enabled'')
     = (case pp_enabled params of Some e \<Rightarrow> JBool e | None \<Rightarrow> js_get (JObj x) (js ''enabled''))"
  "js_get (policy_frame rid conn (policy_payload Op_set params) x) (js ''repo_label'')
     = (case pp_repo_label params of Some s \<Rightarrow> JStr s | None \<Rightarrow> js_get (JObj x) (js ''repo_label''))"
  by (auto simp: policy_frame_def policy_payload_def frame_get only_when_def simp del: map_of_append split: option.split)

text \<open>The update a set request asks for.\<close>

definition asked_update :: "PolicyRelayParams \<Rightarrow> bool \<Rightarrow> PolicyUpdate" where
  "asked_update params persist =
    \<lparr>up_enabled = pp_enabled params, up_categories = map_option (\<lambda>cs. {c. js (category_str c) \<in> set cs}) (pp_categories params),
     up_repoScope = pp_repo_scope params, up_repoLabel = Option.bind (pp_repo_label params) (\<lambda>l. sanitizeRepoLabel (JStr l)), up_persist = Some persist\<rparr>"

lemma all_options: "c \<in> set policy_options"
  by (cases c) (simp_all add: policy_options_def)

lemma somes_Some: "somes (map (\<lambda>x. Some (f x)) xs) = map f xs"
  by (induction xs) simp_all

lemma sanitize_strings: "sanitizeCategories (JArr (map JStr cs)) = {c. js (category_str c) \<in> set cs}"
  using all_options by (auto simp: sanitizeCategories_def orderPolicyCategories_def o_def somes_Some [of "\<lambda>x. x", simplified])

lemma requested_asked:
  assumes "x = [] \<and> p \<or> x = [(js ''persist'', JBool False)] \<and> \<not> p"
  shows "requested_update (policy_frame rid conn (policy_payload Op_set params) x) (pp_repo_scope params) = asked_update params p"
proof -
  have "js_get (JObj x) (js k) = JUndef" if "k \<in> {''repo_scope'', ''categories'', ''enabled'', ''repo_label''}" for k
    using assms that by auto
  moreover have "js_get (policy_frame rid conn (policy_payload Op_set params) x) (js ''persist'') \<noteq> JBool False \<longleftrightarrow> p"
    using assms policy_frame_fields(3,4) by auto
  ultimately show ?thesis
    by (simp add: requested_update_def asked_update_def policy_frame_set sanitize_strings sanitizeRepoLabel_def split: option.split)
qed

section \<open>Views\<close>

text \<open>What the backend makes of a policy view.\<close>

definition relayed_view :: "PolicyConfigView \<Rightarrow> PolicyRelayView" where
  "relayed_view v = \<lparr>pw_enabled = pv_enabled v, pw_categories = filter (\<lambda>c. c \<in> pv_categories v) policy_options,
     pw_env_gate_enabled = pv_envGateEnabled v, pw_repo_scope = pv_repoScope v, pw_repo_label = pv_repoLabel v,
     pw_is_override = pv_isOverride v, pw_repos = None\<rparr>"

lemma order_categories: "orderPolicyCategories (category_strs cats) = filter (\<lambda>c. c \<in> cats) policy_options"
  by (simp add: orderPolicyCategories_def category_strs_def image_iff)

lemma project_wire: "projectPolicyCategories (categories_wire cats) = filter (\<lambda>c. c \<in> cats) policy_options"
proof -
  have "set (somes (map js_string (map (\<lambda>c. JStr (js (category_str c))) cs))) = (\<lambda>c. js (category_str c)) ` set cs" for cs
    by (induction cs) simp_all
  then have "projectPolicyCategories (categories_wire cats) = orderPolicyCategories ((\<lambda>c. js (category_str c)) ` set (orderPolicyCategories (category_strs cats)))"
    by (simp add: categories_wire_def)
  also have "\<dots> = filter (\<lambda>c. c \<in> set (filter (\<lambda>c. c \<in> cats) policy_options)) policy_options"
    unfolding order_categories by (rule order_categories [unfolded category_strs_def])
  also have "\<dots> = filter (\<lambda>c. c \<in> cats) policy_options" by (rule filter_cong) auto
  finally show ?thesis .
qed

lemma policy_result_view:
  "policy_result (viewToResponse rid v) = (if pv_persistError v then Policy_error (js PERSIST_ERROR) else Policy_ok (relayed_view v))"
  by (auto simp: policy_result_def viewToResponse_def policy_view_of_def relayed_view_def frame_get project_wire
      PERSIST_ERROR_def MAX_RELAY_ERROR_LEN_def simp del: map_of_append split: option.split)

lemma view_request_id: "js_get (viewToResponse rid v) (js ''request_id'') = JStr rid"
  by (simp add: viewToResponse_def)

lemma set_response:
  assumes "rid \<noteq> []" "\<And>s. pp_repo_scope params = Some s \<Longrightarrow> REPO_SCOPE_RE s" "x = [] \<and> p \<or> x = [(js ''persist'', JBool False)] \<and> \<not> p"
  shows "buildPolicyResponse collate found disk (policy_frame rid conn (policy_payload Op_set params) x) b =
    (Some (viewToResponse rid (fst (setPolicyConfig b (asked_update params p) disk))), snd (setPolicyConfig b (asked_update params p) disk))"
proof -
  have sc: "js_get (policy_frame rid conn (policy_payload Op_set params) x) (js ''repo_scope'') = (case pp_repo_scope params of Some s \<Rightarrow> JStr s | None \<Rightarrow> JUndef)"
    using assms(3) by (auto simp: policy_frame_set split: option.split)
  then have "js_string (js_get (policy_frame rid conn (policy_payload Op_set params) x) (js ''repo_scope'')) = pp_repo_scope params"
    by (simp split: option.split)
  then show ?thesis
    using assms(1,2) sc
    by (auto simp: buildPolicyResponse_def nonempty_string_def policy_frame_fields requested_asked [OF assms(3)] Let_def case_prod_unfold
        split: option.splits)
qed

lemma set_view:
  "fst (setPolicyConfig b u disk) = (getPolicyConfig (snd (setPolicyConfig b u disk)) (up_repoScope u))\<lparr>pv_persistError := pv_persistError (fst (setPolicyConfig b u disk))\<rparr>"
  by (simp add: setPolicyConfig_def Let_def case_prod_unfold split: option.split)

lemma policy_persist_memory:
  "br_policyDefault (snd (persist_unless f b delta disk)) = br_policyDefault b" "br_policyRepos (snd (persist_unless f b delta disk)) = br_policyRepos b"
  "persist_unless (Some False) b delta disk = (True, b)"
  by (simp_all add: persist_unless_def persistDelta_def safePersist_def)

lemma set_memory:
  "br_policyDefault (snd (setPolicyConfig b (asked_update params p) disk)) = br_policyDefault (snd (setPolicyConfig b (asked_update params q) disk'))"
  "br_policyRepos (snd (setPolicyConfig b (asked_update params p) disk)) = br_policyRepos (snd (setPolicyConfig b (asked_update params q) disk'))"
  "br_policyFile (snd (setPolicyConfig b (asked_update params False) disk)) = br_policyFile b"
  by (simp_all add: setPolicyConfig_def asked_update_def Let_def case_prod_unfold policy_persist_memory split: option.split)

lemma relayed_ignores_error: "relayed_view (v\<lparr>pv_persistError := e\<rparr>) = relayed_view v"
  by (simp add: relayed_view_def)

section \<open>Properties\<close>

text \<open>
  A decision of the operator reaches the gate it is meant for, and no other. After a sidecar has
  said hello on a connection with its token and its sessions, a decision relayed for one of those sessions is
  sent to that connection; the client of that sidecar accepts the frame, and its handler resolves the
  named request in the bridge with exactly that decision, reason and choice to persist. A client
  with another token ignores the frame.
\<close>

lemma decision_reaches_bridge:
  assumes "map_of (rg_conns (registry_run ops)) l = Some c" "en_open env l" "en_send env l"
    and "wc_controlToken (dv_client d) = Some t" "ascii_token t"
    and "rl_session_id relay \<in> set (hi_sessionIds hi)" "rl_session_id relay \<noteq> []" "rl_decision relay = js (decision_str dec)"
    and "wc_controlToken (dv_client other) = Some t'" "ascii_token t'" "t' \<noteq> t"
  shows "\<exists>f. relayApproval env relay (snd (handleHello env now l (buildHelloFrame (dv_client d) hi) (registry_run ops)))
        = (Relay_ok, record_events [Sent l f] (snd (handleHello env now l (buildHelloFrame (dv_client d) hi) (registry_run ops))))
    \<and> handleInbound (Some f) d = Some (note_event [Dispatched ''approval'' f] d)
    \<and> on_approval b f tm disk = resolve b (rl_request_id relay) dec (rl_reason relay) (rl_persist relay) tm disk
    \<and> handleInbound (Some f) other = Some other"
proof -
  let ?frame = "buildHelloFrame (dv_client d) hi" and ?r = "snd (handleHello env now l (buildHelloFrame (dv_client d) hi) (registry_run ops))"
  let ?conn = "rg_conn ?r c" and ?f = "approval_frame relay (rg_conn ?r c)"
  have "t \<noteq> []" using assms(5) by (simp add: ascii_token_def)
  note h = hello_learns [OF assms(1) hello_frame_fields(1) [OF assms(4)] this hello_frame_fields(2) assms(6,7), of env now]
  have l: "cn_link ?conn = l"
    using h(3) wf_parts(3) [OF wf_run] map_of_SomeD [OF assms(1)] by metis
  note ff = approval_frame_fields [OF h(2), of relay]
  have "relayApproval env relay ?r = (Relay_ok, record_events [Sent l ?f] ?r)"
    using h(1,2) l assms(2,3) by (simp add: relayApproval_def relay_to_def channel_error_def link_send_def Let_def)
  moreover have "handleInbound (Some ?f) d = Some (note_event [Dispatched ''approval'' ?f] d)"
    using inbound_control [OF ff(1) _ ff(2) assms(4,5)] by (simp add: control_events_def)
  moreover have "handleInbound (Some ?f) other = Some other"
    using inbound_control [OF ff(1) _ ff(2) assms(9,10)] assms(11) by (auto simp: control_events_def)
  ultimately show ?thesis using on_approval_frame [OF h(2) assms(8)] by blast
qed

text \<open>
  The operator is told the policy that is in force. The frame of a policy change makes the
  addressed sidecar apply exactly that change, and the answer it sends is read by the backend as the
  policy its bridge then has, or as the error that the change is in memory only. The copy another
  sidecar gets has the same effect on an equal policy in memory and leaves its file alone.
\<close>

theorem policy_change_answered:
  assumes "rid \<noteq> []" "rid' \<noteq> []" "\<And>s. pp_repo_scope params = Some s \<Longrightarrow> REPO_SCOPE_RE s"
  shows "\<exists>resp b' resp' b''.
      buildPolicyResponse collate found disk (policy_frame rid conn (policy_payload Op_set params) []) b = (Some resp, b')
    \<and> b' = snd (setPolicyConfig b (asked_update params True) disk)
    \<and> js_get resp (js ''request_id'') = JStr rid
    \<and> policy_result resp = (if pv_persistError (fst (setPolicyConfig b (asked_update params True) disk)) then Policy_error (js PERSIST_ERROR)
         else Policy_ok (relayed_view (getPolicyConfig b' (pp_repo_scope params))))
    \<and> buildPolicyResponse collate' found' disk' (policy_frame rid' conn' (policy_payload Op_set params) [(js ''persist'', JBool False)]) b = (Some resp', b'')
    \<and> br_policyDefault b'' = br_policyDefault b' \<and> br_policyRepos b'' = br_policyRepos b' \<and> br_policyFile b'' = br_policyFile b"
proof -
  let ?u = "asked_update params True"
  have "policy_result (viewToResponse rid (fst (setPolicyConfig b ?u disk))) =
      (if pv_persistError (fst (setPolicyConfig b ?u disk)) then Policy_error (js PERSIST_ERROR)
       else Policy_ok (relayed_view (getPolicyConfig (snd (setPolicyConfig b ?u disk)) (pp_repo_scope params))))"
    unfolding policy_result_view by (subst set_view) (simp add: relayed_ignores_error, simp add: asked_update_def)
  moreover note set_response [OF assms(1,3), where x = "[]" and p = True] set_response [OF assms(2,3), where x = "[(js ''persist'', JBool False)]" and p = False]
  ultimately show ?thesis using set_memory view_request_id by simp
qed

section \<open>An example\<close>

definition empty_bridge :: ApprovalBridge where
  "empty_bridge = bridge_new \<lparr>opt_timeoutMs = None, opt_persist = None, opt_policy = None, opt_policyRepos = None,
      opt_hasResolver = False, opt_policyEnvEnabled = None, opt_persistPolicy = True\<rparr> None None"

definition other_client :: WsClient where
  "other_client = sample_client\<lparr>wc_controlToken := Some (js ''0ther'')\<rparr>"

lemma sample_tokens: "ascii_token (js ''t0ken'')" "ascii_token (js ''0ther'')" "js ''0ther'' \<noteq> js ''t0ken''"
  by (simp_all add: ascii_token_def js_def)

definition strict_params :: PolicyRelayParams where
  "strict_params = \<lparr>pp_categories = Some [js ''destructive_git''], pp_enabled = Some True, pp_repo_scope = None, pp_repo_label = None,
     pp_path = None, pp_resolveScope = None\<rparr>"

theorem policy_change_answered_witness:
  "\<exists>resp b'. buildPolicyResponse (\<lambda>xs. xs) (\<lambda>p. None) Disk_ok (policy_frame [1] (sample_conn 11 [100] [5] [[9]]) (policy_payload Op_set strict_params) []) empty_bridge = (Some resp, b')
    \<and> policy_result resp = Policy_ok (relayed_view (getPolicyConfig b' None))"
proof -
  have "\<not> pv_persistError (fst (setPolicyConfig empty_bridge (asked_update strict_params True) Disk_ok))" "pp_repo_scope strict_params = None"
    by (simp_all add: setPolicyConfig_def asked_update_def strict_params_def Let_def case_prod_unfold persist_unless_def persistDelta_def
        safePersist_def empty_bridge_def)
  then show ?thesis
    using policy_change_answered [of "[1]" "[2]" strict_params "\<lambda>xs. xs" "\<lambda>p. None" Disk_ok "sample_conn 11 [100] [5] [[9]]" empty_bridge
        "\<lambda>xs. xs" "\<lambda>p. None" Disk_ok "sample_conn 11 [100] [5] [[9]]"] by auto
qed

end
