(* ===== verification/Session_Identity.thy ===== *)
theory Session_Identity
  imports Approval_Bridge "HOL-Library.Sublist" "HOL-Library.Multiset"
begin

text \<open>
  Which run an event belongs to: \<^verbatim>\<open>apps/sidecar/src/session-identity.ts\<close>. The identity learns the
  run from the hooks, holds back what the monitors report before that, and starts a new run when the
  provider changes its identifier or comes back after the end.

  A held entry keeps the thunk that builds and emits its event; here it is the label \<open>he_build\<close> of
  the thunk, and calling it is an entry of the log \<open>si_log\<close>, as is every call of the two observers.
  A new event identifier is an argument. Lower-casing is that of ASCII: no other code unit
  is lower-cased to a letter of the five words that are compared.
\<close>

section \<open>Data\<close>

datatype HeldCategory = Cat_heartbeat | Cat_diff | Cat_output

datatype resolve_source = From_hook | From_fallback | From_explicit

record 'e HeldEvent =
  he_category :: HeldCategory
  he_build :: 'e

record LaunchLineage =
  ll_startKind :: StartKind
  ll_resumedFrom :: "jstring option"

record PriorTerminalRun =
  ptr_runId :: jstring
  ptr_providerSessionId :: jstring

record RunBoundaryResult =
  rb_runId :: jstring
  rb_boundary :: bool
  rb_startKind :: "StartKind option"
  rb_resumedFrom :: "jstring option"

datatype 'e identity_event =
    Resolved jstring resolve_source
  | Built "'e HeldEvent" jstring "jstring option"
  | Hold_dropped_trim "'e HeldEvent"
  | Hold_dropped_overflow "'e HeldEvent"
  | Hold_ignored "'e HeldEvent"

text \<open>The last event is not reported to anybody: what arrives unresolved after the disposal.\<close>

record SessionIdentityOptions =
  io_fallbackSessionId :: jstring
  io_explicitSessionId :: "jstring option"
  io_maxHeld :: "nat option"
  io_flushTimeoutMs :: "nat option"
  io_priorTerminalRun :: "PriorTerminalRun option"
  io_launchLineage :: "LaunchLineage option"

record 'e SessionIdentity =
  si_fallbackSessionId :: jstring
  si_maxHeld :: nat
  si_launchLineage :: "LaunchLineage option"
  si_canonical :: "jstring option"
  si_providerSessionId :: "jstring option"
  si_currentRunTerminal :: bool
  si_generation :: nat
  si_hookObserved :: bool
  si_held :: "'e HeldEvent list"
  si_flushTimer :: bool
  si_disposed :: bool
  si_log :: "'e identity_event list"

definition tell_identity :: "'e identity_event list \<Rightarrow> 'e SessionIdentity \<Rightarrow> 'e SessionIdentity" where
  "tell_identity es s = s\<lparr>si_log := si_log s @ es\<rparr>"

definition identity_new :: "SessionIdentityOptions \<Rightarrow> 'e SessionIdentity" where
  "identity_new opts =
    (let s = \<lparr>si_fallbackSessionId = io_fallbackSessionId opts,
              si_maxHeld = (case io_maxHeld opts of None \<Rightarrow> 1000 | Some n \<Rightarrow> n),
              si_launchLineage = io_launchLineage opts,
              si_canonical = None, si_providerSessionId = None, si_currentRunTerminal = False,
              si_generation = 0, si_hookObserved = False, si_held = [], si_flushTimer = False,
              si_disposed = False, si_log = []\<rparr>;
         explicit = (case io_explicitSessionId opts of
                       Some e \<Rightarrow>
                         if length e > 0
                         then tell_identity [Resolved e From_explicit]
                                (s\<lparr>si_canonical := Some e, si_providerSessionId := Some e\<rparr>)
                         else s\<lparr>si_flushTimer := (case io_flushTimeoutMs opts of None \<Rightarrow> False | Some t \<Rightarrow> t > 0)\<rparr>
                     | None \<Rightarrow>
                         s\<lparr>si_flushTimer := (case io_flushTimeoutMs opts of None \<Rightarrow> False | Some t \<Rightarrow> t > 0)\<rparr>)
     in case io_priorTerminalRun opts of
          Some p \<Rightarrow>
            if length (ptr_runId p) > 0 \<and> length (ptr_providerSessionId p) > 0
            then tell_identity [Resolved (ptr_runId p) From_explicit]
                   (s\<lparr>si_canonical := Some (ptr_runId p), si_providerSessionId := Some (ptr_providerSessionId p),
                      si_currentRunTerminal := True\<rparr>)
            else explicit
        | None \<Rightarrow> explicit)"

section \<open>Reading\<close>

definition isResolved :: "'e SessionIdentity \<Rightarrow> bool" where
  "isResolved s = (si_canonical s \<noteq> None)"

definition currentSessionId :: "'e SessionIdentity \<Rightarrow> jstring" where
  "currentSessionId s = (case si_canonical s of Some c \<Rightarrow> c | None \<Rightarrow> si_fallbackSessionId s)"

definition heldCount :: "'e SessionIdentity \<Rightarrow> nat" where
  "heldCount s = length (si_held s)"

section \<open>The hold buffer\<close>

fun findIndex :: "('a \<Rightarrow> bool) \<Rightarrow> 'a list \<Rightarrow> nat option" where
  "findIndex P [] = None"
| "findIndex P (x # xs) = (if P x then Some 0 else map_option Suc (findIndex P xs))"

definition splice1 :: "nat \<Rightarrow> 'a list \<Rightarrow> 'a list" where
  "splice1 i xs = take i xs @ drop (Suc i) xs"

lemma findIndex_Some: "findIndex P xs = Some i \<Longrightarrow> i < length xs \<and> P (xs ! i)"
  by (induction xs arbitrary: i) (auto split: if_splits)

lemma findIndex_None: "findIndex P xs = None \<longleftrightarrow> \<not> list_ex P xs"
  by (induction xs) auto

lemma length_splice1: "i < length xs \<Longrightarrow> length (splice1 i xs) < length xs"
  by (simp add: splice1_def)

function trimToBound :: "'e SessionIdentity \<Rightarrow> 'e SessionIdentity" where
  "trimToBound s =
    (if length (si_held s) \<le> si_maxHeld s then s
     else case findIndex (\<lambda>e. he_category e = Cat_heartbeat) (si_held s) of
            Some i \<Rightarrow> trimToBound (tell_identity [Hold_dropped_trim (si_held s ! i)] (s\<lparr>si_held := splice1 i (si_held s)\<rparr>))
          | None \<Rightarrow> trimToBound (tell_identity [Hold_dropped_overflow (si_held s ! 0)] (s\<lparr>si_held := splice1 0 (si_held s)\<rparr>)))"
  by pat_completeness auto
termination
proof (relation "measure (\<lambda>s. length (si_held s))")
  show "wf (measure (\<lambda>s :: 'e SessionIdentity. length (si_held s)))"
    by simp
qed (auto simp: tell_identity_def dest!: findIndex_Some intro!: length_splice1)

declare trimToBound.simps [simp del]

definition hold :: "'e HeldEvent \<Rightarrow> 'e SessionIdentity \<Rightarrow> 'e SessionIdentity" where
  "hold ev s =
    (if si_disposed s then tell_identity [Hold_ignored ev] s
     else
       (let s' = s\<lparr>si_held := si_held s @ [ev]\<rparr> in
        if length (si_held s') \<le> si_maxHeld s' then s' else trimToBound s'))"

definition emitMonitoring :: "'e HeldEvent \<Rightarrow> 'e SessionIdentity \<Rightarrow> 'e SessionIdentity" where
  "emitMonitoring ev s =
    (case si_canonical s of
       Some c \<Rightarrow> tell_identity [Built ev c (si_providerSessionId s)] s
     | None \<Rightarrow> hold ev s)"

definition flushHeld :: "'e SessionIdentity \<Rightarrow> 'e SessionIdentity" where
  "flushHeld s =
    (case si_canonical s of
       None \<Rightarrow> s
     | Some c \<Rightarrow> tell_identity (map (\<lambda>ev. Built ev c (si_providerSessionId s)) (si_held s)) (s\<lparr>si_held := []\<rparr>))"

definition resolve_identity :: "jstring \<Rightarrow> resolve_source \<Rightarrow> 'e SessionIdentity \<Rightarrow> 'e SessionIdentity" where
  "resolve_identity i src s =
    flushHeld (tell_identity [Resolved i src]
      (s\<lparr>si_canonical := Some i, si_providerSessionId := Some i, si_flushTimer := False\<rparr>))"

definition resolveWithFallback :: "'e SessionIdentity \<Rightarrow> 'e SessionIdentity" where
  "resolveWithFallback s =
    (if si_canonical s \<noteq> None \<or> si_disposed s then s
     else resolve_identity (si_fallbackSessionId s) From_fallback s)"

text \<open>The callback of the timer, which only runs while the timer is armed.\<close>

definition flush_timer_due :: "'e SessionIdentity \<Rightarrow> 'e SessionIdentity" where
  "flush_timer_due s = (if si_flushTimer s then resolveWithFallback (s\<lparr>si_flushTimer := False\<rparr>) else s)"

definition dispose_identity :: "'e SessionIdentity \<Rightarrow> 'e SessionIdentity" where
  "dispose_identity s =
    (if si_disposed s then s
     else
       (let s1 = s\<lparr>si_flushTimer := False\<rparr>;
            s2 = (if si_canonical s1 = None \<and> length (si_held s1) > 0 then resolveWithFallback s1 else s1)
        in s2\<lparr>si_disposed := True\<rparr>))"

section \<open>Runs\<close>

definition learn :: "jstring \<Rightarrow> 'e SessionIdentity \<Rightarrow> bool \<times> 'e SessionIdentity" where
  "learn hookSessionId s =
    (if length hookSessionId = 0 then (False, s)
     else if si_canonical s \<noteq> None then (False, s)
     else (True, resolve_identity hookSessionId From_hook s))"

definition normalizeSource :: "jstring option \<Rightarrow> string option" where
  "normalizeSource source =
    (case source of
       None \<Rightarrow> None
     | Some src \<Rightarrow>
         if length src = 0 then None
         else
           (let s = map ascii_lower src in
            if s = js ''startup'' \<or> s = js ''fresh'' then Some ''startup''
            else if s = js ''resume'' then Some ''resume''
            else if s = js ''clear'' then Some ''clear''
            else if s = js ''compact'' then Some ''compact''
            else None))"

definition deriveStartKind :: "string option \<Rightarrow> bool \<Rightarrow> StartKind" where
  "deriveStartKind src hasParent =
    (if src = Some ''resume'' then Start_resume
     else if src = Some ''clear'' then Start_clear
     else if src = Some ''startup'' then Start_fresh
     else if hasParent then Start_resume else Start_unknown)"

definition mintSyntheticSessionId :: "jstring \<Rightarrow> jstring" where
  "mintSyntheticSessionId newId = js ''sess_'' @ newId"

definition rotateRun :: "jstring \<Rightarrow> jstring \<Rightarrow> 'e SessionIdentity \<Rightarrow> 'e SessionIdentity" where
  "rotateRun newRunId newProvider s =
    s\<lparr>si_canonical := Some newRunId, si_providerSessionId := Some newProvider,
      si_currentRunTerminal := False, si_generation := si_generation s + 1\<rparr>"

definition plain_result :: "jstring \<Rightarrow> RunBoundaryResult" where
  "plain_result runId = \<lparr>rb_runId = runId, rb_boundary = False, rb_startKind = None, rb_resumedFrom = None\<rparr>"

definition launch_resumed_from :: "jstring \<Rightarrow> LaunchLineage option \<Rightarrow> jstring option" where
  "launch_resumed_from provider launch =
    (case launch of
       None \<Rightarrow> None
     | Some l \<Rightarrow> (case ll_resumedFrom l of None \<Rightarrow> None | Some r \<Rightarrow> if r \<noteq> provider then Some r else None))"

definition onHookSession ::
  "jstring \<Rightarrow> jstring option \<Rightarrow> jstring \<Rightarrow> 'e SessionIdentity \<Rightarrow> RunBoundaryResult \<times> 'e SessionIdentity" where
  "onHookSession provider source newId s =
    (let src = normalizeSource source in
     if length provider = 0 then (plain_result (currentSessionId s), s)
     else if si_disposed s then (plain_result (case si_canonical s of Some c \<Rightarrow> c | None \<Rightarrow> provider), s)
     else
       (let firstObservation = (\<not> si_hookObserved s);
            s = s\<lparr>si_hookObserved := True\<rparr>
        in case si_canonical s of
             None \<Rightarrow>
               (\<lparr>rb_runId = provider, rb_boundary = False,
                 rb_startKind = Some (case si_launchLineage s of Some l \<Rightarrow> ll_startKind l | None \<Rightarrow> deriveStartKind src False),
                 rb_resumedFrom = launch_resumed_from provider (si_launchLineage s)\<rparr>,
                resolve_identity provider From_hook s)
           | Some parent \<Rightarrow>
               if si_providerSessionId s = Some provider then
                 if si_currentRunTerminal s then
                   (let newRunId = mintSyntheticSessionId newId in
                    (\<lparr>rb_runId = newRunId, rb_boundary = True, rb_startKind = Some (deriveStartKind src True),
                      rb_resumedFrom = Some parent\<rparr>, rotateRun newRunId provider s))
                 else if firstObservation then
                   ((plain_result parent)\<lparr>rb_startKind := Some (deriveStartKind src False)\<rparr>, s)
                 else (plain_result parent, s)
               else if src = Some ''compact'' then
                 (plain_result parent, s\<lparr>si_providerSessionId := Some provider\<rparr>)
               else
                 (\<lparr>rb_runId = provider, rb_boundary = True, rb_startKind = Some (deriveStartKind src True),
                   rb_resumedFrom = Some parent\<rparr>, rotateRun provider provider s)))"

definition markRunTerminal :: "'e SessionIdentity \<Rightarrow> 'e SessionIdentity" where
  "markRunTerminal s = (if si_canonical s = None then s else s\<lparr>si_currentRunTerminal := True\<rparr>)"

section \<open>What can happen to an identity\<close>

datatype 'e identity_op =
    Hook_session jstring "jstring option" jstring
  | Learn jstring
  | Monitoring "'e HeldEvent"
  | Run_ended
  | Flush_timer
  | Flush_with_fallback
  | Dispose_identity

fun identity_step :: "'e identity_op \<Rightarrow> 'e SessionIdentity \<Rightarrow> 'e SessionIdentity" where
  "identity_step (Hook_session p src n) s = snd (onHookSession p src n s)"
| "identity_step (Learn p) s = snd (learn p s)"
| "identity_step (Monitoring ev) s = emitMonitoring ev s"
| "identity_step Run_ended s = markRunTerminal s"
| "identity_step Flush_timer s = flush_timer_due s"
| "identity_step Flush_with_fallback s = resolveWithFallback s"
| "identity_step Dispose_identity s = dispose_identity s"

definition identity_run :: "'e identity_op list \<Rightarrow> 'e SessionIdentity \<Rightarrow> 'e SessionIdentity" where
  "identity_run ops s = foldl (\<lambda>s op. identity_step op s) s ops"

text \<open>What the hooks of a run are told, in order.\<close>

fun hook_results :: "'e identity_op list \<Rightarrow> 'e SessionIdentity \<Rightarrow> RunBoundaryResult list" where
  "hook_results [] s = []"
| "hook_results (Hook_session p src n # ops) s =
    fst (onHookSession p src n s) # hook_results ops (snd (onHookSession p src n s))"
| "hook_results (op # ops) s = hook_results ops (identity_step op s)"

fun monitored :: "'e identity_op list \<Rightarrow> 'e HeldEvent list" where
  "monitored [] = []"
| "monitored (Monitoring ev # ops) = ev # monitored ops"
| "monitored (_ # ops) = monitored ops"

fun built :: "'e identity_event list \<Rightarrow> 'e HeldEvent list" where
  "built [] = []"
| "built (Built ev c p # es) = ev # built es"
| "built (_ # es) = built es"

fun resolutions :: "'e identity_event list \<Rightarrow> jstring list" where
  "resolutions [] = []"
| "resolutions (Resolved r src # es) = r # resolutions es"
| "resolutions (_ # es) = resolutions es"

fun dropped :: "'e identity_event list \<Rightarrow> 'e HeldEvent list" where
  "dropped [] = []"
| "dropped (Hold_dropped_trim ev # es) = ev # dropped es"
| "dropped (Hold_dropped_overflow ev # es) = ev # dropped es"
| "dropped (Hold_ignored ev # es) = ev # dropped es"
| "dropped (_ # es) = dropped es"

end
