(* ===== verification/Session_Identity_Correct.thy ===== *)
theory Session_Identity_Correct
  imports Session_Identity
begin

text \<open>
  The identity of a run: what monitors report before it is known is neither lost nor reordered, one
  run stays one session, and the runs of an identity form one chain.
\<close>

section \<open>The hold buffer\<close>

lemma subseq_splice1: "subseq (splice1 i xs) xs"
proof (induction i arbitrary: xs)
  case 0
  then show ?case
    by (cases xs) (auto simp: splice1_def)
next
  case (Suc i)
  show ?case
  proof (cases xs)
    case (Cons x ys)
    then show ?thesis
      using Suc [of ys] by (simp add: splice1_def)
  qed (simp add: splice1_def)
qed

lemma mset_splice1: "i < length xs \<Longrightarrow> mset xs = add_mset (xs ! i) (mset (splice1 i xs))"
  by (subst id_take_nth_drop [of i xs]) (simp_all add: splice1_def)

lemma log_append [simp]:
  "built (es @ fs) = built es @ built fs"
  "dropped (es @ fs) = dropped es @ dropped fs"
  "resolutions (es @ fs) = resolutions es @ resolutions fs"
proof -
  show "built (es @ fs) = built es @ built fs"
    by (induction es rule: built.induct) simp_all
  show "dropped (es @ fs) = dropped es @ dropped fs"
    by (induction es rule: dropped.induct) simp_all
  show "resolutions (es @ fs) = resolutions es @ resolutions fs"
    by (induction es rule: resolutions.induct) simp_all
qed

lemma built_map [simp]:
  "built (map (\<lambda>ev. Built ev c p) evs) = evs"
  "dropped (map (\<lambda>ev. Built ev c p) evs) = []"
  "resolutions (map (\<lambda>ev. Built ev c p) evs) = []"
  by (induction evs) simp_all

lemma monitored_append: "monitored (xs @ ys) = monitored xs @ monitored ys"
  by (induction xs rule: monitored.induct) simp_all

text \<open>What an identity keeps besides its buffer and its log.\<close>

definition same_run :: "'e SessionIdentity \<Rightarrow> 'e SessionIdentity \<Rightarrow> bool" where
  "same_run s t \<longleftrightarrow> s\<lparr>si_held := [], si_log := []\<rparr> = t\<lparr>si_held := [], si_log := []\<rparr>"

lemma same_run_fields:
  assumes "same_run s t"
  shows "si_canonical t = si_canonical s" "si_providerSessionId t = si_providerSessionId s"
    "si_currentRunTerminal t = si_currentRunTerminal s" "si_generation t = si_generation s"
    "si_hookObserved t = si_hookObserved s" "si_disposed t = si_disposed s" "si_flushTimer t = si_flushTimer s"
    "si_maxHeld t = si_maxHeld s" "si_launchLineage t = si_launchLineage s"
    "si_fallbackSessionId t = si_fallbackSessionId s"
  using assms by (cases s; cases t; simp add: same_run_def)+

lemma trimToBound_spec:
  "same_run s (trimToBound s) \<and> length (si_held (trimToBound s)) \<le> si_maxHeld s
   \<and> built (si_log (trimToBound s)) = built (si_log s) \<and> resolutions (si_log (trimToBound s)) = resolutions (si_log s)
   \<and> mset (si_held (trimToBound s)) + mset (dropped (si_log (trimToBound s))) = mset (si_held s) + mset (dropped (si_log s))
   \<and> subseq (si_held (trimToBound s)) (si_held s)"
proof (induction s rule: trimToBound.induct)
  case (1 s)
  show ?case
  proof (cases "length (si_held s) \<le> si_maxHeld s")
    case True
    then show ?thesis
      by (simp add: trimToBound.simps same_run_def)
  next
    case False
    define i where "i = (case findIndex (\<lambda>e. he_category e = Cat_heartbeat) (si_held s) of Some i \<Rightarrow> i | None \<Rightarrow> 0)"
    define e where "e = (case findIndex (\<lambda>e. he_category e = Cat_heartbeat) (si_held s) of
      Some i \<Rightarrow> Hold_dropped_trim (si_held s ! i) | None \<Rightarrow> Hold_dropped_overflow (si_held s ! 0))"
    define t where "t = tell_identity [e] (s\<lparr>si_held := splice1 i (si_held s)\<rparr>)"
    have i: "i < length (si_held s)"
      using False findIndex_Some unfolding i_def by (fastforce split: option.splits)
    have eq: "trimToBound s = trimToBound t"
      using False by (simp add: trimToBound.simps [of s] t_def e_def i_def split: option.splits)
    have IH: "same_run t (trimToBound t) \<and> length (si_held (trimToBound t)) \<le> si_maxHeld t
      \<and> built (si_log (trimToBound t)) = built (si_log t) \<and> resolutions (si_log (trimToBound t)) = resolutions (si_log t)
      \<and> mset (si_held (trimToBound t)) + mset (dropped (si_log (trimToBound t))) = mset (si_held t) + mset (dropped (si_log t))
      \<and> subseq (si_held (trimToBound t)) (si_held t)"
      using 1 False unfolding t_def e_def i_def by (auto split: option.splits)
    have t: "same_run s t" "si_maxHeld t = si_maxHeld s" "built (si_log t) = built (si_log s)"
        "resolutions (si_log t) = resolutions (si_log s)" "dropped (si_log t) = dropped (si_log s) @ [si_held s ! i]" "si_held t = splice1 i (si_held s)"
      by (auto simp: t_def tell_identity_def same_run_def e_def i_def split: option.splits)
    show ?thesis
      unfolding eq using IH t mset_splice1 [OF i] subseq_splice1 [of i "si_held s"]
      by (auto simp: same_run_def intro: subseq_order.trans)
  qed
qed

lemma hold_spec:
  assumes "length (si_held s) \<le> si_maxHeld s"
  shows "same_run s (hold ev s)" "length (si_held (hold ev s)) \<le> si_maxHeld s"
    "built (si_log (hold ev s)) = built (si_log s)"
    "mset (si_held (hold ev s)) + mset (dropped (si_log (hold ev s))) = add_mset ev (mset (si_held s) + mset (dropped (si_log s)))"
    "subseq (si_held (hold ev s)) (si_held s @ [ev])"
    "si_disposed s \<Longrightarrow> si_held (hold ev s) = si_held s"
    "resolutions (si_log (hold ev s)) = resolutions (si_log s)"
  using assms trimToBound_spec [of "s\<lparr>si_held := si_held s @ [ev]\<rparr>"]
  by (auto simp: hold_def Let_def tell_identity_def same_run_def)

section \<open>Invariant\<close>

definition identity_inv :: "'e SessionIdentity \<Rightarrow> bool" where
  "identity_inv s \<longleftrightarrow> length (si_held s) \<le> si_maxHeld s
     \<and> (si_held s \<noteq> [] \<longrightarrow> si_canonical s = None \<and> \<not> si_disposed s)
     \<and> (si_canonical s = None \<longleftrightarrow> si_providerSessionId s = None)
     \<and> (si_canonical s = None \<longrightarrow> si_generation s = 0 \<and> \<not> si_currentRunTerminal s)
     \<and> (si_flushTimer s \<longrightarrow> si_canonical s = None \<and> \<not> si_disposed s)"

definition accounted :: "'e HeldEvent list \<Rightarrow> 'e SessionIdentity \<Rightarrow> bool" where
  "accounted given s \<longleftrightarrow>
     mset given = mset (built (si_log s)) + mset (si_held s) + mset (dropped (si_log s))
     \<and> subseq (built (si_log s) @ si_held s) given"

lemma new_inv: "identity_inv (identity_new opts)" "accounted [] (identity_new opts)"
  by (auto simp: identity_new_def Let_def identity_inv_def accounted_def tell_identity_def split: option.splits)

lemmas identity_ops = learn_def resolveWithFallback_def flush_timer_due_def dispose_identity_def
  markRunTerminal_def onHookSession_def resolve_identity_def flushHeld_def rotateRun_def tell_identity_def

lemma emit_inv:
  assumes "identity_inv s"
  shows "identity_inv (emitMonitoring ev s)"
proof (cases "si_canonical s")
  case None
  have "length (si_held s) \<le> si_maxHeld s"
    using assms by (simp add: identity_inv_def)
  note h = hold_spec [OF this, of ev]
  show ?thesis
    using assms None h(2,6) unfolding identity_inv_def emitMonitoring_def
    by (auto simp: same_run_fields [OF h(1)])
next
  case (Some c)
  then show ?thesis
    using assms by (simp add: emitMonitoring_def identity_inv_def tell_identity_def)
qed

lemma step_inv:
  assumes "identity_inv s"
  shows "identity_inv (identity_step op s)"
proof (cases "\<exists>ev. op = Monitoring ev")
  case True
  then show ?thesis
    using emit_inv [OF assms] by auto
next
  case False
  with assms show ?thesis
    by (cases op) (auto simp: identity_ops identity_inv_def Let_def plain_result_def split: option.splits)
qed

lemma emit_accounted:
  assumes "identity_inv s" "accounted given s"
  shows "accounted (given @ [ev]) (emitMonitoring ev s)"
proof (cases "si_canonical s")
  case None
  have "length (si_held s) \<le> si_maxHeld s"
    using assms by (simp add: identity_inv_def)
  note h = hold_spec [OF this, of ev]
  have "subseq (built (si_log s) @ si_held (hold ev s)) ((built (si_log s) @ si_held s) @ [ev])"
    using list_emb_append_mono [OF subseq_order.refl h(5)] by simp
  also have "subseq \<dots> (given @ [ev])"
    using assms(2) unfolding accounted_def by (intro list_emb_append_mono) auto
  finally show ?thesis
    using assms(2) None h(3,4) by (simp add: accounted_def emitMonitoring_def union_assoc)
next
  case (Some c)
  then have "si_held s = []"
    using assms by (auto simp: identity_inv_def)
  then show ?thesis
    using assms(2) Some by (simp add: emitMonitoring_def accounted_def tell_identity_def)
qed

lemma step_accounted:
  assumes "identity_inv s" "accounted given s"
  shows "accounted (given @ monitored [op]) (identity_step op s)"
proof (cases "\<exists>ev. op = Monitoring ev")
  case True
  then show ?thesis
    using assms by (auto simp: emit_accounted)
next
  case False
  with assms show ?thesis
    by (cases op) (auto simp: identity_ops accounted_def identity_inv_def Let_def ac_simps split: option.splits)
qed

interpretation identity: stream_fold "\<lambda>s op. identity_step op s" identity_inv
  by unfold_locales (rule step_inv)

lemma run_identity_inv: "identity_inv (identity_run ops (identity_new opts))"
  unfolding identity_run_def by (rule identity.run_inv [OF new_inv(1)])

lemma run_accounted: "accounted (monitored ops) (identity_run ops (identity_new opts))"
proof (induction ops rule: rev_induct)
  case Nil
  then show ?case
    by (simp add: identity_run_def new_inv)
next
  case (snoc op ops)
  from step_accounted [OF run_identity_inv this] show ?case
    by (simp add: identity_run_def monitored_append)
qed

section \<open>The chain of runs\<close>

definition boundaries :: "'e identity_op list \<Rightarrow> 'e SessionIdentity \<Rightarrow> RunBoundaryResult list" where
  "boundaries ops s = filter rb_boundary (hook_results ops s)"

lemma hook_results_append:
  "hook_results (xs @ ys) s = hook_results xs s @ hook_results ys (identity_run xs s)"
  by (induction xs s rule: hook_results.induct) (simp_all add: identity_run_def)

definition chained :: "RunBoundaryResult list \<Rightarrow> 'e SessionIdentity \<Rightarrow> bool" where
  "chained bs s \<longleftrightarrow> si_generation s = length bs
     \<and> (case resolutions (si_log s) of
          [] \<Rightarrow> si_canonical s = None \<and> bs = []
        | r # rs \<Rightarrow> rs = [] \<and> map rb_resumedFrom bs = map Some (butlast (r # map rb_runId bs))
                    \<and> si_canonical s = Some (last (r # map rb_runId bs)))"

lemma chained_emit:
  assumes "identity_inv s" "chained bs s"
  shows "chained bs (emitMonitoring ev s)"
proof (cases "si_canonical s")
  case None
  have "length (si_held s) \<le> si_maxHeld s"
    using assms by (simp add: identity_inv_def)
  note h = hold_spec [OF this, of ev]
  show ?thesis
    using assms(2) None by (auto simp: chained_def emitMonitoring_def h(7) same_run_fields [OF h(1)] split: list.splits)
next
  case (Some c)
  then show ?thesis
    using assms(2) by (auto simp: emitMonitoring_def chained_def tell_identity_def split: list.splits)
qed

lemma chained_resolve:
  "chained bs s \<Longrightarrow> si_canonical s = None \<Longrightarrow> chained bs (resolve_identity i src s)"
  by (auto simp: chained_def resolve_identity_def flushHeld_def tell_identity_def split: list.splits)

lemma chained_rotate:
  assumes "chained bs s" "si_canonical s = Some c" "rb_runId b = r" "rb_resumedFrom b = Some c"
  shows "chained (bs @ [b]) (rotateRun r p s)"
proof -
  obtain r0 where r0: "resolutions (si_log s) = [r0]" "map rb_resumedFrom bs = map Some (butlast (r0 # map rb_runId bs))"
      "c = last (r0 # map rb_runId bs)" "si_generation s = length bs"
    using assms(1,2) unfolding chained_def by (cases "resolutions (si_log s)") auto
  let ?ids = "r0 # map rb_runId bs"
  have ids: "butlast (r0 # map rb_runId (bs @ [b])) = ?ids"
    by (simp only: map_append list.map append_Cons [symmetric] butlast_snoc)
  have "butlast ?ids @ [last ?ids] = ?ids"
    by (rule append_butlast_last_id) simp
  then have "map Some ?ids = map Some (butlast ?ids @ [last ?ids])"
    by (simp only:)
  then have "map rb_resumedFrom (bs @ [b]) = map Some ?ids"
    using r0(2,3) assms(4) by (simp only: map_append list.map)
  then show ?thesis
    using r0 assms(3) ids unfolding chained_def rotateRun_def by simp
qed

lemma chained_fields [simp]:
  "chained bs (s\<lparr>si_hookObserved := h\<rparr>) = chained bs s"
  "chained bs (s\<lparr>si_providerSessionId := q\<rparr>) = chained bs s"
  "chained bs (s\<lparr>si_flushTimer := h\<rparr>) = chained bs s"
  "chained bs (s\<lparr>si_disposed := h\<rparr>) = chained bs s"
  "chained bs (s\<lparr>si_currentRunTerminal := h\<rparr>) = chained bs s"
  by (auto simp: chained_def split: list.splits)

lemma chained_hook:
  assumes "chained bs s"
  shows "chained (bs @ filter rb_boundary [fst (onHookSession p src n s)]) (snd (onHookSession p src n s))"
  using assms
  by (auto simp: onHookSession_def Let_def plain_result_def chained_resolve chained_rotate split: option.splits)

lemma step_chained:
  assumes "identity_inv s" "chained bs s"
  shows "chained (bs @ boundaries [op] s) (identity_step op s)"
proof (cases op)
  case (Hook_session p src n)
  then show ?thesis
    using chained_hook [OF assms(2)] by (simp add: boundaries_def)
next
  case (Monitoring ev)
  then show ?thesis
    using chained_emit [OF assms] by (simp add: boundaries_def)
qed (use assms in \<open>auto simp: boundaries_def learn_def resolveWithFallback_def flush_timer_due_def dispose_identity_def
      markRunTerminal_def Let_def chained_resolve\<close>)

lemma run_chained: "chained (boundaries ops (identity_new opts)) (identity_run ops (identity_new opts))"
proof (induction ops rule: rev_induct)
  case Nil
  then show ?case
    by (auto simp: boundaries_def identity_run_def chained_def identity_new_def Let_def tell_identity_def split: option.splits)
next
  case (snoc op ops)
  from step_chained [OF run_identity_inv this] show ?case
    by (simp add: boundaries_def hook_results_append identity_run_def)
qed

section \<open>One provider session, one run\<close>










section \<open>Nothing is lost while the buffer suffices\<close>

lemma hold_fits:
  "\<not> si_disposed s \<Longrightarrow> length (si_held s) < si_maxHeld s \<Longrightarrow> hold ev s = s\<lparr>si_held := si_held s @ [ev]\<rparr>"
  by (simp add: hold_def)

definition all_kept :: "'e SessionIdentity \<Rightarrow> bool" where
  "all_kept s \<longleftrightarrow> dropped (si_log s) = [] \<and> \<not> si_disposed s"

lemma step_maxHeld: "si_maxHeld (identity_step op s) = si_maxHeld s"
proof (cases op)
  case (Monitoring ev)
  have "same_run (s\<lparr>si_held := si_held s @ [ev]\<rparr>) (trimToBound (s\<lparr>si_held := si_held s @ [ev]\<rparr>))"
    using trimToBound_spec by blast
  then show ?thesis
    using same_run_fields(8) [of "s\<lparr>si_held := si_held s @ [ev]\<rparr>"]
    by (simp add: Monitoring emitMonitoring_def hold_def Let_def tell_identity_def split: option.splits)
qed (auto simp: identity_ops Let_def split: option.splits)

lemma run_maxHeld:
  "si_maxHeld (identity_run ops (identity_new opts)) = (case io_maxHeld opts of None \<Rightarrow> 1000 | Some n \<Rightarrow> n)"
proof (induction ops rule: rev_induct)
  case Nil
  then show ?case
    by (simp add: identity_run_def identity_new_def Let_def tell_identity_def split: option.splits)
next
  case (snoc op ops)
  then show ?case
    by (simp add: identity_run_def step_maxHeld)
qed

lemma step_kept:
  assumes "all_kept s" "op \<noteq> Dispose_identity" "length (si_held s) < si_maxHeld s \<or> (\<forall>ev. op \<noteq> Monitoring ev)"
  shows "all_kept (identity_step op s)"
  using assms
  by (cases op) (auto simp: all_kept_def identity_ops emitMonitoring_def hold_fits Let_def split: option.splits)

lemma run_kept:
  assumes "length (monitored ops) \<le> (case io_maxHeld opts of None \<Rightarrow> 1000 | Some n \<Rightarrow> n)" "Dispose_identity \<notin> set ops"
  shows "all_kept (identity_run ops (identity_new opts))"
  using assms
proof (induction ops rule: rev_induct)
  case Nil
  then show ?case
    by (simp add: identity_run_def all_kept_def identity_new_def Let_def tell_identity_def split: option.splits)
next
  case (snoc op ops)
  let ?s = "identity_run ops (identity_new opts)"
  have kept: "all_kept ?s"
    using snoc by (simp add: monitored_append)
  have "mset (monitored ops) = mset (built (si_log ?s)) + mset (si_held ?s) + mset (dropped (si_log ?s))"
    using run_accounted [of ops opts] by (simp add: accounted_def)
  then have "length (monitored ops) \<ge> length (si_held ?s)"
    by (metis le_add2 size_mset size_union le_add1 le_trans)
  moreover have "length (monitored ops) < si_maxHeld ?s" if "op = Monitoring ev" for ev
    using that snoc.prems by (simp add: run_maxHeld monitored_append)
  ultimately have "length (si_held ?s) < si_maxHeld ?s \<or> (\<forall>ev. op \<noteq> Monitoring ev)"
    using le_less_trans by blast
  from step_kept [OF kept _ this] snoc.prems show ?case
    by (auto simp: identity_run_def)
qed

text \<open>
  C31. Whatever the monitors report to an identity is built into an event exactly once, is still
  held, or is counted as dropped, and what is built or held keeps the order in which it was
  reported; the buffer never exceeds its bound, and is empty as soon as the run is known. While
  the reports fit into the buffer and the identity is not disposed of, nothing is dropped: the
  events built, followed by those held, are the reports.
\<close>

theorem monitoring_kept:
  "let s = identity_run ops (identity_new opts);
       bound = (case io_maxHeld opts of None \<Rightarrow> 1000 | Some n \<Rightarrow> n)
   in heldCount s \<le> bound
      \<and> (isResolved s \<longrightarrow> si_held s = [])
      \<and> mset (monitored ops) = mset (built (si_log s)) + mset (si_held s) + mset (dropped (si_log s))
      \<and> subseq (built (si_log s) @ si_held s) (monitored ops)
      \<and> (length (monitored ops) \<le> bound \<and> Dispose_identity \<notin> set ops
           \<longrightarrow> built (si_log s) @ si_held s = monitored ops)"
proof -
  define s where "s = identity_run ops (identity_new opts)"
  have inv: "identity_inv s" and acc: "accounted (monitored ops) s"
    using run_identity_inv run_accounted s_def by auto
  have sub: "subseq (built (si_log s) @ si_held s) (monitored ops)"
    using acc by (simp add: accounted_def)
  have "built (si_log s) @ si_held s = monitored ops"
    if fits: "length (monitored ops) \<le> (case io_maxHeld opts of None \<Rightarrow> 1000 | Some n \<Rightarrow> n)" "Dispose_identity \<notin> set ops"
  proof -
    have "dropped (si_log s) = []"
      using run_kept [OF fits] by (simp add: all_kept_def s_def)
    then have "size (mset (monitored ops)) = size (mset (built (si_log s) @ si_held s))"
      using acc by (simp add: accounted_def)
    then show ?thesis
      using sub subseq_same_length by (metis size_mset)
  qed
  then show ?thesis
    using inv acc run_maxHeld [of ops opts]
    by (auto simp: s_def [symmetric] identity_inv_def accounted_def heldCount_def isResolved_def Let_def)
qed

definition sample_identity :: SessionIdentityOptions where
  "sample_identity = \<lparr>io_fallbackSessionId = js ''sess_0'', io_explicitSessionId = None, io_maxHeld = Some 2,
     io_flushTimeoutMs = None, io_priorTerminalRun = None, io_launchLineage = None\<rparr>"

definition sample_reports :: "nat identity_op list" where
  "sample_reports = [Monitoring \<lparr>he_category = Cat_diff, he_build = 1\<rparr>,
     Monitoring \<lparr>he_category = Cat_heartbeat, he_build = 2\<rparr>, Hook_session (js ''a'') None (js ''1'')]"

theorem monitoring_kept_witness:
  "length (monitored sample_reports) \<le> 2 \<and> Dispose_identity \<notin> set sample_reports
   \<and> isResolved (identity_run sample_reports (identity_new sample_identity))
   \<and> built (si_log (identity_run sample_reports (identity_new sample_identity))) = monitored sample_reports"
proof -
  have fits: "length (monitored sample_reports) \<le> 2" "Dispose_identity \<notin> set sample_reports"
    by (simp_all add: sample_reports_def)
  have "isResolved (identity_run sample_reports (identity_new sample_identity))"
    by code_simp
  moreover have "io_maxHeld sample_identity = Some 2"
    by (simp add: sample_identity_def)
  ultimately show ?thesis
    using monitoring_kept [of sample_reports sample_identity] fits by (auto simp: Let_def)
qed

text \<open>
  The runs of one identity form one chain. The first run is the only one that is resolved, by
  the first hook, an explicit identifier or the fallback; every boundary a hook is told names the
  run before it as the one it resumes; the current run is the last one, and the generation counts
  the boundaries. Monitors never start a run.
\<close>

theorem lineage_chain:
  "let s = identity_run ops (identity_new opts);
       bs = filter rb_boundary (hook_results ops (identity_new opts))
   in si_generation s = length bs
      \<and> (case resolutions (si_log s) of
           [] \<Rightarrow> \<not> isResolved s \<and> bs = []
         | r # rs \<Rightarrow> rs = [] \<and> map rb_resumedFrom bs = map Some (butlast (r # map rb_runId bs))
                     \<and> si_canonical s = Some (last (r # map rb_runId bs)))"
  using run_chained [of ops opts]
  by (auto simp: chained_def boundaries_def isResolved_def Let_def split: list.splits)




end
