(* ===== verification/Attach_Sessions.thy ===== *)
theory Attach_Sessions
  imports Session_Identity_Correct Timestamps
begin

text \<open>
  The sessions one attach daemon observes: \<^verbatim>\<open>apps/sidecar/src/attach-session-registry.ts\<close>, and the part
  of \<^verbatim>\<open>hook-receiver.ts\<close> that assigns a hook to a run and ends it. Session objects are shared by
  the registry, the hook receiver and the watcher of a repository, so they live in a store
  and are named by their index. The resolution of a repository is an await:
  \<open>startGitWatcher\<close> goes on as \<open>root_resolved\<close>, with the root that was found.
\<close>

section \<open>State\<close>

definition DEFAULT_ATTACH_IDLE_TTL_MS :: int where
  "DEFAULT_ATTACH_IDLE_TTL_MS = 30 * 60000"

definition DEFAULT_ATTACH_REAPER_INTERVAL_MS :: int where
  "DEFAULT_ATTACH_REAPER_INTERVAL_MS = 60000"

definition TERMINAL_TOMBSTONE_MAX_ENTRIES :: nat where
  "TERMINAL_TOMBSTONE_MAX_ENTRIES = 256"

record 'e AttachSession =
  as_sessionId :: jstring
  as_identity :: "'e SessionIdentity"
  as_gitWatcher :: bool
  as_cwd :: "jstring option"
  as_repoRoot :: "jstring option"
  as_lastHookAt :: int

datatype attach_event =
    Sessions_changed
  | Watcher_started nat jstring
  | Watcher_stopped nat

record 'e AttachRegistry =
  ar_objects :: "'e AttachSession list"
  ar_sessions :: "(jstring \<times> nat) list"
  ar_tombstones :: "(jstring, jstring) BoundedLruMap"
  ar_idleTtlMs :: int
  ar_reaperTimer :: bool
  ar_disposed :: bool
  ar_resolving :: "(nat \<times> jstring) list"
  ar_log :: "attach_event list"

definition attach_new :: "int option \<Rightarrow> int option \<Rightarrow> 'e AttachRegistry" where
  "attach_new idleTtlMs reaperIntervalMs =
    \<lparr>ar_objects = [], ar_sessions = [],
     ar_tombstones = \<lparr>lru_map = [], lru_maxEntries = TERMINAL_TOMBSTONE_MAX_ENTRIES\<rparr>,
     ar_idleTtlMs = (case idleTtlMs of None \<Rightarrow> DEFAULT_ATTACH_IDLE_TTL_MS | Some t \<Rightarrow> t),
     ar_reaperTimer = ((case reaperIntervalMs of None \<Rightarrow> DEFAULT_ATTACH_REAPER_INTERVAL_MS | Some t \<Rightarrow> t) > 0),
     ar_disposed = False, ar_resolving = [], ar_log = []\<rparr>"

definition as_object :: "'e AttachRegistry \<Rightarrow> nat \<Rightarrow> 'e AttachSession" where
  "as_object r a = ar_objects r ! a"

definition upd_object :: "nat \<Rightarrow> ('e AttachSession \<Rightarrow> 'e AttachSession) \<Rightarrow> 'e AttachRegistry \<Rightarrow> 'e AttachRegistry" where
  "upd_object a f r = r\<lparr>ar_objects := (ar_objects r)[a := f (ar_objects r ! a)]\<rparr>"

definition upd_identity :: "nat \<Rightarrow> ('e SessionIdentity \<Rightarrow> 'e SessionIdentity) \<Rightarrow> 'e AttachRegistry \<Rightarrow> 'e AttachRegistry" where
  "upd_identity a f = upd_object a (\<lambda>s. s\<lparr>as_identity := f (as_identity s)\<rparr>)"

definition tell_attach :: "attach_event list \<Rightarrow> 'e AttachRegistry \<Rightarrow> 'e AttachRegistry" where
  "tell_attach es r = r\<lparr>ar_log := ar_log r @ es\<rparr>"

section \<open>Reading\<close>

definition attach_sessionIds :: "'e AttachRegistry \<Rightarrow> jstring list" where
  "attach_sessionIds r = map (\<lambda>(sid, a). currentSessionId (as_identity (as_object r a))) (ar_sessions r)"

definition attach_get :: "'e AttachRegistry \<Rightarrow> jstring \<Rightarrow> nat option" where
  "attach_get r sid = map_of (ar_sessions r) sid"

definition attach_size :: "'e AttachRegistry \<Rightarrow> nat" where
  "attach_size r = length (ar_sessions r)"

definition terminalTombstoneCount :: "'e AttachRegistry \<Rightarrow> nat" where
  "terminalTombstoneCount r = lru_size (ar_tombstones r)"

section \<open>Observing\<close>

definition plain_options :: "jstring \<Rightarrow> SessionIdentityOptions" where
  "plain_options sid = \<lparr>io_fallbackSessionId = sid, io_explicitSessionId = None, io_maxHeld = None,
     io_flushTimeoutMs = None, io_priorTerminalRun = None, io_launchLineage = None\<rparr>"

definition attach_identity :: "jstring \<Rightarrow> jstring option \<Rightarrow> 'e SessionIdentity" where
  "attach_identity sid tombstone =
    identity_new (case tombstone of
       Some runId \<Rightarrow> (plain_options sid)\<lparr>io_priorTerminalRun := Some \<lparr>ptr_runId = runId, ptr_providerSessionId = sid\<rparr>\<rparr>
     | None \<Rightarrow> (plain_options sid)\<lparr>io_explicitSessionId := Some sid\<rparr>)"

definition new_session :: "jstring \<Rightarrow> 'e SessionIdentity \<Rightarrow> jstring option \<Rightarrow> int \<Rightarrow> 'e AttachSession" where
  "new_session sid ident cwd now =
    \<lparr>as_sessionId = sid, as_identity = ident, as_gitWatcher = False, as_cwd = cwd, as_repoRoot = None, as_lastHookAt = now\<rparr>"

definition observeHook :: "int \<Rightarrow> jstring \<Rightarrow> jstring option \<Rightarrow> 'e AttachRegistry \<Rightarrow> nat \<times> 'e AttachRegistry" where
  "observeHook now sid cwd r =
    (let a = length (ar_objects r) in
     if ar_disposed r then
       (a, r\<lparr>ar_objects := ar_objects r @ [new_session sid (attach_identity sid None) None now]\<rparr>)
     else
       (case map_of (ar_sessions r) sid of
          Some b \<Rightarrow> (b, upd_object b (\<lambda>s. s\<lparr>as_lastHookAt := now\<rparr>) r)
        | None \<Rightarrow>
            (let tombstone = lru_get (ar_tombstones r) sid;
                 tombstones = (if tombstone \<noteq> None then snd (lru_delete (ar_tombstones r) sid) else ar_tombstones r)
             in (a, r\<lparr>ar_objects := ar_objects r @ [new_session sid (attach_identity sid tombstone) cwd now],
                      ar_sessions := AList.update sid a (ar_sessions r), ar_tombstones := tombstones,
                      ar_resolving := ar_resolving r
                        @ (case cwd of Some d \<Rightarrow> (if length d > 0 then [(a, d)] else []) | None \<Rightarrow> [])\<rparr>))))"

text \<open>The continuation of \<^verbatim>\<open>startGitWatcher\<close>; only a resolution that is under way can arrive.\<close>

definition root_resolved :: "nat \<Rightarrow> jstring \<Rightarrow> jstring option \<Rightarrow> 'e AttachRegistry \<Rightarrow> 'e AttachRegistry" where
  "root_resolved a cwd found r0 =
    (if (a, cwd) \<notin> set (ar_resolving r0) then r0
     else
       (let r = r0\<lparr>ar_resolving := remove1 (a, cwd) (ar_resolving r0)\<rparr>;
            session = as_object r a
        in case found of
             None \<Rightarrow> r
           | Some d \<Rightarrow>
               if ar_disposed r \<or> as_gitWatcher session then r
               else if map_of (ar_sessions r) (as_sessionId session) \<noteq> Some a then r
               else tell_attach [Watcher_started a d]
                      (upd_object a (\<lambda>s. s\<lparr>as_repoRoot := Some d, as_gitWatcher := True\<rparr>) r)))"

section \<open>Removing\<close>

definition stop_watcher :: "nat \<Rightarrow> 'e AttachRegistry \<Rightarrow> 'e AttachRegistry" where
  "stop_watcher a r = (if as_gitWatcher (as_object r a) then tell_attach [Watcher_stopped a] r else r)"

definition reapOne :: "jstring \<Rightarrow> 'e AttachRegistry \<Rightarrow> bool \<times> 'e AttachRegistry" where
  "reapOne sid r =
    (case map_of (ar_sessions r) sid of
       None \<Rightarrow> (False, r)
     | Some a \<Rightarrow>
         (let ident = as_identity (as_object r a);
              r1 = (if si_currentRunTerminal ident
                    then r\<lparr>ar_tombstones := lru_set (ar_tombstones r)
                             (case si_providerSessionId ident of Some p \<Rightarrow> p | None \<Rightarrow> sid) (currentSessionId ident)\<rparr>
                    else r);
              r2 = stop_watcher a (upd_identity a dispose_identity r1)
          in (True, r2\<lparr>ar_sessions := AList.delete sid (ar_sessions r2)\<rparr>)))"

definition reap :: "jstring \<Rightarrow> 'e AttachRegistry \<Rightarrow> 'e AttachRegistry" where
  "reap sid r = (case reapOne sid r of (True, r') \<Rightarrow> tell_attach [Sessions_changed] r' | (False, r') \<Rightarrow> r')"

definition idle_session :: "int \<Rightarrow> 'e AttachRegistry \<Rightarrow> nat \<Rightarrow> bool" where
  "idle_session nowMs r a = (nowMs - as_lastHookAt (as_object r a) > ar_idleTtlMs r)"

fun reap_idle_loop :: "int \<Rightarrow> (jstring \<times> nat) list \<Rightarrow> bool \<Rightarrow> 'e AttachRegistry \<Rightarrow> bool \<times> 'e AttachRegistry" where
  "reap_idle_loop nowMs [] changed r = (changed, r)"
| "reap_idle_loop nowMs ((sid, a) # rest) changed r =
    (if idle_session nowMs r a
     then (case reapOne sid r of (done, r') \<Rightarrow> reap_idle_loop nowMs rest (changed \<or> done) r')
     else reap_idle_loop nowMs rest changed r)"

definition reapIdle :: "int \<Rightarrow> 'e AttachRegistry \<Rightarrow> 'e AttachRegistry" where
  "reapIdle nowMs r =
    (if ar_disposed r then r
     else (case reap_idle_loop nowMs (ar_sessions r) False r of
             (True, r') \<Rightarrow> tell_attach [Sessions_changed] r' | (False, r') \<Rightarrow> r'))"

text \<open>The shutdown: up to the wait for the watchers, and after it.\<close>

definition attach_dispose :: "'e AttachRegistry \<Rightarrow> 'e AttachRegistry" where
  "attach_dispose r =
    (if ar_disposed r then r
     else foldl (\<lambda>r (sid, a). stop_watcher a (upd_identity a dispose_identity r))
            (r\<lparr>ar_disposed := True, ar_reaperTimer := False\<rparr>) (ar_sessions r))"

definition attach_stopped :: "'e AttachRegistry \<Rightarrow> 'e AttachRegistry" where
  "attach_stopped r = r\<lparr>ar_sessions := []\<rparr>"

section \<open>A hook\<close>

text \<open>
  What the hook receiver of an attach daemon does with a hook before anything is awaited: it finds
  the run, and at the end of a session, once the event is stored, ends the run and drops the
  session. \<open>ended\<close> says that the hook is a \<^verbatim>\<open>SessionEnd\<close> and that its event was stored.
\<close>

definition receive_hook ::
  "int \<Rightarrow> jstring \<Rightarrow> jstring option \<Rightarrow> jstring option \<Rightarrow> bool \<Rightarrow> jstring \<Rightarrow> 'e AttachRegistry
   \<Rightarrow> RunBoundaryResult \<times> 'e AttachRegistry" where
  "receive_hook now sid cwd source ended newId r =
    (case observeHook now sid cwd r of
       (a, r1) \<Rightarrow>
         (case onHookSession sid source newId (as_identity (as_object r1 a)) of
            (boundary, ident) \<Rightarrow>
              (let r2 = upd_identity a (\<lambda>_. ident) r1 in
               (boundary, if ended then reap sid (upd_identity a markRunTerminal r2) else r2))))"

datatype 'e attach_op =
    Hook int jstring "jstring option" "jstring option" bool jstring
  | Root_resolved nat jstring "jstring option"
  | Watcher_event nat "'e HeldEvent"
  | Reaper_tick int
  | Attach_dispose
  | Attach_stopped

fun attach_step :: "'e attach_op \<Rightarrow> 'e AttachRegistry \<Rightarrow> 'e AttachRegistry" where
  "attach_step (Hook now sid cwd source ended n) r = snd (receive_hook now sid cwd source ended n r)"
| "attach_step (Root_resolved a cwd found) r = root_resolved a cwd found r"
| "attach_step (Watcher_event a ev) r =
    (if a < length (ar_objects r) then upd_identity a (emitMonitoring ev) r else r)"
| "attach_step (Reaper_tick now) r = (if ar_reaperTimer r then reapIdle now r else r)"
| "attach_step Attach_dispose r = attach_dispose r"
| "attach_step Attach_stopped r = (if ar_disposed r then attach_stopped r else r)"

definition attach_run :: "'e attach_op list \<Rightarrow> 'e AttachRegistry \<Rightarrow> 'e AttachRegistry" where
  "attach_run ops r = foldl (\<lambda>r op. attach_step op r) r ops"

text \<open>The runs the hooks are assigned to, each with whether the hook ended it.\<close>

fun assigned :: "'e attach_op list \<Rightarrow> 'e AttachRegistry \<Rightarrow> (jstring \<times> bool) list" where
  "assigned [] r = []"
| "assigned (Hook now sid cwd source ended n # ops) r =
    (rb_runId (fst (receive_hook now sid cwd source ended n r)), ended)
      # assigned ops (snd (receive_hook now sid cwd source ended n r))"
| "assigned (op # ops) r = assigned ops (attach_step op r)"

end
