(* ===== verification/Attach_Correct.thy ===== *)
theory Attach_Correct
  imports Attach_Sessions
begin

text \<open>
  The registry of attached sessions refines a pair of maps: which run every observed provider
  session is on, and which run a provider session that ended was on. From that it
  follows when a hook can be assigned to a run that has ended.
\<close>

section \<open>The store of sessions\<close>

definition ident :: "'e AttachRegistry \<Rightarrow> nat \<Rightarrow> 'e SessionIdentity" where
  "ident r a = as_identity (as_object r a)"

lemma object_upd [simp]:
  "length (ar_objects (upd_object a f r)) = length (ar_objects r)"
  "as_object (upd_object a f r) b = (if a = b \<and> a < length (ar_objects r) then f (as_object r a) else as_object r b)"
  "ar_sessions (upd_object a f r) = ar_sessions r" "ar_tombstones (upd_object a f r) = ar_tombstones r"
  "ar_disposed (upd_object a f r) = ar_disposed r" "ar_idleTtlMs (upd_object a f r) = ar_idleTtlMs r"
  "ar_reaperTimer (upd_object a f r) = ar_reaperTimer r"
  by (cases "a = b"; auto simp: upd_object_def as_object_def list_update_beyond)+

lemma ident_upd [simp]:
  "ident (upd_identity a f r) b = (if a = b \<and> a < length (ar_objects r) then f (ident r a) else ident r b)"
  "length (ar_objects (upd_identity a f r)) = length (ar_objects r)"
  "ar_sessions (upd_identity a f r) = ar_sessions r" "ar_tombstones (upd_identity a f r) = ar_tombstones r"
  "ar_disposed (upd_identity a f r) = ar_disposed r" "ar_idleTtlMs (upd_identity a f r) = ar_idleTtlMs r"
  "ar_reaperTimer (upd_identity a f r) = ar_reaperTimer r"
  by (auto simp: upd_identity_def ident_def)

lemma tell_attach_fields [simp]:
  "ar_objects (tell_attach es r) = ar_objects r" "ar_sessions (tell_attach es r) = ar_sessions r"
  "ar_tombstones (tell_attach es r) = ar_tombstones r" "ar_disposed (tell_attach es r) = ar_disposed r"
  "ar_idleTtlMs (tell_attach es r) = ar_idleTtlMs r" "ar_reaperTimer (tell_attach es r) = ar_reaperTimer r"
  "ident (tell_attach es r) = ident r"
  by (auto simp: tell_attach_def ident_def as_object_def)

lemma stop_watcher_fields [simp]:
  "ar_objects (stop_watcher a r) = ar_objects r" "ar_sessions (stop_watcher a r) = ar_sessions r"
  "ar_tombstones (stop_watcher a r) = ar_tombstones r" "ar_disposed (stop_watcher a r) = ar_disposed r"
  "ar_idleTtlMs (stop_watcher a r) = ar_idleTtlMs r" "ar_reaperTimer (stop_watcher a r) = ar_reaperTimer r"
  "ident (stop_watcher a r) = ident r"
  by (auto simp: stop_watcher_def)

lemma ident_fields [simp]:
  "ident (r\<lparr>ar_sessions := x\<rparr>) = ident r" "ident (r\<lparr>ar_tombstones := t\<rparr>) = ident r"
  "ident (r\<lparr>ar_resolving := rs\<rparr>) = ident r"
  by (auto simp: ident_def as_object_def)

section \<open>Invariant\<close>

definition steady :: "jstring \<Rightarrow> 'e SessionIdentity \<Rightarrow> bool" where
  "steady sid s \<longleftrightarrow> (\<exists>c. si_canonical s = Some c \<and> c \<noteq> []) \<and> si_providerSessionId s = Some sid
     \<and> \<not> si_currentRunTerminal s \<and> \<not> si_disposed s"

definition shape_ok :: "'e AttachRegistry \<Rightarrow> bool" where
  "shape_ok r \<longleftrightarrow> \<not> ar_disposed r \<and> distinct (map fst (ar_sessions r)) \<and> distinct (map snd (ar_sessions r))
     \<and> (\<forall>(sid, a) \<in> set (ar_sessions r). a < length (ar_objects r))
     \<and> lru_ok (ar_tombstones r) \<and> lru_maxEntries (ar_tombstones r) = TERMINAL_TOMBSTONE_MAX_ENTRIES
     \<and> (\<forall>(sid, c) \<in> set (lru_map (ar_tombstones r)). c \<noteq> [])"

definition registry_ok :: "jstring set \<Rightarrow> 'e AttachRegistry \<Rightarrow> bool" where
  "registry_ok X r \<longleftrightarrow> shape_ok r \<and> (\<forall>(sid, a) \<in> set (ar_sessions r). sid \<notin> X \<longrightarrow> steady sid (ident r a))"

definition live_run :: "'e AttachRegistry \<Rightarrow> jstring \<Rightarrow> jstring option" where
  "live_run r sid = (case map_of (ar_sessions r) sid of None \<Rightarrow> None | Some a \<Rightarrow> si_canonical (ident r a))"

definition ended_run :: "'e AttachRegistry \<Rightarrow> jstring \<Rightarrow> jstring option" where
  "ended_run r sid = lru_get (ar_tombstones r) sid"

lemma new_ok: "registry_ok {} (attach_new ttl iv)"
  by (simp add: registry_ok_def shape_ok_def attach_new_def lru_ok_def TERMINAL_TOMBSTONE_MAX_ENTRIES_def)

lemma ok_address:
  assumes "shape_ok r" "map_of (ar_sessions r) sid = Some a" "map_of (ar_sessions r) sid' = Some a"
  shows "sid = sid'"
proof -
  have "(sid, a) \<in> set (ar_sessions r)" "(sid', a) \<in> set (ar_sessions r)"
    using assms(2,3) by (simp_all add: map_of_SomeD)
  then show ?thesis
    using assms(1) unfolding shape_ok_def by (metis (no_types, lifting) distinct_map inj_on_contraD snd_conv prod.inject)
qed

lemma ok_bound: "shape_ok r \<Longrightarrow> map_of (ar_sessions r) sid = Some a \<Longrightarrow> a < length (ar_objects r)"
  unfolding shape_ok_def by (auto dest!: map_of_SomeD)

lemma ok_iff:
  assumes "shape_ok r"
  shows "registry_ok X r \<longleftrightarrow> (\<forall>sid a. map_of (ar_sessions r) sid = Some a \<longrightarrow> sid \<notin> X \<longrightarrow> steady sid (ident r a))"
  using assms unfolding registry_ok_def shape_ok_def by (auto simp: map_of_eq_Some_iff)

text \<open>Setting the identity of one session leaves the others alone.\<close>

lemma set_identity:
  assumes "registry_ok {sid} r" "map_of (ar_sessions r) sid = Some a" "steady sid i" "si_canonical i = Some c"
  shows "registry_ok {} (upd_identity a (\<lambda>_. i) r)" "live_run (upd_identity a (\<lambda>_. i) r) = (live_run r)(sid \<mapsto> c)"
proof -
  have sh: "shape_ok r" "shape_ok (upd_identity a (\<lambda>_. i) r)"
    using assms(1) by (simp_all add: registry_ok_def shape_ok_def)
  have a: "a < length (ar_objects r)"
    by (rule ok_bound [OF sh(1) assms(2)])
  have other: "b \<noteq> a" if "map_of (ar_sessions r) sid' = Some b" "sid' \<noteq> sid" for sid' b
    using that ok_address [OF sh(1) assms(2)] by auto
  have "steady sid' (ident (upd_identity a (\<lambda>_. i) r) b)" if b: "map_of (ar_sessions r) sid' = Some b" for sid' b
  proof (cases "sid' = sid")
    case True
    then show ?thesis
      using assms(2,3) a b by simp
  next
    case False
    then show ?thesis
      using assms(1) other [OF b False] b unfolding ok_iff [OF sh(1)] by auto
  qed
  then show "registry_ok {} (upd_identity a (\<lambda>_. i) r)"
    unfolding ok_iff [OF sh(2)] by simp
  show "live_run (upd_identity a (\<lambda>_. i) r) = (live_run r)(sid \<mapsto> c)"
    using assms(2,4) a other by (fastforce simp: live_run_def split: option.splits)
qed

section \<open>Ending a session\<close>

text \<open>A tombstone is kept as long as there is room for the identifiers that have ended.\<close>

lemma tombstone_kept:
  assumes "lru_ok m" "lru_maxEntries m = TERMINAL_TOMBSTONE_MAX_ENTRIES"
    and "card (insert k (fst ` set (lru_map m))) \<le> TERMINAL_TOMBSTONE_MAX_ENTRIES"
  shows "lru_get (lru_set m k v) = (lru_get m)(k \<mapsto> v)"
    "set (lru_map (lru_set m k v)) = insert (k, v) {x \<in> set (lru_map m). fst x \<noteq> k}"
proof -
  let ?es = "AList.delete k (lru_map m) @ [(k, v)]"
  have dist: "distinct (map fst ?es)"
    using assms(1) by (auto simp: lru_ok_def distinct_delete delete_notin_dom)
  have "set (map fst ?es) = insert k (fst ` set (lru_map m))"
    by (auto simp: set_delete)
  then have "length ?es = card (insert k (fst ` set (lru_map m)))"
    using dist by (metis distinct_card length_map)
  then have eq: "lru_map (lru_set m k v) = ?es"
    using assms(2,3) unfolding lru_set_eq Let_def by simp
  show "set (lru_map (lru_set m k v)) = insert (k, v) {x \<in> set (lru_map m). fst x \<noteq> k}"
    unfolding eq by (auto simp: set_delete)
  show "lru_get (lru_set m k v) = (lru_get m)(k \<mapsto> v)"
    unfolding lru_get_def eq by (auto simp: map_add_def delete_conv' fun_eq_iff split: option.splits)
qed

lemma drop_session:
  assumes "shape_ok r"
  shows "shape_ok (r\<lparr>ar_sessions := AList.delete sid (ar_sessions r)\<rparr>)"
  using assms unfolding shape_ok_def
  by (auto simp: distinct_delete set_delete AList.delete_eq distinct_map inj_on_def)

lemma reap_ended:
  assumes ok: "registry_ok {} r" and a: "map_of (ar_sessions r) sid = Some a" and c: "si_canonical (ident r a) = Some c"
    and room: "card (insert sid (fst ` set (lru_map (ar_tombstones r)))) \<le> TERMINAL_TOMBSTONE_MAX_ENTRIES"
    and r': "r' = reap sid (upd_identity a markRunTerminal r)"
  shows "registry_ok {} r'" "live_run r' = (live_run r)(sid := None)" "ended_run r' = (ended_run r)(sid \<mapsto> c)"
    "fst ` set (lru_map (ar_tombstones r')) = insert sid (fst ` set (lru_map (ar_tombstones r)))"
proof -
  have sh: "shape_ok r"
    using ok by (simp add: registry_ok_def)
  have a': "a < length (ar_objects r)"
    by (rule ok_bound [OF sh a])
  have st: "steady sid (ident r a)"
    using ok a unfolding ok_iff [OF sh] by blast
  have ne: "c \<noteq> []"
    using st c by (simp add: steady_def)
  have lru: "lru_ok (ar_tombstones r)" "lru_maxEntries (ar_tombstones r) = TERMINAL_TOMBSTONE_MAX_ENTRIES"
    using sh by (simp_all add: shape_ok_def)
  note kept = tombstone_kept [OF lru room, of c]
  have final: "si_currentRunTerminal (markRunTerminal (ident r a))"
      "si_providerSessionId (markRunTerminal (ident r a)) = Some sid" "currentSessionId (markRunTerminal (ident r a)) = c"
    using c st by (auto simp: markRunTerminal_def steady_def currentSessionId_def)
  define t where "t = lru_set (ar_tombstones r) sid c"
  define r2 where "r2 = stop_watcher a (upd_identity a dispose_identity ((upd_identity a markRunTerminal r)\<lparr>ar_tombstones := t\<rparr>))"
  have eq: "r' = tell_attach [Sessions_changed] (r2\<lparr>ar_sessions := AList.delete sid (ar_sessions r2)\<rparr>)"
    using a a' final by (simp add: r' reap_def reapOne_def r2_def t_def ident_def [symmetric])
  have id2: "ident r2 b = ident r b" if "b \<noteq> a" for b
    using that by (auto simp: r2_def)
  have other: "b \<noteq> a" if "map_of (ar_sessions r) sid' = Some b" "sid' \<noteq> sid" for sid' b
    using that ok_address [OF sh a] by auto
  have "shape_ok r2"
    using sh lru lru_set_ok [OF lru(1)] kept(2) ne unfolding shape_ok_def
    by (auto simp: r2_def t_def lru_set_def Let_def)
  then have sh': "shape_ok (r2\<lparr>ar_sessions := AList.delete sid (ar_sessions r2)\<rparr>)"
    by (rule drop_session)
  then have sh'': "shape_ok r'"
    by (simp add: eq shape_ok_def)
  show "registry_ok {} r'"
    unfolding ok_iff [OF sh''] using ok other id2 unfolding ok_iff [OF sh]
    by (auto simp: eq delete_conv' r2_def split: if_splits)
  show "live_run r' = (live_run r)(sid := None)"
    using other id2 by (fastforce simp: eq live_run_def delete_conv' r2_def split: option.splits)
  show "ended_run r' = (ended_run r)(sid \<mapsto> c)"
    using kept(1) by (simp add: eq ended_run_def fun_eq_iff r2_def t_def)
  show "fst ` set (lru_map (ar_tombstones r')) = insert sid (fst ` set (lru_map (ar_tombstones r)))"
    using kept(2) by (auto simp: eq r2_def t_def image_iff)
qed

section \<open>A hook\<close>

definition next_run :: "jstring \<Rightarrow> jstring \<Rightarrow> 'e AttachRegistry \<Rightarrow> jstring" where
  "next_run sid n r =
    (case live_run r sid of
       Some c \<Rightarrow> c
     | None \<Rightarrow> if ended_run r sid \<noteq> None then mintSyntheticSessionId n else sid)"

lemma live_None: "registry_ok {} r \<Longrightarrow> live_run r sid = None \<longleftrightarrow> map_of (ar_sessions r) sid = None"
  by (auto simp: live_run_def registry_ok_def steady_def split: option.splits dest!: map_of_SomeD)

text \<open>The identity the hook finds, and what it makes of it.\<close>

lemma hook_steady:
  assumes "steady sid i" "si_canonical i = Some c" "sid \<noteq> []"
  shows "rb_runId (fst (onHookSession sid src n i)) = c \<and> steady sid (snd (onHookSession sid src n i))
    \<and> si_canonical (snd (onHookSession sid src n i)) = Some c"
  using assms by (auto simp: onHookSession_def steady_def Let_def plain_result_def)

lemma attach_identity_simps:
  "sid \<noteq> [] \<Longrightarrow> attach_identity sid None =
     tell_identity [Resolved sid From_explicit] ((identity_new (plain_options sid))\<lparr>si_canonical := Some sid, si_providerSessionId := Some sid\<rparr>)"
  "sid \<noteq> [] \<Longrightarrow> t \<noteq> [] \<Longrightarrow> attach_identity sid (Some t) =
     tell_identity [Resolved t From_explicit] ((identity_new (plain_options sid))\<lparr>si_canonical := Some t, si_providerSessionId := Some sid,
       si_currentRunTerminal := True\<rparr>)"
  by (simp_all add: attach_identity_def identity_new_def plain_options_def Let_def tell_identity_def)

lemma plain_identity:
  "\<not> si_disposed (identity_new (plain_options sid))" "\<not> si_currentRunTerminal (identity_new (plain_options sid))"
  by (simp_all add: identity_new_def plain_options_def Let_def)

lemma hook_fresh:
  assumes "sid \<noteq> []" "\<And>t. tombstone = Some t \<Longrightarrow> t \<noteq> []" "c = (if tombstone \<noteq> None then mintSyntheticSessionId n else sid)"
    and i: "i = attach_identity sid tombstone"
  shows "rb_runId (fst (onHookSession sid src n i)) = c \<and> steady sid (snd (onHookSession sid src n i))
    \<and> si_canonical (snd (onHookSession sid src n i)) = Some c"
proof (cases tombstone)
  case None
  then have "steady sid i" "si_canonical i = Some c"
    using assms(1,3) by (simp_all add: i attach_identity_simps steady_def tell_identity_def plain_identity)
  then show ?thesis
    by (rule hook_steady [OF _ _ assms(1)])
next
  case (Some t)
  then show ?thesis
    using assms by (simp add: attach_identity_simps tell_identity_def onHookSession_def Let_def plain_identity rotateRun_def
        steady_def mintSyntheticSessionId_def js_def)
qed

lemma observe_known:
  assumes "registry_ok {} r" "map_of (ar_sessions r) sid = Some a" "observeHook now sid cwd r = (b, r1)"
  shows "b = a" "registry_ok {} r1" "ar_sessions r1 = ar_sessions r" "live_run r1 = live_run r"
    "ar_tombstones r1 = ar_tombstones r" "ident r1 a = ident r a"
proof -
  have nd: "\<not> ar_disposed r"
    using assms(1) by (simp add: registry_ok_def shape_ok_def)
  have r1: "r1 = upd_object a (\<lambda>s. s\<lparr>as_lastHookAt := now\<rparr>) r" and "b = a"
    using assms nd by (auto simp: observeHook_def)
  then show "b = a"
    by simp
  have id: "ident r1 = ident r"
    by (auto simp: r1 ident_def)
  have same: "ar_sessions r1 = ar_sessions r" "ar_tombstones r1 = ar_tombstones r" "ar_disposed r1 = ar_disposed r"
      "length (ar_objects r1) = length (ar_objects r)"
    by (simp_all add: r1)
  then show "ar_sessions r1 = ar_sessions r" "ar_tombstones r1 = ar_tombstones r"
    by simp_all
  show "registry_ok {} r1" "live_run r1 = live_run r" "ident r1 a = ident r a"
    using assms(1) by (simp_all add: registry_ok_def shape_ok_def live_run_def fun_eq_iff same id split: option.splits)
qed

lemma observe_new:
  assumes "registry_ok {} r" "map_of (ar_sessions r) sid = None" "observeHook now sid cwd r = (a, r1)"
  shows "registry_ok {sid} r1" "map_of (ar_sessions r1) sid = Some a"
    "\<And>k. k \<noteq> sid \<Longrightarrow> live_run r1 k = live_run r k"
    "ended_run r1 = (ended_run r)(sid := None)" "ident r1 a = attach_identity sid (ended_run r sid)"
    "fst ` set (lru_map (ar_tombstones r1)) \<subseteq> fst ` set (lru_map (ar_tombstones r))"
proof -
  have sh: "shape_ok r"
    using assms(1) by (simp add: registry_ok_def)
  define t where "t = (if lru_get (ar_tombstones r) sid \<noteq> None then snd (lru_delete (ar_tombstones r) sid) else ar_tombstones r)"
  have t: "lru_get t = (lru_get (ar_tombstones r))(sid := None)" "set (lru_map t) \<subseteq> set (lru_map (ar_tombstones r))"
      "lru_ok t" "lru_maxEntries t = lru_maxEntries (ar_tombstones r)"
    using sh lru.del_ok [of "ar_tombstones r" sid]
    by (auto simp: t_def lru_get_def lru_delete_def delete_conv' set_delete shape_ok_def fun_eq_iff)
  have a: "a = length (ar_objects r)"
    and obj: "ar_objects r1 = ar_objects r @ [new_session sid (attach_identity sid (ended_run r sid)) cwd now]"
    and ses: "ar_sessions r1 = ar_sessions r @ [(sid, a)]" and tom: "ar_tombstones r1 = t" and dis: "\<not> ar_disposed r1"
    using assms(2,3) sh update_new [of sid "ar_sessions r" a]
    by (auto simp: observeHook_def Let_def t_def ended_run_def shape_ok_def map_of_eq_None_iff [THEN iffD1, OF assms(2)])
  show "ident r1 a = attach_identity sid (ended_run r sid)"
    by (simp add: ident_def as_object_def obj a new_session_def)
  have id: "ident r1 b = ident r b" if "b < length (ar_objects r)" for b
    using that by (simp add: ident_def as_object_def obj nth_append)
  have old: "sid' \<noteq> sid \<and> b < length (ar_objects r)" if "(sid', b) \<in> set (ar_sessions r)" for sid' b
    using that sh assms(2) by (auto simp: shape_ok_def map_of_eq_None_iff image_iff)
  have sh1: "shape_ok r1"
    using sh t dis assms(2) old unfolding shape_ok_def
    by (fastforce simp: ses tom obj a map_of_eq_None_iff)
  show "registry_ok {sid} r1"
    using assms(1) sh1 old id by (auto simp: registry_ok_def ses)
  show "map_of (ar_sessions r1) sid = Some a"
    using assms(2) by (simp add: ses map_add_def)
  show "live_run r1 k = live_run r k" if "k \<noteq> sid" for k
    using that id old by (auto simp: live_run_def ses map_add_def split: option.splits dest!: map_of_SomeD)
  show "ended_run r1 = (ended_run r)(sid := None)"
    using t(1) by (simp add: ended_run_def tom fun_eq_iff)
  show "fst ` set (lru_map (ar_tombstones r1)) \<subseteq> fst ` set (lru_map (ar_tombstones r))"
    using t(2) by (auto simp: tom)
qed

lemma hook_assigns:
  assumes ok: "registry_ok {} r" and sid: "sid \<noteq> []"
    and r': "receive_hook now sid cwd src False n r = (b, r')"
  shows "rb_runId b = next_run sid n r" "registry_ok {} r'" "live_run r' = (live_run r)(sid \<mapsto> next_run sid n r)"
    "ended_run r' = (if live_run r sid = None then (ended_run r)(sid := None) else ended_run r)"
    "fst ` set (lru_map (ar_tombstones r')) \<subseteq> fst ` set (lru_map (ar_tombstones r))"
proof -
  obtain a r1 where obs: "observeHook now sid cwd r = (a, r1)"
    by fastforce
  define i where "i = snd (onHookSession sid src n (ident r1 a))"
  have rb: "b = fst (onHookSession sid src n (ident r1 a))" "r' = upd_identity a (\<lambda>_. i) r1"
    using r' obs by (auto simp: receive_hook_def i_def ident_def Let_def split: prod.splits)
  define c where "c = next_run sid n r"
  have "registry_ok {sid} r1 \<and> map_of (ar_sessions r1) sid = Some a
    \<and> (\<forall>k. k \<noteq> sid \<longrightarrow> live_run r1 k = live_run r k)
    \<and> ended_run r1 = (if live_run r sid = None then (ended_run r)(sid := None) else ended_run r)
    \<and> fst ` set (lru_map (ar_tombstones r1)) \<subseteq> fst ` set (lru_map (ar_tombstones r))
    \<and> rb_runId b = c \<and> steady sid i \<and> si_canonical i = Some c"
  proof (cases "map_of (ar_sessions r) sid")
    case None
    note o = observe_new [OF ok None obs]
    have t: "t \<noteq> []" if "ended_run r sid = Some t" for t
      using that ok by (auto simp: ended_run_def lru_get_def registry_ok_def shape_ok_def dest!: map_of_SomeD)
    have "c = (if ended_run r sid \<noteq> None then mintSyntheticSessionId n else sid)"
      using None by (simp add: c_def next_run_def live_run_def)
    from hook_fresh [OF sid t this o(5), of src] show ?thesis
      using o None by (simp add: rb(1) i_def live_None [OF ok])
  next
    case (Some b')
    note o = observe_known [OF ok Some obs]
    have live: "live_run r sid = si_canonical (ident r a)"
      using Some o(1) by (simp add: live_run_def)
    then have "live_run r sid = Some c"
      using live_None [OF ok, of sid] Some by (auto simp: c_def next_run_def)
    moreover have st: "steady sid (ident r a)"
      using ok Some o(1) by (auto simp: registry_ok_def dest!: map_of_SomeD)
    ultimately show ?thesis
      using hook_steady [OF st _ sid, of c src n] live o Some
      by (auto simp: rb(1) i_def registry_ok_def ended_run_def fun_eq_iff)
  qed
  then have o: "registry_ok {sid} r1" "map_of (ar_sessions r1) sid = Some a" "\<And>k. k \<noteq> sid \<Longrightarrow> live_run r1 k = live_run r k"
      "ended_run r1 = (if live_run r sid = None then (ended_run r)(sid := None) else ended_run r)"
      "fst ` set (lru_map (ar_tombstones r1)) \<subseteq> fst ` set (lru_map (ar_tombstones r))"
      "rb_runId b = c" "steady sid i" "si_canonical i = Some c"
    by auto
  note si = set_identity [OF o(1,2,7,8)]
  show "rb_runId b = next_run sid n r" "registry_ok {} r'"
    using o(6) si(1) by (simp_all add: c_def rb(2))
  show "live_run r' = (live_run r)(sid \<mapsto> next_run sid n r)"
    using si(2) o(3) by (auto simp: rb(2) c_def fun_eq_iff)
  show "ended_run r' = (if live_run r sid = None then (ended_run r)(sid := None) else ended_run r)"
    using o(4) by (simp add: ended_run_def rb(2) fun_eq_iff)
  show "fst ` set (lru_map (ar_tombstones r')) \<subseteq> fst ` set (lru_map (ar_tombstones r))"
    using o(5) by (simp add: rb(2))
qed

lemma receive_ended:
  assumes "registry_ok {} r" "sid \<noteq> []" "receive_hook now sid cwd src False n r = (b, r1)"
  obtains a where "map_of (ar_sessions r1) sid = Some a"
    "receive_hook now sid cwd src True n r = (b, reap sid (upd_identity a markRunTerminal r1))"
proof -
  obtain a r0 where obs: "observeHook now sid cwd r = (a, r0)"
    by fastforce
  have "ar_sessions r1 = ar_sessions r0"
    using assms(3) obs by (auto simp: receive_hook_def Let_def split: prod.splits)
  moreover have "map_of (ar_sessions r0) sid = Some a"
    using observe_known(1,3) [OF assms(1) _ obs] observe_new(2) [OF assms(1) _ obs] by (cases "map_of (ar_sessions r) sid") auto
  ultimately show ?thesis
    using assms(3) obs that [of a] by (auto simp: receive_hook_def Let_def split: prod.splits)
qed

lemma hook_ends:
  assumes ok: "registry_ok {} r" and sid: "sid \<noteq> []" and r': "receive_hook now sid cwd src True n r = (b, r')"
    and room: "card (insert sid (fst ` set (lru_map (ar_tombstones r)))) \<le> TERMINAL_TOMBSTONE_MAX_ENTRIES"
  shows "rb_runId b = next_run sid n r" "registry_ok {} r'" "live_run r' = (live_run r)(sid := None)"
    "ended_run r' = (ended_run r)(sid \<mapsto> next_run sid n r)"
    "fst ` set (lru_map (ar_tombstones r')) \<subseteq> insert sid (fst ` set (lru_map (ar_tombstones r)))"
proof -
  obtain b1 r1 where r1: "receive_hook now sid cwd src False n r = (b1, r1)"
    by fastforce
  note h = hook_assigns [OF ok sid r1]
  obtain a where a: "map_of (ar_sessions r1) sid = Some a" "receive_hook now sid cwd src True n r = (b1, reap sid (upd_identity a markRunTerminal r1))"
    by (rule receive_ended [OF ok sid r1])
  have c: "si_canonical (ident r1 a) = Some (next_run sid n r)"
    using h(3) a(1) by (simp add: live_run_def fun_eq_iff) (metis option.simps(5))
  have "card (insert sid (fst ` set (lru_map (ar_tombstones r1)))) \<le> TERMINAL_TOMBSTONE_MAX_ENTRIES"
    using h(5) by (intro le_trans [OF card_mono room]) auto
  note e = reap_ended [OF h(2) a(1) c this refl]
  have b: "b = b1" "r' = reap sid (upd_identity a markRunTerminal r1)"
    using r' a(2) by auto
  show "rb_runId b = next_run sid n r" "registry_ok {} r'" "live_run r' = (live_run r)(sid := None)"
    using h(1,3) e by (simp_all add: b)
  show "ended_run r' = (ended_run r)(sid \<mapsto> next_run sid n r)"
    using h(4) e(3) by (simp add: b fun_eq_iff)
  show "fst ` set (lru_map (ar_tombstones r')) \<subseteq> insert sid (fst ` set (lru_map (ar_tombstones r)))"
    using h(5) e(4) by (auto simp: b)
qed

section \<open>Other steps\<close>

lemma watcher_steady: "steady sid i \<Longrightarrow> steady sid (emitMonitoring ev i) \<and> si_canonical (emitMonitoring ev i) = si_canonical i"
  by (auto simp: steady_def emitMonitoring_def tell_identity_def split: option.splits)

lemma watcher_ok:
  assumes ok: "registry_ok {} r" and a: "a < length (ar_objects r)"
  shows "registry_ok {} (upd_identity a (emitMonitoring ev) r)" "live_run (upd_identity a (emitMonitoring ev) r) = live_run r"
proof -
  have sh: "shape_ok r" "shape_ok (upd_identity a (emitMonitoring ev) r)"
    using ok by (simp_all add: registry_ok_def shape_ok_def)
  have st: "steady sid (ident r b)" if "map_of (ar_sessions r) sid = Some b" for sid b
    using ok that unfolding ok_iff [OF sh(1)] by blast
  show "registry_ok {} (upd_identity a (emitMonitoring ev) r)"
    unfolding ok_iff [OF sh(2)] using st watcher_steady [OF st] by auto
  show "live_run (upd_identity a (emitMonitoring ev) r) = live_run r"
    using watcher_steady [OF st] a by (auto simp: live_run_def fun_eq_iff split: option.splits)
qed

lemma root_ok:
  assumes ok: "registry_ok {} r"
  shows "registry_ok {} (root_resolved a cwd found r)" "live_run (root_resolved a cwd found r) = live_run r"
    "ar_tombstones (root_resolved a cwd found r) = ar_tombstones r"
proof -
  let ?r = "root_resolved a cwd found r"
  have "ident ?r = ident r"
    by (auto simp: root_resolved_def Let_def ident_def tell_attach_def as_object_def upd_object_def nth_list_update
        fun_eq_iff list_update_beyond split: option.splits)
      (metis list_update_beyond not_le nth_list_update AttachSession.select_convs(2) AttachSession.surjective AttachSession.update_convs(3,5))+
  moreover have "ar_sessions ?r = ar_sessions r" "ar_tombstones ?r = ar_tombstones r" "ar_disposed ?r = ar_disposed r"
      "length (ar_objects ?r) = length (ar_objects r)"
    by (auto simp: root_resolved_def Let_def split: option.splits)
  ultimately show "registry_ok {} ?r" "live_run ?r = live_run r" "ar_tombstones ?r = ar_tombstones r"
    using ok by (auto simp: registry_ok_def shape_ok_def live_run_def fun_eq_iff split: option.splits)
qed

lemma reap_live:
  assumes ok: "registry_ok {} r" and a: "map_of (ar_sessions r) sid = Some a" and r': "reapOne sid r = (d, r')"
  shows "registry_ok {} r'" "live_run r' = (live_run r)(sid := None)" "ar_tombstones r' = ar_tombstones r"
    "idle_session now r' = idle_session now r"
proof -
  have sh: "shape_ok r"
    using ok by (simp add: registry_ok_def)
  have "\<not> si_currentRunTerminal (ident r a)"
    using ok a unfolding ok_iff [OF sh] steady_def by blast
  then have eq: "r' = (stop_watcher a (upd_identity a dispose_identity r))\<lparr>ar_sessions := AList.delete sid (ar_sessions r)\<rparr>"
    using a r' by (simp add: reapOne_def ident_def Let_def)
  have other: "b \<noteq> a" if "map_of (ar_sessions r) sid' = Some b" "sid' \<noteq> sid" for sid' b
    using that ok_address [OF sh a] by auto
  have "shape_ok (stop_watcher a (upd_identity a dispose_identity r))"
    using sh by (simp add: shape_ok_def)
  then have sh': "shape_ok r'"
    unfolding eq using drop_session by fastforce
  show "registry_ok {} r'"
    unfolding ok_iff [OF sh'] using ok other unfolding ok_iff [OF sh] by (auto simp: eq delete_conv' split: if_splits)
  show "live_run r' = (live_run r)(sid := None)"
    using other by (fastforce simp: eq live_run_def delete_conv' split: option.splits)
  show "ar_tombstones r' = ar_tombstones r"
    by (simp add: eq)
  show "idle_session now r' = idle_session now r"
    by (auto simp: eq idle_session_def fun_eq_iff as_object_def stop_watcher_def tell_attach_def upd_identity_def upd_object_def
        nth_list_update list_update_beyond)
      (metis list_update_beyond not_le nth_list_update AttachSession.select_convs(6) AttachSession.surjective AttachSession.update_convs(2))+
qed

lemma idle_loop:
  assumes "registry_ok {} r" "reap_idle_loop now xs ch r = (ch', r')"
  shows "registry_ok {} r' \<and> ar_tombstones r' = ar_tombstones r
    \<and> (\<forall>k. live_run r' k = live_run r k \<or> live_run r' k = None \<and> (\<exists>a. (k, a) \<in> set xs \<and> idle_session now r a))"
  using assms
proof (induction xs arbitrary: ch r)
  case (Cons x xs)
  obtain sid a where x: "x = (sid, a)"
    by fastforce
  show ?case
  proof (cases "idle_session now r a \<and> map_of (ar_sessions r) sid \<noteq> None")
    case True
    obtain d r1 where r1: "reapOne sid r = (d, r1)"
      by fastforce
    obtain b where "map_of (ar_sessions r) sid = Some b"
      using True by auto
    note one = reap_live [OF Cons.prems(1) this r1]
    have "reap_idle_loop now xs (ch \<or> d) r1 = (ch', r')"
      using Cons.prems(2) True by (simp add: x r1)
    note rest = Cons.IH [OF one(1) this, unfolded one(3) one(4)]
    have "live_run r' k = live_run r k \<or> live_run r' k = None \<and> (\<exists>a. (k, a) \<in> set (x # xs) \<and> idle_session now r a)" for k
    proof (cases "k = sid")
      case True
      have "live_run r' sid = None"
        using rest one(2) by (metis fun_upd_same)
      then show ?thesis
        using True \<open>idle_session now r a \<and> _\<close> by (auto simp: x)
    next
      case False
      then have "live_run r1 k = live_run r k"
        by (simp add: one(2))
      then show ?thesis
        using rest by (metis list.set_intros(2))
    qed
    then show ?thesis
      using rest by blast
  next
    case False
    then have "reap_idle_loop now xs ch r = (ch', r')"
      using Cons.prems(2) by (auto simp: x reapOne_def split: if_splits)
    from Cons.IH [OF Cons.prems(1) this] show ?thesis
      by (auto simp: x)
  qed
qed simp

lemma reap_idle_ok:
  assumes "registry_ok {} r"
  shows "registry_ok {} (reapIdle now r)" "ar_tombstones (reapIdle now r) = ar_tombstones r"
    "live_run (reapIdle now r) k = live_run r k
     \<or> live_run (reapIdle now r) k = None \<and> (\<exists>a. (k, a) \<in> set (ar_sessions r) \<and> idle_session now r a)"
proof -
  obtain ch r' where r': "reap_idle_loop now (ar_sessions r) False r = (ch, r')"
    by fastforce
  have eq: "ar_sessions (reapIdle now r) = ar_sessions r'" "ident (reapIdle now r) = ident r'"
      "ar_tombstones (reapIdle now r) = ar_tombstones r'" "ar_disposed (reapIdle now r) = ar_disposed r'"
      "ar_objects (reapIdle now r) = ar_objects r'"
    using assms r' by (auto simp: reapIdle_def registry_ok_def shape_ok_def split: bool.splits)
  have live: "live_run (reapIdle now r) = live_run r'"
    by (auto simp: live_run_def eq fun_eq_iff split: option.splits)
  show "registry_ok {} (reapIdle now r)" "ar_tombstones (reapIdle now r) = ar_tombstones r"
    using idle_loop [OF assms r'] by (auto simp: registry_ok_def shape_ok_def eq)
  show "live_run (reapIdle now r) k = live_run r k
     \<or> live_run (reapIdle now r) k = None \<and> (\<exists>a. (k, a) \<in> set (ar_sessions r) \<and> idle_session now r a)"
    using idle_loop [OF assms r'] by (simp add: live)
qed

section \<open>Runs that have ended\<close>

text \<open>The identifiers a sequence of steps uses.\<close>

fun hook_ids :: "'e attach_op list \<Rightarrow> jstring list" where
  "hook_ids [] = []"
| "hook_ids (Hook now sid cwd src ended n # ops) = sid # hook_ids ops"
| "hook_ids (_ # ops) = hook_ids ops"

fun ended_ids :: "'e attach_op list \<Rightarrow> jstring list" where
  "ended_ids [] = []"
| "ended_ids (Hook now sid cwd src ended n # ops) = (if ended then [sid] else []) @ ended_ids ops"
| "ended_ids (_ # ops) = ended_ids ops"

fun new_ids :: "'e attach_op list \<Rightarrow> jstring list" where
  "new_ids [] = []"
| "new_ids (Hook now sid cwd src ended n # ops) = n # new_ids ops"
| "new_ids (_ # ops) = new_ids ops"

text \<open>
  Steps up to a shutdown in which the reaper only removes sessions that are on the run of their
  own identifier, that is, sessions that did not come back after their end.
\<close>

definition heals :: "int \<Rightarrow> 'e AttachRegistry \<Rightarrow> bool" where
  "heals now r = list_all (\<lambda>(sid, a). idle_session now r a \<longrightarrow> si_canonical (as_identity (as_object r a)) = Some sid) (ar_sessions r)"

fun orderly :: "'e attach_op list \<Rightarrow> 'e AttachRegistry \<Rightarrow> bool" where
  "orderly [] r = True"
| "orderly (Attach_dispose # ops) r = False"
| "orderly (Attach_stopped # ops) r = False"
| "orderly (Reaper_tick now # ops) r = (heals now r \<and> orderly ops (attach_step (Reaper_tick now) r))"
| "orderly (op # ops) r = orderly ops (attach_step op r)"

fun never_rejoined :: "(jstring \<times> bool) list \<Rightarrow> bool" where
  "never_rejoined [] = True"
| "never_rejoined ((run, ended) # later) = ((ended \<longrightarrow> run \<notin> fst ` set later) \<and> never_rejoined later)"

text \<open>
  The same on the maps alone: \<open>S\<close> holds the provider sessions, \<open>N\<close> the new identifiers used, \<open>E\<close>
  the runs that have ended.
\<close>

definition maps_inv ::
  "jstring set \<Rightarrow> jstring set \<Rightarrow> jstring set \<Rightarrow> (jstring \<Rightarrow> jstring option) \<Rightarrow> (jstring \<Rightarrow> jstring option) \<Rightarrow> bool" where
  "maps_inv S N E L T \<longleftrightarrow>
     (\<forall>s c. L s = Some c \<longrightarrow> c \<notin> E \<and> s \<in> S \<and> (c = s \<or> c \<in> mintSyntheticSessionId ` N))
     \<and> (\<forall>s s' c. L s = Some c \<longrightarrow> L s' = Some c \<longrightarrow> s = s')
     \<and> (\<forall>s. s \<in> S \<longrightarrow> s \<in> E \<longrightarrow> L s \<noteq> None \<or> T s \<noteq> None)
     \<and> E \<subseteq> S \<union> mintSyntheticSessionId ` N \<and> S \<inter> mintSyntheticSessionId ` N = {}"

lemma maps_invD:
  assumes "maps_inv S N E L T"
  shows "L s = Some c \<Longrightarrow> c \<notin> E" "L s = Some c \<Longrightarrow> s \<in> S" "L s = Some c \<Longrightarrow> c = s \<or> c \<in> mintSyntheticSessionId ` N"
    "L s = Some c \<Longrightarrow> L s' = Some c \<Longrightarrow> s = s'" "s \<in> S \<Longrightarrow> s \<in> E \<Longrightarrow> L s \<noteq> None \<or> T s \<noteq> None"
    "E \<subseteq> S \<union> mintSyntheticSessionId ` N" "S \<inter> mintSyntheticSessionId ` N = {}"
  using assms unfolding maps_inv_def by blast+

lemma mint_inj: "mintSyntheticSessionId n = mintSyntheticSessionId m \<longleftrightarrow> n = m"
  by (simp add: mintSyntheticSessionId_def)

lemma maps_assign:
  assumes inv: "maps_inv S N E L T" and ids: "s \<in> S" "n \<notin> N" "mintSyntheticSessionId n \<notin> S"
    and c: "c \<notin> E" "c = s \<or> c = mintSyntheticSessionId n \<or> L s = Some c" and T': "\<And>k. k \<noteq> s \<Longrightarrow> T' k = T k"
  shows "maps_inv S (insert n N) E (L(s \<mapsto> c)) T'"
proof -
  note D = maps_invD [OF inv]
  have new: "mintSyntheticSessionId n \<notin> mintSyntheticSessionId ` N"
    using ids(2) by (auto simp: mint_inj)
  have cs: "c = s \<or> c \<in> mintSyntheticSessionId ` insert n N"
    using c(2) D(3) by auto
  have other: "d \<noteq> c" if "L k = Some d" "k \<noteq> s" for k d
  proof
    assume "d = c"
    with c(2) that show False
      using D(2,3) [OF that(1)] D(4) [OF that(1), of s] D(7) ids(1,3) new by (auto simp: mint_inj)
  qed
  have "(L(s \<mapsto> c)) k = Some d \<Longrightarrow> d \<notin> E \<and> k \<in> S \<and> (d = k \<or> d \<in> mintSyntheticSessionId ` insert n N)" for k d
    using c(1) cs ids(1) D(1-3) [of k d] by (cases "k = s") auto
  moreover have "(L(s \<mapsto> c)) k = Some d \<Longrightarrow> (L(s \<mapsto> c)) k' = Some d \<Longrightarrow> k = k'" for k k' d
    using other [of k d] other [of k' d] D(4) [of k d k'] by (cases "k = s"; cases "k' = s") auto
  moreover have "k \<in> S \<Longrightarrow> k \<in> E \<Longrightarrow> (L(s \<mapsto> c)) k \<noteq> None \<or> T' k \<noteq> None" for k
    using D(5) [of k] T' [of k] by (cases "k = s") auto
  moreover have "E \<subseteq> S \<union> mintSyntheticSessionId ` insert n N" "S \<inter> mintSyntheticSessionId ` insert n N = {}"
    using D(6,7) ids(3) by auto
  ultimately show ?thesis
    unfolding maps_inv_def by blast
qed

lemma maps_end:
  assumes inv: "maps_inv S N E L T" and c: "L s = Some c" and T': "T' s \<noteq> None" "\<And>k. k \<noteq> s \<Longrightarrow> T' k = T k"
  shows "maps_inv S N (insert c E) (L(s := None)) T'"
proof -
  note D = maps_invD [OF inv]
  have "(L(s := None)) k = Some d \<Longrightarrow> d \<notin> insert c E \<and> k \<in> S \<and> (d = k \<or> d \<in> mintSyntheticSessionId ` N)" for k d
    using D(1-3) [of k d] D(4) [of k d s] c by (cases "k = s") auto
  moreover have "(L(s := None)) k = Some d \<Longrightarrow> (L(s := None)) k' = Some d \<Longrightarrow> k = k'" for k k' d
    using D(4) [of k d k'] by (cases "k = s"; cases "k' = s") auto
  moreover have "k \<in> S \<Longrightarrow> k \<in> insert c E \<Longrightarrow> (L(s := None)) k \<noteq> None \<or> T' k \<noteq> None" for k
    using D(5) [of k] D(3) [OF c] D(7) T' by (cases "k = s") auto
  moreover have "insert c E \<subseteq> S \<union> mintSyntheticSessionId ` N"
    using D(6) D(2,3) [OF c] by auto
  ultimately show ?thesis
    using D(7) unfolding maps_inv_def by blast
qed

lemma maps_forget:
  assumes inv: "maps_inv S N E L T" and L': "\<And>k. L' k = L k \<or> L' k = None \<and> L k = Some k"
  shows "maps_inv S N E L' T"
proof -
  note D = maps_invD [OF inv]
  have sub: "L' k = Some c \<Longrightarrow> L k = Some c" for k c
    using L' [of k] by auto
  have "L' k = Some d \<Longrightarrow> d \<notin> E \<and> k \<in> S \<and> (d = k \<or> d \<in> mintSyntheticSessionId ` N)" for k d
    using D(1-3) [OF sub [of k d]] by simp
  moreover have "L' k = Some d \<Longrightarrow> L' k' = Some d \<Longrightarrow> k = k'" for k k' d
    using D(4) [OF sub [of k d] sub [of k' d]] by simp
  moreover have "k \<in> S \<Longrightarrow> k \<in> E \<Longrightarrow> L' k \<noteq> None \<or> T k \<noteq> None" for k
    using D(5) [of k] D(1) [of k k] L' [of k] by auto
  ultimately show ?thesis
    using D(6,7) unfolding maps_inv_def by blast
qed

definition ended_inv :: "jstring set \<Rightarrow> jstring set \<Rightarrow> jstring set \<Rightarrow> jstring set \<Rightarrow> 'e AttachRegistry \<Rightarrow> bool" where
  "ended_inv S K N E r \<longleftrightarrow> registry_ok {} r \<and> maps_inv S N E (live_run r) (ended_run r)
     \<and> fst ` set (lru_map (ar_tombstones r)) \<subseteq> K"

lemma next_run_fresh:
  assumes "maps_inv S N E (live_run r) (ended_run r)" "sid \<in> S" "n \<notin> N" "mintSyntheticSessionId n \<notin> S"
  shows "next_run sid n r \<notin> E"
proof (cases "live_run r sid")
  case None
  have "mintSyntheticSessionId n \<notin> E"
    using maps_invD(6) [OF assms(1)] assms(3,4) by (auto simp: mint_inj)
  moreover have "sid \<notin> E" if "ended_run r sid = None"
    using maps_invD(5) [OF assms(1,2)] None that by auto
  ultimately show ?thesis
    using None by (auto simp: next_run_def)
next
  case (Some c)
  then show ?thesis
    using maps_invD(1) [OF assms(1) Some] by (simp add: next_run_def)
qed

lemma next_run_cases:
  "next_run sid n r = sid \<or> next_run sid n r = mintSyntheticSessionId n \<or> live_run r sid = Some (next_run sid n r)"
  by (auto simp: next_run_def split: option.splits)

lemma hook_inv:
  assumes inv: "ended_inv S K N E r" and ids: "sid \<in> S" "[] \<notin> S" "n \<notin> N" "mintSyntheticSessionId n \<notin> S"
    and r': "receive_hook now sid cwd src False n r = (b, r')"
  shows "ended_inv S K (insert n N) E r'" "rb_runId b = next_run sid n r"
proof -
  have ok: "registry_ok {} r" and ne: "sid \<noteq> []" and m: "maps_inv S N E (live_run r) (ended_run r)"
    using inv ids by (auto simp: ended_inv_def)
  note h = hook_assigns [OF ok ne r']
  have T: "ended_run r' k = ended_run r k" if "k \<noteq> sid" for k
    using that by (simp add: h(4))
  have "maps_inv S (insert n N) E (live_run r') (ended_run r')"
    unfolding h(3) by (rule maps_assign [OF m ids(1,3,4) next_run_fresh [OF m ids(1,3,4)] next_run_cases T])
  then show "ended_inv S K (insert n N) E r'"
    using inv h(2,5) by (auto simp: ended_inv_def)
  show "rb_runId b = next_run sid n r"
    by (rule h(1))
qed

lemma end_inv:
  assumes inv: "ended_inv S K N E r" and ids: "sid \<in> S" "[] \<notin> S" "n \<notin> N" "mintSyntheticSessionId n \<notin> S"
    and K: "sid \<in> K" "finite K" "card K \<le> TERMINAL_TOMBSTONE_MAX_ENTRIES"
    and r': "receive_hook now sid cwd src True n r = (b, r')"
  shows "ended_inv S K (insert n N) (insert (next_run sid n r) E) r'" "rb_runId b = next_run sid n r"
proof -
  have ok: "registry_ok {} r" and ne: "sid \<noteq> []" and sub: "insert sid (fst ` set (lru_map (ar_tombstones r))) \<subseteq> K"
    using inv ids K(1) by (auto simp: ended_inv_def)
  obtain b1 r1 where r1: "receive_hook now sid cwd src False n r = (b1, r1)"
    by fastforce
  note h1 = hook_assigns [OF ok ne r1]
  have m1: "maps_inv S (insert n N) E (live_run r1) (ended_run r1)"
    using hook_inv(1) [OF inv ids r1] by (simp add: ended_inv_def)
  have "card (insert sid (fst ` set (lru_map (ar_tombstones r)))) \<le> TERMINAL_TOMBSTONE_MAX_ENTRIES"
    using card_mono [OF K(2) sub] K(3) by simp
  note h = hook_ends [OF ok ne r' this]
  have live: "live_run r' = (live_run r1)(sid := None)" and c: "live_run r1 sid = Some (next_run sid n r)"
    by (simp_all add: h1(3) h(3))
  have "maps_inv S (insert n N) (insert (next_run sid n r) E) (live_run r') (ended_run r')"
    unfolding live by (rule maps_end [OF m1 c]) (simp_all add: h(4) h1(4))
  then show "ended_inv S K (insert n N) (insert (next_run sid n r) E) r'"
    using h(2,5) sub by (auto simp: ended_inv_def)
  show "rb_runId b = next_run sid n r"
    by (rule h(1))
qed

lemma quiet_inv:
  assumes inv: "ended_inv S K N E r" and quiet: "\<And>now sid cwd src e n. op \<noteq> Hook now sid cwd src e n" and "orderly (op # ops) r"
  shows "ended_inv S K N E (attach_step op r)" "assigned (op # ops) r = assigned ops (attach_step op r)"
    "orderly ops (attach_step op r)"
proof -
  have ok: "registry_ok {} r"
    using inv by (simp add: ended_inv_def)
  have cong: "ended_inv S K N E r'"
    if "registry_ok {} r'" "ar_tombstones r' = ar_tombstones r" "\<And>k. live_run r' k = live_run r k \<or> live_run r' k = None \<and> live_run r k = Some k" for r'
  proof -
    have T: "ended_run r' = ended_run r"
      by (simp add: ended_run_def that(2) fun_eq_iff)
    have "maps_inv S N E (live_run r') (ended_run r)"
      by (rule maps_forget [OF _ that(3)]) (use inv in \<open>simp add: ended_inv_def\<close>)
    then show ?thesis
      using inv that(1,2) T by (simp add: ended_inv_def)
  qed
  show "ended_inv S K N E (attach_step op r)"
  proof (cases op)
    case (Reaper_tick now)
    then have h: "heals now r"
      using assms(3) by simp
    have "live_run r k = Some k" if "(k, a) \<in> set (ar_sessions r)" "idle_session now r a" for k a
      using that h ok by (auto simp: heals_def list_all_iff live_run_def registry_ok_def shape_ok_def ident_def)
    then have "live_run (reapIdle now r) k = live_run r k \<or> live_run (reapIdle now r) k = None \<and> live_run r k = Some k" for k
      using reap_idle_ok(3) [OF ok, of now k] by blast
    from cong [OF reap_idle_ok(1,2) [OF ok] this] inv show ?thesis
      by (simp add: Reaper_tick)
  qed (use assms in \<open>auto intro!: cong simp: root_ok [OF ok] watcher_ok [OF ok]\<close>)
  show "assigned (op # ops) r = assigned ops (attach_step op r)" "orderly ops (attach_step op r)"
    using quiet assms(3) by (cases op; simp)+
qed

lemma assigned_fresh:
  assumes "ended_inv S K N E r" "orderly ops r" "set (hook_ids ops) \<subseteq> S" "set (ended_ids ops) \<subseteq> K" "[] \<notin> S"
    and "finite K" "card K \<le> TERMINAL_TOMBSTONE_MAX_ENTRIES"
    and "distinct (new_ids ops)" "set (new_ids ops) \<inter> N = {}" "S \<inter> mintSyntheticSessionId ` set (new_ids ops) = {}"
  shows "E \<inter> fst ` set (assigned ops r) = {} \<and> never_rejoined (assigned ops r)"
  using assms
proof (induction ops arbitrary: r N E)
  case (Cons op ops)
  show ?case
  proof (cases "\<exists>now sid cwd src e n. op = Hook now sid cwd src e n")
    case True
    then obtain now sid cwd src e n where op: "op = Hook now sid cwd src e n"
      by blast
    obtain b r' where r': "receive_hook now sid cwd src e n r = (b, r')"
      by fastforce
    have ids: "sid \<in> S" "n \<notin> N" "mintSyntheticSessionId n \<notin> S" "n \<notin> set (new_ids ops)" "e \<Longrightarrow> sid \<in> K"
      using Cons.prems by (auto simp: op)
    define c where "c = next_run sid n r"
    define E' where "E' = (if e then insert c E else E)"
    have "ended_inv S K (insert n N) E' r' \<and> rb_runId b = c"
    proof (cases e)
      case True
      then show ?thesis
        using end_inv [OF Cons.prems(1) ids(1) Cons.prems(5) ids(2,3,5) Cons.prems(6,7)] r' by (simp add: E'_def c_def)
    next
      case False
      then show ?thesis
        using hook_inv [OF Cons.prems(1) ids(1) Cons.prems(5) ids(2,3)] r' by (simp add: E'_def c_def)
    qed
    then have inv': "ended_inv S K (insert n N) E' r'" and run: "rb_runId b = c"
      by auto
    have "E' \<inter> fst ` set (assigned ops r') = {} \<and> never_rejoined (assigned ops r')"
      using Cons.prems ids(4) inv' r' by (intro Cons.IH [of "insert n N" E' r']) (auto simp: op)
    moreover have "c \<notin> E"
      unfolding c_def by (rule next_run_fresh [OF _ ids(1-3)]) (use Cons.prems(1) in \<open>simp add: ended_inv_def\<close>)
    ultimately show ?thesis
      using r' run by (cases e) (auto simp: op E'_def)
  next
    case False
    note q = quiet_inv [OF Cons.prems(1) _ Cons.prems(2)]
    have ids: "hook_ids (op # ops) = hook_ids ops" "ended_ids (op # ops) = ended_ids ops" "new_ids (op # ops) = new_ids ops"
      using False by (cases op; auto)+
    have inv': "ended_inv S K N E (attach_step op r)" "orderly ops (attach_step op r)"
        "assigned (op # ops) r = assigned ops (attach_step op r)"
      using q False by blast+
    show ?thesis
      unfolding inv'(3) by (rule Cons.IH [OF inv'(1,2)]) (use Cons.prems(3-) in \<open>simp_all add: ids\<close>)
  qed
qed simp

text \<open>
  C29. Under an attach daemon no hook is assigned to a run that has ended: once a session ended, the
  next hook of the same provider session, whatever its kind, starts a new run. This holds while
  the daemon is not shut down, for at most as many ended sessions as there are tombstones (256),
  with new identifiers that are new, and as long as the reaper only removes idle sessions that
  are on the run of their own identifier.
\<close>

theorem ended_run_not_rejoined:
  assumes "[] \<notin> set (hook_ids ops)" "distinct (new_ids ops)"
    and "\<forall>n \<in> set (new_ids ops). mintSyntheticSessionId n \<notin> set (hook_ids ops)"
    and "card (set (ended_ids ops)) \<le> TERMINAL_TOMBSTONE_MAX_ENTRIES"
    and "orderly ops (attach_new ttl interval)"
  shows "never_rejoined (assigned ops (attach_new ttl interval))"
proof -
  have "ended_inv (set (hook_ids ops)) (set (ended_ids ops)) {} {} (attach_new ttl interval)"
    using new_ok [of ttl interval] by (auto simp: ended_inv_def maps_inv_def live_run_def attach_new_def)
  from assigned_fresh [OF this assms(5)] show ?thesis
    using assms by auto
qed

definition sample_hooks :: "nat attach_op list" where
  "sample_hooks = [Hook 0 (js ''p'') None None False (js ''1''), Hook 1 (js ''p'') None None True (js ''2''),
     Hook 2 (js ''p'') None (Some (js ''resume'')) False (js ''3''), Reaper_tick 3]"

theorem ended_run_not_rejoined_witness:
  "never_rejoined (assigned sample_hooks (attach_new None None))
   \<and> assigned sample_hooks (attach_new None None) = [(js ''p'', False), (js ''p'', True), (js ''sess_3'', False)]"
proof -
  have "orderly sample_hooks (attach_new None None)"
    by code_simp
  moreover have "assigned sample_hooks (attach_new None None) = [(js ''p'', False), (js ''p'', True), (js ''sess_3'', False)]"
    by code_simp
  moreover have "set (hook_ids sample_hooks) = {js ''p''}" "set (ended_ids sample_hooks) = {js ''p''}"
      "new_ids sample_hooks = [js ''1'', js ''2'', js ''3'']"
    by (auto simp: sample_hooks_def)
  ultimately show ?thesis
    using ended_run_not_rejoined [of sample_hooks None None]
    by (simp add: TERMINAL_TOMBSTONE_MAX_ENTRIES_def mintSyntheticSessionId_def js_def)
qed




end
