(* ===== verification/Hook_Shim.thy ===== *)
theory Hook_Shim
  imports Event_Delivery
begin

text \<open>
  The command shim in front of the hook receiver (\<^verbatim>\<open>apps/sidecar/src/hook-shim-core.ts\<close> and its entry
  \<^verbatim>\<open>hook-shim.ts\<close>), which turns every failure to get a decision into exit code 2, the one
  outcome that blocks a tool call.

  The world of the shim is the record \<open>shim_world\<close>: its standard input, the environment, the
  token file as the file system shows it, how the daemon answers, whether the deadline comes first,
  and whether the output can be written. Bytes are numbers below 256; decoding UTF-8 and parsing
  JSON are its fields \<open>sw_utf8\<close> and \<open>sw_json\<close>. \<^verbatim>\<open>isAbsolute\<close> is that of POSIX.
\<close>

section \<open>Constants\<close>

definition HOOK_SHIM_TOKEN_HEADER :: string where
  "HOOK_SHIM_TOKEN_HEADER = ''X-ActraDeck-Hook-Token''"

definition HOOK_SHIM_MAX_INPUT_BYTES :: nat where
  "HOOK_SHIM_MAX_INPUT_BYTES = 4 * 1024 * 1024"

definition HOOK_SHIM_MAX_RESPONSE_BYTES :: nat where
  "HOOK_SHIM_MAX_RESPONSE_BYTES = 1024 * 1024"

definition HOOK_SHIM_MAX_DEADLINE_MS :: nat where
  "HOOK_SHIM_MAX_DEADLINE_MS = 585000"

definition HOOK_SHIM_MAX_TOKEN_FILE_BYTES :: nat where
  "HOOK_SHIM_MAX_TOKEN_FILE_BYTES = 4096"

definition HOOK_SHIM_MAX_TOKEN_LENGTH :: nat where
  "HOOK_SHIM_MAX_TOKEN_LENGTH = 1024"

datatype HookShimCause =
    Cause_unreachable | Cause_unauthorized | Cause_bad_response | Cause_deadline
  | Cause_input_too_large | Cause_token_unavailable | Cause_bad_args | Cause_output_failed

fun cause_str :: "HookShimCause \<Rightarrow> string" where
  "cause_str Cause_unreachable = ''unreachable''"
| "cause_str Cause_unauthorized = ''unauthorized''"
| "cause_str Cause_bad_response = ''bad_response''"
| "cause_str Cause_deadline = ''deadline''"
| "cause_str Cause_input_too_large = ''input_too_large''"
| "cause_str Cause_token_unavailable = ''token_unavailable''"
| "cause_str Cause_bad_args = ''bad_args''"
| "cause_str Cause_output_failed = ''output_failed''"

definition HOOK_SHIM_CAUSES :: "HookShimCause list" where
  "HOOK_SHIM_CAUSES = [Cause_unreachable, Cause_unauthorized, Cause_bad_response, Cause_deadline,
     Cause_input_too_large, Cause_token_unavailable, Cause_bad_args, Cause_output_failed]"

definition HOOK_SHIM_BLOCK_MESSAGE :: string where
  "HOOK_SHIM_BLOCK_MESSAGE =
    ''This tool call was blocked because ActraDeck could not get an approval decision for it. ''
    @ ''Ask the user to check the ActraDeck daemon; do not change ActraDeck settings or processes yourself.''"

definition formatHookShimStderr :: "HookShimCause \<Rightarrow> string" where
  "formatHookShimStderr cause =
    ''actradeck hook-shim: blocked PreToolUse (cause='' @ cause_str cause @ '')'' @ [CHR 0x0A] @ HOOK_SHIM_BLOCK_MESSAGE @ [CHR 0x0A]"

section \<open>Arguments\<close>

datatype token_source = Token_file jstring | Token_env jstring

record ShimArgs =
  sa_endpoint :: jstring
  sa_deadlineMs :: nat
  sa_token :: token_source
  sa_allowUnreachable :: bool

definition ascii_digit :: "nat \<Rightarrow> bool" where
  "ascii_digit c = (48 \<le> c \<and> c \<le> 57)"

definition decimal :: "jstring \<Rightarrow> nat" where
  "decimal s = foldl (\<lambda>n c. n * 10 + (c - 48)) 0 s"

text \<open>\<^verbatim>\<open>[1-9][0-9]{0,n}\<close>, as the whole of a string.\<close>

definition positive_decimal :: "nat \<Rightarrow> jstring \<Rightarrow> bool" where
  "positive_decimal n s = (s \<noteq> [] \<and> list_all ascii_digit s \<and> hd s \<noteq> 48 \<and> length s \<le> Suc n)"

definition ENDPOINT_PREFIX :: jstring where
  "ENDPOINT_PREFIX = js ''http://127.0.0.1:''"

definition parseEndpoint :: "jstring \<Rightarrow> HookShimCause + jstring" where
  "parseEndpoint raw =
    (let rest = drop (length ENDPOINT_PREFIX) raw; port = takeWhile ascii_digit rest in
     if \<not> js_starts_with raw ENDPOINT_PREFIX \<or> \<not> positive_decimal 4 port
        \<or> drop (length port) rest \<noteq> js ''/hook'' \<or> decimal port > 65535
     then Inl Cause_bad_args else Inr raw)"

definition parseDeadline :: "jstring \<Rightarrow> HookShimCause + nat" where
  "parseDeadline raw =
    (if \<not> positive_decimal 8 raw then Inl Cause_bad_args
     else if decimal raw > HOOK_SHIM_MAX_DEADLINE_MS then Inl Cause_bad_args
     else Inr (decimal raw))"

definition ENV_NAME_RE :: "jstring \<Rightarrow> bool" where
  "ENV_NAME_RE s =
    (let letter = (\<lambda>c. 65 \<le> c \<and> c \<le> 90 \<or> 97 \<le> c \<and> c \<le> 122 \<or> c = 95) in
     s \<noteq> [] \<and> letter (hd s) \<and> list_all (\<lambda>c. letter c \<or> ascii_digit c) (tl s) \<and> length s \<le> 128)"

definition VALUE_FLAGS :: "jstring list" where
  "VALUE_FLAGS = [js ''--endpoint'', js ''--event'', js ''--deadline-ms'', js ''--token-file'', js ''--token-env'', js ''--on-unreachable'']"

fun parse_flags :: "jstring list \<Rightarrow> (jstring \<times> jstring) list \<Rightarrow> HookShimCause + (jstring \<times> jstring) list" where
  "parse_flags [] seen = Inr seen"
| "parse_flags [flag] seen = Inl Cause_bad_args"
| "parse_flags (flag # value # argv) seen =
    (if flag \<notin> set VALUE_FLAGS then Inl Cause_bad_args
     else if map_of seen flag \<noteq> None then Inl Cause_bad_args
     else parse_flags argv (AList.update flag value seen))"

definition check_args :: "(jstring \<times> jstring) list \<Rightarrow> HookShimCause + ShimArgs" where
  "check_args seen =
    (let endpointRaw = map_of seen (js ''--endpoint''); event = map_of seen (js ''--event'');
         deadlineRaw = map_of seen (js ''--deadline-ms''); tokenFile = map_of seen (js ''--token-file'');
         tokenEnv = map_of seen (js ''--token-env'');
         onUnreachable = (case map_of seen (js ''--on-unreachable'') of Some v \<Rightarrow> v | None \<Rightarrow> js ''block'')
     in case (endpointRaw, event, deadlineRaw) of
          (Some e, Some ev, Some d) \<Rightarrow>
            if ev \<noteq> js ''PreToolUse'' then Inl Cause_bad_args
            else if onUnreachable \<noteq> js ''block'' \<and> onUnreachable \<noteq> js ''allow'' then Inl Cause_bad_args
            else if (tokenFile = None) = (tokenEnv = None) then Inl Cause_bad_args
            else if (case tokenFile of Some f \<Rightarrow> \<not> js_starts_with f (js ''/'') | None \<Rightarrow> False) then Inl Cause_bad_args
            else if (case tokenEnv of Some v \<Rightarrow> \<not> ENV_NAME_RE v | None \<Rightarrow> False) then Inl Cause_bad_args
            else
              (case parseEndpoint e of
                 Inl c \<Rightarrow> Inl c
               | Inr endpoint \<Rightarrow>
                   (case parseDeadline d of
                      Inl c \<Rightarrow> Inl c
                    | Inr deadline \<Rightarrow>
                        Inr \<lparr>sa_endpoint = endpoint, sa_deadlineMs = deadline,
                             sa_token = (case tokenFile of Some f \<Rightarrow> Token_file f | None \<Rightarrow> Token_env (the tokenEnv)),
                             sa_allowUnreachable = (onUnreachable = js ''allow'')\<rparr>))
        | _ \<Rightarrow> Inl Cause_bad_args)"

definition parseHookShimArgs :: "jstring list \<Rightarrow> HookShimCause + ShimArgs" where
  "parseHookShimArgs argv = (case parse_flags argv [] of Inl c \<Rightarrow> Inl c | Inr seen \<Rightarrow> check_args seen)"

section \<open>The world\<close>

text \<open>A file that can be opened: what \<^verbatim>\<open>fstat\<close> says, and its bytes unless reading fails.\<close>

record token_file =
  tf_isFile :: bool
  tf_mode :: nat
  tf_uid :: nat
  tf_bytes :: "nat list option"

datatype daemon_answer =
    No_response
  | Response nat "nat list list" bool

text \<open>
  A response has a status, the chunks of its body, and whether the body was cut off after them.
\<close>

record shim_world =
  sw_stdin :: "nat list list"
  sw_stdinFails :: bool
  sw_env :: "jstring \<Rightarrow> jstring option"
  sw_open :: "jstring \<Rightarrow> token_file option"
  sw_getuid :: "nat option"
  sw_utf8 :: "nat list \<Rightarrow> jstring"
  sw_json :: "nat list \<Rightarrow> jsval option"
  sw_daemon :: "jstring \<Rightarrow> jstring \<Rightarrow> nat list \<Rightarrow> daemon_answer"
  sw_deadlineFirst :: bool

section \<open>The stages\<close>

text \<open>A failure that is not one of the shim's own is taken as unreachable.\<close>

definition readInput :: "shim_world \<Rightarrow> HookShimCause + nat list" where
  "readInput w =
    (if sw_stdinFails w then Inl Cause_unreachable
     else if length (concat (sw_stdin w)) > HOOK_SHIM_MAX_INPUT_BYTES then Inl Cause_input_too_large
     else Inr (concat (sw_stdin w)))"

definition read_token_file :: "shim_world \<Rightarrow> jstring \<Rightarrow> jstring option" where
  "read_token_file w path =
    (case sw_open w path of
       None \<Rightarrow> None
     | Some f \<Rightarrow>
         if \<not> tf_isFile f then None
         else if tf_mode f mod 64 \<noteq> 0 then None
         else if (case sw_getuid w of Some u \<Rightarrow> tf_uid f \<noteq> u | None \<Rightarrow> False) then None
         else
           (case tf_bytes f of
              None \<Rightarrow> None
            | Some bytes \<Rightarrow>
                (let buf = take (HOOK_SHIM_MAX_TOKEN_FILE_BYTES + 1) bytes in
                 if length buf > HOOK_SHIM_MAX_TOKEN_FILE_BYTES then None else Some (sw_utf8 w buf))))"

definition strip_newline :: "jstring \<Rightarrow> jstring" where
  "strip_newline s =
    (if s \<noteq> [] \<and> List.last s = 10 then
       (let t = butlast s in if t \<noteq> [] \<and> List.last t = 13 then butlast t else t)
     else s)"

definition TOKEN_VALUE_RE :: "jstring \<Rightarrow> bool" where
  "TOKEN_VALUE_RE s = (s \<noteq> [] \<and> list_all (\<lambda>c. 33 \<le> c \<and> c \<le> 126) s)"

definition readToken :: "ShimArgs \<Rightarrow> shim_world \<Rightarrow> HookShimCause + jstring" where
  "readToken args w =
    (case (case sa_token args of Token_file path \<Rightarrow> read_token_file w path | Token_env name \<Rightarrow> sw_env w name) of
       None \<Rightarrow> Inl Cause_token_unavailable
     | Some raw \<Rightarrow>
         (let token = strip_newline raw in
          if length token = 0 \<or> length token > HOOK_SHIM_MAX_TOKEN_LENGTH \<or> \<not> TOKEN_VALUE_RE token
          then Inl Cause_token_unavailable else Inr token))"

fun collect_chunks :: "nat list list \<Rightarrow> nat list \<Rightarrow> bool \<Rightarrow> HookShimCause + nat list" where
  "collect_chunks [] got broken = (if broken then Inl Cause_unreachable else Inr got)"
| "collect_chunks (c # cs) got broken =
    (if length got + length c > HOOK_SHIM_MAX_RESPONSE_BYTES then Inl Cause_bad_response
     else collect_chunks cs (got @ c) broken)"

fun is_json_object :: "jsval option \<Rightarrow> bool" where
  "is_json_object (Some (JObj ps)) = True"
| "is_json_object _ = False"

definition forward :: "ShimArgs \<Rightarrow> jstring \<Rightarrow> nat list \<Rightarrow> shim_world \<Rightarrow> HookShimCause + nat list" where
  "forward args token body w =
    (case sw_daemon w (sa_endpoint args) token body of
       No_response \<Rightarrow> Inl Cause_unreachable
     | Response status chunks broken \<Rightarrow>
         if status = 401 \<or> status = 403 then Inl Cause_unauthorized
         else if status \<noteq> 200 then Inl Cause_bad_response
         else
           (case collect_chunks chunks [] broken of
              Inl c \<Rightarrow> Inl c
            | Inr raw \<Rightarrow> if is_json_object (sw_json w raw) then Inr raw else Inl Cause_bad_response))"

definition shim_work :: "ShimArgs \<Rightarrow> shim_world \<Rightarrow> HookShimCause + nat list" where
  "shim_work args w =
    (case readInput w of
       Inl c \<Rightarrow> Inl c
     | Inr body \<Rightarrow> (case readToken args w of Inl c \<Rightarrow> Inl c | Inr token \<Rightarrow> forward args token body w))"

record HookShimResult =
  sr_exitCode :: nat
  sr_stdout :: "nat list option"
  sr_stderr :: "string option"

definition runHookShim :: "jstring list \<Rightarrow> shim_world \<Rightarrow> HookShimResult" where
  "runHookShim argv w =
    (case parseHookShimArgs argv of
       Inl _ \<Rightarrow> \<lparr>sr_exitCode = 2, sr_stdout = None, sr_stderr = Some (formatHookShimStderr Cause_bad_args)\<rparr>
     | Inr args \<Rightarrow>
         (case (if sw_deadlineFirst w then Inl Cause_deadline else shim_work args w) of
            Inr out \<Rightarrow> \<lparr>sr_exitCode = 0, sr_stdout = Some out, sr_stderr = None\<rparr>
          | Inl cause \<Rightarrow>
              if sa_allowUnreachable args then \<lparr>sr_exitCode = 0, sr_stdout = None, sr_stderr = None\<rparr>
              else \<lparr>sr_exitCode = 2, sr_stdout = None, sr_stderr = Some (formatHookShimStderr cause)\<rparr>))"

section \<open>The entry\<close>

text \<open>
  The process: \<open>coreLoads\<close> says that the library could be loaded, \<open>written\<close> that the output was
  written. What it leaves behind is its exit code and what is on its two streams.
\<close>

definition FLOOR_STDERR :: string where
  "FLOOR_STDERR =
    ''actradeck hook-shim: blocked PreToolUse (cause=unreachable)'' @ [CHR 0x0A]
    @ ''This tool call was blocked because ActraDeck could not get an approval decision for it. ''
    @ ''Ask the user to check the ActraDeck daemon; do not change ActraDeck settings or processes yourself.'' @ [CHR 0x0A]"

definition shim_main :: "bool \<Rightarrow> bool \<Rightarrow> jstring list \<Rightarrow> shim_world \<Rightarrow> HookShimResult" where
  "shim_main coreLoads written argv w =
    (if \<not> coreLoads then \<lparr>sr_exitCode = 2, sr_stdout = None, sr_stderr = Some FLOOR_STDERR\<rparr>
     else
       (let result = runHookShim argv w in
        if sr_stdout result \<noteq> None \<and> \<not> written
        then \<lparr>sr_exitCode = 2, sr_stdout = None, sr_stderr = Some (formatHookShimStderr Cause_output_failed)\<rparr>
        else result))"

section \<open>Fail closed\<close>

text \<open>The daemon answered: the whole body of a response with status 200, within the limit, a JSON object.\<close>

definition answered :: "ShimArgs \<Rightarrow> shim_world \<Rightarrow> nat list \<Rightarrow> bool" where
  "answered args w out \<longleftrightarrow> (\<exists>token chunks.
     readToken args w = Inr token
     \<and> sw_daemon w (sa_endpoint args) token (concat (sw_stdin w)) = Response 200 chunks False
     \<and> out = concat chunks \<and> length out \<le> HOOK_SHIM_MAX_RESPONSE_BYTES \<and> is_json_object (sw_json w out))"

lemma collect_chunks_Inr:
  "collect_chunks cs got broken = Inr out \<longleftrightarrow>
     \<not> broken \<and> out = got @ concat cs \<and> (cs = [] \<or> length out \<le> HOOK_SHIM_MAX_RESPONSE_BYTES)"
proof (induction cs arbitrary: got)
  case Nil
  then show ?case
    by (simp add: eq_commute)
next
  case (Cons c cs)
  show ?case
  proof (cases "length got + length c > HOOK_SHIM_MAX_RESPONSE_BYTES")
    case True
    then show ?thesis
      by auto
  next
    case False
    then show ?thesis
      using Cons.IH [of "got @ c"] by auto
  qed
qed

lemma body_collected:
  "collect_chunks cs [] broken = Inr out \<longleftrightarrow> \<not> broken \<and> out = concat cs \<and> length out \<le> HOOK_SHIM_MAX_RESPONSE_BYTES"
  by (cases cs) (auto simp: collect_chunks_Inr)

lemma forward_Inr:
  "forward args token body w = Inr out \<longleftrightarrow> (\<exists>chunks. sw_daemon w (sa_endpoint args) token body = Response 200 chunks False
     \<and> out = concat chunks \<and> length out \<le> HOOK_SHIM_MAX_RESPONSE_BYTES \<and> is_json_object (sw_json w out))"
proof (cases "sw_daemon w (sa_endpoint args) token body")
  case (Response status chunks broken)
  show ?thesis
  proof (cases "status = 200")
    case True
    have "forward args token body w = Inr out \<longleftrightarrow> collect_chunks chunks [] broken = Inr out \<and> is_json_object (sw_json w out)"
      by (cases "collect_chunks chunks [] broken") (auto simp: forward_def Response True)
    then show ?thesis
      unfolding body_collected by (simp add: Response True conj_ac)
  next
    case False
    then show ?thesis
      by (simp add: forward_def Response)
  qed
qed (simp add: forward_def)

lemma work_answered:
  "shim_work args w = Inr out \<longleftrightarrow>
     \<not> sw_stdinFails w \<and> length (concat (sw_stdin w)) \<le> HOOK_SHIM_MAX_INPUT_BYTES \<and> answered args w out"
proof (cases "readToken args w")
  case (Inl c)
  then show ?thesis
    by (simp add: shim_work_def answered_def split: sum.splits)
next
  case (Inr token)
  then show ?thesis
    by (simp add: shim_work_def answered_def forward_Inr readInput_def)
qed

text \<open>
  C13. The shim fails closed. It ends with exit code 0 and output exactly when its arguments are
  right, its input is complete and within the limit, the daemon answered in time, and the output could
  be written; the output is then the answer of the daemon, byte for byte. It ends with exit code 0
  and no output only when the arguments are right and ask for that. In all other cases it ends
  with exit code 2 and one of eight fixed texts, which no input can influence.
\<close>

theorem shim_fails_closed:
  "let res = shim_main coreLoads written argv w;
       proper = (\<lambda>args out. parseHookShimArgs argv = Inr args \<and> \<not> sw_deadlineFirst w \<and> \<not> sw_stdinFails w
         \<and> length (concat (sw_stdin w)) \<le> HOOK_SHIM_MAX_INPUT_BYTES \<and> answered args w out)
   in if coreLoads \<and> written \<and> (\<exists>args out. proper args out)
      then sr_exitCode res = 0 \<and> (\<exists>args out. proper args out \<and> sr_stdout res = Some out)
      else if coreLoads \<and> (\<exists>args. parseHookShimArgs argv = Inr args \<and> sa_allowUnreachable args) \<and> \<not> (\<exists>args out. proper args out)
      then res = \<lparr>sr_exitCode = 0, sr_stdout = None, sr_stderr = None\<rparr>
      else sr_exitCode res = 2 \<and> sr_stdout res = None \<and> sr_stderr res \<in> (Some \<circ> formatHookShimStderr) ` set HOOK_SHIM_CAUSES"
proof -
  have floor: "FLOOR_STDERR = formatHookShimStderr Cause_unreachable"
    by (simp add: FLOOR_STDERR_def formatHookShimStderr_def HOOK_SHIM_BLOCK_MESSAGE_def)
  have all: "cause \<in> set HOOK_SHIM_CAUSES" for cause
    by (cases cause) (simp_all add: HOOK_SHIM_CAUSES_def)
  show ?thesis
  proof (cases "parseHookShimArgs argv")
    case (Inl c)
    then show ?thesis
      by (auto simp: shim_main_def runHookShim_def floor all)
  next
    case (Inr args)
    show ?thesis
    proof (cases "if sw_deadlineFirst w then Inl Cause_deadline else shim_work args w")
      case (Inl c)
      then have none: "\<not> (\<not> sw_deadlineFirst w \<and> \<not> sw_stdinFails w
          \<and> length (concat (sw_stdin w)) \<le> HOOK_SHIM_MAX_INPUT_BYTES \<and> answered args w out)" for out
        using work_answered [of args w out] by (auto split: if_splits)
      have run: "runHookShim argv w = (if sa_allowUnreachable args then \<lparr>sr_exitCode = 0, sr_stdout = None, sr_stderr = None\<rparr>
          else \<lparr>sr_exitCode = 2, sr_stdout = None, sr_stderr = Some (formatHookShimStderr c)\<rparr>)"
        using Inr Inl by (simp add: runHookShim_def)
      show ?thesis
        using none Inr by (auto simp: Let_def shim_main_def run floor all)
    next
      case (Inr out)
      then have out: "\<not> sw_deadlineFirst w" "shim_work args w = Inr out"
        by (auto split: if_splits)
      have run: "runHookShim argv w = \<lparr>sr_exitCode = 0, sr_stdout = Some out, sr_stderr = None\<rparr>"
        using \<open>parseHookShimArgs argv = Inr args\<close> out by (simp add: runHookShim_def)
      have "\<not> sw_stdinFails w" "length (concat (sw_stdin w)) \<le> HOOK_SHIM_MAX_INPUT_BYTES" "answered args w out"
        using out(2) unfolding work_answered by auto
      then show ?thesis
        using \<open>parseHookShimArgs argv = Inr args\<close> out(1) by (auto simp: Let_def shim_main_def run floor all)
    qed
  qed
qed

text \<open>
  Every deadline the shim accepts is positive and at most the one that is derived from the longest
  wait for an approval.
\<close>

lemma decimal_pos:
  assumes "positive_decimal n s"
  shows "0 < decimal s"
proof -
  have "m \<le> foldl (\<lambda>n c. n * 10 + (c - 48)) m cs" for m :: nat and cs
  proof (induction cs arbitrary: m)
    case (Cons c cs)
    show ?case
      using Cons [of "m * 10 + (c - 48)"] by simp
  qed simp
  from this [of "hd s - 48" "tl s"] show ?thesis
    using assms by (cases s) (auto simp: positive_decimal_def decimal_def ascii_digit_def)
qed

lemma shim_deadline_bounded:
  assumes "parseHookShimArgs argv = Inr args"
  shows "0 < sa_deadlineMs args \<and> int (sa_deadlineMs args) \<le> shimDeadlineMsFor (JFin MAX_APPROVAL_TIMEOUT_MS)"
proof -
  have "parseDeadline d = Inr n \<Longrightarrow> 0 < n \<and> n \<le> HOOK_SHIM_MAX_DEADLINE_MS" for d n
    by (auto simp: parseDeadline_def decimal_pos split: if_splits)
  then have "0 < sa_deadlineMs args \<and> sa_deadlineMs args \<le> HOOK_SHIM_MAX_DEADLINE_MS"
    using assms unfolding parseHookShimArgs_def check_args_def Let_def
    by (force split: sum.splits option.splits if_splits)
  then show ?thesis
    by (simp add: HOOK_SHIM_MAX_DEADLINE_MS_def shimDeadlineMsFor_def clampApprovalTimeoutMs_def MAX_APPROVAL_TIMEOUT_MS_def
        APPROVAL_SHIM_MARGIN_MS_def MIN_APPROVAL_TIMEOUT_MS_def)
qed

end
