(* ===== verification/Liveness.thy ===== *)
theory Liveness
  imports Approval_Reconciler
begin

text \<open>
  Whether a session is alive (\<^verbatim>\<open>src/apps/backend/src/liveness.ts\<close>): the last time of each
  signal, folded from the events (\<^verbatim>\<open>observeFromEvents\<close>) or computed by one query over the
  table of events (\<^verbatim>\<open>aggregateObservationSql\<close> of \<^verbatim>\<open>ingest-store.ts\<close>), and the
  verdict that is synthesised from them.

  Times are milliseconds. The query is modelled by its meaning over the rows of the table; how
  PostgreSQL orders texts and prints a time stamp, and the schema check of a row (zod), are
  arguments.
\<close>

section \<open>Signals\<close>

definition STDOUT_EVENT_TYPES :: "EventType list" where
  "STDOUT_EVENT_TYPES = [ET_command_output_delta, ET_tool_output_delta]"

definition FILE_EVENT_TYPES :: "EventType list" where
  "FILE_EVENT_TYPES =
    [ET_file_change_proposed, ET_file_change_approved, ET_file_change_applied, ET_diff_updated]"

definition MODEL_STREAM_EVENT_TYPES :: "EventType list" where
  "MODEL_STREAM_EVENT_TYPES = [ET_agent_message_delta, ET_agent_reasoning_summary_delta]"

definition PROCESS_ALIVE_PAYLOAD_KEY :: jstring where
  "PROCESS_ALIVE_PAYLOAD_KEY = js ''process_alive''"

record LivenessObservation =
  ob_process :: "(bool \<times> rat) option" \<comment> \<open>alive, at\<close>
  ob_event :: "rat option"
  ob_stdout :: "rat option"
  ob_file :: "rat option"
  ob_modelStream :: "rat option"

datatype LivenessState = Live | Idle | Stalled | Unknown

record SignalEvidence =
  sg_ageMs :: rat
  sg_fresh :: bool

record LivenessEvidence =
  le_process :: "(bool \<times> SignalEvidence) option"
  le_event :: "SignalEvidence option"
  le_stdout :: "SignalEvidence option"
  le_file :: "SignalEvidence option"
  le_modelStream :: "SignalEvidence option"

record LivenessResult =
  lv_state :: LivenessState
  lv_evidence :: LivenessEvidence
  lv_reason :: jstring
  lv_evaluatedAtMs :: rat
  lv_stalledSuspected :: bool

definition DEFAULT_STALE_MS :: rat where
  "DEFAULT_STALE_MS = 60000"

section \<open>The verdict\<close>

definition signal_evidence :: "rat \<Rightarrow> rat \<Rightarrow> rat \<Rightarrow> SignalEvidence" where
  "signal_evidence staleMs now atMs =
    (let ageMs = max 0 (now - atMs) in \<lparr>sg_ageMs = ageMs, sg_fresh = (ageMs \<le> staleMs)\<rparr>)"

definition mk_liveness :: "LivenessState \<Rightarrow> LivenessEvidence \<Rightarrow> jstring \<Rightarrow> rat \<Rightarrow> LivenessResult" where
  "mk_liveness state evidence reason evaluatedAtMs =
    \<lparr>lv_state = state, lv_evidence = evidence, lv_reason = reason, lv_evaluatedAtMs = evaluatedAtMs,
     lv_stalledSuspected = (state = Stalled)\<rparr>"

definition EM_DASH :: jstring where
  "EM_DASH = [8212]"

definition synthesizeLiveness :: "rat option \<Rightarrow> rat \<Rightarrow> LivenessObservation \<Rightarrow> LivenessResult" where
  "synthesizeLiveness staleOpt now obs =
    (let staleMs = (case staleOpt of Some s \<Rightarrow> s | None \<Rightarrow> DEFAULT_STALE_MS);
         process = map_option (\<lambda>(alive, atMs). (alive, signal_evidence staleMs now atMs)) (ob_process obs);
         ev = map_option (signal_evidence staleMs now) (ob_event obs);
         out = map_option (signal_evidence staleMs now) (ob_stdout obs);
         file = map_option (signal_evidence staleMs now) (ob_file obs);
         model = map_option (signal_evidence staleMs now) (ob_modelStream obs);
         evidence = \<lparr>le_process = process, le_event = ev, le_stdout = out, le_file = file, le_modelStream = model\<rparr>;
         freshFlags = (case process of Some (alive, e) \<Rightarrow> [alive \<and> sg_fresh e] | None \<Rightarrow> [])
           @ map sg_fresh (somes [ev, out, file, model]);
         anyObserved = (process \<noteq> None \<or> somes [ev, out, file, model] \<noteq> []);
         processDead = (case process of Some (alive, _) \<Rightarrow> \<not> alive | None \<Rightarrow> False)
     in if \<not> anyObserved then mk_liveness Unknown evidence (js ''no heartbeat signals observed'') now
        else if list_ex id freshFlags then
          mk_liveness Live evidence (js ''at least one fresh heartbeat '' @ EM_DASH @ js '' not stalled despite stale others'') now
        else if processDead then
          mk_liveness Stalled evidence (js ''process not alive and no fresh event/stdout/file/model-stream signal'') now
        else mk_liveness Idle evidence
          (js ''all observed signals stale but process not confirmed dead '' @ EM_DASH @ js '' not asserting stopped'') now)"

section \<open>Observing a list of events\<close>

definition max_time :: "rat option \<Rightarrow> rat \<Rightarrow> rat" where
  "max_time a b = (case a of None \<Rightarrow> b | Some x \<Rightarrow> max x b)"

text \<open>The life sign of a heart beat: a true JSON boolean.\<close>

fun bool_value :: "jsval \<Rightarrow> bool option" where
  "bool_value (JBool b) = Some b"
| "bool_value _ = None"

definition heartbeatAlive :: "NormalizedEvent \<Rightarrow> bool option" where
  "heartbeatAlive ev =
    (if ev_event_type ev = ET_heartbeat then bool_value (js_get (ev_payload ev) PROCESS_ALIVE_PAYLOAD_KEY)
     else None)"

definition countsAsActivity :: "NormalizedEvent \<Rightarrow> bool" where
  "countsAsActivity ev =
    (if ev_event_type ev = ET_heartbeat then heartbeatAlive ev \<noteq> Some False
     else if ev_event_type ev = ET_tool_permission_resolved
       then \<not> isSyntheticRetireOrigin (js_get (ev_payload ev) (js ''resolution_origin''))
     else True)"

record observe_acc =
  oa_event :: "rat option"
  oa_stdout :: "rat option"
  oa_file :: "rat option"
  oa_modelStream :: "rat option"
  oa_process :: "(bool \<times> rat) option"
  oa_processEventId :: "jstring option"

definition observe_step :: "NormalizedEvent \<Rightarrow> observe_acc \<Rightarrow> observe_acc" where
  "observe_step ev a =
    (case date_parse (ev_timestamp ev) of
       JFin t \<Rightarrow>
         (let a = (if countsAsActivity ev then a\<lparr>oa_event := Some (max_time (oa_event a) t)\<rparr> else a) in
          if ev_event_type ev \<in> set STDOUT_EVENT_TYPES then a\<lparr>oa_stdout := Some (max_time (oa_stdout a) t)\<rparr>
          else if ev_event_type ev \<in> set FILE_EVENT_TYPES then a\<lparr>oa_file := Some (max_time (oa_file a) t)\<rparr>
          else if ev_event_type ev \<in> set MODEL_STREAM_EVENT_TYPES
            then a\<lparr>oa_modelStream := Some (max_time (oa_modelStream a) t)\<rparr>
          else (case heartbeatAlive ev of
                  None \<Rightarrow> a
                | Some alive \<Rightarrow>
                    let wins = (case oa_process a of
                                  None \<Rightarrow> True
                                | Some (_, atMs) \<Rightarrow> t > atMs
                                    \<or> t = atMs \<and> ev_event_id ev > (case oa_processEventId a of Some i \<Rightarrow> i | None \<Rightarrow> []))
                    in if wins then a\<lparr>oa_process := Some (alive, t), oa_processEventId := Some (ev_event_id ev)\<rparr>
                       else a))
     | _ \<Rightarrow> a)"

definition observeFromEvents :: "NormalizedEvent list \<Rightarrow> LivenessObservation" where
  "observeFromEvents events =
    (let a = fold observe_step events
       \<lparr>oa_event = None, oa_stdout = None, oa_file = None, oa_modelStream = None,
        oa_process = None, oa_processEventId = None\<rparr>
     in \<lparr>ob_process = oa_process a, ob_event = oa_event a, ob_stdout = oa_stdout a,
         ob_file = oa_file a, ob_modelStream = oa_modelStream a\<rparr>)"

section \<open>Observing the table of events\<close>

text \<open>
  The columns the query and the check of its heart beat read. The time stamp is the instant of the
  column, in milliseconds: the insertion rounds every time to milliseconds.
\<close>

record EventRow =
  ro_event_id :: jstring
  ro_provider :: jstring
  ro_source :: Source
  ro_session_id :: jstring
  ro_thread_id :: "jstring option"
  ro_turn_id :: "jstring option"
  ro_agent_id :: "jstring option"
  ro_event_type :: jstring
  ro_state :: "jstring option"
  ro_timestamp :: rat
  ro_cwd :: "jstring option"
  ro_summary :: "jstring option"
  ro_payload :: jsval
  ro_metrics :: jsval

fun source_str :: "Source \<Rightarrow> string" where
  "source_str Src_hooks = ''hooks''"
| "source_str Src_app_server = ''app_server''"
| "source_str Src_rollout = ''rollout''"
| "source_str Src_sdk = ''sdk''"
| "source_str Src_external = ''external''"

text \<open>The row of an event, or none when its time is not a time (\<^verbatim>\<open>toISOString\<close> raises).\<close>

definition event_row :: "NormalizedEvent \<Rightarrow> EventRow option" where
  "event_row ev =
    (case toEpochMs (ev_timestamp ev) of
       JFin t \<Rightarrow> Some
         \<lparr>ro_event_id = ev_event_id ev, ro_provider = ev_provider ev,
          ro_source = ev_source ev, ro_session_id = ev_session_id ev,
          ro_thread_id = ev_thread_id ev, ro_turn_id = ev_turn_id ev, ro_agent_id = ev_agent_id ev,
          ro_event_type = js (event_type_str (ev_event_type ev)), ro_state = ev_state_value ev,
          ro_timestamp = t, ro_cwd = ev_cwd ev, ro_summary = ev_summary ev,
          ro_payload = ev_payload ev, ro_metrics = ev_metrics ev\<rparr>
     | _ \<Rightarrow> None)"

text \<open>\<^verbatim>\<open>INSERT ... ON CONFLICT (event_id) DO NOTHING\<close>.\<close>

definition insert_event :: "NormalizedEvent \<Rightarrow> EventRow list \<Rightarrow> EventRow list" where
  "insert_event ev table =
    (case event_row ev of
       None \<Rightarrow> table
     | Some row \<Rightarrow> if ev_event_id ev \<in> set (map ro_event_id table) then table else table @ [row])"

definition ALL_EVENT_TYPE_STRS :: "jstring list" where
  "ALL_EVENT_TYPE_STRS = map (\<lambda>t. js (event_type_str t)) ALL_EVENT_TYPES"

definition ALL_STATE_STRS :: "jstring list" where
  "ALL_STATE_STRS = map (\<lambda>s. js (state_str s)) ALL_STATES"

text \<open>The four parts of the query: \<^verbatim>\<open>valid\<close>, the conditional maxima of \<^verbatim>\<open>agg\<close>, \<^verbatim>\<open>hb\<close>.\<close>

definition valid_rows :: "jstring \<Rightarrow> EventRow list \<Rightarrow> EventRow list" where
  "valid_rows sessionId table =
    filter (\<lambda>r. ro_session_id r = sessionId \<and> ro_event_type r \<in> set ALL_EVENT_TYPE_STRS
       \<and> (case ro_state r of None \<Rightarrow> True | Some s \<Rightarrow> s \<in> set ALL_STATE_STRS)) table"

definition max_where :: "(EventRow \<Rightarrow> bool) \<Rightarrow> EventRow list \<Rightarrow> rat option" where
  "max_where P rows =
    (case filter P rows of [] \<Rightarrow> None | r # rs \<Rightarrow> Some (fold max (map ro_timestamp rs) (ro_timestamp r)))"

definition activity_row :: "EventRow \<Rightarrow> bool" where
  "activity_row r \<longleftrightarrow>
     \<not> (ro_event_type r = js ''heartbeat'' \<and> js_get (ro_payload r) (js ''process_alive'') = JBool False)
   \<and> \<not> (ro_event_type r = js ''tool.permission.resolved''
        \<and> js_get (ro_payload r) (js ''resolution_origin'') = JStr (js ''relay_lost''))"

definition typed_heartbeat :: "EventRow \<Rightarrow> bool" where
  "typed_heartbeat r \<longleftrightarrow> ro_event_type r = js ''heartbeat''
     \<and> (js_get (ro_payload r) (js ''process_alive'') = JBool True
        \<or> js_get (ro_payload r) (js ''process_alive'') = JBool False)"

text \<open>\<^verbatim>\<open>ORDER BY timestamp DESC, event_id DESC LIMIT 1\<close>; event identifiers are unique.\<close>

definition later_row :: "(jstring \<Rightarrow> jstring \<Rightarrow> bool) \<Rightarrow> EventRow \<Rightarrow> EventRow \<Rightarrow> EventRow" where
  "later_row text_less r best =
    (if ro_timestamp r > ro_timestamp best
        \<or> ro_timestamp r = ro_timestamp best \<and> text_less (ro_event_id best) (ro_event_id r)
     then r else best)"

definition latest_heartbeat :: "(jstring \<Rightarrow> jstring \<Rightarrow> bool) \<Rightarrow> EventRow list \<Rightarrow> EventRow option" where
  "latest_heartbeat text_less rows =
    (case filter typed_heartbeat rows of [] \<Rightarrow> None | r # rs \<Rightarrow> Some (fold (later_row text_less) rs r))"

definition opt_text :: "string \<Rightarrow> jstring option \<Rightarrow> (jstring \<times> jsval) list" where
  "opt_text k v = (case v of Some s \<Rightarrow> [(js k, JStr s)] | None \<Rightarrow> [])"

definition restoreRowAsEvent ::
    "(rat \<Rightarrow> jstring) \<Rightarrow> (jsval \<Rightarrow> jsval option) \<Rightarrow> EventRow \<Rightarrow> jsval option" where
  "restoreRowAsEvent pg_text safeParseEvent r =
    (let isoTs = pg_text (ro_timestamp r) in
     if \<not> is_finite_num (date_parse isoTs) then None
     else safeParseEvent (JObj
       ([(js ''event_id'', JStr (ro_event_id r)), (js ''provider'', JStr (ro_provider r)),
         (js ''source'', JStr (js (source_str (ro_source r)))), (js ''session_id'', JStr (ro_session_id r)),
         (js ''event_type'', JStr (ro_event_type r)), (js ''timestamp'', JStr isoTs),
         (js ''payload'', if ro_payload r = JNull then JObj [] else ro_payload r),
         (js ''metrics'', if ro_metrics r = JNull then JObj [] else ro_metrics r)]
        @ opt_text ''thread_id'' (ro_thread_id r) @ opt_text ''turn_id'' (ro_turn_id r)
        @ opt_text ''agent_id'' (ro_agent_id r) @ opt_text ''state'' (ro_state r)
        @ opt_text ''cwd'' (ro_cwd r) @ opt_text ''summary'' (ro_summary r))))"

definition extractMs :: "jstring \<Rightarrow> rat option" where
  "extractMs ts = (case date_parse ts of JFin t \<Rightarrow> Some t | _ \<Rightarrow> None)"

definition in_types :: "EventType list \<Rightarrow> EventRow \<Rightarrow> bool" where
  "in_types ts r \<longleftrightarrow> ro_event_type r \<in> set (map (\<lambda>t. js (event_type_str t)) ts)"

definition aggregateObservationSql ::
    "(jstring \<Rightarrow> jstring \<Rightarrow> bool) \<Rightarrow> (rat \<Rightarrow> jstring) \<Rightarrow> (jsval \<Rightarrow> jsval option) \<Rightarrow> EventRow list \<Rightarrow> jstring
      \<Rightarrow> LivenessObservation" where
  "aggregateObservationSql text_less pg_text safeParseEvent table sessionId =
    (let rows = valid_rows sessionId table in
     \<lparr>ob_process =
        (case latest_heartbeat text_less rows of
           None \<Rightarrow> None
         | Some hb \<Rightarrow>
             (case restoreRowAsEvent pg_text safeParseEvent hb of
                None \<Rightarrow> None
              | Some hbEvent \<Rightarrow>
                  (case (bool_value (js_get (js_get hbEvent (js ''payload'')) PROCESS_ALIVE_PAYLOAD_KEY),
                         extractMs (pg_text (ro_timestamp hb))) of
                     (Some alive, Some atMs) \<Rightarrow> Some (alive, atMs)
                   | _ \<Rightarrow> None))),
      ob_event = max_where activity_row rows,
      ob_stdout = max_where (in_types STDOUT_EVENT_TYPES) rows,
      ob_file = max_where (in_types FILE_EVENT_TYPES) rows,
      ob_modelStream = max_where (in_types MODEL_STREAM_EVENT_TYPES) rows\<rparr>)"

definition computeLivenessAggregated ::
    "(jstring \<Rightarrow> jstring \<Rightarrow> bool) \<Rightarrow> (rat \<Rightarrow> jstring) \<Rightarrow> (jsval \<Rightarrow> jsval option) \<Rightarrow> rat option \<Rightarrow> rat
      \<Rightarrow> EventRow list \<Rightarrow> jstring \<Rightarrow> LivenessResult" where
  "computeLivenessAggregated text_less pg_text safeParseEvent staleOpt now table sessionId =
    synthesizeLiveness staleOpt now (aggregateObservationSql text_less pg_text safeParseEvent table sessionId)"

section \<open>What is observed of a set of events\<close>

text \<open>The times of the events that satisfy a condition, and the last beat with a life sign.\<close>

definition time_of :: "NormalizedEvent \<Rightarrow> rat option" where
  "time_of e = extractMs (ev_timestamp e)"

definition times_where :: "(NormalizedEvent \<Rightarrow> bool) \<Rightarrow> NormalizedEvent set \<Rightarrow> rat set" where
  "times_where P S = {t. \<exists>e\<in>S. P e \<and> time_of e = Some t}"

definition is_beat :: "NormalizedEvent \<Rightarrow> bool" where
  "is_beat e \<longleftrightarrow> heartbeatAlive e \<noteq> None \<and> time_of e \<noteq> None"

definition not_after :: "NormalizedEvent \<Rightarrow> NormalizedEvent \<Rightarrow> bool" where
  "not_after d e \<longleftrightarrow> the (time_of d) < the (time_of e)
     \<or> the (time_of d) = the (time_of e) \<and> ev_event_id d \<le> ev_event_id e"

definition last_beat :: "NormalizedEvent set \<Rightarrow> NormalizedEvent \<Rightarrow> bool" where
  "last_beat S e \<longleftrightarrow> e \<in> S \<and> is_beat e \<and> (\<forall>d\<in>S. is_beat d \<longrightarrow> not_after d e)"

definition beat_of :: "NormalizedEvent \<Rightarrow> bool \<times> rat" where
  "beat_of e = (the (heartbeatAlive e), the (time_of e))"

definition last_life_sign :: "NormalizedEvent set \<Rightarrow> (bool \<times> rat) option \<Rightarrow> bool" where
  "last_life_sign S p \<longleftrightarrow>
     (case p of None \<Rightarrow> \<forall>e\<in>S. \<not> is_beat e | Some b \<Rightarrow> \<exists>e. last_beat S e \<and> beat_of e = b)"

definition ids_identify :: "NormalizedEvent set \<Rightarrow> bool" where
  "ids_identify S \<longleftrightarrow> inj_on ev_event_id S"

lemma last_life_sign_unique:
  assumes "ids_identify S" "last_life_sign S p" "last_life_sign S q"
  shows "p = q"
proof -
  have u: "d = e" if "last_beat S d" "last_beat S e" for d e
  proof -
    have "ev_event_id d = ev_event_id e"
      using that by (force simp: last_beat_def not_after_def)
    with that assms(1) show ?thesis
      by (auto simp: last_beat_def ids_identify_def inj_on_def)
  qed
  have b: "last_beat S d \<Longrightarrow> d \<in> S \<and> is_beat d" for d
    by (simp add: last_beat_def)
  show ?thesis
    using assms(2,3) b
    by (cases p; cases q) (auto simp: last_life_sign_def dest: u)
qed

lemma finite_times_where [simp]: "finite S \<Longrightarrow> finite (times_where P S)"
  by (rule finite_subset [of _ "(\<lambda>e. the (time_of e)) ` S"]) (force simp: times_where_def)+

lemma times_where_insert:
  "times_where P (insert e S) =
     (if P e \<and> time_of e \<noteq> None then insert (the (time_of e)) (times_where P S) else times_where P S)"
  by (auto simp: times_where_def)

lemma times_where_empty [simp]: "times_where P {} = {}"
  by (simp add: times_where_def)

lemma max_time_insert:
  "finite T \<Longrightarrow> Some (max_time (max_opt T) t) = max_opt (insert t T)"
  by (simp add: max_time_def max_opt_insert max.commute split: option.split)

definition of_types :: "EventType list \<Rightarrow> NormalizedEvent \<Rightarrow> bool" where
  "of_types ts e \<longleftrightarrow> ev_event_type e \<in> set ts"

text \<open>The state of the fold after the events of a set.\<close>

definition folded :: "NormalizedEvent set \<Rightarrow> observe_acc \<Rightarrow> bool" where
  "folded S a \<longleftrightarrow>
     oa_event a = max_opt (times_where countsAsActivity S)
   \<and> oa_stdout a = max_opt (times_where (of_types STDOUT_EVENT_TYPES) S)
   \<and> oa_file a = max_opt (times_where (of_types FILE_EVENT_TYPES) S)
   \<and> oa_modelStream a = max_opt (times_where (of_types MODEL_STREAM_EVENT_TYPES) S)
   \<and> (case oa_process a of
        None \<Rightarrow> \<forall>e\<in>S. \<not> is_beat e
      | Some b \<Rightarrow> \<exists>e. last_beat S e \<and> beat_of e = b \<and> oa_processEventId a = Some (ev_event_id e))"

lemma last_beat_insert_other: "\<not> is_beat e \<Longrightarrow> last_beat (insert e S) d \<longleftrightarrow> last_beat S d"
  by (auto simp: last_beat_def)

lemma last_beat_insert_new:
  assumes "last_beat S d" "is_beat e" "\<not> not_after e d"
  shows "last_beat (insert e S) e"
proof -
  have "not_after c e" if "not_after c d" for c
    using that assms(3) by (auto simp: not_after_def)
  moreover have "not_after e e" by (simp add: not_after_def)
  ultimately show ?thesis
    using assms by (auto simp: last_beat_def)
qed

lemma last_beat_insert_old:
  "last_beat S d \<Longrightarrow> not_after e d \<Longrightarrow> last_beat (insert e S) d"
  by (auto simp: last_beat_def)

lemma signal_types_disjoint:
  "et \<in> set STDOUT_EVENT_TYPES \<Longrightarrow> et \<notin> set FILE_EVENT_TYPES \<and> et \<notin> set MODEL_STREAM_EVENT_TYPES \<and> et \<noteq> ET_heartbeat"
  "et \<in> set FILE_EVENT_TYPES \<Longrightarrow> et \<notin> set MODEL_STREAM_EVENT_TYPES \<and> et \<noteq> ET_heartbeat"
  "et \<in> set MODEL_STREAM_EVENT_TYPES \<Longrightarrow> et \<noteq> ET_heartbeat"
  by (auto simp: STDOUT_EVENT_TYPES_def FILE_EVENT_TYPES_def MODEL_STREAM_EVENT_TYPES_def)

lemma beat_is_heartbeat: "is_beat e \<Longrightarrow> ev_event_type e = ET_heartbeat"
  by (auto simp: is_beat_def heartbeatAlive_def split: if_splits)

lemma signal_no_beat:
  "ev_event_type e \<in> set STDOUT_EVENT_TYPES \<union> set FILE_EVENT_TYPES \<union> set MODEL_STREAM_EVENT_TYPES \<Longrightarrow> \<not> is_beat e"
  using beat_is_heartbeat signal_types_disjoint by blast

text \<open>The part of a step that concerns the life signs.\<close>

definition process_step :: "NormalizedEvent \<Rightarrow> observe_acc \<Rightarrow> (bool \<times> rat) option \<times> jstring option" where
  "process_step e a =
    (if is_beat e \<and> (case oa_process a of None \<Rightarrow> True
        | Some (_, atMs) \<Rightarrow> the (time_of e) > atMs \<or> the (time_of e) = atMs
            \<and> ev_event_id e > (case oa_processEventId a of Some i \<Rightarrow> i | None \<Rightarrow> []))
     then (Some (beat_of e), Some (ev_event_id e)) else (oa_process a, oa_processEventId a))"

definition time_step :: "bool \<Rightarrow> NormalizedEvent \<Rightarrow> rat option \<Rightarrow> rat option" where
  "time_step c e old = (if c \<and> time_of e \<noteq> None then Some (max_time old (the (time_of e))) else old)"

lemma observe_step_parts:
  "oa_event (observe_step e a) = time_step (countsAsActivity e) e (oa_event a)
   \<and> oa_stdout (observe_step e a) = time_step (of_types STDOUT_EVENT_TYPES e) e (oa_stdout a)
   \<and> oa_file (observe_step e a) = time_step (of_types FILE_EVENT_TYPES e) e (oa_file a)
   \<and> oa_modelStream (observe_step e a) = time_step (of_types MODEL_STREAM_EVENT_TYPES e) e (oa_modelStream a)
   \<and> (oa_process (observe_step e a), oa_processEventId (observe_step e a)) = process_step e a"
proof (cases "date_parse (ev_timestamp e)")
  case (JFin t)
  then have t: "time_of e = Some t" by (simp add: time_of_def extractMs_def)
  show ?thesis
    using signal_types_disjoint [of "ev_event_type e"] JFin
    by (cases "oa_process a"; cases "heartbeatAlive e")
      (auto simp: observe_step_def time_step_def process_step_def t is_beat_def beat_of_def Let_def
        heartbeatAlive_def of_types_def split: if_splits)
qed (simp_all add: observe_step_def time_step_def process_step_def time_of_def extractMs_def is_beat_def)

lemma time_step_max:
  "finite S \<Longrightarrow> time_step (P e) e (max_opt (times_where P S)) = max_opt (times_where P (insert e S))"
  by (cases "time_of e") (simp_all add: time_step_def times_where_insert max_time_insert)

lemma folded_step:
  assumes "finite S" "folded S a"
  shows "folded (insert e S) (observe_step e a)"
proof -
  have proc: "case fst (process_step e a) of
        None \<Rightarrow> \<forall>d\<in>insert e S. \<not> is_beat d
      | Some b \<Rightarrow> \<exists>d. last_beat (insert e S) d \<and> beat_of d = b \<and> snd (process_step e a) = Some (ev_event_id d)"
  proof (cases "oa_process a")
    case None
    with assms(2) have "\<forall>d\<in>S. \<not> is_beat d" by (simp add: folded_def)
    then show ?thesis
      by (auto simp: process_step_def None last_beat_def not_after_def)
  next
    case (Some b)
    with assms(2) obtain d where d: "last_beat S d" "beat_of d = b" "oa_processEventId a = Some (ev_event_id d)"
      by (auto simp: folded_def)
    show ?thesis
    proof (cases "is_beat e")
      case False
      with d Some show ?thesis
        by (auto simp: process_step_def last_beat_insert_other)
    next
      case True
      show ?thesis
      proof (cases "not_after e d")
        case True
        with last_beat_insert_old [OF d(1)] d Some show ?thesis
          by (auto simp: process_step_def not_after_def beat_of_def)
      next
        case False
        with last_beat_insert_new [OF d(1) True False] d Some True show ?thesis
          by (auto simp: process_step_def not_after_def beat_of_def)
      qed
    qed
  qed
  from observe_step_parts [of e a] have p: "oa_process (observe_step e a) = fst (process_step e a)"
    "oa_processEventId (observe_step e a) = snd (process_step e a)"
    by (metis fst_conv snd_conv)+
  show ?thesis
    using assms proc [folded p] observe_step_parts [of e a]
    by (simp add: folded_def time_step_max)
qed

lemma observe_spec:
  "folded (set evs) (fold observe_step evs
     \<lparr>oa_event = None, oa_stdout = None, oa_file = None, oa_modelStream = None,
      oa_process = None, oa_processEventId = None\<rparr>)"
proof (induction evs rule: rev_induct)
  case Nil
  then show ?case by (simp add: folded_def max_opt_def)
next
  case (snoc e evs)
  then show ?case by (simp add: folded_step)
qed

text \<open>What a set of events determines.\<close>

definition observed :: "NormalizedEvent set \<Rightarrow> LivenessObservation \<Rightarrow> bool" where
  "observed S ob \<longleftrightarrow>
     ob_event ob = max_opt (times_where countsAsActivity S)
   \<and> ob_stdout ob = max_opt (times_where (of_types STDOUT_EVENT_TYPES) S)
   \<and> ob_file ob = max_opt (times_where (of_types FILE_EVENT_TYPES) S)
   \<and> ob_modelStream ob = max_opt (times_where (of_types MODEL_STREAM_EVENT_TYPES) S)
   \<and> last_life_sign S (ob_process ob)"

lemma observeFromEvents_observed: "observed (set evs) (observeFromEvents evs)"
  using observe_spec [of evs]
  by (auto simp: observed_def folded_def observeFromEvents_def last_life_sign_def Let_def split: option.splits)

lemma observed_unique: "ids_identify S \<Longrightarrow> observed S p \<Longrightarrow> observed S q \<Longrightarrow> p = q"
  by (rule LivenessObservation.equality) (auto simp: observed_def dest: last_life_sign_unique)

section \<open>The query computes the same\<close>

lemma max_where_max_opt: "max_where P rows = max_opt (ro_timestamp ` {r \<in> set rows. P r})"
proof (cases "filter P rows")
  case Nil
  then have "{r \<in> set rows. P r} = {}" by (metis set_empty2 set_filter)
  then show ?thesis by (simp add: max_where_def max_opt_def Nil)
next
  case (Cons r rs)
  then have "{r \<in> set rows. P r} = set (r # rs)" by (metis set_filter)
  then show ?thesis
    using Max.set_eq_fold [of "ro_timestamp r" "map ro_timestamp rs"]
    by (simp add: max_where_def max_opt_def Cons)
qed

definition row_not_after :: "EventRow \<Rightarrow> EventRow \<Rightarrow> bool" where
  "row_not_after x b \<longleftrightarrow> ro_timestamp x < ro_timestamp b
     \<or> ro_timestamp x = ro_timestamp b \<and> ro_event_id x \<le> ro_event_id b"

lemma fold_later_row:
  assumes "\<And>x y. x \<in> set (r # rs) \<Longrightarrow> y \<in> set (r # rs) \<Longrightarrow>
    text_less (ro_event_id x) (ro_event_id y) \<longleftrightarrow> ro_event_id x < ro_event_id y"
  shows "fold (later_row text_less) rs r \<in> set (r # rs)
       \<and> (\<forall>x\<in>set (r # rs). row_not_after x (fold (later_row text_less) rs r))"
  using assms
proof (induction rs arbitrary: r)
  case Nil
  then show ?case by (simp add: row_not_after_def)
next
  case (Cons x rs)
  define b where "b = later_row text_less x r"
  have b: "b = x \<or> b = r" "row_not_after x b" "row_not_after r b"
    using Cons.prems [of r x] by (auto simp: b_def later_row_def row_not_after_def not_less)
  have ih: "fold (later_row text_less) rs b \<in> set (b # rs)
       \<and> (\<forall>x\<in>set (b # rs). row_not_after x (fold (later_row text_less) rs b))"
    using b(1) by (intro Cons.IH Cons.prems) auto
  have tr: "row_not_after u w" if "row_not_after u v" "row_not_after v w" for u v w
    using that by (auto simp: row_not_after_def)
  from ih b tr show ?case
    by (auto simp: b_def [symmetric])
qed

text \<open>The rows of the events of a set.\<close>

definition rows_of :: "NormalizedEvent set \<Rightarrow> EventRow set" where
  "rows_of S = {r. \<exists>e\<in>S. event_row e = Some r}"

lemma event_row_cols:
  assumes "event_row e = Some r"
  shows "ro_event_id r = ev_event_id e" "ro_session_id r = ev_session_id e"
    "ro_event_type r = js (event_type_str (ev_event_type e))" "ro_state r = ev_state_value e"
    "ro_payload r = ev_payload e" "time_of e = Some (ro_timestamp r)"
  using assms by (auto simp: event_row_def time_of_def extractMs_def toEpochMs_def split: jsnum.splits)

lemma event_row_time: "event_row e = None \<longleftrightarrow> time_of e = None"
  by (auto simp: event_row_def time_of_def extractMs_def toEpochMs_def split: jsnum.splits)

lemma insert_rows:
  assumes "ids_identify (set evs)"
  shows "set (fold insert_event evs []) = rows_of (set evs)"
  using assms
proof (induction evs rule: rev_induct)
  case Nil
  then show ?case by (simp add: rows_of_def)
next
  case (snoc e evs)
  have sub: "ids_identify (set evs)"
    using snoc.prems by (simp add: ids_identify_def inj_on_def)
  have old: "event_row e = Some r \<Longrightarrow> ev_event_id e \<in> ro_event_id ` rows_of (set evs) \<Longrightarrow> e \<in> set evs" for r
    using snoc.prems by (force simp: rows_of_def ids_identify_def inj_on_def dest: event_row_cols(1))
  have ins: "rows_of (set (evs @ [e])) = (case event_row e of None \<Rightarrow> rows_of (set evs) | Some r \<Rightarrow> insert r (rows_of (set evs)))"
    by (auto simp: rows_of_def split: option.splits)
  have mem: "e \<in> set evs \<Longrightarrow> event_row e = Some r \<Longrightarrow> r \<in> rows_of (set evs)" for r
    by (auto simp: rows_of_def)
  show ?case
    using snoc.IH [OF sub] old mem unfolding ins
    by (auto simp: insert_event_def split: option.splits)
qed

lemma valid_rows_set:
  assumes "set table = rows_of S"
  shows "set (valid_rows sid table) = rows_of {e \<in> S. ev_session_id e = sid}"
proof -
  have ok: "ro_event_type r \<in> set ALL_EVENT_TYPE_STRS \<and> (case ro_state r of None \<Rightarrow> True | Some s \<Rightarrow> s \<in> set ALL_STATE_STRS)"
    if "event_row e = Some r" for e r
    using event_row_cols [OF that] ALL_EVENT_TYPES_complete ALL_STATES_complete
    by (auto simp: ALL_EVENT_TYPE_STRS_def ALL_STATE_STRS_def ev_state_value_def split: option.splits)
  show ?thesis
    using ok event_row_cols(2) by (force simp: valid_rows_def assms rows_of_def)
qed

lemma row_conditions:
  assumes "event_row e = Some r"
  shows "activity_row r \<longleftrightarrow> countsAsActivity e" "typed_heartbeat r \<longleftrightarrow> is_beat e"
    "in_types ts r \<longleftrightarrow> of_types ts e"
proof -
  note c = event_row_cols [OF assms]
  have h: "js ''heartbeat'' = js (event_type_str ET_heartbeat)"
    "js ''tool.permission.resolved'' = js (event_type_str ET_tool_permission_resolved)"
    by simp_all
  have b: "bool_value v = Some x \<longleftrightarrow> v = JBool x" for v x by (cases v) auto
  show "activity_row r \<longleftrightarrow> countsAsActivity e"
    unfolding activity_row_def c h js_eq_iff event_type_str_inj
    by (auto simp: countsAsActivity_def heartbeatAlive_def b PROCESS_ALIVE_PAYLOAD_KEY_def
        isSyntheticRetireOrigin_def SYNTHETIC_RETIRE_ORIGIN_def)
  show "typed_heartbeat r \<longleftrightarrow> is_beat e"
    unfolding typed_heartbeat_def c h js_eq_iff event_type_str_inj
    by (auto simp: is_beat_def heartbeatAlive_def b PROCESS_ALIVE_PAYLOAD_KEY_def c)
  show "in_types ts r \<longleftrightarrow> of_types ts e"
    by (auto simp: in_types_def of_types_def c event_type_str_inj)
qed

lemma max_where_rows:
  assumes "set rows = rows_of S" "\<And>e r. event_row e = Some r \<Longrightarrow> P r \<longleftrightarrow> Q e"
  shows "max_where P rows = max_opt (times_where Q S)"
proof -
  have "ro_timestamp ` {r \<in> set rows. P r} = times_where Q S"
  proof (intro set_eqI iffI)
    fix t assume "t \<in> ro_timestamp ` {r \<in> set rows. P r}"
    then show "t \<in> times_where Q S"
      using assms by (auto simp: rows_of_def times_where_def dest: event_row_cols(6))
  next
    fix t assume "t \<in> times_where Q S"
    then obtain e where e: "e \<in> S" "Q e" "time_of e = Some t" by (auto simp: times_where_def)
    then obtain r where r: "event_row e = Some r" using event_row_time [of e] by auto
    with e assms have "r \<in> {r \<in> set rows. P r}" by (auto simp: rows_of_def)
    with event_row_cols(6) [OF r] e(3) show "t \<in> ro_timestamp ` {r \<in> set rows. P r}" by force
  qed
  then show ?thesis by (simp add: max_where_max_opt)
qed

lemma rows_of_beats:
  assumes "set rows = rows_of S" "r \<in> set (filter typed_heartbeat rows)"
  shows "\<exists>e\<in>S. event_row e = Some r \<and> is_beat e"
  using assms row_conditions(2) by (auto simp: rows_of_def)

lemma latest_heartbeat_last:
  assumes rows: "set rows = rows_of S"
    and less: "\<And>d e. d \<in> S \<Longrightarrow> e \<in> S \<Longrightarrow> text_less (ev_event_id d) (ev_event_id e) \<longleftrightarrow> ev_event_id d < ev_event_id e"
  shows "case latest_heartbeat text_less rows of
      None \<Rightarrow> \<forall>e\<in>S. \<not> is_beat e
    | Some r \<Rightarrow> \<exists>e\<in>S. event_row e = Some r \<and> last_beat S e"
proof -
  have all: "\<exists>r. event_row e = Some r \<and> r \<in> set (filter typed_heartbeat rows)" if be: "e \<in> S" "is_beat e" for e
  proof -
    obtain r where "event_row e = Some r"
      using be event_row_time [of e] by (cases "event_row e") (auto simp: is_beat_def)
    with be show ?thesis by (auto simp: rows rows_of_def row_conditions(2))
  qed
  show ?thesis
  proof (cases "filter typed_heartbeat rows")
    case Nil
    with all show ?thesis by (force simp: latest_heartbeat_def)
  next
    case (Cons r rs)
    have in_S: "\<exists>e\<in>S. event_row e = Some x \<and> is_beat e" if "x \<in> set (r # rs)" for x
      using rows_of_beats [OF rows, of x] that by (simp add: Cons)
    have l: "text_less (ro_event_id x) (ro_event_id y) \<longleftrightarrow> ro_event_id x < ro_event_id y"
      if "x \<in> set (r # rs)" "y \<in> set (r # rs)" for x y
      using in_S [OF that(1)] in_S [OF that(2)] less event_row_cols(1) by metis
    let ?b = "fold (later_row text_less) rs r"
    have b: "?b \<in> set (r # rs)" "\<forall>x\<in>set (r # rs). row_not_after x ?b"
      using fold_later_row [of r rs text_less] l by auto
    obtain e where e: "e \<in> S" "event_row e = Some ?b" "is_beat e" using in_S [OF b(1)] by auto
    have "not_after d e" if bd: "d \<in> S" "is_beat d" for d
    proof -
      obtain x where x: "event_row d = Some x" "x \<in> set (r # rs)" using all [OF bd] by (auto simp: Cons)
      then have "row_not_after x ?b" using b(2) by blast
      then show ?thesis
        by (simp add: not_after_def row_not_after_def event_row_cols [OF x(1)] event_row_cols [OF e(2)])
    qed
    with e show ?thesis by (auto simp: latest_heartbeat_def Cons last_beat_def)
  qed
qed

lemma aggregate_observed:
  assumes rows: "set table = rows_of S"
    and less: "\<And>d e. d \<in> S \<Longrightarrow> e \<in> S \<Longrightarrow> text_less (ev_event_id d) (ev_event_id e) \<longleftrightarrow> ev_event_id d < ev_event_id e"
    and prints: "\<And>e t. e \<in> S \<Longrightarrow> time_of e = Some t \<Longrightarrow> date_parse (pg_text t) = JFin t"
    and parse: "\<And>e r. e \<in> S \<Longrightarrow> event_row e = Some r \<Longrightarrow>
      \<exists>v. restoreRowAsEvent pg_text safeParseEvent r = Some v \<and> js_get v (js ''payload'') = ev_payload e"
  shows "observed {e \<in> S. ev_session_id e = sid} (aggregateObservationSql text_less pg_text safeParseEvent table sid)"
proof -
  let ?S = "{e \<in> S. ev_session_id e = sid}"
  note v = valid_rows_set [OF rows, of sid]
  have proc: "last_life_sign ?S (ob_process (aggregateObservationSql text_less pg_text safeParseEvent table sid))"
  proof (cases "latest_heartbeat text_less (valid_rows sid table)")
    case None
    then show ?thesis
      using latest_heartbeat_last [OF v, of text_less] less
      by (simp add: aggregateObservationSql_def last_life_sign_def Let_def)
  next
    case (Some r)
    then obtain e where e: "e \<in> S" "ev_session_id e = sid" "event_row e = Some r" "last_beat ?S e"
      using latest_heartbeat_last [OF v, of text_less] less by auto
    obtain w where w: "restoreRowAsEvent pg_text safeParseEvent r = Some w" "js_get w (js ''payload'') = ev_payload e"
      using parse [OF e(1,3)] by auto
    have "is_beat e" using e(4) by (simp add: last_beat_def)
    then obtain a where a: "heartbeatAlive e = Some a" "bool_value (js_get (ev_payload e) PROCESS_ALIVE_PAYLOAD_KEY) = Some a"
      by (auto simp: is_beat_def heartbeatAlive_def split: if_splits)
    have t: "extractMs (pg_text (ro_timestamp r)) = Some (ro_timestamp r)" "time_of e = Some (ro_timestamp r)"
      using prints [OF e(1)] event_row_cols(6) [OF e(3)] by (auto simp: extractMs_def)
    show ?thesis
      using e(4) by (auto simp: aggregateObservationSql_def last_life_sign_def Let_def Some w a t beat_of_def)
  qed
  show ?thesis
    using proc
    by (auto simp: observed_def aggregateObservationSql_def Let_def max_where_rows [OF v row_conditions(1)]
        max_where_rows [OF v row_conditions(3)])
qed

section \<open>Properties\<close>

text \<open>
  C26. The two ways to observe a session agree. Let events be inserted into the table in the order of
  \<open>evs\<close>, some of them more than once (two with the same identifier are the same event), and let
  \<open>evs'\<close> hold the same events in any other order and number. If the database orders the identifiers
  of events as their code units do, prints a time stamp as a text that denotes the same time, and a
  stored row passes the schema check with its payload, then what the query computes for a session is
  what the fold over its events computes: the last time of every signal, and time and life sign of the
  last heart beat, ties included.
\<close>

theorem liveness_parity:
  assumes "inj_on ev_event_id (set evs)" and "set evs' = set evs"
    and "\<And>d e. d \<in> set evs \<Longrightarrow> e \<in> set evs \<Longrightarrow>
      text_less (ev_event_id d) (ev_event_id e) \<longleftrightarrow> ev_event_id d < ev_event_id e"
    and "\<And>e t. e \<in> set evs \<Longrightarrow> date_parse (ev_timestamp e) = JFin t \<Longrightarrow> date_parse (pg_text t) = JFin t"
    and "\<And>e r. e \<in> set evs \<Longrightarrow> event_row e = Some r \<Longrightarrow>
      \<exists>v. restoreRowAsEvent pg_text safeParseEvent r = Some v \<and> js_get v (js ''payload'') = ev_payload e"
  shows "aggregateObservationSql text_less pg_text safeParseEvent (fold insert_event evs []) sid
       = observeFromEvents (filter (\<lambda>e. ev_session_id e = sid) evs')"
proof (rule observed_unique)
  show "ids_identify {e \<in> set evs. ev_session_id e = sid}"
    using assms(1) by (auto simp: ids_identify_def inj_on_def)
  have t: "date_parse (ev_timestamp e) = JFin t" if "time_of e = Some t" for e t
    using that by (auto simp: time_of_def extractMs_def split: jsnum.splits)
  show "observed {e \<in> set evs. ev_session_id e = sid}
      (aggregateObservationSql text_less pg_text safeParseEvent (fold insert_event evs []) sid)"
    using assms t by (intro aggregate_observed insert_rows) (auto simp: ids_identify_def)
  show "observed {e \<in> set evs. ev_session_id e = sid} (observeFromEvents (filter (\<lambda>e. ev_session_id e = sid) evs'))"
    using observeFromEvents_observed [of "filter (\<lambda>e. ev_session_id e = sid) evs'"] by (simp add: assms(2))
qed

text \<open>Two beats at the same instant, a synthetic cancel later, one event delivered twice.\<close>

definition example_beats :: "NormalizedEvent list" where
  "example_beats =
    [mk_event ''a'' ET_heartbeat None ''2026-01-01T00:00:10Z'' (JObj [(js ''process_alive'', JBool True)]),
     mk_event ''b'' ET_heartbeat None ''2026-01-01T00:00:10Z'' (JObj [(js ''process_alive'', JBool False)]),
     mk_event ''c'' ET_tool_permission_resolved None ''2026-01-01T00:05:00Z''
       (JObj [(js ''resolution_origin'', JStr (js ''relay_lost''))])]"

definition example_pg_text :: "rat \<Rightarrow> jstring" where
  "example_pg_text t =
    (case find (\<lambda>e. date_parse (ev_timestamp e) = JFin t) example_beats of Some e \<Rightarrow> ev_timestamp e | None \<Rightarrow> [])"

lemma example_pg_text_parses:
  "e \<in> set example_beats \<Longrightarrow> date_parse (ev_timestamp e) = JFin t \<Longrightarrow> date_parse (example_pg_text t) = JFin t"
  by (auto simp: example_pg_text_def find_None_iff split: option.splits dest: find_SomeD)

theorem liveness_parity_witness:
  "aggregateObservationSql (\<lambda>i j. i < j) example_pg_text Some
      (fold insert_event (example_beats @ example_beats) []) (js ''s'')
   = observeFromEvents (filter (\<lambda>e. ev_session_id e = js ''s'') (rev example_beats))"
proof (rule liveness_parity)
  show "inj_on ev_event_id (set (example_beats @ example_beats))"
    by (auto simp: example_beats_def mk_event_def inj_on_def)
next
  show "set (rev example_beats) = set (example_beats @ example_beats)" by simp
next
  fix e t assume "e \<in> set (example_beats @ example_beats)" "date_parse (ev_timestamp e) = JFin t"
  then show "date_parse (example_pg_text t) = JFin t" by (simp add: example_pg_text_parses)
next
  fix e r assume e: "e \<in> set (example_beats @ example_beats)" "event_row e = Some r"
  then have "date_parse (ev_timestamp e) = JFin (ro_timestamp r)" "ro_payload r = ev_payload e"
    by (auto simp: event_row_def toEpochMs_def split: jsnum.splits)
  moreover have "ev_payload e \<noteq> JNull"
    using e(1) by (auto simp: example_beats_def mk_event_def)
  ultimately show "\<exists>v. restoreRowAsEvent example_pg_text Some r = Some v \<and> js_get v (js ''payload'') = ev_payload e"
    using e(1) example_pg_text_parses [of e "ro_timestamp r"]
    by (auto simp: restoreRowAsEvent_def Let_def)
qed simp

text \<open>The verdict in terms of the last times.\<close>

definition since :: "rat \<Rightarrow> rat option \<Rightarrow> bool" where
  "since c x \<longleftrightarrow> (\<exists>m. x = Some m \<and> c \<le> m)"

lemma fresh_iff: "0 \<le> staleMs \<Longrightarrow> sg_fresh (signal_evidence staleMs now t) \<longleftrightarrow> now - staleMs \<le> t"
  by (auto simp: signal_evidence_def Let_def)

lemma since_max_opt: "finite T \<Longrightarrow> since c (max_opt T) \<longleftrightarrow> (\<exists>t\<in>T. c \<le> t)"
  by (auto simp: since_def max_opt_def Max_ge_iff)

lemma synthesize_state:
  assumes "0 \<le> staleMs"
  shows "lv_state (synthesizeLiveness (Some staleMs) now ob) =
    (if (\<exists>t. ob_process ob = Some (True, t) \<and> now - staleMs \<le> t) \<or> since (now - staleMs) (ob_event ob)
        \<or> since (now - staleMs) (ob_stdout ob) \<or> since (now - staleMs) (ob_file ob)
        \<or> since (now - staleMs) (ob_modelStream ob) then Live
     else if \<exists>t. ob_process ob = Some (False, t) then Stalled
     else if ob_process ob \<noteq> None \<or> ob_event ob \<noteq> None \<or> ob_stdout ob \<noteq> None \<or> ob_file ob \<noteq> None
        \<or> ob_modelStream ob \<noteq> None then Idle
     else Unknown)"
  using fresh_iff [OF assms]
  by (cases "ob_process ob"; cases "ob_event ob"; cases "ob_stdout ob"; cases "ob_file ob"; cases "ob_modelStream ob")
    (auto simp: synthesizeLiveness_def Let_def mk_liveness_def since_def)

lemma types_activity:
  "of_types STDOUT_EVENT_TYPES e \<or> of_types FILE_EVENT_TYPES e \<or> of_types MODEL_STREAM_EVENT_TYPES e \<Longrightarrow> countsAsActivity e"
  by (auto simp: of_types_def countsAsActivity_def STDOUT_EVENT_TYPES_def FILE_EVENT_TYPES_def MODEL_STREAM_EVENT_TYPES_def)

lemma alive_activity: "heartbeatAlive e = Some True \<Longrightarrow> countsAsActivity e"
  by (auto simp: countsAsActivity_def heartbeatAlive_def split: if_splits)

lemma times_where_mono: "(\<And>e. P e \<Longrightarrow> Q e) \<Longrightarrow> times_where P S \<subseteq> times_where Q S"
  by (auto simp: times_where_def)

lemma observed_life:
  assumes "observed S ob" "ob_process ob = Some (b, t)"
  shows "\<exists>e. last_beat S e \<and> e \<in> S \<and> heartbeatAlive e = Some b \<and> time_of e = Some t"
proof -
  obtain e where "last_beat S e" "beat_of e = (b, t)"
    using assms by (auto simp: observed_def last_life_sign_def)
  then show ?thesis
    by (intro exI [of _ e]) (auto simp: last_beat_def is_beat_def beat_of_def)
qed

lemma observed_alive: "observed S ob \<Longrightarrow> ob_process ob = Some (True, t) \<Longrightarrow> t \<in> times_where countsAsActivity S"
  using observed_life [of S ob True t] alive_activity by (auto simp: times_where_def)

lemma observed_dead:
  assumes "observed S ob" "ids_identify S"
  shows "(\<exists>t. ob_process ob = Some (False, t)) \<longleftrightarrow> (\<exists>d. last_beat S d \<and> heartbeatAlive d = Some False)"
proof
  assume "\<exists>t. ob_process ob = Some (False, t)"
  with observed_life [OF assms(1)] show "\<exists>d. last_beat S d \<and> heartbeatAlive d = Some False" by blast
next
  assume "\<exists>d. last_beat S d \<and> heartbeatAlive d = Some False"
  then obtain d where d: "last_beat S d" "heartbeatAlive d = Some False" by auto
  then have "last_life_sign S (Some (False, the (time_of d)))"
    by (auto simp: last_life_sign_def beat_of_def)
  with assms show "\<exists>t. ob_process ob = Some (False, t)"
    by (auto simp: observed_def dest: last_life_sign_unique)
qed

lemma types_times:
  assumes "ts \<in> {STDOUT_EVENT_TYPES, FILE_EVENT_TYPES, MODEL_STREAM_EVENT_TYPES}"
  shows "times_where (of_types ts) S \<subseteq> times_where countsAsActivity S"
  using assms types_activity by (intro times_where_mono) auto

lemma observed_verdict:
  assumes "observed S ob" "ids_identify S" "finite S" "0 \<le> staleMs"
  shows "lv_state (synthesizeLiveness (Some staleMs) now ob) =
    (if \<exists>t\<in>times_where countsAsActivity S. now - staleMs \<le> t then Live
     else if \<exists>d. last_beat S d \<and> heartbeatAlive d = Some False then Stalled
     else if times_where countsAsActivity S \<noteq> {} then Idle else Unknown)"
proof -
  let ?T = "\<lambda>P. times_where P S"
  have ob: "ob_event ob = max_opt (?T countsAsActivity)" "ob_stdout ob = max_opt (?T (of_types STDOUT_EVENT_TYPES))"
    "ob_file ob = max_opt (?T (of_types FILE_EVENT_TYPES))" "ob_modelStream ob = max_opt (?T (of_types MODEL_STREAM_EVENT_TYPES))"
    using assms(1) by (simp_all add: observed_def)
  have none: "max_opt T \<noteq> None \<longleftrightarrow> T \<noteq> {}" for T by (simp add: max_opt_def)
  have live: "((\<exists>t. ob_process ob = Some (True, t) \<and> now - staleMs \<le> t) \<or> since (now - staleMs) (ob_event ob)
        \<or> since (now - staleMs) (ob_stdout ob) \<or> since (now - staleMs) (ob_file ob)
        \<or> since (now - staleMs) (ob_modelStream ob)) \<longleftrightarrow> (\<exists>t\<in>?T countsAsActivity. now - staleMs \<le> t)"
    unfolding ob since_max_opt [OF finite_times_where [OF assms(3)]]
    using observed_alive [OF assms(1)] types_times [of _ S] by blast
  have seen: "(ob_process ob \<noteq> None \<or> ob_event ob \<noteq> None \<or> ob_stdout ob \<noteq> None \<or> ob_file ob \<noteq> None
        \<or> ob_modelStream ob \<noteq> None) \<longleftrightarrow> ?T countsAsActivity \<noteq> {}" if "\<not> (\<exists>t. ob_process ob = Some (False, t))"
  proof -
    have "ob_process ob \<noteq> None \<Longrightarrow> ?T countsAsActivity \<noteq> {}"
      using that observed_alive [OF assms(1)] by (metis (full_types) empty_iff option.exhaust surj_pair)
    then show ?thesis
      unfolding ob none using types_times [of _ S] by blast
  qed
  show ?thesis
    using seen unfolding synthesize_state [OF assms(4)] live observed_dead [OF assms(1,2)] by auto
qed

lemma time_of_eq: "time_of e = Some t \<longleftrightarrow> date_parse (ev_timestamp e) = JFin t"
  by (auto simp: time_of_def extractMs_def split: jsnum.splits)

lemma finite_time: "is_finite_num (date_parse (ev_timestamp e)) \<longleftrightarrow> (\<exists>t. time_of e = Some t)"
  by (cases "date_parse (ev_timestamp e)") (auto simp: time_of_eq)

text \<open>Activity: neither a notice of death nor a cancel that the backend wrote itself.\<close>

definition shows_activity :: "NormalizedEvent \<Rightarrow> bool" where
  "shows_activity e \<longleftrightarrow>
     \<not> (ev_event_type e = ET_heartbeat \<and> js_get (ev_payload e) (js ''process_alive'') = JBool False)
   \<and> \<not> (ev_event_type e = ET_tool_permission_resolved
        \<and> js_get (ev_payload e) (js ''resolution_origin'') = JStr (js ''relay_lost''))"

lemma countsAsActivity_iff: "countsAsActivity e \<longleftrightarrow> shows_activity e"
proof -
  have b: "bool_value v = Some x \<longleftrightarrow> v = JBool x" for v x by (cases v) auto
  show ?thesis
    by (auto simp: countsAsActivity_def shows_activity_def heartbeatAlive_def b PROCESS_ALIVE_PAYLOAD_KEY_def
        isSyntheticRetireOrigin_def SYNTHETIC_RETIRE_ORIGIN_def)
qed

text \<open>
  C25. The verdict on a session. With a threshold that is not negative, a session is live exactly if
  some activity was seen within the threshold; otherwise it is stalled exactly if its last heart beat
  says that the process is gone; otherwise it is idle if any activity was ever seen, and unknown if
  not. So one old signal never makes a session stalled, nor do all of them while the death of the
  process is not confirmed; and neither a notice of death nor a cancel that the backend wrote itself
  counts as activity.
\<close>

theorem liveness_verdict:
  assumes "0 \<le> staleMs" and "inj_on ev_event_id (set evs)"
  shows "lv_state (synthesizeLiveness (Some staleMs) now (observeFromEvents evs)) =
    (if \<exists>e\<in>set evs. shows_activity e \<and> (\<exists>t. date_parse (ev_timestamp e) = JFin t \<and> now - t \<le> staleMs) then Live
     else if \<exists>d. last_beat (set evs) d \<and> js_get (ev_payload d) (js ''process_alive'') = JBool False then Stalled
     else if \<exists>e\<in>set evs. shows_activity e \<and> is_finite_num (date_parse (ev_timestamp e)) then Idle
     else Unknown)"
proof -
  have live: "(\<exists>t\<in>times_where countsAsActivity (set evs). now - staleMs \<le> t) \<longleftrightarrow>
      (\<exists>e\<in>set evs. shows_activity e \<and> (\<exists>t. date_parse (ev_timestamp e) = JFin t \<and> now - t \<le> staleMs))"
    by (auto simp: times_where_def time_of_eq diff_le_eq add.commute countsAsActivity_iff)
  have seen: "times_where countsAsActivity (set evs) \<noteq> {} \<longleftrightarrow>
      (\<exists>e\<in>set evs. shows_activity e \<and> is_finite_num (date_parse (ev_timestamp e)))"
    by (auto simp: times_where_def finite_time countsAsActivity_iff)
  have dead: "last_beat S d \<and> heartbeatAlive d = Some False \<longleftrightarrow> last_beat S d \<and> js_get (ev_payload d) (js ''process_alive'') = JBool False" for S d
    by (cases "js_get (ev_payload d) (js ''process_alive'')")
      (auto simp: last_beat_def is_beat_def heartbeatAlive_def PROCESS_ALIVE_PAYLOAD_KEY_def split: if_splits)
  show ?thesis
    using observed_verdict [OF observeFromEvents_observed [of evs] _ _ assms(1), of now] assms(2)
    unfolding ids_identify_def live seen dead by simp
qed

theorem liveness_verdict_witness:
  "lv_state (synthesizeLiveness (Some 60000) 1767225700000 (observeFromEvents example_beats)) = Stalled
   \<and> lv_state (synthesizeLiveness (Some 60000) 1767225640000 (observeFromEvents example_beats)) = Live"
proof -
  have a: "\<And>now. lv_state (synthesizeLiveness (Some 60000) now (observeFromEvents example_beats)) =
    (if \<exists>e\<in>set example_beats. shows_activity e \<and> (\<exists>t. date_parse (ev_timestamp e) = JFin t \<and> now - t \<le> 60000) then Live
     else if \<exists>d. last_beat (set example_beats) d \<and> js_get (ev_payload d) (js ''process_alive'') = JBool False then Stalled
     else if \<exists>e\<in>set example_beats. shows_activity e \<and> is_finite_num (date_parse (ev_timestamp e)) then Idle
     else Unknown)"
    by (rule liveness_verdict) (auto simp: example_beats_def mk_event_def inj_on_def)
  let ?b = "example_beats ! 1"
  have p: "date_parse (js ''2026-01-01T00:00:10Z'') = JFin 1767225610000"
    by code_simp
  have act: "shows_activity e \<longleftrightarrow> e = example_beats ! 0" if "e \<in> set example_beats" for e
    using that by (auto simp: example_beats_def mk_event_def shows_activity_def)
  have ts: "ev_timestamp (example_beats ! 0) = js ''2026-01-01T00:00:10Z''" "example_beats ! 0 \<in> set example_beats"
    by (simp_all add: example_beats_def mk_event_def)
  have b: "js_get (ev_payload ?b) (js ''process_alive'') = JBool False"
    by (simp add: example_beats_def mk_event_def)
  have ab: "js ''a'' \<le> js ''b''" by (simp add: js_def)
  have "last_beat (set example_beats) ?b"
    by (auto simp: last_beat_def is_beat_def not_after_def example_beats_def mk_event_def heartbeatAlive_def
        PROCESS_ALIVE_PAYLOAD_KEY_def time_of_def extractMs_def p ab)
  with b show ?thesis
    unfolding a using act ts p by (auto intro!: bexI [of _ "example_beats ! 0"])
qed

end
