(* ===== verification/Realtime_Hub.thy ===== *)
theory Realtime_Hub
  imports Control_Handlers
begin

text \<open>
  What the browser is told (\<^verbatim>\<open>src/apps/backend/src/realtime-hub.ts\<close>), the frames it sends
  (\<^verbatim>\<open>handleClientFrame\<close>, \<^verbatim>\<open>relayApprove\<close> and \<^verbatim>\<open>relayInterrupt\<close> of
  \<^verbatim>\<open>realtime-server.ts\<close>), and the pushes after an ingestion or a change of presence
  (\<^verbatim>\<open>ingestion-server.ts\<close>).

  The connection objects of the hub are numbered in the order they are registered; a handle is the
  number. What a sink was given is a log. Whether a sink is open and whether its \<^verbatim>\<open>send\<close> throws
  are arguments. Rows and details are opaque values that the store reads from the database. A read
  is a thread with two steps: the query runs (and sees the database as it is then), and its result
  is handed to the code that awaits it.
\<close>

section \<open>The hub\<close>

datatype ack_action = Act_subscribe | Act_unsubscribe | Act_approve | Act_interrupt

record AckFrame =
  ak_action :: ack_action
  ak_ok :: bool
  ak_session_id :: "jsval option"
  ak_request_id :: "jstring option"
  ak_error :: "string option"

datatype ServerFrame =
    Snapshot_list "jsval list"
  | Delta_list jsval
  | Snapshot_detail jstring jsval
  | Delta_detail jstring jsval
  | Ack AckFrame

text \<open>The sinks at the time of an operation.\<close>

record ui_sinks =
  sk_open :: "nat \<Rightarrow> bool"
  sk_throws :: "nat \<Rightarrow> bool"

record RealtimeHub =
  hb_subscriptions :: "(nat \<times> jstring list) list" \<comment> \<open>every connection object made, with its set\<close>
  hb_connections :: "nat list"
  hb_sessionSubscribers :: "(jstring \<times> nat list) list"
  hb_sent :: "(nat \<times> ServerFrame) list"

definition hub_new :: RealtimeHub where
  "hub_new = \<lparr>hb_subscriptions = [], hb_connections = [], hb_sessionSubscribers = [], hb_sent = []\<rparr>"

definition conn_subs :: "nat \<Rightarrow> RealtimeHub \<Rightarrow> jstring list" where
  "conn_subs c h = (case map_of (hb_subscriptions h) c of Some s \<Rightarrow> s | None \<Rightarrow> [])"

definition session_set :: "jstring \<Rightarrow> RealtimeHub \<Rightarrow> nat list" where
  "session_set sid h = (case map_of (hb_sessionSubscribers h) sid of Some s \<Rightarrow> s | None \<Rightarrow> [])"

definition hub_register :: "RealtimeHub \<Rightarrow> nat \<times> RealtimeHub" where
  "hub_register h =
    (let c = length (hb_subscriptions h) in
     (c, h\<lparr>hb_subscriptions := hb_subscriptions h @ [(c, [])], hb_connections := hb_connections h @ [c]\<rparr>))"

definition connectionCount :: "RealtimeHub \<Rightarrow> nat" where
  "connectionCount h = length (hb_connections h)"

definition subscriberCount :: "jstring \<Rightarrow> RealtimeHub \<Rightarrow> nat" where
  "subscriberCount sid h = length (session_set sid h)"

definition hub_subscribe :: "nat \<Rightarrow> jstring \<Rightarrow> RealtimeHub \<Rightarrow> RealtimeHub" where
  "hub_subscribe c sid h =
    h\<lparr>hb_subscriptions := AList.update c (set_add sid (conn_subs c h)) (hb_subscriptions h),
      hb_sessionSubscribers := AList.update sid (set_add c (session_set sid h)) (hb_sessionSubscribers h)\<rparr>"

text \<open>Taking a connection out of the set of a session; an empty set is dropped.\<close>

definition leave_session :: "nat \<Rightarrow> jstring \<Rightarrow> (jstring \<times> nat list) list \<Rightarrow> (jstring \<times> nat list) list" where
  "leave_session c sid ix =
    (case map_of ix sid of
       None \<Rightarrow> ix
     | Some s \<Rightarrow>
         (let s' = removeAll c s in if s' = [] then AList.delete sid ix else AList.update sid s' ix))"

definition hub_unsubscribe :: "nat \<Rightarrow> jstring \<Rightarrow> RealtimeHub \<Rightarrow> RealtimeHub" where
  "hub_unsubscribe c sid h =
    h\<lparr>hb_subscriptions := AList.update c (removeAll sid (conn_subs c h)) (hb_subscriptions h),
      hb_sessionSubscribers := leave_session c sid (hb_sessionSubscribers h)\<rparr>"

definition hub_remove :: "nat \<Rightarrow> RealtimeHub \<Rightarrow> RealtimeHub" where
  "hub_remove c h =
    h\<lparr>hb_sessionSubscribers := fold (leave_session c) (conn_subs c h) (hb_sessionSubscribers h),
      hb_subscriptions := AList.update c [] (hb_subscriptions h),
      hb_connections := removeAll c (hb_connections h)\<rparr>"

definition isSubscribed :: "nat \<Rightarrow> jstring \<Rightarrow> RealtimeHub \<Rightarrow> bool" where
  "isSubscribed c sid h \<longleftrightarrow> sid \<in> set (conn_subs c h)"

definition sendTo :: "ui_sinks \<Rightarrow> nat \<Rightarrow> ServerFrame \<Rightarrow> RealtimeHub \<Rightarrow> RealtimeHub" where
  "sendTo env c frame h =
    (if \<not> sk_open env c then h
     else if sk_throws env c then h
     else h\<lparr>hb_sent := hb_sent h @ [(c, frame)]\<rparr>)"

definition sendListSnapshot :: "ui_sinks \<Rightarrow> nat \<Rightarrow> jsval list \<Rightarrow> RealtimeHub \<Rightarrow> RealtimeHub" where
  "sendListSnapshot env c sessions h = sendTo env c (Snapshot_list sessions) h"

definition sendDetailSnapshot :: "ui_sinks \<Rightarrow> nat \<Rightarrow> jstring \<Rightarrow> jsval \<Rightarrow> RealtimeHub \<Rightarrow> RealtimeHub" where
  "sendDetailSnapshot env c sid detail h = sendTo env c (Snapshot_detail sid detail) h"

definition sendAck :: "ui_sinks \<Rightarrow> nat \<Rightarrow> AckFrame \<Rightarrow> RealtimeHub \<Rightarrow> RealtimeHub" where
  "sendAck env c ack h = sendTo env c (Ack ack) h"

definition broadcastListDelta :: "ui_sinks \<Rightarrow> jsval \<Rightarrow> RealtimeHub \<Rightarrow> RealtimeHub" where
  "broadcastListDelta env item h = fold (\<lambda>c. sendTo env c (Delta_list item)) (hb_connections h) h"

definition pushDetailDelta :: "ui_sinks \<Rightarrow> jstring \<Rightarrow> jsval \<Rightarrow> RealtimeHub \<Rightarrow> RealtimeHub" where
  "pushDetailDelta env sid detail h =
    (case map_of (hb_sessionSubscribers h) sid of
       None \<Rightarrow> h
     | Some s \<Rightarrow> fold (\<lambda>c. sendTo env c (Delta_detail sid detail)) s h)"

section \<open>The routes of the browser\<close>

datatype rt_thread =
    List_snapshot nat
  | Sub_detail nat jstring
  | Push_list jstring
  | Push_detail jstring

text \<open>A query that failed, a list of rows, or at most one row.\<close>

datatype rt_result = Query_failed | Rows "jsval list" | Row "jsval option"

record RealtimeServer =
  sv_hub :: RealtimeHub
  sv_registry :: SidecarRegistry
  sv_threads :: "(nat \<times> rt_thread \<times> rt_result option) list"
  sv_started :: nat
  sv_rejected :: nat \<comment> \<open>promises that were rejected with nobody to handle it\<close>

definition start_read :: "rt_thread \<Rightarrow> RealtimeServer \<Rightarrow> RealtimeServer" where
  "start_read k s =
    s\<lparr>sv_threads := sv_threads s @ [(sv_started s, k, None)], sv_started := sv_started s + 1\<rparr>"

definition ui_connects :: "RealtimeServer \<Rightarrow> RealtimeServer" where
  "ui_connects s =
    (let (c, h) = hub_register (sv_hub s) in start_read (List_snapshot c) (s\<lparr>sv_hub := h\<rparr>))"

definition ui_closes :: "nat \<Rightarrow> RealtimeServer \<Rightarrow> RealtimeServer" where
  "ui_closes c s = s\<lparr>sv_hub := hub_remove c (sv_hub s)\<rparr>"

definition VALID_DECISIONS :: "jstring list" where
  "VALID_DECISIONS = map (\<lambda>d. js (decision_str d)) APPROVAL_DECISIONS"

fun relay_ok :: "RelayResult \<Rightarrow> bool" where
  "relay_ok Relay_ok = True"
| "relay_ok (Relay_error _) = False"

fun relay_error :: "RelayResult \<Rightarrow> string option" where
  "relay_error Relay_ok = None"
| "relay_error (Relay_error e) = Some e"

definition ui_ack :: "ui_sinks \<Rightarrow> nat \<Rightarrow> AckFrame \<Rightarrow> RealtimeServer \<Rightarrow> RealtimeServer" where
  "ui_ack env c ack s = s\<lparr>sv_hub := sendAck env c ack (sv_hub s)\<rparr>"

text \<open>The relay a frame asks for, when it passes the checks.\<close>

definition relay_of_frame :: "jsval \<Rightarrow> ApprovalRelay option" where
  "relay_of_frame frame =
    (case (js_string (js_get frame (js ''session_id'')), js_string (js_get frame (js ''request_id'')),
           js_string (js_get frame (js ''decision''))) of
       (Some session_id, Some request_id, Some decision) \<Rightarrow>
         if decision \<in> set VALID_DECISIONS then
           Some \<lparr>rl_session_id = session_id, rl_request_id = request_id, rl_decision = decision,
                 rl_reason = js_string (js_get frame (js ''reason'')),
                 rl_persist = (js_get frame (js ''persist'') = JBool True)\<rparr>
         else None
     | _ \<Rightarrow> None)"

definition relayApprove :: "ui_sinks \<Rightarrow> link_env \<Rightarrow> nat \<Rightarrow> jsval \<Rightarrow> RealtimeServer \<Rightarrow> RealtimeServer" where
  "relayApprove env lenv c frame s =
    (case relay_of_frame frame of
       None \<Rightarrow> ui_ack env c
         \<lparr>ak_action = Act_approve, ak_ok = False,
          ak_session_id = map_option JStr (js_string (js_get frame (js ''session_id''))),
          ak_request_id = js_string (js_get frame (js ''request_id'')),
          ak_error = Some ''invalid approval (session_id/request_id/decision)''\<rparr> s
     | Some relay \<Rightarrow>
         (let (res, r) = relayApproval lenv relay (sv_registry s) in
          ui_ack env c
            \<lparr>ak_action = Act_approve, ak_ok = relay_ok res, ak_session_id = Some (JStr (rl_session_id relay)),
             ak_request_id = Some (rl_request_id relay), ak_error = relay_error res\<rparr>
            (s\<lparr>sv_registry := r\<rparr>)))"

definition ui_interrupt :: "ui_sinks \<Rightarrow> link_env \<Rightarrow> nat \<Rightarrow> jsval \<Rightarrow> RealtimeServer \<Rightarrow> RealtimeServer" where
  "ui_interrupt env lenv c frame s =
    (case js_string (js_get frame (js ''session_id'')) of
       Some sid \<Rightarrow>
         if sid = [] then ui_ack env c
           \<lparr>ak_action = Act_interrupt, ak_ok = False, ak_session_id = None, ak_request_id = None,
            ak_error = Some ''missing session_id''\<rparr> s
         else
           (let (res, r) = relayInterrupt lenv sid (sv_registry s) in
            ui_ack env c
              \<lparr>ak_action = Act_interrupt, ak_ok = relay_ok res, ak_session_id = Some (JStr sid),
               ak_request_id = None, ak_error = relay_error res\<rparr>
              (s\<lparr>sv_registry := r\<rparr>))
     | None \<Rightarrow> ui_ack env c
         \<lparr>ak_action = Act_interrupt, ak_ok = False, ak_session_id = None, ak_request_id = None,
          ak_error = Some ''missing session_id''\<rparr> s)"

definition ui_subscribe :: "ui_sinks \<Rightarrow> nat \<Rightarrow> jsval \<Rightarrow> RealtimeServer \<Rightarrow> RealtimeServer" where
  "ui_subscribe env c frame s =
    (case js_string (js_get frame (js ''session_id'')) of
       Some sid \<Rightarrow>
         if sid = [] then ui_ack env c
           \<lparr>ak_action = Act_subscribe, ak_ok = False, ak_session_id = None, ak_request_id = None,
            ak_error = Some ''missing session_id''\<rparr> s
         else start_read (Sub_detail c sid) (s\<lparr>sv_hub := hub_subscribe c sid (sv_hub s)\<rparr>)
     | None \<Rightarrow> ui_ack env c
         \<lparr>ak_action = Act_subscribe, ak_ok = False, ak_session_id = None, ak_request_id = None,
          ak_error = Some ''missing session_id''\<rparr> s)"

definition ui_unsubscribe :: "ui_sinks \<Rightarrow> nat \<Rightarrow> jsval \<Rightarrow> RealtimeServer \<Rightarrow> RealtimeServer" where
  "ui_unsubscribe env c frame s =
    ui_ack env c
      \<lparr>ak_action = Act_unsubscribe, ak_ok = True,
       ak_session_id = (let v = js_get frame (js ''session_id'') in if v = JUndef then None else Some v),
       ak_request_id = None, ak_error = None\<rparr>
      (case js_string (js_get frame (js ''session_id'')) of
         Some sid \<Rightarrow> s\<lparr>sv_hub := hub_unsubscribe c sid (sv_hub s)\<rparr>
       | None \<Rightarrow> s)"

text \<open>
  The text of a frame is given as the value it parses to, or none. Reading a property of
  \<^verbatim>\<open>null\<close> raises in an asynchronous function whose promise nobody looks at.
\<close>

definition handleClientFrame :: "ui_sinks \<Rightarrow> link_env \<Rightarrow> nat \<Rightarrow> jsval option \<Rightarrow> RealtimeServer \<Rightarrow> RealtimeServer" where
  "handleClientFrame env lenv c parsed s =
    (case parsed of
       None \<Rightarrow> s
     | Some frame \<Rightarrow>
         if frame = JNull then s\<lparr>sv_rejected := sv_rejected s + 1\<rparr>
         else let ty = js_get frame (js ''type'') in
         if ty = JStr (js ''subscribe'') then ui_subscribe env c frame s
         else if ty = JStr (js ''unsubscribe'') then ui_unsubscribe env c frame s
         else if ty = JStr (js ''approve'') then relayApprove env lenv c frame s
         else if ty = JStr (js ''interrupt'') then ui_interrupt env lenv c frame s
         else s)"

section \<open>Pushes\<close>

text \<open>After a new event (\<^verbatim>\<open>pushAfterIngest\<close>) or a change of presence (\<^verbatim>\<open>pushPresenceDelta\<close>).\<close>

definition pushAfterIngest :: "jstring \<Rightarrow> RealtimeServer \<Rightarrow> RealtimeServer" where
  "pushAfterIngest sid s = start_read (Push_list sid) s"

definition pushPresenceDelta :: "jstring \<Rightarrow> RealtimeServer \<Rightarrow> RealtimeServer" where
  "pushPresenceDelta sid s = start_read (Push_list sid) s"

text \<open>The query of a thread sees the database, or fails.\<close>

definition query_runs :: "nat \<Rightarrow> rt_result \<Rightarrow> RealtimeServer \<Rightarrow> RealtimeServer" where
  "query_runs t res s =
    (case map_of (sv_threads s) t of
       Some (k, None) \<Rightarrow> s\<lparr>sv_threads := AList.update t (k, Some res) (sv_threads s)\<rparr>
     | _ \<Rightarrow> s)"

definition sub_ack :: "jstring \<Rightarrow> AckFrame" where
  "sub_ack sid = \<lparr>ak_action = Act_subscribe, ak_ok = True, ak_session_id = Some (JStr sid),
     ak_request_id = None, ak_error = None\<rparr>"

text \<open>The code behind the \<^verbatim>\<open>await\<close> goes on.\<close>

fun resume_read :: "ui_sinks \<Rightarrow> rt_thread \<Rightarrow> rt_result \<Rightarrow> RealtimeServer \<Rightarrow> RealtimeServer" where
  "resume_read env (List_snapshot c) (Rows sessions) s = s\<lparr>sv_hub := sendListSnapshot env c sessions (sv_hub s)\<rparr>"
| "resume_read env (List_snapshot c) _ s = s"
| "resume_read env (Sub_detail c sid) (Row (Some detail)) s =
    ui_ack env c (sub_ack sid) (s\<lparr>sv_hub := sendDetailSnapshot env c sid detail (sv_hub s)\<rparr>)"
| "resume_read env (Sub_detail c sid) _ s = ui_ack env c (sub_ack sid) s"
| "resume_read env (Push_list sid) Query_failed s = s"
| "resume_read env (Push_list sid) res s =
    (let s1 = (case res of Row (Some item) \<Rightarrow> s\<lparr>sv_hub := broadcastListDelta env item (sv_hub s)\<rparr> | _ \<Rightarrow> s) in
     if subscriberCount sid (sv_hub s1) > 0 then start_read (Push_detail sid) s1 else s1)"
| "resume_read env (Push_detail sid) (Row (Some detail)) s = s\<lparr>sv_hub := pushDetailDelta env sid detail (sv_hub s)\<rparr>"
| "resume_read env (Push_detail sid) _ s = s"

definition query_returns :: "ui_sinks \<Rightarrow> nat \<Rightarrow> RealtimeServer \<Rightarrow> RealtimeServer" where
  "query_returns env t s =
    (case map_of (sv_threads s) t of
       Some (k, Some res) \<Rightarrow> resume_read env k res (s\<lparr>sv_threads := AList.delete t (sv_threads s)\<rparr>)
     | _ \<Rightarrow> s)"

end
