(* ===== verification/Realtime_Correct.thy ===== *)
theory Realtime_Correct
  imports Realtime_Hub Control_Channel
begin

text \<open>
  Correctness of the hub and of the frames of the browser: the two indices of the subscriptions
  agree, every push reaches exactly the open connections that are meant, and a decision made in the
  browser resolves the request in the bridge of the sidecar that asked.
\<close>

section \<open>Runs of the server\<close>

text \<open>
  A socket delivers no message after it was closed; otherwise everything may happen in any order.
\<close>

inductive rt_step :: "RealtimeServer \<Rightarrow> RealtimeServer \<Rightarrow> bool" where
  connects: "rt_step s (ui_connects s)"
| closes: "c \<in> set (map fst (hb_subscriptions (sv_hub s))) \<Longrightarrow> rt_step s (ui_closes c s)"
| frame: "c \<in> set (hb_connections (sv_hub s)) \<Longrightarrow> rt_step s (handleClientFrame env lenv c parsed s)"
| ingested: "rt_step s (pushAfterIngest sid s)"
| presence: "rt_step s (pushPresenceDelta sid s)"
| runs: "rt_step s (query_runs t res s)"
| returns: "rt_step s (query_returns env t s)"
| registry: "rt_step s (s\<lparr>sv_registry := r\<rparr>)"

inductive_cases rt_stepE: "rt_step s s'"

definition server_new :: RealtimeServer where
  "server_new = \<lparr>sv_hub = hub_new, sv_registry = registry_run [], sv_threads = [], sv_started = 0, sv_rejected = 0\<rparr>"

abbreviation rt_reachable :: "RealtimeServer \<Rightarrow> bool" where
  "rt_reachable s \<equiv> rt_step\<^sup>*\<^sup>* server_new s"

section \<open>The subscriptions\<close>

definition hub_wf :: "RealtimeHub \<Rightarrow> bool" where
  "hub_wf h \<longleftrightarrow>
     map fst (hb_subscriptions h) = [0..<length (hb_subscriptions h)]
   \<and> distinct (hb_connections h) \<and> set (hb_connections h) \<subseteq> {..<length (hb_subscriptions h)}
   \<and> (\<forall>sid cs. map_of (hb_sessionSubscribers h) sid = Some cs \<longrightarrow> cs \<noteq> [] \<and> distinct cs)
   \<and> (\<forall>c sid. c \<in> set (session_set sid h) \<longleftrightarrow> sid \<in> set (conn_subs c h))
   \<and> (\<forall>c. conn_subs c h \<noteq> [] \<longrightarrow> c \<in> set (hb_connections h))"

lemma hub_wf_new: "hub_wf hub_new"
  by (simp add: hub_wf_def hub_new_def session_set_def conn_subs_def)

lemma map_of_update: "map_of (AList.update k v al) x = (if x = k then Some v else map_of al x)"
  by (simp add: update_conv')

lemma map_of_delete: "map_of (AList.delete k al) x = (if x = k then None else map_of al x)"
  by (simp add: delete_conv')

lemma keys_update_old: "k \<in> set (map fst al) \<Longrightarrow> map fst (AList.update k v al) = map fst al"
  by (simp add: update_keys)

lemma length_update_old: "k \<in> set (map fst al) \<Longrightarrow> length (AList.update k v al) = length al"
  by (metis keys_update_old length_map)

lemma hub_wf_register: "hub_wf h \<Longrightarrow> hub_wf (snd (hub_register h))"
proof -
  assume wf: "hub_wf h"
  let ?c = "length (hb_subscriptions h)"
  have new: "map_of (hb_subscriptions h) ?c = None"
    using wf by (simp add: hub_wf_def map_of_eq_None_iff flip: set_map)
  have subs: "conn_subs x (snd (hub_register h)) = conn_subs x h" for x
    using new by (auto simp: conn_subs_def hub_register_def Let_def map_add_def split: option.splits)
  have sets: "session_set sid (snd (hub_register h)) = session_set sid h" for sid
    by (simp add: session_set_def hub_register_def Let_def)
  have "?c \<notin> set (hb_connections h)" using wf by (auto simp: hub_wf_def)
  then show ?thesis
    using wf unfolding hub_wf_def subs sets by (auto simp: hub_register_def Let_def)
qed

lemma leave_session_sets:
  "(case map_of (leave_session c sid ix) x of Some s \<Rightarrow> s | None \<Rightarrow> []) =
   (if x = sid then removeAll c (case map_of ix x of Some s \<Rightarrow> s | None \<Rightarrow> []) else (case map_of ix x of Some s \<Rightarrow> s | None \<Rightarrow> []))"
  by (auto simp: leave_session_def Let_def map_of_update map_of_delete split: option.splits)

lemma leave_session_ok:
  assumes "\<And>sid cs. map_of ix sid = Some cs \<Longrightarrow> cs \<noteq> [] \<and> distinct cs"
  shows "map_of (leave_session c sid ix) x = Some cs \<Longrightarrow> cs \<noteq> [] \<and> distinct cs"
  using assms [of x] assms [of sid]
  by (auto simp: leave_session_def Let_def map_of_update map_of_delete distinct_removeAll
      split: option.splits if_splits)

lemma leave_sessions_sets:
  "(case map_of (fold (leave_session c) sids ix) x of Some s \<Rightarrow> s | None \<Rightarrow> []) =
   (if x \<in> set sids then removeAll c (case map_of ix x of Some s \<Rightarrow> s | None \<Rightarrow> []) else (case map_of ix x of Some s \<Rightarrow> s | None \<Rightarrow> []))"
  by (induction sids arbitrary: ix) (auto simp: leave_session_sets)

lemma leave_sessions_ok:
  "(\<And>sid cs. map_of ix sid = Some cs \<Longrightarrow> cs \<noteq> [] \<and> distinct cs) \<Longrightarrow>
   map_of (fold (leave_session c) sids ix) x = Some cs \<Longrightarrow> cs \<noteq> [] \<and> distinct cs"
proof (induction sids arbitrary: ix)
  case (Cons sid sids)
  have ok: "map_of (leave_session c sid ix) y = Some ds \<Longrightarrow> ds \<noteq> [] \<and> distinct ds" for y ds
    by (rule leave_session_ok [OF Cons.prems(1)])
  show ?case
    by (rule Cons.IH [OF ok]) (use Cons.prems(2) in simp_all)
qed auto

lemma conn_registered: "hub_wf h \<Longrightarrow> c \<in> set (hb_connections h) \<Longrightarrow> c \<in> set (map fst (hb_subscriptions h))"
  by (auto simp: hub_wf_def)

lemma hub_parts:
  assumes "hub_wf h"
  shows "map fst (hb_subscriptions h) = [0..<length (hb_subscriptions h)]"
    "distinct (hb_connections h)" "set (hb_connections h) \<subseteq> {..<length (hb_subscriptions h)}"
    "map_of (hb_sessionSubscribers h) sid = Some cs \<Longrightarrow> cs \<noteq> [] \<and> distinct cs"
    "c \<in> set (session_set sid h) \<longleftrightarrow> sid \<in> set (conn_subs c h)"
    "conn_subs c h \<noteq> [] \<Longrightarrow> c \<in> set (hb_connections h)"
  using assms by (simp_all add: hub_wf_def)

lemma distinct_session_set: "hub_wf h \<Longrightarrow> distinct (session_set sid h)"
  using hub_parts(4) by (auto simp: session_set_def split: option.splits)

lemma hub_wfI:
  assumes "map fst (hb_subscriptions h) = [0..<length (hb_subscriptions h)]"
    "distinct (hb_connections h)" "set (hb_connections h) \<subseteq> {..<length (hb_subscriptions h)}"
    "\<And>sid cs. map_of (hb_sessionSubscribers h) sid = Some cs \<Longrightarrow> cs \<noteq> [] \<and> distinct cs"
    "\<And>c sid. c \<in> set (session_set sid h) \<longleftrightarrow> sid \<in> set (conn_subs c h)"
    "\<And>c. conn_subs c h \<noteq> [] \<Longrightarrow> c \<in> set (hb_connections h)"
  shows "hub_wf h"
  using assms by (simp add: hub_wf_def)

lemma hub_wf_subscribe:
  assumes wf: "hub_wf h" and c: "c \<in> set (hb_connections h)"
  shows "hub_wf (hub_subscribe c sid h)"
proof (rule hub_wfI)
  note k = conn_registered [OF wf c] and p = hub_parts [OF wf]
  show "map fst (hb_subscriptions (hub_subscribe c sid h)) = [0..<length (hb_subscriptions (hub_subscribe c sid h))]"
    by (simp add: hub_subscribe_def keys_update_old [OF k] length_update_old [OF k] p(1))
  show "distinct (hb_connections (hub_subscribe c sid h))" by (simp add: hub_subscribe_def p(2))
  show "set (hb_connections (hub_subscribe c sid h)) \<subseteq> {..<length (hb_subscriptions (hub_subscribe c sid h))}"
    using p(3) by (simp add: hub_subscribe_def length_update_old [OF k])
  have subs: "conn_subs x (hub_subscribe c sid h) = (if x = c then set_add sid (conn_subs c h) else conn_subs x h)" for x
    by (simp add: conn_subs_def hub_subscribe_def map_of_update)
  have sets: "session_set x (hub_subscribe c sid h) = (if x = sid then set_add c (session_set sid h) else session_set x h)" for x
    by (simp add: session_set_def hub_subscribe_def map_of_update)
  show "cs \<noteq> [] \<and> distinct cs" if "map_of (hb_sessionSubscribers (hub_subscribe c sid h)) x = Some cs" for x cs
    using that p(4) [of x cs] distinct_session_set [OF wf, of sid]
    by (auto simp: hub_subscribe_def map_of_update set_add_def split: if_splits)
  show "y \<in> set (session_set x (hub_subscribe c sid h)) \<longleftrightarrow> x \<in> set (conn_subs y (hub_subscribe c sid h))" for x y
    using p(5) by (simp add: subs sets set_add_def)
  show "y \<in> set (hb_connections (hub_subscribe c sid h))" if "conn_subs y (hub_subscribe c sid h) \<noteq> []" for y
    using that p(6) [of y] c unfolding subs by (auto simp: hub_subscribe_def split: if_splits)
qed

lemma hub_wf_unsubscribe:
  assumes wf: "hub_wf h" and c: "c \<in> set (hb_connections h)"
  shows "hub_wf (hub_unsubscribe c sid h)"
proof (rule hub_wfI)
  note k = conn_registered [OF wf c] and p = hub_parts [OF wf]
  show "map fst (hb_subscriptions (hub_unsubscribe c sid h)) = [0..<length (hb_subscriptions (hub_unsubscribe c sid h))]"
    by (simp add: hub_unsubscribe_def keys_update_old [OF k] length_update_old [OF k] p(1))
  show "distinct (hb_connections (hub_unsubscribe c sid h))" by (simp add: hub_unsubscribe_def p(2))
  show "set (hb_connections (hub_unsubscribe c sid h)) \<subseteq> {..<length (hb_subscriptions (hub_unsubscribe c sid h))}"
    using p(3) by (simp add: hub_unsubscribe_def length_update_old [OF k])
  have subs: "conn_subs x (hub_unsubscribe c sid h) = (if x = c then removeAll sid (conn_subs c h) else conn_subs x h)" for x
    by (simp add: conn_subs_def hub_unsubscribe_def map_of_update)
  have sets: "session_set x (hub_unsubscribe c sid h) = (if x = sid then removeAll c (session_set sid h) else session_set x h)" for x
    by (simp add: session_set_def hub_unsubscribe_def leave_session_sets)
  show "cs \<noteq> [] \<and> distinct cs" if "map_of (hb_sessionSubscribers (hub_unsubscribe c sid h)) x = Some cs" for x cs
    using leave_session_ok [OF p(4), where c = c and sid = sid and x = x and cs = cs] that by (simp add: hub_unsubscribe_def)
  show "y \<in> set (session_set x (hub_unsubscribe c sid h)) \<longleftrightarrow> x \<in> set (conn_subs y (hub_unsubscribe c sid h))" for x y
    using p(5) by (auto simp: subs sets)
  show "y \<in> set (hb_connections (hub_unsubscribe c sid h))" if "conn_subs y (hub_unsubscribe c sid h) \<noteq> []" for y
    using that p(6) [of y] c unfolding subs by (auto simp: hub_unsubscribe_def split: if_splits)
qed

lemma hub_wf_remove:
  assumes wf: "hub_wf h" and k: "c \<in> set (map fst (hb_subscriptions h))"
  shows "hub_wf (hub_remove c h)"
proof -
  note p = hub_parts [OF wf]
  have subs: "conn_subs x (hub_remove c h) = (if x = c then [] else conn_subs x h)" for x
    by (simp add: conn_subs_def hub_remove_def map_of_update)
  have sets: "session_set x (hub_remove c h) = (if x \<in> set (conn_subs c h) then removeAll c (session_set x h) else session_set x h)" for x
    by (simp add: session_set_def hub_remove_def leave_sessions_sets)
  show ?thesis
  proof (rule hub_wfI)
    show "map fst (hb_subscriptions (hub_remove c h)) = [0..<length (hb_subscriptions (hub_remove c h))]"
      by (simp add: hub_remove_def keys_update_old [OF k] length_update_old [OF k] p(1))
    show "distinct (hb_connections (hub_remove c h))" by (simp add: hub_remove_def p(2) distinct_removeAll)
    show "set (hb_connections (hub_remove c h)) \<subseteq> {..<length (hb_subscriptions (hub_remove c h))}"
      using p(3) by (auto simp: hub_remove_def length_update_old [OF k])
    show "cs \<noteq> [] \<and> distinct cs" if "map_of (hb_sessionSubscribers (hub_remove c h)) x = Some cs" for x cs
      using leave_sessions_ok [OF p(4), where c = c and sids = "conn_subs c h" and x = x and cs = cs] that by (simp add: hub_remove_def)
    show "y \<in> set (session_set x (hub_remove c h)) \<longleftrightarrow> x \<in> set (conn_subs y (hub_remove c h))" for x y
      using p(5) by (auto simp: subs sets)
    show "y \<in> set (hb_connections (hub_remove c h))" if "conn_subs y (hub_remove c h) \<noteq> []" for y
      using that p(6) [of y] unfolding subs by (auto simp: hub_remove_def split: if_splits)
  qed
qed

section \<open>Sending\<close>

abbreviation reaches :: "ui_sinks \<Rightarrow> nat \<Rightarrow> bool" where
  "reaches env c \<equiv> sk_open env c \<and> \<not> sk_throws env c"

lemma sendTo_sent: "hb_sent (sendTo env c f h) = hb_sent h @ (if reaches env c then [(c, f)] else [])"
  by (simp add: sendTo_def)

lemma sendTo_wf [simp]: "hub_wf (sendTo env c f h) = hub_wf h"
  by (simp add: sendTo_def hub_wf_def session_set_def conn_subs_def)

lemma send_all_sent:
  "hb_sent (fold (\<lambda>c. sendTo env c f) cs h) = hb_sent h @ map (\<lambda>c. (c, f)) (filter (reaches env) cs)"
  by (induction cs arbitrary: h) (auto simp: sendTo_sent)

lemma send_all_wf: "hub_wf (fold (\<lambda>c. sendTo env c f) cs h) = hub_wf h"
  by (induction cs arbitrary: h) auto

lemmas hub_sends = sendListSnapshot_def sendDetailSnapshot_def sendAck_def broadcastListDelta_def
  pushDetailDelta_def

lemma hub_sends_wf:
  "hub_wf (sendListSnapshot env c xs h) = hub_wf h" "hub_wf (sendDetailSnapshot env c sid d h) = hub_wf h"
  "hub_wf (sendAck env c a h) = hub_wf h" "hub_wf (broadcastListDelta env d h) = hub_wf h"
  "hub_wf (pushDetailDelta env sid d h) = hub_wf h"
  by (simp_all add: hub_sends send_all_wf split: option.split)

lemma start_read_hub [simp]: "sv_hub (start_read k s) = sv_hub s" "sv_registry (start_read k s) = sv_registry s"
  by (simp_all add: start_read_def)

lemma ui_ack_wf [simp]: "hub_wf (sv_hub (ui_ack env c a s)) = hub_wf (sv_hub s)"
  by (simp add: ui_ack_def hub_sends_wf)

lemma resume_wf [simp]: "hub_wf (sv_hub (resume_read env k res s)) = hub_wf (sv_hub s)"
  by (induction env k res s rule: resume_read.induct)
    (auto simp: hub_sends_wf Let_def split: rt_result.splits option.splits)

lemma frame_wf:
  assumes "hub_wf (sv_hub s)" "c \<in> set (hb_connections (sv_hub s))"
  shows "hub_wf (sv_hub (handleClientFrame env lenv c parsed s))"
  using assms
  by (auto simp: handleClientFrame_def ui_subscribe_def ui_unsubscribe_def relayApprove_def ui_interrupt_def Let_def
      case_prod_unfold hub_wf_subscribe hub_wf_unsubscribe split: option.split)

lemma reachable_hub_wf: "rt_reachable s \<Longrightarrow> hub_wf (sv_hub s)"
proof (induction rule: rtranclp_induct)
  case base
  then show ?case by (simp add: server_new_def hub_wf_new)
next
  case (step s s')
  from step(2) step.IH show ?case
  proof cases
    case connects
    then show ?thesis
      using step.IH hub_wf_register [of "sv_hub s"] by (simp add: ui_connects_def case_prod_unfold Let_def)
  qed (simp_all add: ui_closes_def hub_wf_remove frame_wf pushAfterIngest_def pushPresenceDelta_def
      query_runs_def query_returns_def split: option.split prod.split)
qed

text \<open>
  C27. A push reaches exactly those it is for. In every run of the server, with connections,
  closings, frames of the browser and reads of the database in any order, the row of a session is sent
  once to every open connection, in the order they were registered; its details are sent once to every
  open connection that has subscribed the session and to no other; and a closed connection has no
  subscription left.
\<close>

theorem push_exact:
  assumes "rt_reachable s"
  shows "hb_sent (broadcastListDelta env item (sv_hub s))
      = hb_sent (sv_hub s) @ map (\<lambda>c. (c, Delta_list item)) (filter (reaches env) (hb_connections (sv_hub s)))
    \<and> distinct (hb_connections (sv_hub s))
    \<and> (\<exists>cs. distinct cs \<and> set cs = {c. isSubscribed c sid (sv_hub s)} \<and> set cs \<subseteq> set (hb_connections (sv_hub s))
        \<and> subscriberCount sid (sv_hub s) = length cs
        \<and> hb_sent (pushDetailDelta env sid detail (sv_hub s))
          = hb_sent (sv_hub s) @ map (\<lambda>c. (c, Delta_detail sid detail)) (filter (reaches env) cs))"
proof (intro conjI exI [of _ "session_set sid (sv_hub s)"])
  note wf = reachable_hub_wf [OF assms] and p = hub_parts [OF reachable_hub_wf [OF assms]]
  show "hb_sent (broadcastListDelta env item (sv_hub s))
      = hb_sent (sv_hub s) @ map (\<lambda>c. (c, Delta_list item)) (filter (reaches env) (hb_connections (sv_hub s)))"
    by (simp add: broadcastListDelta_def send_all_sent)
  show "distinct (hb_connections (sv_hub s))" by (rule p(2))
  show "distinct (session_set sid (sv_hub s))" by (rule distinct_session_set [OF wf])
  show "set (session_set sid (sv_hub s)) = {c. isSubscribed c sid (sv_hub s)}"
    using p(5) by (auto simp: isSubscribed_def)
  show "set (session_set sid (sv_hub s)) \<subseteq> set (hb_connections (sv_hub s))"
  proof
    fix c assume "c \<in> set (session_set sid (sv_hub s))"
    then have "conn_subs c (sv_hub s) \<noteq> []" using p(5) [of c sid] by (metis empty_iff empty_set)
    then show "c \<in> set (hb_connections (sv_hub s))" by (rule p(6))
  qed
  show "subscriberCount sid (sv_hub s) = length (session_set sid (sv_hub s))" by (simp add: subscriberCount_def)
  show "hb_sent (pushDetailDelta env sid detail (sv_hub s)) = hb_sent (sv_hub s)
      @ map (\<lambda>c. (c, Delta_detail sid detail)) (filter (reaches env) (session_set sid (sv_hub s)))"
    by (auto simp: pushDetailDelta_def session_set_def send_all_sent split: option.split)
qed

section \<open>Frames of the browser\<close>

text \<open>An approval for the sidecar that says what the frame of the browser says.\<close>

definition approves :: "jsval \<Rightarrow> jsval \<Rightarrow> bool" where
  "approves frame f \<longleftrightarrow> js_get f (js ''type'') = JStr (js ''approval'')
     \<and> (\<exists>dec. js_get f (js ''decision'') = JStr (js (decision_str dec)))
     \<and> js_get f (js ''decision'') = js_get frame (js ''decision'')
     \<and> js_get f (js ''request_id'') = js_get frame (js ''request_id'')"

lemma relay_approves:
  assumes "relay_of_frame frame = Some relay"
  shows "approves frame (approval_frame relay conn)" "js_get frame (js ''session_id'') = JStr (rl_session_id relay)"
proof -
  have "js_string v = Some x \<longleftrightarrow> v = JStr x" for v x by simp
  with assms show "approves frame (approval_frame relay conn)"
    "js_get frame (js ''session_id'') = JStr (rl_session_id relay)"
    by (auto simp: relay_of_frame_def VALID_DECISIONS_def approves_def approval_frame_def split: option.splits if_splits)
qed

lemma relay_to_cases:
  obtains (sent) l where "map_of (rg_sessionOwner r) sid = Some l"
      "relay_to env sid msg r = (Relay_ok, record_events [Sent (cn_link (rg_conn r l)) (msg (rg_conn r l))] r)"
    | (failed) e where "relay_to env sid msg r = (Relay_error e, r)"
proof (cases "map_of (rg_sessionOwner r) sid")
  case None
  then show ?thesis by (intro failed) (simp add: relay_to_def)
next
  case (Some l)
  show ?thesis
  proof (cases "channel_error env (rg_conn r l) = None \<and> en_send env (cn_link (rg_conn r l))")
    case True
    with Some show ?thesis by (intro sent [of l]) (auto simp: relay_to_def link_send_def Let_def)
  next
    case False
    with Some show ?thesis
      by (cases "channel_error env (rg_conn r l)") (auto intro!: failed simp: relay_to_def link_send_def Let_def)
  qed
qed

lemma ui_ack_parts:
  "sv_registry (ui_ack env c a s) = sv_registry s" "sv_rejected (ui_ack env c a s) = sv_rejected s"
  "hb_sent (sv_hub (ui_ack env c a s)) = hb_sent (sv_hub s) @ (if reaches env c then [(c, Ack a)] else [])"
  by (simp_all add: ui_ack_def sendAck_def sendTo_sent)

text \<open>What a frame may add to the log of the registry and to what the browsers are told.\<close>

definition honest_ack :: "nat \<Rightarrow> registry_event list \<Rightarrow> nat \<times> ServerFrame \<Rightarrow> bool" where
  "honest_ack c new x = (fst x = c \<and>
     (case snd x of
        Ack a \<Rightarrow> if ak_action a \<in> {Act_approve, Act_interrupt} then ak_ok a = (new \<noteq> []) else True
      | _ \<Rightarrow> False))"

definition effects_ok ::
    "nat \<Rightarrow> jsval \<Rightarrow> RealtimeServer \<Rightarrow> RealtimeServer \<Rightarrow> registry_event list \<Rightarrow> (nat \<times> ServerFrame) list \<Rightarrow> bool" where
  "effects_ok c frame s s' new acks \<longleftrightarrow>
     sv_registry s' = record_events new (sv_registry s)
   \<and> hb_sent (sv_hub s') = hb_sent (sv_hub s) @ acks \<and> list_all (honest_ack c new) acks
   \<and> (new = [] \<or> (\<exists>sid l f. js_get frame (js ''session_id'') = JStr sid
        \<and> map_of (rg_sessionOwner (sv_registry s)) sid = Some l
        \<and> new = [Sent (cn_link (rg_conn (sv_registry s) l)) f]
        \<and> (js_get frame (js ''type'') = JStr (js ''approve'') \<and> approves frame f
           \<or> js_get frame (js ''type'') = JStr (js ''interrupt'') \<and> f = interrupt_frame sid (rg_conn (sv_registry s) l))))"

lemma record_none: "record_events [] r = r"
  by (simp add: record_events_def)

lemma ack_effects:
  assumes "sv_registry s1 = record_events new (sv_registry s)" "hb_sent (sv_hub s1) = hb_sent (sv_hub s)"
    "honest_ack c new (c, Ack a)"
    "new = [] \<or> (\<exists>sid l f. js_get frame (js ''session_id'') = JStr sid
        \<and> map_of (rg_sessionOwner (sv_registry s)) sid = Some l
        \<and> new = [Sent (cn_link (rg_conn (sv_registry s) l)) f]
        \<and> (js_get frame (js ''type'') = JStr (js ''approve'') \<and> approves frame f
           \<or> js_get frame (js ''type'') = JStr (js ''interrupt'') \<and> f = interrupt_frame sid (rg_conn (sv_registry s) l)))"
  shows "effects_ok c frame s (ui_ack env c a s1) new (if reaches env c then [(c, Ack a)] else [])"
  using assms by (simp add: effects_ok_def ui_ack_parts)

lemma no_effects: "effects_ok c frame s s [] []"
  by (simp add: effects_ok_def record_none)

lemma quiet_ack:
  "honest_ack c [] (c, Ack a) \<Longrightarrow> sv_registry s1 = sv_registry s \<Longrightarrow> hb_sent (sv_hub s1) = hb_sent (sv_hub s)
   \<Longrightarrow> \<exists>new acks. effects_ok c frame s (ui_ack env c a s1) new acks"
  using ack_effects [of s1 "[]" s c a frame env] by (auto simp: record_none)

lemma sent_ack:
  assumes "js_get frame (js ''session_id'') = JStr sid" "map_of (rg_sessionOwner (sv_registry s)) sid = Some l" "ak_ok a"
    "js_get frame (js ''type'') = JStr (js ''approve'') \<and> approves frame f
      \<or> js_get frame (js ''type'') = JStr (js ''interrupt'') \<and> f = interrupt_frame sid (rg_conn (sv_registry s) l)"
  shows "\<exists>new acks. effects_ok c frame s
    (ui_ack env c a (s\<lparr>sv_registry := record_events [Sent (cn_link (rg_conn (sv_registry s) l)) f] (sv_registry s)\<rparr>)) new acks"
proof (rule exI, rule exI, rule ack_effects)
  show "[Sent (cn_link (rg_conn (sv_registry s) l)) f] = [] \<or> (\<exists>sid l' f'. js_get frame (js ''session_id'') = JStr sid
        \<and> map_of (rg_sessionOwner (sv_registry s)) sid = Some l'
        \<and> [Sent (cn_link (rg_conn (sv_registry s) l)) f] = [Sent (cn_link (rg_conn (sv_registry s) l')) f']
        \<and> (js_get frame (js ''type'') = JStr (js ''approve'') \<and> approves frame f'
           \<or> js_get frame (js ''type'') = JStr (js ''interrupt'') \<and> f' = interrupt_frame sid (rg_conn (sv_registry s) l')))"
    using assms by blast
qed (use assms(3) in \<open>simp_all add: honest_ack_def\<close>)

lemma approve_effects:
  assumes ty: "js_get frame (js ''type'') = JStr (js ''approve'')"
  shows "\<exists>new acks. effects_ok c frame s (relayApprove env lenv c frame s) new acks"
proof (cases "relay_of_frame frame")
  case None
  then show ?thesis
    by (auto simp: relayApprove_def honest_ack_def intro!: quiet_ack)
next
  case (Some relay)
  show ?thesis
  proof (cases rule: relay_to_cases [of "sv_registry s" "rl_session_id relay" lenv "approval_frame relay"])
    case (sent l)
    show ?thesis
      unfolding relayApprove_def Some relayApproval_def sent option.case prod.case Let_def
      using relay_approves [OF Some] ty sent(1) by (intro sent_ack) auto
  next
    case (failed e)
    then show ?thesis
      by (auto simp: relayApprove_def Some relayApproval_def honest_ack_def intro!: quiet_ack)
  qed
qed

lemma interrupt_effects:
  assumes ty: "js_get frame (js ''type'') = JStr (js ''interrupt'')"
  shows "\<exists>new acks. effects_ok c frame s (ui_interrupt env lenv c frame s) new acks"
proof (cases "\<exists>sid. js_get frame (js ''session_id'') = JStr sid \<and> sid \<noteq> []")
  case False
  then show ?thesis
    by (auto simp: ui_interrupt_def honest_ack_def intro!: quiet_ack split: option.split)
next
  case True
  then obtain sid where sid: "js_string (js_get frame (js ''session_id'')) = Some sid" "sid \<noteq> []" by auto
  show ?thesis
  proof (cases rule: relay_to_cases [of "sv_registry s" sid lenv "interrupt_frame sid"])
    case (sent l)
    show ?thesis
      unfolding ui_interrupt_def sid relayInterrupt_def sent option.case prod.case Let_def
      using sid ty sent(1) by (auto intro!: sent_ack)
  next
    case (failed e)
    then show ?thesis
      using sid by (auto simp: ui_interrupt_def relayInterrupt_def honest_ack_def intro!: quiet_ack)
  qed
qed

lemma subscribe_effects: "\<exists>new acks. effects_ok c frame s (ui_subscribe env c frame s) new acks"
proof (cases "\<exists>sid. js_get frame (js ''session_id'') = JStr sid \<and> sid \<noteq> []")
  case False
  then show ?thesis
    by (auto simp: ui_subscribe_def honest_ack_def intro!: quiet_ack split: option.split)
next
  case True
  then show ?thesis
    by (intro exI [of _ "[]"]) (auto simp: ui_subscribe_def effects_ok_def record_none hub_subscribe_def)
qed

lemma unsubscribe_effects: "\<exists>new acks. effects_ok c frame s (ui_unsubscribe env c frame s) new acks"
  by (auto simp: ui_unsubscribe_def honest_ack_def hub_unsubscribe_def intro!: quiet_ack split: option.split)

text \<open>
  C28. What a frame of the browser can do. Whatever a browser sends, the registry stays as it is, or
  one frame goes to the owner of the session that the frame names: the interrupt of that session, or
  an approval with one of the four decisions of the protocol, for the request and with the decision
  that the frame names. The browser alone is answered, and an approval or interrupt is acknowledged
  as done exactly when such a frame was sent. Only the text \<^verbatim>\<open>null\<close> makes the handler fail, with a
  rejected promise that nobody handles; nothing else happens then.
\<close>

theorem browser_frame_effects:
  "\<exists>new acks.
     effects_ok c (case parsed of Some frame \<Rightarrow> frame | None \<Rightarrow> JUndef) s (handleClientFrame env lenv c parsed s) new acks
   \<and> sv_rejected (handleClientFrame env lenv c parsed s) = (if parsed = Some JNull then sv_rejected s + 1 else sv_rejected s)"
proof -
  have rej: "sv_rejected (handleClientFrame env lenv c parsed s) = (if parsed = Some JNull then sv_rejected s + 1 else sv_rejected s)"
    by (auto simp: handleClientFrame_def ui_subscribe_def ui_unsubscribe_def relayApprove_def ui_interrupt_def Let_def
        ui_ack_parts start_read_def case_prod_unfold split: option.split)
  have null: "effects_ok c JNull s (s\<lparr>sv_rejected := n\<rparr>) [] []" for n
    by (simp add: effects_ok_def record_none)
  have "\<exists>new acks. effects_ok c (case parsed of Some frame \<Rightarrow> frame | None \<Rightarrow> JUndef) s (handleClientFrame env lenv c parsed s) new acks"
    using null no_effects [of c _ s]
    by (auto intro: exI simp: handleClientFrame_def Let_def approve_effects interrupt_effects subscribe_effects unsubscribe_effects
        split: option.split)
  with rej show ?thesis by blast
qed

section \<open>A decision from the browser to the bridge\<close>

lemma relay_of_approve:
  assumes "js_get frame (js ''session_id'') = JStr sid" "js_get frame (js ''request_id'') = JStr rid"
    "js_get frame (js ''decision'') = JStr (js (decision_str dec))"
  shows "relay_of_frame frame = Some \<lparr>rl_session_id = sid, rl_request_id = rid, rl_decision = js (decision_str dec),
     rl_reason = js_string (js_get frame (js ''reason'')), rl_persist = (js_get frame (js ''persist'') = JBool True)\<rparr>"
proof -
  have "js (decision_str dec) \<in> set VALID_DECISIONS"
    by (cases dec) (simp_all add: VALID_DECISIONS_def APPROVAL_DECISIONS_def)
  then show ?thesis by (simp add: relay_of_frame_def assms)
qed

text \<open>
  C12. A decision of the operator reaches the gate it is meant for, and no other. After a sidecar has
  said hello with its token and its sessions, a frame of a browser that decides a request of one of
  those sessions makes the backend send one frame to that sidecar and acknowledge the decision to that
  browser; the client of the sidecar accepts the frame, and its handler resolves the named request in
  the bridge with exactly the decision, reason and choice to persist of the browser. A client with
  another token ignores the frame.
\<close>

theorem operator_decision_applied:
  assumes "sv_registry s = snd (handleHello lenv now l (buildHelloFrame (dv_client d) hi) (registry_run ops))"
    and "map_of (rg_conns (registry_run ops)) l = Some k" "en_open lenv l" "en_send lenv l"
    and "wc_controlToken (dv_client d) = Some t" "ascii_token t"
    and "wc_controlToken (dv_client other) = Some t'" "ascii_token t'" "t' \<noteq> t"
    and "js_get frame (js ''type'') = JStr (js ''approve'')"
    and "js_get frame (js ''session_id'') = JStr sid" "sid \<in> set (hi_sessionIds hi)" "sid \<noteq> []"
    and "js_get frame (js ''request_id'') = JStr rid"
    and "js_get frame (js ''decision'') = JStr (js (decision_str dec))"
  shows "\<exists>f. sv_registry (handleClientFrame env lenv c (Some frame) s) = record_events [Sent l f] (sv_registry s)
    \<and> hb_sent (sv_hub (handleClientFrame env lenv c (Some frame) s)) = hb_sent (sv_hub s)
        @ (if reaches env c then [(c, Ack \<lparr>ak_action = Act_approve, ak_ok = True, ak_session_id = Some (JStr sid),
              ak_request_id = Some rid, ak_error = None\<rparr>)] else [])
    \<and> handleInbound (Some f) d = Some (note_event [Dispatched ''approval'' f] d)
    \<and> on_approval b f tm disk = resolve b rid dec (js_string (js_get frame (js ''reason'')))
        (js_get frame (js ''persist'') = JBool True) tm disk
    \<and> handleInbound (Some f) other = Some other"
proof -
  let ?relay = "\<lparr>rl_session_id = sid, rl_request_id = rid, rl_decision = js (decision_str dec),
     rl_reason = js_string (js_get frame (js ''reason'')), rl_persist = (js_get frame (js ''persist'') = JBool True)\<rparr>"
  note r = relay_of_approve [OF assms(11,14,15)]
  obtain f where f: "relayApproval lenv ?relay (sv_registry s) = (Relay_ok, record_events [Sent l f] (sv_registry s))"
    "handleInbound (Some f) d = Some (note_event [Dispatched ''approval'' f] d)"
    "on_approval b f tm disk = resolve b (rl_request_id ?relay) dec (rl_reason ?relay) (rl_persist ?relay) tm disk"
    "handleInbound (Some f) other = Some other"
    using decision_reaches_bridge [OF assms(2-6) _ _ _ assms(7-9), of ?relay hi dec now b tm disk] assms(1,12,13) by auto
  have h: "handleClientFrame env lenv c (Some frame) s = relayApprove env lenv c frame s"
    using assms(10) by (auto simp: handleClientFrame_def Let_def)
  show ?thesis
    using f by (auto simp: h relayApprove_def r ui_ack_parts intro!: exI [of _ f])
qed

definition sample_server :: RealtimeServer where
  "sample_server = server_new\<lparr>sv_registry := snd (handleHello sample_env 0 11
     (buildHelloFrame (dv_client (delivery_start sample_client sample_checker)) sample_hello_inputs) (registry_run sample_ops))\<rparr>"

definition sample_approve :: jsval where
  "sample_approve = JObj [(js ''type'', JStr (js ''approve'')), (js ''session_id'', JStr (js ''s'')),
     (js ''request_id'', JStr [1]), (js ''decision'', JStr (js ''allow''))]"

abbreviation all_open :: ui_sinks where
  "all_open \<equiv> \<lparr>sk_open = \<lambda>_. True, sk_throws = \<lambda>_. False\<rparr>"

theorem operator_decision_applied_witness:
  "\<exists>f. sv_registry (handleClientFrame all_open sample_env 0 (Some sample_approve) sample_server)
       = record_events [Sent 11 f] (sv_registry sample_server)
    \<and> on_approval empty_bridge f 0 Disk_ok = resolve empty_bridge [1] Dec_allow None False 0 Disk_ok"
  using operator_decision_applied [of sample_server sample_env 0 11 "delivery_start sample_client sample_checker" sample_hello_inputs
      sample_ops 0 "js ''t0ken''" "delivery_start other_client sample_checker" "js ''0ther''" sample_approve "js ''s''" "[1]" Dec_allow
      all_open 0 empty_bridge 0 Disk_ok] sample_tokens
  by (simp add: sample_server_def sample_run sample_env_def delivery_start_def restart_def sample_client_def other_client_def
      sample_approve_def sample_hello_inputs_def) blast

section \<open>The order of snapshots and pushes\<close>

definition subscribe_s :: jsval where
  "subscribe_s = JObj [(js ''type'', JStr (js ''subscribe'')), (js ''session_id'', JStr (js ''s''))]"

definition example_server :: RealtimeServer where
  "example_server = handleClientFrame all_open sample_env 0 (Some subscribe_s) (ui_connects server_new)"

lemma example_reachable: "rt_reachable example_server"
proof -
  have "rt_step server_new (ui_connects server_new)" by (rule rt_step.connects)
  moreover have "rt_step (ui_connects server_new) example_server"
    unfolding example_server_def
    by (rule rt_step.frame) (simp add: ui_connects_def server_new_def hub_new_def hub_register_def start_read_def)
  ultimately show ?thesis by (metis converse_rtranclp_into_rtranclp rtranclp.rtrancl_refl)
qed

theorem push_exact_witness:
  "\<exists>cs. distinct cs \<and> set cs = {c. isSubscribed c (js ''s'') (sv_hub example_server)}
     \<and> hb_sent (pushDetailDelta all_open (js ''s'') JNull (sv_hub example_server))
       = hb_sent (sv_hub example_server) @ map (\<lambda>c. (c, Delta_detail (js ''s'') JNull)) cs"
  using push_exact [OF example_reachable, of all_open JNull "js ''s''" JNull] by auto

text \<open>
  A snapshot may be older than a push that was delivered before it. The subscription of a
  session takes effect at once, and the details it is answered with are read afterwards; when an
  event arrives meanwhile, its push can overtake the answer, so that the browser gets the new details
  first and then the old ones, marked as the snapshot.
\<close>

theorem late_snapshot:
  "hb_sent (sv_hub (query_returns all_open 1 (query_returns all_open 3 (query_runs 3 (Row (Some new))
      (query_returns all_open 2 (query_runs 2 (Row None) (pushAfterIngest (js ''s'')
        (query_runs 1 (Row (Some old)) example_server))))))))
   = [(0, Delta_detail (js ''s'') new), (0, Snapshot_detail (js ''s'') old), (0, Ack (sub_ack (js ''s'')))]"
proof -
  have ex: "example_server = \<lparr>sv_hub = \<lparr>hb_subscriptions = [(0, [js ''s''])], hb_connections = [0],
        hb_sessionSubscribers = [(js ''s'', [0])], hb_sent = []\<rparr>, sv_registry = registry_run [],
      sv_threads = [(0, List_snapshot 0, None), (1, Sub_detail 0 (js ''s''), None)], sv_started = 2, sv_rejected = 0\<rparr>"
    by (simp add: example_server_def subscribe_s_def handleClientFrame_def ui_subscribe_def ui_connects_def server_new_def
        hub_new_def hub_register_def start_read_def hub_subscribe_def conn_subs_def session_set_def set_add_def)
  show ?thesis
    by (simp add: ex query_runs_def query_returns_def pushAfterIngest_def start_read_def subscriberCount_def session_set_def
        pushDetailDelta_def sendTo_def sendDetailSnapshot_def ui_ack_def sendAck_def)
qed

end
