(* ===== verification/Hook_Receiver.thy ===== *)
theory Hook_Receiver
  imports Event_Delivery
begin

text \<open>
  The HTTP end of the sidecar (\<^verbatim>\<open>src/apps/sidecar/src/hook-receiver.ts\<close>): who may speak to it, what
  a hook is answered, and how the approval gate drives the bridge. A request is numbered; its number is
  the ticket of the call of the bridge. An \<^verbatim>\<open>await\<close> of the bridge ends when the bridge settles that
  ticket, and the code behind it runs then.

  The assignment of a hook to a run is modelled in \<^verbatim>\<open>Attach_Sessions\<close>; here the resulting lineage is
  an argument, with no value when that part raised. Whether the normaliser and the sink accept the
  events of a hook is an argument too.
\<close>

section \<open>Requests and responses\<close>

record HttpRequest =
  rq_method :: jstring
  rq_url :: "jstring option"
  rq_host :: "jstring option"
  rq_origin :: "jstring option"
  rq_token :: jsval
  rq_body :: "jsval option option" \<comment> \<open>unreadable or too large; not JSON; a value\<close>

record lineage =
  ln_canonicalSessionId :: "jstring option"
  ln_providerSessionId :: "jstring option"

record ingest_env =
  ie_ingest :: bool
  ie_emit :: bool

definition LOOPBACK_HOSTS :: "jstring list" where
  "LOOPBACK_HOSTS = [js ''127.0.0.1'', js ''localhost'', js ''[::1]'', js ''::1'']"

text \<open>The rest of a string from the first occurrence of a part on, the part included.\<close>

fun from_part :: "jstring \<Rightarrow> jstring \<Rightarrow> jstring option" where
  "from_part p [] = (if p = [] then Some [] else None)"
| "from_part p (c # s) = (if js_starts_with (c # s) p then Some (c # s) else from_part p s)"

text \<open>Lower case: no other character is mapped to one of the letters of the names above.\<close>

definition js_lower :: "jstring \<Rightarrow> jstring" where
  "js_lower s = map ascii_lower s"

definition header_host :: "jstring \<Rightarrow> jstring" where
  "header_host value =
    (let host = js_trim value;
         host = (case from_part (js ''://'') host of Some r \<Rightarrow> drop 3 r | None \<Rightarrow> host)
     in if js_starts_with host (js ''['') then
          (if 93 \<in> set host then takeWhile (\<lambda>c. c \<noteq> 93) host @ [93] else [])
        else takeWhile (\<lambda>c. c \<noteq> 58) host)"

definition isLoopbackHostHeader :: "jstring option \<Rightarrow> bool" where
  "isLoopbackHostHeader value =
    (case value of None \<Rightarrow> True | Some v \<Rightarrow> js_lower (header_host v) \<in> set LOOPBACK_HOSTS)"

section \<open>The receiver\<close>

text \<open>A call of the bridge that has not been answered.\<close>

record Exchange =
  ex_input :: HookCommonInput
  ex_lineage :: lineage
  ex_requestId :: "jstring option"

datatype receiver_event =
    Responded nat nat jsval
  | Ingested nat "jstring option" bool \<comment> \<open>with the request identifier, and marked as allowed automatically\<close>
  | Resolved nat jstring "jstring option" ApprovalResult bool \<comment> \<open>session, request, decision, delivery status\<close>

record HookReceiver =
  hr_bridge :: ApprovalBridge
  hr_authToken :: "jstring option"
  hr_exchanges :: "(nat \<times> Exchange) list"
  hr_ended :: "nat list" \<comment> \<open>responses that were ended\<close>
  hr_destroyed :: "nat list" \<comment> \<open>sockets that were closed\<close>
  hr_log :: "receiver_event list"

definition receiver_new :: "bool \<Rightarrow> jstring option \<Rightarrow> ApprovalBridge \<Rightarrow> string + HookReceiver" where
  "receiver_new requireAuthToken authToken b =
    (if requireAuthToken \<and> (authToken = None \<or> authToken = Some []) then
       Inl ''HookReceiver: authToken is required in Attach mode (no unauthenticated hook ingestion)''
     else Inr \<lparr>hr_bridge = b, hr_authToken = authToken, hr_exchanges = [], hr_ended = [], hr_destroyed = [], hr_log = []\<rparr>)"

definition isAuthorized :: "HttpRequest \<Rightarrow> HookReceiver \<Rightarrow> bool" where
  "isAuthorized req rv =
    (if \<not> isLoopbackHostHeader (rq_host req) \<or> \<not> isLoopbackHostHeader (rq_origin req) then False
     else (case hr_authToken rv of None \<Rightarrow> True | Some t \<Rightarrow> tokenEquals t (rq_token req)))"

definition note_receiver :: "receiver_event list \<Rightarrow> HookReceiver \<Rightarrow> HookReceiver" where
  "note_receiver es rv = rv\<lparr>hr_log := hr_log rv @ es\<rparr>"

text \<open>
  Writing a response ends it. On a closed socket nothing arrives; on a response that was ended it
  raises, which the captured form turns into \<open>False\<close>.
\<close>

definition respond :: "nat \<Rightarrow> nat \<Rightarrow> jsval \<Rightarrow> HookReceiver \<Rightarrow> HookReceiver" where
  "respond t status body rv =
    (if t \<in> set (hr_ended rv) then rv
     else (if t \<in> set (hr_destroyed rv) then rv else note_receiver [Responded t status body] rv)
       \<lparr>hr_ended := t # hr_ended rv\<rparr>)"

definition respondCaptured :: "nat \<Rightarrow> nat \<Rightarrow> jsval \<Rightarrow> HookReceiver \<Rightarrow> bool \<times> HookReceiver" where
  "respondCaptured t status body rv =
    (if t \<in> set (hr_ended rv) \<or> t \<in> set (hr_destroyed rv) then (False, rv)
     else (True, respond t status body rv))"

section \<open>What a hook is told\<close>

definition permission_output :: "string \<Rightarrow> jsval" where
  "permission_output behavior = JObj [(js ''hookSpecificOutput'', JObj
     [(js ''hookEventName'', JStr (js ''PermissionRequest'')),
      (js ''decision'', JObj [(js ''behavior'', JStr (js behavior))])])]"

definition pretool_output :: "string \<Rightarrow> jstring \<Rightarrow> jsval" where
  "pretool_output decision reason = JObj [(js ''hookSpecificOutput'', JObj
     [(js ''hookEventName'', JStr (js ''PreToolUse'')), (js ''permissionDecision'', JStr (js decision)),
      (js ''permissionDecisionReason'', JStr reason)])]"

definition gate_output :: "HookCommonInput \<Rightarrow> string \<Rightarrow> jstring \<Rightarrow> jsval" where
  "gate_output i verdict reason =
    (if hi_hook_event_name i = js ''PermissionRequest'' then permission_output verdict
     else pretool_output verdict reason)"

definition respondApprovalFailure :: "nat \<Rightarrow> HookCommonInput \<Rightarrow> HookReceiver \<Rightarrow> HookReceiver" where
  "respondApprovalFailure t i rv =
    snd (respondCaptured t 200 (gate_output i ''deny'' (js ''ActraDeck approval gate failed closed'')) rv)"

section \<open>The approval gate\<close>

definition or_reason :: "ApprovalResult \<Rightarrow> string \<Rightarrow> jstring" where
  "or_reason r s = (case ar_reason r of Some x \<Rightarrow> x | None \<Rightarrow> js s)"

definition close_exchange :: "nat \<Rightarrow> HookReceiver \<Rightarrow> HookReceiver" where
  "close_exchange t rv = rv\<lparr>hr_exchanges := AList.delete t (hr_exchanges rv)\<rparr>"

definition resolved_session :: "Exchange \<Rightarrow> jstring" where
  "resolved_session x = (case ln_canonicalSessionId (ex_lineage x) of Some s \<Rightarrow> s | None \<Rightarrow> hi_session_id (ex_input x))"

text \<open>The code behind the \<^verbatim>\<open>await\<close> of \<^verbatim>\<open>handleApprovalGate\<close>, with the answer of the bridge.\<close>

definition gate_answered :: "ingest_env \<Rightarrow> nat \<Rightarrow> Exchange \<Rightarrow> ApprovalResult \<Rightarrow> HookReceiver \<Rightarrow> HookReceiver" where
  "gate_answered env t x decision rv0 =
    (let i = ex_input x; rv = close_exchange t rv0; pre = (hi_hook_event_name i = js ''PreToolUse'') in
     if ar_behavior decision = Defer then
       (if pre \<and> \<not> ie_ingest env then respondApprovalFailure t i rv
        else respond t 200 (JObj []) (if pre then note_receiver [Ingested t None False] rv else rv))
     else if ar_autoAllowed decision then
       (if pre \<and> \<not> ie_ingest env then respondApprovalFailure t i rv
        else respond t 200 (gate_output i ''allow'' (or_reason decision ''ActraDeck allow_for_session''))
               (if pre then note_receiver [Ingested t None True] rv else rv))
     else
       (let allowed = (ar_behavior decision = Allow) in
        case respondCaptured t 200
            (gate_output i (if allowed then ''allow'' else ''deny'') (or_reason decision ''ActraDeck approval bridge'')) rv of
          (delivered, rv1) \<Rightarrow>
            if ie_emit env then note_receiver [Resolved t (resolved_session x) (ex_requestId x) decision delivered] rv1
            else respondApprovalFailure t i rv1))"

text \<open>The bridge has settled tickets.\<close>

fun settle_gate :: "ingest_env \<Rightarrow> (nat \<times> ApprovalResult) list \<Rightarrow> HookReceiver \<Rightarrow> HookReceiver" where
  "settle_gate env [] rv = rv"
| "settle_gate env ((t, r) # outs) rv =
    settle_gate env outs
      (case map_of (hr_exchanges rv) t of None \<Rightarrow> rv | Some x \<Rightarrow> gate_answered env t x r rv)"

text \<open>
  An outcome of the bridge. The request event is ingested before the bridge arms its timer and
  registers the request, so when that raises the bridge keeps what it had before the call; the
  numbers that were drawn stay drawn.
\<close>

definition gate_outcome :: "ingest_env \<Rightarrow> nat \<Rightarrow> ApprovalBridge \<Rightarrow> Outcome \<times> ApprovalBridge \<Rightarrow> HookReceiver \<Rightarrow> HookReceiver" where
  "gate_outcome env t before result rv =
    (case map_of (hr_exchanges rv) t of
       None \<Rightarrow> rv
     | Some x \<Rightarrow>
         (case fst result of
            Settled r \<Rightarrow> gate_answered env t x r (rv\<lparr>hr_bridge := snd result\<rparr>)
          | Suspended \<Rightarrow> rv\<lparr>hr_bridge := snd result\<rparr>
          | Emitted rid reason \<Rightarrow>
              if ie_ingest env then
                note_receiver [Ingested t (Some rid) False]
                  (rv\<lparr>hr_bridge := snd result,
                      hr_exchanges := AList.update t (x\<lparr>ex_requestId := Some rid\<rparr>) (hr_exchanges rv)\<rparr>)
              else
                respondApprovalFailure t (ex_input x) (close_exchange t
                  (rv\<lparr>hr_bridge := (snd result)\<lparr>br_timers := br_timers before, br_pending := br_pending before\<rparr>\<rparr>))))"

definition handleApprovalGate ::
    "classifiers \<Rightarrow> ingest_env \<Rightarrow> nat \<Rightarrow> HookCommonInput \<Rightarrow> lineage \<Rightarrow> HookReceiver \<Rightarrow> HookReceiver" where
  "handleApprovalGate C env t i lin rv =
    gate_outcome env t (hr_bridge rv) (requestApproval C (hr_bridge rv) t i)
      (rv\<lparr>hr_exchanges := AList.update t \<lparr>ex_input = i, ex_lineage = lin, ex_requestId = None\<rparr> (hr_exchanges rv)\<rparr>)"

text \<open>The resolution of a repository, for which the bridge had to wait, has come back.\<close>

definition gate_resumes ::
    "classifiers \<Rightarrow> ingest_env \<Rightarrow> nat \<Rightarrow> (jstring \<times> jstring option) option \<Rightarrow> rat \<Rightarrow> HookReceiver \<Rightarrow> HookReceiver" where
  "gate_resumes C env t resolved now rv =
    (case requestApproval_resume C (hr_bridge rv) t resolved now of
       None \<Rightarrow> rv
     | Some result \<Rightarrow> gate_outcome env t (land (hr_bridge rv) t) result rv)"

text \<open>The client closes the connection. While the gate waits for an answer, the request is cancelled.\<close>

definition client_closes :: "ingest_env \<Rightarrow> nat \<Rightarrow> HookReceiver \<Rightarrow> HookReceiver" where
  "client_closes env t rv0 =
    (let rv = rv0\<lparr>hr_destroyed := t # hr_destroyed rv0\<rparr> in
     case map_of (hr_exchanges rv) t of
       None \<Rightarrow> rv
     | Some x \<Rightarrow>
         (case ex_requestId x of
            None \<Rightarrow> rv
          | Some rid \<Rightarrow>
              if t \<in> set (hr_ended rv) then rv
              else (case cancelPending (hr_bridge rv) rid Org_child_exit
                        (Some (js ''hook client disconnected (safe default: deny)'')) of
                      (out, b) \<Rightarrow> settle_gate env (somes [out]) (rv\<lparr>hr_bridge := b\<rparr>))))"

section \<open>A request\<close>

definition is_approval_hook :: "jstring \<Rightarrow> bool" where
  "is_approval_hook n \<longleftrightarrow> n = js ''PermissionRequest'' \<or> n = js ''PreToolUse''"

definition hook_input :: "jsval \<Rightarrow> HookCommonInput option" where
  "hook_input v =
    (case (js_string (js_get v (js ''session_id'')), js_string (js_get v (js ''hook_event_name''))) of
       (Some sid, Some ev) \<Rightarrow> Some
         \<lparr>hi_session_id = sid, hi_cwd = js_string (js_get v (js ''cwd'')),
          hi_permission_mode = js_string (js_get v (js ''permission_mode'')), hi_hook_event_name = ev,
          hi_tool_name = js_get v (js ''tool_name''), hi_tool_input = js_get v (js ''tool_input'')\<rparr>
     | _ \<Rightarrow> None)"

text \<open>
  \<^verbatim>\<open>handle\<close>, with the net of \<^verbatim>\<open>listen\<close> under it: an exception outside of an approval hook is answered
  with the empty object. A body that cannot be read leaves a closed socket.
\<close>

definition handle ::
    "classifiers \<Rightarrow> ingest_env \<Rightarrow> nat \<Rightarrow> HttpRequest \<Rightarrow> lineage option \<Rightarrow> HookReceiver \<Rightarrow> HookReceiver" where
  "handle C env t req lin rv =
    (if rq_method req \<noteq> js ''POST'' \<or> (case rq_url req of None \<Rightarrow> True | Some u \<Rightarrow> \<not> js_starts_with u (js ''/hook''))
     then respond t 404 (JObj [(js ''error'', JStr (js ''not found''))]) rv
     else if \<not> isAuthorized req rv then respond t 403 (JObj [(js ''error'', JStr (js ''forbidden''))]) rv
     else
       (case rq_body req of
          None \<Rightarrow> snd (respondCaptured t 200 (JObj []) (rv\<lparr>hr_destroyed := t # hr_destroyed rv\<rparr>))
        | Some None \<Rightarrow> respond t 200 (JObj []) rv
        | Some (Some v) \<Rightarrow>
            (case hook_input v of
               None \<Rightarrow> snd (respondCaptured t 200 (JObj []) rv)
             | Some i \<Rightarrow>
                 if is_approval_hook (hi_hook_event_name i) then
                   (case lin of
                      None \<Rightarrow> respondApprovalFailure t i rv
                    | Some l \<Rightarrow> handleApprovalGate C env t i l rv)
                 else if lin \<noteq> None \<and> ie_ingest env then
                   respond t 200 (JObj []) (note_receiver [Ingested t None False] rv)
                 else snd (respondCaptured t 200 (JObj []) rv))))"

section \<open>The receiver as a machine\<close>

datatype receiver_op =
    Rv_request nat HttpRequest "lineage option"
  | Rv_resume nat "(jstring \<times> jstring option) option" rat
  | Rv_decide jstring ApprovalDecision "jstring option" bool rat Disk
  | Rv_timeout nat
  | Rv_drain
  | Rv_closes nat
  | Rv_admin bridge_op

text \<open>Policy changes, revocations and other processes that change the files settle nothing.\<close>

fun is_admin :: "bridge_op \<Rightarrow> bool" where
  "is_admin (Op_revoke _ _ _) = True"
| "is_admin (Op_set_policy _ _) = True"
| "is_admin (Op_remove_policy _ _ _) = True"
| "is_admin (Op_disk _ _) = True"
| "is_admin _ = False"

fun receiver_step :: "classifiers \<Rightarrow> ingest_env \<Rightarrow> receiver_op \<Rightarrow> HookReceiver \<Rightarrow> HookReceiver" where
  "receiver_step C env (Rv_request t req lin) rv = handle C env t req lin rv"
| "receiver_step C env (Rv_resume t resolved now) rv = gate_resumes C env t resolved now rv"
| "receiver_step C env (Rv_decide rid dec reason persist now d) rv =
    (case resolve (hr_bridge rv) rid dec reason persist now d of
       (out, b) \<Rightarrow> settle_gate env (somes [out]) (rv\<lparr>hr_bridge := b\<rparr>))"
| "receiver_step C env (Rv_timeout t) rv =
    (case timeout_fires (hr_bridge rv) t of
       (out, b) \<Rightarrow> settle_gate env (somes [out]) (rv\<lparr>hr_bridge := b\<rparr>))"
| "receiver_step C env Rv_drain rv =
    (case drain (hr_bridge rv) of (outs, b) \<Rightarrow> settle_gate env outs (rv\<lparr>hr_bridge := b\<rparr>))"
| "receiver_step C env (Rv_closes t) rv = client_closes env t rv"
| "receiver_step C env (Rv_admin op) rv =
    (if is_admin op then rv\<lparr>hr_bridge := snd (bridge_step C (hr_bridge rv) op)\<rparr> else rv)"

end
