(* ===== verification/Receiver_Correct.thy ===== *)
theory Receiver_Correct
  imports Hook_Receiver Approval_Bridge_Correct
begin

text \<open>
  Correctness of the HTTP end of the sidecar: an approval hook is told what the bridge decided, or deny;
  every request is answered at most once; and what is recorded about the delivery of an answer is true.
\<close>

section \<open>Verdicts\<close>

definition hook_output :: "jsval \<Rightarrow> jsval" where
  "hook_output body = js_get body (js ''hookSpecificOutput'')"

definition verdicts :: "jsval \<Rightarrow> jsval list" where
  "verdicts body = [js_get (hook_output body) (js ''permissionDecision''),
     js_get (js_get (hook_output body) (js ''decision'')) (js ''behavior'')]"

text \<open>A body that gives one verdict and no other.\<close>

definition says :: "string \<Rightarrow> jsval \<Rightarrow> bool" where
  "says v body \<longleftrightarrow> filter (\<lambda>x. x \<noteq> JUndef) (verdicts body) = [JStr (js v)]"

definition agrees :: "jsval \<Rightarrow> ApprovalResult \<Rightarrow> bool" where
  "agrees body r = (case ar_behavior r of
      Allow \<Rightarrow> says ''allow'' body | Deny \<Rightarrow> says ''deny'' body | Defer \<Rightarrow> body = JObj [])"

lemma says_gate_output: "says v (gate_output i w reason) \<longleftrightarrow> v = w"
  by (auto simp: says_def verdicts_def hook_output_def gate_output_def permission_output_def pretool_output_def)

text \<open>The operation of the bridge that an operation of the receiver performs.\<close>

definition gated_input :: "HttpRequest \<Rightarrow> HookReceiver \<Rightarrow> HookCommonInput option" where
  "gated_input req rv =
    (if rq_method req = js ''POST'' \<and> (\<exists>u. rq_url req = Some u \<and> js_starts_with u (js ''/hook'')) \<and> isAuthorized req rv then
       (case rq_body req of
          Some (Some v) \<Rightarrow>
            (case hook_input v of
               Some i \<Rightarrow> if is_approval_hook (hi_hook_event_name i) then Some i else None
             | None \<Rightarrow> None)
        | _ \<Rightarrow> None)
     else None)"

fun bridge_part :: "receiver_op \<Rightarrow> HookReceiver \<Rightarrow> bridge_op option" where
  "bridge_part (Rv_request t req lin) rv =
    (case gated_input req rv of Some i \<Rightarrow> if lin = None then None else Some (Op_request t i) | None \<Rightarrow> None)"
| "bridge_part (Rv_resume t resolved now) rv = Some (Op_resume t resolved now)"
| "bridge_part (Rv_decide rid dec reason persist now d) rv = Some (Op_resolve rid dec reason persist now d)"
| "bridge_part (Rv_timeout t) rv = Some (Op_timeout t)"
| "bridge_part Rv_drain rv = Some Op_drain"
| "bridge_part (Rv_closes t) rv =
    (case map_of (hr_exchanges rv) t of
       Some x \<Rightarrow>
         (case ex_requestId x of
            Some rid \<Rightarrow> if t \<in> set (hr_ended rv) then None
              else Some (Op_cancel rid Org_child_exit (Some (js ''hook client disconnected (safe default: deny)'')))
          | None \<Rightarrow> None)
     | None \<Rightarrow> None)"
| "bridge_part (Rv_admin op) rv = (if is_admin op then Some op else None)"

definition decisions :: "classifiers \<Rightarrow> receiver_op \<Rightarrow> HookReceiver \<Rightarrow> (nat \<times> ApprovalResult) list" where
  "decisions C op rv = (case bridge_part op rv of None \<Rightarrow> [] | Some bop \<Rightarrow> fst (bridge_step C (hr_bridge rv) bop))"

section \<open>What an operation writes\<close>

definition writes :: "(nat \<Rightarrow> nat \<Rightarrow> jsval \<Rightarrow> bool) \<Rightarrow> HookReceiver \<Rightarrow> HookReceiver \<Rightarrow> bool" where
  "writes P rv rv' \<longleftrightarrow>
     (\<exists>new. hr_log rv' = hr_log rv @ new \<and> (\<forall>t s b. Responded t s b \<in> set new \<longrightarrow> P t s b))"

lemma writes_refl: "hr_log rv' = hr_log rv \<Longrightarrow> writes P rv rv'"
  by (simp add: writes_def)

lemma writes_trans: "writes P rv rv1 \<Longrightarrow> writes P rv1 rv2 \<Longrightarrow> writes P rv rv2"
  by (force simp: writes_def)

lemma writes_from: "writes P rv1 rv' \<Longrightarrow> hr_log rv1 = hr_log rv \<Longrightarrow> writes P rv rv'"
  by (simp add: writes_def)

lemma writes_mono: "writes P rv rv' \<Longrightarrow> (\<And>t s b. P t s b \<Longrightarrow> Q t s b) \<Longrightarrow> writes Q rv rv'"
  by (force simp: writes_def)

lemma writes_note: "(\<And>t s b. Responded t s b \<in> set es \<Longrightarrow> P t s b) \<Longrightarrow> writes P rv (note_receiver es rv)"
  by (auto simp: writes_def note_receiver_def)

lemma writes_note1:
  "writes P rv rv1 \<Longrightarrow> writes P rv (note_receiver [Resolved t s q r d] rv1)"
  "writes P rv rv1 \<Longrightarrow> writes P rv (note_receiver [Ingested t a b] rv1)"
  by (auto simp: writes_def note_receiver_def)

lemma writes_respond: "P t s b \<Longrightarrow> writes P rv (respond t s b rv)"
  by (auto simp: writes_def respond_def note_receiver_def)

lemma writes_captured: "P t s b \<Longrightarrow> writes P rv (snd (respondCaptured t s b rv))"
  by (auto simp: respondCaptured_def writes_respond writes_refl)

lemma writes_failure:
  "(\<And>b. says ''deny'' b \<Longrightarrow> P t 200 b) \<Longrightarrow> writes P rv (respondApprovalFailure t i rv)"
  unfolding respondApprovalFailure_def by (rule writes_captured) (simp add: says_gate_output)

lemma close_log: "hr_log (close_exchange t rv) = hr_log rv"
  by (simp add: close_exchange_def)

text \<open>An automatic permission is a permission.\<close>

definition proper :: "ApprovalResult \<Rightarrow> bool" where
  "proper r \<longleftrightarrow> (ar_autoAllowed r \<longrightarrow> ar_behavior r = Allow)"

lemma answered_writes:
  assumes "proper r" and P: "\<And>b. says ''deny'' b \<or> agrees b r \<Longrightarrow> P t 200 b"
  shows "writes P rv (gate_answered env t x r rv)"
proof -
  let ?i = "ex_input x" and ?rv = "close_exchange t rv"
  have base: "writes P rv ?rv" by (rule writes_refl) (rule close_log)
  have fail: "writes P rv1 (respondApprovalFailure t ?i rv1)" for rv1
    by (rule writes_failure) (simp add: P)
  have pre: "writes P rv (if c then note_receiver [Ingested t a b] ?rv else ?rv)" for a b c
    using base writes_trans [OF base writes_note, of "[Ingested t a b]"] by simp
  have failed: "writes P rv (respondApprovalFailure t ?i ?rv)" by (rule writes_trans [OF base fail])
  show ?thesis
  proof (cases "ar_behavior r = Defer")
    case True
    then have "writes P rv1 (respond t 200 (JObj []) rv1)" for rv1
      by (intro writes_respond P) (simp add: agrees_def)
    from writes_trans [OF pre this] show ?thesis
      using True failed by (simp add: gate_answered_def Let_def)
  next
    case nd: False
    show ?thesis
    proof (cases "ar_autoAllowed r")
      case True
      then have "ar_behavior r = Allow" using assms(1) by (simp add: proper_def)
      then have "writes P rv1 (respond t 200 (gate_output ?i ''allow'' s) rv1)" for rv1 s
        by (intro writes_respond P) (simp add: agrees_def says_gate_output)
      from writes_trans [OF pre this] show ?thesis
        using True nd failed by (simp add: gate_answered_def Let_def)
    next
      case na: False
      define o1 where "o1 = respondCaptured t 200 (gate_output ?i (if ar_behavior r = Allow then ''allow'' else ''deny'')
          (or_reason r ''ActraDeck approval bridge'')) ?rv"
      have "writes P ?rv (snd o1)"
        unfolding o1_def
        by (intro writes_captured P) (cases "ar_behavior r"; simp add: agrees_def says_gate_output)
      then have w: "writes P rv (snd o1)" using base by (rule writes_trans [rotated])
      have eq: "gate_answered env t x r rv =
          (if ie_emit env then note_receiver [Resolved t (resolved_session x) (ex_requestId x) r (fst o1)] (snd o1)
           else respondApprovalFailure t ?i (snd o1))"
        using nd na by (simp add: gate_answered_def Let_def o1_def case_prod_unfold)
      show ?thesis
        unfolding eq using writes_note1(1) [OF w] writes_trans [OF w fail] by simp
    qed
  qed
qed

lemma settle_writes:
  assumes "\<And>t r. (t, r) \<in> set outs \<Longrightarrow> proper r"
    and "\<And>t r b. (t, r) \<in> set outs \<Longrightarrow> says ''deny'' b \<or> agrees b r \<Longrightarrow> P t 200 b"
  shows "writes P rv (settle_gate env outs rv)"
  using assms
proof (induction env outs rv rule: settle_gate.induct)
  case (2 env t r outs rv)
  have "writes P rv (case map_of (hr_exchanges rv) t of None \<Rightarrow> rv | Some x \<Rightarrow> gate_answered env t x r rv)"
  proof (cases "map_of (hr_exchanges rv) t")
    case (Some x)
    have "writes P rv (gate_answered env t x r rv)"
      by (rule answered_writes) (use 2(2) [of t r] 2(3) [of t r] in auto)
    then show ?thesis by (simp add: Some)
  qed (simp add: writes_refl)
  moreover have "writes P (case map_of (hr_exchanges rv) t of None \<Rightarrow> rv | Some x \<Rightarrow> gate_answered env t x r rv)
      (settle_gate env outs (case map_of (hr_exchanges rv) t of None \<Rightarrow> rv | Some x \<Rightarrow> gate_answered env t x r rv))"
  proof (rule 2(1))
    show "proper r'" if "(t', r') \<in> set outs" for t' r'
      using 2(2) that by (meson list.set_intros(2))
    show "P t' 200 b" if "(t', r') \<in> set outs" "says ''deny'' b \<or> agrees b r'" for t' r' b
      using 2(3) that by (meson list.set_intros(2))
  qed
  ultimately show ?case by (simp add: writes_trans)
qed (simp add: writes_refl)

lemma outcome_writes:
  assumes "\<And>r. fst result = Settled r \<Longrightarrow> proper r"
    and "\<And>b. says ''deny'' b \<or> (\<exists>r. fst result = Settled r \<and> agrees b r) \<Longrightarrow> P t 200 b"
  shows "writes P rv (gate_outcome env t b0 result rv)"
proof (cases "map_of (hr_exchanges rv) t")
  case None
  then show ?thesis by (simp add: gate_outcome_def writes_refl)
next
  case (Some x)
  show ?thesis
  proof (cases "fst result")
    case (Settled r)
    have "writes P (rv\<lparr>hr_bridge := snd result\<rparr>) (gate_answered env t x r (rv\<lparr>hr_bridge := snd result\<rparr>))"
      using assms Settled by (intro answered_writes) auto
    then have "writes P rv (gate_answered env t x r (rv\<lparr>hr_bridge := snd result\<rparr>))"
      by (rule writes_from) simp
    then show ?thesis by (simp add: gate_outcome_def Some Settled)
  next
    case (Emitted rid reason)
    let ?c = "close_exchange t (rv\<lparr>hr_bridge := (snd result)\<lparr>br_timers := br_timers b0, br_pending := br_pending b0\<rparr>\<rparr>)"
    have "writes P rv ?c" by (rule writes_refl) (simp add: close_log)
    moreover have "writes P ?c (respondApprovalFailure t (ex_input x) ?c)"
      using assms(2) by (intro writes_failure) auto
    ultimately have f: "writes P rv (respondApprovalFailure t (ex_input x) ?c)" by (rule writes_trans)
    have "writes P rv (note_receiver [Ingested t (Some rid) False] (rv\<lparr>hr_bridge := snd result,
        hr_exchanges := AList.update t (x\<lparr>ex_requestId := Some rid\<rparr>) (hr_exchanges rv)\<rparr>))"
      by (rule writes_trans [OF writes_refl writes_note]) simp_all
    with f show ?thesis by (simp add: gate_outcome_def Some Emitted)
  next
    case Suspended
    then show ?thesis by (simp add: gate_outcome_def Some writes_refl)
  qed
qed

lemma request_proper: "fst (requestApproval C b t i) = Settled r \<Longrightarrow> proper r"
  by (auto simp: requestApproval_def request_policy_def request_gate_def open_request_def proper_def simple_result_def Let_def
      case_prod_unfold split: if_splits option.splits)

lemma resume_proper: "requestApproval_resume C b t resolved now = Some result \<Longrightarrow> fst result = Settled r \<Longrightarrow> proper r"
  by (auto simp: requestApproval_resume_def request_policy_def request_persist_def request_gate_def open_request_def proper_def
      simple_result_def Let_def case_prod_unfold split: if_splits option.splits Flight.splits)

lemma settled_proper:
  "(t, r) \<in> set (somes [fst (resolve b rid dec reason persist now d)]) \<Longrightarrow> proper r"
  "(t, r) \<in> set (somes [fst (cancelPending b rid org reason)]) \<Longrightarrow> proper r"
  "(t, r) \<in> set (somes [fst (timeout_fires b t')]) \<Longrightarrow> proper r"
  "(t, r) \<in> set (fst (drain b)) \<Longrightarrow> proper r"
  by (auto simp: resolve_def cancelPending_def timeout_fires_def drain_def deny_result_def proper_def Let_def
      split: option.splits)

section \<open>Fail closed\<close>

text \<open>A request that is not an approval hook of an authorised client.\<close>

definition not_gated :: "receiver_op \<Rightarrow> nat \<Rightarrow> HookReceiver \<Rightarrow> bool" where
  "not_gated op t rv \<longleftrightarrow> (\<exists>req lin. op = Rv_request t req lin \<and> gated_input req rv = None)"

lemma settle_step:
  assumes "outs = fst (bridge_step C (hr_bridge rv) bop)" "\<And>t r. (t, r) \<in> set outs \<Longrightarrow> proper r" "bridge_part op rv = Some bop"
    "hr_log rv1 = hr_log rv"
  shows "writes (\<lambda>t s b. s = 200 \<and> (says ''deny'' b \<or> (\<exists>r. (t, r) \<in> set (decisions C op rv) \<and> agrees b r)) \<or> not_gated op t rv)
    rv (settle_gate env outs rv1)"
proof -
  have "writes (\<lambda>t s b. s = 200 \<and> (says ''deny'' b \<or> (\<exists>r. (t, r) \<in> set (decisions C op rv) \<and> agrees b r)) \<or> not_gated op t rv)
    rv1 (settle_gate env outs rv1)"
    using assms(1-3) by (intro settle_writes) (auto simp: decisions_def)
  then show ?thesis using assms(4) by (rule writes_from)
qed

lemma request_writes:
  fixes C rv t req lin
  defines "op \<equiv> Rv_request t req lin"
  shows "writes (\<lambda>t s b. s = 200 \<and> (says ''deny'' b \<or> (\<exists>r. (t, r) \<in> set (decisions C op rv) \<and> agrees b r)) \<or> not_gated op t rv)
    rv (handle C env t req lin rv)" (is "writes ?P rv _")
proof (cases "gated_input req rv")
  case None
  then have P: "?P t s b" for s b by (simp add: not_gated_def op_def)
  have w: "writes ?P rv (respond t s b rv1)" "writes ?P rv (snd (respondCaptured t s b rv1))" if "hr_log rv1 = hr_log rv" for s b rv1
    using writes_from [OF writes_respond that] writes_from [OF writes_captured that] P by auto
  have n: "writes ?P rv (respond t s b (note_receiver [Ingested t q a] rv))" for s b q a
    by (rule writes_trans [OF writes_note1(2) [OF writes_refl] writes_respond]) (simp_all add: P)
  show ?thesis
    using None w n by (auto simp: handle_def gated_input_def split: option.splits if_splits)
next
  case (Some i)
  then have eq: "handle C env t req lin rv =
      (case lin of None \<Rightarrow> respondApprovalFailure t i rv | Some l \<Rightarrow> handleApprovalGate C env t i l rv)"
    by (auto simp: handle_def gated_input_def split: option.splits if_splits)
  show ?thesis
  proof (cases lin)
    case None
    then show ?thesis unfolding eq by (simp add: writes_failure)
  next
    case l: (Some l)
    let ?rv = "rv\<lparr>hr_exchanges := AList.update t \<lparr>ex_input = i, ex_lineage = l, ex_requestId = None\<rparr> (hr_exchanges rv)\<rparr>"
    have d: "decisions C op rv = outcome_out t (fst (requestApproval C (hr_bridge rv) t i))"
      by (simp add: decisions_def op_def Some l)
    have "writes ?P ?rv (gate_outcome env t (hr_bridge rv) (requestApproval C (hr_bridge rv) t i) ?rv)"
    proof (rule outcome_writes)
      show "proper r" if "fst (requestApproval C (hr_bridge rv) t i) = Settled r" for r
        using that by (rule request_proper)
      show "?P t 200 b" if "says ''deny'' b \<or> (\<exists>r. fst (requestApproval C (hr_bridge rv) t i) = Settled r \<and> agrees b r)" for b
        using that by (auto simp: d outcome_out_def)
    qed
    then have "writes ?P rv (gate_outcome env t (hr_bridge rv) (requestApproval C (hr_bridge rv) t i) ?rv)"
      by (rule writes_from) simp
    then show ?thesis unfolding eq by (simp add: l handleApprovalGate_def)
  qed
qed

lemma resume_writes:
  fixes C rv t resolved now
  defines "op \<equiv> Rv_resume t resolved now"
  shows "writes (\<lambda>t s b. s = 200 \<and> (says ''deny'' b \<or> (\<exists>r. (t, r) \<in> set (decisions C op rv) \<and> agrees b r)) \<or> not_gated op t rv)
    rv (gate_resumes C env t resolved now rv)" (is "writes ?P rv _")
proof (cases "requestApproval_resume C (hr_bridge rv) t resolved now")
  case None
  then show ?thesis by (simp add: gate_resumes_def writes_refl)
next
  case (Some result)
  have d: "decisions C op rv = outcome_out t (fst result)"
    by (simp add: decisions_def op_def Some)
  have "writes ?P rv (gate_outcome env t (land (hr_bridge rv) t) result rv)"
  proof (rule outcome_writes)
    show "proper r" if "fst result = Settled r" for r using resume_proper [OF Some that] .
    show "?P t 200 b" if "says ''deny'' b \<or> (\<exists>r. fst result = Settled r \<and> agrees b r)" for b
      using that by (auto simp: d outcome_out_def)
  qed
  then show ?thesis by (simp add: gate_resumes_def Some)
qed

lemma step_writes:
  "writes (\<lambda>t s b. s = 200 \<and> (says ''deny'' b \<or> (\<exists>r. (t, r) \<in> set (decisions C op rv) \<and> agrees b r)) \<or> not_gated op t rv)
    rv (receiver_step C env op rv)"
proof (cases op)
  case (Rv_request t req lin)
  then show ?thesis using request_writes by simp
next
  case (Rv_resume t resolved now)
  then show ?thesis using resume_writes by simp
next
  case op: (Rv_decide rid dec reason persist now d)
  show ?thesis
    unfolding op receiver_step.simps case_prod_unfold
    by (rule settle_step [of _ _ _ "Op_resolve rid dec reason persist now d"]) (simp_all add: settled_proper)
next
  case op: (Rv_timeout t)
  show ?thesis
    unfolding op receiver_step.simps case_prod_unfold
    by (rule settle_step [of _ _ _ "Op_timeout t"]) (simp_all add: settled_proper)
next
  case op: Rv_drain
  show ?thesis
    unfolding op receiver_step.simps case_prod_unfold
    by (rule settle_step [of _ _ _ "Op_drain"]) (simp_all add: settled_proper)
next
  case op: (Rv_closes t)
  show ?thesis
  proof (cases "bridge_part op rv")
    case None
    then show ?thesis
      by (auto simp: op client_closes_def Let_def split: option.splits if_splits intro!: writes_refl)
  next
    case (Some bop)
    then obtain x rid where x: "map_of (hr_exchanges rv) t = Some x" "ex_requestId x = Some rid" "t \<notin> set (hr_ended rv)"
      "bop = Op_cancel rid Org_child_exit (Some (js ''hook client disconnected (safe default: deny)''))"
      by (auto simp: op split: option.splits if_splits)
    have eq: "receiver_step C env op rv = settle_gate env (fst (bridge_step C (hr_bridge rv) bop))
        (rv\<lparr>hr_destroyed := t # hr_destroyed rv, hr_bridge := snd (bridge_step C (hr_bridge rv) bop)\<rparr>)"
      using x by (simp add: op client_closes_def Let_def case_prod_unfold)
    show ?thesis
      unfolding eq using Some x(4) by (intro settle_step [of _ _ _ bop]) (auto simp: settled_proper)
  qed
next
  case (Rv_admin bop)
  then show ?thesis by (simp add: writes_refl)
qed

section \<open>One answer, and what is recorded of it\<close>

definition responded :: "receiver_event list \<Rightarrow> nat list" where
  "responded es = concat (map (\<lambda>e. case e of Responded t _ _ \<Rightarrow> [t] | _ \<Rightarrow> []) es)"

definition recorded_ok :: "HookReceiver \<Rightarrow> nat \<Rightarrow> ApprovalResult \<Rightarrow> bool \<Rightarrow> bool" where
  "recorded_ok rv t r delivered =
    (if delivered then \<exists>b. Responded t 200 b \<in> set (hr_log rv) \<and> agrees b r
     else t \<in> set (hr_destroyed rv) \<and> t \<notin> set (responded (hr_log rv)))"

definition resolved_in :: "nat \<Rightarrow> HookReceiver \<Rightarrow> bool" where
  "resolved_in t rv \<longleftrightarrow> (\<exists>s q r d. Resolved t s q r d \<in> set (hr_log rv))"

definition receiver_inv :: "HookReceiver \<Rightarrow> bool" where
  "receiver_inv rv \<longleftrightarrow>
     distinct (responded (hr_log rv)) \<and> set (responded (hr_log rv)) \<subseteq> set (hr_ended rv)
   \<and> (\<forall>t. map_of (hr_exchanges rv) t \<noteq> None \<longrightarrow> t \<notin> set (hr_ended rv) \<and> \<not> resolved_in t rv)
   \<and> (\<forall>t s q r d. Resolved t s q r d \<in> set (hr_log rv) \<longrightarrow> t \<in> set (hr_ended rv) \<union> set (hr_destroyed rv) \<and> recorded_ok rv t r d)"

definition quiet :: "nat \<Rightarrow> HookReceiver \<Rightarrow> bool" where
  "quiet t rv \<longleftrightarrow> t \<notin> set (hr_ended rv) \<and> map_of (hr_exchanges rv) t = None \<and> \<not> resolved_in t rv"

lemma responded_simps [simp]:
  "responded (es @ es') = responded es @ responded es'" "responded [] = []"
  "responded [Responded t s b] = [t]" "responded [Ingested t q a] = []" "responded [Resolved t sid q r d] = []"
  by (simp_all add: responded_def)

lemma responded_in: "Responded t s b \<in> set es \<Longrightarrow> t \<in> set (responded es)"
  by (force simp: responded_def)

lemma inv_bridge: "receiver_inv (rv\<lparr>hr_bridge := b\<rparr>) = receiver_inv rv" "quiet t (rv\<lparr>hr_bridge := b\<rparr>) = quiet t rv"
  by (simp_all add: receiver_inv_def recorded_ok_def quiet_def resolved_in_def)

lemma inv_close:
  assumes "receiver_inv rv" "map_of (hr_exchanges rv) t = Some x"
  shows "receiver_inv (close_exchange t rv) \<and> quiet t (close_exchange t rv)"
proof -
  have m: "map_of (AList.delete t (hr_exchanges rv)) u = (if u = t then None else map_of (hr_exchanges rv) u)" for u
    by (simp add: delete_conv')
  have r: "resolved_in u (close_exchange t rv) = resolved_in u rv" "recorded_ok (close_exchange t rv) u r d = recorded_ok rv u r d" for u r d
    by (simp_all add: resolved_in_def recorded_ok_def close_exchange_def)
  show ?thesis
    using assms unfolding receiver_inv_def quiet_def r by (simp add: close_exchange_def m)
qed

lemma inv_respond:
  assumes inv: "receiver_inv rv" and q: "quiet t rv"
  shows "receiver_inv (respond t s b rv)"
proof -
  have nt: "t \<notin> set (responded (hr_log rv))" using inv q by (auto simp: receiver_inv_def quiet_def)
  have res: "resolved_in u (respond t s b rv) = resolved_in u rv" for u
    by (simp add: resolved_in_def respond_def note_receiver_def)
  have rec: "recorded_ok (respond t s b rv) u r d" if "recorded_ok rv u r d" "u \<noteq> t" for u r d
    using that by (auto simp: recorded_ok_def respond_def note_receiver_def)
  have old: "Resolved u s' q r d \<in> set (hr_log rv)" if "Resolved u s' q r d \<in> set (hr_log (respond t s b rv))" for u s' q r d
    using that by (auto simp: respond_def note_receiver_def split: if_splits)
  have nr: "\<not> resolved_in t rv" "t \<notin> set (hr_ended rv)" "map_of (hr_exchanges rv) t = None" using q by (simp_all add: quiet_def)
  show ?thesis
    unfolding receiver_inv_def
  proof (intro conjI allI impI)
    show "distinct (responded (hr_log (respond t s b rv)))"
      using inv nt by (simp add: receiver_inv_def respond_def note_receiver_def)
    show "set (responded (hr_log (respond t s b rv))) \<subseteq> set (hr_ended (respond t s b rv))"
      using inv by (auto simp: receiver_inv_def respond_def note_receiver_def)
    show "u \<notin> set (hr_ended (respond t s b rv))" "\<not> resolved_in u (respond t s b rv)"
      if "map_of (hr_exchanges (respond t s b rv)) u \<noteq> None" for u
      using inv that nr unfolding res by (auto simp: receiver_inv_def respond_def note_receiver_def split: if_splits)
    fix u s' q r d assume a: "Resolved u s' q r d \<in> set (hr_log (respond t s b rv))"
    then have "u \<noteq> t" using old [OF a] nr(1) by (auto simp: resolved_in_def)
    moreover have "u \<in> set (hr_ended rv) \<union> set (hr_destroyed rv)" "recorded_ok rv u r d"
      using inv old [OF a] by (auto simp: receiver_inv_def)
    ultimately show "u \<in> set (hr_ended (respond t s b rv)) \<union> set (hr_destroyed (respond t s b rv))" "recorded_ok (respond t s b rv) u r d"
      using rec by (auto simp: respond_def note_receiver_def)
  qed
qed

lemma inv_ingested:
  "receiver_inv rv \<Longrightarrow> receiver_inv (note_receiver [Ingested t q a] rv)"
  "quiet u rv \<Longrightarrow> quiet u (note_receiver [Ingested t q a] rv)"
  by (simp_all add: receiver_inv_def quiet_def resolved_in_def recorded_ok_def note_receiver_def)

lemma inv_failure: "receiver_inv rv \<Longrightarrow> quiet t rv \<or> t \<in> set (hr_ended rv) \<union> set (hr_destroyed rv) \<Longrightarrow> receiver_inv (respondApprovalFailure t i rv)"
  by (auto simp: respondApprovalFailure_def respondCaptured_def inv_respond)

lemma inv_resolved:
  assumes inv: "receiver_inv rv" and q: "quiet t rv" and a: "agrees b r"
  shows "receiver_inv (note_receiver [Resolved t s x r (fst (respondCaptured t 200 b rv))] (snd (respondCaptured t 200 b rv)))"
proof (cases "t \<in> set (hr_destroyed rv)")
  case True
  then have o1: "respondCaptured t 200 b rv = (False, rv)" by (simp add: respondCaptured_def)
  have "t \<notin> set (responded (hr_log rv))" using inv q by (auto simp: receiver_inv_def quiet_def)
  then show ?thesis
    using inv q True unfolding o1
    by (auto simp: receiver_inv_def quiet_def resolved_in_def recorded_ok_def note_receiver_def)
next
  case False
  with q have o1: "respondCaptured t 200 b rv = (True, respond t 200 b rv)" by (simp add: respondCaptured_def quiet_def)
  have i: "receiver_inv (respond t 200 b rv)" by (rule inv_respond [OF inv q])
  have r: "Responded t 200 b \<in> set (hr_log (respond t 200 b rv))" "t \<in> set (hr_ended (respond t 200 b rv))"
      "map_of (hr_exchanges (respond t 200 b rv)) t = None"
    using q False by (auto simp: respond_def note_receiver_def quiet_def)
  show ?thesis
    unfolding o1 fst_conv snd_conv
    using i r a by (auto simp: receiver_inv_def resolved_in_def recorded_ok_def note_receiver_def)
qed

lemma captured_done:
  "t \<in> set (hr_ended (snd (respondCaptured t s b rv))) \<union> set (hr_destroyed (snd (respondCaptured t s b rv)))"
  by (auto simp: respondCaptured_def respond_def note_receiver_def)

lemma inv_captured: "receiver_inv rv \<Longrightarrow> quiet t rv \<Longrightarrow> receiver_inv (snd (respondCaptured t s b rv))"
  by (auto simp: respondCaptured_def inv_respond)

lemma inv_answered:
  assumes inv: "receiver_inv rv" and x: "map_of (hr_exchanges rv) t = Some x" and p: "proper r"
  shows "receiver_inv (gate_answered env t x r rv)"
proof -
  let ?rv = "close_exchange t rv" and ?i = "ex_input x"
  have c: "receiver_inv ?rv" "quiet t ?rv" using inv_close [OF inv x] by auto
  have pre: "receiver_inv (if c then note_receiver [Ingested t q a] ?rv else ?rv)" "quiet t (if c then note_receiver [Ingested t q a] ?rv else ?rv)" for c q a
    using c inv_ingested by auto
  have f: "receiver_inv (respondApprovalFailure t ?i ?rv)" using c inv_failure by blast
  show ?thesis
  proof (cases "ar_behavior r = Defer \<or> ar_autoAllowed r")
    case True
    then show ?thesis
      using f inv_respond [OF pre] by (auto simp: gate_answered_def Let_def)
  next
    case False
    define b where "b = gate_output ?i (if ar_behavior r = Allow then ''allow'' else ''deny'') (or_reason r ''ActraDeck approval bridge'')"
    have a: "agrees b r" using False by (cases "ar_behavior r") (auto simp: b_def agrees_def says_gate_output)
    have eq: "gate_answered env t x r rv =
        (if ie_emit env then note_receiver [Resolved t (resolved_session x) (ex_requestId x) r (fst (respondCaptured t 200 b ?rv))]
           (snd (respondCaptured t 200 b ?rv))
         else respondApprovalFailure t ?i (snd (respondCaptured t 200 b ?rv)))"
      using False by (simp add: gate_answered_def Let_def b_def case_prod_unfold)
    have "receiver_inv (respondApprovalFailure t ?i (snd (respondCaptured t 200 b ?rv)))"
      using inv_failure [OF inv_captured [OF c]] captured_done by blast
    then show ?thesis
      unfolding eq using inv_resolved [OF c a] by simp
  qed
qed

lemma inv_settle:
  assumes "receiver_inv rv" "\<And>t r. (t, r) \<in> set outs \<Longrightarrow> proper r"
  shows "receiver_inv (settle_gate env outs rv)"
  using assms
proof (induction env outs rv rule: settle_gate.induct)
  case (2 env t r outs rv)
  have p: "proper r" using 2(3) [of t r] by simp
  have ps: "proper r'" if "(t', r') \<in> set outs" for t' r' using 2(3) that by (meson list.set_intros(2))
  have "receiver_inv (case map_of (hr_exchanges rv) t of None \<Rightarrow> rv | Some x \<Rightarrow> gate_answered env t x r rv)"
    using 2(2) p inv_answered by (auto split: option.split)
  then show ?case using 2(1) ps by simp
qed simp

lemma inv_update:
  assumes "receiver_inv rv" "t \<notin> set (hr_ended rv)" "\<not> resolved_in t rv"
  shows "receiver_inv (rv\<lparr>hr_exchanges := AList.update t x (hr_exchanges rv)\<rparr>)"
  using assms by (auto simp: receiver_inv_def resolved_in_def recorded_ok_def update_conv')

lemma inv_outcome:
  assumes inv: "receiver_inv rv" and p: "\<And>r. fst result = Settled r \<Longrightarrow> proper r"
  shows "receiver_inv (gate_outcome env t b0 result rv)"
proof (cases "map_of (hr_exchanges rv) t")
  case None
  then show ?thesis using inv by (simp add: gate_outcome_def)
next
  case (Some x)
  have open_t: "t \<notin> set (hr_ended rv)" "\<not> resolved_in t rv" using inv Some by (auto simp: receiver_inv_def)
  show ?thesis
  proof (cases "fst result")
    case (Settled r)
    then show ?thesis
      using inv_answered [of "rv\<lparr>hr_bridge := snd result\<rparr>" t x r env] inv p Some by (simp add: gate_outcome_def inv_bridge)
  next
    case (Emitted rid reason)
    have 1: "receiver_inv (note_receiver [Ingested t (Some rid) False] (rv\<lparr>hr_bridge := snd result,
        hr_exchanges := AList.update t (x\<lparr>ex_requestId := Some rid\<rparr>) (hr_exchanges rv)\<rparr>))"
      using inv_update [of "rv\<lparr>hr_bridge := snd result\<rparr>" t "x\<lparr>ex_requestId := Some rid\<rparr>"] inv open_t
      by (intro inv_ingested) (simp add: inv_bridge resolved_in_def)
    have "receiver_inv (close_exchange t (rv\<lparr>hr_bridge := b\<rparr>)) \<and> quiet t (close_exchange t (rv\<lparr>hr_bridge := b\<rparr>))" for b
      using inv Some by (intro inv_close) (simp_all add: inv_bridge)
    with 1 show ?thesis
      by (simp add: gate_outcome_def Some Emitted inv_failure)
  next
    case Suspended
    then show ?thesis using inv by (simp add: gate_outcome_def Some inv_bridge)
  qed
qed

text \<open>A request comes with a response object of its own.\<close>

fun own_response :: "receiver_op \<Rightarrow> HookReceiver \<Rightarrow> bool" where
  "own_response (Rv_request t req lin) rv \<longleftrightarrow>
     t \<notin> set (hr_ended rv) \<union> set (hr_destroyed rv) \<and> map_of (hr_exchanges rv) t = None"
| "own_response _ rv = True"

lemma inv_destroyed: "receiver_inv rv \<Longrightarrow> receiver_inv (rv\<lparr>hr_destroyed := t # hr_destroyed rv\<rparr>)"
  by (auto simp: receiver_inv_def resolved_in_def recorded_ok_def)

lemma inv_handle:
  assumes inv: "receiver_inv rv" and o: "own_response (Rv_request t req lin) rv"
  shows "receiver_inv (handle C env t req lin rv)"
proof -
  have nr: "\<not> resolved_in t rv"
    using inv o unfolding receiver_inv_def resolved_in_def own_response.simps by blast
  have q: "quiet t rv" using o nr by (simp add: quiet_def)
  have g: "receiver_inv (handleApprovalGate C env t i l rv)" for i l
    unfolding handleApprovalGate_def
    using inv_update [OF inv _ nr] o request_proper by (intro inv_outcome) auto
  have d: "snd (respondCaptured t 200 b (rv\<lparr>hr_destroyed := t # hr_destroyed rv\<rparr>)) = rv\<lparr>hr_destroyed := t # hr_destroyed rv\<rparr>" for b
    by (simp add: respondCaptured_def)
  have f: "receiver_inv (respondApprovalFailure t i rv)" for i using inv_failure inv q by blast
  show ?thesis
    unfolding handle_def d
    using g f inv_respond [OF inv q] inv_captured [OF inv q] inv_destroyed [OF inv]
      inv_respond [OF inv_ingested(1) [OF inv] inv_ingested(2) [OF q]]
    by (simp split: option.split)
qed

lemma receiver_inv_step:
  assumes inv: "receiver_inv rv" and o: "own_response op rv"
  shows "receiver_inv (receiver_step C env op rv)"
proof (cases op)
  case (Rv_request t req lin)
  then show ?thesis using inv_handle inv o by simp
next
  case (Rv_resume t resolved now)
  then show ?thesis
    using inv inv_outcome resume_proper by (auto simp: gate_resumes_def split: option.split)
next
  case (Rv_closes t)
  have "receiver_inv (rv\<lparr>hr_destroyed := t # hr_destroyed rv, hr_bridge := b\<rparr>)" for b
    using inv_bridge(1) [of b "rv\<lparr>hr_destroyed := t # hr_destroyed rv\<rparr>"] inv_destroyed [OF inv] by simp
  then show ?thesis
    using inv_destroyed [OF inv, of t] Rv_closes
    by (auto simp: client_closes_def Let_def case_prod_unfold split: option.split intro!: inv_settle dest: settled_proper(2))
qed (use inv in \<open>auto simp: case_prod_unfold inv_bridge intro!: inv_settle dest: settled_proper\<close>)

inductive receiver_reaches :: "classifiers \<Rightarrow> HookReceiver \<Rightarrow> bool" for C where
  starts: "receiver_new requireAuthToken authToken b = Inr rv \<Longrightarrow> receiver_reaches C rv"
| steps: "receiver_reaches C rv \<Longrightarrow> own_response op rv \<Longrightarrow> receiver_reaches C (receiver_step C env op rv)"

lemma reaches_inv: "receiver_reaches C rv \<Longrightarrow> receiver_inv rv"
proof (induction rule: receiver_reaches.induct)
  case (starts requireAuthToken authToken b rv)
  then show ?case
    by (auto simp: receiver_new_def receiver_inv_def resolved_in_def split: if_splits)
qed (rule receiver_inv_step)

section \<open>Properties\<close>

text \<open>
  C10. The gate fails closed. Whatever the receiver does next, in any state and whether or not the
  normaliser and the sink accept the events, it writes to an approval hook of an authorised client
  either deny, or what the bridge decided for that very call in this step: allow if the bridge
  allows, the empty object if the bridge leaves the call to the agent. So neither an exception, nor a
  closed connection, nor a time-out or shutdown lets a gated call pass.
\<close>

theorem gate_fails_closed:
  "\<exists>new. hr_log (receiver_step C env op rv) = hr_log rv @ new
    \<and> list_all (\<lambda>e. case e of
        Responded t s b \<Rightarrow> not_gated op t rv \<or> s = 200 \<and>
          (if says ''deny'' b then True
           else \<exists>r. (t, r) \<in> set (decisions C op rv) \<and>
             (ar_behavior r = Allow \<and> says ''allow'' b \<or> ar_behavior r = Defer \<and> b = JObj []))
      | _ \<Rightarrow> True) new"
proof -
  obtain new where new: "hr_log (receiver_step C env op rv) = hr_log rv @ new"
    "\<And>t s b. Responded t s b \<in> set new \<Longrightarrow>
      s = 200 \<and> (says ''deny'' b \<or> (\<exists>r. (t, r) \<in> set (decisions C op rv) \<and> agrees b r)) \<or> not_gated op t rv"
    using step_writes [of C op rv env] by (auto simp: writes_def)
  have ag: "ar_behavior r = Allow \<and> says ''allow'' b \<or> ar_behavior r = Defer \<and> b = JObj []" if "agrees b r" "\<not> says ''deny'' b" for r b
    using that by (cases "ar_behavior r") (simp_all add: agrees_def)
  have "list_all (\<lambda>e. case e of
        Responded t s b \<Rightarrow> not_gated op t rv \<or> s = 200 \<and>
          (if says ''deny'' b then True
           else \<exists>r. (t, r) \<in> set (decisions C op rv) \<and>
             (ar_behavior r = Allow \<and> says ''allow'' b \<or> ar_behavior r = Defer \<and> b = JObj []))
      | _ \<Rightarrow> True) new"
    using new(2) ag by (force simp: list_all_iff split: receiver_event.split)
  with new(1) show ?thesis by blast
qed

text \<open>
  C11. Every hook is answered at most once, and the record is honest. In every run of the receiver in
  which requests have their own response objects, no request gets two responses; a resolution that
  is recorded as sent was written to the client, with the verdict that is recorded; and one recorded as
  not sent belongs to a client that is gone and got nothing.
\<close>

theorem one_honest_answer:
  assumes "receiver_reaches C rv"
  shows "distinct (responded (hr_log rv))
    \<and> list_all (\<lambda>e. case e of Resolved t s q r delivered \<Rightarrow>
        (if delivered then \<exists>b. Responded t 200 b \<in> set (hr_log rv) \<and> agrees b r
         else t \<in> set (hr_destroyed rv) \<and> t \<notin> set (responded (hr_log rv))) | _ \<Rightarrow> True) (hr_log rv)"
  using reaches_inv [OF assms]
  by (auto simp: receiver_inv_def recorded_ok_def list_all_iff split: receiver_event.split)

definition sample_request :: HttpRequest where
  "sample_request = \<lparr>rq_method = js ''POST'', rq_url = Some (js ''/hook''), rq_host = Some (js ''127.0.0.1:4000''), rq_origin = None,
     rq_token = JUndef, rq_body = Some (Some (JObj [(js ''session_id'', JStr (js ''s'')), (js ''permission_mode'', JStr (js ''default'')),
       (js ''hook_event_name'', JStr (js ''PreToolUse'')), (js ''tool_name'', JStr (js ''Bash'')),
       (js ''tool_input'', JObj [(js ''command'', JStr (js ''rm x''))])]))\<rparr>"

definition sample_receiver :: HookReceiver where
  "sample_receiver = \<lparr>hr_bridge = sample_bridge, hr_authToken = None, hr_exchanges = [], hr_ended = [], hr_destroyed = [], hr_log = []\<rparr>"

abbreviation all_ok :: ingest_env where
  "all_ok \<equiv> \<lparr>ie_ingest = True, ie_emit = True\<rparr>"

definition sample_timed_out :: HookReceiver where
  "sample_timed_out = receiver_step sample_cl all_ok (Rv_timeout 0)
     (receiver_step sample_cl all_ok (Rv_request 0 sample_request (Some \<lparr>ln_canonicalSessionId = None, ln_providerSessionId = None\<rparr>)) sample_receiver)"

theorem one_honest_answer_witness:
  "distinct (responded (hr_log sample_timed_out))
    \<and> list_all (\<lambda>e. case e of Resolved t s q r delivered \<Rightarrow>
        (if delivered then \<exists>b. Responded t 200 b \<in> set (hr_log sample_timed_out) \<and> agrees b r
         else t \<in> set (hr_destroyed sample_timed_out) \<and> t \<notin> set (responded (hr_log sample_timed_out))) | _ \<Rightarrow> True) (hr_log sample_timed_out)"
proof (rule one_honest_answer)
  have "receiver_reaches sample_cl sample_receiver"
    by (rule receiver_reaches.starts [of False None sample_bridge]) (simp add: receiver_new_def sample_receiver_def)
  then show "receiver_reaches sample_cl sample_timed_out"
    unfolding sample_timed_out_def
    by (intro receiver_reaches.steps) (simp_all add: sample_receiver_def)
qed

end
