(* ===== verification/Shell_Lexer.thy ===== *)
theory Shell_Lexer
  imports Approval_Bridge
begin

text \<open>
  How the sidecar reads a shell command (\<^verbatim>\<open>src/apps/sidecar/src/normalize.ts\<close>): where it is cut into
  simple commands, what the words of those are, and where substitutions begin and end. The risk of
  a command is judged on the result.

  A position in a string is kept as the characters before it, the last one first, and the characters
  from it on. A scanner that returns an index in the source returns here how many characters it reads;
  its results \<open>0\<close> and \<open>-1\<close> are the constructors \<open>No_span\<close> and \<open>Unterminated\<close>.
\<close>

section \<open>Characters\<close>

abbreviation TAB :: nat where "TAB \<equiv> 9"
abbreviation NL :: nat where "NL \<equiv> 10"
abbreviation SPACE :: nat where "SPACE \<equiv> 32"
abbreviation DQUOTE :: nat where "DQUOTE \<equiv> 34"
abbreviation HASH :: nat where "HASH \<equiv> 35"
abbreviation DOLLAR :: nat where "DOLLAR \<equiv> 36"
abbreviation AMP :: nat where "AMP \<equiv> 38"
abbreviation SQUOTE :: nat where "SQUOTE \<equiv> 39"
abbreviation LPAREN :: nat where "LPAREN \<equiv> 40"
abbreviation RPAREN :: nat where "RPAREN \<equiv> 41"
abbreviation DASH :: nat where "DASH \<equiv> 45"
abbreviation SEMI :: nat where "SEMI \<equiv> 59"
abbreviation LT :: nat where "LT \<equiv> 60"
abbreviation GT :: nat where "GT \<equiv> 62"
abbreviation BSLASH :: nat where "BSLASH \<equiv> 92"
abbreviation BTICK :: nat where "BTICK \<equiv> 96"
abbreviation LBRACE :: nat where "LBRACE \<equiv> 123"
abbreviation BAR :: nat where "BAR \<equiv> 124"
abbreviation RBRACE :: nat where "RBRACE \<equiv> 125"

definition digit :: "nat \<Rightarrow> bool" where
  "digit c \<longleftrightarrow> 48 \<le> c \<and> c \<le> 57"

definition isBlank :: "nat \<Rightarrow> bool" where
  "isBlank c \<longleftrightarrow> c = SPACE \<or> c = TAB"

definition isWordBoundaryChar :: "nat \<Rightarrow> bool" where
  "isWordBoundaryChar c \<longleftrightarrow> js_space c \<or> c \<in> {SEMI, BAR, AMP, LT, GT}"

definition isWhitespaceBoundaryChar :: "nat \<Rightarrow> bool" where
  "isWhitespaceBoundaryChar c = js_space c"

text \<open>The characters at the next positions, \<^verbatim>\<open>command[i + k]\<close>; none past the end.\<close>

definition char_at :: "jstring \<Rightarrow> nat \<Rightarrow> nat option" where
  "char_at r k = (if k < length r then Some (r ! k) else None)"

definition FD_SCAN_LIMIT :: nat where
  "FD_SCAN_LIMIT = 64"

definition MAX_ANALYZABLE_COMMAND_LEN :: nat where
  "MAX_ANALYZABLE_COMMAND_LEN = 16 * 1024"

definition SUBSTITUTION_SCAN_LIMIT :: nat where
  "SUBSTITUTION_SCAN_LIMIT = MAX_ANALYZABLE_COMMAND_LEN"

definition MAX_SUBSTITUTION_SCAN_FAILURES :: nat where
  "MAX_SUBSTITUTION_SCAN_FAILURES = 8"

section \<open>Cutting without regard to quotes\<close>

text \<open>
  The regular expression of \<^verbatim>\<open>splitSegmentsQuoteUnaware\<close>, tried at one position: the length of the
  separator there, or zero. Its alternatives are tried in their order, and a look-behind sees the
  character before the position also when that belongs to a separator.
\<close>

definition legacy_separator :: "jstring \<Rightarrow> jstring \<Rightarrow> nat" where
  "legacy_separator b r =
    (let prev = char_at b 0; c = char_at r 0; c1 = char_at r 1; c2 = char_at r 2;
         redirect = (prev = Some LT \<or> prev = Some GT);
         fd = (case prev of None \<Rightarrow> False | Some p \<Rightarrow> digit p \<or> p = AMP)
     in if c = Some SEMI \<or> c = Some NL then 1
        else if c = Some BAR then (if c1 = Some BAR then 2 else 1)
        else if c = Some AMP then
          (if redirect then 0 else if c1 = Some AMP then 2 else if c1 = Some GT then 0 else 1)
        else if c = Some GT then
          (if fd then 0 else if c1 = Some GT \<and> c2 \<noteq> Some AMP then 2 else if c1 = Some AMP then 0 else 1)
        else if c = Some LT then
          (if c1 = Some LT \<and> c2 = Some LT then 3
           else if c1 = Some LT \<and> c2 \<noteq> Some AMP then 2 else if c1 = Some AMP then 0 else 1)
        else 0)"

lemma legacy_separator_pos: "0 < legacy_separator b r \<Longrightarrow> r \<noteq> []"
  by (auto simp: legacy_separator_def char_at_def Let_def)

text \<open>\<open>piece\<close> is the piece under way, the last character first.\<close>

function legacy_split :: "jstring \<Rightarrow> jstring \<Rightarrow> jstring \<Rightarrow> jstring list" where
  "legacy_split b r piece =
    (if r = [] then [rev piece]
     else let n = legacy_separator b r in
       if 0 < n then rev piece # legacy_split (rev (take n r) @ b) (drop n r) []
       else legacy_split (hd r # b) (tl r) (hd r # piece))"
  by pat_completeness auto
termination by (relation "measure (\<lambda>(b, r, piece). length r)") auto

declare legacy_split.simps [simp del]

definition splitSegmentsQuoteUnaware :: "jstring \<Rightarrow> jstring list" where
  "splitSegmentsQuoteUnaware command = filter (\<lambda>s. s \<noteq> []) (map js_trim (legacy_split [] command []))"

definition splitSegmentsUnparseable :: "jstring \<Rightarrow> jstring list" where
  "splitSegmentsUnparseable command =
    (let legacy = splitSegmentsQuoteUnaware command; whole = js_trim command
     in if whole = [] then legacy else if legacy = [whole] then legacy else legacy @ [whole])"

section \<open>Quotes\<close>

datatype span = No_span | Unterminated | Span nat

text \<open>How many characters up to and including the closing one.\<close>

fun close_quote :: "bool \<Rightarrow> nat \<Rightarrow> jstring \<Rightarrow> nat option" where
  "close_quote escapes q [] = None"
| "close_quote escapes q (c # s) =
    (if escapes \<and> c = BSLASH then
       (case s of [] \<Rightarrow> None | _ # s' \<Rightarrow> map_option (\<lambda>n. n + 2) (close_quote escapes q s'))
     else if c = q then Some 1
     else map_option Suc (close_quote escapes q s))"

definition dollarPairsIntoPid :: "jstring \<Rightarrow> bool" where
  "dollarPairsIntoPid b =
    (let run = Suc (length (takeWhile (\<lambda>c. c = DOLLAR) b));
         backslashes = length (takeWhile (\<lambda>c. c = BSLASH) (dropWhile (\<lambda>c. c = DOLLAR) b));
         run = (if odd backslashes then run - 1 else run)
     in even run)"

definition to_span :: "nat \<Rightarrow> nat option \<Rightarrow> span" where
  "to_span k r = (case r of None \<Rightarrow> Unterminated | Some n \<Rightarrow> Span (k + n))"

definition quoteSpanEnd :: "jstring \<Rightarrow> jstring \<Rightarrow> span" where
  "quoteSpanEnd b r =
    (case r of [] \<Rightarrow> No_span
     | c # s \<Rightarrow>
         (let dollar = (c = DOLLAR \<and> (char_at s 0 = Some SQUOTE \<or> char_at s 0 = Some DQUOTE));
              opening = (if dollar then hd s else c)
          in if opening \<noteq> SQUOTE \<and> opening \<noteq> DQUOTE then No_span
             else if dollar \<and> dollarPairsIntoPid b then No_span
             else if dollar then to_span 2 (close_quote True opening (tl s))
             else to_span 1 (close_quote (opening = DQUOTE) opening s)))"

definition ANSI_C_ESCAPES :: "nat \<Rightarrow> nat" where
  "ANSI_C_ESCAPES c = (if c = 110 then NL else if c = 116 then TAB else if c = 114 then 13 else c)"

fun unescape_body :: "bool \<Rightarrow> jstring \<Rightarrow> jstring" where
  "unescape_body dollar [] = []"
| "unescape_body dollar [c] = [c]"
| "unescape_body dollar (c # d # s) =
    (if c \<noteq> BSLASH then c # unescape_body dollar (d # s)
     else if dollar then ANSI_C_ESCAPES d # unescape_body dollar s
     else if d \<in> {DOLLAR, BTICK, DQUOTE, BSLASH, NL} then d # unescape_body dollar s
     else c # unescape_body dollar (d # s))"

text \<open>The argument is the text of the span.\<close>

definition quotedSpanLiteral :: "jstring \<Rightarrow> jstring" where
  "quotedSpanLiteral sp =
    (let dollar = (char_at sp 0 = Some DOLLAR);
         opening = (if dollar then char_at sp 1 else char_at sp 0);
         body = butlast (drop (if dollar then 2 else 1) sp)
     in if opening = Some SQUOTE \<and> \<not> dollar then body else unescape_body dollar body)"

section \<open>Substitutions\<close>

text \<open>\<open>quote\<close> is the quote the scan is in; parentheses count outside of quotes only.\<close>

fun close_paren :: "nat option \<Rightarrow> int \<Rightarrow> jstring \<Rightarrow> nat option" where
  "close_paren quote depth [] = None"
| "close_paren quote depth (ch # s) =
    (if quote = Some SQUOTE then
       map_option Suc (close_paren (if ch = SQUOTE then None else quote) depth s)
     else if ch = BSLASH then
       (case s of [] \<Rightarrow> None | _ # s' \<Rightarrow> map_option (\<lambda>n. n + 2) (close_paren quote depth s'))
     else if quote = Some DQUOTE then
       map_option Suc (close_paren (if ch = DQUOTE then None else quote) depth s)
     else if ch = SQUOTE \<or> ch = DQUOTE then map_option Suc (close_paren (Some ch) depth s)
     else if ch = LPAREN then map_option Suc (close_paren quote (depth + 1) s)
     else if ch = RPAREN then
       (if depth - 1 = 0 then Some 1 else map_option Suc (close_paren quote (depth - 1) s))
     else map_option Suc (close_paren quote depth s))"

definition substitutionEnd :: "jstring \<Rightarrow> span" where
  "substitutionEnd r =
    (case r of [] \<Rightarrow> No_span
     | c # s \<Rightarrow>
         if c = BTICK then to_span 1 (close_quote True BTICK (take SUBSTITUTION_SCAN_LIMIT s))
         else if (c = DOLLAR \<or> c = LT \<or> c = GT) \<and> char_at s 0 = Some LPAREN then
           to_span 1 (close_paren None 0 (take SUBSTITUTION_SCAN_LIMIT s))
         else No_span)"

definition hasCommandSubstitution :: "jstring \<Rightarrow> bool" where
  "hasCommandSubstitution s \<longleftrightarrow> js_includes s (js ''$('') \<or> js_includes s (js ''`'')"

definition hasProcessSubstitution :: "jstring \<Rightarrow> bool" where
  "hasProcessSubstitution s \<longleftrightarrow> js_includes s (js ''<('') \<or> js_includes s (js ''>('')"

definition hasExecutableSubstitution :: "jstring \<Rightarrow> bool" where
  "hasExecutableSubstitution s \<longleftrightarrow> hasProcessSubstitution s \<or> hasCommandSubstitution s"

subsection \<open>Bounds of the scanners\<close>

definition scan_within :: "nat \<Rightarrow> nat option \<Rightarrow> bool" where
  "scan_within k r = (case r of None \<Rightarrow> True | Some n \<Rightarrow> 0 < n \<and> n \<le> k)"

lemma scan_within_simps [simp]:
  "scan_within k None" "scan_within k (Some n) = (0 < n \<and> n \<le> k)"
  "scan_within k r \<Longrightarrow> scan_within (Suc k) (map_option Suc r)"
  "scan_within k r \<Longrightarrow> scan_within (Suc (Suc k)) (map_option (\<lambda>n. Suc (Suc n)) r)"
  by (auto simp: scan_within_def split: option.splits)

lemma close_quote_bounds: "scan_within (length s) (close_quote e q s)"
proof (induction e q s rule: close_quote.induct)
  case (2 e q c s)
  then show ?case by (cases s) auto
qed simp

lemma close_paren_bounds: "scan_within (length s) (close_paren q d s)"
proof (induction q d s rule: close_paren.induct)
  case (2 q d c s)
  then show ?case by (cases s) auto
qed simp

lemma to_span_Span: "to_span k r = Span n \<longleftrightarrow> (\<exists>m. r = Some m \<and> n = k + m)"
  by (auto simp: to_span_def split: option.splits)

lemma to_span_None [simp]: "to_span k None = Unterminated"
  by (simp add: to_span_def)

lemma to_span_bounds: "to_span k r = Span n \<Longrightarrow> scan_within m r \<Longrightarrow> k < n \<and> n \<le> k + m"
  by (auto simp: to_span_Span)

lemma quote_span_bounds: "quoteSpanEnd b r = Span n \<Longrightarrow> 2 \<le> n \<and> n \<le> length r"
  by (auto simp: quoteSpanEnd_def Let_def char_at_def split: list.splits if_splits
      dest!: to_span_bounds [OF _ close_quote_bounds])

lemma substitution_bounds: "substitutionEnd r = Span n \<Longrightarrow> 2 \<le> n \<and> n \<le> length r"
  by (auto simp: substitutionEnd_def split: list.splits if_splits
      dest!: to_span_bounds [OF _ close_quote_bounds] to_span_bounds [OF _ close_paren_bounds])

section \<open>Words\<close>

record WordScan =
  ws_length :: nat
  ws_unterminated :: bool
  ws_literal :: jstring
  ws_escaped :: bool
  ws_failures :: nat \<comment> \<open>the budget afterwards\<close>

definition word_stop :: "bool \<Rightarrow> nat \<Rightarrow> WordScan" where
  "word_stop u failures = \<lparr>ws_length = 0, ws_unterminated = u, ws_literal = [], ws_escaped = False, ws_failures = failures\<rparr>"

text \<open>A round of the loop of \<^verbatim>\<open>readWord\<close> has read \<open>n\<close> characters that stand for \<open>lit\<close>; \<open>w\<close> is what the rounds after it read.\<close>

definition word_more :: "nat \<Rightarrow> jstring \<Rightarrow> bool \<Rightarrow> WordScan \<Rightarrow> WordScan" where
  "word_more n lit esc w =
    w\<lparr>ws_length := n + ws_length w, ws_literal := lit @ ws_literal w, ws_escaped := (esc \<or> ws_escaped w)\<rparr>"

lemma word_more_simps [simp]:
  "ws_length (word_more n l e w) = n + ws_length w" "ws_literal (word_more n l e w) = l @ ws_literal w"
  "ws_unterminated (word_more n l e w) = ws_unterminated w" "ws_failures (word_more n l e w) = ws_failures w"
  "ws_escaped (word_more n l e w) = (e \<or> ws_escaped w)"
  by (simp_all add: word_more_def)

lemma word_stop_simps [simp]:
  "ws_length (word_stop u f) = 0" "ws_literal (word_stop u f) = []" "ws_unterminated (word_stop u f) = u"
  "ws_failures (word_stop u f) = f" "ws_escaped (word_stop u f) = False"
  by (simp_all add: word_stop_def)

definition budgeted :: "nat \<Rightarrow> span \<Rightarrow> span" where
  "budgeted failures sp = (if failures < MAX_SUBSTITUTION_SCAN_FAILURES then sp else No_span)"

lemma budgeted_bounds:
  "budgeted f (quoteSpanEnd b r) = Span n \<Longrightarrow> 2 \<le> n \<and> n \<le> length r"
  "budgeted f (substitutionEnd r) = Span n \<Longrightarrow> 2 \<le> n \<and> n \<le> length r" for b r n
  by (auto simp: budgeted_def split: if_splits dest: quote_span_bounds substitution_bounds)

function readWord :: "(nat \<Rightarrow> bool) \<Rightarrow> jstring \<Rightarrow> jstring \<Rightarrow> nat \<Rightarrow> WordScan" where
  "readWord atBoundary b [] failures = word_stop False failures"
| "readWord atBoundary b (c # s) failures =
    (if c = BSLASH \<and> s \<noteq> [] then
       word_more 2 [hd s] True (readWord atBoundary (hd s # c # b) (tl s) failures)
     else case budgeted failures (quoteSpanEnd b (c # s)) of
       Unterminated \<Rightarrow> word_stop True (failures + 1)
     | Span n \<Rightarrow> word_more n (quotedSpanLiteral (take n (c # s))) False
         (readWord atBoundary (rev (take n (c # s)) @ b) (drop n (c # s)) failures)
     | No_span \<Rightarrow>
         (case budgeted failures (substitutionEnd (c # s)) of
            Unterminated \<Rightarrow> word_stop True (failures + 1)
          | Span n \<Rightarrow> word_more n (take n (c # s)) False
              (readWord atBoundary (rev (take n (c # s)) @ b) (drop n (c # s)) failures)
          | No_span \<Rightarrow>
              if atBoundary c then word_stop False failures
              else word_more 1 [c] False (readWord atBoundary (c # b) s failures)))"
  by pat_completeness auto
termination
  by (relation "measure (\<lambda>(a, b, r, f). length r)")
    (auto dest: budgeted_bounds)

lemma readWord_length: "ws_length (readWord a b r f) \<le> length r"
proof (induction a b r f rule: readWord.induct)
  case (2 a b c s f)
  have escape: "c = BSLASH \<Longrightarrow> s \<noteq> [] \<Longrightarrow> 2 + ws_length (readWord a (hd s # c # b) (tl s) f) \<le> length (c # s)"
    using 2(1) by (cases s) auto
  show ?case
    using escape 2(2-) budgeted_bounds(1) [of f b "c # s"] budgeted_bounds(2) [of f "c # s"]
    by (auto split: span.splits)
qed simp

function segmentWords :: "jstring \<Rightarrow> jstring \<Rightarrow> nat \<Rightarrow> WordScan list" where
  "segmentWords b [] failures = []"
| "segmentWords b (c # s) failures =
    (if isWhitespaceBoundaryChar c then segmentWords (c # b) s failures
     else let word = readWord isWhitespaceBoundaryChar b (c # s) failures;
              n = (if ws_unterminated word then ws_length word + 1
                   else if 0 < ws_length word then ws_length word else 1)
          in word # segmentWords (rev (take n (c # s)) @ b) (drop n (c # s)) (ws_failures word))"
  by pat_completeness auto
termination by (relation "measure (\<lambda>(b, r, f). length r)") auto

declare readWord.simps [simp del] segmentWords.simps [simp del]

definition tokenize :: "jstring \<Rightarrow> jstring list" where
  "tokenize segment = filter (\<lambda>w. w \<noteq> []) (map ws_literal (segmentWords [] segment 0))"

definition name_start :: "nat \<Rightarrow> bool" where
  "name_start c \<longleftrightarrow> 65 \<le> c \<and> c \<le> 90 \<or> 97 \<le> c \<and> c \<le> 122 \<or> c = 95"

definition name_char :: "nat \<Rightarrow> bool" where
  "name_char c \<longleftrightarrow> name_start c \<or> digit c"

definition ASSIGNMENT_TOKEN_RE :: "jstring \<Rightarrow> bool" where
  "ASSIGNMENT_TOKEN_RE s \<longleftrightarrow> (case s of [] \<Rightarrow> False | c # _ \<Rightarrow> name_start c \<and> char_at (dropWhile name_char s) 0 = Some 61)"

definition hasEscapedProgramWord :: "jstring \<Rightarrow> bool" where
  "hasEscapedProgramWord segment =
    (case filter (\<lambda>w. \<not> ASSIGNMENT_TOKEN_RE (ws_literal w)) (segmentWords [] segment 0) of
       [] \<Rightarrow> False | w # _ \<Rightarrow> ws_escaped w)"

text \<open>
  \<^verbatim>\<open>toLowerCase\<close>, up to letters outside ASCII with a lower-case form outside ASCII: of the others,
  the Kelvin sign becomes \<open>k\<close> and the capital I with a dot becomes \<open>i\<close> and a combining dot.
\<close>

definition lower_char :: "nat \<Rightarrow> jstring" where
  "lower_char c = (if c = 8490 then [107] else if c = 304 then [105, 775] else [ascii_lower c])"

definition to_lower :: "jstring \<Rightarrow> jstring" where
  "to_lower s = concat (map lower_char s)"

definition commandName :: "jstring list \<Rightarrow> jstring" where
  "commandName tokens =
    (case tokens of [] \<Rightarrow> [] | first # _ \<Rightarrow> to_lower (List.last (js_split 47 first)))"

section \<open>Cutting a command\<close>

definition redirectOperatorLength :: "jstring \<Rightarrow> nat" where
  "redirectOperatorLength r =
    (let c = char_at r 0; next = char_at r 1 in
     if c = Some AMP then (if next = Some GT then (if char_at r 2 = Some GT then 3 else 2) else 0)
     else if c = Some GT then (if next = Some GT \<or> next = Some AMP \<or> next = Some BAR then 2 else 1)
     else if c = Some LT then
       (if next = Some LT then 0 else if next = Some AMP \<or> next = Some GT then 2 else 1)
     else 0)"

definition startsComment :: "jstring \<Rightarrow> bool \<Rightarrow> jstring \<Rightarrow> bool" where
  "startsComment b escaped r \<longleftrightarrow> char_at r 0 = Some HASH \<and> \<not> escaped \<and>
     (case b of [] \<Rightarrow> True | previous # _ \<Rightarrow> isWordBoundaryChar previous)"

text \<open>
  The substitutions a command runs, with the positions where they start: \<open>process\<close> for those of the form
  \<^verbatim>\<open><(\<close> and \<^verbatim>\<open>>(\<close>, which no quotes contain, and otherwise \<^verbatim>\<open>$(\<close> and back-ticks, which double quotes may contain.
\<close>

record Collected =
  co_inners :: "jstring list"
  co_starts :: "nat list"
  co_aborted :: bool
  co_capExhausted :: bool

definition collected_end :: "bool \<Rightarrow> bool \<Rightarrow> Collected" where
  "collected_end aborted cap = \<lparr>co_inners = [], co_starts = [], co_aborted = aborted, co_capExhausted = cap\<rparr>"

function collect_loop ::
    "bool \<Rightarrow> nat \<Rightarrow> jstring \<Rightarrow> jstring \<Rightarrow> bool \<Rightarrow> bool \<Rightarrow> nat \<Rightarrow> Collected" where
  "collect_loop process i b [] inDouble escaped failures = collected_end inDouble False"
| "collect_loop process i b (c # s) inDouble escaped failures =
    (let r = c # s;
         literal = (if \<not> inDouble \<and> (process \<or> c = SQUOTE \<or> c = DOLLAR \<and> char_at s 0 = Some SQUOTE)
                    then quoteSpanEnd b r else No_span);
         opens = (if process then (c = LT \<or> c = GT) \<and> char_at s 0 = Some LPAREN
                  else c = DOLLAR \<and> char_at s 0 = Some LPAREN \<or> c = BTICK);
         width = (if c = BTICK then 1 else 2)
     in if c = BSLASH \<and> s \<noteq> [] then collect_loop process (i + 2) (hd s # c # b) (tl s) inDouble True failures
        else if inDouble \<and> c = DQUOTE then collect_loop process (i + 1) (c # b) s False False failures
        else if \<not> inDouble \<and> startsComment b escaped r then
          (let n = length (takeWhile (\<lambda>c. c \<noteq> NL) r) in
           if n = length r then collected_end False False
           else collect_loop process (i + Suc n) (rev (take (Suc n) r) @ b) (drop (Suc n) r) inDouble False failures)
        else case literal of
          Unterminated \<Rightarrow> collected_end True False
        | Span n \<Rightarrow> collect_loop process (i + n) (rev (take n r) @ b) (drop n r) inDouble False failures
        | No_span \<Rightarrow>
            if \<not> inDouble \<and> (c = DQUOTE \<or> c = DOLLAR \<and> char_at s 0 = Some DQUOTE) then
              (let n = (if c = DOLLAR then 2 else 1) in
               collect_loop process (i + n) (rev (take n r) @ b) (drop n r) True False failures)
            else if opens then
              (case substitutionEnd r of
                 Span n \<Rightarrow>
                   (let found = collect_loop process (i + n) (rev (take n r) @ b) (drop n r) inDouble False failures
                    in found\<lparr>co_inners := butlast (drop width (take n r)) # co_inners found, co_starts := i # co_starts found\<rparr>)
               | _ \<Rightarrow>
                   if failures + 1 \<ge> MAX_SUBSTITUTION_SCAN_FAILURES then collected_end True True
                   else (collect_loop process (i + width) (rev (take width r) @ b) (drop width r) inDouble False (failures + 1))
                          \<lparr>co_aborted := True\<rparr>)
            else collect_loop process (i + 1) (c # b) s inDouble False failures)"
  by pat_completeness auto
termination
  by (relation "measure (\<lambda>(p, i, b, r, d, e, f). length r)")
    (auto split: if_splits dest: quote_span_bounds [OF sym] substitution_bounds)

declare collect_loop.simps [simp del]

definition collectSubstitutionInners :: "jstring \<Rightarrow> bool \<Rightarrow> Collected" where
  "collectSubstitutionInners s process = collect_loop process 0 [] s False False 0"

definition hasLiveCommandSubstitution :: "jstring \<Rightarrow> bool" where
  "hasLiveCommandSubstitution segment =
    (if \<not> hasCommandSubstitution segment then False
     else let c = collectSubstitutionInners segment False in co_starts c \<noteq> [] \<or> co_aborted c)"

text \<open>Substitutions that are expanded in the body of a here-document: quotes are data there.\<close>

function heredocBodySubstitutions :: "jstring \<Rightarrow> jstring list option" where
  "heredocBodySubstitutions [] = Some []"
| "heredocBodySubstitutions (c # s) =
    (if c = BSLASH \<and> s \<noteq> [] then heredocBodySubstitutions (tl s)
     else if c = DOLLAR \<and> char_at s 0 = Some LPAREN \<or> c = BTICK then
       (case substitutionEnd (c # s) of
          Span n \<Rightarrow> map_option (\<lambda>found. take n (c # s) # found) (heredocBodySubstitutions (drop n (c # s)))
        | _ \<Rightarrow> None)
     else heredocBodySubstitutions s)"
  by pat_completeness auto
termination by (relation "measure length") (auto dest: substitution_bounds)

declare heredocBodySubstitutions.simps [simp del]

record PendingHeredoc =
  hd_delimiter :: jstring
  hd_quoted :: bool
  hd_stripTabs :: bool

text \<open>What is kept of a body, and how many characters are read up to the line after the delimiter.\<close>

function heredoc_body :: "PendingHeredoc \<Rightarrow> jstring \<Rightarrow> jstring \<times> nat" where
  "heredoc_body h r =
    (let line = takeWhile (\<lambda>c. c \<noteq> NL) r; after = dropWhile (\<lambda>c. c \<noteq> NL) r;
         compare = (if hd_stripTabs h then dropWhile (\<lambda>c. c = TAB) line else line);
         kept = (if hd_quoted h then [] else NL # line)
     in if compare = hd_delimiter h then ([], length line + (if after = [] then 0 else 1))
        else if after = [] then (kept, length line)
        else (case heredoc_body h (tl after) of (body, n) \<Rightarrow> (kept @ body, length line + 1 + n)))"
  by pat_completeness auto
termination
proof (relation "measure (\<lambda>(h, r). length r)")
  fix h :: PendingHeredoc and r line after :: jstring
  assume "after = dropWhile (\<lambda>c. c \<noteq> NL) r" "after \<noteq> []"
  then have "0 < length after" "length after \<le> length r"
    by (simp_all add: length_dropWhile_le)
  then show "((h, tl after), h, r) \<in> measure (\<lambda>(h, r). length r)" by (cases after) auto
qed simp

declare heredoc_body.simps [simp del]

fun heredoc_bodies :: "PendingHeredoc list \<Rightarrow> jstring \<Rightarrow> jstring \<times> nat" where
  "heredoc_bodies [] r = ([], 0)"
| "heredoc_bodies (h # hs) r =
    (case heredoc_body h r of (body, n) \<Rightarrow>
       case heredoc_bodies hs (drop n r) of (bodies, m) \<Rightarrow> (body @ bodies, n + m))"

text \<open>The local variables of \<^verbatim>\<open>splitSegments\<close>; \<open>sp_escaped\<close> is \<^verbatim>\<open>escapePairEnd === i\<close>.\<close>

record split_state =
  sp_segments :: "jstring list"
  sp_current :: jstring
  sp_escaped :: bool
  sp_elided :: "jstring list"
  sp_heredocs :: "PendingHeredoc list"

definition sp_push :: "split_state \<Rightarrow> split_state" where
  "sp_push st = st
    \<lparr>sp_segments := (if js_trim (sp_current st) = [] then sp_segments st else sp_segments st @ [js_trim (sp_current st)]),
     sp_current := []\<rparr>"

definition FD_VAR_NAME_RE :: "jstring \<Rightarrow> bool" where
  "FD_VAR_NAME_RE s \<longleftrightarrow> (case s of [] \<Rightarrow> False | c # t \<Rightarrow> name_start c \<and> list_all name_char t)"

definition not_in_word :: "jstring \<Rightarrow> bool" where
  "not_in_word prior \<longleftrightarrow> (case prior of [] \<Rightarrow> True | c # _ \<Rightarrow> isWordBoundaryChar c)"

definition stripFdPrefix :: "jstring \<Rightarrow> jstring" where
  "stripFdPrefix current =
    (let rc = rev current in
     if current = [] then current
     else if hd rc = RBRACE then
       (let name = takeWhile (\<lambda>c. c \<noteq> LBRACE) (tl rc); prior = drop (length name + 2) rc in
        if LBRACE \<notin> set (take (FD_SCAN_LIMIT - 1) (tl rc)) then current
        else if \<not> FD_VAR_NAME_RE (rev name) then current
        else if \<not> not_in_word prior then current
        else rev prior)
     else
       (let digits = takeWhile digit (take FD_SCAN_LIMIT rc); prior = drop (length digits) rc in
        if digits = [] then current else if \<not> not_in_word prior then current else rev prior))"

text \<open>The target of a redirection: the number of characters from the end of the operator on.\<close>

definition targetEnd :: "jstring \<Rightarrow> jstring \<Rightarrow> nat option" where
  "targetEnd b r =
    (let blanks = takeWhile isBlank r;
         w = readWord isWordBoundaryChar (rev blanks @ b) (drop (length blanks) r) 0
     in if ws_unterminated w then None else Some (length blanks + ws_length w))"

text \<open>\<open>operator\<close> is the length of the operator at the position.\<close>

definition elideRedirect :: "nat \<Rightarrow> jstring \<Rightarrow> jstring \<Rightarrow> split_state \<Rightarrow> (nat \<times> split_state) option" where
  "elideRedirect operator b r st =
    (let st1 = st\<lparr>sp_current := stripFdPrefix (sp_current st)\<rparr>; r1 = drop operator r in
     case targetEnd (rev (take operator r) @ b) r1 of
       None \<Rightarrow> None
     | Some n \<Rightarrow>
         (let target = js_trim (take n r1) in
          Some (operator + n,
            if target \<noteq> [] \<and> hasExecutableSubstitution target then st1\<lparr>sp_elided := sp_elided st1 @ [target]\<rparr> else st1)))"

definition read_heredoc :: "jstring \<Rightarrow> jstring \<Rightarrow> split_state \<Rightarrow> (nat \<times> split_state) option" where
  "read_heredoc b r st =
    (let tabs = (char_at r 2 = Some DASH); k = (if tabs then 3 else 2);
         blanks = takeWhile isBlank (drop k r); k = k + length blanks;
         w = readWord isWordBoundaryChar (rev (take k r) @ b) (drop k r) 0;
         delimiter = ws_literal w
     in if ws_unterminated w \<or> delimiter = [] then None
        else Some (k + ws_length w,
          st\<lparr>sp_current := stripFdPrefix (sp_current st),
             sp_heredocs := sp_heredocs st @ [\<lparr>hd_delimiter = delimiter,
               hd_quoted = (delimiter \<noteq> take (ws_length w) (drop k r)), hd_stripTabs = tabs\<rparr>]\<rparr>))"

definition sp_append :: "jstring \<Rightarrow> split_state \<Rightarrow> split_state" where
  "sp_append s st = st\<lparr>sp_current := sp_current st @ s\<rparr>"

text \<open>
  One round of the loop at the position before \<open>c # s\<close>: how many characters it reads, and the
  variables after it. No value: the command cannot be parsed.
\<close>

definition split_round :: "jstring \<Rightarrow> nat \<Rightarrow> jstring \<Rightarrow> split_state \<Rightarrow> (nat \<times> split_state) option" where
  "split_round b c s st0 =
    (let r = c # s; st = st0\<lparr>sp_escaped := False\<rparr> in
     if c = BSLASH \<and> s \<noteq> [] then Some (2, (sp_append [c, hd s] st)\<lparr>sp_escaped := True\<rparr>)
     else if c = HASH then
       (if startsComment b (sp_escaped st0) r then Some (length (takeWhile (\<lambda>c. c \<noteq> NL) r), st)
        else Some (1, sp_append [c] st))
     else case quoteSpanEnd b r of
       Unterminated \<Rightarrow> None
     | Span n \<Rightarrow> Some (n, sp_append (take n r) st)
     | No_span \<Rightarrow>
         if c = SEMI then Some (1, sp_push st)
         else if c = NL then
           (if sp_heredocs st = [] then Some (1, sp_push st)
            else (case heredoc_bodies (sp_heredocs st) s of (body, n) \<Rightarrow>
              case heredocBodySubstitutions body of
                None \<Rightarrow> None
              | Some subs \<Rightarrow>
                  Some (1 + n, (sp_push st)\<lparr>sp_heredocs := [], sp_elided := sp_elided st @ subs\<rparr>)))
         else if c = BAR then Some (if char_at s 0 = Some BAR then 2 else 1, sp_push st)
         else if c = AMP then
           (if 0 < redirectOperatorLength r then elideRedirect (redirectOperatorLength r) b r st
            else Some (if char_at s 0 = Some AMP then 2 else 1, sp_push st))
         else if c = LT then
           (if char_at s 0 = Some LT \<and> char_at s 1 = Some LT then elideRedirect 3 b r st
            else if char_at s 0 = Some LT then read_heredoc b r st
            else elideRedirect (redirectOperatorLength r) b r st)
         else if c = GT then elideRedirect (redirectOperatorLength r) b r st
         else Some (1, sp_append [c] st))"

lemma split_round_progress: "split_round b c s st = Some (n, st') \<Longrightarrow> 0 < n"
  by (auto simp: split_round_def Let_def elideRedirect_def read_heredoc_def redirectOperatorLength_def char_at_def
      startsComment_def split: if_splits span.splits option.splits prod.splits dest: quote_span_bounds)

function split_loop :: "jstring \<Rightarrow> jstring \<Rightarrow> split_state \<Rightarrow> split_state option" where
  "split_loop b [] st = Some st"
| "split_loop b (c # s) st =
    (case split_round b c s st of
       None \<Rightarrow> None
     | Some (n, st') \<Rightarrow> split_loop (rev (take n (c # s)) @ b) (drop n (c # s)) st')"
  by pat_completeness auto
termination
  by (relation "measure (\<lambda>(b, r, st). length r)") (auto dest: split_round_progress)

declare split_loop.simps(2) [simp del]

definition split_start :: split_state where
  "split_start = \<lparr>sp_segments = [], sp_current = [], sp_escaped = False, sp_elided = [], sp_heredocs = []\<rparr>"

definition splitSegments :: "jstring \<Rightarrow> jstring list" where
  "splitSegments command =
    (case split_loop [] command split_start of
       None \<Rightarrow> splitSegmentsUnparseable command
     | Some st \<Rightarrow> sp_segments (sp_push st) @ sp_elided st)"

end
