(* ===== verification/Js_Regex.thy ===== *)
theory Js_Regex
  imports Shell_Lexer
begin

text \<open>
  The regular expressions of the classifiers in \<^verbatim>\<open>src/apps/sidecar/src\<close> (\<^verbatim>\<open>normalize.ts\<close>, \<^verbatim>\<open>check-classifier.ts\<close>). Every use is
  \<^verbatim>\<open>test\<close>, which asks whether there is a match anywhere; so a match is modelled by all positions where it can
  end, and greediness plays no role. The flag \<^verbatim>\<open>i\<close> without \<^verbatim>\<open>u\<close> identifies an ASCII letter with
  its other case and with nothing outside of ASCII.
\<close>

datatype rex =
    Cls "nat \<Rightarrow> bool" \<comment> \<open>one character of a class\<close>
  | Many "nat \<Rightarrow> bool" \<comment> \<open>any number of them\<close>
  | Upto nat "nat \<Rightarrow> bool" \<comment> \<open>at most so many\<close>
  | Edge \<comment> \<open>the boundary of a word\<close>
  | Begin \<comment> \<open>the start of the text\<close>
  | End \<comment> \<open>the end of the text\<close>
  | Empty
  | Sq rex rex
  | Alt rex rex

definition regex_word :: "nat \<Rightarrow> bool" where
  "regex_word c \<longleftrightarrow> name_char c"

definition at_edge :: "jstring \<Rightarrow> jstring \<Rightarrow> bool" where
  "at_edge b r \<longleftrightarrow> (b \<noteq> [] \<and> regex_word (hd b)) \<noteq> (r \<noteq> [] \<and> regex_word (hd r))"

text \<open>The positions after the first, second, \dots character, as far as the class and the bound reach.\<close>

fun run_ends :: "nat option \<Rightarrow> (nat \<Rightarrow> bool) \<Rightarrow> jstring \<Rightarrow> jstring \<Rightarrow> (jstring \<times> jstring) list" where
  "run_ends k P b [] = [(b, [])]"
| "run_ends k P b (c # r) =
    (b, c # r) # (if P c \<and> k \<noteq> Some 0 then run_ends (map_option (\<lambda>n. n - 1) k) P (c # b) r else [])"

fun rex_ends :: "rex \<Rightarrow> jstring \<times> jstring \<Rightarrow> (jstring \<times> jstring) list" where
  "rex_ends (Cls P) (b, r) = (case r of [] \<Rightarrow> [] | c # s \<Rightarrow> if P c then [(c # b, s)] else [])"
| "rex_ends (Many P) (b, r) = run_ends None P b r"
| "rex_ends (Upto n P) (b, r) = run_ends (Some n) P b r"
| "rex_ends Edge (b, r) = (if at_edge b r then [(b, r)] else [])"
| "rex_ends Begin (b, r) = (if b = [] then [(b, r)] else [])"
| "rex_ends End (b, r) = (if r = [] then [(b, r)] else [])"
| "rex_ends Empty (b, r) = [(b, r)]"
| "rex_ends (Sq p q) (b, r) = concat (map (rex_ends q) (rex_ends p (b, r)))"
| "rex_ends (Alt p q) (b, r) = rex_ends p (b, r) @ rex_ends q (b, r)"

fun rex_search :: "rex \<Rightarrow> jstring \<Rightarrow> jstring \<Rightarrow> bool" where
  "rex_search e b [] \<longleftrightarrow> rex_ends e (b, []) \<noteq> []"
| "rex_search e b (c # r) \<longleftrightarrow> rex_ends e (b, c # r) \<noteq> [] \<or> rex_search e (c # b) r"

definition rex_test :: "rex \<Rightarrow> jstring \<Rightarrow> bool" where
  "rex_test e s \<longleftrightarrow> rex_search e [] s"

definition rex_seq :: "rex list \<Rightarrow> rex" where
  "rex_seq es = foldr Sq es Empty"

definition rex_any :: "rex list \<Rightarrow> rex" where
  "rex_any es = foldr Alt (butlast es) (List.last es)"

text \<open>Literal text, with and without the flag \<^verbatim>\<open>i\<close>.\<close>

definition lit :: "string \<Rightarrow> rex" where
  "lit s = rex_seq (map (\<lambda>ch. Cls (\<lambda>c. c = of_char ch)) s)"

definition lit_i :: "string \<Rightarrow> rex" where
  "lit_i s = rex_seq (map (\<lambda>ch. Cls (\<lambda>c. ascii_lower c = ascii_lower (of_char ch))) s)"

definition one_of :: "string \<Rightarrow> nat \<Rightarrow> bool" where
  "one_of cs c \<longleftrightarrow> c \<in> set (js cs)"

definition letter :: "nat \<Rightarrow> bool" where
  "letter c \<longleftrightarrow> 65 \<le> c \<and> c \<le> 90 \<or> 97 \<le> c \<and> c \<le> 122"

definition spaces0 :: rex where
  "spaces0 = Many js_space"

definition spaces1 :: rex where
  "spaces1 = Sq (Cls js_space) (Many js_space)"

text \<open>The full stop: any character but a line terminator.\<close>

definition not_line_end :: "nat \<Rightarrow> bool" where
  "not_line_end c \<longleftrightarrow> c \<notin> {10, 13, 8232, 8233}"

text \<open>A literal text in a word of its own.\<close>

definition whole_word :: "string \<Rightarrow> rex" where
  "whole_word s = rex_seq [Edge, lit_i s, Edge]"

end
