(* ===== verification/Command_Risk.thy ===== *)
theory Command_Risk
  imports Js_Regex
begin

text \<open>
  How dangerous a shell command is (\<^verbatim>\<open>src/apps/sidecar/src/normalize.ts\<close>): the rules by which the approval gate
  finds destructive operations, however they are wrapped, quoted or nested. The set of categories that the
  source passes along and mutates is a list in the order of insertion, absent when the caller wants none. The functions
  that call the classifier again on an inner command take it as their first argument \<open>rec\<close>, one level deeper.
\<close>

section \<open>Programs behind wrappers\<close>

definition words :: "string \<Rightarrow> jstring list" where
  "words s = js_split SPACE (js s)"

definition XARGS_VALUE_OPTIONS :: "jstring list" where
  "XARGS_VALUE_OPTIONS = words ''-I -d -E -L -n -P -s -a --delimiter --max-args --max-procs --max-chars --arg-file''"

definition RUNNER_WRAPPERS :: "jstring list" where
  "RUNNER_WRAPPERS = words
    (''env xargs timeout nohup nice command stdbuf setsid sudo doas pkexec run0 exec time builtin ''
     @ ''busybox toybox ionice chroot unshare taskset flock watch script su'')"

record WrapperGrammar =
  wg_valued :: "jstring list"
  wg_flags :: "jstring list"
  wg_positional :: nat
  wg_shellString :: bool
  wg_restIsShellString :: bool

definition EMPTY_GRAMMAR :: WrapperGrammar where
  "EMPTY_GRAMMAR = \<lparr>wg_valued = [], wg_flags = [], wg_positional = 0, wg_shellString = False, wg_restIsShellString = False\<rparr>"

definition WRAPPER_GRAMMAR :: "(jstring \<times> WrapperGrammar) list" where
  "WRAPPER_GRAMMAR =
    [
     (js ''env'', EMPTY_GRAMMAR\<lparr>wg_valued := words (''-u --unset -C --chdir -S --split-string''),
       wg_flags := words (''-i --ignore-environment -0 --null -v --debug --block-signal --default-signal --ignore-signal ''
     @ ''--list-signal-handling'')\<rparr>),
     (js ''xargs'', EMPTY_GRAMMAR\<lparr>wg_valued := XARGS_VALUE_OPTIONS @ [js ''--process-slot-var''],
       wg_flags := words (''-0 --null -r --no-run-if-empty -t --verbose -p --interactive -x --exit -o --open-tty ''
     @ ''--show-limits -i --replace -e --eof'')\<rparr>),
     (js ''timeout'', EMPTY_GRAMMAR\<lparr>wg_valued := words (''-s --signal -k --kill-after''),
       wg_flags := words (''--preserve-status --foreground -v --verbose''),
       wg_positional := 1\<rparr>),
     (js ''nice'', EMPTY_GRAMMAR\<lparr>wg_valued := words (''-n --adjustment'')\<rparr>),
     (js ''sudo'', EMPTY_GRAMMAR\<lparr>wg_valued := words (''-u --user -g --group -U --other-user -p --prompt -C --close-from -h --host -r --role -t --type ''
     @ ''-D --chdir -R --chroot -T --command-timeout''),
       wg_flags := words (''-E --preserve-env -n --non-interactive -S --stdin -k --reset-timestamp -K --remove-timestamp -i ''
     @ ''--login -s --shell -H --set-home -b --background -A --askpass -B --bell -P --preserve-groups'')\<rparr>),
     (js ''doas'', EMPTY_GRAMMAR\<lparr>wg_valued := words (''-u -C -a'')\<rparr>),
     (js ''pkexec'', EMPTY_GRAMMAR\<lparr>wg_valued := words (''-u --user''),
       wg_flags := words (''--disable-internal-agent --keep-cwd'')\<rparr>),
     (js ''run0'', EMPTY_GRAMMAR\<lparr>wg_valued := words (''-u --user'')\<rparr>),
     (js ''exec'', EMPTY_GRAMMAR\<lparr>wg_valued := words (''-a'')\<rparr>),
     (js ''stdbuf'', EMPTY_GRAMMAR\<lparr>wg_valued := words (''-i -o -e --input --output --error'')\<rparr>),
     (js ''setsid'', EMPTY_GRAMMAR\<lparr>wg_flags := words (''-c --ctty -f --fork -w --wait'')\<rparr>),
     (js ''ionice'', EMPTY_GRAMMAR\<lparr>wg_valued := words (''-c --class -n --classdata -p --pid -P --pgid -u --uid''),
       wg_flags := words (''-t --ignore'')\<rparr>),
     (js ''chroot'', EMPTY_GRAMMAR\<lparr>wg_valued := words (''--userspec --groups''),
       wg_flags := words (''--skip-chdir''),
       wg_positional := 1\<rparr>),
     (js ''unshare'', EMPTY_GRAMMAR\<lparr>wg_valued := words (''-S --setuid -G --setgid -w --wd -R --root --map-user --map-group --setgroups --propagation''),
       wg_flags := words (''-m --mount -u --uts -i --ipc -n --net -p --pid -U --user -C --cgroup -T --time -f --fork -r ''
     @ ''--map-root-user -c --map-current-user --map-auto --mount-proc --kill-child --keep-caps'')\<rparr>),
     (js ''taskset'', EMPTY_GRAMMAR\<lparr>wg_flags := words (''-a --all-tasks -p --pid -c --cpu-list''),
       wg_positional := 1\<rparr>),
     (js ''flock'', EMPTY_GRAMMAR\<lparr>wg_valued := words (''-w --wait --timeout -E --conflict-exit-code''),
       wg_flags := words (''-s --shared -x --exclusive -u --unlock -n --nb --nonblock -o --close -F --no-fork --verbose''),
       wg_positional := 1,
       wg_shellString := True\<rparr>),
     (js ''watch'', EMPTY_GRAMMAR\<lparr>wg_valued := words (''-n --interval''),
       wg_flags := words (''-b --beep -c --color -d --differences -e --errexit -g --chgexit -p --precise -t --no-title -x ''
     @ ''--exec -w --no-wrap''),
       wg_restIsShellString := True\<rparr>),
     (js ''script'', EMPTY_GRAMMAR\<lparr>wg_valued := words (''-o --output-limit -O --log-out -I --log-in -B --log-io -T --log-timing -m --logging-format -E ''
     @ ''--echo''),
       wg_flags := words (''-a --append -e --return -f --flush -q --quiet -t --force''),
       wg_positional := 1,
       wg_shellString := True\<rparr>),
     (js ''su'', EMPTY_GRAMMAR\<lparr>wg_valued := words (''-s --shell -g --group -G --supp-group -w --whitelist-environment''),
       wg_flags := words (''-l --login -m -p --preserve-environment -P --pty -f --fast''),
       wg_positional := 1,
       wg_shellString := True\<rparr>)]"

definition MAX_WRAPPER_STRIP :: nat where
  "MAX_WRAPPER_STRIP = 8"

text \<open>\<^verbatim>\<open>/^-[a-z]*$/i\<close> and \<^verbatim>\<open>/^-[a-z]*c$/i\<close>.\<close>

definition short_flags :: "jstring \<Rightarrow> bool" where
  "short_flags t \<longleftrightarrow> (case t of [] \<Rightarrow> False | c # s \<Rightarrow> c = DASH \<and> list_all letter s)"

definition SHELL_INLINE_FLAG_RE :: "jstring \<Rightarrow> bool" where
  "SHELL_INLINE_FLAG_RE t \<longleftrightarrow> short_flags t \<and> 2 \<le> length t \<and> ascii_lower (List.last t) = 99"

text \<open>
  The options of one wrapper: the words that remain and whether an option was not known. The words
  that remain may be rewritten into the call of a shell.
\<close>

datatype after_options = Command_at "jstring list" | Rewritten "jstring list"

fun skip_options ::
    "jstring \<Rightarrow> WrapperGrammar \<Rightarrow> nat \<Rightarrow> bool \<Rightarrow> bool \<Rightarrow> jstring list \<Rightarrow> after_options \<times> bool" where
  "skip_options name g positional optionsEnded unknown [] = (Command_at [], unknown)"
| "skip_options name g positional optionsEnded unknown (t # ts) =
    (if \<not> optionsEnded \<and> t = js ''--'' then skip_options name g positional True unknown ts
     else if \<not> optionsEnded \<and> name = js ''env'' \<and> ASSIGNMENT_TOKEN_RE t then skip_options name g positional optionsEnded unknown ts
     else if \<not> optionsEnded \<and> js_starts_with t (js ''-'') then
       (let eq = (61 \<in> set t); longName = takeWhile (\<lambda>c. c \<noteq> 61) t in
        if wg_shellString g \<and> (longName = js ''--command'' \<or> longName = js ''--session-command'') then
          (Rewritten ([js ''sh'', js ''-c''] @ (if eq then [tl (dropWhile (\<lambda>c. c \<noteq> 61) t)] else []) @ ts), unknown)
        else if wg_shellString g \<and> SHELL_INLINE_FLAG_RE t then (Rewritten (js ''sh'' # t # ts), unknown)
        else if t \<in> set (wg_valued g) then
          (case ts of [] \<Rightarrow> (Command_at [], unknown) | _ # ts' \<Rightarrow> skip_options name g positional optionsEnded unknown ts')
        else if js_starts_with t (js ''--'') \<and> \<not> (eq \<or> t \<in> set (wg_flags g)) then
          skip_options name g positional optionsEnded True ts
        else skip_options name g positional optionsEnded unknown ts)
     else if 0 < positional then skip_options name g (positional - 1) optionsEnded unknown ts
     else (Command_at (t # ts), unknown))"

record StrippedProgram =
  sp_tokens :: "jstring list"
  sp_capExhausted :: bool
  sp_unknownOption :: bool
  sp_wrappers :: "jstring list"

definition is_wrapper :: "jstring list \<Rightarrow> bool" where
  "is_wrapper cur \<longleftrightarrow> commandName cur \<in> set RUNNER_WRAPPERS"

definition stripped :: "jstring list \<Rightarrow> bool \<Rightarrow> bool \<Rightarrow> jstring list \<Rightarrow> StrippedProgram" where
  "stripped cur cap unknown ws = \<lparr>sp_tokens = cur, sp_capExhausted = cap, sp_unknownOption = unknown, sp_wrappers = ws\<rparr>"

definition grammar_of :: "jstring \<Rightarrow> WrapperGrammar" where
  "grammar_of name = (case map_of WRAPPER_GRAMMAR name of None \<Rightarrow> EMPTY_GRAMMAR | Some g \<Rightarrow> g)"

text \<open>The first argument is how many rounds of the loop are left.\<close>

fun strip_rounds :: "nat \<Rightarrow> jstring list \<Rightarrow> bool \<Rightarrow> jstring list \<Rightarrow> StrippedProgram" where
  "strip_rounds 0 cur unknown ws = stripped cur (is_wrapper cur) unknown ws"
| "strip_rounds (Suc n) cur unknown0 ws =
    (if cur = [] \<or> \<not> is_wrapper cur then stripped cur False unknown0 ws
     else let name = commandName cur; g = grammar_of name in
       case skip_options name g (wg_positional g) False unknown0 (tl cur) of
         (Rewritten next, unknown) \<Rightarrow> strip_rounds n next unknown (ws @ [name])
       | (Command_at rest, unknown) \<Rightarrow>
           if wg_restIsShellString g \<and> list_ex (list_ex js_space) rest then
             strip_rounds n ([js ''sh'', js ''-c''] @ rest) unknown (ws @ [name])
           else if rest = [] then stripped cur False unknown ws
           else if length rest = length cur then stripped cur False unknown ws
           else if js_starts_with (hd rest) (js ''-'') then stripped cur False True ws
           else strip_rounds n rest unknown (ws @ [name]))"

definition stripRunnerWrappers :: "jstring list \<Rightarrow> StrippedProgram" where
  "stripRunnerWrappers tokens = strip_rounds MAX_WRAPPER_STRIP tokens False []"

definition COMMAND_POSITION_RESERVED_WORDS :: "jstring list" where
  "COMMAND_POSITION_RESERVED_WORDS = words ''if then else elif fi for while until do done case esac time !''"

definition isTimespecWord :: "jstring \<Rightarrow> bool" where
  "isTimespecWord w = js_starts_with w (js ''-'')"

text \<open>What is left behind the words that may stand before the name of a program.\<close>

definition after_case :: "jstring list \<Rightarrow> jstring list" where
  "after_case ts =
    (let ts1 = tl ts; ts2 = (if ts1 \<noteq> [] \<and> hd ts1 = js ''in'' then tl ts1 else ts1)
     in tl (dropWhile (\<lambda>t. \<not> (t \<noteq> [] \<and> List.last t = RPAREN)) ts2))"

function skip_prefix :: "bool \<Rightarrow> jstring list \<Rightarrow> jstring list" where
  "skip_prefix reservedWords [] = []"
| "skip_prefix reservedWords (t # ts) =
    (if reservedWords \<and> t = js ''case'' then skip_prefix reservedWords (after_case ts)
     else if reservedWords \<and> t = js ''time'' then skip_prefix reservedWords (dropWhile isTimespecWord ts)
     else if ASSIGNMENT_TOKEN_RE t \<or> reservedWords \<and> t \<in> set COMMAND_POSITION_RESERVED_WORDS then
       skip_prefix reservedWords ts
     else t # ts)"
  by pat_completeness auto
termination
proof (relation "measure (\<lambda>(r, ts). length ts)")
  fix ts :: "jstring list" and t :: jstring and r
  have "length (tl (dropWhile P xs)) \<le> length xs" for P and xs :: "jstring list"
    by simp (meson diff_le_self le_trans length_dropWhile_le)
  from this [of _ "tl ts"] this [of _ "tl (tl ts)"] have "length (after_case ts) \<le> length ts"
    unfolding after_case_def Let_def by (simp split: if_split) (meson diff_le_self le_trans)
  then show "((r, after_case ts), r, t # ts) \<in> measure (\<lambda>(r, ts). length ts)" by simp
  show "((r, dropWhile isTimespecWord ts), r, t # ts) \<in> measure (\<lambda>(r, ts). length ts)"
    by (simp add: le_imp_less_Suc length_dropWhile_le)
qed auto

declare skip_prefix.simps(2) [simp del]

definition programTokens :: "jstring list \<Rightarrow> StrippedProgram" where
  "programTokens rawTokens = stripRunnerWrappers (skip_prefix True rawTokens)"

section \<open>Destructive programs\<close>

definition INLINE_SHELLS :: "jstring list" where
  "INLINE_SHELLS = words ''sh bash zsh dash ksh fish''"

definition INLINE_INTERPRETERS :: "jstring list" where
  "INLINE_INTERPRETERS = words ''python perl ruby node nodejs php''"

definition INTERPRETER_INLINE_FLAGS :: "jstring list" where
  "INTERPRETER_INLINE_FLAGS = words ''-c -e -E -r -R''"

definition lower_letter :: "nat \<Rightarrow> bool" where
  "lower_letter c \<longleftrightarrow> 97 \<le> c \<and> c \<le> 122"

text \<open>\<^verbatim>\<open>VERSION_SUFFIX_RE\<close>: letters, and behind them numbers separated by full stops. The stem, if it matches.\<close>

definition VERSION_SUFFIX_RE :: "jstring \<Rightarrow> jstring option" where
  "VERSION_SUFFIX_RE name =
    (let stem = takeWhile lower_letter name; rest = dropWhile lower_letter name in
     if stem \<noteq> [] \<and> list_all (\<lambda>part. part \<noteq> [] \<and> list_all digit part) (js_split 46 rest) then Some stem else None)"

definition normalizeCommandName :: "jstring \<Rightarrow> jstring" where
  "normalizeCommandName name =
    (let known = INLINE_SHELLS @ INLINE_INTERPRETERS in
     if name \<in> set known then name
     else case VERSION_SUFFIX_RE name of
       Some stem \<Rightarrow> if stem \<in> set known then stem else name
     | None \<Rightarrow> name)"

definition isInlineShell :: "jstring \<Rightarrow> bool" where
  "isInlineShell name \<longleftrightarrow> normalizeCommandName name \<in> set INLINE_SHELLS"

definition isInlineInterpreter :: "jstring \<Rightarrow> bool" where
  "isInlineInterpreter name \<longleftrightarrow> normalizeCommandName name \<in> set INLINE_INTERPRETERS"

definition isRecursiveForcedRm :: "jstring list \<Rightarrow> bool" where
  "isRecursiveForcedRm tokens \<longleftrightarrow> commandName tokens = js ''rm''
    \<and> list_ex (\<lambda>t. to_lower t = js ''--recursive'' \<or> to_lower t \<noteq> js ''--force'' \<and> short_flags t \<and> 114 \<in> set (to_lower t)) (tl tokens)
    \<and> list_ex (\<lambda>t. to_lower t = js ''--force'' \<or> to_lower t \<noteq> js ''--recursive'' \<and> short_flags t \<and> 102 \<in> set (to_lower t)) (tl tokens)"

definition isForcedGitPush :: "jstring list \<Rightarrow> bool" where
  "isForcedGitPush tokens \<longleftrightarrow> commandName tokens = js ''git'' \<and> js ''push'' \<in> set tokens
    \<and> list_ex (\<lambda>t. t \<in> {js ''-f'', js ''--force'', js ''--force-with-lease''}
        \<or> short_flags t \<and> \<not> js_starts_with t (js ''--'') \<and> 102 \<in> set t) tokens"

text \<open>The words after the first one, past the name, that is \<open>word\<close> in lower case.\<close>

definition after_subcommand :: "string \<Rightarrow> jstring list \<Rightarrow> jstring list" where
  "after_subcommand word tokens = tl (dropWhile (\<lambda>t. to_lower t \<noteq> js word) (tl tokens))"

definition isDestructiveGitWorktreeRewrite :: "jstring list \<Rightarrow> bool" where
  "isDestructiveGitWorktreeRewrite tokens \<longleftrightarrow> commandName tokens = js ''git''
    \<and> (list_ex (\<lambda>t. to_lower t = js ''--hard'') (after_subcommand ''reset'' tokens)
       \<or> list_ex (\<lambda>t. to_lower t = js ''--force'' \<or> to_lower t = js ''-f''
            \<or> short_flags t \<and> 2 \<le> length t \<and> \<not> js_starts_with t (js ''--'') \<and> 102 \<in> set (to_lower t))
          (after_subcommand ''clean'' tokens))"

definition definesShellGitAlias :: "jstring list \<Rightarrow> bool" where
  "definesShellGitAlias tokens \<longleftrightarrow> commandName tokens = js ''git''
    \<and> list_ex (rex_test (let key = (\<lambda>c. c \<noteq> 61 \<and> \<not> js_space c) in
        rex_seq [Begin, lit_i ''alias.'', Cls key, Many key, lit ''=!''])) (tl tokens)"

definition octal :: "nat \<Rightarrow> bool" where
  "octal c \<longleftrightarrow> 48 \<le> c \<and> c \<le> 55"

definition isDangerousChmod :: "jstring list \<Rightarrow> bool" where
  "isDangerousChmod tokens \<longleftrightarrow> commandName tokens = js ''chmod''
    \<and> list_ex (\<lambda>t. t = js ''-R'' \<or> t = js ''--recursive''
        \<or> (length t = 3 \<or> length t = 4) \<and> list_all octal t \<and> one_of ''2367'' (List.last t)
        \<or> rex_test (rex_seq [Cls (\<lambda>c. one_of ''ao'' (ascii_lower c)), Upto 1 (one_of ''+''), lit_i ''w'']) t
        \<or> rex_test (lit ''+w'') t) (tl tokens)"

definition BLOCK_DEVICE_RE :: rex where
  "BLOCK_DEVICE_RE = Sq (lit_i ''/dev/'') (rex_any
    [Sq (lit_i ''sd'') (Cls letter), Sq (lit_i ''nvme'') (Cls digit), Sq (lit_i ''disk'') (Cls digit),
     Sq (lit_i ''hd'') (Cls letter), Sq (lit_i ''vd'') (Cls letter), Sq (lit_i ''mmcblk'') (Cls digit)])"

definition writesBlockDevice :: "jstring \<Rightarrow> jstring list \<Rightarrow> bool" where
  "writesBlockDevice command tokens \<longleftrightarrow>
    rex_test (rex_seq [Cls (one_of ''<>''), spaces0, BLOCK_DEVICE_RE]) command
    \<or> commandName tokens = js ''dd'' \<and> list_ex (rex_test (Sq Begin (lit_i ''of=/dev/''))) tokens"

definition DESTRUCTIVE_DISK_PROGRAMS :: "jstring list" where
  "DESTRUCTIVE_DISK_PROGRAMS = words
    (''mke2fs mkswap mkdosfs mkntfs fdisk cfdisk sfdisk gdisk cgdisk sgdisk parted wipefs blkdiscard ''
     @ ''shred badblocks cryptsetup sg_format wipe nwipe pvremove vgremove lvremove lvreduce vgreduce ''
     @ ''mdadm'')"

definition isDestructiveDiskProgram :: "jstring list \<Rightarrow> bool" where
  "isDestructiveDiskProgram tokens =
    (let name = normalizeCommandName (commandName tokens) in
     name = js ''mkfs'' \<or> js_starts_with name (js ''mkfs.'') \<or> name \<in> set DESTRUCTIVE_DISK_PROGRAMS)"

definition READ_ONLY_STORAGE_SUBCOMMANDS :: "(jstring \<times> jstring list) list" where
  "READ_ONLY_STORAGE_SUBCOMMANDS =
    [(js ''nvme'', words (''list list-ns list-subsys list-ctrl id-ctrl id-ns ns-descs smart-log error-log fw-log get-log ''
     @ ''get-feature show-regs telemetry-log self-test-log version help'')),
     (js ''zpool'', words (''list status get history iostat version help'')),
     (js ''zfs'', words (''list get holds version help'')),
     (js ''dmsetup'', words (''ls info status table deps targets version help''))]"

definition HDPARM_DESTRUCTIVE_FLAG_RE :: "jstring \<Rightarrow> bool" where
  "HDPARM_DESTRUCTIVE_FLAG_RE t \<longleftrightarrow> t \<in> set (words
    (''--security-erase --security-erase-enhanced --trim-sector-ranges --trim-sector-ranges-stdin ''
     @ ''--make-bad-sector --dco-restore --write-sector --fwdownload''))"

definition SAFE_LEADING_FLAGS :: "jstring list" where
  "SAFE_LEADING_FLAGS = words
    (''-h --help -v --verbose -q --quiet -V --version -? --usage'')"

datatype storage_subcommand = Subcommand jstring | Ambiguous | No_subcommand

fun storage_scan :: "jstring list \<Rightarrow> storage_subcommand" where
  "storage_scan [] = No_subcommand"
| "storage_scan (t # ts) =
    (if \<not> js_starts_with t (js ''-'') then Subcommand (to_lower t)
     else if takeWhile (\<lambda>c. c \<noteq> 61) (to_lower t) \<notin> set SAFE_LEADING_FLAGS then Ambiguous
     else storage_scan ts)"

definition storageSubcommand :: "jstring list \<Rightarrow> storage_subcommand" where
  "storageSubcommand tokens = storage_scan (tl tokens)"

definition isDestructiveDiskSubcommand :: "jstring list \<Rightarrow> bool" where
  "isDestructiveDiskSubcommand tokens =
    (let name = normalizeCommandName (commandName tokens) in
     case map_of READ_ONLY_STORAGE_SUBCOMMANDS name of
       Some readOnly \<Rightarrow>
         (case storageSubcommand tokens of
            Ambiguous \<Rightarrow> True | No_subcommand \<Rightarrow> False | Subcommand s \<Rightarrow> s \<notin> set readOnly)
     | None \<Rightarrow> name = js ''hdparm''
         \<and> list_ex (\<lambda>t. HDPARM_DESTRUCTIVE_FLAG_RE (takeWhile (\<lambda>c. c \<noteq> 61) t)) (tl tokens))"

fun find_scan :: "bool \<Rightarrow> jstring list \<Rightarrow> RiskLevel option" where
  "find_scan sawExec [] = (if sawExec then Some Risk_medium else None)"
| "find_scan sawExec (t # ts) =
    (if t = js ''-delete'' then Some Risk_medium
     else if t \<in> set (words ''-exec -execdir -ok -okdir'') then
       (if ts \<noteq> [] \<and> isRecursiveForcedRm ts then Some Risk_high else find_scan True ts)
     else find_scan sawExec ts)"

definition findDestructiveRisk :: "jstring list \<Rightarrow> RiskLevel option" where
  "findDestructiveRisk tokens = (if commandName tokens \<noteq> js ''find'' then None else find_scan False (tl tokens))"

definition isRecursiveChown :: "jstring list \<Rightarrow> bool" where
  "isRecursiveChown tokens \<longleftrightarrow> (commandName tokens = js ''chown'' \<or> commandName tokens = js ''chgrp'')
    \<and> list_ex (\<lambda>t. t = js ''-R'' \<or> t = js ''--recursive'' \<or> short_flags t \<and> 82 \<in> set t) (tl tokens)"

end
