(* ===== verification/Command_Classifier.thy ===== *)
theory Command_Classifier
  imports Command_Risk
begin

text \<open>
  The classifier of shell commands (\<^verbatim>\<open>classifyCommandRisk\<close>, \<^verbatim>\<open>classifyCommandWithCategories\<close>,
  \<^verbatim>\<open>isNetworkEgressCommand\<close>, \<^verbatim>\<open>isPersistDeniedCommand\<close> of \<^verbatim>\<open>src/apps/sidecar/src/normalize.ts\<close>), on the
  pieces and words that \<^verbatim>\<open>Shell_Lexer\<close> gives and the rules of \<^verbatim>\<open>Command_Risk\<close>.
\<close>

section \<open>Segments that cannot be analysed\<close>

type_synonym cats = "PolicyCategory list option"

definition add_cat :: "PolicyCategory \<Rightarrow> cats \<Rightarrow> cats" where
  "add_cat c cs = map_option (List.insert c) cs"

datatype splitter = Split_segments | Split_quote_unaware

fun run_split :: "splitter \<Rightarrow> jstring \<Rightarrow> jstring list" where
  "run_split Split_segments command = splitSegments command"
| "run_split Split_quote_unaware command = splitSegmentsQuoteUnaware command"

type_synonym classifier = "jstring \<Rightarrow> cats \<Rightarrow> RiskLevel \<times> cats"

definition MAX_INLINE_DEPTH :: nat where
  "MAX_INLINE_DEPTH = 4"

definition isCleanExecutableToken :: "jstring \<Rightarrow> bool" where
  "isCleanExecutableToken token \<longleftrightarrow> token \<noteq> [] \<and> list_all (\<lambda>c. letter c \<or> digit c \<or> one_of ''._/+-'' c) token"

definition stripGroupingWrappers :: "jstring \<Rightarrow> jstring" where
  "stripGroupingWrappers s =
    (let lead = (\<lambda>c. c \<in> {LPAREN, LBRACE, SQUOTE, DQUOTE} \<or> js_space c);
         trail = (\<lambda>c. c \<in> {RPAREN, RBRACE, SEMI, SQUOTE, DQUOTE} \<or> js_space c)
     in rev (dropWhile trail (rev (dropWhile lead s))))"

definition hasScriptFileOperand :: "jstring list \<Rightarrow> bool" where
  "hasScriptFileOperand tokens \<longleftrightarrow> list_ex (\<lambda>t. \<not> js_starts_with t (js ''-'')) (tl tokens)"

definition hasCommandWordSubstitution :: "jstring list \<Rightarrow> bool" where
  "hasCommandWordSubstitution tokens \<longleftrightarrow> (case tokens of [] \<Rightarrow> False | w # _ \<Rightarrow> hasCommandSubstitution w)"

fun flatten_from :: "jstring \<Rightarrow> nat \<Rightarrow> (nat \<times> jstring) list \<Rightarrow> jstring" where
  "flatten_from segment cursor [] = drop cursor segment"
| "flatten_from segment cursor ((start, inner) # found) =
    take (start - cursor) (drop cursor segment) @ [SPACE] @ inner @ [SPACE]
    @ flatten_from segment (start + (if char_at segment start = Some BTICK then 1 else 2) + length inner + 1) found"

definition flattenCommandSubstitutions :: "jstring \<Rightarrow> jstring" where
  "flattenCommandSubstitutions segment =
    (let c = collectSubstitutionInners segment False in
     if co_aborted c \<or> co_starts c = [] then segment
     else flatten_from segment 0 (zip (co_starts c) (co_inners c)))"

text \<open>The number of words skipped in the source is here the rest of the words.\<close>

definition unanalyzableSegmentRisk ::
    "classifier \<Rightarrow> jstring list \<Rightarrow> jstring \<Rightarrow> nat \<Rightarrow> bool \<Rightarrow> cats \<Rightarrow> RiskLevel option \<times> cats" where
  "unanalyzableSegmentRisk rec rawTokens rawSegment depth suppressMediumFloor categories =
    (case skip_prefix True rawTokens of
       [] \<Rightarrow> (None, categories)
     | first # rest \<Rightarrow>
         if isCleanExecutableToken first \<and> \<not> hasEscapedProgramWord rawSegment then (None, categories)
         else let normalizedName = (if list_ex js_space first then [] else commandName (first # rest)) in
           if isCleanExecutableToken normalizedName then (Some Risk_medium, categories)
           else let unwrapped = stripGroupingWrappers rawSegment;
                    (inner, categories1) =
                      (if depth < MAX_INLINE_DEPTH \<and> unwrapped \<noteq> [] \<and> unwrapped \<noteq> rawSegment then rec unwrapped categories
                       else (Risk_low, categories))
                in if inner = Risk_high then (Some Risk_high, categories1)
                   else if suppressMediumFloor then (None, categories1)
                   else (Some Risk_medium,
                     if map_option length categories1 = map_option length categories
                     then add_cat PC_high_risk_other categories1 else categories1))"

section \<open>Code inside of commands\<close>

fun reclassify_inners :: "classifier \<Rightarrow> jstring list \<Rightarrow> RiskLevel option \<Rightarrow> cats \<Rightarrow> RiskLevel option \<times> cats" where
  "reclassify_inners rec [] risk categories = (risk, categories)"
| "reclassify_inners rec (inner # inners) risk categories =
    (case rec inner categories of (r, categories1) \<Rightarrow>
       reclassify_inners rec inners
         (if r = Risk_high then Some Risk_high
          else if r = Risk_medium \<and> risk \<noteq> Some Risk_high then Some Risk_medium else risk) categories1)"

text \<open>Both functions of the source: \<open>process\<close> tells which substitutions they collect.\<close>

definition reclassify :: "bool \<Rightarrow> classifier \<Rightarrow> jstring \<Rightarrow> cats \<Rightarrow> RiskLevel option \<times> cats" where
  "reclassify process rec command categories =
    (let c = collectSubstitutionInners command process in
     case reclassify_inners rec (co_inners c) None categories of (risk, categories1) \<Rightarrow>
       (if co_capExhausted c then Some Risk_high
        else if co_aborted c \<and> risk = None then Some Risk_medium else risk,
        if co_aborted c then add_cat PC_high_risk_other categories1 else categories1))"

definition reclassifySubstitution :: "classifier \<Rightarrow> jstring \<Rightarrow> cats \<Rightarrow> RiskLevel option \<times> cats" where
  "reclassifySubstitution = reclassify False"

definition reclassifyProcessSubstitution :: "classifier \<Rightarrow> jstring \<Rightarrow> cats \<Rightarrow> RiskLevel option \<times> cats" where
  "reclassifyProcessSubstitution = reclassify True"

definition REMOTE_EXEC_RUNNERS :: "jstring list" where
  "REMOTE_EXEC_RUNNERS = words
    (''ssh docker podman nerdctl kubectl oc lxc nsenter vagrant'')"

function quotedOperands :: "jstring \<Rightarrow> jstring \<Rightarrow> jstring list" where
  "quotedOperands b [] = []"
| "quotedOperands b (c # s) =
    (case quoteSpanEnd b (c # s) of
       Unterminated \<Rightarrow> []
     | Span n \<Rightarrow> butlast (drop (if c = DOLLAR then 2 else 1) (take n (c # s)))
         # quotedOperands (rev (take n (c # s)) @ b) (drop n (c # s))
     | No_span \<Rightarrow>
         if c = BSLASH \<and> s \<noteq> [] then quotedOperands (hd s # c # b) (tl s) else quotedOperands (c # b) s)"
  by pat_completeness auto
termination by (relation "measure (\<lambda>(b, r). length r)") (auto dest: quote_span_bounds)

declare quotedOperands.simps [simp del]

fun remote_risk :: "classifier \<Rightarrow> jstring list \<Rightarrow> RiskLevel option \<Rightarrow> cats \<Rightarrow> RiskLevel option \<times> cats" where
  "remote_risk rec [] risk categories = (risk, categories)"
| "remote_risk rec (remote # remotes) risk categories =
    (if js_trim remote = [] then remote_risk rec remotes risk categories
     else case rec remote categories of (r, categories1) \<Rightarrow>
       if r = Risk_high then (Some Risk_high, categories1)
       else remote_risk rec remotes (if r = Risk_medium then Some Risk_medium else risk) categories1)"

definition inline_shell_risk :: "classifier \<Rightarrow> jstring list \<Rightarrow> nat \<Rightarrow> cats \<Rightarrow> RiskLevel option \<times> cats" where
  "inline_shell_risk rec tokens depth categories =
    (case dropWhile (\<lambda>t. \<not> SHELL_INLINE_FLAG_RE t) (tl tokens) of
       _ # inner \<Rightarrow>
         (let categories1 = add_cat PC_inline_code categories in
          if inner \<noteq> [] \<and> depth < MAX_INLINE_DEPTH then
            (case rec (js_join SPACE inner) categories1 of (r, categories2) \<Rightarrow>
               (Some (if r = Risk_high then Risk_high else Risk_medium), categories2))
          else (Some Risk_medium, categories1))
     | [] \<Rightarrow>
         if \<not> hasScriptFileOperand tokens then (Some Risk_medium, add_cat PC_inline_code categories)
         else (None, categories))"

definition inline_interpreter_risk :: "jstring list \<Rightarrow> cats \<Rightarrow> RiskLevel option \<times> cats" where
  "inline_interpreter_risk tokens categories =
    (if list_ex (\<lambda>t. t \<in> set INTERPRETER_INLINE_FLAGS) (tl tokens) \<or> \<not> hasScriptFileOperand tokens
     then (Some Risk_medium, add_cat PC_inline_code categories) else (None, categories))"

definition live_substitution_risk :: "classifier \<Rightarrow> jstring \<Rightarrow> nat \<Rightarrow> cats \<Rightarrow> RiskLevel option \<times> cats" where
  "live_substitution_risk rec rawSegment depth categories =
    (if hasLiveCommandSubstitution rawSegment then
       (case (if depth < MAX_INLINE_DEPTH then reclassifySubstitution rec rawSegment (add_cat PC_inline_code categories)
              else (None, add_cat PC_inline_code categories)) of (r, categories1) \<Rightarrow>
          (Some (if r = Some Risk_high then Risk_high else Risk_medium), categories1))
     else (None, categories))"

definition inlineCodeRisk :: "classifier \<Rightarrow> jstring list \<Rightarrow> jstring \<Rightarrow> nat \<Rightarrow> cats \<Rightarrow> RiskLevel option \<times> cats" where
  "inlineCodeRisk rec tokens rawSegment depth categories =
    (let name = commandName tokens in
     if name = js ''eval'' then (Some Risk_medium, add_cat PC_inline_code categories)
     else case (if name \<in> set REMOTE_EXEC_RUNNERS \<and> depth < MAX_INLINE_DEPTH
                then remote_risk rec (quotedOperands [] rawSegment) None categories else (None, categories)) of
       (Some r, categories1) \<Rightarrow> (Some r, add_cat PC_inline_code categories1)
     | (None, categories1) \<Rightarrow>
         (case (if isInlineShell name then inline_shell_risk rec tokens depth categories1 else (None, categories1)) of
            (Some r, categories2) \<Rightarrow> (Some r, categories2)
          | (None, categories2) \<Rightarrow>
              (case (if isInlineInterpreter name then inline_interpreter_risk tokens categories2 else (None, categories2)) of
                 (Some r, categories3) \<Rightarrow> (Some r, categories3)
               | (None, categories3) \<Rightarrow> live_substitution_risk rec rawSegment depth categories3)))"

definition PROC_SUBST_EXECUTING_BUILTINS :: "jstring list" where
  "PROC_SUBST_EXECUTING_BUILTINS = words ''. source eval''"

definition isProcessSubstitutionExecutor :: "jstring \<Rightarrow> bool" where
  "isProcessSubstitutionExecutor name \<longleftrightarrow>
    isInlineShell name \<or> isInlineInterpreter name \<or> name \<in> set PROC_SUBST_EXECUTING_BUILTINS"

definition segmentProgramName :: "jstring \<Rightarrow> jstring" where
  "segmentProgramName segment = commandName (sp_tokens (programTokens (tokenize segment)))"

definition MAX_EXECUTOR_BINDING_WORK :: nat where
  "MAX_EXECUTOR_BINDING_WORK = 8 * MAX_ANALYZABLE_COMMAND_LEN"

definition launchesShellWithProcessSubstitution :: "jstring \<Rightarrow> splitter \<Rightarrow> bool" where
  "launchesShellWithProcessSubstitution command split =
    (if \<not> hasProcessSubstitution command then False
     else let c = collectSubstitutionInners command True in
       if \<not> co_aborted c \<and> sum_list (co_starts c) \<le> MAX_EXECUTOR_BINDING_WORK then
         list_ex (\<lambda>start. case rev (run_split split (take start command)) of
             [] \<Rightarrow> False | owner # _ \<Rightarrow> isProcessSubstitutionExecutor (segmentProgramName owner)) (co_starts c)
       else list_ex (\<lambda>seg. isProcessSubstitutionExecutor (segmentProgramName seg)) (run_split split command))"

section \<open>Literal rules\<close>

record LiteralRule =
  lr_re :: rex
  lr_segmentRe :: "rex option"
  lr_category :: PolicyCategory
  lr_high :: bool

definition literal_rule :: "rex \<Rightarrow> PolicyCategory \<Rightarrow> LiteralRule" where
  "literal_rule re category = \<lparr>lr_re = re, lr_segmentRe = None, lr_category = category, lr_high = True\<rparr>"

text \<open>Words separated by white space, in words of their own.\<close>

definition spaced :: "string \<Rightarrow> string list \<Rightarrow> rex" where
  "spaced w ws = rex_seq ([Edge, lit_i w] @ concat (map (\<lambda>w. [spaces1, lit_i w]) ws) @ [Edge])"

definition LITERAL_RULES :: "LiteralRule list" where
  "LITERAL_RULES =
    [literal_rule (whole_word ''mkfs'') PC_disk_destroy,
     literal_rule (rex_seq [Edge, lit_i ''dd'', spaces1, lit_i ''if='']) PC_disk_destroy,
     literal_rule (rex_seq [lit '':()'', spaces0, lit ''{'']) PC_fork_bomb,
     literal_rule (spaced ''drop'' [''table'']) PC_db_drop,
     literal_rule (spaced ''truncate'' [''table'']) PC_db_drop,
     literal_rule (spaced ''drop'' [''database'']) PC_db_drop,
     literal_rule (whole_word ''dropdb'') PC_db_drop,
     literal_rule (spaced ''drop'' [''schema'']) PC_db_drop,
     literal_rule (spaced ''drop'' [''owned'', ''by'']) PC_db_drop,
     \<lparr>lr_re = rex_seq [Edge, lit_i ''mysqladmin'', Edge, Upto 512 (\<lambda>c. c \<notin> {BAR, SEMI, AMP, NL}), Edge, lit_i ''drop'', Edge],
      lr_segmentRe = Some (rex_seq [Edge, lit_i ''mysqladmin'', Edge, Upto 512 (\<lambda>c. True), Edge, lit_i ''drop'', Edge]),
      lr_category = PC_db_drop, lr_high = True\<rparr>,
     literal_rule (rex_seq [Edge, lit_i ''drop'', Upto 1 (one_of ''_''), lit_i ''database'', spaces0, lit ''('']) PC_db_drop,
     literal_rule (rex_seq [Edge, lit_i ''flush'', Alt (lit_i ''all'') (lit_i ''db''), Edge]) PC_db_drop,
     literal_rule (whole_word ''migrate'') PC_migrate_prod,
     literal_rule (whole_word ''production'') PC_migrate_prod,
     literal_rule (spaced ''git'' [''reset'', ''--hard'']) PC_history_rewrite,
     literal_rule (rex_seq [Edge, lit_i ''git'', spaces1, lit_i ''clean'', spaces1, lit ''-'', Many letter, lit_i ''f'']) PC_history_rewrite]"

definition literalRuleMatches :: "LiteralRule \<Rightarrow> jstring \<Rightarrow> jstring list \<Rightarrow> bool" where
  "literalRuleMatches rule command segments \<longleftrightarrow> rex_test (lr_re rule) command
    \<or> (case lr_segmentRe rule of None \<Rightarrow> False | Some re \<Rightarrow> list_ex (rex_test re) segments)"

definition matchesHighRiskLiteral :: "jstring \<Rightarrow> jstring list \<Rightarrow> bool" where
  "matchesHighRiskLiteral command segments \<longleftrightarrow>
    list_ex (\<lambda>rule. lr_high rule \<and> literalRuleMatches rule command segments) LITERAL_RULES"

definition addCommandLevelCategories :: "jstring \<Rightarrow> jstring list \<Rightarrow> cats \<Rightarrow> cats" where
  "addCommandLevelCategories command segments categories =
    fold (\<lambda>rule. if literalRuleMatches rule command segments then add_cat (lr_category rule) else id) LITERAL_RULES categories"

section \<open>The classifier\<close>

definition bump :: "RiskLevel option \<Rightarrow> RiskLevel \<Rightarrow> RiskLevel" where
  "bump r risk =
    (if r = Some Risk_high then Risk_high else if r = Some Risk_medium \<and> risk \<noteq> Risk_high then Risk_medium else risk)"

definition add_if :: "bool \<Rightarrow> PolicyCategory \<Rightarrow> cats \<Rightarrow> cats" where
  "add_if p c cs = (if p then add_cat c cs else cs)"

text \<open>The rules that make a segment high by the words of its program, with their categories.\<close>

definition program_rules :: "jstring \<Rightarrow> jstring list \<Rightarrow> (bool \<times> PolicyCategory) list" where
  "program_rules seg tokens =
    [(isRecursiveForcedRm tokens, PC_recursive_rm),
     (isForcedGitPush tokens \<or> isDestructiveGitWorktreeRewrite tokens, PC_history_rewrite),
     (definesShellGitAlias tokens, PC_inline_code),
     (isDangerousChmod tokens, PC_perm_change),
     (writesBlockDevice seg tokens, PC_disk_destroy),
     (isDestructiveDiskProgram tokens, PC_disk_destroy),
     (isDestructiveDiskSubcommand tokens, PC_disk_destroy)]"

definition program_risk :: "jstring \<Rightarrow> jstring list \<Rightarrow> RiskLevel \<times> cats \<Rightarrow> RiskLevel \<times> cats" where
  "program_risk seg tokens st =
    (let rules = program_rules seg tokens; findRisk = findDestructiveRisk tokens in
     (bump (if isRecursiveChown tokens then Some Risk_medium else None)
        (bump findRisk (bump (if list_ex fst rules then Some Risk_high else None) (fst st))),
      add_if (isRecursiveChown tokens) PC_perm_change
        (add_if (findRisk \<noteq> None) PC_recursive_rm (fold (\<lambda>(p, c). add_if p c) rules (snd st)))))"

definition bumped :: "RiskLevel option \<times> cats \<Rightarrow> RiskLevel \<Rightarrow> RiskLevel \<times> cats" where
  "bumped r risk = (bump (fst r) risk, snd r)"

text \<open>One segment: the risk and the categories so far, and after it.\<close>

definition segment_risk :: "classifier \<Rightarrow> nat \<Rightarrow> bool \<Rightarrow> jstring \<Rightarrow> RiskLevel \<times> cats \<Rightarrow> RiskLevel \<times> cats" where
  "segment_risk rec depth suppressGroupingMedium seg st =
    (let rawTokens = tokenize seg in
     if rawTokens = [] then
       (if hasLiveCommandSubstitution seg then (bump (Some Risk_medium) (fst st), add_cat PC_inline_code (snd st)) else st)
     else
       let st1 = bumped (unanalyzableSegmentRisk rec rawTokens seg depth suppressGroupingMedium (snd st)) (fst st);
           prog = programTokens rawTokens; tokens = sp_tokens prog
       in if tokens = [] then st1
          else
            let st2 = (if hasCommandWordSubstitution tokens \<and> depth < MAX_INLINE_DEPTH then
                         (case rec (flattenCommandSubstitutions seg) (snd st1) of (r, cs) \<Rightarrow> (bump (Some r) (fst st1), cs))
                       else st1);
                st3 = (if sp_capExhausted prog \<or> sp_unknownOption prog
                       then (bump (Some Risk_medium) (fst st2), add_cat PC_high_risk_other (snd st2)) else st2);
                st4 = program_risk seg tokens st3
            in bumped (inlineCodeRisk rec tokens seg depth (snd st4)) (fst st4))"

definition SUDO_RE :: rex where
  "SUDO_RE = rex_seq [Edge, rex_any [lit_i ''sudo'', lit_i ''doas'', lit_i ''pkexec'', lit_i ''run0''], Edge]"

definition CURL_SHELL_RE :: rex where
  "CURL_SHELL_RE = rex_seq [Edge, lit_i ''curl'', Edge, Many not_line_end, lit ''|'', spaces0, Alt (lit_i ''sh'') (lit_i ''bash'')]"

definition NPM_PUBLISH_RE :: rex where
  "NPM_PUBLISH_RE = rex_seq [lit_i ''npm'', spaces1, lit_i ''publish'']"

definition process_risk :: "classifier \<Rightarrow> splitter \<Rightarrow> nat \<Rightarrow> jstring \<Rightarrow> RiskLevel \<times> cats \<Rightarrow> RiskLevel \<times> cats" where
  "process_risk rec split depth command st =
    (if launchesShellWithProcessSubstitution command split then
       (let cs = add_cat PC_inline_code (snd st);
            st1 = (if depth < MAX_INLINE_DEPTH then bumped (reclassifyProcessSubstitution rec command cs) (fst st) else (fst st, cs))
        in (bump (Some Risk_medium) (fst st1), snd st1))
     else if hasProcessSubstitution command \<and> depth < MAX_INLINE_DEPTH then
       bumped (reclassifyProcessSubstitution rec command (snd st)) (fst st)
     else st)"

definition literal_risk :: "splitter \<Rightarrow> jstring \<Rightarrow> cats \<Rightarrow> RiskLevel \<times> cats" where
  "literal_risk split command categories =
    (let segmentScoped = (if split = Split_segments then run_split split command else []);
         device = rex_test BLOCK_DEVICE_RE command \<and> rex_test (Alt (Cls (one_of ''<>'')) (Sq (lit_i ''dd'') Edge)) command
     in (bump (if matchesHighRiskLiteral command segmentScoped \<or> device then Some Risk_high else None) Risk_low,
         add_if device PC_disk_destroy (addCommandLevelCategories command segmentScoped categories)))"

definition last_resort :: "jstring \<Rightarrow> RiskLevel \<times> cats \<Rightarrow> RiskLevel \<times> cats" where
  "last_resort command st =
    (if fst st \<noteq> Risk_low then st
     else if rex_test SUDO_RE command \<or> rex_test CURL_SHELL_RE command \<or> rex_test NPM_PUBLISH_RE command
     then (Risk_medium, add_if (rex_test CURL_SHELL_RE command) PC_inline_code (snd st))
     else (Risk_low, snd st))"

definition classify_command :: "classifier \<Rightarrow> splitter \<Rightarrow> nat \<Rightarrow> jstring \<Rightarrow> cats \<Rightarrow> RiskLevel \<times> cats" where
  "classify_command rec split depth command categories =
    (let st = process_risk rec split depth command (literal_risk split command categories);
         suppress = co_starts (collectSubstitutionInners command True) \<noteq> [] \<and> \<not> launchesShellWithProcessSubstitution command split
     in last_resort command (fold (segment_risk rec depth suppress) (run_split split command) st))"

function classifyCommandRiskInternal :: "splitter \<Rightarrow> nat \<Rightarrow> jstring \<Rightarrow> cats \<Rightarrow> RiskLevel \<times> cats" where
  "classifyCommandRiskInternal split depth command categories =
    (if command = [] then (Risk_high, categories)
     else if length command > MAX_ANALYZABLE_COMMAND_LEN then (Risk_high, categories)
     else if depth \<ge> MAX_INLINE_DEPTH then (Risk_medium, add_cat PC_high_risk_other categories)
     else classify_command (\<lambda>c cs. classifyCommandRiskInternal split (depth + 1) c cs) split depth command categories)"
  by pat_completeness auto
termination by (relation "measure (\<lambda>(split, depth, command, categories). MAX_INLINE_DEPTH - depth)") auto

declare classifyCommandRiskInternal.simps [simp del]

definition classifyCommandRisk :: "jstring \<Rightarrow> RiskLevel" where
  "classifyCommandRisk command =
    (let primary = fst (classifyCommandRiskInternal Split_segments 0 command None) in
     if primary = Risk_high then Risk_high
     else if fst (classifyCommandRiskInternal Split_quote_unaware 0 command None) = Risk_high then Risk_high else primary)"

definition classifyCommandWithCategories :: "jstring \<Rightarrow> RiskLevel \<times> PolicyCategory list" where
  "classifyCommandWithCategories command =
    (case (classifyCommandRiskInternal Split_segments 0 command (Some []),
           classifyCommandRiskInternal Split_quote_unaware 0 command (Some [])) of
       ((primary, cs), (legacy, legacy_cs)) \<Rightarrow>
         let risk = (if legacy = Risk_high then Risk_high else primary);
             categories = (if legacy = Risk_high then fold List.insert (the legacy_cs) (the cs) else the cs)
         in (risk, if risk = Risk_high \<and> categories = [] then [PC_high_risk_other] else categories))"

definition classifyCommandCategories :: "jstring \<Rightarrow> PolicyCategory list" where
  "classifyCommandCategories command = snd (classifyCommandWithCategories command)"

section \<open>Network egress and persistent grants\<close>

definition NETWORK_EXEC_PROGRAMS :: "jstring list" where
  "NETWORK_EXEC_PROGRAMS = words
    (''curl wget nc ncat netcat socat ssh scp sftp ftp telnet'')"

definition isEgressProgram :: "jstring list \<Rightarrow> bool" where
  "isEgressProgram tokens \<longleftrightarrow> tokens \<noteq> [] \<and> normalizeCommandName (commandName tokens) \<in> set NETWORK_EXEC_PROGRAMS"

definition egress_scan :: "jstring list \<Rightarrow> bool" where
  "egress_scan segments = list_ex (\<lambda>seg.
     let tokens = sp_tokens (programTokens (tokenize seg)) in
     isEgressProgram tokens
     \<or> hasCommandWordSubstitution tokens
         \<and> isEgressProgram (sp_tokens (programTokens (tokenize (flattenCommandSubstitutions seg))))) segments"

definition isNetworkEgressCommand :: "jstring \<Rightarrow> bool" where
  "isNetworkEgressCommand command =
    (if command = [] then False
     else if length command > MAX_ANALYZABLE_COMMAND_LEN then True
     else egress_scan (splitSegments command) \<or> egress_scan (splitSegmentsQuoteUnaware command))"

definition SHELL_COMPOSITION_RE :: "nat \<Rightarrow> bool" where
  "SHELL_COMPOSITION_RE c \<longleftrightarrow>
    c \<in> {BAR, AMP, SEMI, DOLLAR, BTICK, LPAREN, RPAREN, LBRACE, RBRACE, LT, GT, NL}"

definition PERSIST_DENY_PROGRAMS :: "jstring list" where
  "PERSIST_DENY_PROGRAMS = words
    (''sudo su doas pkexec run0 env command exec eval source . xargs nice ionice timeout time builtin ''
     @ ''watch setsid stdbuf nohup chroot unshare taskset flock script busybox toybox sh bash zsh dash ''
     @ ''ksh fish csh tcsh ash node nodejs deno bun ts-node tsx python python2 python3 pypy pypy3 perl ''
     @ ''ruby php lua luajit Rscript groovy scala npm pnpm yarn npx pnpx bunx make cmake gradle gradlew ''
     @ ''mvn ant bazel task just docker podman nerdctl kubectl helm compose'')
    @ NETWORK_EXEC_PROGRAMS @ words
    (''chown chgrp chmod rm rmdir dd shred truncate mv ln mkfs mount umount kill pkill killall crontab ''
     @ ''at install setfacl chattr chcon'')"

definition findUsesExec :: "jstring list \<Rightarrow> bool" where
  "findUsesExec tokens \<longleftrightarrow> commandName tokens = js ''find''
    \<and> list_ex (\<lambda>t. t \<in> set (words ''-exec -execdir -ok -okdir'')) (tl tokens)"

definition isPersistDeniedCommand :: "jstring \<Rightarrow> bool" where
  "isPersistDeniedCommand command =
    (if command = [] then True
     else if list_ex SHELL_COMPOSITION_RE command then True
     else case tokenize command of
       [] \<Rightarrow> True
     | first # rest \<Rightarrow>
         (let tokens = first # rest in
          if \<not> isCleanExecutableToken first then True
          else if findUsesExec tokens then True
          else if isDestructiveDiskProgram tokens \<or> isDestructiveDiskSubcommand tokens then True
          else normalizeCommandName (commandName tokens) \<in> set PERSIST_DENY_PROGRAMS))"

end
