(* ===== verification/Shell_Lexer_Correct.thy ===== *)
theory Shell_Lexer_Correct
  imports Shell_Lexer
begin

text \<open>
  A grammar of shell commands, and that the sidecar reads back what was written: words made of plain
  text, quotes of all kinds and escapes, redirections with file descriptors, comments,
  here-documents and the operators between commands.
\<close>

section \<open>A grammar of commands\<close>

datatype fragment = Plain jstring | Single jstring | Double jstring | Ansi jstring | Escaped nat

definition plain_char :: "nat \<Rightarrow> bool" where
  "plain_char c \<longleftrightarrow> \<not> isWordBoundaryChar c \<and> c \<notin> {BSLASH, SQUOTE, DQUOTE, DOLLAR, BTICK, LPAREN, RPAREN}"

fun protect :: "nat list \<Rightarrow> jstring \<Rightarrow> jstring" where
  "protect cs [] = []"
| "protect cs (c # s) = (if c \<in> set cs then [BSLASH, c] else [c]) @ protect cs s"

fun wf_fragment :: "fragment \<Rightarrow> bool" where
  "wf_fragment (Plain s) \<longleftrightarrow> s \<noteq> [] \<and> list_all plain_char s"
| "wf_fragment (Single s) \<longleftrightarrow> SQUOTE \<notin> set s"
| "wf_fragment (Double s) \<longleftrightarrow> True"
| "wf_fragment (Ansi s) \<longleftrightarrow> True"
| "wf_fragment (Escaped c) \<longleftrightarrow> \<not> js_space c"

fun render_fragment :: "fragment \<Rightarrow> jstring" where
  "render_fragment (Plain s) = s"
| "render_fragment (Single s) = SQUOTE # s @ [SQUOTE]"
| "render_fragment (Double s) = DQUOTE # protect [DOLLAR, BTICK, DQUOTE, BSLASH] s @ [DQUOTE]"
| "render_fragment (Ansi s) = DOLLAR # SQUOTE # protect [SQUOTE, BSLASH] s @ [SQUOTE]"
| "render_fragment (Escaped c) = [BSLASH, c]"

fun fragment_literal :: "fragment \<Rightarrow> jstring" where
  "fragment_literal (Plain s) = s"
| "fragment_literal (Single s) = s"
| "fragment_literal (Double s) = s"
| "fragment_literal (Ansi s) = s"
| "fragment_literal (Escaped c) = [c]"

fun is_escaped :: "fragment \<Rightarrow> bool" where
  "is_escaped (Escaped c) = True"
| "is_escaped _ = False"

fun starts_hash :: "fragment list \<Rightarrow> bool" where
  "starts_hash (Plain (c # s) # w) \<longleftrightarrow> c = HASH"
| "starts_hash _ \<longleftrightarrow> False"

definition wf_word :: "fragment list \<Rightarrow> bool" where
  "wf_word w \<longleftrightarrow> w \<noteq> [] \<and> list_all wf_fragment w \<and> \<not> starts_hash w"

definition render_word :: "fragment list \<Rightarrow> jstring" where
  "render_word w = concat (map render_fragment w)"

definition word_literal :: "fragment list \<Rightarrow> jstring" where
  "word_literal w = concat (map fragment_literal w)"

datatype redirection =
  Out | Append | Clobber | Dup_out | In | In_out | Dup_in | Both | Both_append | Here_string

fun operator_text :: "redirection \<Rightarrow> jstring" where
  "operator_text Out = [GT]"
| "operator_text Append = [GT, GT]"
| "operator_text Clobber = [GT, BAR]"
| "operator_text Dup_out = [GT, AMP]"
| "operator_text In = [LT]"
| "operator_text In_out = [LT, GT]"
| "operator_text Dup_in = [LT, AMP]"
| "operator_text Both = [AMP, GT]"
| "operator_text Both_append = [AMP, GT, GT]"
| "operator_text Here_string = [LT, LT, LT]"

datatype item = Word "fragment list" | Redirect jstring redirection "fragment list"

fun wf_item :: "item \<Rightarrow> bool" where
  "wf_item (Word w) \<longleftrightarrow> wf_word w"
| "wf_item (Redirect fd opr w) \<longleftrightarrow> list_all digit fd \<and> length fd \<le> FD_SCAN_LIMIT \<and> wf_word w"

fun render_item :: "item \<Rightarrow> jstring" where
  "render_item (Word w) = render_word w @ [SPACE]"
| "render_item (Redirect fd opr w) = fd @ operator_text opr @ render_word w @ [SPACE]"

datatype separator =
  Semicolon | Newline | Pipe | Or | Background | And | Comment jstring | Heredoc jstring "jstring list"

fun wf_separator :: "separator \<Rightarrow> bool" where
  "wf_separator (Comment t) \<longleftrightarrow> NL \<notin> set t"
| "wf_separator (Heredoc d ls) \<longleftrightarrow> d \<noteq> [] \<and> NL \<notin> set d \<and> SQUOTE \<notin> set d \<and> list_all (\<lambda>l. NL \<notin> set l \<and> l \<noteq> d) ls"
| "wf_separator _ \<longleftrightarrow> True"

fun render_separator :: "separator \<Rightarrow> jstring" where
  "render_separator Semicolon = [SEMI, SPACE]"
| "render_separator Newline = [NL, SPACE]"
| "render_separator Pipe = [BAR, SPACE]"
| "render_separator Or = [BAR, BAR, SPACE]"
| "render_separator Background = [AMP, SPACE]"
| "render_separator And = [AMP, AMP, SPACE]"
| "render_separator (Comment t) = HASH # t @ [NL, SPACE]"
| "render_separator (Heredoc d ls) =
    [LT, LT, SQUOTE] @ d @ [SQUOTE, NL] @ concat (map (\<lambda>l. l @ [NL]) ls) @ d @ [NL, SPACE]"

type_synonym script = "(item list \<times> separator) list \<times> item list"

definition wf_script :: "script \<Rightarrow> bool" where
  "wf_script sc \<longleftrightarrow> list_all (\<lambda>(is, sep). list_all wf_item is \<and> wf_separator sep) (fst sc) \<and> list_all wf_item (snd sc)"

definition render_items :: "item list \<Rightarrow> jstring" where
  "render_items is = concat (map render_item is)"

definition render :: "script \<Rightarrow> jstring" where
  "render sc = concat (map (\<lambda>(is, sep). render_items is @ render_separator sep) (fst sc)) @ render_items (snd sc)"

definition commands :: "script \<Rightarrow> item list list" where
  "commands sc = map fst (fst sc) @ [snd sc]"

fun item_words :: "item list \<Rightarrow> fragment list list" where
  "item_words [] = []"
| "item_words (Word w # is) = w # item_words is"
| "item_words (Redirect fd opr w # is) = item_words is"

fun executed_targets :: "item list \<Rightarrow> fragment list list" where
  "executed_targets [] = []"
| "executed_targets (Word w # is) = executed_targets is"
| "executed_targets (Redirect fd opr w # is) =
    (if hasExecutableSubstitution (render_word w) then [w] else []) @ executed_targets is"

definition literals :: "fragment list list \<Rightarrow> jstring list" where
  "literals ws = filter (\<lambda>s. s \<noteq> []) (map word_literal ws)"

section \<open>Fragments\<close>

subsection \<open>Quotes close where they should\<close>

lemma close_protected:
  "q \<in> set cs \<Longrightarrow> BSLASH \<in> set cs \<Longrightarrow>
    close_quote True q (protect cs s @ q # r) = Some (Suc (length (protect cs s)))" if "q \<noteq> BSLASH"
  using that by (induction s) auto

lemma close_single: "SQUOTE \<notin> set s \<Longrightarrow> close_quote False SQUOTE (s @ SQUOTE # r) = Some (Suc (length s))"
  by (induction s) auto

lemma unescape_protected:
  assumes "set cs = (if dollar then {SQUOTE, BSLASH} else {DOLLAR, BTICK, DQUOTE, BSLASH})"
  shows "unescape_body dollar (protect cs s) = s"
proof (induction s)
  case (Cons c s)
  show ?case
  proof (cases "c \<in> set cs")
    case True
    with assms Cons show ?thesis by (cases dollar) (auto simp: ANSI_C_ESCAPES_def)
  next
    case False
    with assms have "c \<noteq> BSLASH" by (auto split: if_splits)
    with False Cons show ?thesis by (cases "protect cs s") auto
  qed
qed simp

text \<open>Before a fragment, backslashes come in pairs and a dollar sign is escaped.\<close>

definition backslashes :: "jstring \<Rightarrow> nat" where
  "backslashes b = length (takeWhile (\<lambda>c. c = BSLASH) b)"

definition before_ok :: "jstring \<Rightarrow> bool" where
  "before_ok b \<longleftrightarrow> even (backslashes b) \<and>
    (case b of [] \<Rightarrow> True | c # b' \<Rightarrow> c = DOLLAR \<longrightarrow> odd (backslashes b') \<and> (b' = [] \<or> hd b' \<noteq> DOLLAR))"

lemma backslashes_simps [simp]:
  "backslashes [] = 0" "backslashes (c # b) = (if c = BSLASH then Suc (backslashes b) else 0)"
  by (simp_all add: backslashes_def)

lemma before_ok_simps [simp]:
  "before_ok []" "c \<noteq> BSLASH \<Longrightarrow> c \<noteq> DOLLAR \<Longrightarrow> before_ok (c # b)"
  by (simp_all add: before_ok_def)

lemma no_pid: "before_ok b \<Longrightarrow> \<not> dollarPairsIntoPid b"
proof (cases b)
  case (Cons c b')
  assume ok: "before_ok b"
  show ?thesis
  proof (cases "c = DOLLAR")
    case True
    with ok Cons have "takeWhile (\<lambda>c. c = DOLLAR) b' = []" "odd (backslashes b')"
      by (auto simp: before_ok_def takeWhile_eq_Nil_iff)
    moreover from this(1) have "dropWhile (\<lambda>c. c = DOLLAR) b' = b'"
      by (metis takeWhile_dropWhile_id append_Nil)
    ultimately show ?thesis
      using True Cons by (simp add: dollarPairsIntoPid_def backslashes_def)
  qed (use ok Cons in \<open>simp add: dollarPairsIntoPid_def before_ok_def backslashes_def\<close>)
qed (simp add: dollarPairsIntoPid_def)

lemma before_ok_fragment:
  "before_ok b \<Longrightarrow> wf_fragment fr \<Longrightarrow> before_ok (rev (render_fragment fr) @ b)"
proof (cases fr)
  case (Plain s)
  assume "wf_fragment fr"
  with Plain obtain c s' where "s = s' @ [c]" "plain_char c"
    by (cases s rule: rev_cases) auto
  with Plain show ?thesis by (simp add: plain_char_def)
qed (auto simp: before_ok_def)

subsection \<open>What each scanner sees at a fragment\<close>

lemma no_quote: "c \<notin> {SQUOTE, DQUOTE, DOLLAR} \<Longrightarrow> quoteSpanEnd b (c # s) = No_span"
  by (simp add: quoteSpanEnd_def Let_def)

lemma no_substitution: "c \<notin> {BTICK, DOLLAR, LT, GT} \<Longrightarrow> substitutionEnd (c # s) = No_span"
  by (simp add: substitutionEnd_def)

fun quoted :: "fragment \<Rightarrow> bool" where
  "quoted (Single s) = True"
| "quoted (Double s) = True"
| "quoted (Ansi s) = True"
| "quoted _ = False"

lemma quoted_span:
  "quoted fr \<Longrightarrow> wf_fragment fr \<Longrightarrow> before_ok b \<Longrightarrow>
    quoteSpanEnd b (render_fragment fr @ r) = Span (length (render_fragment fr))"
  using no_pid [of b]
  by (cases fr) (auto simp: quoteSpanEnd_def Let_def char_at_def close_single close_protected to_span_def)

lemma quoted_literal:
  "quoted fr \<Longrightarrow> wf_fragment fr \<Longrightarrow> quotedSpanLiteral (render_fragment fr) = fragment_literal fr"
  by (cases fr) (auto simp: quotedSpanLiteral_def Let_def char_at_def unescape_protected)

lemma quoted_start:
  "quoted fr \<Longrightarrow> \<exists>c s. render_fragment fr = c # s \<and> c \<notin> {BSLASH, HASH}"
  by (cases fr) auto

lemma plain_not_boundary: "plain_char c \<Longrightarrow> \<not> isWordBoundaryChar c \<and> \<not> isWhitespaceBoundaryChar c \<and> \<not> js_space c"
  by (simp add: plain_char_def isWordBoundaryChar_def isWhitespaceBoundaryChar_def)


lemma plain_no_span:
  "plain_char c \<Longrightarrow> quoteSpanEnd b (c # s) = No_span \<and> substitutionEnd (c # s) = No_span \<and> c \<noteq> BSLASH"
  by (auto simp: plain_char_def isWordBoundaryChar_def intro!: no_quote no_substitution)

subsection \<open>Reading a word\<close>

text \<open>A boundary predicate as the two of the source: no plain character is one, a space and a line end are.\<close>

definition word_boundary :: "(nat \<Rightarrow> bool) \<Rightarrow> bool" where
  "word_boundary P \<longleftrightarrow> (\<forall>c. plain_char c \<longrightarrow> \<not> P c) \<and> P SPACE \<and> P NL"

lemma boundary_chars [simp]:
  "js_space SPACE" "js_space NL" "isWordBoundaryChar SPACE" "isWordBoundaryChar NL"
  "isWhitespaceBoundaryChar SPACE" "isWhitespaceBoundaryChar NL"
  by (simp_all add: isWordBoundaryChar_def isWhitespaceBoundaryChar_def js_space_def)

lemma word_boundaries: "word_boundary isWordBoundaryChar" "word_boundary isWhitespaceBoundaryChar"
  by (simp_all add: word_boundary_def plain_not_boundary)

lemma word_more_assoc [simp]:
  "word_more n l e (word_more m l' e' w) = word_more (n + m) (l @ l') (e \<or> e') w"
  by (simp add: word_more_def add_ac disj_ac)

lemma word_more_0 [simp]: "word_more 0 [] False w = w"
  by (simp add: word_more_def)

lemma budget_left [simp]: "budgeted 0 sp = sp"
  by (simp add: budgeted_def MAX_SUBSTITUTION_SCAN_FAILURES_def)

lemma read_plain:
  "word_boundary P \<Longrightarrow> list_all plain_char s \<Longrightarrow>
    readWord P b (s @ r) 0 = word_more (length s) s False (readWord P (rev s @ b) r 0)"
  by (induction s arbitrary: b) (auto simp: readWord.simps plain_no_span word_boundary_def)

lemma read_quoted:
  assumes "quoted fr" "wf_fragment fr" "before_ok b"
  shows "readWord P b (render_fragment fr @ r) 0 =
    word_more (length (render_fragment fr)) (fragment_literal fr) False (readWord P (rev (render_fragment fr) @ b) r 0)"
proof -
  obtain c s where cs: "render_fragment fr = c # s" "c \<noteq> BSLASH"
    using quoted_start [OF assms(1)] by auto
  show ?thesis
    using quoted_span [OF assms, of r] quoted_literal [OF assms(1,2)] cs by (simp add: readWord.simps)
qed

lemma read_fragment:
  assumes "word_boundary P" "wf_fragment fr" "before_ok b"
  shows "readWord P b (render_fragment fr @ r) 0 =
    word_more (length (render_fragment fr)) (fragment_literal fr) (is_escaped fr)
      (readWord P (rev (render_fragment fr) @ b) r 0)"
  using assms read_quoted [of fr b P r]
  by (cases fr) (auto simp: read_plain readWord.simps)

definition ends_word :: "jstring \<Rightarrow> bool" where
  "ends_word r \<longleftrightarrow> r = [] \<or> hd r = SPACE \<or> hd r = NL"

lemma read_stop: "word_boundary P \<Longrightarrow> ends_word r \<Longrightarrow> readWord P b r 0 = word_stop False 0"
  by (cases r) (auto simp: ends_word_def word_boundary_def readWord.simps no_quote no_substitution)

lemma read_fragments:
  assumes "word_boundary P" "ends_word r"
  shows "list_all wf_fragment w \<Longrightarrow> before_ok b \<Longrightarrow>
    readWord P b (render_word w @ r) 0 =
      word_more (length (render_word w)) (word_literal w) (list_ex is_escaped w) (word_stop False 0)"
proof (induction w arbitrary: b)
  case Nil
  then show ?case
    by (simp add: read_stop [OF assms] render_word_def word_literal_def)
next
  case (Cons fr w)
  then show ?case
    using read_fragment [OF assms(1), of fr b "render_word w @ r"]
    by (simp add: before_ok_fragment render_word_def word_literal_def)
qed


section \<open>The words of a segment\<close>

text \<open>Words with the number of spaces before each.\<close>

definition gapped :: "(nat \<times> fragment list) list \<Rightarrow> jstring" where
  "gapped gs = concat (map (\<lambda>(g, w). replicate g SPACE @ render_word w) gs)"

lemma gapped_simps [simp]:
  "gapped [] = []" "gapped ((g, w) # gs) = replicate g SPACE @ render_word w @ gapped gs"
  by (simp_all add: gapped_def)

lemma quotes_not_space [simp]: "\<not> js_space SQUOTE" "\<not> js_space DQUOTE" "\<not> js_space DOLLAR" "\<not> js_space BSLASH"
  by (simp_all add: js_space_def)

lemma fragment_ends:
  assumes "wf_fragment fr"
  shows "render_fragment fr \<noteq> []" "\<not> js_space (hd (render_fragment fr))" "\<not> js_space (List.last (render_fragment fr))"
  using assms plain_not_boundary quotes_not_space
  by (cases fr; simp add: list_all_iff)+

lemma word_ends:
  assumes "wf_word w"
  shows "render_word w \<noteq> []" "\<not> js_space (hd (render_word w))" "\<not> js_space (List.last (render_word w))"
proof -
  have ne: "w \<noteq> []" and wf: "\<And>fr. fr \<in> set w \<Longrightarrow> wf_fragment fr"
    using assms by (auto simp: wf_word_def list_all_iff)
  obtain fr w' where first: "w = fr # w'" "wf_fragment fr"
    using ne wf by (cases w) auto
  obtain w'' fr' where final: "w = w'' @ [fr']" "wf_fragment fr'"
    using ne wf by (cases w rule: rev_cases) auto
  show "render_word w \<noteq> []" "\<not> js_space (hd (render_word w))"
    using fragment_ends [OF first(2)] by (simp_all add: first(1) render_word_def)
  show "\<not> js_space (List.last (render_word w))"
    using fragment_ends [OF final(2)] by (simp add: final(1) render_word_def)
qed

lemma before_ok_word: "before_ok b \<Longrightarrow> list_all wf_fragment w \<Longrightarrow> before_ok (rev (render_word w) @ b)"
  by (induction w arbitrary: b) (auto simp: render_word_def before_ok_fragment)

lemma before_ok_spaces: "before_ok b \<Longrightarrow> before_ok (replicate g SPACE @ b)"
  by (cases g) auto

lemma skip_spaces: "segmentWords b (replicate g SPACE @ r) f = segmentWords (replicate g SPACE @ b) r f"
  by (induction g arbitrary: b) (simp_all add: segmentWords.simps replicate_app_Cons_same)

lemma segment_word:
  assumes "wf_word w" "before_ok b" "ends_word r"
  shows "segmentWords b (render_word w @ r) 0 =
    word_more (length (render_word w)) (word_literal w) (list_ex is_escaped w) (word_stop False 0)
      # segmentWords (rev (render_word w) @ b) r 0"
proof -
  obtain c s where cs: "render_word w = c # s"
    using word_ends(1) [OF assms(1)] by (cases "render_word w") auto
  have "\<not> isWhitespaceBoundaryChar c"
    using word_ends(2) [OF assms(1)] by (simp add: cs isWhitespaceBoundaryChar_def)
  then show ?thesis
    using read_fragments [OF word_boundaries(2) assms(3), of w b] assms(1,2) cs
    by (simp add: segmentWords.simps wf_word_def Let_def)
qed

fun gaps_ok :: "(nat \<times> fragment list) list \<Rightarrow> bool" where
  "gaps_ok [] \<longleftrightarrow> True"
| "gaps_ok ((g, w) # gs) \<longleftrightarrow> wf_word w \<and> list_all (\<lambda>(g, w). 0 < g) gs \<and> gaps_ok gs"

lemma gapped_ends: "list_all (\<lambda>(g, w). 0 < g) gs \<Longrightarrow> ends_word (gapped gs)"
  by (cases gs) (auto simp: ends_word_def gr0_conv_Suc)

lemma segment_gapped:
  "gaps_ok gs \<Longrightarrow> before_ok b \<Longrightarrow>
    map ws_literal (segmentWords b (gapped gs) 0) = map word_literal (map snd gs)"
proof (induction gs arbitrary: b rule: gaps_ok.induct)
  case (2 g w gs)
  then show ?case
    using segment_word [of w "replicate g SPACE @ b" "gapped gs"]
    by (simp add: skip_spaces before_ok_spaces before_ok_word gapped_ends wf_word_def)
qed (simp add: segmentWords.simps)

lemma tokenize_gapped: "gaps_ok gs \<Longrightarrow> tokenize (gapped gs) = literals (map snd gs)"
  using segment_gapped [of gs "[]"] by (simp add: tokenize_def literals_def)

subsection \<open>What a command leaves in its segment\<close>

fun item_residue :: "item \<Rightarrow> jstring" where
  "item_residue (Word w) = render_word w @ [SPACE]"
| "item_residue (Redirect fd opr w) = [SPACE]"

definition residue :: "item list \<Rightarrow> jstring" where
  "residue is = concat (map item_residue is)"

fun item_gaps :: "nat \<Rightarrow> item list \<Rightarrow> (nat \<times> fragment list) list" where
  "item_gaps g [] = []"
| "item_gaps g (Word w # is) = (g, w) # item_gaps 1 is"
| "item_gaps g (Redirect fd opr w # is) = item_gaps (Suc g) is"

fun trailing :: "nat \<Rightarrow> item list \<Rightarrow> nat" where
  "trailing g [] = g"
| "trailing g (Word w # is) = trailing 1 is"
| "trailing g (Redirect fd opr w # is) = trailing (Suc g) is"

lemma residue_gapped:
  "replicate g SPACE @ residue is = gapped (item_gaps g is) @ replicate (trailing g is) SPACE"
proof (induction g "is" rule: item_gaps.induct)
  case (3 g fd opr w "is")
  then show ?case by (simp add: residue_def replicate_app_Cons_same [symmetric])
qed (simp_all add: residue_def)

lemma item_gaps_words: "map snd (item_gaps g is) = item_words is"
  by (induction g "is" rule: item_gaps.induct) auto

lemma item_gaps_pos: "0 < g \<Longrightarrow> list_all (\<lambda>(g, w). 0 < g) (item_gaps g is)"
  by (induction g "is" rule: item_gaps.induct) auto

lemma item_gaps_ok: "list_all wf_item is \<Longrightarrow> gaps_ok (item_gaps g is)"
  by (induction g "is" rule: item_gaps.induct) (auto simp: item_gaps_pos)

lemma dropWhile_replicate: "P x \<Longrightarrow> dropWhile P (replicate n x @ r) = dropWhile P r"
  by (induction n) auto

lemma js_trim_spaces: "js_trim (replicate n SPACE @ s @ replicate m SPACE) = js_trim s"
proof (cases "dropWhile js_space s = []")
  case True
  then have "dropWhile js_space (s @ replicate m SPACE) = []" by (auto simp: dropWhile_eq_Nil_conv)
  with True show ?thesis by (auto simp: js_trim_def dropWhile_replicate dest: set_dropWhileD)
next
  case False
  then obtain c where "c \<in> set s" "\<not> js_space c" by auto
  then have "dropWhile js_space (s @ replicate m SPACE) = dropWhile js_space s @ replicate m SPACE"
    by (rule dropWhile_append1)
  then show ?thesis by (simp add: js_trim_def dropWhile_replicate)
qed

lemma js_trim_id: "s = [] \<or> \<not> js_space (hd s) \<and> \<not> js_space (List.last s) \<Longrightarrow> js_trim s = s"
  by (cases s; cases s rule: rev_cases) (auto simp: js_trim_def dropWhile_eq_self_iff hd_rev hd_append split: if_splits)

lemma gapped_last: "gs \<noteq> [] \<Longrightarrow> gaps_ok gs \<Longrightarrow> gapped gs \<noteq> [] \<and> \<not> js_space (List.last (gapped gs))"
proof (induction gs rule: gaps_ok.induct)
  case (2 g w gs)
  then show ?case using word_ends [of w] by (cases gs) auto
qed simp

lemma trim_residue:
  assumes "list_all wf_item is"
  shows "js_trim (replicate g SPACE @ residue is) =
    (case item_gaps g is of [] \<Rightarrow> [] | (_, w) # gs \<Rightarrow> gapped ((0, w) # gs))"
proof (cases "item_gaps g is")
  case Nil
  with residue_gapped [of g "is"] js_trim_spaces [of "trailing g is" "[]" 0] show ?thesis
    by (simp add: js_trim_id)
next
  case (Cons p gs)
  obtain k w where p: "p = (k, w)" by (cases p)
  have ok: "gaps_ok ((k, w) # gs)" using item_gaps_ok [OF assms, of g] Cons p by simp
  have "js_trim (replicate g SPACE @ residue is) = js_trim (gapped ((0, w) # gs))"
    using residue_gapped [of g "is"] js_trim_spaces [of k "gapped ((0, w) # gs)" "trailing g is"] Cons p by simp
  also have "\<dots> = gapped ((0, w) # gs)"
    using gapped_last [of "(0, w) # gs"] word_ends [of w] ok by (intro js_trim_id) simp
  finally show ?thesis using Cons p by simp
qed

definition segment_of :: "nat \<Rightarrow> item list \<Rightarrow> jstring list" where
  "segment_of g is = (let s = js_trim (replicate g SPACE @ residue is) in if s = [] then [] else [s])"

lemma tokenize_segment:
  assumes "list_all wf_item is"
  shows "map tokenize (segment_of g is) = (if item_words is = [] then [] else [literals (item_words is)])"
proof (cases "item_gaps g is")
  case Nil
  with trim_residue [OF assms, of g] item_gaps_words [of g "is"] show ?thesis
    by (simp add: segment_of_def)
next
  case (Cons p gs)
  obtain k w where p: "p = (k, w)" by (cases p)
  have ok: "gaps_ok ((k, w) # gs)" using item_gaps_ok [OF assms, of g] Cons p by simp
  have words: "w # map snd gs = item_words is"
    using item_gaps_words [of g "is"] Cons p by simp
  then show ?thesis
    using trim_residue [OF assms, of g] tokenize_gapped [of "(0, w) # gs"] word_ends(1) [of w] ok Cons p
    by (auto simp: segment_of_def)
qed


section \<open>Cutting a command\<close>

subsection \<open>Words\<close>

lemma split_step:
  "split_round b c s st = Some (n, st') \<Longrightarrow>
    split_loop b (c # s) st = split_loop (rev (take n (c # s)) @ b) (drop n (c # s)) st'"
  by (simp add: split_loop.simps)

lemma sp_append_simps [simp]:
  "sp_append s (sp_append t st) = sp_append (t @ s) st" "sp_append [] st = st"
  "sp_current (sp_append s st) = sp_current st @ s" "sp_segments (sp_append s st) = sp_segments st"
  "sp_escaped (sp_append s st) = sp_escaped st" "sp_elided (sp_append s st) = sp_elided st"
  "sp_heredocs (sp_append s st) = sp_heredocs st"
  "(sp_append s st)\<lparr>sp_escaped := e\<rparr> = sp_append s (st\<lparr>sp_escaped := e\<rparr>)"
  by (simp_all add: sp_append_def)

text \<open>A comment cannot start here.\<close>

definition mid_word :: "jstring \<Rightarrow> split_state \<Rightarrow> bool" where
  "mid_word b st \<longleftrightarrow> sp_escaped st \<or> (case b of [] \<Rightarrow> False | c # _ \<Rightarrow> \<not> isWordBoundaryChar c)"

lemma plain_round:
  assumes "plain_char c" "c = HASH \<Longrightarrow> mid_word b st"
  shows "split_round b c s st = Some (1, sp_append [c] (st\<lparr>sp_escaped := False\<rparr>))"
proof -
  have "c \<noteq> SEMI" "c \<noteq> NL" "c \<noteq> BAR" "c \<noteq> AMP" "c \<noteq> LT" "c \<noteq> GT"
    using assms(1) by (auto simp: plain_char_def isWordBoundaryChar_def js_space_def)
  moreover have "c = HASH \<Longrightarrow> \<not> startsComment b (sp_escaped st) (c # s)"
    using assms(2) by (auto simp: mid_word_def startsComment_def split: list.splits)
  ultimately show ?thesis
    using plain_no_span [OF assms(1), of b s] by (cases "c = HASH") (simp_all add: split_round_def Let_def)
qed

lemma split_plain:
  assumes "list_all plain_char s" "s \<noteq> []" "hd s = HASH \<Longrightarrow> mid_word b st"
  shows "split_loop b (s @ r) st = split_loop (rev s @ b) r (sp_append s (st\<lparr>sp_escaped := False\<rparr>))"
  using assms
proof (induction s arbitrary: b st)
  case (Cons c s)
  note step = split_step [OF plain_round [of c b st "s @ r"]]
  show ?case
  proof (cases "s = []")
    case True
    with Cons.prems step show ?thesis by simp
  next
    case False
    have "mid_word (c # b) (sp_append [c] (st\<lparr>sp_escaped := False\<rparr>))"
      using Cons.prems(1) plain_not_boundary by (simp add: mid_word_def)
    with Cons False step show ?thesis by simp
  qed
qed simp

lemma quoted_round:
  assumes "quoted fr" "wf_fragment fr" "before_ok b" "render_fragment fr @ r = c # s"
  shows "split_round b c s st =
    Some (length (render_fragment fr), sp_append (render_fragment fr) (st\<lparr>sp_escaped := False\<rparr>))"
proof -
  have "c \<noteq> BSLASH" "c \<noteq> HASH" using quoted_start [OF assms(1)] assms(4) by auto
  moreover have "take (length (render_fragment fr)) (c # s) = render_fragment fr"
    by (simp flip: assms(4))
  ultimately show ?thesis
    using quoted_span [OF assms(1-3), of r] by (simp add: split_round_def assms(4))
qed

lemma split_fragment:
  assumes "wf_fragment fr" "before_ok b" "starts_hash [fr] \<Longrightarrow> mid_word b st"
  shows "split_loop b (render_fragment fr @ r) st =
    split_loop (rev (render_fragment fr) @ b) r (sp_append (render_fragment fr) (st\<lparr>sp_escaped := is_escaped fr\<rparr>))"
proof (cases "quoted fr")
  case True
  obtain c s where cs: "render_fragment fr @ r = c # s"
    using quoted_start [OF True] by auto
  have "\<not> is_escaped fr" using True by (cases fr) auto
  moreover have "take (length (render_fragment fr)) (c # s) = render_fragment fr" "drop (length (render_fragment fr)) (c # s) = r"
    by (simp_all flip: cs)
  ultimately show ?thesis
    using split_step [OF quoted_round [OF True assms(1,2) cs, of st]] by (simp add: cs)
next
  case False
  then consider (plain) s where "fr = Plain s" | (esc) c where "fr = Escaped c"
    by (cases fr) auto
  then show ?thesis
  proof cases
    case plain
    with assms split_plain [of s b st r] show ?thesis by (cases s) auto
  next
    case esc
    then show ?thesis by (simp add: split_loop.simps split_round_def)
  qed
qed

lemma mid_after_fragment:
  "wf_fragment fr \<Longrightarrow> mid_word (rev (render_fragment fr) @ b) (sp_append s (st\<lparr>sp_escaped := is_escaped fr\<rparr>))"
proof (cases fr)
  case (Plain s)
  assume "wf_fragment fr"
  with Plain obtain c s' where "s = s' @ [c]" "plain_char c"
    by (cases s rule: rev_cases) auto
  with Plain show ?thesis by (simp add: mid_word_def plain_not_boundary)
qed (auto simp: mid_word_def isWordBoundaryChar_def)

lemma split_fragments:
  assumes "list_all wf_fragment w" "w \<noteq> []" "before_ok b" "starts_hash w \<Longrightarrow> mid_word b st"
  shows "split_loop b (render_word w @ r) st = split_loop (rev (render_word w) @ b) r
    (sp_append (render_word w) (st\<lparr>sp_escaped := is_escaped (List.last w)\<rparr>))"
  using assms
proof (induction w arbitrary: b st)
  case (Cons fr w)
  have "starts_hash (fr # w) = starts_hash [fr]" by (cases "fr # w" rule: starts_hash.cases) auto
  with Cons.prems have step: "split_loop b (render_fragment fr @ render_word w @ r) st =
      split_loop (rev (render_fragment fr) @ b) (render_word w @ r) (sp_append (render_fragment fr) (st\<lparr>sp_escaped := is_escaped fr\<rparr>))"
    by (intro split_fragment) auto
  show ?case
  proof (cases "w = []")
    case True
    with step show ?thesis by (simp add: render_word_def)
  next
    case False
    with Cons step show ?thesis
      by (simp add: before_ok_fragment mid_after_fragment render_word_def)
  qed
qed simp

lemma split_space: "split_loop b (SPACE # r) st = split_loop (SPACE # b) r (sp_append [SPACE] (st\<lparr>sp_escaped := False\<rparr>))"
  by (simp add: split_loop.simps split_round_def no_quote)

lemma split_word:
  assumes "wf_word w" "before_ok b"
  shows "split_loop b (render_word w @ SPACE # r) st =
    split_loop (SPACE # rev (render_word w) @ b) r (sp_append (render_word w @ [SPACE]) (st\<lparr>sp_escaped := False\<rparr>))"
  using split_fragments [of w b st "SPACE # r"] assms by (simp add: wf_word_def split_space)


subsection \<open>Redirections\<close>

definition at_gap :: "jstring \<Rightarrow> bool" where
  "at_gap cur \<longleftrightarrow> cur = [] \<or> List.last cur = SPACE"

lemma digit_plain: "digit c \<Longrightarrow> plain_char c \<and> c \<noteq> RBRACE \<and> c \<noteq> HASH"
  by (auto simp: digit_def plain_char_def isWordBoundaryChar_def js_space_def)

lemma takeWhile_prefix: "list_all P xs \<Longrightarrow> ys = [] \<or> \<not> P (hd ys) \<Longrightarrow> takeWhile P (xs @ ys) = xs"
  by (cases ys) (auto simp: list_all_iff takeWhile_append)

lemma strip_fd:
  assumes "at_gap cur" "list_all digit fd" "length fd \<le> FD_SCAN_LIMIT"
  shows "stripFdPrefix (cur @ fd) = cur"
proof -
  have gap: "rev cur = [] \<or> hd (rev cur) = SPACE" using assms(1) by (auto simp: at_gap_def hd_rev)
  have nodigit: "\<not> digit SPACE" by (simp add: digit_def)
  have "rev cur = [] \<or> \<not> digit (hd (take k (rev cur))) \<or> k = 0" for k
    using gap nodigit by (cases "rev cur"; cases k) auto
  then have "takeWhile digit (take FD_SCAN_LIMIT (rev fd @ rev cur)) = rev fd"
    using assms(2,3) gap nodigit by (subst take_append, subst takeWhile_prefix) (auto simp: list_all_iff)
  moreover have "not_in_word (rev cur)" using gap by (auto simp: not_in_word_def split: list.splits)
  moreover have "hd (rev fd @ rev cur) \<noteq> RBRACE" if "cur @ fd \<noteq> []"
    using that gap assms(2) digit_plain by (cases fd rule: rev_cases) auto
  ultimately show ?thesis by (auto simp: stripFdPrefix_def Let_def)
qed

lemma word_first:
  assumes "wf_word w"
  shows "\<exists>c s. render_word w = c # s \<and> c \<notin> {SPACE, TAB, LT, GT, AMP, BAR}"
proof -
  obtain fr w' where w: "w = fr # w'" "wf_fragment fr"
    using assms by (cases w) (auto simp: wf_word_def)
  obtain c s where "render_fragment fr = c # s" "c \<notin> {SPACE, TAB, LT, GT, AMP, BAR}"
    using w(2) by (cases fr; cases "render_fragment fr")
      (auto simp: plain_char_def isWordBoundaryChar_def js_space_def)
  then show ?thesis by (simp add: w(1) render_word_def)
qed

lemma target_word:
  assumes "wf_word w" "before_ok b" "ends_word r"
  shows "targetEnd b (render_word w @ r) = Some (length (render_word w))"
proof -
  have "takeWhile isBlank (render_word w @ r) = []"
    using word_first [OF assms(1)] by (auto simp: isBlank_def)
  then show ?thesis
    using read_fragments [OF word_boundaries(1) assms(3), of w b] assms(1,2)
    by (simp add: targetEnd_def wf_word_def)
qed

lemma trim_word: "wf_word w \<Longrightarrow> js_trim (render_word w) = render_word w"
  using word_ends [of w] by (intro js_trim_id) auto

definition sp_elide :: "fragment list \<Rightarrow> split_state \<Rightarrow> split_state" where
  "sp_elide w st =
    st\<lparr>sp_elided := sp_elided st @ (if hasExecutableSubstitution (render_word w) then [render_word w] else [])\<rparr>"

lemma sp_elide_escaped: "(sp_elide w st)\<lparr>sp_escaped := e\<rparr> = sp_elide w (st\<lparr>sp_escaped := e\<rparr>)"
  by (simp add: sp_elide_def)

lemma elide_word:
  assumes "wf_word w" "before_ok (rev opr @ b)" "ends_word r" "stripFdPrefix (sp_current st) = cur"
  shows "elideRedirect (length opr) b (opr @ render_word w @ r) st =
    Some (length opr + length (render_word w), sp_elide w (st\<lparr>sp_current := cur\<rparr>))"
  using target_word [OF assms(1-3)] word_ends(1) [OF assms(1)] assms(4)
  by (simp add: elideRedirect_def Let_def trim_word [OF assms(1)] sp_elide_def)

lemma operator_round:
  assumes "wf_word w" "operator_text opr @ render_word w @ r = c # s"
  shows "split_round b c s st =
    elideRedirect (length (operator_text opr)) b (operator_text opr @ render_word w @ r) (st\<lparr>sp_escaped := False\<rparr>)"
  using word_first [OF assms(1)] assms(2)
  by (cases opr) (auto simp: split_round_def Let_def char_at_def no_quote redirectOperatorLength_def
      numeral_2_eq_2 numeral_3_eq_3)

lemma operator_before: "before_ok (rev (operator_text opr) @ b)"
  by (cases opr) auto

lemma split_operator:
  assumes "wf_word w" "stripFdPrefix (sp_current st) = cur"
  shows "split_loop b (operator_text opr @ render_word w @ SPACE # r) st =
    split_loop (SPACE # rev (render_word w) @ rev (operator_text opr) @ b) r
      (sp_append [SPACE] (sp_elide w (st\<lparr>sp_current := cur, sp_escaped := False\<rparr>)))"
proof -
  let ?t = "operator_text opr @ render_word w @ SPACE # r"
  obtain c s where cs: "?t = c # s" by (cases opr) auto
  have "split_round b c s st = Some (length (operator_text opr) + length (render_word w),
      sp_elide w (st\<lparr>sp_escaped := False, sp_current := cur\<rparr>))"
    using operator_round [OF assms(1) cs] elide_word [OF assms(1) operator_before, of "SPACE # r"] assms(2)
    by (simp add: ends_word_def)
  from split_step [OF this, unfolded cs [symmetric]] show ?thesis
    by (simp add: split_space sp_elide_escaped)
qed

subsection \<open>Items\<close>

fun item_effect :: "item \<Rightarrow> split_state \<Rightarrow> split_state" where
  "item_effect (Word w) st = sp_append (render_word w @ [SPACE]) st"
| "item_effect (Redirect fd opr w) st = sp_append [SPACE] (sp_elide w st)"

lemma not_escaped: "\<not> sp_escaped st \<Longrightarrow> st\<lparr>sp_escaped := False\<rparr> = st"
  by (cases st) simp

lemma split_item:
  assumes "wf_item i" "before_ok b" "at_gap (sp_current st)" "\<not> sp_escaped st"
  shows "split_loop b (render_item i @ r) st = split_loop (rev (render_item i) @ b) r (item_effect i st)"
proof (cases i)
  case (Word w)
  then show ?thesis using split_word [of w b r st] assms by (simp add: not_escaped)
next
  case (Redirect fd opr w)
  have "split_loop b (fd @ operator_text opr @ render_word w @ SPACE # r) st =
      split_loop (rev fd @ b) (operator_text opr @ render_word w @ SPACE # r) (sp_append fd st)"
  proof (cases "fd = []")
    case False
    moreover have "list_all plain_char fd" "hd fd \<noteq> HASH"
      using assms(1) Redirect digit_plain False by (auto simp: list_all_iff)
    ultimately show ?thesis using split_plain [of fd b st] assms(4) by (simp add: not_escaped)
  qed simp
  also have "\<dots> = split_loop (rev (render_item i) @ b) r
      (sp_append [SPACE] (sp_elide w ((sp_append fd st)\<lparr>sp_current := sp_current st, sp_escaped := False\<rparr>)))"
    using assms Redirect by (subst split_operator) (auto intro!: strip_fd)
  also have "(sp_append fd st)\<lparr>sp_current := sp_current st, sp_escaped := False\<rparr> = st"
    using assms(4) by (cases st) (simp add: sp_append_def)
  finally show ?thesis using Redirect by simp
qed

lemma item_effect_simps:
  "sp_current (item_effect i st) = sp_current st @ item_residue i"
  "sp_segments (item_effect i st) = sp_segments st" "sp_escaped (item_effect i st) = sp_escaped st"
  "sp_heredocs (item_effect i st) = sp_heredocs st"
  "sp_elided (item_effect i st) = sp_elided st @ map render_word (executed_targets [i])"
  by (cases i; simp add: sp_elide_def)+

lemma before_ok_item: "before_ok (rev (render_item i) @ b)"
  by (cases i) auto

definition items_effect :: "item list \<Rightarrow> split_state \<Rightarrow> split_state" where
  "items_effect is st = fold item_effect is st"

lemma executed_targets_Cons: "executed_targets (i # is) = executed_targets [i] @ executed_targets is"
  by (cases i) auto

lemma items_effect_simps:
  "sp_current (items_effect is st) = sp_current st @ residue is"
  "sp_segments (items_effect is st) = sp_segments st" "sp_escaped (items_effect is st) = sp_escaped st"
  "sp_heredocs (items_effect is st) = sp_heredocs st"
  "sp_elided (items_effect is st) = sp_elided st @ map render_word (executed_targets is)"
proof (induction "is" arbitrary: st)
  case (Cons i "is")
  case 5
  show ?case using Cons(5) by (simp add: items_effect_def item_effect_simps executed_targets_Cons [of i "is"])
qed (auto simp: items_effect_def residue_def item_effect_simps)

lemma split_items:
  "list_all wf_item is \<Longrightarrow> before_ok b \<Longrightarrow> at_gap (sp_current st) \<Longrightarrow> \<not> sp_escaped st \<Longrightarrow>
    split_loop b (render_items is @ r) st = split_loop (rev (render_items is) @ b) r (items_effect is st)"
proof (induction "is" arbitrary: b st)
  case (Cons i "is")
  have "at_gap (sp_current (item_effect i st))"
    by (cases i) (simp_all add: at_gap_def sp_elide_def)
  with Cons show ?case
    using split_item [of i b st "render_items is @ r"]
    by (simp add: render_items_def items_effect_def before_ok_item item_effect_simps)
qed (simp add: render_items_def items_effect_def)


subsection \<open>Separators\<close>

lemma heredoc_data:
  assumes "NL \<notin> set d"
  shows "list_all (\<lambda>l. NL \<notin> set l \<and> l \<noteq> d) ls \<Longrightarrow>
    heredoc_body \<lparr>hd_delimiter = d, hd_quoted = True, hd_stripTabs = False\<rparr> (concat (map (\<lambda>l. l @ [NL]) ls) @ d @ NL # r) =
      ([], length (concat (map (\<lambda>l. l @ [NL]) ls)) + length d + 1)"
proof (induction ls)
  case Nil
  have "takeWhile (\<lambda>c. c \<noteq> NL) (d @ NL # r) = d" "dropWhile (\<lambda>c. c \<noteq> NL) (d @ NL # r) = NL # r"
    using assms by (auto simp: takeWhile_append dropWhile_append)
  then show ?case by (simp add: heredoc_body.simps)
next
  case (Cons l ls)
  define t where "t = concat (map (\<lambda>l. l @ [NL]) ls) @ d @ NL # r"
  have "takeWhile (\<lambda>c. c \<noteq> NL) (l @ NL # t) = l" "dropWhile (\<lambda>c. c \<noteq> NL) (l @ NL # t) = NL # t"
    using Cons.prems by (auto simp: takeWhile_append dropWhile_append)
  with Cons show ?case
    by (simp add: heredoc_body.simps [of _ "l @ NL # t"] flip: t_def)
qed

definition after_gap :: "jstring \<Rightarrow> bool" where
  "after_gap b \<longleftrightarrow> b = [] \<or> hd b = SPACE"

lemma after_gap_ok: "after_gap b \<Longrightarrow> before_ok b"
  by (cases b) (auto simp: after_gap_def)

lemma newline_push:
  assumes "sp_heredocs st = []"
  shows "split_loop b (NL # r) st = split_loop (NL # b) r (sp_push (st\<lparr>sp_escaped := False\<rparr>))"
  using assms by (simp add: split_loop.simps split_round_def no_quote)

lemma split_comment:
  assumes "after_gap b" "\<not> sp_escaped st" "NL \<notin> set t"
  shows "split_loop b (HASH # t @ NL # r) st = split_loop (rev t @ HASH # b) (NL # r) st"
proof -
  have "takeWhile (\<lambda>c. c \<noteq> NL) (HASH # t @ NL # r) = HASH # t"
    using assms(3) by (auto simp: takeWhile_append)
  moreover have "startsComment b False (HASH # t @ NL # r)"
    using assms(1) by (auto simp: startsComment_def char_at_def after_gap_def split: list.splits)
  ultimately have "split_round b HASH (t @ NL # r) st = Some (Suc (length t), st)"
    using assms(2) by (simp add: split_round_def not_escaped)
  from split_step [OF this] show ?thesis by simp
qed

lemma split_heredoc_operator:
  assumes "after_gap b" "\<not> sp_escaped st" "at_gap (sp_current st)" "d \<noteq> []" "SQUOTE \<notin> set d" "sp_heredocs st = []"
  shows "split_loop b ([LT, LT, SQUOTE] @ d @ SQUOTE # NL # r) st =
    split_loop (SQUOTE # rev d @ [SQUOTE, LT, LT] @ b) (NL # r)
      (st\<lparr>sp_heredocs := [\<lparr>hd_delimiter = d, hd_quoted = True, hd_stripTabs = False\<rparr>]\<rparr>)"
proof -
  have "readWord isWordBoundaryChar (LT # LT # b) (SQUOTE # d @ SQUOTE # NL # r) 0 =
      word_more (length d + 2) d False (word_stop False 0)"
    using read_fragments [OF word_boundaries(1), of "NL # r" "[Single d]" "LT # LT # b"] assms(5)
    by (simp add: ends_word_def render_word_def word_literal_def)
  moreover have "stripFdPrefix (sp_current st) = sp_current st"
    using strip_fd [OF assms(3), of "[]"] by simp
  moreover have "d \<noteq> SQUOTE # d @ [SQUOTE]" by (metis append_Cons length_append_singleton length_Cons n_not_Suc_n lessI not_less_iff_gr_or_eq less_SucI)
  ultimately have "split_round b LT ([LT, SQUOTE] @ d @ SQUOTE # NL # r) st =
      Some (length d + 4, st\<lparr>sp_heredocs := [\<lparr>hd_delimiter = d, hd_quoted = True, hd_stripTabs = False\<rparr>]\<rparr>)"
    using assms(2,4,6)
    by (simp add: split_round_def no_quote char_at_def read_heredoc_def isBlank_def not_escaped numeral_2_eq_2)
  moreover have "length d + 4 = Suc (Suc (Suc (Suc (length d))))" by simp
  ultimately show ?thesis using split_step by (simp del: add_Suc_right)
qed

lemma split_heredoc:
  assumes "after_gap b" "\<not> sp_escaped st" "at_gap (sp_current st)" "sp_heredocs st = []" "wf_separator (Heredoc d ls)"
  shows "split_loop b (render_separator (Heredoc d ls) @ r) st =
    split_loop (rev (render_separator (Heredoc d ls)) @ b) r (sp_append [SPACE] (sp_push st))"
proof -
  define body where "body = concat (map (\<lambda>l. l @ [NL]) ls) @ d @ [NL]"
  let ?h = "\<lparr>hd_delimiter = d, hd_quoted = True, hd_stripTabs = False\<rparr>"
  have op: "split_loop b (render_separator (Heredoc d ls) @ r) st =
      split_loop (SQUOTE # rev d @ [SQUOTE, LT, LT] @ b) (NL # body @ SPACE # r) (st\<lparr>sp_heredocs := [?h]\<rparr>)"
    using split_heredoc_operator [OF assms(1-3) _ _ assms(4), of d "body @ SPACE # r"] assms(5) by (simp add: body_def)
  have "heredoc_body ?h (body @ SPACE # r) = ([], length body)"
    using heredoc_data [of d ls "SPACE # r"] assms(5) by (simp add: body_def)
  then have "split_round (SQUOTE # rev d @ [SQUOTE, LT, LT] @ b) NL (body @ SPACE # r) (st\<lparr>sp_heredocs := [?h]\<rparr>) =
      Some (Suc (length body), sp_push st)"
    using assms(2,4)
    by (cases st) (simp add: split_round_def no_quote heredocBodySubstitutions.simps sp_push_def)
  from split_step [OF this] op show ?thesis
    using assms(2) by (simp add: split_space body_def sp_push_def not_escaped)
qed

lemma sp_push_simps [simp]:
  "sp_escaped (sp_push st) = sp_escaped st" "sp_elided (sp_push st) = sp_elided st"
  "sp_heredocs (sp_push st) = sp_heredocs st" "sp_current (sp_push st) = []"
  "(sp_push st)\<lparr>sp_escaped := e\<rparr> = sp_push (st\<lparr>sp_escaped := e\<rparr>)"
  by (simp_all add: sp_push_def)

lemma split_separator:
  assumes "wf_separator sep" "after_gap b" "\<not> sp_escaped st" "at_gap (sp_current st)" "sp_heredocs st = []"
  shows "split_loop b (render_separator sep @ r) st =
    split_loop (rev (render_separator sep) @ b) r (sp_append [SPACE] (sp_push st))"
proof (cases sep)
  case (Heredoc d ls)
  then show ?thesis using split_heredoc assms by blast
next
  case (Comment t)
  then show ?thesis
    using assms split_comment [of b st t "SPACE # r"] by (simp add: newline_push split_space not_escaped)
qed (use assms in \<open>simp_all add: split_loop.simps(2) [of _ SEMI] split_loop.simps(2) [of _ BAR] split_loop.simps(2) [of _ AMP]
      split_round_def no_quote char_at_def redirectOperatorLength_def newline_push split_space not_escaped numeral_2_eq_2\<close>)

section \<open>Scripts\<close>

definition ready :: "jstring \<Rightarrow> split_state \<Rightarrow> nat \<Rightarrow> bool" where
  "ready b st g \<longleftrightarrow> after_gap b \<and> \<not> sp_escaped st \<and> sp_heredocs st = [] \<and> sp_current st = replicate g SPACE"

lemma after_gap_items: "after_gap b \<Longrightarrow> after_gap (rev (render_items is) @ b)"
proof (cases "is" rule: rev_cases)
  case (snoc is' i)
  then show ?thesis by (cases i) (simp_all add: render_items_def after_gap_def)
qed (simp add: render_items_def)

lemma after_gap_separator: "after_gap (rev (render_separator sep) @ b)"
  by (cases sep) (auto simp: after_gap_def)

lemma push_items:
  assumes "sp_current st = replicate g SPACE"
  shows "sp_segments (sp_push (items_effect is st)) = sp_segments st @ segment_of g is"
  using assms by (simp add: sp_push_def items_effect_simps segment_of_def Let_def)

lemma at_gap_residue: "at_gap (replicate g SPACE @ residue is)"
proof (cases "is" rule: rev_cases)
  case (snoc is' i)
  then show ?thesis by (cases i) (simp_all add: residue_def at_gap_def)
qed (cases g, simp_all add: residue_def at_gap_def)

lemma split_command:
  assumes "list_all wf_item is" "wf_separator sep" "ready b st g"
  defines "st' \<equiv> sp_append [SPACE] (sp_push (items_effect is st))"
  shows "split_loop b (render_items is @ render_separator sep @ r) st =
      split_loop (rev (render_separator sep) @ rev (render_items is) @ b) r st'"
    "ready (rev (render_separator sep) @ rev (render_items is) @ b) st' 1"
    "map tokenize (sp_segments st') =
      map tokenize (sp_segments st) @ (if item_words is = [] then [] else [literals (item_words is)])"
    "sp_elided st' = sp_elided st @ map render_word (executed_targets is)"
proof -
  have gap: "at_gap (sp_current st)" using assms(3) at_gap_residue [of g "[]"] by (simp add: ready_def residue_def)
  show "split_loop b (render_items is @ render_separator sep @ r) st =
      split_loop (rev (render_separator sep) @ rev (render_items is) @ b) r st'"
    using split_items [of "is" b st "render_separator sep @ r"] assms(1-3) gap
      split_separator [OF assms(2), of "rev (render_items is) @ b" "items_effect is st" r]
    by (simp add: st'_def ready_def after_gap_ok after_gap_items items_effect_simps at_gap_residue)
  show "ready (rev (render_separator sep) @ rev (render_items is) @ b) st' 1"
    using assms(3) by (simp add: ready_def st'_def items_effect_simps after_gap_separator)
  show "map tokenize (sp_segments st') =
      map tokenize (sp_segments st) @ (if item_words is = [] then [] else [literals (item_words is)])"
    using assms(3) push_items [of st g "is"] tokenize_segment [OF assms(1), of g] by (simp add: st'_def ready_def)
  show "sp_elided st' = sp_elided st @ map render_word (executed_targets is)"
    by (simp add: st'_def items_effect_simps)
qed


lemma split_commands:
  assumes "list_all (\<lambda>(is, sep). list_all wf_item is \<and> wf_separator sep) cs" "ready b st g"
  shows "\<exists>b' st' g'. split_loop b (concat (map (\<lambda>(is, sep). render_items is @ render_separator sep) cs) @ r) st = split_loop b' r st'
    \<and> ready b' st' g'
    \<and> map tokenize (sp_segments st') = map tokenize (sp_segments st) @ map literals (filter (\<lambda>ws. ws \<noteq> []) (map (item_words \<circ> fst) cs))
    \<and> sp_elided st' = sp_elided st @ map render_word (concat (map (executed_targets \<circ> fst) cs))"
  using assms
proof (induction cs arbitrary: b st g)
  case (Cons c cs)
  obtain "is" sep where c: "c = (is, sep)" by (cases c)
  with Cons.prems have wf: "list_all wf_item is" "wf_separator sep" by auto
  define st1 where "st1 = sp_append [SPACE] (sp_push (items_effect is st))"
  note step = split_command [OF wf Cons.prems(2), folded st1_def]
  have "list_all (\<lambda>(is, sep). list_all wf_item is \<and> wf_separator sep) cs" using Cons.prems(1) by simp
  from Cons.IH [OF this step(2)] show ?case
    by (auto simp: c step(1,3,4)) metis+
qed auto

lemma executed_wf: "list_all wf_item is \<Longrightarrow> list_all wf_word (executed_targets is)"
  by (induction "is" rule: executed_targets.induct) auto

lemma tokenize_word: "wf_word w \<Longrightarrow> tokenize (render_word w) = literals [w]"
  using tokenize_gapped [of "[(0, w)]"] by simp

lemma read_back:
  assumes "wf_script sc"
  shows "map tokenize (splitSegments (render sc)) =
    map literals (filter (\<lambda>ws. ws \<noteq> []) (map item_words (commands sc)))
      @ map (\<lambda>w. literals [w]) (concat (map executed_targets (commands sc)))"
proof -
  obtain cs final where sc: "sc = (cs, final)" by (cases sc)
  have wf: "list_all (\<lambda>(is, sep). list_all wf_item is \<and> wf_separator sep) cs" "list_all wf_item final"
    using assms by (auto simp: wf_script_def sc)
  obtain b st g where run: "split_loop [] (render sc) split_start = split_loop b (render_items final) st"
      "ready b st g" "map tokenize (sp_segments st) = map literals (filter (\<lambda>ws. ws \<noteq> []) (map (item_words \<circ> fst) cs))"
      "sp_elided st = map render_word (concat (map (executed_targets \<circ> fst) cs))"
    using split_commands [OF wf(1), of "[]" split_start 0 "render_items final"]
    by (auto simp: render_def sc ready_def split_start_def after_gap_def)
  have gap: "at_gap (sp_current st)" using run(2) at_gap_residue [of g "[]"] by (simp add: ready_def residue_def)
  let ?st = "items_effect final st"
  have "splitSegments (render sc) = sp_segments (sp_push ?st) @ sp_elided ?st"
    using split_items [OF wf(2) after_gap_ok gap, of b "[]"] run(1,2) by (simp add: splitSegments_def ready_def)
  moreover have "list_all wf_word (concat (map (executed_targets \<circ> fst) cs) @ executed_targets final)"
    using wf executed_wf by (fastforce simp: list_all_iff)
  ultimately show ?thesis
    using run push_items [of st g final] tokenize_segment [OF wf(2), of g]
    by (auto simp: ready_def items_effect_simps commands_def sc tokenize_word list_all_iff)
qed


text \<open>
  C5. The sidecar reads back the commands that were written. For every script made of commands whose
  words consist of plain text, single, double and ANSI-C quotes (holding any text, operators and
  quotes included) and escaped characters, with redirections of every kind anywhere between the words, joined by
  any of the operators, line ends, comments and here-documents: cutting the text and reading the words of each piece
  gives the words of each command, in order. A redirection contributes no word, unless its target has
  the look of a substitution: then the target is a piece of its own after all others.
\<close>

theorem shell_words_recovered:
  assumes "wf_script sc"
  shows "map tokenize (splitSegments (render sc)) =
    map literals (filter (\<lambda>ws. ws \<noteq> []) (map item_words (commands sc)))
      @ map (\<lambda>w. literals [w]) (concat (map executed_targets (commands sc)))"
  by (rule read_back [OF assms])

definition sample_script :: script where
  "sample_script =
    ([([Word [Plain (js ''rm'')], Redirect (js ''2'') Out [Double (js ''a log'')], Word [Plain (js ''-''), Single (js ''rf'')],
        Word [Double (js ''/srv;x'')]], And),
      ([Word [Plain (js ''cat'')], Word [Ansi [105, 116, SQUOTE, 115], Escaped SEMI]], Comment (js '' don'' @ [SQUOTE] @ js ''t'')),
      ([Word [Plain (js ''tee'')]], Heredoc (js ''EOF'') [js ''rm -rf /''])],
     [Redirect [] In [Plain (js ''x'')], Word [Plain (js ''ls'')]])"

theorem shell_words_recovered_witness:
  "map tokenize (splitSegments (render sample_script)) =
    [[js ''rm'', js ''-rf'', js ''/srv;x''], [js ''cat'', [105, 116, SQUOTE, 115, SEMI]], [js ''tee''], [js ''ls'']]"
proof -
  have "wf_script sample_script"
    by (simp add: sample_script_def wf_script_def wf_word_def plain_char_def isWordBoundaryChar_def js_space_def digit_def
        FD_SCAN_LIMIT_def js_def)
  moreover have "map literals (filter (\<lambda>ws. ws \<noteq> []) (map item_words (commands sample_script)))
      @ map (\<lambda>w. literals [w]) (concat (map executed_targets (commands sample_script))) =
    [[js ''rm'', js ''-rf'', js ''/srv;x''], [js ''cat'', [105, 116, SQUOTE, 115, SEMI]], [js ''tee''], [js ''ls'']]"
    by (simp add: sample_script_def commands_def literals_def word_literal_def render_word_def hasExecutableSubstitution_def
        hasProcessSubstitution_def hasCommandSubstitution_def js_starts_with_def js_def)
  ultimately show ?thesis using shell_words_recovered by simp
qed

end
