(* ===== verification/Command_Correct.thy ===== *)
theory Command_Correct
  imports Command_Classifier Shell_Lexer_Correct "HOL-Library.Code_Target_Nat"
begin

text \<open>
  What the classifier guarantees: the categories only observe the risk, nothing found is lost again,
  and a destructive program is found however its command is written.
\<close>

section \<open>Categories are observed\<close>

definition grows :: "cats \<Rightarrow> cats \<Rightarrow> bool" where
  "grows cs cs' \<longleftrightarrow> (case cs of None \<Rightarrow> cs' = None | Some l \<Rightarrow> (case cs' of None \<Rightarrow> False | Some l' \<Rightarrow> set l \<subseteq> set l'))"

lemma grows_refl [simp]: "grows cs cs"
  by (auto simp: grows_def split: option.split)

lemma grows_trans [trans]: "grows cs cs' \<Longrightarrow> grows cs' cs'' \<Longrightarrow> grows cs cs''"
  by (auto simp: grows_def split: option.splits)

lemma grows_add: "grows cs cs' \<Longrightarrow> grows cs (add_cat c cs')" "grows cs cs' \<Longrightarrow> grows cs (add_if p c cs')"
  by (auto simp: grows_def add_cat_def add_if_def split: option.splits)

lemma in_grown: "grows (Some l) cs \<Longrightarrow> c \<in> set l \<Longrightarrow> c \<in> set (the cs)"
  by (auto simp: grows_def split: option.splits)

text \<open>A part of the classifier: its verdict does not depend on the categories, and it only adds to them.\<close>

definition observer :: "(cats \<Rightarrow> 'r \<times> cats) \<Rightarrow> bool" where
  "observer f \<longleftrightarrow> (\<forall>cs cs'. fst (f cs) = fst (f cs')) \<and> (\<forall>cs. grows cs (snd (f cs)))"

lemma observerI:
  "(\<And>cs cs'. fst (f cs) = fst (f cs')) \<Longrightarrow> (\<And>cs. grows cs (snd (f cs))) \<Longrightarrow> observer f"
  by (simp add: observer_def)

lemma observer_verdict: "observer f \<Longrightarrow> fst (f cs) = fst (f None)"
  by (simp add: observer_def)

lemma observer_grows: "observer f \<Longrightarrow> grows cs (snd (f cs))"
  by (simp add: observer_def)

lemma observer_ret: "observer (Pair r)" "observer (\<lambda>cs. (r, add_cat c cs))"
  by (auto simp: observer_def grows_add)

lemma observer_bind:
  assumes "observer f" "\<And>r. observer (g r)"
  shows "observer (\<lambda>cs. case f cs of (r, cs') \<Rightarrow> g r cs')"
proof (rule observerI)
  fix cs cs' :: cats
  show "fst (case f cs of (r, cs') \<Rightarrow> g r cs') = fst (case f cs' of (r, cs') \<Rightarrow> g r cs')"
    using assms by (simp add: case_prod_beta observer_def) metis
  show "grows cs (snd (case f cs of (r, cs') \<Rightarrow> g r cs'))"
    using assms by (auto simp: case_prod_beta observer_def intro: grows_trans)
qed

lemma observer_if: "observer f \<Longrightarrow> observer g \<Longrightarrow> observer (\<lambda>cs. if p then f cs else g cs)"
  by (cases p) simp_all

lemma observer_then:
  "observer f \<Longrightarrow> observer (\<lambda>cs. (h (fst (f cs)), snd (f cs)))"
  "observer f \<Longrightarrow> observer (\<lambda>cs. f (add_cat c cs))"
proof -
  assume f: "observer f"
  then show "observer (\<lambda>cs. (h (fst (f cs)), snd (f cs)))" by (auto simp: observer_def) metis
  show "observer (\<lambda>cs. f (add_cat c cs))"
    using f by (auto simp: observer_def intro: grows_trans [OF grows_add(1) [OF grows_refl]])
qed

text \<open>The same for what maps a risk and categories to others.\<close>

definition observing :: "(RiskLevel \<times> cats \<Rightarrow> RiskLevel \<times> cats) \<Rightarrow> bool" where
  "observing f \<longleftrightarrow> (\<forall>r. observer (\<lambda>cs. f (r, cs)))"

lemma observing_after: "observing f \<Longrightarrow> observer g \<Longrightarrow> observer (\<lambda>cs. f (g cs))"
  using observer_bind [of g "\<lambda>r cs. f (r, cs)"] by (simp add: observing_def)

lemma observing_comp: "observing f \<Longrightarrow> observing g \<Longrightarrow> observing (f \<circ> g)"
  using observing_after [of f "\<lambda>cs. g (r, cs)" for r] by (simp add: observing_def)

lemma observing_fold: "(\<And>x. x \<in> set xs \<Longrightarrow> observing (f x)) \<Longrightarrow> observing (fold f xs)"
proof (induction xs)
  case (Cons x xs)
  have "fold f (x # xs) = fold f xs \<circ> f x" by simp
  with Cons show ?case by (metis observing_comp list.set_intros)
qed (simp add: observing_def observer_def)

lemma observer_bumped: "observer f \<Longrightarrow> observer (\<lambda>cs. bumped (f cs) r)"
  unfolding bumped_def by (rule observer_then(1))

locale inner_classifier =
  fixes rec :: classifier
  assumes rec_observes: "observer (rec c)"
begin

lemma unanalyzable_observes: "observer (unanalyzableSegmentRisk rec ts seg d s)"
proof (rule observerI)
  fix cs cs'
  have v: "fst (rec c cs) = fst (rec c cs')" for c
    using rec_observes by (auto simp: observer_def)
  show "fst (unanalyzableSegmentRisk rec ts seg d s cs) = fst (unanalyzableSegmentRisk rec ts seg d s cs')"
    using v by (auto simp: unanalyzableSegmentRisk_def Let_def case_prod_beta split: list.splits)
  have "grows cs (snd (rec c cs))" for c
    using rec_observes by (auto simp: observer_def)
  then show "grows cs (snd (unanalyzableSegmentRisk rec ts seg d s cs))"
    by (auto simp: unanalyzableSegmentRisk_def Let_def case_prod_beta intro!: grows_add split: list.splits)
qed

lemma reclassify_inners_observes: "observer (reclassify_inners rec inners risk)"
proof (induction inners arbitrary: risk)
  case (Cons inner inners)
  then show ?case by (auto intro!: observer_bind rec_observes)
qed (simp add: observer_def)

lemma reclassify_observes: "observer (reclassify p rec c)"
  unfolding reclassify_def [abs_def] Let_def
  by (rule observer_bind [OF reclassify_inners_observes]) (auto simp: observer_def grows_add)

lemma remote_observes: "observer (remote_risk rec rs risk)"
proof (induction rs arbitrary: risk)
  case (Cons r rs)
  have "observer (\<lambda>cs. case rec r cs of (x, cs1) \<Rightarrow>
      if x = Risk_high then (Some Risk_high, cs1) else remote_risk rec rs (if x = Risk_medium then Some Risk_medium else risk) cs1)"
    using Cons by (intro observer_bind [OF rec_observes] observer_if) (auto simp: observer_ret)
  with Cons show ?case by (cases "js_trim r = []") simp_all
qed (simp add: observer_def)

lemma inline_observes: "observer (inlineCodeRisk rec ts seg d)"
proof -
  have shell: "observer (inline_shell_risk rec ts d)"
  proof (cases "dropWhile (\<lambda>t. \<not> SHELL_INLINE_FLAG_RE t) (tl ts)")
    case (Cons f inner)
    have "observer (\<lambda>cs. case rec (js_join SPACE inner) (add_cat PC_inline_code cs) of
        (r, cs2) \<Rightarrow> (Some (if r = Risk_high then Risk_high else Risk_medium), cs2))"
      by (intro observer_bind observer_then(2) [OF rec_observes] observer_ret)
    with Cons show ?thesis by (auto simp: inline_shell_risk_def [abs_def] Let_def intro!: observer_if observer_ret)
  qed (simp add: inline_shell_risk_def [abs_def] observer_if observer_ret del: dropWhile_eq_Nil_conv)
  have interp: "observer (inline_interpreter_risk ts)"
    by (auto simp: inline_interpreter_risk_def [abs_def] intro!: observer_if observer_ret)
  have live: "observer (live_substitution_risk rec seg d)"
  proof -
    have "observer (\<lambda>cs. case (if d < MAX_INLINE_DEPTH then reclassifySubstitution rec seg (add_cat PC_inline_code cs)
          else (None, add_cat PC_inline_code cs)) of (r, cs1) \<Rightarrow> (Some (if r = Some Risk_high then Risk_high else Risk_medium), cs1))"
      unfolding reclassifySubstitution_def
      by (intro observer_bind observer_if observer_then(2) [OF reclassify_observes] observer_ret)
    then show ?thesis
      by (simp add: live_substitution_risk_def [abs_def] observer_if observer_ret)
  qed
  have chain: "observer (\<lambda>cs. case f cs of (Some r, cs1) \<Rightarrow> (Some r, k cs1) | (None, cs1) \<Rightarrow> g cs1)"
    if "observer f" "observer g" "\<And>cs. grows cs (k cs)" for f g :: "cats \<Rightarrow> RiskLevel option \<times> cats" and k
  proof -
    have "observer (\<lambda>cs. case f cs of (r, cs1) \<Rightarrow> (case r of Some x \<Rightarrow> (\<lambda>cs1. (Some x, k cs1)) | None \<Rightarrow> g) cs1)"
      using that by (intro observer_bind) (auto simp: observer_def split: option.split)
    moreover have "(\<lambda>cs. case f cs of (r, cs1) \<Rightarrow> (case r of Some x \<Rightarrow> (\<lambda>cs1. (Some x, k cs1)) | None \<Rightarrow> g) cs1) =
        (\<lambda>cs. case f cs of (Some r, cs1) \<Rightarrow> (Some r, k cs1) | (None, cs1) \<Rightarrow> g cs1)"
      by (auto split: prod.split option.split)
    ultimately show ?thesis by simp
  qed
  have "observer (\<lambda>cs. if p then remote_risk rec rs None cs else (None, cs))"
      "observer (\<lambda>cs. if q then inline_shell_risk rec ts d cs else (None, cs))"
      "observer (\<lambda>cs. if q then inline_interpreter_risk ts cs else (None, cs))" for p q rs
    by (intro observer_if remote_observes shell interp observer_ret)+
  note parts = this
  show ?thesis
    unfolding inlineCodeRisk_def [abs_def] Let_def
    by (intro observer_if observer_ret chain parts live) (auto simp: grows_add)
qed

lemma program_observes: "observing (program_risk seg ts)"
  unfolding observing_def
proof (intro allI observerI)
  fix r and cs cs' :: cats
  show "fst (program_risk seg ts (r, cs)) = fst (program_risk seg ts (r, cs'))"
    by (simp add: program_risk_def Let_def)
  have "grows cs (fold (\<lambda>(p, c). add_if p c) rules cs)" for rules :: "(bool \<times> PolicyCategory) list"
  proof (induction rules arbitrary: cs)
    case (Cons x rules)
    then show ?case by (cases x) (auto intro: grows_trans [OF grows_add(2) [OF grows_refl]])
  qed simp
  then show "grows cs (snd (program_risk seg ts (r, cs)))"
    by (simp add: program_risk_def Let_def grows_add)
qed

lemma segment_observes: "observing (segment_risk rec d s seg)"
proof (cases "tokenize seg = []")
  case True
  then show ?thesis by (auto simp: segment_risk_def observing_def observer_def grows_add)
next
  case False
  let ?ts = "sp_tokens (programTokens (tokenize seg))" and ?p = "programTokens (tokenize seg)"
  define A where "A = (\<lambda>st :: RiskLevel \<times> cats. bumped (unanalyzableSegmentRisk rec (tokenize seg) seg d s (snd st)) (fst st))"
  define B where "B = (\<lambda>st :: RiskLevel \<times> cats. if hasCommandWordSubstitution ?ts \<and> d < MAX_INLINE_DEPTH
    then (case rec (flattenCommandSubstitutions seg) (snd st) of (r, cs) \<Rightarrow> (bump (Some r) (fst st), cs)) else st)"
  define D where "D = (\<lambda>st :: RiskLevel \<times> cats. if sp_capExhausted ?p \<or> sp_unknownOption ?p
    then (bump (Some Risk_medium) (fst st), add_cat PC_high_risk_other (snd st)) else st)"
  define E where "E = (\<lambda>st :: RiskLevel \<times> cats. bumped (inlineCodeRisk rec ?ts seg d (snd st)) (fst st))"
  have "observer (\<lambda>cs. B (r, cs))" for r
    by (cases "hasCommandWordSubstitution ?ts \<and> d < MAX_INLINE_DEPTH")
      (auto simp: B_def intro!: observer_bind rec_observes observer_ret)
  then have parts: "observing A" "observing B" "observing D" "observing E"
    by (auto simp: observing_def A_def D_def E_def observer_ret
        intro!: observer_if observer_bumped unanalyzable_observes inline_observes)
  have "segment_risk rec d s seg = (if ?ts = [] then A else E \<circ> (program_risk seg ?ts \<circ> (D \<circ> (B \<circ> A))))"
    using False by (auto simp: segment_risk_def Let_def A_def B_def D_def E_def)
  then show ?thesis
    by (auto intro!: observing_comp parts program_observes)
qed

lemma literal_observes: "observer (literal_risk split c)"
proof -
  have "grows cs (fold (\<lambda>rule. if q rule then add_cat (lr_category rule) else id) rules cs)"
    for q and rules :: "LiteralRule list" and cs
  proof (induction rules arbitrary: cs)
    case (Cons x rules)
    then show ?case by (cases "q x") (auto intro: grows_trans [OF grows_add(1) [OF grows_refl]])
  qed simp
  then show ?thesis
    by (auto simp: literal_risk_def [abs_def] Let_def observer_def addCommandLevelCategories_def grows_add)
qed

lemma process_observes: "observing (process_risk rec split d c)"
  unfolding observing_def
proof
  fix r
  have f: "observer (\<lambda>cs. bumped (reclassifyProcessSubstitution rec c (add_cat PC_inline_code cs)) r)"
      "observer (\<lambda>cs. bumped (reclassifyProcessSubstitution rec c cs) r)"
    unfolding reclassifyProcessSubstitution_def
    by (intro observer_bumped observer_then(2) reclassify_observes)+
  have g: "observer (\<lambda>cs. let st1 = (if d < MAX_INLINE_DEPTH then bumped (reclassifyProcessSubstitution rec c (add_cat PC_inline_code cs)) r
      else (r, add_cat PC_inline_code cs)) in (bump (Some Risk_medium) (fst st1), snd st1))"
    unfolding Let_def by (intro observer_then(1) observer_if f(1) observer_ret)
  show "observer (\<lambda>cs. process_risk rec split d c (r, cs))"
    unfolding process_risk_def fst_conv snd_conv Let_def
    by (intro observer_if g [unfolded Let_def] f(2) observer_ret)
qed

lemma last_observes: "observing (last_resort c)"
  by (auto simp: last_resort_def observing_def observer_def grows_add)

lemma classify_observes: "observer (classify_command rec split d c)"
  unfolding classify_command_def [abs_def] Let_def
  by (intro observing_after [OF last_observes] observing_after [OF observing_fold] observing_after [OF process_observes]
      literal_observes segment_observes)

end

lemma internal_observes: "observer (classifyCommandRiskInternal split d c)"
proof (induction "MAX_INLINE_DEPTH - d" arbitrary: d c rule: less_induct)
  case less
  have inner: "inner_classifier (\<lambda>c cs. classifyCommandRiskInternal split (d + 1) c cs)" if "d < MAX_INLINE_DEPTH"
    by (unfold_locales) (use less [of "d + 1"] that in auto)
  have "classifyCommandRiskInternal split d c = (\<lambda>cs. if c = [] then (Risk_high, cs)
     else if length c > MAX_ANALYZABLE_COMMAND_LEN then (Risk_high, cs)
     else if d \<ge> MAX_INLINE_DEPTH then (Risk_medium, add_cat PC_high_risk_other cs)
     else classify_command (\<lambda>c cs. classifyCommandRiskInternal split (d + 1) c cs) split d c cs)"
    by (rule ext) (rule classifyCommandRiskInternal.simps)
  then show ?case
    using inner_classifier.classify_observes [OF inner, of split d c]
    by (cases "d < MAX_INLINE_DEPTH") (auto simp: not_less intro!: observer_if observer_ret cong: if_cong)
qed


text \<open>
  C21. The two entry points agree, and nothing dangerous goes without a category. The risk that is computed together
  with the categories is the risk that is computed without them; it is never below what either way
  of cutting the command finds to be high; and a high risk comes with a category, so that it is gated under a
  policy as well.
\<close>

theorem risk_and_categories_agree:
  "fst (classifyCommandWithCategories command) = classifyCommandRisk command
   \<and> (if fst (classifyCommandRiskInternal split 0 command cs) = Risk_high
      then classifyCommandRisk command = Risk_high \<and> classifyCommandCategories command \<noteq> [] else True)
   \<and> (if command = [] \<or> MAX_ANALYZABLE_COMMAND_LEN < length command then classifyCommandRisk command = Risk_high else True)"
proof -
  have "fst (classifyCommandRiskInternal sp 0 command cs) = fst (classifyCommandRiskInternal sp 0 command None)" for sp cs
    by (rule observer_verdict [OF internal_observes])
  note v = this
  have "fst (classifyCommandRiskInternal Split_segments 0 command None) = Risk_high"
    if "command = [] \<or> MAX_ANALYZABLE_COMMAND_LEN < length command"
    using that by (subst classifyCommandRiskInternal.simps) auto
  then show ?thesis
    using v [of split cs] v [of Split_segments "Some []"] v [of Split_quote_unaware "Some []"]
    by (cases split)
      (auto simp: classifyCommandWithCategories_def classifyCommandCategories_def classifyCommandRisk_def Let_def case_prod_beta)
qed

section \<open>Nothing found is lost\<close>

lemma bump_high [simp]: "bump r Risk_high = Risk_high" "bump (Some Risk_high) risk = Risk_high"
  by (simp_all add: bump_def)

lemma bumped_high: "fst st = Risk_high \<Longrightarrow> fst (bumped r (fst st)) = Risk_high"
  by (simp add: bumped_def)

lemma program_high: "fst st = Risk_high \<Longrightarrow> fst (program_risk seg ts st) = Risk_high"
  by (simp add: program_risk_def Let_def)

lemma segment_high: "fst st = Risk_high \<Longrightarrow> fst (segment_risk rec d s seg st) = Risk_high"
  by (auto simp: segment_risk_def Let_def bumped_def program_high case_prod_beta)

lemma segments_high: "fst st = Risk_high \<Longrightarrow> fst (fold (segment_risk rec d s) segs st) = Risk_high"
  by (induction segs arbitrary: st) (auto simp: segment_high)

lemma last_high: "fst st = Risk_high \<Longrightarrow> last_resort c st = st"
  by (simp add: last_resort_def)

subsection \<open>A destructive program\<close>

lemma add_if_simps [simp]: "add_if True c (Some l) = Some (List.insert c l)" "add_if False c cs = cs"
  by (simp_all add: add_if_def add_cat_def)

lemma fold_keeps: "\<exists>l'. fold (\<lambda>(p, c). add_if p c) rules (Some l) = Some l' \<and> set l \<subseteq> set l'"
proof (induction rules arbitrary: l)
  case (Cons x rules)
  obtain p c where "x = (p, c)" by (cases x)
  then show ?case
    using Cons [of l] Cons [of "List.insert c l"] by (cases p) auto
qed simp

lemma fold_adds:
  "(True, c) \<in> set rules \<Longrightarrow> \<exists>l'. fold (\<lambda>(p, c). add_if p c) rules (Some l) = Some l' \<and> c \<in> set l'"
proof (induction rules arbitrary: l)
  case (Cons x rules)
  obtain p c' where x: "x = (p, c')" by (cases x)
  show ?case
  proof (cases "x = (True, c)")
    case True
    then show ?thesis using fold_keeps [of rules "List.insert c l"] by auto
  next
    case False
    with Cons x show ?thesis by (cases p) auto
  qed
qed simp

lemma program_finds:
  assumes "(True, c) \<in> set (program_rules seg ts)"
  shows "fst (program_risk seg ts st) = Risk_high"
    "snd st = Some l \<Longrightarrow> c \<in> set (the (snd (program_risk seg ts st)))"
proof -
  have "list_ex fst (program_rules seg ts)" using assms by (force simp: list_ex_iff)
  then show "fst (program_risk seg ts st) = Risk_high" by (simp add: program_risk_def Let_def)
  assume st: "snd st = Some l"
  obtain l' where l': "fold (\<lambda>(p, c). add_if p c) (program_rules seg ts) (Some l) = Some l'" "c \<in> set l'"
    using fold_adds [OF assms] by blast
  have "grows (Some l') (snd (program_risk seg ts st))"
    by (simp add: program_risk_def Let_def st l' grows_add)
  then show "c \<in> set (the (snd (program_risk seg ts st)))" using l'(2) by (rule in_grown)
qed

lemma rules_any_segment: "(True, c) \<in> set (program_rules [] ts) \<Longrightarrow> (True, c) \<in> set (program_rules seg ts)"
  by (auto simp: program_rules_def writesBlockDevice_def rex_test_def rex_seq_def)

lemma no_name: "normalizeCommandName [] = []" "[] \<notin> set DESTRUCTIVE_DISK_PROGRAMS"
    "map_of READ_ONLY_STORAGE_SUBCOMMANDS [] = None"
  by (simp_all add: normalizeCommandName_def Let_def VERSION_SUFFIX_RE_def INLINE_SHELLS_def INLINE_INTERPRETERS_def
      DESTRUCTIVE_DISK_PROGRAMS_def READ_ONLY_STORAGE_SUBCOMMANDS_def words_def js_def)

lemma rules_need_tokens: "(True, c) \<in> set (program_rules [] ts) \<Longrightarrow> ts \<noteq> []"
  by (auto simp: no_name Let_def js_starts_with_def after_subcommand_def js_def
      program_rules_def writesBlockDevice_def rex_test_def rex_seq_def isRecursiveForcedRm_def isForcedGitPush_def
      isDestructiveGitWorktreeRewrite_def definesShellGitAlias_def isDangerousChmod_def commandName_def
      isDestructiveDiskProgram_def isDestructiveDiskSubcommand_def)

definition dangerous :: "jstring list \<Rightarrow> PolicyCategory \<Rightarrow> bool" where
  "dangerous rawTokens c \<longleftrightarrow> (True, c) \<in> set (program_rules [] (sp_tokens (programTokens rawTokens)))"

lemma stays_Some: "observer f \<Longrightarrow> \<exists>l'. snd (f (Some l)) = Some l' \<and> set l \<subseteq> set l'"
  using observer_grows [of f "Some l"] by (auto simp: grows_def split: option.splits)

lemma no_tokens: "\<not> dangerous [] c"
proof
  assume "dangerous [] c"
  then have "sp_tokens (programTokens []) \<noteq> []"
    unfolding dangerous_def by (rule rules_need_tokens)
  then show False
    by (simp add: programTokens_def stripRunnerWrappers_def MAX_WRAPPER_STRIP_def stripped_def numeral_eq_Suc)
qed

context inner_classifier
begin

lemma segment_finds:
  assumes "dangerous (tokenize seg) c"
  shows "fst (segment_risk rec d s seg st) = Risk_high"
    "snd st = Some l \<Longrightarrow> c \<in> set (the (snd (segment_risk rec d s seg st)))"
proof -
  let ?p = "programTokens (tokenize seg)" and ?ts = "sp_tokens (programTokens (tokenize seg))"
  have ne: "tokenize seg \<noteq> []" "?ts \<noteq> []"
    using assms no_tokens [of c] rules_need_tokens by (auto simp: dangerous_def)
  have rule: "(True, c) \<in> set (program_rules seg ?ts)"
    using assms rules_any_segment by (simp add: dangerous_def)
  obtain st3 where st3: "segment_risk rec d s seg st =
      bumped (inlineCodeRisk rec ?ts seg d (snd (program_risk seg ?ts st3))) (fst (program_risk seg ?ts st3))"
      "\<And>l. snd st = Some l \<Longrightarrow> \<exists>l3. snd st3 = Some l3"
  proof
    define st1 where "st1 = bumped (unanalyzableSegmentRisk rec (tokenize seg) seg d s (snd st)) (fst st)"
    define st2 where "st2 = (if hasCommandWordSubstitution ?ts \<and> d < MAX_INLINE_DEPTH
      then (case rec (flattenCommandSubstitutions seg) (snd st1) of (r, cs) \<Rightarrow> (bump (Some r) (fst st1), cs)) else st1)"
    define st3 where "st3 = (if sp_capExhausted ?p \<or> sp_unknownOption ?p
      then (bump (Some Risk_medium) (fst st2), add_cat PC_high_risk_other (snd st2)) else st2)"
    show "segment_risk rec d s seg st =
        bumped (inlineCodeRisk rec ?ts seg d (snd (program_risk seg ?ts st3))) (fst (program_risk seg ?ts st3))"
      using ne by (simp add: segment_risk_def Let_def st1_def st2_def st3_def)
    fix l assume "snd st = Some l"
    then obtain l1 where "snd st1 = Some l1"
      using stays_Some [OF unanalyzable_observes, of "tokenize seg" seg d s l] by (auto simp: st1_def bumped_def)
    moreover from this have "\<exists>l2. snd st2 = Some l2"
      using stays_Some [OF rec_observes, of "flattenCommandSubstitutions seg" l1] by (auto simp: st2_def case_prod_beta)
    ultimately show "\<exists>l3. snd st3 = Some l3"
      by (auto simp: st3_def add_cat_def)
  qed
  show "fst (segment_risk rec d s seg st) = Risk_high"
    using st3(1) program_finds(1) [OF rule] by (simp add: bumped_def)
  assume "snd st = Some l"
  then obtain l3 where l3: "snd st3 = Some l3" using st3(2) by blast
  have "c \<in> set (the (snd (program_risk seg ?ts st3)))" by (rule program_finds(2) [OF rule l3])
  moreover obtain l4 where "snd (program_risk seg ?ts st3) = Some l4"
    using stays_Some [of "\<lambda>cs. program_risk seg ?ts (fst st3, cs)" l3] program_observes l3 by (auto simp: observing_def) (metis prod.collapse)
  ultimately show "c \<in> set (the (snd (segment_risk rec d s seg st)))"
    using stays_Some [OF inline_observes, of ?ts seg d l4] st3(1) by (auto simp: bumped_def)
qed

lemma segments_find:
  assumes "seg \<in> set segs" "dangerous (tokenize seg) c"
  shows "fst (fold (segment_risk rec d s) segs st) = Risk_high"
    "snd st = Some l \<Longrightarrow> c \<in> set (the (snd (fold (segment_risk rec d s) segs st)))"
proof -
  obtain xs ys where segs: "segs = xs @ seg # ys" using assms(1) by (auto simp: in_set_conv_decomp)
  define st1 where "st1 = fold (segment_risk rec d s) xs st"
  define st2 where "st2 = segment_risk rec d s seg st1"
  have run: "fold (segment_risk rec d s) segs st = fold (segment_risk rec d s) ys st2"
    by (simp add: segs st1_def st2_def)
  have high: "fst st2 = Risk_high" using segment_finds(1) [OF assms(2)] by (simp add: st2_def)
  then show "fst (fold (segment_risk rec d s) segs st) = Risk_high" by (simp add: run segments_high)
  have folds: "observer (\<lambda>cs. fold (segment_risk rec d s) zs (r, cs))" for zs r
    using observing_fold [of zs "segment_risk rec d s"] segment_observes by (simp add: observing_def)
  assume st: "snd st = Some l"
  obtain l1 where "snd st1 = Some l1"
    using stays_Some [OF folds, of xs "fst st" l] st by (auto simp: st1_def) (metis prod.collapse)
  then have c: "c \<in> set (the (snd st2))" using segment_finds(2) [OF assms(2)] by (simp add: st2_def)
  obtain l2 where l2: "snd st2 = Some l2"
    using stays_Some [of "\<lambda>cs. segment_risk rec d s seg (fst st1, cs)" l1] segment_observes \<open>snd st1 = Some l1\<close>
    by (auto simp: st2_def observing_def) (metis prod.collapse)
  show "c \<in> set (the (snd (fold (segment_risk rec d s) segs st)))"
    using stays_Some [OF folds, of ys "fst st2" l2] c l2 by (auto simp: run) (metis option.sel prod.collapse subsetD)
qed

lemma classify_finds:
  assumes "seg \<in> set (run_split split command)" "dangerous (tokenize seg) c"
  shows "fst (classify_command rec split d command cs) = Risk_high"
    "c \<in> set (the (snd (classify_command rec split d command (Some l))))"
proof -
  obtain l' where "snd (process_risk rec split d command (literal_risk split command (Some l))) = Some l'"
    using stays_Some [OF observing_after [OF process_observes literal_observes]] by blast
  from segments_find(2) [OF assms this] show "c \<in> set (the (snd (classify_command rec split d command (Some l))))"
    using segments_find(1) [OF assms] by (simp add: classify_command_def Let_def last_high)
  show "fst (classify_command rec split d command cs) = Risk_high"
    using segments_find(1) [OF assms] by (simp add: classify_command_def Let_def last_high)
qed

end







section \<open>Commands whose approval may be kept\<close>









section \<open>What is not seen\<close>

text \<open>
  Three gaps. A line continuation, which the shell removes, is read as a character of the word, so a
  recursive forced removal whose options follow a continuation is of low risk and without a category, while the same
  command on one line is of high risk. The string that \<^verbatim>\<open>env -S\<close> splits and runs is skipped as the value of an
  option. And \<^verbatim>\<open>Rscript\<close> is on the list of programs whose approval is not kept, but the names that
  are looked up there are in lower case, so its approval may be kept.
\<close>

theorem classifier_gaps:
  "classifyCommandRisk (js ''rm -rf /'') = Risk_high
   \<and> classifyCommandWithCategories (js ''rm '' @ [BSLASH, NL] @ js ''-rf /'') = (Risk_low, [])
   \<and> classifyCommandWithCategories (js ''env -S '' @ [DQUOTE] @ js ''rm -rf /'' @ [DQUOTE]) = (Risk_low, [])
   \<and> js ''Rscript'' \<in> set PERSIST_DENY_PROGRAMS \<and> \<not> isPersistDeniedCommand (js ''Rscript -e 1'')"
proof (intro conjI)
  show "classifyCommandRisk (js ''rm -rf /'') = Risk_high" by code_simp
  show "classifyCommandWithCategories (js ''rm '' @ [BSLASH, NL] @ js ''-rf /'') = (Risk_low, [])" by code_simp
  show "classifyCommandWithCategories (js ''env -S '' @ [DQUOTE] @ js ''rm -rf /'' @ [DQUOTE]) = (Risk_low, [])" by code_simp
  show "js ''Rscript'' \<in> set PERSIST_DENY_PROGRAMS" by code_simp
  show "\<not> isPersistDeniedCommand (js ''Rscript -e 1'')" by code_simp
qed

end
