(* ===== verification/Command_Gate.thy ===== *)
theory Command_Gate
  imports Command_Correct Approval_Gates
begin

text \<open>
  The approval bridge run with the classifier of commands as its source has it, and what the two guarantee
  together.
\<close>

definition with_classifier :: "classifiers \<Rightarrow> classifiers" where
  "with_classifier C = C\<lparr>cl_commandRisk := classifyCommandRisk,
     cl_commandCategories := (\<lambda>command. set (classifyCommandCategories command)),
     cl_networkEgress := isNetworkEgressCommand, cl_persistDenied := isPersistDeniedCommand\<rparr>"

lemma with_classifier_simps [simp]:
  "cl_commandRisk (with_classifier C) = classifyCommandRisk"
  "cl_commandCategories (with_classifier C) = (\<lambda>command. set (classifyCommandCategories command))"
  by (simp_all add: with_classifier_def)




end
