(* ===== verification/Check_Classifier.thy ===== *)
theory Check_Classifier
  imports Command_Risk Work_Items
begin

text \<open>
  The classifier of checks (\<^verbatim>\<open>src/apps/sidecar/src/check-classifier.ts\<close>): whether a command is a test, a lint, a
  type check, a build or a format check, so that its exit code may back a claim of completed work. It
  uses the lexer and the wrapper grammar of the classifier of risks.
\<close>

section \<open>Tables\<close>

record CheckClassification =
  cc_check_kind :: CheckKind
  cc_check_match :: CheckMatch

definition EXIT_MASKING_WRAPPERS :: "jstring list" where
  "EXIT_MASKING_WRAPPERS = words ''script watch setsid''"

definition MUTATING_FLAGS :: "jstring list" where
  "MUTATING_FLAGS = words ''--fix --write --fix-dry-run''"

definition FORMATTER_WRITE_FLAG :: jstring where
  "FORMATTER_WRITE_FLAG = js ''-w''"

definition PROGRAM_KIND :: "(jstring \<times> CheckKind) list" where
  "PROGRAM_KIND =
    map (\<lambda>w. (w, CK_test)) (words ''vitest jest mocha ava pytest py.test tap jasmine phpunit rspec nextest'')
    @ map (\<lambda>w. (w, CK_lint)) (words ''eslint tslint pylint flake8 rubocop stylelint shellcheck biome'')
    @ map (\<lambda>w. (w, CK_typecheck)) (words ''tsc mypy pyright flow tsd'')
    @ map (\<lambda>w. (w, CK_build)) (words ''webpack rollup esbuild'')"

definition SUBCOMMAND_KIND :: "(jstring \<times> (jstring \<times> CheckKind) list) list" where
  "SUBCOMMAND_KIND =
    [(js ''go'', [(js ''test'', CK_test), (js ''vet'', CK_lint), (js ''build'', CK_build)]),
     (js ''cargo'', [(js ''test'', CK_test), (js ''nextest'', CK_test), (js ''clippy'', CK_lint),
       (js ''check'', CK_typecheck), (js ''build'', CK_build)]),
     (js ''ruff'', [(js ''check'', CK_lint)]),
     (js ''deno'', [(js ''test'', CK_test), (js ''lint'', CK_lint), (js ''check'', CK_typecheck)]),
     (js ''dotnet'', [(js ''test'', CK_test), (js ''build'', CK_build)]),
     (js ''vite'', [(js ''build'', CK_build)]),
     (js ''next'', [(js ''build'', CK_build), (js ''lint'', CK_lint)])]"

definition PACKAGE_MANAGERS :: "jstring list" where
  "PACKAGE_MANAGERS = words ''npm pnpm yarn bun''"

definition SCRIPT_RUNNERS :: "jstring list" where
  "SCRIPT_RUNNERS = PACKAGE_MANAGERS @ words ''make just task''"

definition EXEC_RUNNERS :: "jstring list" where
  "EXEC_RUNNERS = words ''npx pnpx bunx''"

definition EXEC_SUBCOMMAND_RUNNERS :: "jstring list" where
  "EXEC_SUBCOMMAND_RUNNERS = PACKAGE_MANAGERS"

definition EXEC_SUBCOMMANDS :: "jstring list" where
  "EXEC_SUBCOMMANDS = words ''exec dlx x''"

definition MAX_EXEC_UNWRAP :: nat where
  "MAX_EXEC_UNWRAP = 3"

definition EXEC_VALUE_FLAGS :: "jstring list" where
  "EXEC_VALUE_FLAGS = words ''-p --package -c --call''"

definition FORMAT_CHECK_FLAGS :: "jstring list" where
  "FORMAT_CHECK_FLAGS = words ''--check -c --list-different''"

definition FORMAT_REQUIRE_FLAG_PROGRAMS :: "jstring list" where
  "FORMAT_REQUIRE_FLAG_PROGRAMS = words ''prettier black dprint''"

section \<open>One program\<close>

definition flag :: "jstring \<Rightarrow> bool" where
  "flag t = js_starts_with t (js ''-'')"

definition hasMutatingFlag :: "jstring list \<Rightarrow> bool" where
  "hasMutatingFlag args = list_ex (\<lambda>t. t \<in> set MUTATING_FLAGS) args"

definition scriptKeywordKind :: "jstring \<Rightarrow> CheckKind option" where
  "scriptKeywordKind rawName =
    (let name = to_lower rawName; not_lower = Cls (\<lambda>c. \<not> lower_letter c) in
     if rex_test (Alt (lit ''fix'') (lit ''write'')) name then None
     else if rex_test (rex_any [lit ''typecheck'', lit ''type-check'', lit ''tsc'', lit ''typing'', Sq (lit ''types'') Edge]) name
     then Some CK_typecheck
     else if rex_test (lit ''lint'') name then Some CK_lint
     else if rex_test (rex_seq [Alt Begin not_lower, lit ''test'', Alt Empty (lit ''s''), Alt not_lower End]) name then Some CK_test
     else if rex_test (lit ''build'') name then Some CK_build
     else None)"

definition first_word :: "jstring list \<Rightarrow> jstring option" where
  "first_word ts = (case dropWhile flag ts of [] \<Rightarrow> None | t # _ \<Rightarrow> Some t)"

definition scriptTargetName :: "jstring list \<Rightarrow> jstring option" where
  "scriptTargetName args =
    (case dropWhile flag args of
       [] \<Rightarrow> None
     | head # rest \<Rightarrow> if head = js ''run'' \<or> head = js ''run-script'' then first_word rest else Some head)"

definition firstSubcommand :: "jstring list \<Rightarrow> jstring option" where
  "firstSubcommand args = map_option to_lower (first_word args)"

fun stripExecRunnerFlags :: "jstring list \<Rightarrow> jstring list" where
  "stripExecRunnerFlags [] = []"
| "stripExecRunnerFlags (t # ts) =
    (if t = js ''--'' then ts
     else if \<not> flag t then t # ts
     else if t \<in> set EXEC_VALUE_FLAGS then (case ts of [] \<Rightarrow> [] | _ # ts' \<Rightarrow> stripExecRunnerFlags ts')
     else stripExecRunnerFlags ts)"

definition unwrapExecRunner :: "jstring \<Rightarrow> jstring list \<Rightarrow> jstring list option" where
  "unwrapExecRunner name args =
    (if name \<in> set EXEC_RUNNERS then Some (stripExecRunnerFlags args)
     else if name \<in> set EXEC_SUBCOMMAND_RUNNERS then
       (case dropWhile flag args of
          [] \<Rightarrow> None
        | sub # rest \<Rightarrow> if sub \<in> set EXEC_SUBCOMMANDS then Some (stripExecRunnerFlags rest) else None)
     else None)"

definition check_of :: "CheckKind \<Rightarrow> CheckMatch \<Rightarrow> CheckClassification" where
  "check_of k m = \<lparr>cc_check_kind = k, cc_check_match = m\<rparr>"

text \<open>What follows the unwrapping of runners in \<^verbatim>\<open>classifyStrippedTokens\<close>.\<close>

definition classify_program :: "jstring \<Rightarrow> jstring list \<Rightarrow> CheckClassification option" where
  "classify_program name args =
    (if hasMutatingFlag args then None
     else case map_of PROGRAM_KIND name of
       Some direct \<Rightarrow> Some (check_of direct CM_program)
     | None \<Rightarrow>
         (case map_of SUBCOMMAND_KIND name of
            Some subMap \<Rightarrow>
              (case firstSubcommand args of
                 None \<Rightarrow> None
               | Some sub \<Rightarrow> map_option (\<lambda>k. check_of k CM_program) (map_of subMap sub))
          | None \<Rightarrow>
              if name \<in> set FORMAT_REQUIRE_FLAG_PROGRAMS then
                (if FORMATTER_WRITE_FLAG \<in> set args then None
                 else if list_ex (\<lambda>t. t \<in> set FORMAT_CHECK_FLAGS) args then Some (check_of CK_format CM_program)
                 else None)
              else if name \<in> set SCRIPT_RUNNERS then
                (case scriptTargetName args of
                   None \<Rightarrow> None
                 | Some target \<Rightarrow> map_option (\<lambda>k. check_of k CM_script) (scriptKeywordKind target))
              else None))"

definition program_name :: "jstring list \<Rightarrow> jstring" where
  "program_name tokens = normalizeCommandName (commandName tokens)"

function classifyStrippedTokens :: "jstring list \<Rightarrow> nat \<Rightarrow> CheckClassification option" where
  "classifyStrippedTokens tokens depth =
    (if tokens = [] then None
     else let name = program_name tokens; args = tl tokens in
       case (if depth < MAX_EXEC_UNWRAP then unwrapExecRunner name args else None) of
         Some inner \<Rightarrow>
           if inner = [] then None
           else classifyStrippedTokens (sp_tokens (stripRunnerWrappers inner)) (depth + 1)
       | None \<Rightarrow> classify_program name args)"
  by pat_completeness auto
termination
  by (relation "measure (\<lambda>(tokens, depth). MAX_EXEC_UNWRAP - depth)") (auto split: if_splits)

declare classifyStrippedTokens.simps [simp del]

section \<open>One command line\<close>

text \<open>\<^verbatim>\<open>programTokens\<close> with \<^verbatim>\<open>reservedWords: false\<close>.\<close>

definition program_after_assignments :: "jstring list \<Rightarrow> StrippedProgram" where
  "program_after_assignments rawTokens = stripRunnerWrappers (skip_prefix False rawTokens)"

definition classify_words :: "jstring list \<Rightarrow> CheckClassification option" where
  "classify_words rawTokens =
    (if rawTokens = [] then None else classifyStrippedTokens (sp_tokens (program_after_assignments rawTokens)) 0)"

definition classifySegment :: "jstring \<Rightarrow> CheckClassification option" where
  "classifySegment segment = classify_words (tokenize segment)"

definition opener :: "nat \<Rightarrow> bool" where
  "opener c \<longleftrightarrow> c = LPAREN \<or> c = LBRACE"

definition letters_in :: "jstring list \<Rightarrow> nat" where
  "letters_in ts = length (concat ts) + length ts"

function stripTransparentPrefix :: "jstring list \<Rightarrow> jstring list" where
  "stripTransparentPrefix [] = []"
| "stripTransparentPrefix (head # rest) =
    (if js_trim head = [] then stripTransparentPrefix rest
     else if js_space (hd head) then stripTransparentPrefix (dropWhile js_space head # rest)
     else if head = js ''time'' then stripTransparentPrefix (dropWhile isTimespecWord rest)
     else if ASSIGNMENT_TOKEN_RE head then stripTransparentPrefix rest
     else if head = [LPAREN] \<or> head = [LBRACE] then stripTransparentPrefix rest
     else if opener (hd head) then stripTransparentPrefix (dropWhile opener head # rest)
     else head # rest)"
  by pat_completeness auto
termination
proof (relation "measure letters_in")
  fix head :: jstring and rest :: "jstring list"
  have shorter: "length (dropWhile P head) < length head" if "js_trim head \<noteq> []" "P (hd head)" for P
    using that by (cases head) (auto simp: js_trim_def le_imp_less_Suc length_dropWhile_le)
  have "letters_in (dropWhile P rest) \<le> letters_in rest" for P
    by (induction rest) (auto simp: letters_in_def)
  from this [of isTimespecWord] show "(dropWhile isTimespecWord rest, head # rest) \<in> measure letters_in"
    by (simp add: letters_in_def)
  show "(dropWhile js_space head # rest, head # rest) \<in> measure letters_in" if "js_trim head \<noteq> []" "js_space (hd head)"
    using shorter [of js_space] that by (simp add: letters_in_def)
  show "(dropWhile opener head # rest, head # rest) \<in> measure letters_in" if "js_trim head \<noteq> []" "opener (hd head)"
    using shorter [of opener] that by (simp add: letters_in_def)
qed (auto simp: letters_in_def)

declare stripTransparentPrefix.simps(2) [simp del]

definition FUNCTION_HEADER_RE :: rex where
  "FUNCTION_HEADER_RE =
    (let other = (\<lambda>c. c \<noteq> LPAREN \<and> c \<noteq> RPAREN) in
     rex_seq [Begin, Cls other, Many other, Cls (\<lambda>c. c = LPAREN), spaces0, Cls (\<lambda>c. c = RPAREN)])"

definition isFunctionDefinitionHeader :: "jstring list \<Rightarrow> bool" where
  "isFunctionDefinitionHeader tokens \<longleftrightarrow>
    tokens \<noteq> [] \<and> hd tokens = js ''function'' \<or> rex_test FUNCTION_HEADER_RE (concat tokens)"

definition compound_words :: "jstring list \<Rightarrow> bool" where
  "compound_words rawTokens \<longleftrightarrow>
    (let tokens = stripTransparentPrefix rawTokens in
     tokens \<noteq> [] \<and> (hd tokens \<in> set COMMAND_POSITION_RESERVED_WORDS \<or> isFunctionDefinitionHeader tokens
       \<or> list_ex (\<lambda>w. w \<in> set EXIT_MASKING_WRAPPERS) (sp_wrappers (program_after_assignments tokens))))"

definition hasCompoundStatement :: "jstring list \<Rightarrow> bool" where
  "hasCompoundStatement segments = list_ex (\<lambda>s. compound_words (tokenize s)) segments"

fun first_result :: "('a \<Rightarrow> 'b option) \<Rightarrow> 'a list \<Rightarrow> 'b option" where
  "first_result f [] = None"
| "first_result f (x # xs) = (case f x of Some y \<Rightarrow> Some y | None \<Rightarrow> first_result f xs)"

definition classifyCheck :: "jstring \<Rightarrow> CheckClassification option" where
  "classifyCheck command =
    (if command = [] \<or> MAX_ANALYZABLE_COMMAND_LEN < length command then None
     else let segments = splitSegments command in
       if hasCompoundStatement segments then None else first_result classifySegment segments)"

text \<open>The properties that are spread into a payload.\<close>

definition checkFields :: "jstring \<Rightarrow> (jstring \<times> jsval) list" where
  "checkFields command =
    (case classifyCheck command of
       None \<Rightarrow> []
     | Some c \<Rightarrow> [(js ''check_kind'', JStr (js (check_kind_str (cc_check_kind c)))),
                 (js ''check_match'', JStr (js (check_match_str (cc_check_match c))))])"

end
