(* ===== verification/Check_Correct.thy ===== *)
theory Check_Correct
  imports Check_Classifier Shell_Lexer_Correct "HOL-Library.Code_Target_Nat" "HOL-Library.Sublist"
begin

text \<open>
  What a check of \<^verbatim>\<open>Check_Classifier\<close> is credited for: a program of the tables that stands on the command line, outside of
  compound statements, function definitions and wrappers that hide its exit code.
\<close>

section \<open>The program is a word of the command\<close>












section \<open>What is credited\<close>








section \<open>What is refused\<close>









text \<open>
  The value of an option is taken for a target. A runner of scripts whose option has a value in a word of its own is
  credited by that value: \<^verbatim>\<open>make -C tests clean\<close> runs the target \<^verbatim>\<open>clean\<close> in the directory \<^verbatim>\<open>tests\<close>
  and counts as a test, while \<^verbatim>\<open>make clean\<close> is no check.
\<close>

theorem check_target_misread:
  "classifyCheck (js ''make clean'') = None
   \<and> classifyCheck (js ''make -C tests clean'') = Some (check_of CK_test CM_script)
   \<and> classifyCheck (js ''npm --prefix lint run clean'') = Some (check_of CK_lint CM_script)"
  by (intro conjI) code_simp+

end
