(* ===== verification/Hook_Normalizer.thy ===== *)
theory Hook_Normalizer
  imports Command_Classifier Check_Classifier Event_Delivery
begin

text \<open>
  The normaliser of hooks (\<^verbatim>\<open>normalizeHook\<close> of \<^verbatim>\<open>src/apps/sidecar/src/normalize.ts\<close>, with \<^verbatim>\<open>buildEvent\<close> of
  \<^verbatim>\<open>event-factory.ts\<close>): the events the sidecar makes of one hook call of the agent. The hook is the JSON value
  of its body. No value: the event factory raised.
\<close>

section \<open>The event factory\<close>

text \<open>
  What comes from outside: the redaction of a string, the text of a number, fresh identifiers (by the order in which
  one call draws them), the clock, and the schema of payloads.
\<close>

record normalizer =
  nz_redactString :: "jstring \<Rightarrow> jstring"
  nz_number :: "jsnum \<Rightarrow> jstring"
  nz_newEventId :: "nat \<Rightarrow> jstring"
  nz_now :: jstring
  nz_schema :: sink_env

definition DEFAULT_PROVIDER :: jstring where
  "DEFAULT_PROVIDER = js ''claude_code''"

definition DEFAULT_SOURCE :: Source where
  "DEFAULT_SOURCE = Src_hooks"

text \<open>Fields copied from a hook are values of any type; the schema of the event decides about them.\<close>

record BuildEventInput =
  bi_session_id :: jsval
  bi_provider_session_id :: jsval
  bi_start_kind :: "StartKind option"
  bi_resumed_from_session_id :: "jstring option"
  bi_end_kind :: "EndKind option"
  bi_recoverability :: "Continuation option"
  bi_capture_mode :: "CaptureMode option"
  bi_governance_mode :: "GovernanceMode option"
  bi_permission_mode :: "jstring option"
  bi_event_type :: EventType
  bi_provider :: "jstring option"
  bi_source :: "Source option"
  bi_state :: "State option"
  bi_thread_id :: "jstring option"
  bi_turn_id :: "jstring option"
  bi_agent_id :: jsval
  bi_cwd :: jsval
  bi_summary :: "jstring option"
  bi_payload :: "jsval option"
  bi_metrics :: "jsval option"
  bi_timestamp :: "jstring option"

text \<open>\<^verbatim>\<open>z.string().optional()\<close>: no value when the check fails.\<close>

fun optional_string :: "jsval \<Rightarrow> jstring option option" where
  "optional_string JUndef = Some None"
| "optional_string (JStr s) = Some (Some s)"
| "optional_string _ = None"

definition with_default :: "'a \<Rightarrow> 'a option \<Rightarrow> 'a" where
  "with_default d v = (case v of None \<Rightarrow> d | Some x \<Rightarrow> x)"

definition buildEvent :: "normalizer \<Rightarrow> nat \<Rightarrow> BuildEventInput \<Rightarrow> NormalizedEvent option" where
  "buildEvent K n i =
    (case (js_string (bi_session_id i), optional_string (bi_provider_session_id i), optional_string (bi_agent_id i),
           optional_string (bi_cwd i)) of
       (Some sid, Some provider_sid, Some agent, Some cwd) \<Rightarrow>
         (if sid = [] then None
          else
            let event =
              \<lparr>ev_event_id = nz_newEventId K n, ev_provider = with_default DEFAULT_PROVIDER (bi_provider i),
               ev_source = with_default DEFAULT_SOURCE (bi_source i), ev_session_id = sid,
               ev_provider_session_id = provider_sid, ev_start_kind = bi_start_kind i,
               ev_resumed_from_session_id = bi_resumed_from_session_id i, ev_end_kind = bi_end_kind i,
               ev_recoverability = bi_recoverability i, ev_capture_mode = bi_capture_mode i,
               ev_governance_mode = bi_governance_mode i, ev_permission_mode = bi_permission_mode i,
               ev_redaction_count = None, ev_redaction_count_by_kind = None, ev_seq = None,
               ev_thread_id = bi_thread_id i, ev_turn_id = bi_turn_id i, ev_agent_id = agent,
               ev_event_type = bi_event_type i, ev_state = bi_state i,
               ev_timestamp = with_default (nz_now K) (bi_timestamp i), ev_cwd = cwd, ev_summary = bi_summary i,
               ev_payload = with_default (JObj []) (bi_payload i), ev_metrics = with_default (JObj []) (bi_metrics i)\<rparr>
            in if assertPayloadConsistency (nz_schema K) event then Some event else None)
     | _ \<Rightarrow> None)"

section \<open>Reading a hook\<close>

definition hook_field :: "jsval \<Rightarrow> string \<Rightarrow> jsval" where
  "hook_field v k = js_get v (js k)"

definition hook_name :: "jsval \<Rightarrow> jstring" where
  "hook_name v = with_default [] (js_string (hook_field v ''hook_event_name''))"

definition hook_tool_name :: "jsval \<Rightarrow> jstring" where
  "hook_tool_name v = with_default (js ''unknown'') (js_string (hook_field v ''tool_name''))"

definition tool_field :: "jsval \<Rightarrow> string \<Rightarrow> jsval" where
  "tool_field v k = js_get (hook_field v ''tool_input'') (js k)"

definition response_field :: "jsval \<Rightarrow> string \<Rightarrow> jsval" where
  "response_field v k = js_get (hook_field v ''tool_response'') (js k)"

fun nonEmptyString :: "jsval \<Rightarrow> jstring option" where
  "nonEmptyString (JStr s) = (if s = [] then None else Some s)"
| "nonEmptyString _ = None"

fun asFiniteNumber :: "jsval \<Rightarrow> jsnum option" where
  "asFiniteNumber (JNum n) = (if is_finite_num n then Some n else None)"
| "asFiniteNumber _ = None"

fun truthy :: "jsval \<Rightarrow> bool" where
  "truthy JUndef = False"
| "truthy JNull = False"
| "truthy (JBool b) = b"
| "truthy (JNum n) = (n \<noteq> JNaN \<and> n \<noteq> JFin 0)"
| "truthy (JStr s) = (s \<noteq> [])"
| "truthy _ = True"

text \<open>\<^verbatim>\<open>split("__")\<close>.\<close>

function mcp_parts :: "jstring \<Rightarrow> jstring list" where
  "mcp_parts s =
    (case s of
       [] \<Rightarrow> [[]]
     | c # r \<Rightarrow>
         if js_starts_with s (js ''__'') then [] # mcp_parts (drop 2 s)
         else (case mcp_parts r of p # ps \<Rightarrow> (c # p) # ps | [] \<Rightarrow> [[c]]))"
  by pat_completeness auto
termination by (relation "measure length") auto

declare mcp_parts.simps [simp del]

fun mcp_join :: "jstring list \<Rightarrow> jstring" where
  "mcp_join [] = []"
| "mcp_join [s] = s"
| "mcp_join (s # ss) = s @ js ''__'' @ mcp_join ss"

definition parseMcpToolName :: "jstring \<Rightarrow> jstring \<times> jstring" where
  "parseMcpToolName toolName =
    (let parts = mcp_parts toolName; tool = mcp_join (drop 2 parts) in
     (if 1 < length parts then parts ! 1 else js ''unknown'', if tool = [] then js ''unknown'' else tool))"

definition toolUseCorrelationId :: "jsval \<Rightarrow> jstring option" where
  "toolUseCorrelationId v = map_option (\<lambda>i. js ''tu:'' @ i) (nonEmptyString (hook_field v ''tool_use_id''))"

definition MAX_COMMAND_LEN :: nat where
  "MAX_COMMAND_LEN = 4096"

text \<open>\<^verbatim>\<open>replace(/\s+/g, " ")\<close>.\<close>

function squeeze :: "jstring \<Rightarrow> jstring" where
  "squeeze [] = []"
| "squeeze (c # s) = (if js_space c then 32 # squeeze (dropWhile js_space s) else c # squeeze s)"
  by pat_completeness auto
termination
  by (relation "measure length") (auto simp: le_imp_less_Suc length_dropWhile_le)

definition summarize :: "normalizer \<Rightarrow> nat \<Rightarrow> jstring \<Rightarrow> jstring" where
  "summarize K mx s =
    (let oneLine = js_trim (squeeze (nz_redactString K s)) in
     if mx < length oneLine then take mx oneLine @ [8230] else oneLine)"

definition MAX_WORK_ITEM_TEXT :: nat where
  "MAX_WORK_ITEM_TEXT = 200"

definition workItemText :: "normalizer \<Rightarrow> jsval \<Rightarrow> jstring option" where
  "workItemText K v = map_option (summarize K MAX_WORK_ITEM_TEXT) (nonEmptyString v)"

definition workItemPayload ::
    "jstring \<Rightarrow> WorkItemStatus \<Rightarrow> jstring option \<Rightarrow> jstring option \<Rightarrow> ObservationFidelity \<Rightarrow> (jstring \<times> jsval) list" where
  "workItemPayload providerTaskId status subject description fidelity =
    [(js ''provider_task_id'', JStr providerTaskId), (js ''status'', JStr (js (status_str status)))]
    @ opt_field ''subject'' JStr subject @ opt_field ''description'' JStr description
    @ [(js ''observation'', JObj [(js ''method'', JStr (js (method_str OM_official_hook))),
                                  (js ''fidelity'', JStr (js (fidelity_str fidelity)))])]"

section \<open>Making an event\<close>

record NormalizeContext =
  nc_approvalRequestId :: "jstring option"
  nc_guardTrigger :: "ApprovalTrigger option"
  nc_guardSecretKinds :: "jstring list option"
  nc_autoAllowed :: bool
  nc_guardPersistable :: bool
  nc_persistGrant :: bool
  nc_captureMode :: "CaptureMode option"
  nc_canonicalSessionId :: "jstring option"
  nc_providerSessionId :: "jstring option"
  nc_runStartKind :: "StartKind option"
  nc_resumedFromSessionId :: "jstring option"

fun trigger_text :: "ApprovalTrigger \<Rightarrow> string" where
  "trigger_text Trig_destructive = ''destructive''"
| "trigger_text Trig_secret = ''secret''"
| "trigger_text Trig_both = ''both''"

definition endKindForSessionEndReason :: "jstring \<Rightarrow> EndKind" where
  "endKindForSessionEndReason reason =
    (if reason = js ''clear'' then End_cleared else if reason = js ''logout'' then End_logout
     else if reason = js ''prompt_input_exit'' then End_completed else End_other)"

text \<open>The closure \<^verbatim>\<open>make\<close> over \<^verbatim>\<open>base\<close>: \<open>n\<close> counts the events of the call, \<open>ended\<close> is given at the end of a session.\<close>

record make_env =
  mk_normalizer :: normalizer
  mk_ctx :: NormalizeContext
  mk_input :: jsval

definition make ::
    "make_env \<Rightarrow> nat \<Rightarrow> EventType \<Rightarrow> State option \<Rightarrow> jstring \<Rightarrow> (jstring \<times> jsval) list
      \<Rightarrow> (EndKind \<times> Continuation option) option \<Rightarrow> NormalizedEvent option" where
  "make M n event_type state summary payload ended =
    (let v = mk_input M; ctx = mk_ctx M in
     buildEvent (mk_normalizer M) n
       \<lparr>bi_session_id = (case nc_canonicalSessionId ctx of Some s \<Rightarrow> JStr s | None \<Rightarrow> hook_field v ''session_id''),
        bi_provider_session_id = (case nc_providerSessionId ctx of Some s \<Rightarrow> JStr s | None \<Rightarrow> hook_field v ''session_id''),
        bi_start_kind = nc_runStartKind ctx, bi_resumed_from_session_id = nc_resumedFromSessionId ctx,
        bi_end_kind = map_option fst ended, bi_recoverability = (case ended of None \<Rightarrow> None | Some e \<Rightarrow> snd e),
        bi_capture_mode = nc_captureMode ctx,
        bi_governance_mode = (if event_type = ET_session_started
          then Some (governanceModeFor (js_string (hook_field v ''permission_mode''))) else None),
        bi_permission_mode = nonEmptyString (hook_field v ''permission_mode''),
        bi_event_type = event_type, bi_provider = None, bi_source = None, bi_state = state, bi_thread_id = None,
        bi_turn_id = None, bi_agent_id = hook_field v ''agent_id'', bi_cwd = hook_field v ''cwd'',
        bi_summary = Some summary,
        bi_payload = Some (JObj ((js ''kind'', JStr (js (event_type_str event_type))) # payload)),
        bi_metrics = None, bi_timestamp = None\<rparr>)"

definition heartbeat :: "make_env \<Rightarrow> State option \<Rightarrow> jstring \<Rightarrow> NormalizedEvent option" where
  "heartbeat M state summary = make M 0 ET_heartbeat state summary [(js ''process_alive'', JBool True)] None"

section \<open>The texts of the summaries\<close>

text \<open>The literals of the source in UTF-16 code units.\<close>

definition T_session_started :: jstring where "T_session_started = [12475, 12483, 12471, 12519, 12531, 38283, 22987]"
definition T_request :: jstring where "T_request = [20381, 38972]"
definition T_user_request :: jstring where "T_user_request = [12518, 12540, 12470, 12540, 20381, 38972]"
definition T_awaiting_approval :: jstring where "T_awaiting_approval = [25215, 35469, 24453, 12385]"
definition T_command_runs :: jstring where "T_command_runs = [12467, 12510, 12531, 12489, 23455, 34892]"
definition T_file_edit :: jstring where "T_file_edit = [12501, 12449, 12452, 12523, 32232, 38598]"
definition T_search :: jstring where "T_search = [26908, 32034]"
definition T_tool :: jstring where "T_tool = [12484, 12540, 12523]"
definition T_work_item :: jstring where "T_work_item = [20316, 26989, 38917, 30446]"
definition T_done :: jstring where "T_done = [23436, 20102]"
definition T_command :: jstring where "T_command = [12467, 12510, 12531, 12489]"
definition T_file_applied :: jstring where "T_file_applied = [12501, 12449, 12452, 12523, 36969, 29992]"
definition T_tool_failed :: jstring where "T_tool_failed = [12484, 12540, 12523, 22833, 25943]"
definition T_approval_prompt :: jstring where "T_approval_prompt = [25215, 35469, 12503, 12525, 12531, 12503, 12488]"
definition T_awaiting_input :: jstring where "T_awaiting_input = [20837, 21147, 24453, 12385]"
definition T_notice :: jstring where "T_notice = [36890, 30693]"
definition T_missing :: jstring where "T_missing = [28961, 12375]"
definition T_subagent :: jstring where "T_subagent = [12469, 12502, 12456, 12540, 12472, 12455, 12531, 12488]"
definition T_start :: jstring where "T_start = [38283, 22987]"
definition T_compaction :: jstring where "T_compaction = [12467, 12531, 12486, 12461, 12473, 12488, 22311, 32302]"
definition T_compacted :: jstring where "T_compacted = [22311, 32302, 23436, 20102, 32, 8594, 32, 20316, 26989, 20877, 38283]"
definition T_turn_completed :: jstring where "T_turn_completed = [12479, 12540, 12531, 23436, 20102]"
definition T_session_ended :: jstring where "T_session_ended = [12475, 12483, 12471, 12519, 12531, 32066, 20102]"
definition T_created :: jstring where "T_created = [20316, 25104]"

definition colon :: jstring where "colon = js '': ''"

definition in_parens :: "jstring \<Rightarrow> jstring" where
  "in_parens s = js '' ('' @ s @ js '')''"

section \<open>The hooks\<close>

text \<open>\<^verbatim>\<open>PreToolUse\<close> of a call that waits for the operator.\<close>

definition permission_card :: "make_env \<Rightarrow> jstring \<Rightarrow> NormalizedEvent option" where
  "permission_card M requestId =
    (let v = mk_input M; ctx = mk_ctx M; K = mk_normalizer M; toolName = hook_tool_name v;
         base = [(js ''request_id'', JStr requestId), (js ''tool_name'', JStr toolName)]
           @ opt_field ''trigger'' (\<lambda>t. JStr (js (trigger_text t))) (nc_guardTrigger ctx)
           @ (case nc_guardSecretKinds ctx of
                Some (k # ks) \<Rightarrow> [(js ''secret_kinds'', JArr (map JStr (k # ks)))] | _ \<Rightarrow> [])
           @ (if nc_guardPersistable ctx then [(js ''persistable'', JBool True)] else []);
         title = T_awaiting_approval @ colon
     in case classifyTool toolName of
          Kind_bash \<Rightarrow>
            (let command = with_default [] (js_string (tool_field v ''command'')) in
             make M 0 ET_tool_permission_requested (Some Waiting_approval) (title @ toolName @ in_parens (summarize K 60 command))
               (base @ [(js ''command'', JStr (summarize K MAX_COMMAND_LEN command)),
                        (js ''risk_level'', JStr (js (risk_str (classifyCommandRisk command))))]) None)
        | Kind_edit \<Rightarrow>
            (let path = with_default (js ''unknown'') (js_string (tool_field v ''file_path'')) in
             make M 0 ET_tool_permission_requested (Some Waiting_approval) (title @ toolName @ in_parens path)
               (base @ [(js ''path'', JStr path)]) None)
        | Kind_mcp \<Rightarrow>
            (case parseMcpToolName toolName of (server, tool) \<Rightarrow>
               make M 0 ET_tool_permission_requested (Some Waiting_approval) (title @ js ''MCP '' @ server @ js ''/'' @ tool) base None)
        | _ \<Rightarrow> make M 0 ET_tool_permission_requested (Some Waiting_approval) (title @ toolName) base None)"

definition auto_mark :: "NormalizeContext \<Rightarrow> (jstring \<times> jsval) list" where
  "auto_mark ctx =
    (if nc_autoAllowed ctx
     then (js ''auto_allowed'', JBool True) # (if nc_persistGrant ctx then [(js ''persist_grant'', JBool True)] else [])
     else [])"

text \<open>\<^verbatim>\<open>PreToolUse\<close> of a call that goes on.\<close>

definition tool_started :: "make_env \<Rightarrow> NormalizedEvent option" where
  "tool_started M =
    (let v = mk_input M; K = mk_normalizer M; toolName = hook_tool_name v; mark = auto_mark (mk_ctx M) in
     case classifyTool toolName of
       Kind_bash \<Rightarrow>
         (let command = with_default [] (js_string (tool_field v ''command'')) in
          make M 0 ET_command_started (Some Running_command_executing) (T_command_runs @ colon @ summarize K 100 command)
            ([(js ''command'', JStr (summarize K MAX_COMMAND_LEN command))]
             @ (if truthy (hook_field v ''cwd'') then [(js ''cwd'', hook_field v ''cwd'')] else [])
             @ [(js ''risk_level'', JStr (js (risk_str (classifyCommandRisk command))))]
             @ checkFields command
             @ opt_field ''request_id'' JStr (toolUseCorrelationId v) @ mark) None)
     | Kind_edit \<Rightarrow>
         (let path = with_default (js ''unknown'') (js_string (tool_field v ''file_path'')) in
          make M 0 ET_file_change_proposed (Some Running_file_editing) (T_file_edit @ colon @ path)
            ((js ''path'', JStr path) # mark) None)
     | Kind_mcp \<Rightarrow>
         (case parseMcpToolName toolName of (server, tool) \<Rightarrow>
            make M 0 ET_mcp_call_started (Some Running_mcp_tool_calling) (js ''MCP: '' @ server @ js ''/'' @ tool)
              ([(js ''server'', JStr server), (js ''tool'', JStr tool)] @ mark) None)
     | Kind_websearch \<Rightarrow>
         (let query = with_default [] (js_string (tool_field v ''query'')) in
          make M 0 ET_web_search_started (Some Running_web_searching) (js ''Web '' @ T_search @ colon @ summarize K 80 query)
            ((js ''query'', JStr query) # mark) None)
     | Kind_other \<Rightarrow>
         make M 0 ET_tool_started (Some Running_tool_preparing) (T_tool @ colon @ toolName)
           ((js ''tool_name'', JStr toolName) # mark) None)"

definition tool_completed :: "make_env \<Rightarrow> nat \<Rightarrow> NormalizedEvent option" where
  "tool_completed M n =
    make M n ET_tool_completed (Some Running_model_wait) (T_tool @ T_done @ colon @ hook_tool_name (mk_input M))
      [(js ''tool_name'', JStr (hook_tool_name (mk_input M)))] None"

text \<open>\<^verbatim>\<open>PostToolUse\<close> of the two task tools: the work item, when it is identified, and the end of the tool.\<close>

definition task_recorded :: "make_env \<Rightarrow> NormalizedEvent option list" where
  "task_recorded M =
    (let v = mk_input M; K = mk_normalizer M; created = (hook_tool_name v = js ''TaskCreate'');
         providerTaskId = nonEmptyString (if created then js_get (response_field v ''task'') (js ''id'') else tool_field v ''taskId'');
         status = (if created then WS_pending else coerceWorkItemStatus (tool_field v ''status''));
         subject = (if created then workItemText K (tool_field v ''subject'') else None);
         description = (if created then workItemText K (tool_field v ''description'') else None)
     in case providerTaskId of
          None \<Rightarrow> [tool_completed M 0]
        | Some i \<Rightarrow>
            [make M 0 ET_work_item_updated None
               (T_work_item @ [32] @ js (status_str status) @ colon @ with_default i subject)
               (workItemPayload i status subject description OF_parsed) None,
             tool_completed M 1])"

definition exit_label :: "normalizer \<Rightarrow> jsnum option \<Rightarrow> jstring" where
  "exit_label K exitCode = (case exitCode of None \<Rightarrow> [] | Some n \<Rightarrow> in_parens (js ''exit '' @ nz_number K n))"

definition tool_ended :: "make_env \<Rightarrow> NormalizedEvent option list" where
  "tool_ended M =
    (let v = mk_input M; K = mk_normalizer M; toolName = hook_tool_name v in
     if toolName = js ''TaskCreate'' \<or> toolName = js ''TaskUpdate'' then task_recorded M
     else case classifyTool toolName of
       Kind_bash \<Rightarrow>
         (let exitCode = asFiniteNumber (response_field v ''exit_code'') in
          [make M 0 ET_command_completed (Some Running_model_wait) (T_command @ T_done @ colon @ toolName @ exit_label K exitCode)
             (opt_field ''exit_code'' JNum exitCode
              @ (case js_string (tool_field v ''command'') of
                   None \<Rightarrow> []
                 | Some command \<Rightarrow> (js ''command'', JStr (summarize K MAX_COMMAND_LEN command)) # checkFields command)
              @ opt_field ''request_id'' JStr (toolUseCorrelationId v)) None])
     | Kind_edit \<Rightarrow>
         (let path = with_default (js ''unknown'') (js_string (tool_field v ''file_path'')) in
          [make M 0 ET_file_change_applied (Some Running_model_wait) (T_file_applied @ colon @ path) [(js ''path'', JStr path)] None])
     | Kind_mcp \<Rightarrow>
         (case parseMcpToolName toolName of (server, tool) \<Rightarrow>
            [make M 0 ET_mcp_call_completed (Some Running_model_wait) (js ''MCP '' @ T_done @ colon @ server @ js ''/'' @ tool)
               [(js ''server'', JStr server), (js ''tool'', JStr tool)] None])
     | _ \<Rightarrow> [tool_completed M 0])"

definition tool_failed :: "make_env \<Rightarrow> NormalizedEvent option" where
  "tool_failed M =
    (let v = mk_input M; K = mk_normalizer M; toolName = hook_tool_name v;
         errorText = (case js_string (hook_field v ''tool_response'') of
           Some s \<Rightarrow> s | None \<Rightarrow> with_default (js ''tool failed'') (js_string (response_field v ''stderr'')));
         exitCode = asFiniteNumber (response_field v ''exit_code'')
     in make M 0 ET_tool_failed (Some Running_model_wait) (T_tool_failed @ colon @ toolName @ exit_label K exitCode)
          ([(js ''tool_name'', JStr toolName), (js ''error'', JStr (summarize K 200 errorText))]
           @ opt_field ''exit_code'' JNum exitCode
           @ opt_field ''command'' (\<lambda>c. JStr (summarize K MAX_COMMAND_LEN c)) (js_string (tool_field v ''command''))
           @ opt_field ''request_id'' JStr (toolUseCorrelationId v)) None)"

definition permission_requested :: "make_env \<Rightarrow> NormalizedEvent option" where
  "permission_requested M =
    (let v = mk_input M; K = mk_normalizer M; toolName = hook_tool_name v; kind = classifyTool toolName;
         command = tool_field v ''command''; text = with_default [] (js_string command)
     in make M 0 ET_tool_permission_requested (Some Waiting_approval)
          (T_awaiting_approval @ colon @ toolName @ (if truthy command then in_parens (summarize K 60 text) else []))
          ([(js ''tool_name'', JStr toolName)]
           @ (if kind = Kind_bash \<and> truthy command
              then [(js ''command'', JStr (summarize K MAX_COMMAND_LEN text)),
                    (js ''risk_level'', JStr (js (risk_str (classifyCommandRisk text))))] else [])
           @ (if kind = Kind_edit \<and> truthy (tool_field v ''file_path'') then [(js ''path'', tool_field v ''file_path'')] else [])
           @ (case nc_approvalRequestId (mk_ctx M) of
                Some (c # r) \<Rightarrow> [(js ''request_id'', JStr (c # r))] | _ \<Rightarrow> [])) None)"

definition notification :: "make_env \<Rightarrow> NormalizedEvent option" where
  "notification M =
    (let v = mk_input M; ntype = js_string (hook_field v ''notification_type'');
         message = with_default [] (js_string (hook_field v ''message''))
     in if ntype = Some (js ''permission_prompt'') then
          heartbeat M (Some Waiting_approval) (T_approval_prompt @ colon @ summarize (mk_normalizer M) 80 message)
        else if ntype = Some (js ''idle_prompt'') then heartbeat M (Some Waiting_user_input) T_awaiting_input
        else heartbeat M None (T_notice @ colon @ with_default (js ''notification'') ntype))"

text \<open>\<^verbatim>\<open>SubagentStart\<close> and \<^verbatim>\<open>SubagentStop\<close>.\<close>

definition subagent :: "make_env \<Rightarrow> bool \<Rightarrow> NormalizedEvent option" where
  "subagent M started =
    (case nonEmptyString (hook_field (mk_input M) ''agent_type'') of
       None \<Rightarrow> heartbeat M None
         (T_notice @ colon @ js ''subagent '' @ js (if started then ''start'' else ''stop'') @ js '' (agent_type '' @ T_missing @ js '')'')
     | Some agentType \<Rightarrow>
         if started
         then make M 0 ET_subagent_started None (T_subagent @ T_start @ colon @ agentType)
                [(js ''task'', JStr agentType), (js ''agent_type'', JStr agentType)] None
         else make M 0 ET_subagent_completed None (T_subagent @ T_done @ colon @ agentType)
                [(js ''agent_type'', JStr agentType)] None)"

text \<open>\<^verbatim>\<open>TaskCreated\<close> and \<^verbatim>\<open>TaskCompleted\<close>.\<close>

definition task_hook :: "make_env \<Rightarrow> bool \<Rightarrow> NormalizedEvent option" where
  "task_hook M created =
    (let v = mk_input M; K = mk_normalizer M in
     case nonEmptyString (hook_field v ''task_id'') of
       None \<Rightarrow> heartbeat M None
         (T_notice @ colon @ js (if created then ''TaskCreated'' else ''TaskCompleted'') @ js '' (task_id '' @ T_missing @ js '')'')
     | Some taskId \<Rightarrow>
         (let subject = workItemText K (hook_field v ''task_subject'');
              description = workItemText K (hook_field v ''task_description'')
          in make M 0 ET_work_item_updated None
               (T_work_item @ [32] @ (if created then T_created else T_done) @ colon @ with_default taskId subject)
               (workItemPayload taskId (if created then WS_pending else WS_completed) subject description OF_observed) None))"

definition session_started :: "make_env \<Rightarrow> NormalizedEvent option" where
  "session_started M =
    (let v = mk_input M; source = js_string (hook_field v ''source'') in
     make M 0 ET_session_started (Some Starting) (T_session_started @ in_parens (with_default (js ''startup'') source))
       ((if truthy (hook_field v ''cwd'') then [(js ''repo'', hook_field v ''cwd'')] else [])
        @ (case source of Some (c # s) \<Rightarrow> [(js ''source'', JStr (c # s))] | _ \<Rightarrow> [])) None)"

definition turn_started :: "make_env \<Rightarrow> NormalizedEvent option" where
  "turn_started M =
    (let K = mk_normalizer M; prompt = with_default [] (js_string (hook_field (mk_input M) ''prompt'')) in
     make M 0 ET_turn_started (Some Running_model_wait)
       (if prompt = [] then T_user_request else T_request @ colon @ summarize K 120 prompt)
       [(js ''prompt_summary'', JStr (summarize K 200 prompt))] None)"

definition context_compacted :: "make_env \<Rightarrow> NormalizedEvent option" where
  "context_compacted M =
    (let trigger = js_string (hook_field (mk_input M) ''trigger'') in
     make M 0 ET_context_compacted (Some Compacting) (T_compaction @ in_parens (with_default (js ''auto'') trigger))
       [(js ''trigger'', JStr (js (if trigger = Some (js ''manual'') then ''manual'' else ''auto'')))] None)"

definition session_ended :: "make_env \<Rightarrow> NormalizedEvent option" where
  "session_ended M =
    (let reason = with_default (js ''other'') (js_string (hook_field (mk_input M) ''reason'')) in
     make M 0 ET_session_ended (Some Completed) (T_session_ended @ in_parens reason) [(js ''reason'', JStr reason)]
       (Some (endKindForSessionEndReason reason, terminalContinuation (Some Completed))))"

definition hook_candidates :: "make_env \<Rightarrow> NormalizedEvent option list" where
  "hook_candidates M =
    (let name = hook_name (mk_input M) in
     if name = js ''SessionStart'' then [session_started M]
     else if name = js ''UserPromptSubmit'' then [turn_started M]
     else if name = js ''PreToolUse'' then
       [case nc_approvalRequestId (mk_ctx M) of Some r \<Rightarrow> permission_card M r | None \<Rightarrow> tool_started M]
     else if name = js ''PostToolUse'' then tool_ended M
     else if name = js ''PostToolUseFailure'' then [tool_failed M]
     else if name = js ''PermissionRequest'' then [permission_requested M]
     else if name = js ''Notification'' then [notification M]
     else if name = js ''SubagentStart'' then [subagent M True]
     else if name = js ''SubagentStop'' then [subagent M False]
     else if name = js ''PreCompact'' then [context_compacted M]
     else if name = js ''PostCompact'' then [heartbeat M (Some Running_model_wait) T_compacted]
     else if name = js ''Stop'' then [make M 0 ET_turn_completed (Some Idle) T_turn_completed [] None]
     else if name = js ''SessionEnd'' then [session_ended M]
     else if name = js ''TaskCreated'' then [task_hook M True]
     else if name = js ''TaskCompleted'' then [task_hook M False]
     else [heartbeat M None (js ''hook: '' @ name)])"

definition normalizeHook :: "normalizer \<Rightarrow> NormalizeContext \<Rightarrow> jsval \<Rightarrow> NormalizedEvent list option" where
  "normalizeHook K ctx input = those (hook_candidates \<lparr>mk_normalizer = K, mk_ctx = ctx, mk_input = input\<rparr>)"

end
