(* ===== verification/Normalizer_Correct.thy ===== *)
theory Normalizer_Correct
  imports Hook_Normalizer Projection_Correct Work_Items_Correct "HOL-Library.Code_Target_Nat"
begin

text \<open>
  What the events of a hook do to the projections: which hooks end a session, that a gated call is shown to the
  operator, and what stands behind a verified claim of an agent that reports through hooks.
\<close>

section \<open>Events of a hook\<close>

lemma those_eq_Some: "those xs = Some ys \<longleftrightarrow> xs = map Some ys"
proof (induction xs arbitrary: ys)
  case (Cons x xs)
  then show ?case by (cases ys) (auto split: option.splits)
qed auto

lemma buildEvent_fields:
  assumes "buildEvent K n i = Some ev"
  shows "ev_event_type ev = bi_event_type i" "ev_state ev = bi_state i" "ev_payload ev = with_default (JObj []) (bi_payload i)"
    "ev_summary ev = bi_summary i" "JStr (ev_session_id ev) = bi_session_id i" "ev_session_id ev \<noteq> []"
    "ev_event_id ev = nz_newEventId K n" "ev_end_kind ev = bi_end_kind i" "ev_governance_mode ev = bi_governance_mode i"
  using assms by (auto simp: buildEvent_def Let_def split: option.splits if_splits)

lemma make_fields:
  assumes "make M n et st s ps en = Some ev"
  shows "ev_event_type ev = et" "ev_state ev = st" "ev_payload ev = JObj ((js ''kind'', JStr (js (event_type_str et))) # ps)"
    "ev_summary ev = Some s" "ev_session_id ev \<noteq> []"
  using buildEvent_fields [OF assms [unfolded make_def Let_def]] by (simp_all add: with_default_def)

text \<open>The types and states of the events of a hook, by its name.\<close>

definition hook_shapes :: "(jstring \<times> (EventType \<times> State option) list) list" where
  "hook_shapes =
    [(js ''SessionStart'', [(ET_session_started, Some Starting)]),
     (js ''UserPromptSubmit'', [(ET_turn_started, Some Running_model_wait)]),
     (js ''PreToolUse'',
       [(ET_tool_permission_requested, Some Waiting_approval), (ET_command_started, Some Running_command_executing),
        (ET_file_change_proposed, Some Running_file_editing), (ET_mcp_call_started, Some Running_mcp_tool_calling),
        (ET_web_search_started, Some Running_web_searching), (ET_tool_started, Some Running_tool_preparing)]),
     (js ''PostToolUse'',
       [(ET_work_item_updated, None), (ET_tool_completed, Some Running_model_wait), (ET_command_completed, Some Running_model_wait),
        (ET_file_change_applied, Some Running_model_wait), (ET_mcp_call_completed, Some Running_model_wait)]),
     (js ''PostToolUseFailure'', [(ET_tool_failed, Some Running_model_wait)]),
     (js ''PermissionRequest'', [(ET_tool_permission_requested, Some Waiting_approval)]),
     (js ''Notification'', [(ET_heartbeat, Some Waiting_approval), (ET_heartbeat, Some Waiting_user_input), (ET_heartbeat, None)]),
     (js ''SubagentStart'', [(ET_subagent_started, None), (ET_heartbeat, None)]),
     (js ''SubagentStop'', [(ET_subagent_completed, None), (ET_heartbeat, None)]),
     (js ''PreCompact'', [(ET_context_compacted, Some Compacting)]),
     (js ''PostCompact'', [(ET_heartbeat, Some Running_model_wait)]),
     (js ''Stop'', [(ET_turn_completed, Some Idle)]),
     (js ''SessionEnd'', [(ET_session_ended, Some Completed)]),
     (js ''TaskCreated'', [(ET_work_item_updated, None), (ET_heartbeat, None)]),
     (js ''TaskCompleted'', [(ET_work_item_updated, None), (ET_heartbeat, None)])]"

definition shape_of :: "jstring \<Rightarrow> (EventType \<times> State option) list" where
  "shape_of name = (case map_of hook_shapes name of Some s \<Rightarrow> s | None \<Rightarrow> [(ET_heartbeat, None)])"

definition shaped :: "(EventType \<times> State option) set \<Rightarrow> NormalizedEvent option \<Rightarrow> bool" where
  "shaped S c \<longleftrightarrow> (case c of None \<Rightarrow> True | Some ev \<Rightarrow> (ev_event_type ev, ev_state ev) \<in> S)"

lemma shaped_make: "(et, st) \<in> S \<Longrightarrow> shaped S (make M n et st s ps en)"
  by (cases "make M n et st s ps en") (simp_all add: shaped_def make_fields)

lemmas candidate_defs = permission_card_def tool_started_def tool_completed_def task_recorded_def tool_ended_def tool_failed_def
  permission_requested_def notification_def subagent_def task_hook_def session_started_def turn_started_def context_compacted_def
  session_ended_def heartbeat_def

lemma permission_card_shaped: "(ET_tool_permission_requested, Some Waiting_approval) \<in> S \<Longrightarrow> shaped S (permission_card M r)"
  by (auto simp: permission_card_def Let_def intro!: shaped_make split: ToolKind.split prod.split)

lemma tool_started_shaped: "shaped (set (shape_of (js ''PreToolUse''))) (tool_started M)"
  by (auto simp: tool_started_def Let_def shape_of_def hook_shapes_def intro!: shaped_make split: ToolKind.split prod.split)

lemma tool_ended_shaped: "list_all (shaped (set (shape_of (js ''PostToolUse'')))) (tool_ended M)"
  by (auto simp: tool_ended_def task_recorded_def tool_completed_def Let_def shape_of_def hook_shapes_def intro!: shaped_make
      split: ToolKind.split prod.split option.split)

lemma list_all_if: "(c \<Longrightarrow> list_all P a) \<Longrightarrow> (\<not> c \<Longrightarrow> list_all P b) \<Longrightarrow> list_all P (if c then a else b)"
  by simp

lemma other_shaped:
  "shaped (set (shape_of (js ''SessionStart''))) (session_started M)"
  "shaped (set (shape_of (js ''UserPromptSubmit''))) (turn_started M)"
  "shaped (set (shape_of (js ''PostToolUseFailure''))) (tool_failed M)"
  "shaped (set (shape_of (js ''PermissionRequest''))) (permission_requested M)"
  "shaped (set (shape_of (js ''Notification''))) (notification M)"
  "shaped (set (shape_of (js ''SubagentStart''))) (subagent M True)"
  "shaped (set (shape_of (js ''SubagentStop''))) (subagent M False)"
  "shaped (set (shape_of (js ''PreCompact''))) (context_compacted M)"
  "shaped (set (shape_of (js ''PostCompact''))) (heartbeat M (Some Running_model_wait) T_compacted)"
  "shaped (set (shape_of (js ''Stop''))) (make M 0 ET_turn_completed (Some Idle) T_turn_completed [] None)"
  "shaped (set (shape_of (js ''SessionEnd''))) (session_ended M)"
  "shaped (set (shape_of (js ''TaskCreated''))) (task_hook M True)"
  "shaped (set (shape_of (js ''TaskCompleted''))) (task_hook M False)"
  by (simp_all add: candidate_defs Let_def shape_of_def hook_shapes_def shaped_make split: option.split)

lemma candidates_shaped: "list_all (shaped (set (shape_of (hook_name (mk_input M))))) (hook_candidates M)"
  unfolding hook_candidates_def Let_def
  by (intro list_all_if) (simp_all add: other_shaped tool_started_shaped tool_ended_shaped split: option.split,
      simp_all add: permission_card_shaped shape_of_def hook_shapes_def heartbeat_def shaped_make)

lemma hook_event_shape:
  assumes "normalizeHook K ctx v = Some es" "ev \<in> set es"
  shows "(ev_event_type ev, ev_state ev) \<in> set (shape_of (hook_name v))"
  using candidates_shaped [of "\<lparr>mk_normalizer = K, mk_ctx = ctx, mk_input = v\<rparr>"] assms
  by (auto simp: normalizeHook_def those_eq_Some list_all_iff shaped_def)

section \<open>The end of a session\<close>

type_synonym hook_call = "normalizer \<times> NormalizeContext \<times> jsval"

definition hook_events :: "hook_call \<Rightarrow> NormalizedEvent list" where
  "hook_events h = (case h of (K, ctx, v) \<Rightarrow> case normalizeHook K ctx v of None \<Rightarrow> [] | Some es \<Rightarrow> es)"

definition hook_stream :: "hook_call list \<Rightarrow> NormalizedEvent list" where
  "hook_stream hs = concat (map hook_events hs)"

definition ends_session :: "hook_call \<Rightarrow> bool" where
  "ends_session h = (case h of (K, ctx, v) \<Rightarrow> hook_name v = js ''SessionEnd'' \<and> normalizeHook K ctx v \<noteq> None)"

lemma shapes_open: "list_all (\<lambda>(name, shapes). list_all (\<lambda>(et, st). st \<noteq> Some Created
    \<and> (terminal_opt st \<longrightarrow> name = js ''SessionEnd'') \<and> (et = ET_command_completed \<longrightarrow> name = js ''PostToolUse'')) shapes) hook_shapes"
  by (simp add: hook_shapes_def terminal_opt_def isTerminalState_iff)

lemma shape_facts:
  assumes "(et, st) \<in> set (shape_of name)"
  shows "st \<noteq> Some Created" "terminal_opt st \<Longrightarrow> name = js ''SessionEnd''" "et = ET_command_completed \<Longrightarrow> name = js ''PostToolUse''"
proof -
  have "st \<noteq> Some Created \<and> (terminal_opt st \<longrightarrow> name = js ''SessionEnd'') \<and> (et = ET_command_completed \<longrightarrow> name = js ''PostToolUse'')"
  proof (cases "map_of hook_shapes name")
    case (Some s)
    then have "(name, s) \<in> set hook_shapes" "(et, st) \<in> set s" using assms by (auto simp: shape_of_def dest: map_of_SomeD)
    with shapes_open show ?thesis unfolding list_all_iff by fast
  qed (use assms in \<open>simp add: shape_of_def terminal_opt_def\<close>)
  then show "st \<noteq> Some Created" "terminal_opt st \<Longrightarrow> name = js ''SessionEnd''"
    "et = ET_command_completed \<Longrightarrow> name = js ''PostToolUse''" by blast+
qed

lemma event_shape: "ev \<in> set (hook_events (K, ctx, v)) \<Longrightarrow> (ev_event_type ev, ev_state ev) \<in> set (shape_of (hook_name v))"
  by (cases "normalizeHook K ctx v") (simp_all add: hook_events_def hook_event_shape)

lemma end_events:
  assumes "ends_session h"
  shows "\<exists>ev. hook_events h = [ev] \<and> ev_state ev = Some Completed"
  using assms
  by (cases h) (auto simp: ends_session_def hook_events_def normalizeHook_def hook_candidates_def Let_def those_eq_Some
      session_ended_def make_fields)

lemma other_events:
  assumes "\<not> ends_session h"
  shows "list_all (\<lambda>ev. \<not> terminal_opt (ev_state ev)) (hook_events h)"
proof (cases h)
  case (fields K ctx v)
  show ?thesis
  proof (cases "normalizeHook K ctx v")
    case (Some es)
    with assms fields have "hook_name v \<noteq> js ''SessionEnd''" by (simp add: ends_session_def)
    then show ?thesis using event_shape [of _ K ctx v] shape_facts(2) by (auto simp: fields list_all_iff)
  qed (simp add: hook_events_def fields)
qed

lemma phase_not_created:
  "list_all (\<lambda>st. st \<noteq> Some Created) sts \<Longrightarrow> fst p \<noteq> Some Created \<Longrightarrow> fst (foldl phase_step p sts) \<noteq> Some Created"
proof (induction sts arbitrary: p)
  case (Cons st sts)
  have "fst (phase_step p st) \<noteq> Some Created"
    using Cons.prems by (cases "(p, st)" rule: phase_step.cases) auto
  with Cons show ?case by simp
qed simp

lemma never_created: "sp_state (reduceEvents sid (hook_stream hs)) \<noteq> Some Created"
proof -
  have "list_all (\<lambda>st. st \<noteq> Some Created) (map ev_state (hook_stream hs))"
    using event_shape shape_facts(1) by (fastforce simp: hook_stream_def list_all_iff)
  then have "fst (foldl phase_step (None, 0) (map ev_state (hook_stream hs))) \<noteq> Some Created"
    by (rule phase_not_created) simp
  then show ?thesis using reduce_phase [of sid "hook_stream hs"] by (metis fst_conv phase_def)
qed

lemma run_open:
  assumes "list_all (\<lambda>ev. \<not> terminal_opt (ev_state ev)) es"
  shows "terminal_opt (sp_state (foldl apply_proj p es)) \<longleftrightarrow> terminal_opt (sp_state p)"
  using assms
proof (induction es arbitrary: p)
  case (Cons e es)
  have "terminal_opt (fst (phase_step (phase p) (ev_state e))) = terminal_opt (sp_state p)"
    using Cons.prems
    by (cases "(phase p, ev_state e)" rule: phase_step.cases)
       (auto simp: phase_def terminal_opt_def terminal_no_exit)
  with Cons show ?case by (simp add: apply_state)
qed simp

lemma completed_reached: "s \<noteq> Created \<Longrightarrow> s \<noteq> Starting \<Longrightarrow> \<not> isTerminalState s \<Longrightarrow> isValidTransition s Completed"
  by (cases s) (simp_all add: isValidTransition_def state_groups)

lemma completed_from_starting: "\<not> isValidTransition Starting Completed"
  by (simp add: isValidTransition_def state_groups)

lemma session_end_step:
  assumes "ev_state ev = Some Completed" "sp_state p \<noteq> Some Created"
  shows "terminal_opt (sp_state (apply_proj p ev)) \<longleftrightarrow> sp_state p \<noteq> Some Starting"
proof (cases "sp_state p")
  case (Some s)
  with assms show ?thesis
    using completed_reached [of s] completed_from_starting
    by (cases "s = Starting")
       (auto simp: apply_state phase_def terminal_opt_def isTerminalState_iff)
qed (use assms in \<open>simp add: apply_state phase_def terminal_opt_def isTerminalState_iff\<close>)

lemma starting_not_terminal: "terminal_opt s \<Longrightarrow> s \<noteq> Some Starting"
  by (auto simp: terminal_opt_def isTerminalState_iff)

lemma snoc_split: "(\<exists>a h b. hs @ [x] = a @ h # b \<and> P a h) \<longleftrightarrow> (\<exists>a h b. hs = a @ h # b \<and> P a h) \<or> P hs x"
proof -
  have "(hs @ [x] = a @ h # b) \<longleftrightarrow> (a = hs \<and> h = x \<and> b = []) \<or> (\<exists>b'. b = b' @ [x] \<and> hs = a @ h # b')" for a h b
    by (cases b rule: rev_cases) auto
  then show ?thesis by (simp only:) blast
qed

text \<open>
  C9. Which hooks end a session. In the projection of the events of any sequence of hooks, the session has ended exactly when one
  of them was the end of the session and the session was past its start when it arrived. A session that
  ends before anything else was reported after its start is left as starting, because the table of transitions
  has no way from there to completed.
\<close>

theorem hooks_end_session:
  "terminal_opt (sp_state (reduceEvents sid (hook_stream hs))) \<longleftrightarrow>
    (\<exists>before h rest. hs = before @ h # rest \<and> ends_session h \<and> sp_state (reduceEvents sid (hook_stream before)) \<noteq> Some Starting)"
proof (induction hs rule: rev_induct)
  case (snoc h hs)
  let ?p = "reduceEvents sid (hook_stream hs)"
  have run: "reduceEvents sid (hook_stream (hs @ [h])) = foldl apply_proj ?p (hook_events h)"
    by (simp add: hook_stream_def reduceEvents_append)
  have "terminal_opt (sp_state (foldl apply_proj ?p (hook_events h)))
    \<longleftrightarrow> terminal_opt (sp_state ?p) \<or> ends_session h \<and> sp_state ?p \<noteq> Some Starting"
  proof (cases "ends_session h")
    case True
    with end_events [OF True] show ?thesis
      using session_end_step [OF _ never_created] starting_not_terminal by force
  next
    case False
    with run_open [OF other_events [OF False]] show ?thesis by simp
  qed
  then show ?case unfolding run snoc_split [of hs h] by (simp add: snoc.IH)
qed (simp add: hook_stream_def initialProjection_def terminal_opt_def)

section \<open>The card of a gated call\<close>

definition hook_command :: "jsval \<Rightarrow> jstring option" where
  "hook_command v = (if classifyTool (hook_tool_name v) = Kind_bash then nonEmptyString (tool_field v ''command'') else None)"

lemma nonEmpty_SomeD: "nonEmptyString x = Some s \<Longrightarrow> x = JStr s \<and> s \<noteq> []"
  by (cases x) (auto split: if_splits)

definition card_options :: "NormalizeContext \<Rightarrow> (jstring \<times> jsval) list" where
  "card_options ctx = opt_field ''trigger'' (\<lambda>t. JStr (js (trigger_text t))) (nc_guardTrigger ctx)
     @ (case nc_guardSecretKinds ctx of Some (k # ks) \<Rightarrow> [(js ''secret_kinds'', JArr (map JStr (k # ks)))] | _ \<Rightarrow> [])
     @ (if nc_guardPersistable ctx then [(js ''persistable'', JBool True)] else [])"

lemma card_options_get: "k \<notin> {''trigger'', ''secret_kinds'', ''persistable''} \<Longrightarrow> map_of (card_options ctx @ ps) (js k) = map_of ps (js k)"
  by (auto simp: card_options_def opt_field_def map_add_def split: option.split list.split)

lemma permission_card_make:
  assumes "mk_input M = v" "mk_ctx M = ctx" "mk_normalizer M = K"
  shows "\<exists>s extra. permission_card M rid = make M 0 ET_tool_permission_requested (Some Waiting_approval) s
      ([(js ''request_id'', JStr rid), (js ''tool_name'', JStr (hook_tool_name v))] @ card_options ctx @ extra) None
    \<and> (\<forall>c. hook_command v = Some c \<longrightarrow> extra = [(js ''command'', JStr (summarize K MAX_COMMAND_LEN c)),
                          (js ''risk_level'', JStr (js (risk_str (classifyCommandRisk c))))])"
proof -
  define te where "te = (case classifyTool (hook_tool_name v) of
        Kind_bash \<Rightarrow> (let command = with_default [] (js_string (tool_field v ''command'')) in
          (hook_tool_name v @ in_parens (summarize K 60 command),
           [(js ''command'', JStr (summarize K MAX_COMMAND_LEN command)),
            (js ''risk_level'', JStr (js (risk_str (classifyCommandRisk command))))]))
      | Kind_edit \<Rightarrow> (let path = with_default (js ''unknown'') (js_string (tool_field v ''file_path'')) in
          (hook_tool_name v @ in_parens path, [(js ''path'', JStr path)]))
      | Kind_mcp \<Rightarrow> (case parseMcpToolName (hook_tool_name v) of (server, tool) \<Rightarrow> (js ''MCP '' @ server @ js ''/'' @ tool, []))
      | _ \<Rightarrow> (hook_tool_name v, []))"
  have "permission_card M rid = make M 0 ET_tool_permission_requested (Some Waiting_approval) (T_awaiting_approval @ colon @ fst te)
      ([(js ''request_id'', JStr rid), (js ''tool_name'', JStr (hook_tool_name v))] @ card_options ctx @ snd te) None"
    by (cases "classifyTool (hook_tool_name v)")
       (simp_all add: te_def permission_card_def Let_def card_options_def assms split: prod.splits)
  moreover have "snd te = [(js ''command'', JStr (summarize K MAX_COMMAND_LEN c)),
      (js ''risk_level'', JStr (js (risk_str (classifyCommandRisk c))))]" if "hook_command v = Some c" for c
    using that by (auto simp: te_def hook_command_def Let_def with_default_def dest!: nonEmpty_SomeD split: if_splits)
  ultimately show ?thesis by blast
qed

lemma card_payload:
  assumes "normalizeHook K ctx v = Some es" "nc_approvalRequestId ctx = Some rid" "rid \<noteq> []"
    "hook_name v = js ''PreToolUse'' \<or> hook_name v = js ''PermissionRequest''"
  obtains ev where "es = [ev]" "ev_event_type ev = ET_tool_permission_requested" "ev_state ev = Some Waiting_approval"
    "payloadString (ev_payload ev) ''request_id'' = Some rid" "payloadString (ev_payload ev) ''tool_name'' = Some (hook_tool_name v)"
    "\<And>c. hook_command v = Some c \<Longrightarrow> payloadString (ev_payload ev) ''command'' = Some (summarize K MAX_COMMAND_LEN c)
      \<and> payloadString (ev_payload ev) ''risk_level'' = Some (js (risk_str (classifyCommandRisk c)))"
proof -
  let ?M = "\<lparr>mk_normalizer = K, mk_ctx = ctx, mk_input = v\<rparr>"
  obtain c0 r0 where rid: "rid = c0 # r0" using assms(3) by (cases rid) auto
  show thesis
  proof (cases "hook_name v = js ''PreToolUse''")
    case True
    with assms obtain ev where ev: "es = [ev]" "permission_card ?M rid = Some ev"
      by (auto simp: normalizeHook_def hook_candidates_def Let_def split: option.splits)
    obtain s extra where card: "make ?M 0 ET_tool_permission_requested (Some Waiting_approval) s
        ([(js ''request_id'', JStr rid), (js ''tool_name'', JStr (hook_tool_name v))] @ card_options ctx @ extra) None = Some ev"
      "\<And>c. hook_command v = Some c \<Longrightarrow> extra = [(js ''command'', JStr (summarize K MAX_COMMAND_LEN c)),
                          (js ''risk_level'', JStr (js (risk_str (classifyCommandRisk c))))]"
      using permission_card_make [of ?M v ctx K rid] ev(2) by auto
    show thesis
      by (rule that [OF ev(1)]; use card(2) in
          \<open>simp add: make_fields [OF card(1)] payloadString_def payloadValue_def card_options_get del: map_of_append\<close>)
  next
    case False
    with assms obtain ev where ev: "es = [ev]" "permission_requested ?M = Some ev"
      by (auto simp: normalizeHook_def hook_candidates_def Let_def split: option.splits)
    define cmd where "cmd = (if classifyTool (hook_tool_name v) = Kind_bash \<and> truthy (tool_field v ''command'')
      then [(js ''command'', JStr (summarize K MAX_COMMAND_LEN (with_default [] (js_string (tool_field v ''command''))))),
            (js ''risk_level'', JStr (js (risk_str (classifyCommandRisk (with_default [] (js_string (tool_field v ''command'')))))))]
      else [])"
    define path where "path = (if classifyTool (hook_tool_name v) = Kind_edit \<and> truthy (tool_field v ''file_path'')
      then [(js ''path'', tool_field v ''file_path'')] else [])"
    obtain s where made: "make ?M 0 ET_tool_permission_requested (Some Waiting_approval) s
        ((js ''tool_name'', JStr (hook_tool_name v)) # cmd @ path @ [(js ''request_id'', JStr rid)]) None = Some ev"
      using ev(2) by (simp add: permission_requested_def Let_def assms(2) rid flip: cmd_def path_def)
    have "map_of (cmd @ path @ [(js ''request_id'', JStr rid)]) (js ''request_id'') = Some (JStr rid)"
      by (simp add: cmd_def path_def)
    moreover have "cmd = [(js ''command'', JStr (summarize K MAX_COMMAND_LEN c)), (js ''risk_level'', JStr (js (risk_str (classifyCommandRisk c))))]"
      if "hook_command v = Some c" for c
      using that by (auto simp: cmd_def hook_command_def with_default_def dest!: nonEmpty_SomeD split: if_split_asm)
    ultimately show thesis
      by (intro that [OF ev(1)])
         (simp_all add: make_fields [OF made] payloadString_def payloadValue_def del: map_of_append)
  qed
qed

text \<open>
  C6. A call that waits for the operator is shown to the operator. When the bridge gates a call under a request
  identifier, the one event the normaliser makes of the hook puts a card with that identifier into the projection of the session,
  whatever was there before, the session ended included, and the session needs attention; the card of a command has the text of the command,
  redacted before it is shortened, and the risk the gate decided by.
\<close>

theorem gated_call_card:
  assumes "normalizeHook K ctx v = Some es" "nc_approvalRequestId ctx = Some rid" "rid \<noteq> []"
    "hook_name v = js ''PreToolUse'' \<or> hook_name v = js ''PermissionRequest''"
  shows "\<exists>card \<in> set (sp_pending_approvals (reduceEvents sid (earlier @ es))).
    pa_request_id card = rid \<and> pa_tool_name card = Some (hook_tool_name v)
    \<and> (case hook_command v of None \<Rightarrow> True
       | Some c \<Rightarrow> pa_command card = Some (summarize K MAX_COMMAND_LEN c)
           \<and> pa_risk_level card = Some (js (risk_str (classifyCommandRisk c))))
    \<and> sp_needs_attention (reduceEvents sid (earlier @ es))"
proof -
  obtain ev where ev: "es = [ev]" "ev_event_type ev = ET_tool_permission_requested" "ev_state ev = Some Waiting_approval"
    "payloadString (ev_payload ev) ''request_id'' = Some rid" "payloadString (ev_payload ev) ''tool_name'' = Some (hook_tool_name v)"
    "\<And>c. hook_command v = Some c \<Longrightarrow> payloadString (ev_payload ev) ''command'' = Some (summarize K MAX_COMMAND_LEN c)
      \<and> payloadString (ev_payload ev) ''risk_level'' = Some (js (risk_str (classifyCommandRisk c)))"
    using card_payload [OF assms] by blast
  let ?p = "reduceEvents sid earlier" and ?q = "reduceEvents sid (earlier @ es)"
  have "opens ev rid" by (simp add: opens_def ev)
  then have "pending_entry ev rid \<in> set (foldPendingApprovals (sp_pending_approvals ?p) ev)"
    using fold_opens_last [of ev rid "sp_pending_approvals ?p"] by fastforce
  moreover have "\<not> enters_terminal ?p ev"
    using run_open [of "[ev]" ?p] ev(3) by (simp add: enters_terminal_def apply_state terminal_opt_def isTerminalState_iff)
  ultimately have card: "pending_entry ev rid \<in> set (sp_pending_approvals ?q)"
    by (simp add: ev(1) apply_pending)
  then have "sp_needs_attention ?q" using reduce_wf [of sid "earlier @ es"] by (auto simp: projection_wf_def)
  with card ev(5,6) show ?thesis
    by (intro bexI [of _ "pending_entry ev rid"]) (auto simp: pending_entry_def split: option.split)
qed

section \<open>What stands behind a verified claim\<close>












lemma gate_kind_simps [simp]: "gateCheckKind (JStr (js (check_kind_str k))) = Some k" "gateCheckKind JUndef = None"
  by (cases k) (simp_all add: gateCheckKind_def enum_safeParse_def)



section \<open>Hooks in practice\<close>

definition sample_normalizer :: "string \<Rightarrow> string \<Rightarrow> normalizer" where
  "sample_normalizer eid now =
    \<lparr>nz_redactString = (\<lambda>s. s), nz_number = (\<lambda>n. js ''0''), nz_newEventId = (\<lambda>n. js eid @ [48 + n]), nz_now = js now,
     nz_schema = \<lparr>sk_redactDeepWithCount = (\<lambda>v. (v, jint 0, JObj [])), sk_parseEvent = (\<lambda>v. Inl []), sk_payload_ok = (\<lambda>v. True),
       sk_nowMs = 0, sk_now = js now\<rparr>\<rparr>"

definition no_context :: NormalizeContext where
  "no_context =
    \<lparr>nc_approvalRequestId = None, nc_guardTrigger = None, nc_guardSecretKinds = None, nc_autoAllowed = False, nc_guardPersistable = False,
     nc_persistGrant = False, nc_captureMode = None, nc_canonicalSessionId = None, nc_providerSessionId = None, nc_runStartKind = None,
     nc_resumedFromSessionId = None\<rparr>"

definition sample_hook :: "string \<Rightarrow> (jstring \<times> jsval) list \<Rightarrow> jsval" where
  "sample_hook name ps = JObj ([(js ''session_id'', JStr (js ''s'')), (js ''hook_event_name'', JStr (js name))] @ ps)"

definition hook_at :: "string \<Rightarrow> string \<Rightarrow> (jstring \<times> jsval) list \<Rightarrow> hook_call" where
  "hook_at now name ps = (sample_normalizer name now, no_context, sample_hook name ps)"

definition gated_hook :: jsval where
  "gated_hook = sample_hook ''PreToolUse'' [(js ''tool_name'', JStr (js ''Bash'')), (js ''tool_input'', JObj [(js ''command'', JStr (js ''rm -rf /''))])]"

theorem gated_call_card_witness:
  "\<exists>card \<in> set (sp_pending_approvals (reduceEvents (js ''s'')
      (the (normalizeHook (sample_normalizer ''e'' ''t'') (no_context\<lparr>nc_approvalRequestId := Some (js ''r1'')\<rparr>) gated_hook)))).
    pa_request_id card = js ''r1'' \<and> pa_risk_level card = Some (js ''high'')"
proof -
  let ?K = "sample_normalizer ''e'' ''t''" and ?ctx = "no_context\<lparr>nc_approvalRequestId := Some (js ''r1'')\<rparr>"
  have built: "normalizeHook ?K ?ctx gated_hook \<noteq> None" "hook_name gated_hook = js ''PreToolUse''"
    "hook_command gated_hook = Some (js ''rm -rf /'')" "classifyCommandRisk (js ''rm -rf /'') = Risk_high"
    by code_simp+
  then obtain es where es: "normalizeHook ?K ?ctx gated_hook = Some es" by blast
  from gated_call_card [OF es, of "js ''r1''" "js ''s''" "[]"] built show ?thesis
    by (auto simp: es)
qed







text \<open>
  Three sequences of hooks in which the projection loses the state of the session. A session that is started and ended
  without a prompt stays starting. An idle session that reports that it waits for input stays idle, and each report counts as an
  invalid transition. And a compaction that the user asks for while the session is idle leaves it as
  running, although no turn runs: its beginning is refused by the table and its end is not.
\<close>

theorem hook_lifecycle_gaps:
  "(let start = hook_at ''t'' ''SessionStart'' []; prompt = hook_at ''t'' ''UserPromptSubmit'' []; stop = hook_at ''t'' ''Stop'' [];
        idle = hook_at ''t'' ''Notification'' [(js ''notification_type'', JStr (js ''idle_prompt''))];
        compact = [hook_at ''t'' ''PreCompact'' [(js ''trigger'', JStr (js ''manual''))], hook_at ''t'' ''PostCompact'' []]
    in phase (reduceEvents sid (hook_stream [start, hook_at ''t'' ''SessionEnd'' []])) = (Some Starting, 1)
     \<and> phase (reduceEvents sid (hook_stream [start, prompt, stop, idle, idle])) = (Some Idle, 2)
     \<and> phase (reduceEvents sid (hook_stream ([start, prompt, stop] @ compact))) = (Some Running_model_wait, 1))"
proof -
  have "map ev_state (hook_events (hook_at ''t'' ''SessionStart'' [])) = [Some Starting]"
    "map ev_state (hook_events (hook_at ''t'' ''UserPromptSubmit'' [])) = [Some Running_model_wait]"
    "map ev_state (hook_events (hook_at ''t'' ''Stop'' [])) = [Some Idle]"
    "map ev_state (hook_events (hook_at ''t'' ''SessionEnd'' [])) = [Some Completed]"
    "map ev_state (hook_events (hook_at ''t'' ''PostCompact'' [])) = [Some Running_model_wait]"
    "map ev_state (hook_events (hook_at ''t'' ''Notification'' [(js ''notification_type'', JStr (js ''idle_prompt''))])) = [Some Waiting_user_input]"
    "map ev_state (hook_events (hook_at ''t'' ''PreCompact'' [(js ''trigger'', JStr (js ''manual''))])) = [Some Compacting]"
    by code_simp+
  then show ?thesis
    by (simp add: Let_def reduce_phase hook_stream_def isValidTransition_def state_groups isTerminalState_iff)
qed

end
