(* ===== verification/Spec2Isabelle.thy ===== *)
theory Spec2Isabelle
  imports
    Projection_Correct
    Work_Items_Correct
    Timestamps
    Approval_Gates
    Audit_Integrity_Correct
    Reconciler_Correct
    Control_Channel
    Attach_Correct
    Hook_Shim
    Liveness
    Realtime_Correct
    Receiver_Correct
    Command_Gate
    Check_Correct
    Normalizer_Correct
begin

text \<open>
  \<^bold>\<open>ActraDeck: a verification development.\<close>

  ActraDeck watches coding agents. A sidecar next to the agent receives its hook calls, turns them
  into normalised events and gates dangerous operations behind an operator's approval; a backend
  ingests the events, keeps a projection of every session, relays decisions back and exports signed
  audit reports; a web client shows the result.

  \<^bold>\<open>Theories and sources.\<close>

  \<^item> \<^verbatim>\<open>Prelude\<close>: JavaScript values as the code sees them (strings are lists of 16-bit code units,
    numbers are rationals with \<open>NaN\<close> and the infinities, objects are key lists in insertion order),
    lemmas on association lists and options, the collections the components use.
  \<^item> \<^verbatim>\<open>Session_States\<close>, \<^verbatim>\<open>Events\<close>: \<^verbatim>\<open>packages/event-model/src\<close> (\<^verbatim>\<open>state.ts\<close>, \<^verbatim>\<open>event-type.ts\<close>,
    \<^verbatim>\<open>event.ts\<close>, \<^verbatim>\<open>provider.ts\<close>, \<^verbatim>\<open>action-kind.ts\<close>, \<^verbatim>\<open>redaction-kinds.ts\<close>): the state machine of a
    session, the event vocabulary, the gate of redaction counts.
  \<^item> \<^verbatim>\<open>Session_Projection\<close>, \<^verbatim>\<open>Projection_Correct\<close>: \<^verbatim>\<open>packages/projection/src/index.ts\<close>, the reducer from
    events to the state of a session, and the JSON of pending approvals in
    \<^verbatim>\<open>apps/backend/src/ingest-store.ts\<close>.
  \<^item> \<^verbatim>\<open>Work_Items\<close>, \<^verbatim>\<open>Work_Items_Correct\<close>: \<^verbatim>\<open>packages/projection/src/work-items.ts\<close> with the vocabulary of
    \<^verbatim>\<open>packages/event-model/src/work-item.ts\<close>: claims of completed work and the checks that back them.
  \<^item> \<^verbatim>\<open>Timestamps\<close>: \<^verbatim>\<open>timestamp.ts\<close> and \<^verbatim>\<open>bounded-lru-map.ts\<close>: monotonicity of event times, unbounded and
    bounded.
  \<^item> \<^verbatim>\<open>Sha256\<close>, \<^verbatim>\<open>Json_Text\<close>: \<^verbatim>\<open>hash.ts\<close> at 32-bit width, and the text \<^verbatim>\<open>JSON.stringify\<close> gives.
  \<^item> \<^verbatim>\<open>Approval_Config\<close>: \<^verbatim>\<open>approval-timeout.ts\<close>, \<^verbatim>\<open>approval-request-id.ts\<close>, \<^verbatim>\<open>path-scope.ts\<close>,
    \<^verbatim>\<open>permission-mode.ts\<close>, the vocabularies and presets of \<^verbatim>\<open>payload.ts\<close>.
  \<^item> \<^verbatim>\<open>Grant_Store\<close>, \<^verbatim>\<open>Policy_Store\<close>: the two files of the sidecar
    (\<^verbatim>\<open>apps/sidecar/src/approval-allowlist-store.ts\<close>, \<^verbatim>\<open>approval-policy-store.ts\<close>).
  \<^item> \<^verbatim>\<open>Approval_Bridge\<close>, \<^verbatim>\<open>Approval_Bridge_Correct\<close>, \<^verbatim>\<open>Approval_Gates\<close>: \<^verbatim>\<open>apps/sidecar/src/approval-bridge.ts\<close>,
    the gate itself. An asynchronous call is cut at its awaits: what is suspended, what is pending
    and which timers are armed are fields of the state, so any interleaving is a sequence of steps.
  \<^item> \<^verbatim>\<open>Audit_Integrity\<close>, \<^verbatim>\<open>Audit_Integrity_Correct\<close>: \<^verbatim>\<open>apps/backend/src/audit-integrity.ts\<close> and
    \<^verbatim>\<open>audit-packet.ts\<close>: manifests and packets, how they are built and what their verification shows.
  \<^item> \<^verbatim>\<open>Wire_Formats\<close>: the four wire modules of \<^verbatim>\<open>packages/event-model/src\<close> (\<^verbatim>\<open>approval-reconcile-wire.ts\<close>,
    \<^verbatim>\<open>agent-visibility-wire.ts\<close>, \<^verbatim>\<open>observability-counters-wire.ts\<close>, \<^verbatim>\<open>codex-spawn-wire.ts\<close>).
  \<^item> \<^verbatim>\<open>Round_Trips\<close>, \<^verbatim>\<open>Sidecar_Registry\<close>, \<^verbatim>\<open>Sidecar_Registry_Correct\<close>, \<^verbatim>\<open>Relay_Correct\<close>, \<^verbatim>\<open>Presence_Correct\<close>:
    \<^verbatim>\<open>pending-round-trips.ts\<close> and \<^verbatim>\<open>sidecar-registry.ts\<close> of the backend: who owns a session, what is relayed
    over which connection, and who is told about presence.
  \<^item> \<^verbatim>\<open>Approval_Reconciler\<close>, \<^verbatim>\<open>Reconciler_Correct\<close>: \<^verbatim>\<open>approval-reconciler.ts\<close>, which retires approvals whose
    sidecar is gone.
  \<^item> \<^verbatim>\<open>Event_Delivery\<close>, \<^verbatim>\<open>Delivery_Correct\<close>: \<^verbatim>\<open>store.ts\<close>, \<^verbatim>\<open>ws-client.ts\<close>, \<^verbatim>\<open>sink.ts\<close> of the sidecar with
    \<^verbatim>\<open>token-equals.ts\<close> and \<^verbatim>\<open>redact-for-persist.ts\<close>: the append-only log and its transmission.
  \<^item> \<^verbatim>\<open>Control_Handlers\<close>, \<^verbatim>\<open>Control_Channel\<close>: the handlers of relayed decisions, grants and policies
    (\<^verbatim>\<open>sidecar.ts\<close>, \<^verbatim>\<open>allowlist-relay.ts\<close>, \<^verbatim>\<open>policy-relay.ts\<close>) and the composition with the registry of the
    backend, the client and the bridge.
  \<^item> \<^verbatim>\<open>Session_Identity\<close>, \<^verbatim>\<open>Session_Identity_Correct\<close>, \<^verbatim>\<open>Attach_Sessions\<close>, \<^verbatim>\<open>Attach_Correct\<close>:
    \<^verbatim>\<open>session-identity.ts\<close> and \<^verbatim>\<open>attach-session-registry.ts\<close>: which run an event belongs to.
  \<^item> \<^verbatim>\<open>Hook_Shim\<close>: \<^verbatim>\<open>hook-shim-core.ts\<close> and its entry \<^verbatim>\<open>hook-shim.ts\<close>, the process the agent starts before
    a tool call, which asks the daemon and fails closed.
  \<^item> \<^verbatim>\<open>Liveness\<close>: \<^verbatim>\<open>liveness.ts\<close>, \<^verbatim>\<open>liveness-signals.ts\<close> and the query of \<^verbatim>\<open>ingest-store.ts\<close> that computes
    the same: whether a session is alive, and on what evidence.
  \<^item> \<^verbatim>\<open>Realtime_Hub\<close>, \<^verbatim>\<open>Realtime_Correct\<close>: \<^verbatim>\<open>realtime-hub.ts\<close>, the frames of the browser in
    \<^verbatim>\<open>realtime-server.ts\<close> and the pushes of \<^verbatim>\<open>ingestion-server.ts\<close>: who is told what, and the way of a
    decision from the browser to the bridge.
  \<^item> \<^verbatim>\<open>Hook_Receiver\<close>, \<^verbatim>\<open>Receiver_Correct\<close>: \<^verbatim>\<open>hook-receiver.ts\<close>, the HTTP end of the sidecar: what a hook
    is answered, in composition with the bridge.
  \<^item> \<^verbatim>\<open>Shell_Lexer\<close>, \<^verbatim>\<open>Shell_Lexer_Correct\<close>: the lexer of shell commands in \<^verbatim>\<open>apps/sidecar/src/normalize.ts\<close>
    (\<^verbatim>\<open>splitSegments\<close>, \<^verbatim>\<open>readWord\<close>, \<^verbatim>\<open>collectSubstitutionInners\<close> and what they use), and a grammar of scripts whose
    text it reads back.
  \<^item> \<^verbatim>\<open>Js_Regex\<close>, \<^verbatim>\<open>Command_Risk\<close>, \<^verbatim>\<open>Command_Classifier\<close>, \<^verbatim>\<open>Command_Correct\<close>: the classifier of the same file
    (\<^verbatim>\<open>classifyCommandRisk\<close>, \<^verbatim>\<open>classifyCommandCategories\<close>, \<^verbatim>\<open>isNetworkEgressCommand\<close>, \<^verbatim>\<open>isPersistDeniedCommand\<close>), with its
    tables; a regular expression of the source is a value that a matcher interprets.
  \<^item> \<^verbatim>\<open>Command_Gate\<close>: the bridge run with that classifier.
  \<^item> \<^verbatim>\<open>Check_Classifier\<close>, \<^verbatim>\<open>Check_Correct\<close>: \<^verbatim>\<open>check-classifier.ts\<close>, which decides whether the exit code of a command may back a
    claim of completed work.
  \<^item> \<^verbatim>\<open>Hook_Normalizer\<close>, \<^verbatim>\<open>Normalizer_Correct\<close>: \<^verbatim>\<open>normalizeHook\<close> of \<^verbatim>\<open>normalize.ts\<close> and \<^verbatim>\<open>buildEvent\<close> of \<^verbatim>\<open>event-factory.ts\<close>:
    the events of a hook, in composition with the two projections.

  \<^bold>\<open>How state and time are modelled.\<close> A class is a record and a method a function on it. Objects that are
  shared (connections, sockets, session objects) live in a store and are named by their index. What a
  callback, a listener or a socket is told is appended to a log in the state. An await splits a
  method into a first part, a record of what is under way, and a continuation; a timer is an entry
  that is armed, and its callback an operation that does nothing unless the entry is there. A run
  is a list of such operations in any order, so a theorem about all runs is about all interleavings.

  \<^bold>\<open>What is an argument.\<close> Random and time-ordered identifiers, clocks, Ed25519 and the digest of the
  platform, base64, the schema checks of zod, the deep redaction of \<^verbatim>\<open>redactor.ts\<close>, the resolution of a
  repository, the collation of the locale, and whether a socket is open and a send succeeds.
  Theorems hold for all of them, or name what they need as a hypothesis that a witness instantiates.

  \<^bold>\<open>Bounds.\<close> Loops that end are total functions. The re-rolling of a request identifier that collides is
  bounded by 8, as in the source. The classifier of commands calls itself on inner commands up to the depth
  the source sets, and its scans end at the limits of the source, so no fuel of the model's own is needed. \<^verbatim>\<open>Date.parse\<close> is modelled on the ISO strings that the schema of an event
  admits; numbers are exact rationals, so the rounding of doubles beyond the safe integers is left out.

  \<^bold>\<open>What the lemmas show.\<close> Invariants are shown by the locale \<open>stream_fold\<close> of \<^verbatim>\<open>Prelude\<close> where a component
  is a fold, and frozen states by \<open>absorbing_fold\<close>; \<open>bounded_store\<close> of \<^verbatim>\<open>Timestamps\<close> is the
  contract of the bounded map that the time checker and the tombstones rely on. The
  approval bridge and the registry are shown by invariants over all interleavings; the audit by
  injectivity of the signed text; the delivery and presence by refinement of a log and a set.

  \<^bold>\<open>Not modelled.\<close> The user interface (React components and hooks, translations), the HTTP routes
  of the servers, SQL other than the query of the liveness, processes,
  git and the file system, the translation of the messages of Codex and of its transcripts into events, and the tables of
  regular expressions that find secrets.
\<close>

end
